(* ===== verification/DBC_Prelude.thy ===== *)
theory DBC_Prelude
  imports Main "HOL-Library.Word"
begin

text \<open>
  Shared vocabulary of the development: the types every pallet uses, the machine integer
  operations of Rust with their width written out, the origin checks of a dispatchable, the
  vector operations of the standard library that the pallets call, and the bookkeeping of sums
  over storage maps whose keys are handed out by a counter (\<open>owed_total\<close>). Rust integers are
  \<open>nat\<close>; every operation that can overflow takes the bit width as its first argument, and
  returns \<open>None\<close> or saturates exactly where the Rust operation does.
\<close>

named_theorems int_ops \<open>definitions of the integer operations\<close>
named_theorems origin_ops \<open>definitions of the origin checks\<close>

section \<open>Types\<close>

type_synonym account = nat
type_synonym balance = nat
type_synonym block_number = nat
type_synonym bytes = "8 word list"

datatype origin = Root | Signed account | Unsigned

definition ensure_signed :: "origin \<Rightarrow> account option" where
  "ensure_signed orig = (case orig of Signed who \<Rightarrow> Some who | _ \<Rightarrow> None)"

definition ensure_root :: "origin \<Rightarrow> bool" where
  "ensure_root orig \<longleftrightarrow> orig = Root"

definition ensure_none :: "origin \<Rightarrow> bool" where
  "ensure_none orig \<longleftrightarrow> orig = Unsigned"

lemma ensure_signed_simps [simp]:
  "ensure_signed (Signed who) = Some who"
  "ensure_signed Root = None"
  "ensure_signed Unsigned = None"
  by (simp_all add: ensure_signed_def)

lemma ensure_signed_Some [simp]: "ensure_signed orig = Some who \<longleftrightarrow> orig = Signed who"
  by (cases orig) simp_all

lemma ensure_signed_None: "ensure_signed orig = None \<longleftrightarrow> (\<forall>who. orig \<noteq> Signed who)"
  by (cases orig) simp_all

lemmas [origin_ops] = ensure_root_def ensure_none_def

section \<open>Machine integers\<close>

definition checked_add :: "nat \<Rightarrow> nat \<Rightarrow> nat \<Rightarrow> nat option" where
  [int_ops]: "checked_add w a b = (if a + b < 2 ^ w then Some (a + b) else None)"

definition checked_sub :: "nat \<Rightarrow> nat \<Rightarrow> nat option" where
  [int_ops]: "checked_sub a b = (if b \<le> a then Some (a - b) else None)"

definition checked_mul :: "nat \<Rightarrow> nat \<Rightarrow> nat \<Rightarrow> nat option" where
  [int_ops]: "checked_mul w a b = (if a * b < 2 ^ w then Some (a * b) else None)"

definition checked_div :: "nat \<Rightarrow> nat \<Rightarrow> nat option" where
  [int_ops]: "checked_div a b = (if b = 0 then None else Some (a div b))"

definition saturating_add :: "nat \<Rightarrow> nat \<Rightarrow> nat \<Rightarrow> nat" where
  [int_ops]: "saturating_add w a b = min (a + b) (2 ^ w - 1)"

definition saturating_mul :: "nat \<Rightarrow> nat \<Rightarrow> nat \<Rightarrow> nat" where
  [int_ops]: "saturating_mul w a b = min (a * b) (2 ^ w - 1)"

definition saturating_sub :: "nat \<Rightarrow> nat \<Rightarrow> nat" where
  [int_ops]: "saturating_sub a b = a - b"

definition saturated_into :: "nat \<Rightarrow> nat \<Rightarrow> nat" where
  [int_ops]: "saturated_into w a = min a (2 ^ w - 1)"

definition wrapping_add :: "nat \<Rightarrow> nat \<Rightarrow> nat \<Rightarrow> nat" where
  [int_ops]: "wrapping_add w a b = (a + b) mod 2 ^ w"

definition wrapping_sub :: "nat \<Rightarrow> nat \<Rightarrow> nat \<Rightarrow> nat" where
  [int_ops]: "wrapping_sub w a b = (if b \<le> a then a - b else a + 2 ^ w - b)"

definition wrapping_mul :: "nat \<Rightarrow> nat \<Rightarrow> nat \<Rightarrow> nat" where
  [int_ops]: "wrapping_mul w a b = (a * b) mod 2 ^ w"

lemma checked_add_Some: "checked_add w a b = Some c \<longleftrightarrow> c = a + b \<and> a + b < 2 ^ w"
  by (auto simp: int_ops)

lemma checked_sub_Some: "checked_sub a b = Some c \<longleftrightarrow> b \<le> a \<and> c = a - b"
  by (auto simp: int_ops)

lemma checked_mul_Some: "checked_mul w a b = Some c \<longleftrightarrow> c = a * b \<and> a * b < 2 ^ w"
  by (auto simp: int_ops)

lemma checked_div_Some: "checked_div a b = Some c \<longleftrightarrow> b \<noteq> 0 \<and> c = a div b"
  by (auto simp: int_ops)

lemmas checked_Some = checked_add_Some checked_sub_Some checked_mul_Some checked_div_Some

lemma saturating_add_less: "saturating_add w a b < 2 ^ w"
proof -
  have "0 < (2::nat) ^ w" by simp
  then show ?thesis unfolding saturating_add_def by linarith
qed

lemma saturating_add_exact: "a + b < 2 ^ w \<Longrightarrow> saturating_add w a b = a + b"
  by (simp add: int_ops)

lemma saturating_add_le: "saturating_add w a b \<le> a + b"
  by (simp add: int_ops)

section \<open>Vectors\<close>

text \<open>\<open>iter().position\<close>, \<open>swap_remove\<close> and \<open>try_push\<close> on (bounded) vectors.\<close>

fun position :: "'a \<Rightarrow> 'a list \<Rightarrow> nat option" where
  "position x [] = None"
| "position x (y # ys) = (if y = x then Some 0 else map_option Suc (position x ys))"

definition swap_remove :: "'a list \<Rightarrow> nat \<Rightarrow> 'a list" where
  "swap_remove xs i = butlast (xs[i := last xs])"

definition try_push :: "nat \<Rightarrow> 'a list \<Rightarrow> 'a \<Rightarrow> 'a list option" where
  "try_push bound xs x = (if length xs < bound then Some (xs @ [x]) else None)"

lemma try_push_Some: "try_push bound xs x = Some ys \<longleftrightarrow> length xs < bound \<and> ys = xs @ [x]"
  by (auto simp: try_push_def)

lemma position_Some: "position x xs = Some i \<Longrightarrow> i < length xs \<and> xs ! i = x"
  by (induction xs arbitrary: i) (auto split: if_splits)

lemma position_None: "position x xs = None \<longleftrightarrow> x \<notin> set xs"
  by (induction xs) auto

lemma swap_remove_split:
  assumes "i < length xs"
  shows "(i = length xs - 1 \<and> swap_remove xs i = butlast xs) \<or>
    (\<exists>as bs. xs = as @ xs ! i # bs @ [last xs] \<and> swap_remove xs i = as @ last xs # bs)"
proof (cases "i = length xs - 1")
  case True
  then have "xs[i := last xs] = xs"
    using assms by (metis last_conv_nth length_0_conv list_update_id not_less_zero)
  with True show ?thesis by (simp add: swap_remove_def)
next
  case False
  with assms have i: "Suc i < length xs" by simp
  let ?as = "take i xs" and ?cs = "drop (Suc i) xs"
  have xs: "xs = ?as @ xs ! i # ?cs" using assms by (simp add: id_take_nth_drop)
  have ne: "?cs \<noteq> []" using i by simp
  then have last: "last xs = last ?cs" using i by simp
  then have cs: "?cs = butlast ?cs @ [last xs]" using ne by (metis append_butlast_last_id)
  have len: "length ?as = i" using assms by simp
  have "xs[i := last xs] = ?as @ last xs # butlast ?cs @ [last xs]"
    using assms cs by (metis upd_conv_take_nth_drop)
  then have "swap_remove xs i = butlast (?as @ last xs # butlast ?cs @ [last xs])"
    by (simp add: swap_remove_def)
  also have "\<dots> = ?as @ last xs # butlast ?cs"
    by (metis append_Cons append_assoc butlast_snoc)
  finally show ?thesis using xs cs by metis
qed

lemma swap_remove_distinct:
  assumes "distinct xs" "i < length xs"
  shows "distinct (swap_remove xs i) \<and> set (swap_remove xs i) = set xs - {xs ! i}"
proof -
  consider "i = length xs - 1" "swap_remove xs i = butlast xs"
    | as bs where "xs = as @ xs ! i # bs @ [last xs]" "swap_remove xs i = as @ last xs # bs"
    using swap_remove_split [OF assms(2)] by blast
  then show ?thesis
  proof cases
    case 1
    from assms(2) have "xs \<noteq> []" by auto
    then have xs: "xs = butlast xs @ [xs ! i]"
      using 1(1) by (metis append_butlast_last_id last_conv_nth)
    with assms(1) have "distinct (butlast xs @ [xs ! i])" by metis
    moreover have "set xs = set (butlast xs) \<union> {xs ! i}"
      by (metis (no_types) xs set_append list.simps(15) list.set(1))
    ultimately show ?thesis using 1(2) by auto
  next
    case 2
    from 2(1) assms(1) have "distinct (as @ xs ! i # bs @ [last xs])" by metis
    moreover have "set xs = set (as @ xs ! i # bs @ [last xs])" using 2(1) by metis
    ultimately show ?thesis using 2(2) by auto
  qed
qed

section \<open>Sums over counter-keyed storage\<close>

text \<open>
  A pallet that takes money keeps a storage map from a counter to records, and each record owes
  an amount to some accounts until it is closed. \<open>owed_total f m n a\<close> is what all the records
  with keys below \<open>n\<close> owe on behalf of account \<open>a\<close>.
\<close>

definition owed_total :: "('o \<Rightarrow> account \<Rightarrow> nat) \<Rightarrow> (nat \<Rightarrow> 'o option) \<Rightarrow> nat \<Rightarrow> account \<Rightarrow> nat" where
  "owed_total f m n a = (\<Sum>i<n. case m i of None \<Rightarrow> 0 | Some x \<Rightarrow> f x a)"

lemma owed_total_0 [simp]: "owed_total f m 0 a = 0"
  by (simp add: owed_total_def)

lemma owed_total_new:
  "owed_total f (m(n \<mapsto> y)) (Suc n) a = owed_total f m n a + f y a"
proof -
  have "(\<Sum>i<n. case (m(n \<mapsto> y)) i of None \<Rightarrow> 0 | Some x \<Rightarrow> f x a) =
      (\<Sum>i<n. case m i of None \<Rightarrow> 0 | Some x \<Rightarrow> f x a)"
    by (rule sum.cong) auto
  then show ?thesis by (simp add: owed_total_def)
qed

lemma owed_total_split:
  assumes "i < n"
  shows "owed_total f m n a =
    (case m i of None \<Rightarrow> 0 | Some x \<Rightarrow> f x a) + owed_total f (m(i := None)) n a"
proof -
  let ?g = "\<lambda>m j. case m j of None \<Rightarrow> 0 | Some x \<Rightarrow> f x a"
  have "(\<Sum>j<n. ?g m j) = ?g m i + (\<Sum>j \<in> {..<n} - {i}. ?g m j)"
    using assms by (simp add: sum.remove)
  moreover have "(\<Sum>j<n. ?g (m(i := None)) j) = (\<Sum>j \<in> {..<n} - {i}. ?g (m(i := None)) j)"
    using assms by (simp add: sum.remove)
  moreover have "(\<Sum>j \<in> {..<n} - {i}. ?g (m(i := None)) j) = (\<Sum>j \<in> {..<n} - {i}. ?g m j)"
    by (rule sum.cong) auto
  ultimately show ?thesis by (simp add: owed_total_def)
qed

lemma owed_total_update:
  assumes "i < n" "m i = Some x"
  shows "owed_total f (m(i \<mapsto> y)) n a + f x a = owed_total f m n a + f y a"
  using owed_total_split [OF assms(1), of f m a] owed_total_split [OF assms(1), of f "m(i \<mapsto> y)" a]
    assms(2) by simp

lemma owed_total_remove:
  assumes "i < n" "m i = Some x"
  shows "owed_total f (m(i := None)) n a + f x a = owed_total f m n a"
  using owed_total_split [OF assms(1), of f m a] assms(2) by simp

lemma owed_total_item_le:
  assumes "i < n" "m i = Some x"
  shows "f x a \<le> owed_total f m n a"
  using owed_total_split [OF assms(1), of f m a] assms(2) by simp

lemma owed_total_items_le:
  assumes "i < n" "j < n" "i \<noteq> j" "m i = Some x" "m j = Some y"
  shows "f x a + f y a \<le> owed_total f m n a"
  using owed_total_split [OF assms(1), of f m a]
    owed_total_item_le [OF assms(2), of "m(i := None)" y f a] assms by simp

text \<open>The keys of a counter-keyed map are below the counter.\<close>

definition keys_below :: "(nat \<Rightarrow> 'o option) \<Rightarrow> nat \<Rightarrow> bool" where
  "keys_below m n \<longleftrightarrow> (\<forall>i. m i \<noteq> None \<longrightarrow> i < n)"

lemma keys_belowD: "keys_below m n \<Longrightarrow> m i = Some x \<Longrightarrow> i < n"
  by (simp add: keys_below_def)

lemma keys_below_new: "keys_below m n \<Longrightarrow> keys_below (m(n \<mapsto> y)) (Suc n)"
  by (auto simp: keys_below_def less_Suc_eq)

lemma keys_below_update: "keys_below m n \<Longrightarrow> i < n \<Longrightarrow> keys_below (m(i \<mapsto> y)) n"
  by (auto simp: keys_below_def)

lemma keys_below_fresh: "keys_below m n \<Longrightarrow> m n = None"
  by (auto simp: keys_below_def)

lemma keys_below_Suc: "keys_below m n \<Longrightarrow> keys_below m (Suc n)"
  by (auto simp: keys_below_def less_Suc_eq)

lemma owed_total_skip: "keys_below m n \<Longrightarrow> owed_total f m (Suc n) a = owed_total f m n a"
  using keys_below_fresh [of m n] by (simp add: owed_total_def)

section \<open>Little-endian bytes\<close>

text \<open>\<open>to_le_bytes\<close> of an unsigned integer of \<open>n\<close> bytes.\<close>

fun le_bytes :: "nat \<Rightarrow> nat \<Rightarrow> bytes" where
  "le_bytes 0 x = []"
| "le_bytes (Suc n) x = of_nat x # le_bytes n (x div 256)"

lemma length_le_bytes [simp]: "length (le_bytes n x) = n"
  by (induction n arbitrary: x) simp_all

lemma le_bytes_eq:
  "x < 256 ^ n \<Longrightarrow> y < 256 ^ n \<Longrightarrow> le_bytes n x = le_bytes n y \<longleftrightarrow> x = y"
proof (induction n arbitrary: x y)
  case 0
  then show ?case by simp
next
  case (Suc n)
  have "x div 256 < 256 ^ n" "y div 256 < 256 ^ n"
    using Suc.prems by (simp_all add: less_mult_imp_div_less mult.commute)
  then have "le_bytes n (x div 256) = le_bytes n (y div 256) \<longleftrightarrow> x div 256 = y div 256"
    by (rule Suc.IH)
  moreover have "(of_nat x :: 8 word) = of_nat y \<longleftrightarrow> x mod 256 = y mod 256"
    by (simp add: word_of_nat_eq_iff take_bit_eq_mod)
  ultimately show ?case by simp (metis mod_div_mult_eq)
qed

lemma inj_on_le_bytes: "inj_on (le_bytes n) {..<256 ^ n}"
  by (rule inj_onI) (simp add: le_bytes_eq)

section \<open>Ignored results\<close>

text \<open>\<open>let _ = f(...)\<close>: a failing call changes nothing and is ignored.\<close>

definition ignoring :: "('a \<Rightarrow> 'a option) \<Rightarrow> 'a \<Rightarrow> 'a" where
  "ignoring f s = (case f s of None \<Rightarrow> s | Some s' \<Rightarrow> s')"

end
