(* ===== verification/Currency.thy ===== *)
theory Currency
  imports DBC_Prelude
begin

text \<open>
  The pallets move money through \<open>T::Currency\<close>, a \<open>ReservableCurrency\<close> of the Substrate
  framework, and scale amounts with \<open>Percent\<close> and \<open>Perbill\<close>. Neither is part of this
  repository, so both are parameters here: a record of operations over an opaque world \<open>'w\<close>
  (the ledger, and everything else a pallet does not own), and a locale with the documented laws
  of those operations. \<open>ledger_ops\<close> and \<open>perthing_ops_ref\<close> are concrete operations that satisfy
  the laws. \<open>lift_currency\<close> runs the same currency on a larger state, which is how several
  pallets of one runtime share one ledger.
\<close>

section \<open>The currency interface\<close>

datatype existence_requirement = KeepAlive | AllowDeath

record 'w currency_ops =
  free_balance :: "'w \<Rightarrow> account \<Rightarrow> balance"
  reserved_balance :: "'w \<Rightarrow> account \<Rightarrow> balance"
  can_reserve :: "'w \<Rightarrow> account \<Rightarrow> balance \<Rightarrow> bool"
  reserve :: "account \<Rightarrow> balance \<Rightarrow> 'w \<Rightarrow> 'w option"
  unreserve :: "account \<Rightarrow> balance \<Rightarrow> 'w \<Rightarrow> 'w \<times> balance"
  slash_reserved :: "account \<Rightarrow> balance \<Rightarrow> 'w \<Rightarrow> 'w \<times> balance"
  repatriate_reserved :: "account \<Rightarrow> account \<Rightarrow> balance \<Rightarrow> 'w \<Rightarrow> ('w \<times> balance) option"
  transfer :: "account \<Rightarrow> account \<Rightarrow> balance \<Rightarrow> existence_requirement \<Rightarrow> 'w \<Rightarrow> 'w option"
  deposit_into_existing :: "account \<Rightarrow> balance \<Rightarrow> 'w \<Rightarrow> 'w option"

text \<open>
  The laws are the documented contract of the traits. \<open>reserve\<close> moves exactly the amount or
  fails; \<open>unreserve\<close>, \<open>slash_reserved\<close> and \<open>repatriate_reserved\<close> move as much as is reserved
  and return what is missing; \<open>repatriate_reserved\<close> puts the amount into the free balance of the
  beneficiary (the pallets always pass \<open>BalanceStatus::Free\<close>) and may fail; \<open>transfer\<close> moves free
  balance or fails; a reserved balance is a \<open>u128\<close>.
\<close>

locale reservable_currency =
  fixes C :: "'w currency_ops"
  assumes reserve_law: "reserve C a v w = Some w' \<Longrightarrow>
      v \<le> free_balance C w a \<and>
      free_balance C w' = (free_balance C w)(a := free_balance C w a - v) \<and>
      reserved_balance C w' = (reserved_balance C w)(a := reserved_balance C w a + v)"
    and unreserve_law: "unreserve C a v w = (w', r) \<Longrightarrow>
      r = v - min v (reserved_balance C w a) \<and>
      free_balance C w' = (free_balance C w)(a := free_balance C w a + min v (reserved_balance C w a)) \<and>
      reserved_balance C w' = (reserved_balance C w)(a := reserved_balance C w a - v)"
    and slash_reserved_law: "slash_reserved C a v w = (w', r) \<Longrightarrow>
      r = v - min v (reserved_balance C w a) \<and>
      free_balance C w' = free_balance C w \<and>
      reserved_balance C w' = (reserved_balance C w)(a := reserved_balance C w a - v)"
    and repatriate_reserved_law: "repatriate_reserved C a b v w = Some (w', r) \<Longrightarrow>
      r = v - min v (reserved_balance C w a) \<and>
      free_balance C w' = (free_balance C w)(b := free_balance C w b + min v (reserved_balance C w a)) \<and>
      reserved_balance C w' = (reserved_balance C w)(a := reserved_balance C w a - v)"
    and transfer_law: "transfer C a b v e w = Some w' \<Longrightarrow>
      v \<le> free_balance C w a \<and>
      free_balance C w' =
        (let f = (free_balance C w)(a := free_balance C w a - v) in f(b := f b + v)) \<and>
      reserved_balance C w' = reserved_balance C w"
    and deposit_into_existing_law: "deposit_into_existing C a v w = Some w' \<Longrightarrow>
      free_balance C w' = (free_balance C w)(a := free_balance C w a + v) \<and>
      reserved_balance C w' = reserved_balance C w"
    and reserved_bounded: "reserved_balance C w a < 2 ^ 128"
begin

lemma reserve_reserved:
  "reserve C a v w = Some w' \<Longrightarrow>
    reserved_balance C w' b = reserved_balance C w b + (if b = a then v else 0)"
  by (auto dest!: reserve_law)

lemma unreserve_reserved:
  "reserved_balance C (fst (unreserve C a v w)) b =
    reserved_balance C w b - (if b = a then v else 0)"
  by (cases "unreserve C a v w") (auto dest!: unreserve_law)

lemma unreserve_free:
  "free_balance C (fst (unreserve C a v w)) b =
    free_balance C w b + (if b = a then min v (reserved_balance C w a) else 0)"
  by (cases "unreserve C a v w") (auto dest!: unreserve_law)

lemma unreserve_total:
  "free_balance C (fst (unreserve C a v w)) b + reserved_balance C (fst (unreserve C a v w)) b =
    free_balance C w b + reserved_balance C w b"
  by (auto simp: unreserve_free unreserve_reserved)

lemma slash_reserved_reserved:
  "reserved_balance C (fst (slash_reserved C a v w)) b =
    reserved_balance C w b - (if b = a then v else 0)"
  by (cases "slash_reserved C a v w") (auto dest!: slash_reserved_law)

lemma slash_reserved_rest: "snd (slash_reserved C a v w) = v - min v (reserved_balance C w a)"
  by (cases "slash_reserved C a v w") (auto dest!: slash_reserved_law)

lemma repatriate_reserved_reserved:
  "repatriate_reserved C a b v w = Some (w', r) \<Longrightarrow>
    reserved_balance C w' c = reserved_balance C w c - (if c = a then v else 0)"
  by (auto dest!: repatriate_reserved_law)

lemma repatriate_reserved_free:
  "repatriate_reserved C a b v w = Some (w', r) \<Longrightarrow>
    free_balance C w' c =
      free_balance C w c + (if c = b then min v (reserved_balance C w a) else 0)"
  by (auto dest!: repatriate_reserved_law)

lemma repatriate_reserved_rest:
  "repatriate_reserved C a b v w = Some (w', r) \<Longrightarrow> r = v - min v (reserved_balance C w a)"
  by (auto dest!: repatriate_reserved_law)

lemma transfer_reserved:
  "transfer C a b v e w = Some w' \<Longrightarrow> reserved_balance C w' = reserved_balance C w"
  by (auto dest!: transfer_law)

lemma transfer_self_free:
  "transfer C a a v e w = Some w' \<Longrightarrow> free_balance C w' = free_balance C w"
  by (auto dest!: transfer_law simp: Let_def)

end

lemmas currency_reserved =
  reservable_currency.reserve_reserved
  reservable_currency.unreserve_reserved
  reservable_currency.slash_reserved_reserved
  reservable_currency.repatriate_reserved_reserved
  reservable_currency.transfer_reserved

section \<open>A concrete ledger\<close>

record ledger =
  ledger_free :: "account \<Rightarrow> balance"
  ledger_reserved :: "account \<Rightarrow> balance"

text \<open>The reserved field is read as a \<open>u128\<close>.\<close>

definition ledger_held :: "ledger \<Rightarrow> account \<Rightarrow> balance" where
  "ledger_held l a = min (ledger_reserved l a) (2 ^ 128 - 1)"

definition ledger_reserve :: "account \<Rightarrow> balance \<Rightarrow> ledger \<Rightarrow> ledger option" where
  "ledger_reserve a v l =
     (if v \<le> ledger_free l a \<and> ledger_held l a + v < 2 ^ 128
      then Some (l\<lparr>ledger_free := (ledger_free l)(a := ledger_free l a - v),
                   ledger_reserved := (ledger_reserved l)(a := ledger_held l a + v)\<rparr>)
      else None)"

definition ledger_repatriate ::
    "account \<Rightarrow> account \<Rightarrow> balance \<Rightarrow> ledger \<Rightarrow> ledger \<times> balance" where
  "ledger_repatriate a b v l =
     (let m = min v (ledger_held l a) in
      (l\<lparr>ledger_reserved := (ledger_reserved l)(a := ledger_held l a - v),
         ledger_free := (ledger_free l)(b := ledger_free l b + m)\<rparr>, v - m))"

definition ledger_slash_reserved :: "account \<Rightarrow> balance \<Rightarrow> ledger \<Rightarrow> ledger \<times> balance" where
  "ledger_slash_reserved a v l =
     (l\<lparr>ledger_reserved := (ledger_reserved l)(a := ledger_held l a - v)\<rparr>,
      v - min v (ledger_held l a))"

definition ledger_transfer :: "account \<Rightarrow> account \<Rightarrow> balance \<Rightarrow> ledger \<Rightarrow> ledger option" where
  "ledger_transfer a b v l =
     (if v \<le> ledger_free l a
      then (let f = (ledger_free l)(a := ledger_free l a - v)
            in Some (l\<lparr>ledger_free := f(b := f b + v)\<rparr>))
      else None)"

definition ledger_deposit :: "account \<Rightarrow> balance \<Rightarrow> ledger \<Rightarrow> ledger" where
  "ledger_deposit a v l = l\<lparr>ledger_free := (ledger_free l)(a := ledger_free l a + v)\<rparr>"

definition ledger_ops :: "ledger currency_ops" where
  "ledger_ops =
     \<lparr>free_balance = ledger_free, reserved_balance = ledger_held,
      can_reserve = (\<lambda>l a v. v \<le> ledger_free l a),
      reserve = ledger_reserve,
      unreserve = (\<lambda>a v. ledger_repatriate a a v),
      slash_reserved = ledger_slash_reserved,
      repatriate_reserved = (\<lambda>a b v l. Some (ledger_repatriate a b v l)),
      transfer = (\<lambda>a b v e l. ledger_transfer a b v l),
      deposit_into_existing = (\<lambda>a v l. Some (ledger_deposit a v l))\<rparr>"

lemma ledger_ops_sel:
  "free_balance ledger_ops = ledger_free" "reserved_balance ledger_ops = ledger_held"
  "can_reserve ledger_ops l a v \<longleftrightarrow> v \<le> ledger_free l a" "reserve ledger_ops = ledger_reserve"
  "unreserve ledger_ops a v = ledger_repatriate a a v" "slash_reserved ledger_ops = ledger_slash_reserved"
  "repatriate_reserved ledger_ops a b v l = Some (ledger_repatriate a b v l)"
  "transfer ledger_ops a b v e l = ledger_transfer a b v l"
  "deposit_into_existing ledger_ops a v l = Some (ledger_deposit a v l)"
  by (simp_all add: ledger_ops_def)

lemmas ledger_defs = ledger_ops_sel ledger_held_def ledger_reserve_def ledger_repatriate_def
  ledger_slash_reserved_def ledger_transfer_def ledger_deposit_def

lemma ledger_held_less: "ledger_held l a < 2 ^ 128"
  by (simp add: ledger_held_def)

lemma ledger_held_free [simp]: "ledger_held (ledger_free_update f l) = ledger_held l"
  by (simp add: ledger_held_def fun_eq_iff)

lemma ledger_held_minus [simp]:
  "ledger_held (l\<lparr>ledger_reserved := (ledger_reserved l)(a := ledger_held l a - v)\<rparr>) =
    (ledger_held l)(a := ledger_held l a - v)"
proof -
  have "min (ledger_held l a - v) (2 ^ 128 - 1) = ledger_held l a - v"
    using ledger_held_less [of l a] by (intro min_absorb1) linarith
  then show ?thesis unfolding ledger_held_def fun_eq_iff by simp
qed

lemma ledger_reserve_Some:
  assumes "ledger_reserve a v l = Some l'"
  shows "v \<le> ledger_free l a" "ledger_free l' = (ledger_free l)(a := ledger_free l a - v)"
    "ledger_held l' = (ledger_held l)(a := ledger_held l a + v)"
proof -
  have "ledger_held l a + v < 2 ^ 128" and v: "v \<le> ledger_free l a"
    and l': "l' = l\<lparr>ledger_free := (ledger_free l)(a := ledger_free l a - v),
      ledger_reserved := (ledger_reserved l)(a := ledger_held l a + v)\<rparr>"
    using assms unfolding ledger_reserve_def by (metis option.distinct(1) option.inject)+
  then have "min (ledger_held l a + v) (2 ^ 128 - 1) = ledger_held l a + v" by (intro min_absorb1) linarith
  then show "ledger_held l' = (ledger_held l)(a := ledger_held l a + v)"
    unfolding ledger_held_def fun_eq_iff l' by simp
  show "v \<le> ledger_free l a" "ledger_free l' = (ledger_free l)(a := ledger_free l a - v)"
    using v by (simp_all add: l')
qed

interpretation ledger: reservable_currency ledger_ops
proof unfold_locales
  fix w a
  show "reserved_balance ledger_ops w a < 2 ^ 128"
    unfolding ledger_ops_def currency_ops.simps by (rule ledger_held_less)
qed (auto simp: ledger_ops_def ledger_repatriate_def ledger_slash_reserved_def ledger_transfer_def
    ledger_deposit_def Let_def dest: ledger_reserve_Some split: if_splits)

section \<open>The same currency on a larger state\<close>

definition lift_currency ::
    "('s \<Rightarrow> 'w) \<Rightarrow> ('w \<Rightarrow> 's \<Rightarrow> 's) \<Rightarrow> 'w currency_ops \<Rightarrow> 's currency_ops" where
  "lift_currency get put C =
     \<lparr>free_balance = (\<lambda>s. free_balance C (get s)),
      reserved_balance = (\<lambda>s. reserved_balance C (get s)),
      can_reserve = (\<lambda>s. can_reserve C (get s)),
      reserve = (\<lambda>a v s. map_option (\<lambda>w. put w s) (reserve C a v (get s))),
      unreserve = (\<lambda>a v s. case unreserve C a v (get s) of (w, r) \<Rightarrow> (put w s, r)),
      slash_reserved = (\<lambda>a v s. case slash_reserved C a v (get s) of (w, r) \<Rightarrow> (put w s, r)),
      repatriate_reserved =
        (\<lambda>a b v s. map_option (\<lambda>(w, r). (put w s, r)) (repatriate_reserved C a b v (get s))),
      transfer = (\<lambda>a b v e s. map_option (\<lambda>w. put w s) (transfer C a b v e (get s))),
      deposit_into_existing =
        (\<lambda>a v s. map_option (\<lambda>w. put w s) (deposit_into_existing C a v (get s)))\<rparr>"

lemma lift_currency_simps [simp]:
  "free_balance (lift_currency get put C) s = free_balance C (get s)"
  "reserved_balance (lift_currency get put C) s = reserved_balance C (get s)"
  by (simp_all add: lift_currency_def)

lemma lift_currency_sel:
  "can_reserve (lift_currency get put C) s = can_reserve C (get s)"
  "reserve (lift_currency get put C) a v s = map_option (\<lambda>w. put w s) (reserve C a v (get s))"
  "unreserve (lift_currency get put C) a v s = (case unreserve C a v (get s) of (w, r) \<Rightarrow> (put w s, r))"
  "slash_reserved (lift_currency get put C) a v s =
    (case slash_reserved C a v (get s) of (w, r) \<Rightarrow> (put w s, r))"
  "repatriate_reserved (lift_currency get put C) a b v s =
    map_option (\<lambda>(w, r). (put w s, r)) (repatriate_reserved C a b v (get s))"
  "transfer (lift_currency get put C) a b v e s = map_option (\<lambda>w. put w s) (transfer C a b v e (get s))"
  by (simp_all add: lift_currency_def)

lemma lift_reservable_currency:
  assumes "reservable_currency C" "\<And>w s. get (put w s) = w"
  shows "reservable_currency (lift_currency get put C)"
proof -
  note laws = reservable_currency.reserve_law [OF assms(1)]
    reservable_currency.unreserve_law [OF assms(1)]
    reservable_currency.slash_reserved_law [OF assms(1)]
    reservable_currency.repatriate_reserved_law [OF assms(1)]
    reservable_currency.transfer_law [OF assms(1)]
    reservable_currency.deposit_into_existing_law [OF assms(1)]
  show ?thesis
  proof unfold_locales
    fix w a
    show "reserved_balance (lift_currency get put C) w a < 2 ^ 128"
      unfolding lift_currency_simps by (rule reservable_currency.reserved_bounded [OF assms(1)])
  qed (auto simp: lift_currency_def assms(2) Let_def dest!: laws split: prod.splits)
qed

section \<open>Fractions of an amount\<close>

text \<open>
  \<open>Percent\<close> and \<open>Perbill\<close> count parts of an accuracy \<open>A\<close> (100 and 1000000000). Multiplying an
  amount with one rounds to the nearest integer and prefers the lower one in a tie;
  \<open>from_percent\<close> saturates at one hundred percent. \<open>from_rational\<close> is a part of \<open>A\<close> for every
  numerator and denominator, and rounds down where the denominator is not beyond the accuracy.
\<close>

definition PERBILL :: nat where "PERBILL = 1000000000"

record perthing_ops =
  pmul :: "nat \<Rightarrow> nat \<Rightarrow> nat \<Rightarrow> nat"
  from_percent :: "nat \<Rightarrow> nat"
  from_rational :: "nat \<Rightarrow> nat \<Rightarrow> nat \<Rightarrow> nat"

locale perthing =
  fixes P :: perthing_ops
  assumes pmul_lower: "0 < A \<Longrightarrow> p \<le> A \<Longrightarrow> 2 * p * x \<le> 2 * A * pmul P A p x + A"
    and pmul_upper: "0 < A \<Longrightarrow> p \<le> A \<Longrightarrow> 2 * A * pmul P A p x < 2 * p * x + A"
    and from_percent_law: "from_percent P p = min p 100 * 10000000"
    and from_rational_le: "from_rational P A p q \<le> A"
    and from_rational_law: "0 < q \<Longrightarrow> q \<le> A \<Longrightarrow> from_rational P A p q = min p q * A div q"
begin

lemma pmul_le:
  assumes "0 < A" "p \<le> A"
  shows "pmul P A p x \<le> x"
proof (rule ccontr)
  assume "\<not> pmul P A p x \<le> x"
  then have "2 * A * (x + 1) \<le> 2 * A * pmul P A p x" by (intro mult_le_mono2) simp
  also have "\<dots> < 2 * p * x + A" by (rule pmul_upper [OF assms])
  also have "\<dots> \<le> 2 * A * x + A" using assms(2) by simp
  finally show False using assms(1) by (simp add: algebra_simps)
qed

text \<open>The two parts of a split in \<open>p\<close> and \<open>A - p\<close> parts never exceed the whole, and lose at most one.\<close>

lemma pmul_complement:
  assumes "0 < A" "p \<le> A"
  shows "pmul P A p x + pmul P A (A - p) x \<le> x \<and> x \<le> pmul P A p x + pmul P A (A - p) x + 1"
proof -
  let ?r = "pmul P A p x" and ?s = "pmul P A (A - p) x"
  have split: "2 * p * x + 2 * (A - p) * x = 2 * A * x"
    using assms(2) by (metis add_mult_distrib distrib_left le_add_diff_inverse)
  have "2 * A * ?r + 2 * A * ?s < 2 * A * x + 2 * A"
    using pmul_upper [OF assms, of x] pmul_upper [OF assms(1), of "A - p" x] split by linarith
  then have "2 * A * (?r + ?s) < 2 * A * (x + 1)" by (simp add: algebra_simps)
  then have up: "?r + ?s < x + 1" by (metis mult_less_cancel1)
  have "2 * A * x \<le> 2 * A * ?r + 2 * A * ?s + 2 * A"
    using pmul_lower [OF assms, of x] pmul_lower [OF assms(1), of "A - p" x] split by linarith
  then have "2 * A * x \<le> 2 * A * (?r + ?s + 1)" by (simp add: algebra_simps)
  then have "x \<le> ?r + ?s + 1" using assms(1) by (metis mult_le_cancel1 nat_0_less_mult_iff zero_less_numeral)
  with up show ?thesis by simp
qed

end

definition perthing_ops_ref :: perthing_ops where
  "perthing_ops_ref =
     \<lparr>pmul = (\<lambda>A p x. (2 * p * x + A - 1) div (2 * A)),
      from_percent = (\<lambda>p. min p 100 * 10000000),
      from_rational = (\<lambda>A p q. if q = 0 then A else min p q * A div q)\<rparr>"

lemma perthing_ops_ref_sel:
  "pmul perthing_ops_ref A p x = (2 * p * x + A - 1) div (2 * A)"
  "from_percent perthing_ops_ref p = min p 100 * 10000000"
  "from_rational perthing_ops_ref A p q = (if q = 0 then A else min p q * A div q)"
  by (simp_all add: perthing_ops_ref_def)

interpretation perthing_ref: perthing perthing_ops_ref
proof unfold_locales
  fix A p x :: nat
  assume A: "0 < A"
  let ?n = "2 * p * x + A - 1"
  have dm: "?n = 2 * A * (?n div (2 * A)) + ?n mod (2 * A)" by simp
  have m: "?n mod (2 * A) < 2 * A" using A by simp
  show "2 * p * x \<le> 2 * A * pmul perthing_ops_ref A p x + A"
    unfolding perthing_ops_ref_def perthing_ops.simps using dm m A by linarith
  show "2 * A * pmul perthing_ops_ref A p x < 2 * p * x + A"
    unfolding perthing_ops_ref_def perthing_ops.simps using dm A by linarith
next
  fix p :: nat
  show "from_percent perthing_ops_ref p = min p 100 * 10000000"
    by (simp add: perthing_ops_ref_def)
next
  fix A p q :: nat
  have "min p q * A div q \<le> q * A div q" by (intro div_le_mono mult_le_mono1) simp
  then show "from_rational perthing_ops_ref A p q \<le> A" by (auto simp: perthing_ops_ref_def split: if_splits)
qed (simp add: perthing_ops_ref_def)

end
