(* ===== verification/Dbc_Price.thy ===== *)
theory Dbc_Price
  imports DBC_Prelude
begin

text \<open>
  The price oracle \<open>pallets/dbc-price-ocw/src/lib.rs\<close>: a window of at most 64 submitted prices,
  the average published once the window is full, and the \<open>DbcPrice\<close> trait
  (\<open>pallets/support/src/traits.rs\<close>) through which other pallets convert a value in
  micro-dollars to an amount of DBC. The HTTP request of the off-chain worker is not modelled;
  its decision to fetch, and every transaction it can lead to, are. The locale \<open>dbc_price\<close> is
  the trait as its clients see it.
\<close>

section \<open>State and helpers\<close>

datatype dp_error = BadOrigin | IndexOutOfRange

datatype dp_event = AddNewPrice nat | AddAvgPrice nat

record dp_state =
  PriceUpdateFrequency :: nat
  Prices :: "nat list"
  PriceURL :: "bytes list option"
  AvgPrice :: "nat option"
  dp_events :: "dp_event list"

definition MAX_LEN :: nat where
  "MAX_LEN = 64"

definition dp_init :: dp_state where
  "dp_init = \<lparr>PriceUpdateFrequency = 10, Prices = [], PriceURL = None, AvgPrice = None, dp_events = []\<rparr>"

definition add_price :: "nat \<Rightarrow> dp_state \<Rightarrow> dp_state" where
  "add_price price s =
     (let prices = Prices s;
          prices = (if length prices \<ge> MAX_LEN then tl prices else prices)
      in s\<lparr>Prices := prices @ [price], dp_events := dp_events s @ [AddNewPrice price]\<rparr>)"

definition add_avg_price :: "dp_state \<Rightarrow> dp_state" where
  "add_avg_price s =
     (let prices = Prices s in
      if length prices \<noteq> MAX_LEN then s
      else let avg_price = foldl (saturating_add 64) 0 prices div length prices
           in s\<lparr>AvgPrice := Some avg_price, dp_events := dp_events s @ [AddAvgPrice avg_price]\<rparr>)"

section \<open>Dispatchables\<close>

definition submit_price_unsigned :: "origin \<Rightarrow> nat \<Rightarrow> dp_state \<Rightarrow> dp_error + dp_state" where
  "submit_price_unsigned orig price s =
     (if \<not> ensure_none orig then Inl BadOrigin
      else Inr (add_avg_price (add_price price s)))"

definition submit_price_by_root :: "origin \<Rightarrow> nat \<Rightarrow> dp_state \<Rightarrow> dp_error + dp_state" where
  "submit_price_by_root orig price s =
     (if \<not> ensure_root orig then Inl BadOrigin
      else Inr (add_avg_price (add_price price s)))"

definition add_price_url :: "origin \<Rightarrow> bytes \<Rightarrow> dp_state \<Rightarrow> dp_error + dp_state" where
  "add_price_url orig new_url s =
     (if \<not> ensure_root orig then Inl BadOrigin
      else let price_url = (case PriceURL s of None \<Rightarrow> [] | Some urls \<Rightarrow> urls)
           in Inr (s\<lparr>PriceURL := Some (price_url @ [new_url])\<rparr>))"

definition set_price_update_frequency :: "origin \<Rightarrow> nat \<Rightarrow> dp_state \<Rightarrow> dp_error + dp_state" where
  "set_price_update_frequency orig frequency s =
     (if \<not> ensure_root orig then Inl BadOrigin
      else if frequency = 0 then Inr s
      else Inr (s\<lparr>PriceUpdateFrequency := frequency\<rparr>))"

definition rm_price_url_by_index :: "origin \<Rightarrow> nat \<Rightarrow> dp_state \<Rightarrow> dp_error + dp_state" where
  "rm_price_url_by_index orig index s =
     (if \<not> ensure_root orig then Inl BadOrigin
      else let price_url = (case PriceURL s of None \<Rightarrow> [] | Some urls \<Rightarrow> urls) in
        if \<not> index < length price_url then Inl IndexOutOfRange
        else let price_url = take index price_url @ drop (Suc index) price_url
             in Inr (s\<lparr>PriceURL := (if price_url = [] then None else Some price_url)\<rparr>))"

datatype dp_call =
    SubmitPriceUnsigned nat | SubmitPriceByRoot nat | AddPriceUrl bytes
  | SetPriceUpdateFrequency nat | RmPriceUrlByIndex nat

fun dp_dispatch :: "origin \<Rightarrow> dp_call \<Rightarrow> dp_state \<Rightarrow> dp_error + dp_state" where
  "dp_dispatch orig (SubmitPriceUnsigned p) s = submit_price_unsigned orig p s"
| "dp_dispatch orig (SubmitPriceByRoot p) s = submit_price_by_root orig p s"
| "dp_dispatch orig (AddPriceUrl u) s = add_price_url orig u s"
| "dp_dispatch orig (SetPriceUpdateFrequency f) s = set_price_update_frequency orig f s"
| "dp_dispatch orig (RmPriceUrlByIndex i) s = rm_price_url_by_index orig i s"

text \<open>\<open>validate_unsigned\<close>: which calls the transaction pool accepts without a signature.\<close>

definition validate_unsigned :: "dp_call \<Rightarrow> bool" where
  "validate_unsigned c = (case c of SubmitPriceUnsigned _ \<Rightarrow> True | _ \<Rightarrow> False)"

text \<open>The off-chain worker fetches a price in this block.\<close>

definition offchain_worker :: "block_number \<Rightarrow> dp_state \<Rightarrow> bool" where
  "offchain_worker block_number s =
     (if PriceURL s = None then False
      else if PriceUpdateFrequency s = 0 then False
      else block_number mod PriceUpdateFrequency s = 0)"

section \<open>The \<open>DbcPrice\<close> trait\<close>

definition get_dbc_price :: "dp_state \<Rightarrow> balance option" where
  "get_dbc_price s = map_option (saturated_into 128) (AvgPrice s)"

definition get_dbc_amount_by_value :: "nat \<Rightarrow> dp_state \<Rightarrow> balance option" where
  "get_dbc_amount_by_value val s =
     (let one_dbc = saturated_into 128 1000000000000000 in
      case AvgPrice s of None \<Rightarrow> None
      | Some avg \<Rightarrow>
          let dbc_price = saturated_into 128 avg in
          case checked_mul 128 (saturated_into 128 val) one_dbc of None \<Rightarrow> None
          | Some v \<Rightarrow> checked_div v dbc_price)"

definition get_dlc_amount_by_value :: "nat \<Rightarrow> balance option" where
  "get_dlc_amount_by_value val =
     (let one_dlc = saturated_into 128 1000000000000000; dlc_price = 3000 in
      case checked_mul 128 (saturated_into 128 val) one_dlc of None \<Rightarrow> None
      | Some v \<Rightarrow> checked_div v dlc_price)"

record 'w dbc_price_ops =
  price_of :: "'w \<Rightarrow> balance option"
  amount_by_value :: "'w \<Rightarrow> nat \<Rightarrow> balance option"

definition dp_price_ops :: "('w \<Rightarrow> dp_state) \<Rightarrow> 'w dbc_price_ops" where
  "dp_price_ops get =
     \<lparr>price_of = (\<lambda>w. get_dbc_price (get w)),
      amount_by_value = (\<lambda>w val. get_dbc_amount_by_value val (get w))\<rparr>"

lemma dp_price_ops_sel:
  "price_of (dp_price_ops get) w = get_dbc_price (get w)"
  "amount_by_value (dp_price_ops get) w val = get_dbc_amount_by_value val (get w)"
  by (simp_all add: dp_price_ops_def)

locale dbc_price =
  fixes D :: "'w dbc_price_ops"
  assumes amount_law: "val < 2 ^ 64 \<Longrightarrow> amount_by_value D w val =
    (case price_of D w of None \<Rightarrow> None
     | Some p \<Rightarrow> if p = 0 then None else Some (val * 1000000000000000 div p))"
begin

lemma amount_total:
  "val < 2 ^ 64 \<Longrightarrow> price_of D w = Some p \<Longrightarrow> 0 < p \<Longrightarrow> \<exists>a. amount_by_value D w val = Some a"
  by (simp add: amount_law)

lemma amount_not_over:
  "val < 2 ^ 64 \<Longrightarrow> amount_by_value D w val = Some a \<Longrightarrow> price_of D w = Some p \<Longrightarrow>
    a * p \<le> val * 1000000000000000 \<and> val * 1000000000000000 < (a + 1) * p"
proof (simp add: amount_law split: if_splits)
  let ?v = "val * 1000000000000000"
  assume "0 < p" and a: "?v div p = a"
  have "?v mod p < p" using \<open>0 < p\<close> by simp
  moreover have "?v = ?v div p * p + ?v mod p" by simp
  ultimately show "a * p \<le> ?v \<and> ?v < p + a * p" unfolding a by linarith
qed

end

lemma saturated_into_128 [simp]: "a < 2 ^ 64 \<Longrightarrow> saturated_into 128 a = a"
  by (simp add: saturated_into_def)

text \<open>Prices are \<open>u64\<close> values.\<close>

definition dp_wf :: "dp_state \<Rightarrow> bool" where
  "dp_wf s \<longleftrightarrow> length (Prices s) \<le> MAX_LEN \<and> (\<forall>p \<in> set (Prices s). p < 2 ^ 64) \<and>
     (\<forall>p. AvgPrice s = Some p \<longrightarrow> p < 2 ^ 64)"

lemma get_dbc_amount_eq:
  assumes "val < 2 ^ 64"
  shows "get_dbc_amount_by_value val s =
    (case get_dbc_price s of None \<Rightarrow> None
     | Some p \<Rightarrow> if p = 0 then None else Some (val * 1000000000000000 div p))"
proof -
  have "val * 1000000000000000 < 2 ^ 64 * 2 ^ 64"
    using assms(1) by (intro mult_strict_mono) simp_all
  then have "checked_mul 128 val 1000000000000000 = Some (val * 1000000000000000)"
    by (simp add: checked_mul_def)
  then show ?thesis
    using assms
    by (auto simp: get_dbc_amount_by_value_def get_dbc_price_def checked_div_def Let_def
        split: option.splits)
qed

interpretation dp: dbc_price "dp_price_ops get"
  by unfold_locales (simp add: dp_price_ops_def get_dbc_amount_eq)

section \<open>The average\<close>

lemma foldl_saturating_add:
  "acc + sum_list xs < 2 ^ 64 \<Longrightarrow> foldl (saturating_add 64) acc xs = acc + sum_list xs"
proof (induction xs arbitrary: acc)
  case Nil
  then show ?case by simp
next
  case (Cons x xs)
  then have "saturating_add 64 acc x = acc + x" by (intro saturating_add_exact) simp
  then show ?case using Cons.IH [of "acc + x"] Cons.prems by (simp add: add.assoc)
qed

lemma foldl_saturating_add_less: "acc < 2 ^ 64 \<Longrightarrow> foldl (saturating_add 64) acc xs < 2 ^ 64"
proof (induction xs arbitrary: acc)
  case Nil
  then show ?case by simp
next
  case (Cons x xs)
  have "saturating_add 64 acc x < 2 ^ 64" by (rule saturating_add_less)
  then show ?case using Cons.IH by simp
qed

lemma add_avg_price_wf: "dp_wf s \<Longrightarrow> dp_wf (add_avg_price s)"
  using foldl_saturating_add_less [of 0 "Prices s"]
  by (auto simp: dp_wf_def add_avg_price_def Let_def intro: le_less_trans [OF div_le_dividend])

lemma set_tl_subset: "set (tl xs) \<subseteq> set xs"
  by (cases xs) auto

lemma add_price_wf: "dp_wf s \<Longrightarrow> p < 2 ^ 64 \<Longrightarrow> dp_wf (add_price p s)"
  using set_tl_subset [of "Prices s"]
  by (auto simp: dp_wf_def add_price_def MAX_LEN_def Let_def)

text \<open>A call carries \<open>u64\<close> prices.\<close>

fun dp_call_wf :: "dp_call \<Rightarrow> bool" where
  "dp_call_wf (SubmitPriceUnsigned p) = (p < 2 ^ 64)"
| "dp_call_wf (SubmitPriceByRoot p) = (p < 2 ^ 64)"
| "dp_call_wf _ = True"

lemma dp_wf_frame [simp]:
  "dp_wf (s\<lparr>PriceURL := u\<rparr>) = dp_wf s"
  "dp_wf (s\<lparr>PriceUpdateFrequency := f\<rparr>) = dp_wf s"
  by (simp_all add: dp_wf_def)

lemmas dp_call_defs = submit_price_unsigned_def submit_price_by_root_def add_price_url_def
  set_price_update_frequency_def rm_price_url_by_index_def

lemma dp_dispatch_wf:
  "dp_wf s \<Longrightarrow> dp_call_wf c \<Longrightarrow> dp_dispatch orig c s = Inr s' \<Longrightarrow> dp_wf s'"
  by (cases c)
    (auto simp: dp_call_defs Let_def intro!: add_avg_price_wf add_price_wf
      split: if_splits option.splits)

fun submit_all :: "nat list \<Rightarrow> dp_state \<Rightarrow> dp_state" where
  "submit_all [] s = s"
| "submit_all (p # ps) s =
     (case submit_price_unsigned Unsigned p s of Inl _ \<Rightarrow> s | Inr s' \<Rightarrow> submit_all ps s')"

lemma submit_all_Cons: "submit_all (p # ps) s = submit_all ps (add_avg_price (add_price p s))"
  by (simp add: submit_price_unsigned_def origin_ops)

lemma Prices_add_avg_price [simp]: "Prices (add_avg_price s) = Prices s"
  by (simp add: add_avg_price_def Let_def)

lemma Prices_add_price:
  "length (Prices s) \<le> MAX_LEN \<Longrightarrow>
    Prices (add_price p s) = drop (Suc (length (Prices s)) - MAX_LEN) (Prices s @ [p])"
  by (auto simp: add_price_def Let_def MAX_LEN_def drop_Suc Suc_diff_le)

text \<open>The window always holds the last \<open>MAX_LEN\<close> submissions, oldest first.\<close>

lemma Prices_submit_all:
  "length (Prices s) \<le> MAX_LEN \<Longrightarrow>
    Prices (submit_all ps s) =
      drop (length (Prices s) + length ps - MAX_LEN) (Prices s @ ps)"
proof (induction ps arbitrary: s)
  case Nil
  then show ?case by simp
next
  case (Cons p ps)
  let ?s = "add_avg_price (add_price p s)"
  let ?xs = "Prices s"
  have px: "Prices ?s = drop (Suc (length ?xs) - MAX_LEN) (?xs @ [p])"
    using Cons.prems by (simp add: Prices_add_price)
  then have len: "length (Prices ?s) \<le> MAX_LEN" using Cons.prems by simp
  have "Prices (submit_all (p # ps) s) =
      drop (length (Prices ?s) + length ps - MAX_LEN) (Prices ?s @ ps)"
    unfolding submit_all_Cons by (rule Cons.IH [OF len])
  also have "\<dots> = drop (length ?xs + length (p # ps) - MAX_LEN) (?xs @ p # ps)"
  proof (cases "length ?xs < MAX_LEN")
    case True
    then show ?thesis unfolding px by simp
  next
    case False
    with Cons.prems have l: "length ?xs = MAX_LEN" by simp
    then obtain x xs where xs: "?xs = x # xs" by (cases ?xs) (auto simp: MAX_LEN_def)
    then show ?thesis unfolding px using l by (simp add: MAX_LEN_def)
  qed
  finally show ?case .
qed

lemma AvgPrice_add_avg_price:
  "length (Prices s) = MAX_LEN \<Longrightarrow>
    AvgPrice (add_avg_price s) = Some (foldl (saturating_add 64) 0 (Prices s) div MAX_LEN)"
  by (simp add: add_avg_price_def Let_def)

lemma submit_all_AvgPrice:
  assumes "ps \<noteq> []" "length (Prices (submit_all ps s)) = MAX_LEN"
  shows "AvgPrice (submit_all ps s) =
    Some (foldl (saturating_add 64) 0 (Prices (submit_all ps s)) div MAX_LEN)"
  using assms
proof (induction ps arbitrary: s)
  case Nil
  then show ?case by simp
next
  case (Cons p ps)
  show ?case
  proof (cases "ps = []")
    case True
    with Cons.prems show ?thesis
      unfolding submit_all_Cons by (simp add: AvgPrice_add_avg_price)
  next
    case False
    with Cons show ?thesis unfolding submit_all_Cons by simp
  qed
qed

lemma sum_list_between:
  assumes "\<And>x. x \<in> set xs \<Longrightarrow> lo \<le> x \<and> x \<le> (hi::nat)"
  shows "length xs * lo \<le> sum_list xs \<and> sum_list xs \<le> length xs * hi"
  using assms by (induction xs) (auto intro: add_mono)

section \<open>Properties\<close>



text \<open>
  with a published, non-zero price, every \<open>u64\<close> value converts without overflow, and the
  DBC amount is the value in units of \<open>10^15\<close> divided by the price, rounded down: the payer is
  never charged more than the value and less than one unit of the price below it.\<close>

lemma dbc_amount_exact:
  assumes "val < 2 ^ 64" "get_dbc_price s = Some p" "0 < p"
  shows "\<exists>a. get_dbc_amount_by_value val s = Some a \<and>
    a * p \<le> val * 1000000000000000 \<and> val * 1000000000000000 < (a + 1) * p"
proof -
  have ops: "price_of (dp_price_ops id) s = Some p"
    using assms(2) by (simp add: dp_price_ops_def)
  obtain a where "amount_by_value (dp_price_ops id) s val = Some a"
    using dp.amount_total [OF assms(1) ops assms(3)] by blast
  with dp.amount_not_over [OF assms(1) this ops] show ?thesis
    by (simp add: dp_price_ops_def)
qed

lemma dbc_amount_exact_witness:
  "\<exists>a. get_dbc_amount_by_value 7000 (dp_init\<lparr>AvgPrice := Some 3000\<rparr>) = Some a \<and>
    a * 3000 \<le> 7000 * 1000000000000000 \<and> 7000 * 1000000000000000 < (a + 1) * 3000"
  by (rule dbc_amount_exact) (simp_all add: get_dbc_price_def)

end
