(* ===== verification/Escrow.thy ===== *)
theory Escrow
  imports Currency
begin

text \<open>
  What it means that a pallet handles reserved money correctly, stated once as a locale: in every
  step of the pallet, the reserved balance of each account moves by exactly what the pallet's own
  records owe on behalf of that account. It follows that the records stay fully backed by reserves
  along every run, and that the reserve an account has beyond them is never touched. The pallets
  interpret the locale with their step relations.
\<close>

definition backed :: "('s \<Rightarrow> account \<Rightarrow> nat) \<Rightarrow> ('s \<Rightarrow> account \<Rightarrow> nat) \<Rightarrow> 's \<Rightarrow> bool" where
  "backed locked reserved s \<longleftrightarrow> (\<forall>a. locked s a \<le> reserved s a)"

lemma backedD: "backed locked reserved s \<Longrightarrow> locked s a \<le> reserved s a"
  by (simp add: backed_def)

text \<open>
  How the reserves \<open>r\<close> and the owed total of a counter-keyed map move together: locking a new item,
  releasing a part \<open>v\<close> of the item's debt from the reserve of \<open>c\<close>, and changing an item without
  changing its debt.
\<close>

lemma exact_lock:
  assumes "\<And>b. r' b = r b + f y b"
  shows "r' a + owed_total f m n a = r a + owed_total f (m(n \<mapsto> y)) (Suc n) a"
  by (simp add: assms owed_total_new)

lemma exact_release:
  assumes "i < n" "m i = Some x" "\<And>b. r' b = r b - (if b = c then v else 0)"
    "\<And>b. f x b = f y b + (if b = c then v else 0)" "\<And>b. owed_total f m n b \<le> r b"
  shows "r' a + owed_total f m n a = r a + owed_total f (m(i \<mapsto> y)) n a"
  using owed_total_update [of i n m x f y a] owed_total_item_le [of i n m x f a] assms(1,2)
    assms(3) [of a] assms(4) [of a] assms(5) [of a]
  by (auto split: if_splits)

lemma exact_keep:
  assumes "i < n" "m i = Some x" "\<And>b. f x b = f y b" "r' = r"
  shows "r' a + owed_total f m n a = r a + owed_total f (m(i \<mapsto> y)) n a"
  using owed_total_update [of i n m x f y a] assms by simp

text \<open>
  Three contracts, from the weakest. A safe pallet keeps its records backed in every step.
\<close>

locale safe_pallet =
  fixes step :: "'s \<Rightarrow> 's \<Rightarrow> bool"
    and inv :: "'s \<Rightarrow> bool"
    and locked :: "'s \<Rightarrow> account \<Rightarrow> nat"
    and reserved :: "'s \<Rightarrow> account \<Rightarrow> nat"
  assumes safe_inv: "step s s' \<Longrightarrow> inv s \<Longrightarrow> backed locked reserved s \<Longrightarrow> inv s'"
    and step_backed: "step s s' \<Longrightarrow> inv s \<Longrightarrow> backed locked reserved s \<Longrightarrow> backed locked reserved s'"
begin

lemma run_backed:
  assumes "step\<^sup>*\<^sup>* s s'" "inv s" "backed locked reserved s"
  shows "inv s' \<and> backed locked reserved s'"
  using assms by (induction rule: rtranclp_induct) (blast intro: safe_inv step_backed)+

end

text \<open>
  A covering pallet takes no more out of a reserve in any step than its records give up, so that it
  never touches the reserve an account has beyond them.
\<close>

locale backed_pallet =
  fixes step :: "'s \<Rightarrow> 's \<Rightarrow> bool"
    and inv :: "'s \<Rightarrow> bool"
    and locked :: "'s \<Rightarrow> account \<Rightarrow> nat"
    and reserved :: "'s \<Rightarrow> account \<Rightarrow> nat"
  assumes covers_inv: "step s s' \<Longrightarrow> inv s \<Longrightarrow> backed locked reserved s \<Longrightarrow> inv s'"
    and step_covers: "step s s' \<Longrightarrow> inv s \<Longrightarrow> backed locked reserved s \<Longrightarrow>
      reserved s a + locked s' a \<le> reserved s' a + locked s a"

sublocale backed_pallet \<subseteq> safe_pallet step inv locked reserved
proof
  fix s s'
  assume st: "step s s'" "inv s" "backed locked reserved s"
  show "inv s'" using st by (rule covers_inv)
  show "backed locked reserved s'"
    unfolding backed_def
  proof
    fix a
    show "locked s' a \<le> reserved s' a" using step_covers [OF st, of a] backedD [OF st(3), of a] by linarith
  qed
qed

text \<open>In an exact pallet the two always move together.\<close>

locale escrow_pallet =
  fixes step :: "'s \<Rightarrow> 's \<Rightarrow> bool"
    and inv :: "'s \<Rightarrow> bool"
    and locked :: "'s \<Rightarrow> account \<Rightarrow> nat"
    and reserved :: "'s \<Rightarrow> account \<Rightarrow> nat"
  assumes step_inv: "step s s' \<Longrightarrow> inv s \<Longrightarrow> backed locked reserved s \<Longrightarrow> inv s'"
    and step_exact: "step s s' \<Longrightarrow> inv s \<Longrightarrow> backed locked reserved s \<Longrightarrow>
      reserved s' a + locked s a = reserved s a + locked s' a"

sublocale escrow_pallet \<subseteq> backed_pallet step inv locked reserved
  by unfold_locales (use step_inv in blast, use step_exact in simp)

context escrow_pallet
begin

lemma run_exact:
  assumes "step\<^sup>*\<^sup>* s s'" "inv s" "backed locked reserved s"
  shows "reserved s' a + locked s a = reserved s a + locked s' a"
  using assms
proof (induction rule: rtranclp_induct)
  case base
  show ?case by simp
next
  case (step t u)
  have "inv t \<and> backed locked reserved t" using run_backed step.hyps(1) step.prems by blast
  then have "reserved u a + locked t a = reserved t a + locked u a"
    using step.hyps(2) by (blast intro: step_exact)
  with step show ?case by simp
qed

end

section \<open>A currency shared with other pallets\<close>

text \<open>
  A pallet's world holds the ledger and the pallets it calls. \<open>I\<close> is their invariant and \<open>L\<close> what
  they in turn keep reserved on behalf of each account; moving money through the currency changes
  neither. \<open>hosted_lift\<close> builds the same for a pallet on top of such a world.
\<close>

locale hosted_currency = reservable_currency C for C :: "'w currency_ops" +
  fixes I :: "'w \<Rightarrow> bool" and L :: "'w \<Rightarrow> account \<Rightarrow> nat"
  assumes reserve_keeps: "reserve C a v w = Some w' \<Longrightarrow> I w \<Longrightarrow> I w' \<and> L w' = L w"
    and unreserve_keeps: "unreserve C a v w = (w', r) \<Longrightarrow> I w \<Longrightarrow> I w' \<and> L w' = L w"
    and slash_reserved_keeps: "slash_reserved C a v w = (w', r) \<Longrightarrow> I w \<Longrightarrow> I w' \<and> L w' = L w"
    and repatriate_reserved_keeps:
      "repatriate_reserved C a b v w = Some (w', r) \<Longrightarrow> I w \<Longrightarrow> I w' \<and> L w' = L w"
    and transfer_keeps: "transfer C a b v e w = Some w' \<Longrightarrow> I w \<Longrightarrow> I w' \<and> L w' = L w"
    and deposit_into_existing_keeps:
      "deposit_into_existing C a v w = Some w' \<Longrightarrow> I w \<Longrightarrow> I w' \<and> L w' = L w"
begin

lemma unreserve_fst: "I w \<Longrightarrow> I (fst (unreserve C a v w)) \<and> L (fst (unreserve C a v w)) = L w"
  by (cases "unreserve C a v w") (auto dest: unreserve_keeps)

lemma slash_reserved_fst:
  "I w \<Longrightarrow> I (fst (slash_reserved C a v w)) \<and> L (fst (slash_reserved C a v w)) = L w"
  by (cases "slash_reserved C a v w") (auto dest: slash_reserved_keeps)

end

lemma hosted_plain:
  "reservable_currency C \<Longrightarrow> hosted_currency C (\<lambda>_. True) (\<lambda>_ _. 0)"
  by (simp add: hosted_currency_def hosted_currency_axioms_def)

lemma hosted_lift:
  assumes h: "hosted_currency C I0 L0" and gp: "\<And>w s. get (put w s) = w"
    and "\<And>w s. I (put w s) \<longleftrightarrow> I s" "\<And>w s. L (put w s) = L s"
  shows "hosted_currency (lift_currency get put C) (\<lambda>s. I s \<and> I0 (get s)) (\<lambda>s a. L s a + L0 (get s) a)"
proof -
  have cur: "reservable_currency C" using h by (simp add: hosted_currency_def)
  note keeps = hosted_currency.reserve_keeps [OF h] hosted_currency.unreserve_keeps [OF h]
    hosted_currency.slash_reserved_keeps [OF h] hosted_currency.repatriate_reserved_keeps [OF h]
    hosted_currency.transfer_keeps [OF h] hosted_currency.deposit_into_existing_keeps [OF h]
  show ?thesis
  proof (intro hosted_currency.intro hosted_currency_axioms.intro)
    show "reservable_currency (lift_currency get put C)"
      by (rule lift_reservable_currency) (simp_all add: cur gp)
  qed (auto simp: lift_currency_def gp assms(3,4) split: prod.splits dest: keeps)
qed

interpretation ledger_hosted: hosted_currency ledger_ops "\<lambda>_. True" "\<lambda>_ _. 0"
  by (rule hosted_plain [OF ledger.reservable_currency_axioms])

end
