(* ===== verification/Task_Mode.thy ===== *)
theory Task_Mode
  imports Currency Dbc_Price Escrow
begin

text \<open>
  The pay-per-token pallet \<open>pallets/task-mode/src/lib.rs\<close>. A task definition prices a model; an
  order reserves the customer's DBC at the oracle price, the miner completes it, and settling
  splits the reserve between the treasury and the miner, or it expires and is refunded. Storage
  items are the fields of \<open>tm_state\<close> with their names; \<open>tm_world\<close> holds the ledger and the price
  oracle, reached through the operations in the configuration. Each dispatchable is a function
  from the block number, the origin, the arguments and the state to an error or the new state (a
  dispatchable that fails is rolled back by the runtime).
\<close>

section \<open>Data\<close>

datatype task_order_status = Pending | InProgress | Completed | Settled

record task_definition =
  model_id :: bytes
  version :: bytes
  admin :: account
  input_price_usd_per_1k :: balance
  output_price_usd_per_1k :: balance
  max_tokens_per_request :: nat
  policy_cid :: bytes
  is_active :: bool

record task_order =
  order_id :: nat
  task_id :: nat
  customer :: account
  miner :: account
  input_tokens :: nat
  output_tokens :: nat
  dbc_price_snapshot :: balance
  total_dbc_charged :: balance
  dbc_burned :: balance
  miner_payout :: balance
  created_at :: block_number
  status :: task_order_status
  attestation_hash :: "bytes option"

record era_task_stats =
  total_charged :: balance
  total_burned :: balance
  total_miner_payout :: balance
  completed_orders :: nat

datatype tm_error =
    BadOrigin
  | TaskDefinitionNotFound
  | TaskDefinitionInactive
  | TaskOrderNotFound
  | InvalidOrderStatus
  | TokenCountExceedsLimit
  | InsufficientBalance
  | PriceOracleUnavailable
  | ArithmeticOverflow
  | NotAuthorized
  | OrderNotExpired

datatype tm_event =
    TaskDefinitionCreated nat account
  | TaskDefinitionUpdated nat
  | TaskOrderCreated nat account account balance
  | TaskOrderCompleted nat bytes
  | TaskOrderSettled nat balance balance
  | TaskOrderExpired nat account balance

record 'w tm_config =
  tm_Currency :: "'w currency_ops"
  tm_Perthing :: perthing_ops
  DbcPriceProvider :: "'w dbc_price_ops"
  TreasuryAccount :: account
  BurnPercentage :: nat
  MinerPayoutPercentage :: nat
  TaskModeRewardPercentage :: nat
  EraDuration :: block_number
  MaxModelIdLen :: nat
  MaxPolicyCidLen :: nat
  OrderTimeout :: block_number

record 'w tm_state =
  NextTaskId :: nat
  NextOrderId :: nat
  TaskDefinitions :: "nat \<Rightarrow> task_definition option"
  TaskOrders :: "nat \<Rightarrow> task_order option"
  EraStats :: "nat \<Rightarrow> era_task_stats"
  MinerTaskStats :: "nat \<Rightarrow> account \<Rightarrow> balance \<times> nat"
  tm_events :: "tm_event list"
  tm_world :: 'w

definition tm_deposit_event :: "tm_event \<Rightarrow> 'w tm_state \<Rightarrow> 'w tm_state" where
  "tm_deposit_event e s = s\<lparr>tm_events := tm_events s @ [e]\<rparr>"

section \<open>Helpers\<close>

definition calculate_order_usd_value :: "nat \<Rightarrow> nat \<Rightarrow> balance \<Rightarrow> balance \<Rightarrow> tm_error + nat" where
  "calculate_order_usd_value in_tokens out_tokens in_price out_price =
     (case checked_mul 128 in_tokens in_price of None \<Rightarrow> Inl ArithmeticOverflow
      | Some input_scaled \<Rightarrow>
      case checked_div input_scaled 1000 of None \<Rightarrow> Inl ArithmeticOverflow
      | Some input_part \<Rightarrow>
      case checked_mul 128 out_tokens out_price of None \<Rightarrow> Inl ArithmeticOverflow
      | Some output_scaled \<Rightarrow>
      case checked_div output_scaled 1000 of None \<Rightarrow> Inl ArithmeticOverflow
      | Some output_part \<Rightarrow>
      case checked_add 128 input_part output_part of None \<Rightarrow> Inl ArithmeticOverflow
      | Some amount \<Rightarrow>
      if amount < 2 ^ 64 then Inr amount else Inl ArithmeticOverflow)"

definition calculate_revenue_split :: "'w tm_config \<Rightarrow> balance \<Rightarrow> tm_error + balance \<times> balance" where
  "calculate_revenue_split T amount =
     (let burned = pmul (tm_Perthing T) 100 (BurnPercentage T) amount;
          miner_percent_cut = pmul (tm_Perthing T) 100 (MinerPayoutPercentage T) amount
      in case checked_add 128 burned miner_percent_cut of None \<Rightarrow> Inl ArithmeticOverflow
         | Some charged_check \<Rightarrow>
         if \<not> charged_check \<le> amount then Inl ArithmeticOverflow
         else case checked_sub amount burned of None \<Rightarrow> Inl ArithmeticOverflow
         | Some payout \<Rightarrow> Inr (burned, payout))"

definition block_to_era :: "'w tm_config \<Rightarrow> block_number \<Rightarrow> nat" where
  "block_to_era T block =
     (if EraDuration T = 0 then 0 else min (block div EraDuration T) (2 ^ 32 - 1))"

definition split_era_rewards :: "'w tm_config \<Rightarrow> balance \<Rightarrow> tm_error + balance \<times> balance" where
  "split_era_rewards T total_era_rewards =
     (let task_reward_pool = pmul (tm_Perthing T) 100 (TaskModeRewardPercentage T) total_era_rewards
      in case checked_sub total_era_rewards task_reward_pool of None \<Rightarrow> Inl ArithmeticOverflow
         | Some rental_reward_pool \<Rightarrow> Inr (task_reward_pool, rental_reward_pool))"

definition miner_reward_share ::
    "'w tm_config \<Rightarrow> nat \<Rightarrow> account \<Rightarrow> balance \<Rightarrow> 'w tm_state \<Rightarrow> balance option" where
  "miner_reward_share T era_index who total_era_rewards s =
     (case split_era_rewards T total_era_rewards of Inl _ \<Rightarrow> None
      | Inr (task_pool, _) \<Rightarrow>
      let stats = EraStats s era_index in
      if total_miner_payout stats = 0 then None
      else let miner_total_payout = fst (MinerTaskStats s era_index who) in
      if miner_total_payout = 0 then None
      else case checked_mul 128 task_pool miner_total_payout of None \<Rightarrow> None
      | Some scaled \<Rightarrow> checked_div scaled (total_miner_payout stats))"

section \<open>Dispatchables\<close>

definition create_task_definition ::
    "'w tm_config \<Rightarrow> origin \<Rightarrow> bytes \<Rightarrow> bytes \<Rightarrow> balance \<Rightarrow> balance \<Rightarrow> nat \<Rightarrow> bytes \<Rightarrow>
     'w tm_state \<Rightarrow> tm_error + 'w tm_state" where
  "create_task_definition T orig mid ver in_price out_price max_tokens cid s =
     (case ensure_signed orig of None \<Rightarrow> Inl BadOrigin
      | Some who \<Rightarrow>
      if \<not> length mid \<le> MaxModelIdLen T then Inl ArithmeticOverflow
      else if \<not> length ver \<le> MaxModelIdLen T then Inl ArithmeticOverflow
      else if \<not> length cid \<le> MaxPolicyCidLen T then Inl ArithmeticOverflow
      else let tid = NextTaskId s in
      case checked_add 64 tid 1 of None \<Rightarrow> Inl ArithmeticOverflow
      | Some next_task_id \<Rightarrow>
      Inr (tm_deposit_event (TaskDefinitionCreated tid who)
        (s\<lparr>NextTaskId := next_task_id,
           TaskDefinitions := (TaskDefinitions s)(tid \<mapsto>
             \<lparr>model_id = mid, version = ver, admin = who,
              input_price_usd_per_1k = in_price, output_price_usd_per_1k = out_price,
              max_tokens_per_request = max_tokens, policy_cid = cid, is_active = True\<rparr>)\<rparr>)))"

definition updated_definition ::
    "balance option \<Rightarrow> balance option \<Rightarrow> nat option \<Rightarrow> bool option \<Rightarrow> task_definition \<Rightarrow> task_definition" where
  "updated_definition in_price out_price max_tokens active def =
     (let
        def = (case in_price of None \<Rightarrow> def | Some v \<Rightarrow> def\<lparr>input_price_usd_per_1k := v\<rparr>);
        def = (case out_price of None \<Rightarrow> def | Some v \<Rightarrow> def\<lparr>output_price_usd_per_1k := v\<rparr>);
        def = (case max_tokens of None \<Rightarrow> def | Some v \<Rightarrow> def\<lparr>max_tokens_per_request := v\<rparr>);
        def = (case active of None \<Rightarrow> def | Some v \<Rightarrow> def\<lparr>is_active := v\<rparr>)
      in def)"

definition update_task_definition ::
    "origin \<Rightarrow> nat \<Rightarrow> balance option \<Rightarrow> balance option \<Rightarrow> nat option \<Rightarrow> bool option \<Rightarrow>
     'w tm_state \<Rightarrow> tm_error + 'w tm_state" where
  "update_task_definition orig tid in_price out_price max_tokens active s =
     (case ensure_signed orig of None \<Rightarrow> Inl BadOrigin
      | Some who \<Rightarrow>
      case TaskDefinitions s tid of None \<Rightarrow> Inl TaskDefinitionNotFound
      | Some def \<Rightarrow>
      if \<not> admin def = who then Inl NotAuthorized
      else Inr (tm_deposit_event (TaskDefinitionUpdated tid)
        (s\<lparr>TaskDefinitions := (TaskDefinitions s)(tid \<mapsto>
           updated_definition in_price out_price max_tokens active def)\<rparr>)))"

definition create_task_order ::
    "'w tm_config \<Rightarrow> block_number \<Rightarrow> origin \<Rightarrow> nat \<Rightarrow> account \<Rightarrow> nat \<Rightarrow> nat \<Rightarrow>
     'w tm_state \<Rightarrow> tm_error + 'w tm_state" where
  "create_task_order T now orig tid who_mines in_tokens out_tokens s =
     (case ensure_signed orig of None \<Rightarrow> Inl BadOrigin
      | Some buyer \<Rightarrow>
      case TaskDefinitions s tid of None \<Rightarrow> Inl TaskDefinitionNotFound
      | Some task \<Rightarrow>
      if \<not> is_active task then Inl TaskDefinitionInactive
      else case checked_add 64 in_tokens out_tokens of None \<Rightarrow> Inl ArithmeticOverflow
      | Some total_tokens \<Rightarrow>
      if \<not> total_tokens \<le> max_tokens_per_request task then Inl TokenCountExceedsLimit
      else case price_of (DbcPriceProvider T) (tm_world s) of None \<Rightarrow> Inl PriceOracleUnavailable
      | Some price \<Rightarrow>
      case calculate_order_usd_value in_tokens out_tokens
             (input_price_usd_per_1k task) (output_price_usd_per_1k task) of
        Inl e \<Rightarrow> Inl e
      | Inr usd_value \<Rightarrow>
      case amount_by_value (DbcPriceProvider T) (tm_world s) usd_value of
        None \<Rightarrow> Inl PriceOracleUnavailable
      | Some total_dbc \<Rightarrow>
      case calculate_revenue_split T total_dbc of Inl e \<Rightarrow> Inl e
      | Inr (burned, payout) \<Rightarrow>
      case reserve (tm_Currency T) buyer total_dbc (tm_world s) of
        None \<Rightarrow> Inl InsufficientBalance
      | Some w \<Rightarrow>
      let oid = NextOrderId s in
      case checked_add 64 oid 1 of None \<Rightarrow> Inl ArithmeticOverflow
      | Some next_order_id \<Rightarrow>
      let order =
            \<lparr>order_id = oid, task_id = tid, customer = buyer, miner = who_mines,
             input_tokens = in_tokens, output_tokens = out_tokens,
             dbc_price_snapshot = price, total_dbc_charged = total_dbc,
             dbc_burned = burned, miner_payout = payout, created_at = now,
             status = Pending, attestation_hash = None\<rparr>;
          s1 = s\<lparr>tm_world := w, NextOrderId := next_order_id,
                 TaskOrders := (TaskOrders s)(oid \<mapsto> order)\<rparr>;
          s2 = (case TaskOrders s1 oid of None \<Rightarrow> s1
                | Some o1 \<Rightarrow> s1\<lparr>TaskOrders := (TaskOrders s1)(oid \<mapsto> o1\<lparr>status := InProgress\<rparr>)\<rparr>)
      in Inr (tm_deposit_event (TaskOrderCreated oid buyer who_mines total_dbc) s2))"

definition mark_order_completed ::
    "origin \<Rightarrow> nat \<Rightarrow> bytes \<Rightarrow> 'w tm_state \<Rightarrow> tm_error + 'w tm_state" where
  "mark_order_completed orig oid hash s =
     (case ensure_signed orig of None \<Rightarrow> Inl BadOrigin
      | Some who \<Rightarrow>
      case TaskOrders s oid of None \<Rightarrow> Inl TaskOrderNotFound
      | Some order \<Rightarrow>
      if \<not> who = miner order then Inl NotAuthorized
      else if status order \<noteq> InProgress then Inl InvalidOrderStatus
      else Inr (tm_deposit_event (TaskOrderCompleted oid hash)
        (s\<lparr>TaskOrders := (TaskOrders s)(oid \<mapsto>
           order\<lparr>status := Completed, attestation_hash := Some hash\<rparr>)\<rparr>)))"

definition add_era_stats :: "task_order \<Rightarrow> era_task_stats \<Rightarrow> era_task_stats" where
  "add_era_stats order stats =
     \<lparr>total_charged = saturating_add 128 (total_charged stats) (total_dbc_charged order),
      total_burned = saturating_add 128 (total_burned stats) (dbc_burned order),
      total_miner_payout = saturating_add 128 (total_miner_payout stats) (miner_payout order),
      completed_orders = saturating_add 64 (completed_orders stats) 1\<rparr>"

definition add_miner_stats :: "task_order \<Rightarrow> balance \<times> nat \<Rightarrow> balance \<times> nat" where
  "add_miner_stats order stats =
     (case stats of (total_payout, count) \<Rightarrow>
       (saturating_add 128 total_payout (miner_payout order), saturating_add 64 count 1))"

definition settle_task_order ::
    "'w tm_config \<Rightarrow> origin \<Rightarrow> nat \<Rightarrow> bytes option \<Rightarrow> 'w tm_state \<Rightarrow> tm_error + 'w tm_state" where
  "settle_task_order T orig oid hash s =
     (case ensure_signed orig of None \<Rightarrow> Inl BadOrigin
      | Some caller \<Rightarrow>
      case TaskOrders s oid of None \<Rightarrow> Inl TaskOrderNotFound
      | Some order \<Rightarrow>
      if status order \<noteq> Completed then Inl InvalidOrderStatus
      else case TaskDefinitions s (task_id order) of None \<Rightarrow> Inl TaskDefinitionNotFound
      | Some task \<Rightarrow>
      if \<not> (caller = customer order \<or> caller = miner order \<or> caller = admin task)
      then Inl NotAuthorized
      else let order = (case hash of None \<Rightarrow> order | Some h \<Rightarrow> order\<lparr>attestation_hash := Some h\<rparr>) in
      case repatriate_reserved (tm_Currency T) (customer order) (TreasuryAccount T)
             (dbc_burned order) (tm_world s) of
        None \<Rightarrow> Inl InsufficientBalance
      | Some (w1, _) \<Rightarrow>
      case repatriate_reserved (tm_Currency T) (customer order) (miner order)
             (miner_payout order) w1 of
        None \<Rightarrow> Inl InsufficientBalance
      | Some (w2, _) \<Rightarrow>
      let order = order\<lparr>status := Settled\<rparr>;
          era = block_to_era T (created_at order)
      in Inr (tm_deposit_event (TaskOrderSettled oid (dbc_burned order) (miner_payout order))
        (s\<lparr>tm_world := w2,
           TaskOrders := (TaskOrders s)(oid \<mapsto> order),
           EraStats := (EraStats s)(era := add_era_stats order (EraStats s era)),
           MinerTaskStats := (MinerTaskStats s)
             (era := (MinerTaskStats s era)(miner order :=
                add_miner_stats order (MinerTaskStats s era (miner order))))\<rparr>)))"

definition cancel_expired_order ::
    "'w tm_config \<Rightarrow> block_number \<Rightarrow> origin \<Rightarrow> nat \<Rightarrow> 'w tm_state \<Rightarrow> tm_error + 'w tm_state" where
  "cancel_expired_order T now orig oid s =
     (case ensure_signed orig of None \<Rightarrow> Inl BadOrigin
      | Some _ \<Rightarrow>
      case TaskOrders s oid of None \<Rightarrow> Inl TaskOrderNotFound
      | Some order \<Rightarrow>
      if \<not> (status order = Pending \<or> status order = InProgress) then Inl InvalidOrderStatus
      else case checked_add 32 (created_at order) (OrderTimeout T) of None \<Rightarrow> Inl ArithmeticOverflow
      | Some deadline \<Rightarrow>
      if \<not> now > deadline then Inl OrderNotExpired
      else let w = fst (unreserve (tm_Currency T) (customer order) (total_dbc_charged order) (tm_world s))
      in Inr (tm_deposit_event (TaskOrderExpired oid (customer order) (total_dbc_charged order))
        (s\<lparr>tm_world := w, TaskOrders := (TaskOrders s)(oid \<mapsto> order\<lparr>status := Settled\<rparr>)\<rparr>)))"

section \<open>The \<open>TaskBillingProvider\<close> trait\<close>

definition calculate_billing :: "'w tm_config \<Rightarrow> nat \<Rightarrow> nat \<Rightarrow> 'w tm_state \<Rightarrow> balance option" where
  "calculate_billing T in_tokens out_tokens s =
     (case price_of (DbcPriceProvider T) (tm_world s) of None \<Rightarrow> None
      | Some price \<Rightarrow>
      if price = 0 then None
      else case checked_add 64 in_tokens out_tokens of None \<Rightarrow> None
      | Some total_tokens \<Rightarrow>
      case checked_div total_tokens 1000 of None \<Rightarrow> None
      | Some tokens_in_thousands \<Rightarrow> checked_mul 128 tokens_in_thousands price)"

definition get_revenue_split :: "'w tm_config \<Rightarrow> balance \<Rightarrow> balance \<times> balance" where
  "get_revenue_split T amount = (pmul (tm_Perthing T) 100 15 amount, pmul (tm_Perthing T) 100 85 amount)"

section \<open>Calls and steps\<close>

datatype tm_call =
    CreateTaskDefinition bytes bytes balance balance nat bytes
  | UpdateTaskDefinition nat "balance option" "balance option" "nat option" "bool option"
  | CreateTaskOrder nat account nat nat
  | MarkOrderCompleted nat bytes
  | SettleTaskOrder nat "bytes option"
  | CancelExpiredOrder nat

fun tm_dispatch ::
    "'w tm_config \<Rightarrow> block_number \<Rightarrow> origin \<Rightarrow> tm_call \<Rightarrow> 'w tm_state \<Rightarrow> tm_error + 'w tm_state" where
  "tm_dispatch T now orig (CreateTaskDefinition m v i p x c) s = create_task_definition T orig m v i p x c s"
| "tm_dispatch T now orig (UpdateTaskDefinition t i p x a) s = update_task_definition orig t i p x a s"
| "tm_dispatch T now orig (CreateTaskOrder t m i p) s = create_task_order T now orig t m i p s"
| "tm_dispatch T now orig (MarkOrderCompleted i h) s = mark_order_completed orig i h s"
| "tm_dispatch T now orig (SettleTaskOrder i h) s = settle_task_order T orig i h s"
| "tm_dispatch T now orig (CancelExpiredOrder i) s = cancel_expired_order T now orig i s"

text \<open>A block's worth of calls, stopping at the first failure.\<close>

fun tm_run ::
    "'w tm_config \<Rightarrow> (block_number \<times> origin \<times> tm_call) list \<Rightarrow> 'w tm_state \<Rightarrow> tm_error + 'w tm_state" where
  "tm_run T [] s = Inr s"
| "tm_run T ((now, orig, c) # cs) s =
     (case tm_dispatch T now orig c s of Inl e \<Rightarrow> Inl e | Inr s' \<Rightarrow> tm_run T cs s')"

text \<open>
  One step of the chain as this pallet sees it: a successful call, or a change of the rest of the
  world (transfers, price updates) that leaves reserved balances alone.
\<close>

inductive tm_step :: "'w tm_config \<Rightarrow> 'w tm_state \<Rightarrow> 'w tm_state \<Rightarrow> bool" for T where
  call: "tm_dispatch T now orig c s = Inr s' \<Longrightarrow> tm_step T s s'"
| environment: "reserved_balance (tm_Currency T) w = reserved_balance (tm_Currency T) (tm_world s) \<Longrightarrow>
    tm_step T s (s\<lparr>tm_world := w\<rparr>)"

definition tm_init :: "'w \<Rightarrow> 'w tm_state" where
  "tm_init w =
     \<lparr>NextTaskId = 0, NextOrderId = 0, TaskDefinitions = Map.empty, TaskOrders = Map.empty,
      EraStats = (\<lambda>_. \<lparr>total_charged = 0, total_burned = 0, total_miner_payout = 0, completed_orders = 0\<rparr>),
      MinerTaskStats = (\<lambda>_ _. (0, 0)), tm_events = [], tm_world = w\<rparr>"

text \<open>The runtime's configuration (\<open>runtime/src/lib.rs\<close>), for a given ledger and treasury.\<close>

definition tm_runtime ::
    "'w currency_ops \<Rightarrow> perthing_ops \<Rightarrow> 'w dbc_price_ops \<Rightarrow> account \<Rightarrow> 'w tm_config" where
  "tm_runtime C P D treasury =
     \<lparr>tm_Currency = C, tm_Perthing = P, DbcPriceProvider = D, TreasuryAccount = treasury,
      BurnPercentage = 15, MinerPayoutPercentage = 85, TaskModeRewardPercentage = 70,
      EraDuration = 14400, MaxModelIdLen = 256, MaxPolicyCidLen = 1024, OrderTimeout = 14400\<rparr>"

lemma tm_runtime_sel:
  "tm_Currency (tm_runtime C P D t) = C" "tm_Perthing (tm_runtime C P D t) = P"
  "DbcPriceProvider (tm_runtime C P D t) = D" "TreasuryAccount (tm_runtime C P D t) = t"
  "BurnPercentage (tm_runtime C P D t) = 15" "MinerPayoutPercentage (tm_runtime C P D t) = 85"
  "TaskModeRewardPercentage (tm_runtime C P D t) = 70" "EraDuration (tm_runtime C P D t) = 14400"
  "MaxModelIdLen (tm_runtime C P D t) = 256" "MaxPolicyCidLen (tm_runtime C P D t) = 1024"
  "OrderTimeout (tm_runtime C P D t) = 14400"
  by (simp_all add: tm_runtime_def)

lemma tm_run_steps: "tm_run T cs s = Inr s' \<Longrightarrow> (tm_step T)\<^sup>*\<^sup>* s s'"
proof (induction T cs s rule: tm_run.induct)
  case (1 T s)
  then show ?case by simp
next
  case (2 T now orig c cs s)
  then show ?case
    by (auto split: sum.splits intro: converse_rtranclp_into_rtranclp tm_step.call)
qed

section \<open>What a successful call does\<close>

lemma create_task_definition_Inr:
  assumes "create_task_definition T orig mid ver ip op mt cid s = Inr s'"
  obtains d who where "s' = tm_deposit_event (TaskDefinitionCreated (NextTaskId s) who)
    (s\<lparr>NextTaskId := Suc (NextTaskId s), TaskDefinitions := (TaskDefinitions s)(NextTaskId s \<mapsto> d)\<rparr>)"
  using assms
  by (auto simp: create_task_definition_def Let_def checked_Some split: option.splits if_splits)

lemma admin_updated_definition [simp]: "admin (updated_definition ip op mt act d) = admin d"
  by (simp add: updated_definition_def Let_def split: option.splits)

lemma update_task_definition_Inr:
  assumes "update_task_definition orig tid ip op mt act s = Inr s'"
  obtains d where "TaskDefinitions s tid = Some d" "orig = Signed (admin d)"
    "s' = tm_deposit_event (TaskDefinitionUpdated tid)
      (s\<lparr>TaskDefinitions := (TaskDefinitions s)(tid \<mapsto> updated_definition ip op mt act d)\<rparr>)"
  using assms
  by (auto simp: update_task_definition_def split: option.splits if_splits)

lemma create_task_order_Inr:
  assumes "create_task_order T now orig tid m it ot s = Inr s'"
  obtains buyer task price usd amount burned payout w where
    "orig = Signed buyer" "TaskDefinitions s tid = Some task" "is_active task"
    "it + ot \<le> max_tokens_per_request task"
    "price_of (DbcPriceProvider T) (tm_world s) = Some price"
    "calculate_order_usd_value it ot (input_price_usd_per_1k task) (output_price_usd_per_1k task) = Inr usd"
    "amount_by_value (DbcPriceProvider T) (tm_world s) usd = Some amount"
    "calculate_revenue_split T amount = Inr (burned, payout)"
    "reserve (tm_Currency T) buyer amount (tm_world s) = Some w"
    "s' = tm_deposit_event (TaskOrderCreated (NextOrderId s) buyer m amount)
      (s\<lparr>tm_world := w, NextOrderId := Suc (NextOrderId s),
         TaskOrders := (TaskOrders s)(NextOrderId s \<mapsto>
            \<lparr>order_id = NextOrderId s, task_id = tid, customer = buyer, miner = m,
             input_tokens = it, output_tokens = ot,
             dbc_price_snapshot = price, total_dbc_charged = amount,
             dbc_burned = burned, miner_payout = payout, created_at = now,
             status = InProgress, attestation_hash = None\<rparr>)\<rparr>)"
  using assms
  by (auto simp: create_task_order_def Let_def checked_Some
      split: option.splits if_splits sum.splits prod.splits)

lemma mark_order_completed_Inr:
  assumes "mark_order_completed orig oid h s = Inr s'"
  obtains ord where "TaskOrders s oid = Some ord" "orig = Signed (miner ord)" "status ord = InProgress"
    "s' = tm_deposit_event (TaskOrderCompleted oid h)
        (s\<lparr>TaskOrders := (TaskOrders s)(oid \<mapsto> ord\<lparr>status := Completed, attestation_hash := Some h\<rparr>)\<rparr>)"
  using assms
  by (auto simp: mark_order_completed_def split: option.splits if_splits)

lemma cancel_expired_order_Inr:
  assumes "cancel_expired_order T now orig oid s = Inr s'"
  obtains ord where "TaskOrders s oid = Some ord" "status ord = Pending \<or> status ord = InProgress"
    "created_at ord + OrderTimeout T < now"
    "s' = tm_deposit_event (TaskOrderExpired oid (customer ord) (total_dbc_charged ord))
        (s\<lparr>tm_world := fst (unreserve (tm_Currency T) (customer ord) (total_dbc_charged ord) (tm_world s)),
           TaskOrders := (TaskOrders s)(oid \<mapsto> ord\<lparr>status := Settled\<rparr>)\<rparr>)"
  using assms
  by (auto simp: cancel_expired_order_def Let_def checked_Some split: option.splits if_splits)

definition settled_order :: "task_order \<Rightarrow> bytes option \<Rightarrow> task_order" where
  "settled_order ord h =
     (case h of None \<Rightarrow> ord | Some x \<Rightarrow> ord\<lparr>attestation_hash := Some x\<rparr>)\<lparr>status := Settled\<rparr>"

lemma settled_order_simps [simp]:
  "customer (settled_order ord h) = customer ord" "miner (settled_order ord h) = miner ord"
  "total_dbc_charged (settled_order ord h) = total_dbc_charged ord"
  "dbc_burned (settled_order ord h) = dbc_burned ord"
  "miner_payout (settled_order ord h) = miner_payout ord"
  "created_at (settled_order ord h) = created_at ord"
  "order_id (settled_order ord h) = order_id ord"
  "task_id (settled_order ord h) = task_id ord"
  "status (settled_order ord h) = Settled"
  by (cases h; simp add: settled_order_def)+

lemma settle_task_order_Inr:
  assumes "settle_task_order T orig oid h s = Inr s'"
  obtains ord task w1 w2 r1 r2 era where
    "TaskOrders s oid = Some ord" "status ord = Completed"
    "repatriate_reserved (tm_Currency T) (customer ord) (TreasuryAccount T) (dbc_burned ord) (tm_world s)
      = Some (w1, r1)"
    "repatriate_reserved (tm_Currency T) (customer ord) (miner ord) (miner_payout ord) w1 = Some (w2, r2)"
    "era = block_to_era T (created_at ord)"
    "s' = tm_deposit_event (TaskOrderSettled oid (dbc_burned ord) (miner_payout ord))
      (s\<lparr>tm_world := w2, TaskOrders := (TaskOrders s)(oid \<mapsto> settled_order ord h),
         EraStats := (EraStats s)(era := add_era_stats (settled_order ord h) (EraStats s era)),
         MinerTaskStats := (MinerTaskStats s)
           (era := (MinerTaskStats s era)(miner ord :=
              add_miner_stats (settled_order ord h) (MinerTaskStats s era (miner ord))))\<rparr>)"
  using assms
  by (cases h) (auto simp: settle_task_order_def Let_def settled_order_def
      split: option.splits if_splits prod.splits)
section \<open>The escrow invariant\<close>

definition order_ok :: "'w tm_state \<Rightarrow> nat \<Rightarrow> task_order \<Rightarrow> bool" where
  "order_ok s i ord \<longleftrightarrow>
     order_id ord = i \<and> TaskDefinitions s (task_id ord) \<noteq> None \<and>
     dbc_burned ord + miner_payout ord = total_dbc_charged ord \<and>
     status ord \<noteq> Pending \<and> (status ord = Completed \<longrightarrow> attestation_hash ord \<noteq> None)"

definition tm_inv :: "'w tm_state \<Rightarrow> bool" where
  "tm_inv s \<longleftrightarrow>
     keys_below (TaskOrders s) (NextOrderId s) \<and> keys_below (TaskDefinitions s) (NextTaskId s) \<and>
     (\<forall>i ord. TaskOrders s i = Some ord \<longrightarrow> order_ok s i ord)"

definition tm_owed :: "task_order \<Rightarrow> account \<Rightarrow> nat" where
  "tm_owed ord a = (if customer ord = a \<and> status ord \<noteq> Settled then total_dbc_charged ord else 0)"

definition tm_locked :: "'w tm_state \<Rightarrow> account \<Rightarrow> nat" where
  "tm_locked s = owed_total tm_owed (TaskOrders s) (NextOrderId s)"

abbreviation tm_reserved :: "'w tm_config \<Rightarrow> 'w tm_state \<Rightarrow> account \<Rightarrow> nat" where
  "tm_reserved T s \<equiv> reserved_balance (tm_Currency T) (tm_world s)"

lemma calculate_revenue_split_Inr:
  "calculate_revenue_split T amount = Inr (b, p) \<Longrightarrow>
    b = pmul (tm_Perthing T) 100 (BurnPercentage T) amount \<and> b + p = amount"
  by (auto simp: calculate_revenue_split_def Let_def checked_Some split: option.splits if_splits)

lemma tm_invD:
  assumes "tm_inv s" "TaskOrders s i = Some ord"
  shows "i < NextOrderId s" "order_ok s i ord"
  using assms by (auto simp: tm_inv_def dest: keys_belowD)

lemma tm_inv_update:
  assumes "tm_inv s" "TaskOrders s i = Some ord" "order_ok s i ord'"
    "TaskOrders s' = (TaskOrders s)(i \<mapsto> ord')" "NextOrderId s' = NextOrderId s"
    "TaskDefinitions s' = TaskDefinitions s" "NextTaskId s' = NextTaskId s"
  shows "tm_inv s'"
  using assms tm_invD [OF assms(1,2)] keys_below_update
  by (auto simp: tm_inv_def order_ok_def)

lemma tm_locked_update:
  assumes "tm_inv s" "TaskOrders s i = Some ord"
    "TaskOrders s' = (TaskOrders s)(i \<mapsto> ord')" "NextOrderId s' = NextOrderId s"
  shows "tm_locked s' a + tm_owed ord a = tm_locked s a + tm_owed ord' a"
  using owed_total_update [of i "NextOrderId s" "TaskOrders s" ord tm_owed ord' a]
    tm_invD [OF assms(1,2)] assms by (simp add: tm_locked_def)

lemma tm_owed_le_locked: "tm_inv s \<Longrightarrow> TaskOrders s i = Some ord \<Longrightarrow> tm_owed ord a \<le> tm_locked s a"
  unfolding tm_locked_def by (rule owed_total_item_le) (auto dest: tm_invD)

lemma tm_event_frame [simp]:
  "TaskOrders (tm_deposit_event e s) = TaskOrders s"
  "TaskDefinitions (tm_deposit_event e s) = TaskDefinitions s"
  "NextOrderId (tm_deposit_event e s) = NextOrderId s"
  "NextTaskId (tm_deposit_event e s) = NextTaskId s"
  "EraStats (tm_deposit_event e s) = EraStats s"
  "MinerTaskStats (tm_deposit_event e s) = MinerTaskStats s"
  "tm_world (tm_deposit_event e s) = tm_world s"
  "tm_events (tm_deposit_event e s) = tm_events s @ [e]"
  by (simp_all add: tm_deposit_event_def)

text \<open>Every call keeps the invariant.\<close>

lemma create_task_definition_inv:
  assumes "create_task_definition T orig mid ver ip op mt cid s = Inr s'" "tm_inv s"
  shows "tm_inv s'"
proof -
  from assms(1) obtain d who where s': "s' = tm_deposit_event (TaskDefinitionCreated (NextTaskId s) who)
    (s\<lparr>NextTaskId := Suc (NextTaskId s), TaskDefinitions := (TaskDefinitions s)(NextTaskId s \<mapsto> d)\<rparr>)"
    by (rule create_task_definition_Inr)
  then show ?thesis using assms(2) keys_below_new [of "TaskDefinitions s" "NextTaskId s" d]
    by (auto simp: tm_inv_def order_ok_def)
qed

lemma update_task_definition_inv:
  assumes "update_task_definition orig tid ip op mt act s = Inr s'" "tm_inv s"
  shows "tm_inv s'"
proof -
  from assms(1) obtain d where "TaskDefinitions s tid = Some d"
    and s': "s' = tm_deposit_event (TaskDefinitionUpdated tid)
      (s\<lparr>TaskDefinitions := (TaskDefinitions s)(tid \<mapsto> updated_definition ip op mt act d)\<rparr>)"
    by (rule update_task_definition_Inr)
  then show ?thesis using assms(2)
    by (auto simp: tm_inv_def order_ok_def intro!: keys_below_update dest: keys_belowD)
qed

lemma create_task_order_inv:
  assumes "create_task_order T now orig tid m it ot s = Inr s'" "tm_inv s"
  shows "tm_inv s'"
  using assms(1)
proof (rule create_task_order_Inr)
  fix buyer task price usd amount burned payout w
  assume "TaskDefinitions s tid = Some task" "calculate_revenue_split T amount = Inr (burned, payout)"
    and "s' = tm_deposit_event (TaskOrderCreated (NextOrderId s) buyer m amount)
      (s\<lparr>tm_world := w, NextOrderId := Suc (NextOrderId s),
         TaskOrders := (TaskOrders s)(NextOrderId s \<mapsto>
            \<lparr>order_id = NextOrderId s, task_id = tid, customer = buyer, miner = m,
             input_tokens = it, output_tokens = ot,
             dbc_price_snapshot = price, total_dbc_charged = amount,
             dbc_burned = burned, miner_payout = payout, created_at = now,
             status = InProgress, attestation_hash = None\<rparr>)\<rparr>)"
  then show ?thesis using assms(2)
    by (auto simp: tm_inv_def order_ok_def intro!: keys_below_new dest: calculate_revenue_split_Inr)
qed

lemma mark_order_completed_inv:
  assumes "mark_order_completed orig oid h s = Inr s'" "tm_inv s"
  shows "tm_inv s'"
  using assms(1)
  by (rule mark_order_completed_Inr)
    (rule tm_inv_update [OF assms(2)], auto simp: order_ok_def dest: tm_invD [OF assms(2)])

lemma settle_task_order_inv:
  assumes "settle_task_order T orig oid h s = Inr s'" "tm_inv s"
  shows "tm_inv s'"
  using assms(1)
  by (rule settle_task_order_Inr)
    (rule tm_inv_update [OF assms(2)], auto simp: order_ok_def dest: tm_invD [OF assms(2)])

lemma cancel_expired_order_inv:
  assumes "cancel_expired_order T now orig oid s = Inr s'" "tm_inv s"
  shows "tm_inv s'"
  using assms(1)
  by (rule cancel_expired_order_Inr)
    (rule tm_inv_update [OF assms(2)], auto simp: order_ok_def dest: tm_invD [OF assms(2)])

lemma tm_step_inv: "tm_step T s s' \<Longrightarrow> tm_inv s \<Longrightarrow> tm_inv s'"
proof (induction rule: tm_step.induct)
  case (call now orig c s s')
  then show ?case
    by (cases c) (auto intro: create_task_definition_inv update_task_definition_inv
        create_task_order_inv mark_order_completed_inv settle_task_order_inv cancel_expired_order_inv)
next
  case (environment w s)
  then show ?case by (simp add: tm_inv_def order_ok_def)
qed

text \<open>Every call moves reserves by exactly what its orders owe.\<close>

lemma create_task_order_exact:
  assumes "reservable_currency (tm_Currency T)" "tm_inv s"
    "create_task_order T now orig tid m it ot s = Inr s'"
  shows "tm_reserved T s' a + tm_locked s a = tm_reserved T s a + tm_locked s' a"
  using assms(3)
  by (rule create_task_order_Inr)
    (simp add: tm_locked_def owed_total_new tm_owed_def
      reservable_currency.reserve_reserved [OF assms(1)])

lemma settle_task_order_exact:
  assumes cur: "reservable_currency (tm_Currency T)" and inv: "tm_inv s"
    and b: "backed tm_locked (tm_reserved T) s" and call: "settle_task_order T orig oid h s = Inr s'"
  shows "tm_reserved T s' a + tm_locked s a = tm_reserved T s a + tm_locked s' a"
  using call
proof (rule settle_task_order_Inr)
  fix ord task w1 w2 r1 r2 era
  assume o: "TaskOrders s oid = Some ord" "status ord = Completed"
    and m1: "repatriate_reserved (tm_Currency T) (customer ord) (TreasuryAccount T) (dbc_burned ord) (tm_world s)
      = Some (w1, r1)"
    and m2: "repatriate_reserved (tm_Currency T) (customer ord) (miner ord) (miner_payout ord) w1 = Some (w2, r2)"
    and s': "s' = tm_deposit_event (TaskOrderSettled oid (dbc_burned ord) (miner_payout ord))
      (s\<lparr>tm_world := w2, TaskOrders := (TaskOrders s)(oid \<mapsto> settled_order ord h),
         EraStats := (EraStats s)(era := add_era_stats (settled_order ord h) (EraStats s era)),
         MinerTaskStats := (MinerTaskStats s)
           (era := (MinerTaskStats s era)(miner ord :=
              add_miner_stats (settled_order ord h) (MinerTaskStats s era (miner ord))))\<rparr>)"
  have split: "dbc_burned ord + miner_payout ord = total_dbc_charged ord"
    using tm_invD(2) [OF inv o(1)] by (simp add: order_ok_def)
  have "tm_locked s' a + tm_owed ord a = tm_locked s a + tm_owed (settled_order ord h) a"
    by (rule tm_locked_update [OF inv o(1)]) (simp_all add: s')
  moreover have "tm_owed ord a \<le> tm_reserved T s a"
    using tm_owed_le_locked [OF inv o(1)] b by (auto simp: backed_def intro: le_trans)
  ultimately show ?thesis
    using split o(2) by (auto simp: s' tm_owed_def
        reservable_currency.repatriate_reserved_reserved [OF cur m1]
        reservable_currency.repatriate_reserved_reserved [OF cur m2] split: if_splits)
qed

lemma cancel_expired_order_exact:
  assumes cur: "reservable_currency (tm_Currency T)" and inv: "tm_inv s"
    and b: "backed tm_locked (tm_reserved T) s" and call: "cancel_expired_order T now orig oid s = Inr s'"
  shows "tm_reserved T s' a + tm_locked s a = tm_reserved T s a + tm_locked s' a"
  using call
proof (rule cancel_expired_order_Inr)
  fix ord
  assume o: "TaskOrders s oid = Some ord" "status ord = Pending \<or> status ord = InProgress"
    and s': "s' = tm_deposit_event (TaskOrderExpired oid (customer ord) (total_dbc_charged ord))
        (s\<lparr>tm_world := fst (unreserve (tm_Currency T) (customer ord) (total_dbc_charged ord) (tm_world s)),
           TaskOrders := (TaskOrders s)(oid \<mapsto> ord\<lparr>status := Settled\<rparr>)\<rparr>)"
  have "tm_locked s' a + tm_owed ord a = tm_locked s a + tm_owed (ord\<lparr>status := Settled\<rparr>) a"
    by (rule tm_locked_update [OF inv o(1)]) (simp_all add: s')
  moreover have "tm_owed ord a \<le> tm_reserved T s a"
    using tm_owed_le_locked [OF inv o(1)] b by (auto simp: backed_def intro: le_trans)
  ultimately show ?thesis
    using o(2) by (auto simp: s' tm_owed_def
        reservable_currency.unreserve_reserved [OF cur] split: if_splits)
qed

lemma mark_order_completed_exact:
  assumes "tm_inv s" "mark_order_completed orig oid h s = Inr s'"
  shows "tm_reserved T s' a + tm_locked s a = tm_reserved T s a + tm_locked s' a"
  using assms(2)
proof (rule mark_order_completed_Inr)
  fix ord
  assume o: "TaskOrders s oid = Some ord" "status ord = InProgress"
    and s': "s' = tm_deposit_event (TaskOrderCompleted oid h)
        (s\<lparr>TaskOrders := (TaskOrders s)(oid \<mapsto> ord\<lparr>status := Completed, attestation_hash := Some h\<rparr>)\<rparr>)"
  have "tm_locked s' a + tm_owed ord a =
      tm_locked s a + tm_owed (ord\<lparr>status := Completed, attestation_hash := Some h\<rparr>) a"
    by (rule tm_locked_update [OF assms(1) o(1)]) (simp_all add: s')
  then show ?thesis using o(2) by (simp add: s' tm_owed_def split: if_splits)
qed

lemma tm_locked_cong:
  "TaskOrders s' = TaskOrders s \<Longrightarrow> NextOrderId s' = NextOrderId s \<Longrightarrow> tm_locked s' = tm_locked s"
  by (simp add: tm_locked_def)

lemma create_task_definition_exact:
  "create_task_definition T orig mid ver ip op mt cid s = Inr s' \<Longrightarrow>
    tm_world s' = tm_world s \<and> tm_locked s' = tm_locked s"
  by (auto elim!: create_task_definition_Inr intro: tm_locked_cong)

lemma update_task_definition_exact:
  "update_task_definition orig tid ip op mt act s = Inr s' \<Longrightarrow>
    tm_world s' = tm_world s \<and> tm_locked s' = tm_locked s"
  by (auto elim!: update_task_definition_Inr intro: tm_locked_cong)

lemma tm_step_exact:
  assumes "tm_step T s s'" "reservable_currency (tm_Currency T)" "tm_inv s"
    "backed tm_locked (tm_reserved T) s"
  shows "tm_reserved T s' a + tm_locked s a = tm_reserved T s a + tm_locked s' a"
  using assms
proof (induction rule: tm_step.induct)
  case (call now orig c s s')
  then show ?case
    by (cases c) (auto intro: create_task_order_exact mark_order_completed_exact
        settle_task_order_exact cancel_expired_order_exact
        dest: create_task_definition_exact update_task_definition_exact)
next
  case (environment w s)
  then show ?case by (simp add: tm_locked_def)
qed

interpretation tm: escrow_pallet "tm_step T"
    "\<lambda>s. reservable_currency (tm_Currency T) \<and> tm_inv s" tm_locked "tm_reserved T"
  by unfold_locales (auto intro: tm_step_inv tm_step_exact)

lemma tm_init_inv: "tm_inv (tm_init w)"
  by (simp add: tm_inv_def tm_init_def keys_below_def)

lemma tm_init_backed: "backed tm_locked (tm_reserved T) (tm_init w)"
  by (simp add: backed_def tm_locked_def tm_init_def)

section \<open>Shares of the era reward\<close>

text \<open>
  In each era the payouts recorded per miner add up to at most the recorded total, unless the
  total has reached the largest \<open>u128\<close>.
\<close>

definition era_stats_ok :: "'w tm_state \<Rightarrow> nat \<Rightarrow> bool" where
  "era_stats_ok s e \<longleftrightarrow>
     total_miner_payout (EraStats s e) = 2 ^ 128 - 1 \<or>
     (\<forall>M. finite M \<longrightarrow> (\<Sum>m\<in>M. fst (MinerTaskStats s e m)) \<le> total_miner_payout (EraStats s e))"

lemma saturating_add_max: "saturating_add w (2 ^ w - 1) b = 2 ^ w - 1"
  by (simp add: saturating_add_def)

lemma era_stats_ok_settle:
  fixes p :: "account \<Rightarrow> nat"
  assumes "finite M" "\<And>M. finite M \<Longrightarrow> (\<Sum>m\<in>M. p m) \<le> tot"
    "saturating_add 128 tot v \<noteq> 2 ^ 128 - 1"
  shows "(\<Sum>m\<in>M. if m = k then saturating_add 128 (p k) v else p m) \<le> saturating_add 128 tot v"
proof -
  have sat: "saturating_add 128 tot v = tot + v"
    using assms(3) by (auto simp: saturating_add_def min_def split: if_splits)
  show ?thesis
  proof (cases "k \<in> M")
    case True
    have "(\<Sum>m\<in>M. if m = k then saturating_add 128 (p k) v else p m) =
        saturating_add 128 (p k) v + (\<Sum>m\<in>M - {k}. p m)"
      using assms(1) True by (simp add: sum.remove [of M k])
    also have "\<dots> \<le> p k + v + (\<Sum>m\<in>M - {k}. p m)" by (simp add: saturating_add_le)
    also have "\<dots> = (\<Sum>m\<in>M. p m) + v" using assms(1) True by (simp add: sum.remove [of M k])
    also have "\<dots> \<le> tot + v" using assms(2) [OF assms(1)] by simp
    finally show ?thesis by (simp add: sat)
  next
    case False
    then have "(\<Sum>m\<in>M. if m = k then saturating_add 128 (p k) v else p m) = (\<Sum>m\<in>M. p m)"
      by (intro sum.cong) auto
    also have "\<dots> \<le> tot" by (rule assms(2) [OF assms(1)])
    finally show ?thesis by (simp add: sat)
  qed
qed

lemma era_stats_ok_step: "tm_step T s s' \<Longrightarrow> era_stats_ok s e \<Longrightarrow> era_stats_ok s' e"
proof (induction rule: tm_step.induct)
  case (call now orig c s s')
  show ?case
  proof (cases "\<exists>i h. c = SettleTaskOrder i h")
    case False
    then have "EraStats s' = EraStats s \<and> MinerTaskStats s' = MinerTaskStats s"
      using call.hyps
      by (cases c) (auto elim!: create_task_definition_Inr update_task_definition_Inr
          create_task_order_Inr mark_order_completed_Inr cancel_expired_order_Inr)
    with call.prems show ?thesis by (simp add: era_stats_ok_def)
  next
    case True
    with call.hyps obtain i h where "settle_task_order T orig i h s = Inr s'" by auto
    then show ?thesis
    proof (rule settle_task_order_Inr)
      fix ord task w1 w2 r1 r2 era
      assume s': "s' = tm_deposit_event (TaskOrderSettled i (dbc_burned ord) (miner_payout ord))
        (s\<lparr>tm_world := w2, TaskOrders := (TaskOrders s)(i \<mapsto> settled_order ord h),
           EraStats := (EraStats s)(era := add_era_stats (settled_order ord h) (EraStats s era)),
           MinerTaskStats := (MinerTaskStats s)
             (era := (MinerTaskStats s era)(miner ord :=
                add_miner_stats (settled_order ord h) (MinerTaskStats s era (miner ord))))\<rparr>)"
      let ?p = "\<lambda>m. fst (MinerTaskStats s era m)" and ?tot = "total_miner_payout (EraStats s era)"
      have p': "fst (MinerTaskStats s' era m) =
          (if m = miner ord then saturating_add 128 (?p (miner ord)) (miner_payout ord) else ?p m)" for m
        by (simp add: s' add_miner_stats_def split: prod.splits)
      have t': "total_miner_payout (EraStats s' era) = saturating_add 128 ?tot (miner_payout ord)"
        by (simp add: s' add_era_stats_def)
      show ?thesis
      proof (cases "e = era")
        case False
        with call.prems show ?thesis by (simp add: s' era_stats_ok_def)
      next
        case True
        with call.prems consider "?tot = 2 ^ 128 - 1"
          | "\<And>M. finite M \<Longrightarrow> (\<Sum>m\<in>M. ?p m) \<le> ?tot"
          unfolding era_stats_ok_def by blast
        then show ?thesis
        proof cases
          case 1
          show ?thesis unfolding era_stats_ok_def True t' 1 saturating_add_max by blast
        next
          case 2
          show ?thesis unfolding era_stats_ok_def True t' p'
            using era_stats_ok_settle [of _ ?p, OF _ 2] by blast
        qed
      qed
    qed
  qed
next
  case (environment w s)
  then show ?case by (simp add: era_stats_ok_def)
qed

lemma era_stats_ok_run: "(tm_step T)\<^sup>*\<^sup>* s s' \<Longrightarrow> era_stats_ok s e \<Longrightarrow> era_stats_ok s' e"
  by (induction rule: rtranclp_induct) (auto intro: era_stats_ok_step)

lemma sum_div_le:
  fixes f :: "'a \<Rightarrow> nat"
  assumes "finite M" shows "(\<Sum>m\<in>M. f m div d) \<le> (\<Sum>m\<in>M. f m) div d"
  using assms
proof (induction rule: finite_induct)
  case empty
  show ?case by simp
next
  case (insert x F)
  have "f x div d + (\<Sum>m\<in>F. f m) div d \<le> (f x + (\<Sum>m\<in>F. f m)) div d"
    using div_add1_eq [of "f x" "\<Sum>m\<in>F. f m" d] by simp
  with insert show ?case by simp
qed

lemma miner_reward_share_eq:
  "miner_reward_share T e who R s = Some v \<Longrightarrow>
    v = fst (projr (split_era_rewards T R)) * fst (MinerTaskStats s e who)
          div total_miner_payout (EraStats s e)"
  by (auto simp: miner_reward_share_def Let_def checked_Some split: sum.splits if_splits option.splits)

lemma split_era_rewards_le:
  assumes "perthing (tm_Perthing T)" "TaskModeRewardPercentage T \<le> 100"
  shows "split_era_rewards T R = Inr (pmul (tm_Perthing T) 100 (TaskModeRewardPercentage T) R,
      R - pmul (tm_Perthing T) 100 (TaskModeRewardPercentage T) R) \<and>
    pmul (tm_Perthing T) 100 (TaskModeRewardPercentage T) R \<le> R"
  using perthing.pmul_le [OF assms(1), of 100 "TaskModeRewardPercentage T" R] assms(2)
  by (simp add: split_era_rewards_def checked_sub_def Let_def)

section \<open>A worked run\<close>

text \<open>
  The runtime configuration on a concrete ledger and price oracle: account 5 holds \<open>10 ^ 18\<close> units,
  the oracle publishes 3000; account 7 defines a task, account 5 orders 2000 tokens from miner 2,
  who completes the order.
\<close>

abbreviation demo_currency :: "(ledger \<times> dp_state) currency_ops" where
  "demo_currency \<equiv> lift_currency fst (\<lambda>l s. (l, snd s)) ledger_ops"

definition tm_demo :: "(ledger \<times> dp_state) tm_config" where
  "tm_demo = tm_runtime demo_currency perthing_ops_ref (dp_price_ops snd) 99"

definition tm_demo_world :: "ledger \<times> dp_state" where
  "tm_demo_world =
     (\<lparr>ledger_free = (\<lambda>_. 0)(5 := 10 ^ 18), ledger_reserved = (\<lambda>_. 0)\<rparr>, dp_init\<lparr>AvgPrice := Some 3000\<rparr>)"

definition tm_demo_calls :: "(block_number \<times> origin \<times> tm_call) list" where
  "tm_demo_calls =
     [(1, Signed 7, CreateTaskDefinition [] [] 500 900 10000 []),
      (2, Signed 5, CreateTaskOrder 0 2 1000 1000),
      (3, Signed 2, MarkOrderCompleted 0 [1])]"

definition tm_demo_state :: "(ledger \<times> dp_state) tm_state" where
  "tm_demo_state = projr (tm_run tm_demo tm_demo_calls (tm_init tm_demo_world))"

lemmas tm_call_defs = create_task_definition_def update_task_definition_def create_task_order_def
  mark_order_completed_def settle_task_order_def cancel_expired_order_def

lemmas tm_eval = tm_call_defs tm_demo_def tm_demo_world_def tm_demo_calls_def tm_init_def tm_runtime_sel
  perthing_ops_ref_sel dp_price_ops_sel get_dbc_price_def get_dbc_amount_by_value_def lift_currency_sel
  ledger_defs Let_def int_ops calculate_order_usd_value_def calculate_revenue_split_def
  tm_deposit_event_def dp_init_def

lemma tm_demo_currency: "reservable_currency (tm_Currency tm_demo)"
  unfolding tm_demo_def tm_runtime_def tm_config.simps
  by (rule lift_reservable_currency) (auto intro: ledger.reservable_currency_axioms)

lemma tm_demo_perthing: "perthing (tm_Perthing tm_demo)"
  by (simp add: tm_demo_def tm_runtime_def perthing_ref.perthing_axioms)

lemma tm_run_ok:
  assumes "reservable_currency (tm_Currency T)" "tm_run T cs (tm_init w) = Inr s"
  shows "tm_inv s" "\<forall>a. tm_locked s a \<le> tm_reserved T s a"
  using tm.run_backed [OF tm_run_steps [OF assms(2)]] assms(1) tm_init_inv [of w] tm_init_backed [of T w]
  by (simp_all add: backed_def)

lemma tm_demo_run: "tm_run tm_demo tm_demo_calls (tm_init tm_demo_world) = Inr tm_demo_state"
  by (simp add: tm_demo_state_def tm_eval)

definition tm_demo_settled :: "(ledger \<times> dp_state) tm_state" where
  "tm_demo_settled = projr (settle_task_order tm_demo (Signed 5) 0 None tm_demo_state)"

lemma tm_demo_settle: "settle_task_order tm_demo (Signed 5) 0 None tm_demo_state = Inr tm_demo_settled"
  by (simp add: tm_demo_settled_def tm_demo_state_def tm_eval block_to_era_def)

lemma tm_demo_settled_steps: "(tm_step tm_demo)\<^sup>*\<^sup>* (tm_init tm_demo_world) tm_demo_settled"
  using tm_run_steps [OF tm_demo_run] tm_step.call [of tm_demo 4 "Signed 5" "SettleTaskOrder 0 None"]
  by (simp add: tm_demo_settle rtranclp.rtrancl_into_rtrancl)

section \<open>Properties\<close>

text \<open>
  C24: from a fresh pallet, along every run of calls and outside changes, each account's
  reserved balance covers the full price of all its orders that are not yet settled, and the
  recorded parts of every order add up to its price.\<close>

theorem tm_orders_always_backed:
  assumes "reservable_currency (tm_Currency T)" "(tm_step T)\<^sup>*\<^sup>* (tm_init w) s"
  shows "tm_inv s \<and> (\<forall>a. tm_locked s a \<le> reserved_balance (tm_Currency T) (tm_world s) a)"
  using tm.run_backed [OF assms(2)] assms(1) tm_init_inv [of w] tm_init_backed [of T w]
  by (simp add: backed_def)

theorem tm_orders_always_backed_witness:
  "tm_inv tm_demo_state \<and> tm_locked tm_demo_state 5 = 466666666666666 \<and>
    tm_locked tm_demo_state 5 \<le> reserved_balance (tm_Currency tm_demo) (tm_world tm_demo_state) 5"
  using tm_orders_always_backed [OF tm_demo_currency tm_run_steps [OF tm_demo_run]]
  by (simp add: tm_demo_state_def tm_eval tm_locked_def owed_total_def tm_owed_def)

text \<open>
  settling a completed order of a backed state pays the treasury exactly the burn part and
  the miner exactly the rest, takes exactly the price from the customer's reserve, and closes the
  order; nobody else's balance changes.\<close>

lemma tm_settle_pays_exactly:
  assumes "reservable_currency (tm_Currency T)" "tm_inv s"
    "\<forall>a. tm_locked s a \<le> reserved_balance (tm_Currency T) (tm_world s) a"
    "settle_task_order T orig oid h s = Inr s'"
  shows "\<exists>ord ord'. TaskOrders s oid = Some ord \<and> TaskOrders s' oid = Some ord' \<and>
    status ord' = Settled \<and>
    (\<forall>a. free_balance (tm_Currency T) (tm_world s') a =
       free_balance (tm_Currency T) (tm_world s) a +
       (if a = TreasuryAccount T then dbc_burned ord else 0) +
       (if a = miner ord then total_dbc_charged ord - dbc_burned ord else 0)) \<and>
    (\<forall>a. reserved_balance (tm_Currency T) (tm_world s') a +
       (if a = customer ord then total_dbc_charged ord else 0) =
       reserved_balance (tm_Currency T) (tm_world s) a)"
  using assms(4)
proof (rule settle_task_order_Inr)
  fix ord task w1 w2 r1 r2 era
  assume o: "TaskOrders s oid = Some ord" "status ord = Completed"
    and m1: "repatriate_reserved (tm_Currency T) (customer ord) (TreasuryAccount T) (dbc_burned ord) (tm_world s)
      = Some (w1, r1)"
    and m2: "repatriate_reserved (tm_Currency T) (customer ord) (miner ord) (miner_payout ord) w1 = Some (w2, r2)"
    and s': "s' = tm_deposit_event (TaskOrderSettled oid (dbc_burned ord) (miner_payout ord))
      (s\<lparr>tm_world := w2, TaskOrders := (TaskOrders s)(oid \<mapsto> settled_order ord h),
         EraStats := (EraStats s)(era := add_era_stats (settled_order ord h) (EraStats s era)),
         MinerTaskStats := (MinerTaskStats s)
           (era := (MinerTaskStats s era)(miner ord :=
              add_miner_stats (settled_order ord h) (MinerTaskStats s era (miner ord))))\<rparr>)"
  have split: "dbc_burned ord + miner_payout ord = total_dbc_charged ord"
    using tm_invD(2) [OF assms(2) o(1)] by (simp add: order_ok_def)
  have "tm_owed ord (customer ord) \<le> tm_reserved T s (customer ord)"
    using tm_owed_le_locked [OF assms(2) o(1)] assms(3) by (blast intro: le_trans)
  then have cover: "dbc_burned ord + miner_payout ord \<le> tm_reserved T s (customer ord)"
    using o(2) split by (simp add: tm_owed_def)
  note cur = reservable_currency.repatriate_reserved_free [OF assms(1)]
    reservable_currency.repatriate_reserved_reserved [OF assms(1)]
  show ?thesis
    using o split cover
    by (intro exI [of _ ord] exI [of _ "settled_order ord h"])
      (auto simp: s' cur [OF m1] cur [OF m2])
qed

lemma tm_settle_pays_exactly_witness:
  "\<exists>ord ord'. TaskOrders tm_demo_state 0 = Some ord \<and> TaskOrders tm_demo_settled 0 = Some ord' \<and>
    status ord' = Settled \<and>
    (\<forall>a. free_balance (tm_Currency tm_demo) (tm_world tm_demo_settled) a =
       free_balance (tm_Currency tm_demo) (tm_world tm_demo_state) a +
       (if a = TreasuryAccount tm_demo then dbc_burned ord else 0) +
       (if a = miner ord then total_dbc_charged ord - dbc_burned ord else 0)) \<and>
    (\<forall>a. reserved_balance (tm_Currency tm_demo) (tm_world tm_demo_settled) a +
       (if a = customer ord then total_dbc_charged ord else 0) =
       reserved_balance (tm_Currency tm_demo) (tm_world tm_demo_state) a)"
  by (rule tm_settle_pays_exactly [OF tm_demo_currency tm_run_ok [OF tm_demo_currency tm_demo_run]
        tm_demo_settle])

text \<open>
  an order can be cancelled only while its miner has not completed it and only after its
  deadline; in a backed state the customer gets the whole price back and the order is closed.\<close>

lemma tm_cancel_refunds:
  assumes "reservable_currency (tm_Currency T)" "tm_inv s"
    "\<forall>a. tm_locked s a \<le> reserved_balance (tm_Currency T) (tm_world s) a"
    "cancel_expired_order T now orig oid s = Inr s'"
  shows "\<exists>ord. TaskOrders s oid = Some ord \<and> status ord = InProgress \<and>
    created_at ord + OrderTimeout T < now \<and> TaskOrders s' oid = Some (ord\<lparr>status := Settled\<rparr>) \<and>
    (\<forall>a. free_balance (tm_Currency T) (tm_world s') a =
       free_balance (tm_Currency T) (tm_world s) a +
       (if a = customer ord then total_dbc_charged ord else 0))"
  using assms(4)
proof (rule cancel_expired_order_Inr)
  fix ord
  assume o: "TaskOrders s oid = Some ord" "status ord = Pending \<or> status ord = InProgress"
    and late: "created_at ord + OrderTimeout T < now"
    and s': "s' = tm_deposit_event (TaskOrderExpired oid (customer ord) (total_dbc_charged ord))
        (s\<lparr>tm_world := fst (unreserve (tm_Currency T) (customer ord) (total_dbc_charged ord) (tm_world s)),
           TaskOrders := (TaskOrders s)(oid \<mapsto> ord\<lparr>status := Settled\<rparr>)\<rparr>)"
  have st: "status ord = InProgress" using o tm_invD(2) [OF assms(2)] by (auto simp: order_ok_def)
  have "tm_owed ord (customer ord) \<le> tm_reserved T s (customer ord)"
    using tm_owed_le_locked [OF assms(2) o(1)] assms(3) by (blast intro: le_trans)
  then have "total_dbc_charged ord \<le> tm_reserved T s (customer ord)"
    using st by (simp add: tm_owed_def)
  then show ?thesis
    using o st late
    by (auto simp: s' reservable_currency.unreserve_free [OF assms(1)])
qed

lemma tm_cancel_refunds_witness:
  "\<exists>s s' ord. tm_run tm_demo (take 2 tm_demo_calls) (tm_init tm_demo_world) = Inr s \<and>
    cancel_expired_order tm_demo 20000 (Signed 9) 0 s = Inr s' \<and>
    TaskOrders s 0 = Some ord \<and> created_at ord + OrderTimeout tm_demo < 20000 \<and>
    free_balance (tm_Currency tm_demo) (tm_world s') (customer ord) =
      free_balance (tm_Currency tm_demo) (tm_world s) (customer ord) + total_dbc_charged ord"
proof -
  let ?r = "tm_run tm_demo (take 2 tm_demo_calls) (tm_init tm_demo_world)"
  let ?c = "cancel_expired_order tm_demo 20000 (Signed 9) 0 (projr ?r)"
  have r: "?r = Inr (projr ?r)" by (simp add: tm_eval)
  have c: "?c = Inr (projr ?c)" by (simp add: tm_eval)
  show ?thesis
    using tm_cancel_refunds [OF tm_demo_currency tm_run_ok [OF tm_demo_currency r] c] r c
    by (intro exI [of _ "projr ?r"] exI [of _ "projr ?c"]) auto
qed

text \<open>
  orders only move forward. In a step, an order keeps its parties and amounts; its status
  stays or goes from in progress to completed, from completed to settled, or (expiry) from in
  progress to settled; a settled order never changes again.\<close>

lemma tm_order_lifecycle:
  assumes "tm_inv s" "tm_step T s s'" "TaskOrders s i = Some ord"
  shows "\<exists>ord'. TaskOrders s' i = Some ord' \<and>
    customer ord' = customer ord \<and> miner ord' = miner ord \<and>
    total_dbc_charged ord' = total_dbc_charged ord \<and> dbc_burned ord' = dbc_burned ord \<and>
    (ord' = ord \<or> (status ord, status ord') \<in>
       {(InProgress, Completed), (Completed, Settled), (InProgress, Settled)})"
  using assms(2,1,3)
proof (induction rule: tm_step.induct)
  case (call now orig c s s')
  have "status ord \<noteq> Pending" using tm_invD(2) [OF call.prems] by (simp add: order_ok_def)
  moreover have "i < NextOrderId s" using tm_invD(1) [OF call.prems] .
  ultimately show ?case using call
    by (cases c) (auto elim!: create_task_definition_Inr update_task_definition_Inr
        create_task_order_Inr mark_order_completed_Inr settle_task_order_Inr cancel_expired_order_Inr)
next
  case (environment w s)
  then show ?case by simp
qed

lemma tm_order_lifecycle_witness:
  "\<exists>ord ord'. TaskOrders tm_demo_state 0 = Some ord \<and> TaskOrders tm_demo_settled 0 = Some ord' \<and>
    customer ord' = customer ord \<and> status ord = Completed \<and>
    (ord' = ord \<or> (status ord, status ord') \<in>
       {(InProgress, Completed), (Completed, Settled), (InProgress, Settled)})"
proof -
  let ?ord = "the (TaskOrders tm_demo_state 0)"
  have o: "TaskOrders tm_demo_state 0 = Some ?ord \<and> status ?ord = Completed"
    by (simp add: tm_demo_state_def tm_eval)
  have "tm_step tm_demo tm_demo_state tm_demo_settled"
    using tm_step.call [of tm_demo 4 "Signed 5" "SettleTaskOrder 0 None"] by (simp add: tm_demo_settle)
  from tm_order_lifecycle [OF tm_run_ok(1) [OF tm_demo_currency tm_demo_run] this] o
  show ?thesis by blast
qed

text \<open>
  with the runtime's 15/85 split, dividing an order's price never fails for a \<open>u128\<close>
  price, and the two parts add up to it exactly; the burn part is 15 percent of it, rounded to
  the nearest unit.\<close>

lemma tm_revenue_split_total:
  assumes "perthing P" "amount < 2 ^ 128"
  shows "\<exists>b p. calculate_revenue_split (tm_runtime C P D tr) amount = Inr (b, p) \<and> b + p = amount \<and>
    100 * b \<le> 15 * amount + 50 \<and> 15 * amount \<le> 100 * b + 50"
proof -
  let ?b = "pmul P 100 15 amount" and ?m = "pmul P 100 85 amount"
  have c: "?b + ?m \<le> amount"
    using perthing.pmul_complement [OF assms(1), of 100 15 amount] by simp
  then have "checked_add 128 ?b ?m = Some (?b + ?m)"
    using assms(2) by (simp add: checked_add_def)
  then have "calculate_revenue_split (tm_runtime C P D tr) amount = Inr (?b, amount - ?b)"
    using c by (simp add: calculate_revenue_split_def checked_sub_def Let_def tm_runtime_def)
  moreover have "100 * ?b \<le> 15 * amount + 50" "15 * amount \<le> 100 * ?b + 50"
    using perthing.pmul_upper [OF assms(1), of 100 15 amount]
      perthing.pmul_lower [OF assms(1), of 100 15 amount] by simp_all
  ultimately show ?thesis using c by auto
qed

lemma tm_revenue_split_total_witness:
  "\<exists>b p. calculate_revenue_split (tm_runtime demo_currency perthing_ops_ref (dp_price_ops snd) 99) 1001 =
      Inr (b, p) \<and> b + p = 1001 \<and> 100 * b \<le> 15 * 1001 + 50 \<and> 15 * 1001 \<le> 100 * b + 50"
  by (rule tm_revenue_split_total [OF perthing_ref.perthing_axioms]) simp

text \<open>Whatever the run, the era reward shares computed for any set of miners add up to at
  most the task-mode pool of that era, which is at most the whole era reward.\<close>

lemma tm_reward_shares_bounded:
  assumes "perthing (tm_Perthing T)" "TaskModeRewardPercentage T \<le> 100"
    "(tm_step T)\<^sup>*\<^sup>* (tm_init w) s" "total_miner_payout (EraStats s e) < 2 ^ 128 - 1" "finite M"
    "\<forall>m \<in> M. miner_reward_share T e m R s \<noteq> None"
  shows "(\<Sum>m\<in>M. the (miner_reward_share T e m R s)) \<le> fst (projr (split_era_rewards T R)) \<and>
    fst (projr (split_era_rewards T R)) \<le> R"
proof -
  let ?pool = "fst (projr (split_era_rewards T R))"
  let ?p = "\<lambda>m. fst (MinerTaskStats s e m)" and ?tot = "total_miner_payout (EraStats s e)"
  have "era_stats_ok (tm_init w) e" by (simp add: era_stats_ok_def tm_init_def)
  then have "era_stats_ok s e" by (rule era_stats_ok_run [OF assms(3)])
  then have le: "(\<Sum>m\<in>M. ?p m) \<le> ?tot" using assms(4,5) by (auto simp: era_stats_ok_def)
  have "the (miner_reward_share T e m R s) = ?pool * ?p m div ?tot" if "m \<in> M" for m
    using miner_reward_share_eq [of T e m R s] that assms(6) by fastforce
  then have "(\<Sum>m\<in>M. the (miner_reward_share T e m R s)) = (\<Sum>m\<in>M. ?pool * ?p m div ?tot)"
    by (intro sum.cong) auto
  also have "\<dots> \<le> (\<Sum>m\<in>M. ?pool * ?p m) div ?tot" by (rule sum_div_le [OF assms(5)])
  also have "\<dots> = ?pool * (\<Sum>m\<in>M. ?p m) div ?tot" by (simp add: sum_distrib_left)
  also have "\<dots> \<le> ?pool * ?tot div ?tot" using le by (intro div_le_mono mult_le_mono2)
  also have "\<dots> \<le> ?pool" by simp
  finally show ?thesis using split_era_rewards_le [OF assms(1,2), of R] by simp
qed

lemma tm_reward_shares_bounded_witness:
  "the (miner_reward_share tm_demo 0 2 1000 tm_demo_settled) = 700 \<and>
    (\<Sum>m\<in>{2}. the (miner_reward_share tm_demo 0 m 1000 tm_demo_settled))
      \<le> fst (projr (split_era_rewards tm_demo 1000)) \<and>
    fst (projr (split_era_rewards tm_demo 1000)) \<le> 1000"
proof -
  have e: "miner_reward_share tm_demo 0 2 1000 tm_demo_settled = Some 700"
    "total_miner_payout (EraStats tm_demo_settled 0) < 2 ^ 128 - 1"
    by (simp_all add: tm_demo_settled_def tm_demo_state_def tm_eval block_to_era_def add_era_stats_def
        add_miner_stats_def miner_reward_share_def split_era_rewards_def)
  have "TaskModeRewardPercentage tm_demo \<le> 100" by (simp add: tm_demo_def tm_runtime_def)
  from tm_reward_shares_bounded [OF tm_demo_perthing this tm_demo_settled_steps e(2), of "{2}" 1000] e(1)
  show ?thesis by simp
qed

text \<open>The trait's fixed 15/85 split never hands out more than the billed amount and loses at
  most one unit to rounding.\<close>

lemma tm_billing_split_close:
  assumes "perthing (tm_Perthing T)"
  shows "fst (get_revenue_split T amount) + snd (get_revenue_split T amount) \<le> amount \<and>
    amount \<le> fst (get_revenue_split T amount) + snd (get_revenue_split T amount) + 1"
  using perthing.pmul_complement [OF assms, of 100 15 amount] by (simp add: get_revenue_split_def)

lemma tm_billing_split_close_witness:
  "fst (get_revenue_split tm_demo 10) + snd (get_revenue_split tm_demo 10) \<le> 10 \<and>
    10 \<le> fst (get_revenue_split tm_demo 10) + snd (get_revenue_split tm_demo 10) + 1"
  by (rule tm_billing_split_close [OF tm_demo_perthing])

end
