(* ===== verification/Support_Traits.thy ===== *)
theory Support_Traits
  imports Escrow
begin

text \<open>
  The traits of \<open>pallets/support/src/traits.rs\<close> through which one pallet calls another, as
  locales: the operation the client calls, and what the provider promises about it. \<open>I\<close> is the
  provider's invariant and \<open>L\<close> the amount it keeps reserved on behalf of each account.
\<close>

section \<open>\<open>AttestationSettler\<close>\<close>

type_synonym 'w settle_fn =
  "block_number \<Rightarrow> account \<Rightarrow> account \<Rightarrow> balance \<Rightarrow> nat \<Rightarrow> 'w \<Rightarrow> 'w \<times> (string + nat)"

locale attestation_settler =
  fixes settle :: "'w settle_fn" and C :: "'w currency_ops"
    and I :: "'w \<Rightarrow> bool" and L :: "'w \<Rightarrow> account \<Rightarrow> nat"
  assumes settle_reserved:
      "reservable_currency C \<Longrightarrow> reserved_balance C (fst (settle now a b v i w)) = reserved_balance C w"
    and settle_ok: "reservable_currency C \<Longrightarrow> settle now a b v i w = (w', Inr n) \<Longrightarrow>
      v \<le> free_balance C w a \<and>
      free_balance C w' = (let f = (free_balance C w)(a := free_balance C w a - v) in f(b := f b + v))"
    and settle_err: "settle now a b v i w = (w', Inl e) \<Longrightarrow> free_balance C w' = free_balance C w"
    and settle_inv: "I w \<Longrightarrow> I (fst (settle now a b v i w))"
    and settle_locked: "I w \<Longrightarrow> L (fst (settle now a b v i w)) = L w"
begin

text \<open>Settling from an account to itself moves nothing.\<close>

lemma settle_self_free:
  "reservable_currency C \<Longrightarrow> free_balance C (fst (settle now a a v i w)) = free_balance C w"
  by (cases "settle now a a v i w"; cases "snd (settle now a a v i w)")
    (auto simp: settle_err Let_def dest!: settle_ok)

end

section \<open>\<open>TaskCompletionHandler\<close>\<close>

type_synonym 'w completion_fn =
  "block_number \<Rightarrow> account \<Rightarrow> nat \<Rightarrow> bytes \<Rightarrow> bytes \<Rightarrow> nat \<Rightarrow> nat \<Rightarrow> 'w \<Rightarrow> 'w \<times> (string + nat)"

locale task_completion_handler =
  fixes handler :: "'w completion_fn" and C :: "'w currency_ops"
    and I :: "'w \<Rightarrow> bool" and L :: "'w \<Rightarrow> account \<Rightarrow> nat"
  assumes handler_inv: "I w \<Longrightarrow> I (fst (handler now a t h m i ot w))"
    and handler_exact: "I w \<Longrightarrow>
      reserved_balance C (fst (handler now a t h m i ot w)) b + L w b =
      reserved_balance C w b + L (fst (handler now a t h m i ot w)) b"
    and handler_total: "I w \<Longrightarrow>
      free_balance C (fst (handler now a t h m i ot w)) b +
        reserved_balance C (fst (handler now a t h m i ot w)) b =
      free_balance C w b + reserved_balance C w b"

end
