(* ===== verification/X402_Settlement.thy ===== *)
theory X402_Settlement
  imports Support_Traits
begin

text \<open>
  The payment pallet \<open>pallets/x402-settlement/src/lib.rs\<close>. A merchant reserves an amount for a
  miner under a facilitator's signature, the facilitator verifies the intent, after a delay one of
  the parties finalizes it, and an intent that stays pending past its expiry is refunded at the
  start of a block. The signature check, the SCALE encodings it signs and the receipt hash are
  parameters. The pallet provides the \<open>AttestationSettler\<close> trait: it interprets the locale
  \<open>attestation_settler\<close>.
\<close>

section \<open>Data\<close>

datatype payment_intent_status = Pending | Verified | Settled | Failed

record payment_intent =
  intent_id :: nat
  merchant :: account
  miner :: account
  amount :: balance
  nonce :: nat
  replay_fingerprint :: bytes
  facilitator_signature :: bytes
  status :: payment_intent_status
  created_at :: block_number
  verified_at :: "block_number option"
  settled_at :: "block_number option"
  expires_at :: block_number

record settlement_receipt =
  receipt_intent_id :: nat
  receipt_merchant :: account
  receipt_miner :: account
  receipt_amount :: balance
  receipt_settled_at :: nat
  receipt_tx_hash :: bytes

datatype x4_error =
    BadOrigin
  | InvalidNonce
  | ReplayFingerprintUsed_err
  | InvalidFacilitatorSignature
  | PaymentIntentNotFound
  | InvalidPaymentIntentStatus
  | InsufficientBalance
  | SettlementDelayNotMet
  | NotAuthorized
  | ArithmeticOverflow
  | PaymentIntentExpired_err
  | TooManyPendingIntents

datatype x4_event =
    PaymentIntentSubmitted nat account account balance nat
  | PaymentIntentVerified nat account
  | PaymentIntentSettled nat account account balance
  | PaymentIntentFailed nat string
  | PaymentIntentExpired nat account balance

record 'w x4_config =
  x4_Currency :: "'w currency_ops"
  FacilitatorAccount :: account
  FacilitatorPublicKey :: bytes
  MaxSignatureLen :: nat
  SettlementDelay :: block_number
  PaymentIntentTTL :: block_number
  encode_account :: "account \<Rightarrow> bytes"
  encode_u128 :: "nat \<Rightarrow> bytes"
  encode_u64 :: "nat \<Rightarrow> bytes"
  encode_h256 :: "bytes \<Rightarrow> bytes"
  sr25519_verify :: "bytes \<Rightarrow> bytes \<Rightarrow> bytes \<Rightarrow> bool"
  from_low_u64_be :: "nat \<Rightarrow> bytes"

record 'w x4_state =
  NextIntentId :: nat
  PaymentIntents :: "nat \<Rightarrow> payment_intent option"
  NonceUsed :: "account \<times> nat \<Rightarrow> bool option"
  ReplayFingerprintUsed :: "bytes \<Rightarrow> bool option"
  SettlementReceipts :: "nat \<Rightarrow> settlement_receipt option"
  PendingIntentIds :: "nat list"
  x4_events :: "x4_event list"
  x4_world :: 'w

definition x4_deposit_event :: "x4_event \<Rightarrow> 'w x4_state \<Rightarrow> 'w x4_state" where
  "x4_deposit_event e s = s\<lparr>x4_events := x4_events s @ [e]\<rparr>"

text \<open>The bound of \<open>PendingIntentIds\<close>.\<close>

definition max_pending_intents :: nat where
  "max_pending_intents = 10000"

section \<open>The signed message\<close>

definition payment_message ::
    "'w x4_config \<Rightarrow> account \<Rightarrow> account \<Rightarrow> balance \<Rightarrow> nat \<Rightarrow> bytes \<Rightarrow> bytes" where
  "payment_message T who_pays who_mines amt nnc fingerprint =
     encode_account T who_pays @ encode_account T who_mines @ encode_u128 T amt @
     encode_u64 T nnc @ encode_h256 T fingerprint"

definition verify_facilitator_signature ::
    "'w x4_config \<Rightarrow> account \<Rightarrow> account \<Rightarrow> balance \<Rightarrow> nat \<Rightarrow> bytes \<Rightarrow> bytes \<Rightarrow> bool" where
  "verify_facilitator_signature T who_pays who_mines amt nnc fingerprint sig =
     (if length sig \<noteq> 64 then False
      else sr25519_verify T (take 64 sig) (payment_message T who_pays who_mines amt nnc fingerprint)
             (FacilitatorPublicKey T))"

section \<open>Dispatchables\<close>

definition submit_payment_intent ::
    "'w x4_config \<Rightarrow> block_number \<Rightarrow> origin \<Rightarrow> account \<Rightarrow> balance \<Rightarrow> nat \<Rightarrow> bytes \<Rightarrow> bytes \<Rightarrow>
     'w x4_state \<Rightarrow> x4_error + 'w x4_state" where
  "submit_payment_intent T now orig who_mines amt nnc fingerprint sig s =
     (case ensure_signed orig of None \<Rightarrow> Inl BadOrigin
      | Some who_pays \<Rightarrow>
      if NonceUsed s (who_pays, nnc) \<noteq> None then Inl InvalidNonce
      else if ReplayFingerprintUsed s fingerprint \<noteq> None then Inl ReplayFingerprintUsed_err
      else if \<not> length sig \<le> MaxSignatureLen T then Inl ArithmeticOverflow
      else if \<not> verify_facilitator_signature T who_pays who_mines amt nnc fingerprint sig
      then Inl InvalidFacilitatorSignature
      else case reserve (x4_Currency T) who_pays amt (x4_world s) of
        None \<Rightarrow> Inl InsufficientBalance
      | Some w \<Rightarrow>
      let iid = NextIntentId s in
      case checked_add 64 iid 1 of None \<Rightarrow> Inl ArithmeticOverflow
      | Some next_intent_id \<Rightarrow>
      case try_push max_pending_intents (PendingIntentIds s) iid of
        None \<Rightarrow> Inl TooManyPendingIntents
      | Some ids \<Rightarrow>
      Inr (x4_deposit_event (PaymentIntentSubmitted iid who_pays who_mines amt nnc)
        (s\<lparr>x4_world := w,
           NextIntentId := next_intent_id,
           NonceUsed := (NonceUsed s)((who_pays, nnc) \<mapsto> True),
           ReplayFingerprintUsed := (ReplayFingerprintUsed s)(fingerprint \<mapsto> True),
           PendingIntentIds := ids,
           PaymentIntents := (PaymentIntents s)(iid \<mapsto>
             \<lparr>intent_id = iid, merchant = who_pays, miner = who_mines, amount = amt, nonce = nnc,
              replay_fingerprint = fingerprint, facilitator_signature = sig, status = Pending,
              created_at = now, verified_at = None, settled_at = None,
              expires_at = saturating_add 32 now (PaymentIntentTTL T)\<rparr>)\<rparr>)))"

definition verify_settlement ::
    "'w x4_config \<Rightarrow> block_number \<Rightarrow> origin \<Rightarrow> nat \<Rightarrow> 'w x4_state \<Rightarrow> x4_error + 'w x4_state" where
  "verify_settlement T now orig iid s =
     (case ensure_signed orig of None \<Rightarrow> Inl BadOrigin
      | Some facilitator \<Rightarrow>
      if \<not> facilitator = FacilitatorAccount T then Inl NotAuthorized
      else case PaymentIntents s iid of None \<Rightarrow> Inl PaymentIntentNotFound
      | Some intent \<Rightarrow>
      if status intent \<noteq> Pending then Inl InvalidPaymentIntentStatus
      else if \<not> now < expires_at intent then Inl PaymentIntentExpired_err
      else Inr (x4_deposit_event (PaymentIntentVerified iid facilitator)
        (s\<lparr>PaymentIntents := (PaymentIntents s)(iid \<mapsto>
             intent\<lparr>status := Verified, verified_at := Some now\<rparr>),
           PendingIntentIds := filter (\<lambda>i. i \<noteq> iid) (PendingIntentIds s)\<rparr>)))"

definition make_receipt :: "'w x4_config \<Rightarrow> nat \<Rightarrow> account \<Rightarrow> account \<Rightarrow> balance \<Rightarrow> block_number \<Rightarrow> settlement_receipt" where
  "make_receipt T iid who_pays who_mines amt now =
     \<lparr>receipt_intent_id = iid, receipt_merchant = who_pays, receipt_miner = who_mines,
      receipt_amount = amt, receipt_settled_at = saturated_into 64 now,
      receipt_tx_hash = from_low_u64_be T iid\<rparr>"

definition finalize_settlement ::
    "'w x4_config \<Rightarrow> block_number \<Rightarrow> origin \<Rightarrow> nat \<Rightarrow> 'w x4_state \<Rightarrow> x4_error + 'w x4_state" where
  "finalize_settlement T now orig iid s =
     (case ensure_signed orig of None \<Rightarrow> Inl BadOrigin
      | Some caller \<Rightarrow>
      case PaymentIntents s iid of None \<Rightarrow> Inl PaymentIntentNotFound
      | Some intent \<Rightarrow>
      if status intent \<noteq> Verified then Inl InvalidPaymentIntentStatus
      else if \<not> now < expires_at intent then Inl PaymentIntentExpired_err
      else if \<not> (caller = merchant intent \<or> caller = miner intent \<or> caller = FacilitatorAccount T)
      then Inl NotAuthorized
      else case verified_at intent of None \<Rightarrow> Inl InvalidPaymentIntentStatus
      | Some verified \<Rightarrow>
      if \<not> now \<ge> saturating_add 32 verified (SettlementDelay T) then Inl SettlementDelayNotMet
      else case repatriate_reserved (x4_Currency T) (merchant intent) (miner intent)
                  (amount intent) (x4_world s) of
        None \<Rightarrow> Inl InsufficientBalance
      | Some (w, _) \<Rightarrow>
      let intent = intent\<lparr>status := Settled, settled_at := Some now\<rparr>;
          receipt = make_receipt T iid (merchant intent) (miner intent) (amount intent) now
      in Inr (x4_deposit_event
           (PaymentIntentSettled iid (merchant intent) (miner intent) (amount intent))
           (s\<lparr>x4_world := w,
              PaymentIntents := (PaymentIntents s)(iid \<mapsto> intent),
              SettlementReceipts := (SettlementReceipts s)(iid \<mapsto> receipt)\<rparr>)))"

definition fail_payment_intent ::
    "'w x4_config \<Rightarrow> origin \<Rightarrow> nat \<Rightarrow> 'w x4_state \<Rightarrow> x4_error + 'w x4_state" where
  "fail_payment_intent T orig iid s =
     (case ensure_signed orig of None \<Rightarrow> Inl BadOrigin
      | Some facilitator \<Rightarrow>
      if \<not> facilitator = FacilitatorAccount T then Inl NotAuthorized
      else case PaymentIntents s iid of None \<Rightarrow> Inl PaymentIntentNotFound
      | Some intent \<Rightarrow>
      if \<not> (status intent = Pending \<or> status intent = Verified) then Inl InvalidPaymentIntentStatus
      else Inr (x4_deposit_event (PaymentIntentFailed iid ''Payment intent failed by facilitator'')
        (s\<lparr>x4_world := fst (unreserve (x4_Currency T) (merchant intent) (amount intent) (x4_world s)),
           PaymentIntents := (PaymentIntents s)(iid \<mapsto> intent\<lparr>status := Failed\<rparr>),
           PendingIntentIds := filter (\<lambda>i. i \<noteq> iid) (PendingIntentIds s)\<rparr>)))"

section \<open>The block hook\<close>

fun expire_loop ::
    "'w x4_config \<Rightarrow> block_number \<Rightarrow> nat list \<Rightarrow> 'w x4_state \<times> nat list \<Rightarrow> 'w x4_state \<times> nat list" where
  "expire_loop T now [] (s, expired_ids) = (s, expired_ids)"
| "expire_loop T now (i # ids) (s, expired_ids) =
     (case PaymentIntents s i of
        None \<Rightarrow> expire_loop T now ids (s, expired_ids)
      | Some intent \<Rightarrow>
          if now \<ge> expires_at intent \<and> status intent = Pending
          then expire_loop T now ids
            (x4_deposit_event (PaymentIntentExpired i (merchant intent) (amount intent))
              (s\<lparr>x4_world :=
                   fst (unreserve (x4_Currency T) (merchant intent) (amount intent) (x4_world s)),
                 PaymentIntents := (PaymentIntents s)(i \<mapsto> intent\<lparr>status := Failed\<rparr>)\<rparr>),
             expired_ids @ [i])
          else expire_loop T now ids (s, expired_ids))"

definition on_initialize :: "'w x4_config \<Rightarrow> block_number \<Rightarrow> 'w x4_state \<Rightarrow> 'w x4_state" where
  "on_initialize T now s =
     (case expire_loop T now (PendingIntentIds s) (s, []) of (s', expired_ids) \<Rightarrow>
        if expired_ids \<noteq> []
        then s'\<lparr>PendingIntentIds := filter (\<lambda>i. i \<notin> set expired_ids) (PendingIntentIds s')\<rparr>
        else s')"

section \<open>The \<open>AttestationSettler\<close> trait\<close>

definition settle_for_attestation ::
    "'w x4_config \<Rightarrow> block_number \<Rightarrow> account \<Rightarrow> account \<Rightarrow> balance \<Rightarrow> nat \<Rightarrow> 'w x4_state \<Rightarrow>
     'w x4_state \<times> (string + nat)" where
  "settle_for_attestation T now who_pays who_mines amt _ s =
     (let iid = NextIntentId s in
      case checked_add 64 iid 1 of None \<Rightarrow> (s, Inl ''Intent ID overflow'')
      | Some next_id \<Rightarrow>
      let s1 = s\<lparr>NextIntentId := next_id\<rparr> in
      case transfer (x4_Currency T) who_pays who_mines amt KeepAlive (x4_world s1) of
        None \<Rightarrow> (s1, Inl ''Failed to transfer to miner'')
      | Some w \<Rightarrow>
      (x4_deposit_event (PaymentIntentSettled iid who_pays who_mines amt)
        (s1\<lparr>x4_world := w,
            SettlementReceipts := (SettlementReceipts s1)(iid \<mapsto>
              make_receipt T iid who_pays who_mines amt now)\<rparr>), Inr iid))"

abbreviation x4_lift :: "'w currency_ops \<Rightarrow> 'w x4_state currency_ops" where
  "x4_lift \<equiv> lift_currency x4_world (\<lambda>w s. s\<lparr>x4_world := w\<rparr>)"

lemma x4_lift_reservable: "reservable_currency C \<Longrightarrow> reservable_currency (x4_lift C)"
  by (rule lift_reservable_currency) simp_all

section \<open>Queries\<close>

definition get_payment_intent :: "nat \<Rightarrow> 'w x4_state \<Rightarrow> payment_intent option" where
  "get_payment_intent iid s = PaymentIntents s iid"

definition get_settlement_receipt :: "nat \<Rightarrow> 'w x4_state \<Rightarrow> settlement_receipt option" where
  "get_settlement_receipt iid s = SettlementReceipts s iid"

definition is_nonce_used :: "account \<Rightarrow> nat \<Rightarrow> 'w x4_state \<Rightarrow> bool" where
  "is_nonce_used acct nnc s \<longleftrightarrow> NonceUsed s (acct, nnc) \<noteq> None"

definition is_replay_fingerprint_used :: "bytes \<Rightarrow> 'w x4_state \<Rightarrow> bool" where
  "is_replay_fingerprint_used fingerprint s \<longleftrightarrow> ReplayFingerprintUsed s fingerprint \<noteq> None"

section \<open>Calls and steps\<close>

datatype x4_call =
    SubmitPaymentIntent account balance nat bytes bytes
  | VerifySettlement nat
  | FinalizeSettlement nat
  | FailPaymentIntent nat

fun x4_dispatch ::
    "'w x4_config \<Rightarrow> block_number \<Rightarrow> origin \<Rightarrow> x4_call \<Rightarrow> 'w x4_state \<Rightarrow> x4_error + 'w x4_state" where
  "x4_dispatch T now orig (SubmitPaymentIntent m a n f sg) s = submit_payment_intent T now orig m a n f sg s"
| "x4_dispatch T now orig (VerifySettlement i) s = verify_settlement T now orig i s"
| "x4_dispatch T now orig (FinalizeSettlement i) s = finalize_settlement T now orig i s"
| "x4_dispatch T now orig (FailPaymentIntent i) s = fail_payment_intent T orig i s"

text \<open>
  A step: a successful call, the hook at the start of a block, a settlement asked for by the
  attestation pallet, or an outside change that leaves reserved balances alone.
\<close>

inductive x4_step :: "'w x4_config \<Rightarrow> 'w x4_state \<Rightarrow> 'w x4_state \<Rightarrow> bool" for T where
  call: "x4_dispatch T now orig c s = Inr s' \<Longrightarrow> x4_step T s s'"
| hook: "x4_step T s (on_initialize T now s)"
| settle: "settle_for_attestation T now a b v i s = (s', r) \<Longrightarrow> x4_step T s s'"
| environment: "reserved_balance (x4_Currency T) w = reserved_balance (x4_Currency T) (x4_world s) \<Longrightarrow>
    x4_step T s (s\<lparr>x4_world := w\<rparr>)"

definition x4_init :: "'w \<Rightarrow> 'w x4_state" where
  "x4_init w =
     \<lparr>NextIntentId = 0, PaymentIntents = Map.empty, NonceUsed = Map.empty,
      ReplayFingerprintUsed = Map.empty, SettlementReceipts = Map.empty, PendingIntentIds = [],
      x4_events = [], x4_world = w\<rparr>"

text \<open>A sequence of calls, and the runtime's constants.\<close>

fun x4_run ::
    "'w x4_config \<Rightarrow> (block_number \<times> origin \<times> x4_call) list \<Rightarrow> 'w x4_state \<Rightarrow> x4_error + 'w x4_state" where
  "x4_run T [] s = Inr s"
| "x4_run T ((now, orig, c) # cs) s =
     (case x4_dispatch T now orig c s of Inl e \<Rightarrow> Inl e | Inr s' \<Rightarrow> x4_run T cs s')"

lemma x4_run_steps: "x4_run T cs s = Inr s' \<Longrightarrow> (x4_step T)\<^sup>*\<^sup>* s s'"
proof (induction T cs s rule: x4_run.induct)
  case (1 T s)
  then show ?case by simp
next
  case (2 T now orig c cs s)
  then show ?case
    by (auto split: sum.splits intro: converse_rtranclp_into_rtranclp x4_step.call)
qed

section \<open>What a successful call does\<close>

lemma x4_event_frame [simp]:
  "PaymentIntents (x4_deposit_event e s) = PaymentIntents s"
  "NextIntentId (x4_deposit_event e s) = NextIntentId s"
  "NonceUsed (x4_deposit_event e s) = NonceUsed s"
  "ReplayFingerprintUsed (x4_deposit_event e s) = ReplayFingerprintUsed s"
  "SettlementReceipts (x4_deposit_event e s) = SettlementReceipts s"
  "PendingIntentIds (x4_deposit_event e s) = PendingIntentIds s"
  "x4_world (x4_deposit_event e s) = x4_world s"
  "x4_events (x4_deposit_event e s) = x4_events s @ [e]"
  by (simp_all add: x4_deposit_event_def)

lemma submit_payment_intent_Inr:
  assumes "submit_payment_intent T now orig m amt n fp sig s = Inr s'"
  obtains who w where
    "orig = Signed who" "NonceUsed s (who, n) = None" "ReplayFingerprintUsed s fp = None"
    "length sig = 64"
    "sr25519_verify T sig (payment_message T who m amt n fp) (FacilitatorPublicKey T)"
    "reserve (x4_Currency T) who amt (x4_world s) = Some w"
    "length (PendingIntentIds s) < max_pending_intents"
    "s' = x4_deposit_event (PaymentIntentSubmitted (NextIntentId s) who m amt n)
      (s\<lparr>x4_world := w, NextIntentId := Suc (NextIntentId s),
         NonceUsed := (NonceUsed s)((who, n) \<mapsto> True),
         ReplayFingerprintUsed := (ReplayFingerprintUsed s)(fp \<mapsto> True),
         PendingIntentIds := PendingIntentIds s @ [NextIntentId s],
         PaymentIntents := (PaymentIntents s)(NextIntentId s \<mapsto>
           \<lparr>intent_id = NextIntentId s, merchant = who, miner = m, amount = amt, nonce = n,
            replay_fingerprint = fp, facilitator_signature = sig, status = Pending,
            created_at = now, verified_at = None, settled_at = None,
            expires_at = saturating_add 32 now (PaymentIntentTTL T)\<rparr>)\<rparr>)"
  using assms
  by (auto simp: submit_payment_intent_def verify_facilitator_signature_def Let_def checked_Some
      try_push_Some split: option.splits if_splits)

lemma verify_settlement_Inr:
  assumes "verify_settlement T now orig i s = Inr s'"
  obtains it where
    "orig = Signed (FacilitatorAccount T)" "PaymentIntents s i = Some it" "status it = Pending"
    "now < expires_at it"
    "s' = x4_deposit_event (PaymentIntentVerified i (FacilitatorAccount T))
      (s\<lparr>PaymentIntents := (PaymentIntents s)(i \<mapsto> it\<lparr>status := Verified, verified_at := Some now\<rparr>),
         PendingIntentIds := filter (\<lambda>j. j \<noteq> i) (PendingIntentIds s)\<rparr>)"
  using assms by (auto simp: verify_settlement_def split: option.splits if_splits)

lemma finalize_settlement_Inr:
  assumes "finalize_settlement T now orig i s = Inr s'"
  obtains who it v w r where
    "orig = Signed who" "PaymentIntents s i = Some it" "status it = Verified"
    "now < expires_at it" "who = merchant it \<or> who = miner it \<or> who = FacilitatorAccount T"
    "verified_at it = Some v" "saturating_add 32 v (SettlementDelay T) \<le> now"
    "repatriate_reserved (x4_Currency T) (merchant it) (miner it) (amount it) (x4_world s) = Some (w, r)"
    "s' = x4_deposit_event (PaymentIntentSettled i (merchant it) (miner it) (amount it))
      (s\<lparr>x4_world := w,
         PaymentIntents := (PaymentIntents s)(i \<mapsto> it\<lparr>status := Settled, settled_at := Some now\<rparr>),
         SettlementReceipts := (SettlementReceipts s)(i \<mapsto>
           make_receipt T i (merchant it) (miner it) (amount it) now)\<rparr>)"
  using assms
  by (auto simp: finalize_settlement_def Let_def split: option.splits if_splits)

lemma fail_payment_intent_Inr:
  assumes "fail_payment_intent T orig i s = Inr s'"
  obtains it where
    "orig = Signed (FacilitatorAccount T)" "PaymentIntents s i = Some it"
    "status it = Pending \<or> status it = Verified"
    "s' = x4_deposit_event (PaymentIntentFailed i ''Payment intent failed by facilitator'')
      (s\<lparr>x4_world := fst (unreserve (x4_Currency T) (merchant it) (amount it) (x4_world s)),
         PaymentIntents := (PaymentIntents s)(i \<mapsto> it\<lparr>status := Failed\<rparr>),
         PendingIntentIds := filter (\<lambda>j. j \<noteq> i) (PendingIntentIds s)\<rparr>)"
  using assms by (auto simp: fail_payment_intent_def split: option.splits if_splits)

lemma settle_for_attestation_cases:
  assumes "settle_for_attestation T now a b v k s = (s', r)"
  obtains
    (full) "s' = s" "r = Inl ''Intent ID overflow''"
  | (refused) "s' = s\<lparr>NextIntentId := Suc (NextIntentId s)\<rparr>" "r = Inl ''Failed to transfer to miner''"
  | (paid) w where "transfer (x4_Currency T) a b v KeepAlive (x4_world s) = Some w"
      "r = Inr (NextIntentId s)"
      "s' = x4_deposit_event (PaymentIntentSettled (NextIntentId s) a b v)
        (s\<lparr>NextIntentId := Suc (NextIntentId s), x4_world := w,
           SettlementReceipts := (SettlementReceipts s)(NextIntentId s \<mapsto>
             make_receipt T (NextIntentId s) a b v now)\<rparr>)"
proof (cases "checked_add 64 (NextIntentId s) 1")
  case None
  with assms have "s' = s" "r = Inl ''Intent ID overflow''"
    by (simp_all add: settle_for_attestation_def Let_def)
  then show ?thesis by (rule full)
next
  case (Some n)
  then have n: "n = Suc (NextIntentId s)" by (simp add: checked_Some)
  show ?thesis
  proof (cases "transfer (x4_Currency T) a b v KeepAlive (x4_world s)")
    case None
    with assms Some n have "s' = s\<lparr>NextIntentId := Suc (NextIntentId s)\<rparr>"
      "r = Inl ''Failed to transfer to miner''"
      by (simp_all add: settle_for_attestation_def Let_def)
    then show ?thesis by (rule refused)
  next
    case w: (Some w)
    show ?thesis
      using assms Some n w by (intro paid [OF w]) (simp_all add: settle_for_attestation_def Let_def)
  qed
qed

section \<open>The invariant\<close>

definition intent_ok :: "'w x4_state \<Rightarrow> nat \<Rightarrow> payment_intent \<Rightarrow> bool" where
  "intent_ok s i it \<longleftrightarrow>
     intent_id it = i \<and> is_nonce_used (merchant it) (nonce it) s \<and>
     is_replay_fingerprint_used (replay_fingerprint it) s \<and>
     (status it = Verified \<longrightarrow> (\<exists>v. verified_at it = Some v \<and> v < expires_at it)) \<and>
     (SettlementReceipts s i \<noteq> None \<longleftrightarrow> status it = Settled)"

definition same_payment :: "payment_intent \<Rightarrow> payment_intent \<Rightarrow> bool" where
  "same_payment it it' \<longleftrightarrow>
     intent_id it' = intent_id it \<and> merchant it' = merchant it \<and> miner it' = miner it \<and>
     amount it' = amount it \<and> nonce it' = nonce it \<and>
     replay_fingerprint it' = replay_fingerprint it \<and>
     facilitator_signature it' = facilitator_signature it \<and>
     created_at it' = created_at it \<and> expires_at it' = expires_at it"

definition x4_inv :: "'w x4_state \<Rightarrow> bool" where
  "x4_inv s \<longleftrightarrow>
     keys_below (PaymentIntents s) (NextIntentId s) \<and>
     keys_below (SettlementReceipts s) (NextIntentId s) \<and>
     (\<forall>i it. PaymentIntents s i = Some it \<longrightarrow> intent_ok s i it) \<and>
     (\<forall>i j it jt. PaymentIntents s i = Some it \<longrightarrow> PaymentIntents s j = Some jt \<longrightarrow> i \<noteq> j \<longrightarrow>
        (merchant it, nonce it) \<noteq> (merchant jt, nonce jt) \<and>
        replay_fingerprint it \<noteq> replay_fingerprint jt) \<and>
     distinct (PendingIntentIds s) \<and>
     (\<forall>i. i \<in> set (PendingIntentIds s) \<longleftrightarrow>
        (\<exists>it. PaymentIntents s i = Some it \<and> status it = Pending))"

lemma same_payment_refl [simp]: "same_payment it it"
  by (simp add: same_payment_def)

lemma same_payment_trans: "same_payment a b \<Longrightarrow> same_payment b c \<Longrightarrow> same_payment a c"
  by (simp add: same_payment_def)

lemma x4_invD:
  assumes "x4_inv s" "PaymentIntents s i = Some it"
  shows "i < NextIntentId s" "intent_ok s i it"
  using assms by (auto simp: x4_inv_def dest: keys_belowD)

text \<open>Replacing one intent by a later version of the same payment.\<close>

lemma x4_inv_update:
  assumes inv: "x4_inv s" and it: "PaymentIntents s i = Some it" and same: "same_payment it it'"
    and ok: "intent_ok s' i it'" and "PaymentIntents s' = (PaymentIntents s)(i \<mapsto> it')"
    and "NextIntentId s' = NextIntentId s" "NonceUsed s' = NonceUsed s"
    "ReplayFingerprintUsed s' = ReplayFingerprintUsed s"
    "\<And>j. j \<noteq> i \<Longrightarrow> SettlementReceipts s' j = SettlementReceipts s j"
    and st: "status it' \<noteq> Pending"
    and pend: "PendingIntentIds s' = filter (\<lambda>j. j \<noteq> i) (PendingIntentIds s)"
  shows "x4_inv s'"
proof -
  have i: "i < NextIntentId s" using x4_invD [OF inv it] by simp
  have "keys_below (SettlementReceipts s') (NextIntentId s)"
    using inv i assms(9) unfolding x4_inv_def keys_below_def by metis
  moreover have "keys_below (PaymentIntents s') (NextIntentId s)"
    using inv i assms(5) by (auto simp: x4_inv_def intro: keys_below_update)
  moreover have "intent_ok s' j jt" if "PaymentIntents s' j = Some jt" for j jt
    using that ok x4_invD(2) [OF inv, of j jt] assms(5-9)
    by (auto simp: intent_ok_def is_nonce_used_def is_replay_fingerprint_used_def split: if_splits)
  moreover have "(merchant jt, nonce jt) \<noteq> (merchant kt, nonce kt) \<and>
      replay_fingerprint jt \<noteq> replay_fingerprint kt"
    if "PaymentIntents s' j = Some jt" "PaymentIntents s' k = Some kt" "j \<noteq> k" for j k jt kt
  proof -
    have old: "\<exists>ot. PaymentIntents s l = Some ot \<and> merchant ot = merchant lt \<and> nonce ot = nonce lt \<and>
        replay_fingerprint ot = replay_fingerprint lt" if "PaymentIntents s' l = Some lt" for l lt
      using that assms(5) it same by (auto simp: same_payment_def split: if_splits)
    from old [OF that(1)] old [OF that(2)] that(3) inv show ?thesis
      unfolding x4_inv_def by metis
  qed
  moreover have "distinct (PendingIntentIds s')" using inv pend by (simp add: x4_inv_def)
  moreover have "\<forall>j. j \<in> set (PendingIntentIds s') \<longleftrightarrow>
      (\<exists>jt. PaymentIntents s' j = Some jt \<and> status jt = Pending)"
    using inv pend st assms(5) by (auto simp: x4_inv_def)
  ultimately show ?thesis unfolding x4_inv_def assms(6) by (intro conjI allI impI) blast+
qed

lemma pending_filter_id:
  assumes "x4_inv s" "PaymentIntents s i = Some it" "status it \<noteq> Pending"
  shows "PendingIntentIds s = filter (\<lambda>j. j \<noteq> i) (PendingIntentIds s)"
proof -
  have "i \<notin> set (PendingIntentIds s)" using assms by (auto simp: x4_inv_def)
  then show ?thesis by (intro filter_True [symmetric]) auto
qed

lemma submit_payment_intent_inv:
  assumes "submit_payment_intent T now orig m amt n fp sig s = Inr s'" "x4_inv s"
  shows "x4_inv s'"
  using assms(1)
proof (rule submit_payment_intent_Inr)
  fix who w
  define it where "it =
     \<lparr>intent_id = NextIntentId s, merchant = who, miner = m, amount = amt, nonce = n,
      replay_fingerprint = fp, facilitator_signature = sig, status = Pending, created_at = now,
      verified_at = None, settled_at = None, expires_at = saturating_add 32 now (PaymentIntentTTL T)\<rparr>"
  assume fresh: "NonceUsed s (who, n) = None" "ReplayFingerprintUsed s fp = None"
  assume "s' = x4_deposit_event (PaymentIntentSubmitted (NextIntentId s) who m amt n)
      (s\<lparr>x4_world := w, NextIntentId := Suc (NextIntentId s),
         NonceUsed := (NonceUsed s)((who, n) \<mapsto> True),
         ReplayFingerprintUsed := (ReplayFingerprintUsed s)(fp \<mapsto> True),
         PendingIntentIds := PendingIntentIds s @ [NextIntentId s],
         PaymentIntents := (PaymentIntents s)(NextIntentId s \<mapsto>
           \<lparr>intent_id = NextIntentId s, merchant = who, miner = m, amount = amt, nonce = n,
            replay_fingerprint = fp, facilitator_signature = sig, status = Pending, created_at = now,
            verified_at = None, settled_at = None,
            expires_at = saturating_add 32 now (PaymentIntentTTL T)\<rparr>)\<rparr>)"
  then have s': "s' = x4_deposit_event (PaymentIntentSubmitted (NextIntentId s) who m amt n)
      (s\<lparr>x4_world := w, NextIntentId := Suc (NextIntentId s),
         NonceUsed := (NonceUsed s)((who, n) \<mapsto> True),
         ReplayFingerprintUsed := (ReplayFingerprintUsed s)(fp \<mapsto> True),
         PendingIntentIds := PendingIntentIds s @ [NextIntentId s],
         PaymentIntents := (PaymentIntents s)(NextIntentId s \<mapsto> it)\<rparr>)"
    by (simp add: it_def)
  have it: "merchant it = who" "nonce it = n" "replay_fingerprint it = fp" "status it = Pending"
    "intent_id it = NextIntentId s" by (simp_all add: it_def)
  have none: "PaymentIntents s (NextIntentId s) = None" "SettlementReceipts s (NextIntentId s) = None"
    using assms(2) by (simp_all add: x4_inv_def keys_below_fresh)
  have other: "(merchant jt, nonce jt) \<noteq> (who, n)" "replay_fingerprint jt \<noteq> fp"
    if "PaymentIntents s j = Some jt" for j jt
    using x4_invD(2) [OF assms(2) that] fresh
    by (auto simp: intent_ok_def is_nonce_used_def is_replay_fingerprint_used_def)
  have "keys_below (PaymentIntents s') (Suc (NextIntentId s))"
    "keys_below (SettlementReceipts s') (Suc (NextIntentId s))"
    using assms(2) by (auto simp: s' x4_inv_def intro: keys_below_new keys_below_Suc)
  moreover have "intent_ok s' j jt" if "PaymentIntents s' j = Some jt" for j jt
    using that none it x4_invD(2) [OF assms(2), of j jt]
    by (auto simp: s' intent_ok_def is_nonce_used_def is_replay_fingerprint_used_def split: if_splits)
  moreover have "(merchant jt, nonce jt) \<noteq> (merchant kt, nonce kt) \<and>
      replay_fingerprint jt \<noteq> replay_fingerprint kt"
    if "PaymentIntents s' j = Some jt" "PaymentIntents s' k = Some kt" "j \<noteq> k" for j k jt kt
    using that other [of j jt] other [of k kt] it assms(2)
    by (auto simp: s' x4_inv_def split: if_splits)
  moreover have "distinct (PendingIntentIds s')" using assms(2) none by (auto simp: s' x4_inv_def)
  moreover have "\<forall>j. j \<in> set (PendingIntentIds s') \<longleftrightarrow>
      (\<exists>jt. PaymentIntents s' j = Some jt \<and> status jt = Pending)"
    using assms(2) none it by (auto simp: s' x4_inv_def)
  ultimately show ?thesis unfolding x4_inv_def by (simp add: s')
qed

lemma verify_settlement_inv:
  assumes "verify_settlement T now orig i s = Inr s'" "x4_inv s"
  shows "x4_inv s'"
  using assms(1)
proof (rule verify_settlement_Inr)
  fix it
  assume it: "PaymentIntents s i = Some it" "status it = Pending" "now < expires_at it"
    and s': "s' = x4_deposit_event (PaymentIntentVerified i (FacilitatorAccount T))
      (s\<lparr>PaymentIntents := (PaymentIntents s)(i \<mapsto> it\<lparr>status := Verified, verified_at := Some now\<rparr>),
         PendingIntentIds := filter (\<lambda>j. j \<noteq> i) (PendingIntentIds s)\<rparr>)"
  show ?thesis
    by (rule x4_inv_update [OF assms(2) it(1),
          where it' = "it\<lparr>status := Verified, verified_at := Some now\<rparr>"])
      (use it x4_invD(2) [OF assms(2) it(1)] in
        \<open>simp_all add: s' same_payment_def intent_ok_def is_nonce_used_def is_replay_fingerprint_used_def\<close>)
qed

lemma fail_payment_intent_inv:
  assumes "fail_payment_intent T orig i s = Inr s'" "x4_inv s"
  shows "x4_inv s'"
  using assms(1)
proof (rule fail_payment_intent_Inr)
  fix it
  assume it: "PaymentIntents s i = Some it" "status it = Pending \<or> status it = Verified"
    and s': "s' = x4_deposit_event (PaymentIntentFailed i ''Payment intent failed by facilitator'')
      (s\<lparr>x4_world := fst (unreserve (x4_Currency T) (merchant it) (amount it) (x4_world s)),
         PaymentIntents := (PaymentIntents s)(i \<mapsto> it\<lparr>status := Failed\<rparr>),
         PendingIntentIds := filter (\<lambda>j. j \<noteq> i) (PendingIntentIds s)\<rparr>)"
  show ?thesis
    by (rule x4_inv_update [OF assms(2) it(1), where it' = "it\<lparr>status := Failed\<rparr>"])
      (use it x4_invD(2) [OF assms(2) it(1)] in
        \<open>auto simp: s' same_payment_def intent_ok_def is_nonce_used_def is_replay_fingerprint_used_def\<close>)
qed

lemma finalize_settlement_inv:
  assumes "finalize_settlement T now orig i s = Inr s'" "x4_inv s"
  shows "x4_inv s'"
  using assms(1)
proof (rule finalize_settlement_Inr)
  fix who it v w r
  assume it: "PaymentIntents s i = Some it" "status it = Verified"
    and s': "s' = x4_deposit_event (PaymentIntentSettled i (merchant it) (miner it) (amount it))
      (s\<lparr>x4_world := w,
         PaymentIntents := (PaymentIntents s)(i \<mapsto> it\<lparr>status := Settled, settled_at := Some now\<rparr>),
         SettlementReceipts := (SettlementReceipts s)(i \<mapsto>
           make_receipt T i (merchant it) (miner it) (amount it) now)\<rparr>)"
  show ?thesis
    by (rule x4_inv_update [OF assms(2) it(1),
          where it' = "it\<lparr>status := Settled, settled_at := Some now\<rparr>"])
      (use it x4_invD(2) [OF assms(2) it(1)] pending_filter_id [OF assms(2) it(1)] in
        \<open>simp_all add: s' same_payment_def intent_ok_def is_nonce_used_def is_replay_fingerprint_used_def\<close>)
qed

lemma settle_for_attestation_inv:
  assumes "settle_for_attestation T now a b v k s = (s', r)" "x4_inv s"
  shows "x4_inv s'"
  using assms(1)
proof (cases rule: settle_for_attestation_cases)
  case full
  with assms(2) show ?thesis by simp
next
  case refused
  with assms(2) show ?thesis
    by (auto simp: x4_inv_def intent_ok_def is_nonce_used_def is_replay_fingerprint_used_def
        keys_below_Suc)
next
  case (paid w)
  have "i \<noteq> NextIntentId s" if "PaymentIntents s i = Some it" for i it
    using x4_invD(1) [OF assms(2) that] by simp
  with paid assms(2) show ?thesis
    by (auto simp: x4_inv_def intent_ok_def is_nonce_used_def is_replay_fingerprint_used_def
        keys_below_Suc keys_below_new)
qed

text \<open>What the expiry loop does, in closed form.\<close>

definition due :: "block_number \<Rightarrow> payment_intent \<Rightarrow> bool" where
  "due now it \<longleftrightarrow> expires_at it \<le> now \<and> status it = Pending"

definition expire_map ::
    "block_number \<Rightarrow> nat set \<Rightarrow> (nat \<Rightarrow> payment_intent option) \<Rightarrow> nat \<Rightarrow> payment_intent option" where
  "expire_map now I m i =
     map_option (\<lambda>it. if i \<in> I \<and> due now it then it\<lparr>status := Failed\<rparr> else it) (m i)"

lemma expire_loop_frame:
  assumes "expire_loop T now ids (s, e) = (s', e')"
  shows "NextIntentId s' = NextIntentId s" "NonceUsed s' = NonceUsed s"
    "ReplayFingerprintUsed s' = ReplayFingerprintUsed s"
    "SettlementReceipts s' = SettlementReceipts s" "PendingIntentIds s' = PendingIntentIds s"
  using assms
  by (induction ids arbitrary: s e) (auto split: option.splits if_splits)

lemma expire_loop_intents:
  assumes "distinct ids" "expire_loop T now ids (s, e) = (s', e')"
  shows "PaymentIntents s' = expire_map now (set ids) (PaymentIntents s)"
  using assms
proof (induction ids arbitrary: s e)
  case Nil
  then show ?case by (simp add: expire_map_def fun_eq_iff option.map_ident)
next
  case (Cons i ids)
  show ?case
  proof (cases "\<exists>it. PaymentIntents s i = Some it \<and> due now it")
    case True
    then obtain it where it: "PaymentIntents s i = Some it" "due now it" by blast
    with Cons.prems have
      "expire_loop T now ids
        (x4_deposit_event (PaymentIntentExpired i (merchant it) (amount it))
          (s\<lparr>x4_world := fst (unreserve (x4_Currency T) (merchant it) (amount it) (x4_world s)),
             PaymentIntents := (PaymentIntents s)(i \<mapsto> it\<lparr>status := Failed\<rparr>)\<rparr>), e @ [i]) = (s', e')"
      by (simp add: due_def)
    from Cons.IH [OF _ this] Cons.prems(1) it show ?thesis
      by (auto simp: expire_map_def fun_eq_iff option.map_comp split: option.splits)
  next
    case False
    with Cons.prems have "expire_loop T now ids (s, e) = (s', e')"
      by (auto simp: due_def split: option.splits)
    from Cons.IH [OF _ this] Cons.prems(1) False show ?thesis
      by (auto simp: expire_map_def fun_eq_iff intro!: map_option_cong)
  qed
qed

lemma expire_loop_ids:
  assumes "distinct ids" "expire_loop T now ids (s, e) = (s', e')"
  shows "e' = e @ filter (\<lambda>i. \<exists>it. PaymentIntents s i = Some it \<and> due now it) ids"
  using assms
proof (induction ids arbitrary: s e)
  case Nil
  then show ?case by simp
next
  case (Cons i ids)
  show ?case
  proof (cases "\<exists>it. PaymentIntents s i = Some it \<and> due now it")
    case True
    then obtain it where it: "PaymentIntents s i = Some it" "due now it" by blast
    with Cons.prems have
      "expire_loop T now ids
        (x4_deposit_event (PaymentIntentExpired i (merchant it) (amount it))
          (s\<lparr>x4_world := fst (unreserve (x4_Currency T) (merchant it) (amount it) (x4_world s)),
             PaymentIntents := (PaymentIntents s)(i \<mapsto> it\<lparr>status := Failed\<rparr>)\<rparr>), e @ [i]) = (s', e')"
      by (simp add: due_def)
    from Cons.IH [OF _ this] Cons.prems(1) it show ?thesis
      by (auto intro!: filter_cong)
  next
    case False
    with Cons.prems have "expire_loop T now ids (s, e) = (s', e')"
      by (auto simp: due_def split: option.splits)
    from Cons.IH [OF _ this] Cons.prems(1) False show ?thesis by simp
  qed
qed

lemma on_initialize_frame [simp]:
  "NextIntentId (on_initialize T now s) = NextIntentId s"
  "NonceUsed (on_initialize T now s) = NonceUsed s"
  "ReplayFingerprintUsed (on_initialize T now s) = ReplayFingerprintUsed s"
  "SettlementReceipts (on_initialize T now s) = SettlementReceipts s"
proof -
  obtain s1 e where l: "expire_loop T now (PendingIntentIds s) (s, []) = (s1, e)" by fastforce
  show "NextIntentId (on_initialize T now s) = NextIntentId s"
    "NonceUsed (on_initialize T now s) = NonceUsed s"
    "ReplayFingerprintUsed (on_initialize T now s) = ReplayFingerprintUsed s"
    "SettlementReceipts (on_initialize T now s) = SettlementReceipts s"
    using expire_loop_frame [OF l] by (simp_all add: on_initialize_def l)
qed

lemma on_initialize_intents:
  assumes "x4_inv s"
  shows "PaymentIntents (on_initialize T now s) =
    (\<lambda>i. map_option (\<lambda>it. if due now it then it\<lparr>status := Failed\<rparr> else it) (PaymentIntents s i))"
proof -
  obtain s1 e where l: "expire_loop T now (PendingIntentIds s) (s, []) = (s1, e)" by fastforce
  have "PaymentIntents (on_initialize T now s) = PaymentIntents s1"
    by (simp add: on_initialize_def l)
  also have "\<dots> = expire_map now (set (PendingIntentIds s)) (PaymentIntents s)"
    using assms by (intro expire_loop_intents [OF _ l]) (simp add: x4_inv_def)
  also have "\<dots> = (\<lambda>i. map_option (\<lambda>it. if due now it then it\<lparr>status := Failed\<rparr> else it) (PaymentIntents s i))"
    using assms by (auto simp: expire_map_def fun_eq_iff x4_inv_def due_def intro!: map_option_cong)
  finally show ?thesis .
qed

lemma on_initialize_pending:
  assumes "x4_inv s"
  shows "PendingIntentIds (on_initialize T now s) =
    filter (\<lambda>i. \<exists>it. PaymentIntents s i = Some it \<and> \<not> due now it) (PendingIntentIds s)"
proof -
  obtain s1 e where l: "expire_loop T now (PendingIntentIds s) (s, []) = (s1, e)" by fastforce
  have e: "e = filter (\<lambda>i. \<exists>it. PaymentIntents s i = Some it \<and> due now it) (PendingIntentIds s)"
    using expire_loop_ids [OF _ l] assms by (simp add: x4_inv_def)
  have "PendingIntentIds (on_initialize T now s) = filter (\<lambda>i. i \<notin> set e) (PendingIntentIds s)"
    using expire_loop_frame(5) [OF l] by (simp add: on_initialize_def l)
  also have "\<dots> = filter (\<lambda>i. \<exists>it. PaymentIntents s i = Some it \<and> \<not> due now it) (PendingIntentIds s)"
    using assms by (intro filter_cong) (auto simp: e x4_inv_def)
  finally show ?thesis .
qed

lemma on_initialize_inv: "x4_inv s \<Longrightarrow> x4_inv (on_initialize T now s)"
proof -
  assume inv: "x4_inv s"
  let ?s = "on_initialize T now s"
  have m: "PaymentIntents ?s i = Some it' \<longleftrightarrow>
      (\<exists>it. PaymentIntents s i = Some it \<and> it' = (if due now it then it\<lparr>status := Failed\<rparr> else it))" for i it'
    unfolding on_initialize_intents [OF inv] map_option_eq_Some by blast
  have old: "\<exists>ot. PaymentIntents s i = Some ot \<and> merchant ot = merchant it \<and> nonce ot = nonce it \<and>
      replay_fingerprint ot = replay_fingerprint it" if "PaymentIntents ?s i = Some it" for i it
    using that by (auto simp: m)
  have "keys_below (PaymentIntents ?s) (NextIntentId ?s)"
    using inv unfolding x4_inv_def keys_below_def on_initialize_intents [OF inv] by simp
  moreover have "intent_ok ?s i it" if it: "PaymentIntents ?s i = Some it" for i it
  proof -
    obtain ot where ot: "PaymentIntents s i = Some ot"
      and "it = (if due now ot then ot\<lparr>status := Failed\<rparr> else ot)"
      using it unfolding m by blast
    with x4_invD(2) [OF inv ot] show ?thesis
      by (auto simp: intent_ok_def is_nonce_used_def is_replay_fingerprint_used_def due_def)
  qed
  moreover have "(merchant it, nonce it) \<noteq> (merchant jt, nonce jt) \<and>
      replay_fingerprint it \<noteq> replay_fingerprint jt"
    if "PaymentIntents ?s i = Some it" "PaymentIntents ?s j = Some jt" "i \<noteq> j" for i j it jt
    using old [OF that(1)] old [OF that(2)] that(3) inv unfolding x4_inv_def by metis
  moreover have "i \<in> set (PendingIntentIds ?s) \<longleftrightarrow>
      (\<exists>it. PaymentIntents ?s i = Some it \<and> status it = Pending)" for i
  proof -
    have "i \<in> set (PendingIntentIds s) \<longleftrightarrow> (\<exists>it. PaymentIntents s i = Some it \<and> status it = Pending)"
      using inv by (simp add: x4_inv_def)
    then show ?thesis
      by (cases "PaymentIntents s i")
        (auto simp: on_initialize_pending [OF inv] on_initialize_intents [OF inv] due_def)
  qed
  moreover have "keys_below (SettlementReceipts s) (NextIntentId s)" "distinct (PendingIntentIds ?s)"
    using inv by (simp_all add: x4_inv_def on_initialize_pending [OF inv])
  ultimately show ?thesis
    unfolding x4_inv_def on_initialize_frame by (intro conjI allI impI) (simp | blast)+
qed

lemma x4_step_inv: "x4_step T s s' \<Longrightarrow> x4_inv s \<Longrightarrow> x4_inv s'"
proof (induction rule: x4_step.induct)
  case (call now orig c s s')
  then show ?case
    by (cases c) (auto intro: submit_payment_intent_inv verify_settlement_inv
        finalize_settlement_inv fail_payment_intent_inv)
next
  case (hook s now)
  then show ?case by (rule on_initialize_inv)
next
  case (settle now a b v i s s' r)
  then show ?case by (rule settle_for_attestation_inv)
next
  case (environment w s)
  then show ?case
    by (simp add: x4_inv_def intent_ok_def is_nonce_used_def is_replay_fingerprint_used_def)
qed

section \<open>Reserves\<close>

definition x4_owed :: "payment_intent \<Rightarrow> account \<Rightarrow> nat" where
  "x4_owed it a =
     (if merchant it = a \<and> (status it = Pending \<or> status it = Verified) then amount it else 0)"

lemma x4_owed_open:
  "status it = Pending \<or> status it = Verified \<Longrightarrow>
    x4_owed it a = (if a = merchant it then amount it else 0)"
  by (auto simp: x4_owed_def)

lemma x4_owed_closed: "status it = Settled \<or> status it = Failed \<Longrightarrow> x4_owed it a = 0"
  by (auto simp: x4_owed_def)

definition x4_locked :: "'w x4_state \<Rightarrow> account \<Rightarrow> nat" where
  "x4_locked s = owed_total x4_owed (PaymentIntents s) (NextIntentId s)"

abbreviation x4_reserved :: "'w x4_config \<Rightarrow> 'w x4_state \<Rightarrow> account \<Rightarrow> nat" where
  "x4_reserved T s \<equiv> reserved_balance (x4_Currency T) (x4_world s)"

abbreviation x4_free :: "'w x4_config \<Rightarrow> 'w x4_state \<Rightarrow> account \<Rightarrow> nat" where
  "x4_free T s \<equiv> free_balance (x4_Currency T) (x4_world s)"

lemma submit_payment_intent_exact:
  assumes "reservable_currency (x4_Currency T)" "submit_payment_intent T now orig m amt n fp sig s = Inr s'"
  shows "x4_reserved T s' a + x4_locked s a = x4_reserved T s a + x4_locked s' a"
  using assms(2)
  by (rule submit_payment_intent_Inr)
    (simp add: x4_locked_def owed_total_new x4_owed_def
      reservable_currency.reserve_reserved [OF assms(1)])

lemma verify_settlement_exact:
  assumes "x4_inv s" "verify_settlement T now orig i s = Inr s'"
  shows "x4_reserved T s' a + x4_locked s a = x4_reserved T s a + x4_locked s' a"
  using assms(2)
proof (rule verify_settlement_Inr)
  fix it
  assume it: "PaymentIntents s i = Some it" "status it = Pending"
    and s': "s' = x4_deposit_event (PaymentIntentVerified i (FacilitatorAccount T))
      (s\<lparr>PaymentIntents := (PaymentIntents s)(i \<mapsto> it\<lparr>status := Verified, verified_at := Some now\<rparr>),
         PendingIntentIds := filter (\<lambda>j. j \<noteq> i) (PendingIntentIds s)\<rparr>)"
  have "x4_reserved T s' a + owed_total x4_owed (PaymentIntents s) (NextIntentId s) a =
      x4_reserved T s a + owed_total x4_owed
        ((PaymentIntents s)(i \<mapsto> it\<lparr>status := Verified, verified_at := Some now\<rparr>)) (NextIntentId s) a"
    by (rule exact_keep [where m = "PaymentIntents s" and i = i, OF x4_invD(1) [OF assms(1) it(1)] it(1)])
      (use it in \<open>simp_all add: s' x4_owed_open\<close>)
  then show ?thesis by (simp add: s' x4_locked_def)
qed

lemma finalize_settlement_exact:
  assumes cur: "reservable_currency (x4_Currency T)" and inv: "x4_inv s"
    and b: "backed x4_locked (x4_reserved T) s" and call: "finalize_settlement T now orig i s = Inr s'"
  shows "x4_reserved T s' a + x4_locked s a = x4_reserved T s a + x4_locked s' a"
  using call
proof (rule finalize_settlement_Inr)
  fix who it v w r
  assume it: "PaymentIntents s i = Some it" "status it = Verified"
    and rep: "repatriate_reserved (x4_Currency T) (merchant it) (miner it) (amount it) (x4_world s) = Some (w, r)"
    and s': "s' = x4_deposit_event (PaymentIntentSettled i (merchant it) (miner it) (amount it))
      (s\<lparr>x4_world := w,
         PaymentIntents := (PaymentIntents s)(i \<mapsto> it\<lparr>status := Settled, settled_at := Some now\<rparr>),
         SettlementReceipts := (SettlementReceipts s)(i \<mapsto>
           make_receipt T i (merchant it) (miner it) (amount it) now)\<rparr>)"
  have "x4_reserved T s' a + owed_total x4_owed (PaymentIntents s) (NextIntentId s) a =
      x4_reserved T s a + owed_total x4_owed
        ((PaymentIntents s)(i \<mapsto> it\<lparr>status := Settled, settled_at := Some now\<rparr>)) (NextIntentId s) a"
    by (rule exact_release [where m = "PaymentIntents s" and i = i, OF x4_invD(1) [OF inv it(1)] it(1),
          where c = "merchant it" and v = "amount it"])
      (use it b in \<open>auto simp: s' x4_owed_open x4_owed_closed backed_def x4_locked_def
        reservable_currency.repatriate_reserved_reserved [OF cur rep]\<close>)
  then show ?thesis by (simp add: s' x4_locked_def)
qed

text \<open>Failing an open intent: by the facilitator, or by the hook.\<close>

lemma release_intent_exact:
  assumes cur: "reservable_currency (x4_Currency T)"
    and it: "i < NextIntentId s" "PaymentIntents s i = Some it" "status it = Pending \<or> status it = Verified"
    and b: "backed x4_locked (x4_reserved T) s"
    and s': "x4_world s' = fst (unreserve (x4_Currency T) (merchant it) (amount it) (x4_world s))"
      "PaymentIntents s' = (PaymentIntents s)(i \<mapsto> it\<lparr>status := Failed\<rparr>)" "NextIntentId s' = NextIntentId s"
  shows "x4_reserved T s' a + x4_locked s a = x4_reserved T s a + x4_locked s' a"
  unfolding x4_locked_def s'
  by (rule exact_release [where m = "PaymentIntents s" and i = i, OF it(1,2), where c = "merchant it" and v = "amount it"])
    (use it b in \<open>auto simp: x4_owed_open x4_owed_closed backed_def x4_locked_def
      reservable_currency.unreserve_reserved [OF cur]\<close>)

lemma fail_payment_intent_exact:
  assumes "reservable_currency (x4_Currency T)" "x4_inv s" "backed x4_locked (x4_reserved T) s"
    "fail_payment_intent T orig i s = Inr s'"
  shows "x4_reserved T s' a + x4_locked s a = x4_reserved T s a + x4_locked s' a"
  using assms(4)
  by (rule fail_payment_intent_Inr)
    (rule release_intent_exact [OF assms(1) x4_invD(1) [OF assms(2)] _ _ assms(3)], simp_all)

lemma settle_for_attestation_exact:
  assumes "reservable_currency (x4_Currency T)" "x4_inv s"
    "settle_for_attestation T now u v k j s = (s', r)"
  shows "x4_reserved T s' a + x4_locked s a = x4_reserved T s a + x4_locked s' a"
  using assms(3)
proof (cases rule: settle_for_attestation_cases)
  case full
  then show ?thesis by simp
next
  case refused
  then show ?thesis using assms(2) by (simp add: x4_locked_def owed_total_skip x4_inv_def)
next
  case (paid w)
  then show ?thesis
    using assms(2) reservable_currency.transfer_reserved [OF assms(1) paid(1)]
    by (simp add: x4_locked_def owed_total_skip x4_inv_def)
qed

lemma expire_loop_exact:
  assumes cur: "reservable_currency (x4_Currency T)"
    and "expire_loop T now ids (s, e) = (s', e')" "keys_below (PaymentIntents s) (NextIntentId s)"
    "backed x4_locked (x4_reserved T) s"
  shows "x4_reserved T s' a + x4_locked s a = x4_reserved T s a + x4_locked s' a \<and>
    x4_free T s' a + x4_reserved T s' a = x4_free T s a + x4_reserved T s a"
  using assms(2-)
proof (induction ids arbitrary: s e)
  case Nil
  then show ?case by simp
next
  case (Cons i ids)
  show ?case
  proof (cases "\<exists>it. PaymentIntents s i = Some it \<and> due now it")
    case True
    then obtain it where it: "PaymentIntents s i = Some it" "due now it" by blast
    define s1 where "s1 = x4_deposit_event (PaymentIntentExpired i (merchant it) (amount it))
          (s\<lparr>x4_world := fst (unreserve (x4_Currency T) (merchant it) (amount it) (x4_world s)),
             PaymentIntents := (PaymentIntents s)(i \<mapsto> it\<lparr>status := Failed\<rparr>)\<rparr>)"
    have l: "expire_loop T now ids (s1, e @ [i]) = (s', e')"
      using Cons.prems(1) it by (simp add: due_def s1_def)
    have i: "i < NextIntentId s" using Cons.prems(2) it(1) by (rule keys_belowD)
    have ex: "x4_reserved T s1 b + x4_locked s b = x4_reserved T s b + x4_locked s1 b" for b
      by (rule release_intent_exact [OF cur i it(1) _ Cons.prems(3)])
        (use it in \<open>simp_all add: s1_def due_def\<close>)
    have "x4_locked s1 b \<le> x4_reserved T s1 b" for b
      using ex [of b] backedD [OF Cons.prems(3), of b] by linarith
    then have b1: "backed x4_locked (x4_reserved T) s1" by (simp add: backed_def)
    have k1: "keys_below (PaymentIntents s1) (NextIntentId s1)"
      using Cons.prems(2) i by (simp add: s1_def keys_below_update)
    have "x4_free T s1 a + x4_reserved T s1 a = x4_free T s a + x4_reserved T s a"
      by (simp add: s1_def reservable_currency.unreserve_total [OF cur])
    with Cons.IH [OF l k1 b1] ex [of a] show ?thesis by linarith
  next
    case False
    with Cons.prems have "expire_loop T now ids (s, e) = (s', e')"
      by (auto simp: due_def split: option.splits)
    from Cons.IH [OF this Cons.prems(2,3)] show ?thesis .
  qed
qed

lemma on_initialize_exact:
  assumes "reservable_currency (x4_Currency T)" "x4_inv s" "backed x4_locked (x4_reserved T) s"
  shows "x4_reserved T (on_initialize T now s) a + x4_locked s a =
      x4_reserved T s a + x4_locked (on_initialize T now s) a"
    and "x4_free T (on_initialize T now s) a + x4_reserved T (on_initialize T now s) a =
      x4_free T s a + x4_reserved T s a"
proof -
  obtain s1 e where l: "expire_loop T now (PendingIntentIds s) (s, []) = (s1, e)" by fastforce
  have eq: "x4_world (on_initialize T now s) = x4_world s1"
    "x4_locked (on_initialize T now s) = x4_locked s1"
    by (simp_all add: on_initialize_def l x4_locked_def)
  from expire_loop_exact [OF assms(1) l _ assms(3), of a] assms(2)
  show "x4_reserved T (on_initialize T now s) a + x4_locked s a =
      x4_reserved T s a + x4_locked (on_initialize T now s) a"
    "x4_free T (on_initialize T now s) a + x4_reserved T (on_initialize T now s) a =
      x4_free T s a + x4_reserved T s a"
    unfolding eq by (simp_all add: x4_inv_def)
qed

lemma x4_step_exact:
  assumes "x4_step T s s'" "reservable_currency (x4_Currency T)" "x4_inv s"
    "backed x4_locked (x4_reserved T) s"
  shows "x4_reserved T s' a + x4_locked s a = x4_reserved T s a + x4_locked s' a"
  using assms
proof (induction rule: x4_step.induct)
  case (call now orig c s s')
  then show ?case
    by (cases c) (auto intro: submit_payment_intent_exact verify_settlement_exact
        finalize_settlement_exact fail_payment_intent_exact)
next
  case (hook s now)
  then show ?case by (intro on_initialize_exact(1))
next
  case (settle now u v k j s s' r)
  then show ?case by (intro settle_for_attestation_exact)
next
  case (environment w s)
  then show ?case by (simp add: x4_locked_def)
qed

interpretation x4e: escrow_pallet "x4_step T"
    "\<lambda>s. reservable_currency (x4_Currency T) \<and> x4_inv s" x4_locked "x4_reserved T"
  by unfold_locales (auto intro: x4_step_inv x4_step_exact)

lemma x4_init_inv: "x4_inv (x4_init w)"
  by (simp add: x4_inv_def x4_init_def keys_below_def)

lemma x4_init_backed: "backed x4_locked (x4_reserved T) (x4_init w)"
  by (simp add: backed_def x4_locked_def x4_init_def)

lemma x4_reachable:
  assumes "reservable_currency (x4_Currency T)" "(x4_step T)\<^sup>*\<^sup>* (x4_init w) s"
  shows "x4_inv s" "backed x4_locked (x4_reserved T) s"
  using x4e.run_backed [OF assms(2)] assms(1) x4_init_inv [of w] x4_init_backed [of T w] by simp_all

section \<open>The trait the attestation pallet uses\<close>

lemma settle_for_attestation_locked:
  assumes "x4_inv s"
  shows "x4_locked (fst (settle_for_attestation T now a b v k s)) = x4_locked s"
proof -
  obtain s' r where st: "settle_for_attestation T now a b v k s = (s', r)" by fastforce
  then have "x4_locked s' = x4_locked s"
    using assms
    by (cases rule: settle_for_attestation_cases)
      (auto simp: x4_locked_def fun_eq_iff x4_inv_def owed_total_skip)
  with st show ?thesis by simp
qed

interpretation x4: attestation_settler "settle_for_attestation (T :: 'w x4_config)" "x4_lift (x4_Currency T)" x4_inv x4_locked
proof unfold_locales
  assume "reservable_currency (x4_lift (x4_Currency T))"
  note laws = reservable_currency.transfer_law [OF this]
  have tr: "transfer (x4_lift (x4_Currency T)) a b v KeepAlive s =
      map_option (\<lambda>w. s\<lparr>x4_world := w\<rparr>) (transfer (x4_Currency T) a b v KeepAlive (x4_world s))" for a b v s
    by (simp add: lift_currency_def)
  fix now a b v i w
  show "reserved_balance (x4_lift (x4_Currency T)) (fst (settle_for_attestation T now a b v i w)) =
      reserved_balance (x4_lift (x4_Currency T)) w"
    using laws [of a b v KeepAlive w]
    by (auto simp: settle_for_attestation_def Let_def tr split: option.splits)
  fix w' n
  assume "settle_for_attestation T now a b v i w = (w', Inr n)"
  then show "v \<le> free_balance (x4_lift (x4_Currency T)) w a \<and>
      free_balance (x4_lift (x4_Currency T)) w' =
        (let f = (free_balance (x4_lift (x4_Currency T)) w)
               (a := free_balance (x4_lift (x4_Currency T)) w a - v) in f(b := f b + v))"
    using laws [of a b v KeepAlive w]
    by (auto simp: settle_for_attestation_def Let_def tr split: option.splits)
next
  fix now a b v i and w :: "'w x4_state"
  assume inv: "x4_inv w"
  then show "x4_inv (fst (settle_for_attestation T now a b v i w))"
    by (cases "settle_for_attestation T now a b v i w") (auto dest: settle_for_attestation_inv)
  show "x4_locked (fst (settle_for_attestation T now a b v i w)) = x4_locked w"
    by (rule settle_for_attestation_locked [OF inv])
next
  fix now a b v i w w' e
  assume "settle_for_attestation T now a b v i w = (w', Inl e)"
  then show "free_balance (x4_lift (x4_Currency T)) w' = free_balance (x4_lift (x4_Currency T)) w"
    by (auto simp: settle_for_attestation_def Let_def split: option.splits)
qed

section \<open>The life of an intent\<close>

fun status_reaches :: "payment_intent_status \<Rightarrow> payment_intent_status \<Rightarrow> bool" where
  "status_reaches Pending st = True"
| "status_reaches Verified st = (st \<noteq> Pending)"
| "status_reaches Settled st = (st = Settled)"
| "status_reaches Failed st = (st = Failed)"

definition later_intent :: "payment_intent \<Rightarrow> payment_intent \<Rightarrow> bool" where
  "later_intent it it' \<longleftrightarrow>
     same_payment it it' \<and> status_reaches (status it) (status it') \<and>
     (status it = Settled \<or> status it = Failed \<longrightarrow> it' = it)"

lemma status_reaches_refl [simp]: "status_reaches st st"
  by (cases st) simp_all

lemma status_reaches_trans: "status_reaches a b \<Longrightarrow> status_reaches b c \<Longrightarrow> status_reaches a c"
  by (cases a; cases b) auto

lemma later_intent_refl [simp]: "later_intent it it"
  by (simp add: later_intent_def)

lemma later_intent_trans:
  assumes "later_intent a b" "later_intent b c" shows "later_intent a c"
  using assms status_reaches_trans [of "status a" "status b" "status c"]
  by (auto simp: later_intent_def intro: same_payment_trans)

lemma x4_step_intent:
  assumes "x4_step T s s'" "x4_inv s" "PaymentIntents s i = Some it"
  shows "\<exists>it'. PaymentIntents s' i = Some it' \<and> later_intent it it'"
  using assms
proof (induction rule: x4_step.induct)
  case (call now orig c s s')
  have "i \<noteq> NextIntentId s" using x4_invD(1) [OF call.prems] by simp
  with call show ?case
    by (cases c) (auto simp: later_intent_def same_payment_def elim!: submit_payment_intent_Inr
        verify_settlement_Inr finalize_settlement_Inr fail_payment_intent_Inr)
next
  case (hook s now)
  then show ?case
    by (simp add: on_initialize_intents due_def later_intent_def same_payment_def)
next
  case (settle now a b v k s s' r)
  then show ?case by (auto elim!: settle_for_attestation_cases)
next
  case (environment w s)
  then show ?case by simp
qed

lemma x4_run_intent:
  assumes "(x4_step T)\<^sup>*\<^sup>* s s'" "x4_inv s" "PaymentIntents s i = Some it"
  shows "\<exists>it'. PaymentIntents s' i = Some it' \<and> later_intent it it'"
proof -
  have "x4_inv s' \<and> (\<exists>it'. PaymentIntents s' i = Some it' \<and> later_intent it it')"
    using assms
  proof (induction rule: rtranclp_induct)
    case base
    then show ?case by auto
  next
    case (step t u)
    then obtain jt where jt: "PaymentIntents t i = Some jt" "later_intent it jt" and t: "x4_inv t" by auto
    from x4_step_intent [OF step.hyps(2) t jt(1)] obtain kt where
      "PaymentIntents u i = Some kt" "later_intent jt kt" by auto
    with jt(2) x4_step_inv [OF step.hyps(2) t] show ?case by (blast intro: later_intent_trans)
  qed
  then show ?thesis by blast
qed

text \<open>What a settled intent records.\<close>

definition settled_ok :: "'w x4_config \<Rightarrow> 'w x4_state \<Rightarrow> nat \<Rightarrow> payment_intent \<Rightarrow> bool" where
  "settled_ok T s i it \<longleftrightarrow>
     (\<exists>v t. verified_at it = Some v \<and> settled_at it = Some t \<and>
        saturating_add 32 v (SettlementDelay T) \<le> t \<and> t < expires_at it \<and>
        get_settlement_receipt i s = Some (make_receipt T i (merchant it) (miner it) (amount it) t))"

definition settled_inv :: "'w x4_config \<Rightarrow> 'w x4_state \<Rightarrow> bool" where
  "settled_inv T s \<longleftrightarrow>
     (\<forall>i it. PaymentIntents s i = Some it \<longrightarrow> status it = Settled \<longrightarrow> settled_ok T s i it)"

lemma settled_inv_frame:
  assumes "settled_inv T s"
    "\<And>i it. PaymentIntents s' i = Some it \<Longrightarrow> status it = Settled \<Longrightarrow>
      PaymentIntents s i = Some it \<and> SettlementReceipts s' i = SettlementReceipts s i"
  shows "settled_inv T s'"
  using assms unfolding settled_inv_def settled_ok_def get_settlement_receipt_def by metis

lemma finalize_settlement_settled:
  assumes "finalize_settlement T now orig i s = Inr s'" "settled_inv T s"
  shows "settled_inv T s'"
  using assms(1)
  by (rule finalize_settlement_Inr)
    (use assms(2) in \<open>auto simp: settled_inv_def settled_ok_def get_settlement_receipt_def\<close>)

lemma x4_step_settled:
  assumes "x4_step T s s'" "x4_inv s" "settled_inv T s"
  shows "settled_inv T s'"
  using assms
proof (induction rule: x4_step.induct)
  case (call now orig c s s')
  show ?case
  proof (cases "\<exists>i. c = FinalizeSettlement i")
    case True
    with call show ?thesis by (auto intro: finalize_settlement_settled)
  next
    case False
    with call.hyps show ?thesis
      by (intro settled_inv_frame [OF call.prems(2)]; cases c)
        (auto elim!: submit_payment_intent_Inr verify_settlement_Inr fail_payment_intent_Inr
          split: if_splits)
  qed
next
  case (hook s now)
  show ?case
    by (rule settled_inv_frame [OF hook(2)])
      (auto simp: on_initialize_intents [OF hook(1)] split: if_splits)
next
  case (settle now a b v k s s' r)
  show ?case
    by (rule settled_inv_frame [OF settle.prems(2)], use settle.hyps in \<open>elim settle_for_attestation_cases\<close>)
      (use x4_invD(1) [OF settle.prems(1)] in \<open>auto\<close>)
next
  case (environment w s)
  then show ?case by (intro settled_inv_frame [OF environment.prems(2)]) auto
qed

lemma x4_run_settled:
  assumes "(x4_step T)\<^sup>*\<^sup>* (x4_init w) s"
  shows "x4_inv s \<and> settled_inv T s"
  using assms
proof (induction rule: rtranclp_induct)
  case base
  show ?case by (simp add: x4_init_inv) (simp add: settled_inv_def x4_init_def)
next
  case (step t u)
  then show ?case by (blast intro: x4_step_inv x4_step_settled)
qed

section \<open>A worked run\<close>

text \<open>
  The runtime's constants over a given currency, signature check and encodings, and a run on the
  concrete ledger: merchant 5 submits two payments to miner 2, the facilitator (account 9) verifies
  the first and the miner finalizes it.
\<close>

definition x4_runtime ::
    "'w currency_ops \<Rightarrow> account \<Rightarrow> bytes \<Rightarrow> (bytes \<Rightarrow> bytes \<Rightarrow> bytes \<Rightarrow> bool) \<Rightarrow> (account \<Rightarrow> bytes) \<Rightarrow>
     (nat \<Rightarrow> bytes) \<Rightarrow> (nat \<Rightarrow> bytes) \<Rightarrow> (bytes \<Rightarrow> bytes) \<Rightarrow> (nat \<Rightarrow> bytes) \<Rightarrow> 'w x4_config" where
  "x4_runtime C facilitator key verify enc_account enc_u128 enc_u64 enc_h256 low_u64 =
     \<lparr>x4_Currency = C, FacilitatorAccount = facilitator, FacilitatorPublicKey = key,
      MaxSignatureLen = 128, SettlementDelay = 5, PaymentIntentTTL = 14400,
      encode_account = enc_account, encode_u128 = enc_u128, encode_u64 = enc_u64,
      encode_h256 = enc_h256, sr25519_verify = verify, from_low_u64_be = low_u64\<rparr>"

lemma x4_runtime_sel:
  "x4_Currency (x4_runtime C f k v ea eu ew eh l) = C"
  "FacilitatorAccount (x4_runtime C f k v ea eu ew eh l) = f"
  "FacilitatorPublicKey (x4_runtime C f k v ea eu ew eh l) = k"
  "MaxSignatureLen (x4_runtime C f k v ea eu ew eh l) = 128"
  "SettlementDelay (x4_runtime C f k v ea eu ew eh l) = 5"
  "PaymentIntentTTL (x4_runtime C f k v ea eu ew eh l) = 14400"
  "encode_account (x4_runtime C f k v ea eu ew eh l) = ea"
  "encode_u128 (x4_runtime C f k v ea eu ew eh l) = eu"
  "encode_u64 (x4_runtime C f k v ea eu ew eh l) = ew"
  "encode_h256 (x4_runtime C f k v ea eu ew eh l) = eh"
  "sr25519_verify (x4_runtime C f k v ea eu ew eh l) = v"
  "from_low_u64_be (x4_runtime C f k v ea eu ew eh l) = l"
  by (simp_all add: x4_runtime_def)

definition x4_demo :: "ledger x4_config" where
  "x4_demo = x4_runtime ledger_ops 9 [] (\<lambda>sig msg key. sig = replicate 64 7) (le_bytes 32)
     (le_bytes 16) (le_bytes 8) (\<lambda>h. h) (le_bytes 32)"

definition x4_demo_world :: ledger where
  "x4_demo_world = \<lparr>ledger_free = (\<lambda>_. 0)(5 := 1000), ledger_reserved = (\<lambda>_. 0)\<rparr>"

definition x4_demo_calls :: "(block_number \<times> origin \<times> x4_call) list" where
  "x4_demo_calls =
     [(10, Signed 5, SubmitPaymentIntent 2 300 0 [1] (replicate 64 7)),
      (11, Signed 5, SubmitPaymentIntent 2 200 4 [2] (replicate 64 7)),
      (12, Signed 9, VerifySettlement 0)]"

definition x4_demo_state :: "ledger x4_state" where
  "x4_demo_state = projr (x4_run x4_demo x4_demo_calls (x4_init x4_demo_world))"

definition x4_demo_settled :: "ledger x4_state" where
  "x4_demo_settled = projr (finalize_settlement x4_demo 20 (Signed 2) 0 x4_demo_state)"

lemmas x4_eval = submit_payment_intent_def verify_settlement_def finalize_settlement_def
  fail_payment_intent_def verify_facilitator_signature_def x4_demo_def x4_runtime_sel
  x4_demo_world_def x4_demo_calls_def x4_init_def x4_deposit_event_def ledger_defs Let_def int_ops
  try_push_def max_pending_intents_def make_receipt_def

lemma x4_demo_currency: "reservable_currency (x4_Currency x4_demo)"
  by (simp add: x4_demo_def x4_runtime_sel ledger.reservable_currency_axioms)

lemma x4_demo_run: "x4_run x4_demo x4_demo_calls (x4_init x4_demo_world) = Inr x4_demo_state"
  by (simp add: x4_demo_state_def x4_eval)

lemma x4_demo_final: "finalize_settlement x4_demo 20 (Signed 2) 0 x4_demo_state = Inr x4_demo_settled"
  by (simp add: x4_demo_settled_def x4_demo_state_def x4_eval)

lemma x4_demo_steps: "(x4_step x4_demo)\<^sup>*\<^sup>* (x4_init x4_demo_world) x4_demo_state"
  by (rule x4_run_steps [OF x4_demo_run])

lemma x4_demo_settle_step: "x4_step x4_demo x4_demo_state x4_demo_settled"
  using x4_step.call [of x4_demo 20 "Signed 2" "FinalizeSettlement 0"] by (simp add: x4_demo_final)

lemma x4_demo_steps_settled: "(x4_step x4_demo)\<^sup>*\<^sup>* (x4_init x4_demo_world) x4_demo_settled"
  by (rule rtranclp.rtrancl_into_rtrancl [OF x4_demo_steps x4_demo_settle_step])

section \<open>Properties\<close>

text \<open>
  C16: Along every run of the payment pallet from its empty state, every account's reserved
balance is its initial one plus exactly the amounts of its own payment intents that are still
pending or verified: reserved payments are always fully backed, and no reserve is left behind when
an intent is settled, failed or expired.\<close>

theorem x4_reserves_exact:
  assumes "reservable_currency (x4_Currency T)" "(x4_step T)\<^sup>*\<^sup>* (x4_init w) s"
  shows "x4_reserved T s a = reserved_balance (x4_Currency T) w a + x4_locked s a"
proof -
  have "x4_reserved T s a + x4_locked (x4_init w) a =
      x4_reserved T (x4_init w) a + x4_locked s a"
    by (rule x4e.run_exact [OF assms(2)]) (simp_all add: assms(1) x4_init_inv x4_init_backed)
  then show ?thesis by (simp add: x4_init_def x4_locked_def)
qed

theorem x4_reserves_exact_witness:
  "x4_reserved x4_demo x4_demo_state 5 = 500 \<and> x4_locked x4_demo_state 5 = 500"
  using x4_reserves_exact [OF x4_demo_currency x4_demo_steps, of 5]
  by (simp add: x4_demo_state_def x4_eval)

text \<open>
  C22: No payment is accepted twice: in every reachable state two different intents differ in
their merchant and nonce pair and in their replay fingerprint, and submitting a payment whose nonce
or fingerprint an existing intent already has is refused with the corresponding error, whatever the
signature and the block.\<close>

theorem x4_no_replay:
  assumes "(x4_step T)\<^sup>*\<^sup>* (x4_init w) s" "PaymentIntents s i = Some it"
  shows "(\<forall>j jt. PaymentIntents s j = Some jt \<longrightarrow> i \<noteq> j \<longrightarrow>
      (merchant it, nonce it) \<noteq> (merchant jt, nonce jt) \<and>
      replay_fingerprint it \<noteq> replay_fingerprint jt) \<and>
    submit_payment_intent T now (Signed (merchant it)) m amt (nonce it) fp sig s = Inl InvalidNonce \<and>
    (\<not> is_nonce_used who n s \<longrightarrow>
      submit_payment_intent T now (Signed who) m amt n (replay_fingerprint it) sig s =
        Inl ReplayFingerprintUsed_err)"
proof -
  have inv: "x4_inv s" using x4_run_settled [OF assms(1)] by simp
  have "\<forall>j jt. PaymentIntents s j = Some jt \<longrightarrow> i \<noteq> j \<longrightarrow>
      (merchant it, nonce it) \<noteq> (merchant jt, nonce jt) \<and> replay_fingerprint it \<noteq> replay_fingerprint jt"
    using inv assms(2) unfolding x4_inv_def by blast
  moreover have
    "submit_payment_intent T now (Signed (merchant it)) m amt (nonce it) fp sig s = Inl InvalidNonce"
    "\<not> is_nonce_used who n s \<longrightarrow>
      submit_payment_intent T now (Signed who) m amt n (replay_fingerprint it) sig s =
        Inl ReplayFingerprintUsed_err"
    using x4_invD(2) [OF inv assms(2)]
    by (auto simp: intent_ok_def is_nonce_used_def is_replay_fingerprint_used_def
        submit_payment_intent_def)
  ultimately show ?thesis by blast
qed

theorem x4_no_replay_witness:
  "submit_payment_intent x4_demo 13 (Signed 5) 2 300 0 [7] (replicate 64 7) x4_demo_state =
      Inl InvalidNonce \<and>
   submit_payment_intent x4_demo 13 (Signed 6) 2 300 0 [1] (replicate 64 7) x4_demo_state =
      Inl ReplayFingerprintUsed_err"
proof -
  obtain it where it: "PaymentIntents x4_demo_state 0 = Some it" "merchant it = 5" "nonce it = 0"
    "replay_fingerprint it = [1]" and "\<not> is_nonce_used 6 0 x4_demo_state"
    by (simp add: x4_demo_state_def x4_eval is_nonce_used_def)
  with x4_no_replay [OF x4_demo_steps it(1), of 13 2 300 "[7]" "replicate 64 7" 6 0]
    x4_no_replay [OF x4_demo_steps it(1), of 13 2 300 "[7]" "replicate 64 7"]
  show ?thesis by simp
qed

text \<open>
  Finalizing a payment succeeds only for an intent the facilitator verified, called by the
merchant, the miner or the facilitator, at least the settlement delay after the verification and
before the expiry; it then moves exactly the intent's amount from the merchant's reserve to the
miner's free balance, touches no other balance, and records the receipt.\<close>

lemma x4_finalize_pays_exactly:
  assumes "reservable_currency (x4_Currency T)" "(x4_step T)\<^sup>*\<^sup>* (x4_init w) s"
    "finalize_settlement T now (Signed who) i s = Inr s'"
  shows "\<exists>it v. PaymentIntents s i = Some it \<and> status it = Verified \<and> verified_at it = Some v \<and>
      who \<in> {merchant it, miner it, FacilitatorAccount T} \<and>
      saturating_add 32 v (SettlementDelay T) \<le> now \<and> now < expires_at it \<and>
      x4_free T s' = (x4_free T s)(miner it := x4_free T s (miner it) + amount it) \<and>
      x4_reserved T s (merchant it) \<ge> amount it \<and>
      x4_reserved T s' = (x4_reserved T s)(merchant it := x4_reserved T s (merchant it) - amount it) \<and>
      PaymentIntents s' = (PaymentIntents s)(i \<mapsto> it\<lparr>status := Settled, settled_at := Some now\<rparr>) \<and>
      get_settlement_receipt i s' = Some (make_receipt T i (merchant it) (miner it) (amount it) now)"
  using assms(3)
proof (rule finalize_settlement_Inr)
  fix who' it v w' r
  assume it: "Signed who = Signed who'" "PaymentIntents s i = Some it" "status it = Verified"
    "now < expires_at it" "who' = merchant it \<or> who' = miner it \<or> who' = FacilitatorAccount T"
    "verified_at it = Some v" "saturating_add 32 v (SettlementDelay T) \<le> now"
    and rep: "repatriate_reserved (x4_Currency T) (merchant it) (miner it) (amount it) (x4_world s) = Some (w', r)"
    and s': "s' = x4_deposit_event (PaymentIntentSettled i (merchant it) (miner it) (amount it))
      (s\<lparr>x4_world := w',
         PaymentIntents := (PaymentIntents s)(i \<mapsto> it\<lparr>status := Settled, settled_at := Some now\<rparr>),
         SettlementReceipts := (SettlementReceipts s)(i \<mapsto>
           make_receipt T i (merchant it) (miner it) (amount it) now)\<rparr>)"
  have "x4_owed it (merchant it) \<le> x4_locked s (merchant it)"
    using x4_invD(1) [OF x4_reachable(1) [OF assms(1,2)] it(2)] it(2)
    unfolding x4_locked_def by (rule owed_total_item_le)
  also have "\<dots> \<le> x4_reserved T s (merchant it)"
    using x4_reachable(2) [OF assms(1,2)] by (rule backedD)
  finally have "amount it \<le> x4_reserved T s (merchant it)" using it(3) by (simp add: x4_owed_open)
  with it reservable_currency.repatriate_reserved_law [OF assms(1) rep] show ?thesis
    by (auto simp: s' get_settlement_receipt_def min_absorb1)
qed

lemma x4_finalize_pays_exactly_witness:
  "x4_free x4_demo x4_demo_settled 2 = 300 \<and> x4_reserved x4_demo x4_demo_settled 5 = 200"
  using x4_finalize_pays_exactly [OF x4_demo_currency x4_demo_steps x4_demo_final]
  by (auto simp: x4_demo_state_def x4_eval)

text \<open>
  The hook at the start of a block fails exactly the pending intents whose expiry has come
and leaves every other intent as it is; the queue of pending intents then lists exactly the intents
that are still pending; and each account gets back into its free balance exactly what its expired
intents had reserved.\<close>

lemma x4_expiry_refunds:
  assumes "reservable_currency (x4_Currency T)" "(x4_step T)\<^sup>*\<^sup>* (x4_init w) s"
  shows "(\<forall>i. PaymentIntents (on_initialize T now s) i =
      (case PaymentIntents s i of None \<Rightarrow> None
       | Some it \<Rightarrow>
           Some (if status it = Pending \<and> expires_at it \<le> now then it\<lparr>status := Failed\<rparr> else it))) \<and>
    (\<forall>i. i \<in> set (PendingIntentIds (on_initialize T now s)) \<longleftrightarrow>
      (\<exists>it. PaymentIntents s i = Some it \<and> status it = Pending \<and> now < expires_at it)) \<and>
    (\<forall>a. x4_free T (on_initialize T now s) a + x4_locked (on_initialize T now s) a =
      x4_free T s a + x4_locked s a)"
proof (intro conjI allI)
  fix i a
  have inv: "x4_inv s" and b: "backed x4_locked (x4_reserved T) s"
    using x4_reachable [OF assms] by simp_all
  show "PaymentIntents (on_initialize T now s) i =
      (case PaymentIntents s i of None \<Rightarrow> None
       | Some it \<Rightarrow>
           Some (if status it = Pending \<and> expires_at it \<le> now then it\<lparr>status := Failed\<rparr> else it))"
    by (auto simp: on_initialize_intents [OF inv] due_def split: option.splits)
  have "i \<in> set (PendingIntentIds s) \<longleftrightarrow> (\<exists>it. PaymentIntents s i = Some it \<and> status it = Pending)"
    using inv by (simp add: x4_inv_def)
  then show "i \<in> set (PendingIntentIds (on_initialize T now s)) \<longleftrightarrow>
      (\<exists>it. PaymentIntents s i = Some it \<and> status it = Pending \<and> now < expires_at it)"
    by (cases "PaymentIntents s i") (auto simp: on_initialize_pending [OF inv] due_def)
  show "x4_free T (on_initialize T now s) a + x4_locked (on_initialize T now s) a =
      x4_free T s a + x4_locked s a"
    using on_initialize_exact [OF assms(1) inv b, of now a] by linarith
qed

lemma x4_expiry_refunds_witness:
  "\<exists>it. PaymentIntents x4_demo_state 1 = Some it \<and> status it = Pending \<and>
     PaymentIntents (on_initialize x4_demo 20000 x4_demo_state) 1 = Some (it\<lparr>status := Failed\<rparr>) \<and>
     x4_free x4_demo (on_initialize x4_demo 20000 x4_demo_state) 5 +
       x4_locked (on_initialize x4_demo 20000 x4_demo_state) 5 = 1000"
proof -
  obtain it where "PaymentIntents x4_demo_state 1 = Some it" "status it = Pending" "expires_at it = 14411"
    by (simp add: x4_demo_state_def x4_eval)
  moreover have "x4_free x4_demo x4_demo_state 5 = 500" "x4_locked x4_demo_state 5 = 500"
    by (simp_all add: x4_demo_state_def x4_eval x4_locked_def owed_total_def x4_owed_def)
  ultimately show ?thesis
    using x4_expiry_refunds [OF x4_demo_currency x4_demo_steps, of 20000] by simp
qed

text \<open>
  From the submission on, an intent keeps its parties, amount, nonce, fingerprint and
expiry; its status only moves from pending to verified to settled, or from either of the first two
to failed; and once it is settled or failed nothing about it changes any more.\<close>

lemma x4_intent_lifecycle:
  assumes "(x4_step T)\<^sup>*\<^sup>* (x4_init w) s" "(x4_step T)\<^sup>*\<^sup>* s s'" "PaymentIntents s i = Some it"
  shows "\<exists>it'. PaymentIntents s' i = Some it' \<and> same_payment it it' \<and>
      status_reaches (status it) (status it') \<and> (status it \<in> {Settled, Failed} \<longrightarrow> it' = it)"
  using x4_run_intent [OF assms(2) _ assms(3)] x4_run_settled [OF assms(1)]
  by (auto simp: later_intent_def)

lemma x4_intent_lifecycle_witness:
  "\<exists>it'. PaymentIntents x4_demo_settled 0 = Some it' \<and> merchant it' = 5 \<and> amount it' = 300 \<and>
     status it' \<noteq> Pending"
proof -
  obtain it where it: "PaymentIntents x4_demo_state 0 = Some it" "merchant it = 5" "amount it = 300"
    "status it = Verified"
    by (simp add: x4_demo_state_def x4_eval)
  from x4_intent_lifecycle [OF x4_demo_steps r_into_rtranclp [of "x4_step x4_demo", OF x4_demo_settle_step] it(1)] it show ?thesis
    by (auto simp: same_payment_def)
qed

text \<open>
  Every settled intent was verified by the facilitator, waited the settlement delay, was
settled before it expired, and has a receipt for exactly its merchant, miner and amount.\<close>

lemma x4_settled_after_delay:
  assumes "(x4_step T)\<^sup>*\<^sup>* (x4_init w) s" "PaymentIntents s i = Some it" "status it = Settled"
  shows "\<exists>v t. verified_at it = Some v \<and> settled_at it = Some t \<and>
      saturating_add 32 v (SettlementDelay T) \<le> t \<and> t < expires_at it \<and>
      get_settlement_receipt i s = Some (make_receipt T i (merchant it) (miner it) (amount it) t)"
  using x4_run_settled [OF assms(1)] assms(2,3) unfolding settled_inv_def settled_ok_def by blast

lemma x4_settled_after_delay_witness:
  "get_settlement_receipt 0 x4_demo_settled = Some (make_receipt x4_demo 0 5 2 300 20)"
proof -
  obtain it where it: "PaymentIntents x4_demo_settled 0 = Some it" "status it = Settled"
    "merchant it = 5" "miner it = 2" "amount it = 300" "settled_at it = Some 20"
    by (simp add: x4_demo_settled_def x4_demo_state_def x4_eval)
  from x4_settled_after_delay [OF x4_demo_steps_settled it(1,2)] it(3-) show ?thesis by auto
qed

text \<open>
  C30: A facilitator signature authorises one payment only. The account, \<open>u128\<close>, \<open>u64\<close> and
\<open>H256\<close> encodings are fixed-width and injective on their types; two payments with the same signed
message then agree in merchant, miner, amount, nonce and fingerprint.\<close>

theorem payment_message_binds:
  assumes "\<And>a. length (encode_account T a) = 32" "inj_on (encode_account T) {..<2 ^ 256}"
    "\<And>v. length (encode_u128 T v) = 16" "inj_on (encode_u128 T) {..<2 ^ 128}"
    "\<And>n. length (encode_u64 T n) = 8" "inj_on (encode_u64 T) {..<2 ^ 64}"
    "\<And>h. encode_h256 T h = h"
    and "a < 2 ^ 256" "a' < 2 ^ 256" "b < 2 ^ 256" "b' < 2 ^ 256"
    "v < 2 ^ 128" "v' < 2 ^ 128" "n < 2 ^ 64" "n' < 2 ^ 64"
    and "payment_message T a b v n h = payment_message T a' b' v' n' h'"
  shows "a = a' \<and> b = b' \<and> v = v' \<and> n = n' \<and> h = h'"
proof -
  have "encode_account T a = encode_account T a' \<and> encode_account T b = encode_account T b' \<and>
      encode_u128 T v = encode_u128 T v' \<and> encode_u64 T n = encode_u64 T n' \<and> h = h'"
    using assms(16) by (simp add: payment_message_def assms(1,3,5,7))
  with assms(8-15) show ?thesis
    using inj_onD [OF assms(2), of a a'] inj_onD [OF assms(2), of b b']
      inj_onD [OF assms(4), of v v'] inj_onD [OF assms(6), of n n'] by simp
qed

theorem payment_message_binds_witness:
  "payment_message x4_demo 5 2 300 0 [1] \<noteq> payment_message x4_demo 5 2 301 0 [1]"
proof
  assume eq: "payment_message x4_demo 5 2 300 0 [1] = payment_message x4_demo 5 2 301 0 [1]"
  have "(300::nat) = 301"
    using payment_message_binds [OF _ _ _ _ _ _ _ _ _ _ _ _ _ _ _ eq]
      inj_on_le_bytes [of 32] inj_on_le_bytes [of 16] inj_on_le_bytes [of 8]
    by (simp add: x4_demo_def x4_runtime_sel)
  then show False by simp
qed

end
