(* ===== verification/Agent_Attestation.thy ===== *)
theory Agent_Attestation
  imports X402_Settlement
begin

text \<open>
  The attestation pallet \<open>pallets/agent-attestation/src/lib.rs\<close>. Registered nodes attest task
  results under a deposit, anybody may challenge an attestation inside its window, an unchallenged
  one is confirmed afterwards and a challenged one is resolved by root, who may slash the deposit.
  Nodes also publish the models they serve. The pallet provides the \<open>TaskCompletionHandler\<close> trait
  to the scheduler and uses \<open>AttestationSettler\<close>.
\<close>

section \<open>Data\<close>

datatype attestation_status = Pending | Confirmed | Slashed | Defended

record attestation =
  att_id :: nat
  attester :: account
  task_id :: nat
  result_hash :: bytes
  model_id :: bytes
  input_tokens :: nat
  output_tokens :: nat
  deposit :: balance
  status :: attestation_status
  submitted_at :: block_number
  challenge_end :: block_number
  challenger :: "account option"

record node_registration =
  node_owner :: account
  gpu_uuid :: bytes
  tflops :: nat
  registered_at :: block_number
  last_heartbeat :: block_number
  is_active :: bool

record agent_capability =
  cap_owner :: account
  model_ids :: "bytes list"
  max_concurrent :: nat
  price_per_token :: balance
  region :: bytes
  updated_at :: block_number

datatype at_error =
    BadOrigin
  | NodeAlreadyRegistered
  | NodeNotRegistered
  | HeartbeatTooEarly
  | AttestationNotFound
  | AlreadyChallenged
  | ChallengeWindowExpired
  | ChallengeWindowNotExpired
  | NotAttester
  | InvalidStatus
  | InsufficientDeposit
  | ArithmeticOverflow
  | InvalidModelId
  | TooManyModels
  | InvalidRegion
  | DuplicateAttestation

datatype at_event =
    NodeRegistered account nat
  | HeartbeatReceived account block_number
  | AttestationSubmitted nat account nat bytes
  | AttestationChallenged nat account
  | AttestationConfirmed nat
  | AgentCapabilityUpdated account nat
  | AttestationSlashed nat account balance
  | AttestationDefended nat

record 'w at_config =
  at_Currency :: "'w currency_ops"
  at_Perthing :: perthing_ops
  AttestationDeposit :: balance
  ChallengeWindow :: block_number
  SlashPercent :: nat
  HeartbeatInterval :: block_number
  MaxModelIdLen :: nat
  MaxGpuUuidLen :: nat
  MaxModelsPerAgent :: nat
  OnAttestationConfirmed :: "'w settle_fn"
  AdminOrigin :: "origin \<Rightarrow> bool"

record 'w at_state =
  NextAttestationId :: nat
  Attestations :: "nat \<Rightarrow> attestation option"
  Nodes :: "account \<Rightarrow> node_registration option"
  AttesterTaskCount :: "account \<Rightarrow> nat \<Rightarrow> nat"
  AgentCapabilities :: "account \<Rightarrow> agent_capability option"
  ModelProviders :: "bytes \<Rightarrow> account \<Rightarrow> bool option"
  at_events :: "at_event list"
  at_world :: 'w

definition at_deposit_event :: "at_event \<Rightarrow> 'w at_state \<Rightarrow> 'w at_state" where
  "at_deposit_event e s = s\<lparr>at_events := at_events s @ [e]\<rparr>"

section \<open>Nodes\<close>

definition register_node ::
    "'w at_config \<Rightarrow> block_number \<Rightarrow> origin \<Rightarrow> bytes \<Rightarrow> nat \<Rightarrow> 'w at_state \<Rightarrow> at_error + 'w at_state" where
  "register_node T now orig uuid tf s =
     (case ensure_signed orig of None \<Rightarrow> Inl BadOrigin
      | Some who \<Rightarrow>
      if Nodes s who \<noteq> None then Inl NodeAlreadyRegistered
      else if \<not> length uuid \<le> MaxGpuUuidLen T then Inl ArithmeticOverflow
      else Inr (at_deposit_event (NodeRegistered who tf)
        (s\<lparr>Nodes := (Nodes s)(who \<mapsto>
             \<lparr>node_owner = who, gpu_uuid = uuid, tflops = tf, registered_at = now,
              last_heartbeat = now, is_active = True\<rparr>)\<rparr>)))"

definition heartbeat ::
    "'w at_config \<Rightarrow> block_number \<Rightarrow> origin \<Rightarrow> 'w at_state \<Rightarrow> at_error + 'w at_state" where
  "heartbeat T now orig s =
     (case ensure_signed orig of None \<Rightarrow> Inl BadOrigin
      | Some who \<Rightarrow>
      case Nodes s who of None \<Rightarrow> Inl NodeNotRegistered
      | Some node \<Rightarrow>
      if \<not> now \<ge> saturating_add 32 (last_heartbeat node) (HeartbeatInterval T)
      then Inl HeartbeatTooEarly
      else Inr (at_deposit_event (HeartbeatReceived who now)
        (s\<lparr>Nodes := (Nodes s)(who \<mapsto> node\<lparr>last_heartbeat := now, is_active := True\<rparr>)\<rparr>)))"

section \<open>Attestations\<close>

definition new_attestation ::
    "'w at_config \<Rightarrow> block_number \<Rightarrow> nat \<Rightarrow> account \<Rightarrow> nat \<Rightarrow> bytes \<Rightarrow> bytes \<Rightarrow> nat \<Rightarrow> nat \<Rightarrow> attestation" where
  "new_attestation T now aid who tid rhash mid it ot =
     \<lparr>att_id = aid, attester = who, task_id = tid, result_hash = rhash, model_id = mid,
      input_tokens = it, output_tokens = ot, deposit = AttestationDeposit T, status = Pending,
      submitted_at = now, challenge_end = saturating_add 32 now (ChallengeWindow T),
      challenger = None\<rparr>"

definition count_task :: "account \<Rightarrow> nat \<Rightarrow> (account \<Rightarrow> nat \<Rightarrow> nat) \<Rightarrow> account \<Rightarrow> nat \<Rightarrow> nat" where
  "count_task who tid c = c(who := (c who)(tid := saturating_add 32 (c who tid) 1))"

definition submit_attestation ::
    "'w at_config \<Rightarrow> block_number \<Rightarrow> origin \<Rightarrow> nat \<Rightarrow> bytes \<Rightarrow> bytes \<Rightarrow> nat \<Rightarrow> nat \<Rightarrow>
     'w at_state \<Rightarrow> at_error + 'w at_state" where
  "submit_attestation T now orig tid rhash mid it ot s =
     (case ensure_signed orig of None \<Rightarrow> Inl BadOrigin
      | Some who \<Rightarrow>
      if Nodes s who = None then Inl NodeNotRegistered
      else if \<not> AttesterTaskCount s who tid = 0 then Inl DuplicateAttestation
      else case reserve (at_Currency T) who (AttestationDeposit T) (at_world s) of
        None \<Rightarrow> Inl InsufficientDeposit
      | Some w \<Rightarrow>
      if \<not> length mid \<le> MaxModelIdLen T then Inl ArithmeticOverflow
      else let aid = NextAttestationId s in
      case checked_add 64 aid 1 of None \<Rightarrow> Inl ArithmeticOverflow
      | Some next_id \<Rightarrow>
      Inr (at_deposit_event (AttestationSubmitted aid who tid rhash)
        (s\<lparr>at_world := w, NextAttestationId := next_id,
           Attestations := (Attestations s)(aid \<mapsto> new_attestation T now aid who tid rhash mid it ot),
           AttesterTaskCount := count_task who tid (AttesterTaskCount s)\<rparr>)))"

definition challenge_attestation ::
    "block_number \<Rightarrow> origin \<Rightarrow> nat \<Rightarrow> 'w at_state \<Rightarrow> at_error + 'w at_state" where
  "challenge_attestation now orig aid s =
     (case ensure_signed orig of None \<Rightarrow> Inl BadOrigin
      | Some who \<Rightarrow>
      case Attestations s aid of None \<Rightarrow> Inl AttestationNotFound
      | Some att \<Rightarrow>
      if status att \<noteq> Pending then Inl InvalidStatus
      else if challenger att \<noteq> None then Inl AlreadyChallenged
      else if \<not> now \<le> challenge_end att then Inl ChallengeWindowExpired
      else Inr (at_deposit_event (AttestationChallenged aid who)
        (s\<lparr>Attestations := (Attestations s)(aid \<mapsto> att\<lparr>challenger := Some who\<rparr>)\<rparr>)))"

text \<open>The result of the settlement is ignored: its effects stay even when it reports an error.\<close>

definition confirm_attestation ::
    "'w at_config \<Rightarrow> block_number \<Rightarrow> origin \<Rightarrow> nat \<Rightarrow> 'w at_state \<Rightarrow> at_error + 'w at_state" where
  "confirm_attestation T now orig aid s =
     (if \<not> AdminOrigin T orig then Inl BadOrigin
      else case Attestations s aid of None \<Rightarrow> Inl AttestationNotFound
      | Some att \<Rightarrow>
      if status att \<noteq> Pending then Inl InvalidStatus
      else if challenger att \<noteq> None then Inl AlreadyChallenged
      else if \<not> now > challenge_end att then Inl ChallengeWindowNotExpired
      else
        let w1 = fst (unreserve (at_Currency T) (attester att) (deposit att) (at_world s));
            w2 = fst (OnAttestationConfirmed T now (attester att) (attester att) (deposit att) aid w1)
        in Inr (at_deposit_event (AttestationConfirmed aid)
             (s\<lparr>at_world := w2,
                Attestations := (Attestations s)(aid \<mapsto> att\<lparr>status := Confirmed\<rparr>)\<rparr>)))"

definition resolve_challenge ::
    "'w at_config \<Rightarrow> origin \<Rightarrow> nat \<Rightarrow> bool \<Rightarrow> 'w at_state \<Rightarrow> at_error + 'w at_state" where
  "resolve_challenge T orig aid attester_is_guilty s =
     (if \<not> ensure_root orig then Inl BadOrigin
      else case Attestations s aid of None \<Rightarrow> Inl AttestationNotFound
      | Some att \<Rightarrow>
      if status att \<noteq> Pending then Inl InvalidStatus
      else if challenger att = None then Inl InvalidStatus
      else if attester_is_guilty
      then
        let slash_amount =
              pmul (at_Perthing T) 1000000000 (from_percent (at_Perthing T) (SlashPercent T)) (deposit att);
            w1 = fst (slash_reserved (at_Currency T) (attester att) slash_amount (at_world s));
            remainder = saturating_sub (deposit att) slash_amount;
            w2 = fst (unreserve (at_Currency T) (attester att) remainder w1)
        in Inr (at_deposit_event (AttestationSlashed aid (attester att) slash_amount)
             (s\<lparr>at_world := w2, Attestations := (Attestations s)(aid \<mapsto> att\<lparr>status := Slashed\<rparr>)\<rparr>))
      else Inr (at_deposit_event (AttestationDefended aid)
             (s\<lparr>at_world := fst (unreserve (at_Currency T) (attester att) (deposit att) (at_world s)),
                Attestations := (Attestations s)(aid \<mapsto> att\<lparr>status := Defended\<rparr>)\<rparr>)))"

section \<open>Capabilities\<close>

definition remove_provider ::
    "account \<Rightarrow> bytes \<Rightarrow> (bytes \<Rightarrow> account \<Rightarrow> bool option) \<Rightarrow> bytes \<Rightarrow> account \<Rightarrow> bool option" where
  "remove_provider who mid p = p(mid := (p mid)(who := None))"

definition insert_provider ::
    "account \<Rightarrow> bytes \<Rightarrow> (bytes \<Rightarrow> account \<Rightarrow> bool option) \<Rightarrow> bytes \<Rightarrow> account \<Rightarrow> bool option" where
  "insert_provider who mid p = p(mid := (p mid)(who \<mapsto> True))"

definition update_capability ::
    "'w at_config \<Rightarrow> block_number \<Rightarrow> origin \<Rightarrow> bytes list \<Rightarrow> nat \<Rightarrow> balance \<Rightarrow> bytes \<Rightarrow>
     'w at_state \<Rightarrow> at_error + 'w at_state" where
  "update_capability T now orig mids maxc price reg s =
     (case ensure_signed orig of None \<Rightarrow> Inl BadOrigin
      | Some who \<Rightarrow>
      if Nodes s who = None then Inl NodeNotRegistered
      else if \<not> list_all (\<lambda>m. length m \<le> MaxModelIdLen T) mids then Inl InvalidModelId
      else if \<not> length mids \<le> MaxModelsPerAgent T then Inl TooManyModels
      else if \<not> length reg \<le> 16 then Inl InvalidRegion
      else
        let p1 = (case AgentCapabilities s who of None \<Rightarrow> ModelProviders s
                  | Some old \<Rightarrow> fold (remove_provider who) (model_ids old) (ModelProviders s));
            p2 = fold (insert_provider who) mids p1
        in Inr (at_deposit_event (AgentCapabilityUpdated who (length mids))
             (s\<lparr>ModelProviders := p2,
                AgentCapabilities := (AgentCapabilities s)(who \<mapsto>
                  \<lparr>cap_owner = who, model_ids = mids, max_concurrent = maxc, price_per_token = price,
                   region = reg, updated_at = now\<rparr>)\<rparr>)))"

text \<open>\<open>iter_prefix\<close> lists the entries of a storage map in the order of the storage's hashed keys.\<close>

definition get_providers_for_model ::
    "((account \<Rightarrow> bool option) \<Rightarrow> (account \<times> bool) list) \<Rightarrow> bytes \<Rightarrow> 'w at_state \<Rightarrow> account list" where
  "get_providers_for_model iter_prefix mid s =
     map fst (filter (\<lambda>(acct, _). case Nodes s acct of None \<Rightarrow> False | Some n \<Rightarrow> is_active n)
       (iter_prefix (ModelProviders s mid)))"

section \<open>The \<open>TaskCompletionHandler\<close> trait\<close>

definition on_task_completed :: "'w at_config \<Rightarrow> 'w at_state completion_fn" where
  "on_task_completed T now who tid rhash mid it ot s =
     (let aid = NextAttestationId s in
      case checked_add 64 aid 1 of None \<Rightarrow> (s, Inl ''Attestation ID overflow'')
      | Some next_id \<Rightarrow>
      let s1 = s\<lparr>NextAttestationId := next_id\<rparr> in
      if \<not> length mid \<le> MaxModelIdLen T then (s1, Inl ''Model ID too long'')
      else case reserve (at_Currency T) who (AttestationDeposit T) (at_world s1) of
        None \<Rightarrow> (s1, Inl ''Failed to reserve deposit'')
      | Some w \<Rightarrow>
      (at_deposit_event (AttestationSubmitted aid who tid rhash)
        (s1\<lparr>at_world := w,
            Attestations := (Attestations s1)(aid \<mapsto> new_attestation T now aid who tid rhash mid it ot),
            AttesterTaskCount := count_task who tid (AttesterTaskCount s1)\<rparr>), Inr aid))"

section \<open>Calls and steps\<close>

datatype at_call =
    RegisterNode bytes nat
  | Heartbeat
  | SubmitAttestation nat bytes bytes nat nat
  | ChallengeAttestation nat
  | ConfirmAttestation nat
  | ResolveChallenge nat bool
  | UpdateCapability "bytes list" nat balance bytes

fun at_dispatch ::
    "'w at_config \<Rightarrow> block_number \<Rightarrow> origin \<Rightarrow> at_call \<Rightarrow> 'w at_state \<Rightarrow> at_error + 'w at_state" where
  "at_dispatch T now orig (RegisterNode u t) s = register_node T now orig u t s"
| "at_dispatch T now orig Heartbeat s = heartbeat T now orig s"
| "at_dispatch T now orig (SubmitAttestation t h m i ot) s = submit_attestation T now orig t h m i ot s"
| "at_dispatch T now orig (ChallengeAttestation i) s = challenge_attestation now orig i s"
| "at_dispatch T now orig (ConfirmAttestation i) s = confirm_attestation T now orig i s"
| "at_dispatch T now orig (ResolveChallenge i g) s = resolve_challenge T orig i g s"
| "at_dispatch T now orig (UpdateCapability ms c p r) s = update_capability T now orig ms c p r s"

text \<open>
  A step: a successful call, a task completion reported by the scheduler, or an outside change that
  keeps the invariant \<open>I\<close> of the world and moves reserves as the world's own records \<open>L\<close> do.
\<close>

inductive at_step ::
    "'w at_config \<Rightarrow> ('w \<Rightarrow> bool) \<Rightarrow> ('w \<Rightarrow> account \<Rightarrow> nat) \<Rightarrow> 'w at_state \<Rightarrow> 'w at_state \<Rightarrow> bool"
  for T I L where
  call: "at_dispatch T now orig c s = Inr s' \<Longrightarrow> at_step T I L s s'"
| completed: "on_task_completed T now who t h m i ot s = (s', r) \<Longrightarrow> at_step T I L s s'"
| environment: "I w \<Longrightarrow>
    (\<And>a. reserved_balance (at_Currency T) w a + L (at_world s) a =
      reserved_balance (at_Currency T) (at_world s) a + L w a) \<Longrightarrow>
    at_step T I L s (s\<lparr>at_world := w\<rparr>)"

definition at_init :: "'w \<Rightarrow> 'w at_state" where
  "at_init w =
     \<lparr>NextAttestationId = 0, Attestations = Map.empty, Nodes = Map.empty,
      AttesterTaskCount = (\<lambda>_ _. 0), AgentCapabilities = Map.empty,
      ModelProviders = (\<lambda>_. Map.empty), at_events = [], at_world = w\<rparr>"

fun at_run ::
    "'w at_config \<Rightarrow> (block_number \<times> origin \<times> at_call) list \<Rightarrow> 'w at_state \<Rightarrow> at_error + 'w at_state" where
  "at_run T [] s = Inr s"
| "at_run T ((now, orig, c) # cs) s =
     (case at_dispatch T now orig c s of Inl e \<Rightarrow> Inl e | Inr s' \<Rightarrow> at_run T cs s')"

lemma at_run_steps: "at_run T cs s = Inr s' \<Longrightarrow> (at_step T I L)\<^sup>*\<^sup>* s s'"
proof (induction T cs s rule: at_run.induct)
  case (1 T s)
  then show ?case by simp
next
  case (2 T now orig c cs s)
  then show ?case
    by (auto split: sum.splits intro: converse_rtranclp_into_rtranclp at_step.call)
qed

text \<open>The runtime's constants: any signed account may confirm.\<close>

definition at_runtime :: "'w currency_ops \<Rightarrow> perthing_ops \<Rightarrow> 'w settle_fn \<Rightarrow> 'w at_config" where
  "at_runtime C P settle =
     \<lparr>at_Currency = C, at_Perthing = P, AttestationDeposit = 100 * 10 ^ 15, ChallengeWindow = 7200,
      SlashPercent = 50, HeartbeatInterval = 100, MaxModelIdLen = 256, MaxGpuUuidLen = 128,
      MaxModelsPerAgent = 10, OnAttestationConfirmed = settle,
      AdminOrigin = (\<lambda>orig. ensure_signed orig \<noteq> None)\<rparr>"

lemma at_runtime_sel:
  "at_Currency (at_runtime C P f) = C"
  "at_Perthing (at_runtime C P f) = P"
  "AttestationDeposit (at_runtime C P f) = 100 * 10 ^ 15"
  "ChallengeWindow (at_runtime C P f) = 7200"
  "SlashPercent (at_runtime C P f) = 50"
  "HeartbeatInterval (at_runtime C P f) = 100"
  "MaxModelIdLen (at_runtime C P f) = 256"
  "MaxGpuUuidLen (at_runtime C P f) = 128"
  "MaxModelsPerAgent (at_runtime C P f) = 10"
  "OnAttestationConfirmed (at_runtime C P f) = f"
  "AdminOrigin (at_runtime C P f) orig \<longleftrightarrow> ensure_signed orig \<noteq> None"
  by (simp_all add: at_runtime_def)

lemma at_event_frame [simp]:
  "NextAttestationId (at_deposit_event e s) = NextAttestationId s"
  "Attestations (at_deposit_event e s) = Attestations s"
  "Nodes (at_deposit_event e s) = Nodes s"
  "AttesterTaskCount (at_deposit_event e s) = AttesterTaskCount s"
  "AgentCapabilities (at_deposit_event e s) = AgentCapabilities s"
  "ModelProviders (at_deposit_event e s) = ModelProviders s"
  "at_world (at_deposit_event e s) = at_world s"
  "at_events (at_deposit_event e s) = at_events s @ [e]"
  by (simp_all add: at_deposit_event_def)

section \<open>What a successful call does\<close>

lemma register_node_Inr:
  assumes "register_node T now orig u tf s = Inr s'"
  obtains who where "orig = Signed who" "Nodes s who = None"
    "s' = at_deposit_event (NodeRegistered who tf)
      (s\<lparr>Nodes := (Nodes s)(who \<mapsto>
         \<lparr>node_owner = who, gpu_uuid = u, tflops = tf, registered_at = now,
          last_heartbeat = now, is_active = True\<rparr>)\<rparr>)"
  using assms by (auto simp: register_node_def split: option.splits if_splits)

lemma heartbeat_Inr:
  assumes "heartbeat T now orig s = Inr s'"
  obtains who node where "orig = Signed who" "Nodes s who = Some node"
    "saturating_add 32 (last_heartbeat node) (HeartbeatInterval T) \<le> now"
    "s' = at_deposit_event (HeartbeatReceived who now)
      (s\<lparr>Nodes := (Nodes s)(who \<mapsto> node\<lparr>last_heartbeat := now, is_active := True\<rparr>)\<rparr>)"
  using assms by (auto simp: heartbeat_def split: option.splits if_splits)

lemma submit_attestation_Inr:
  assumes "submit_attestation T now orig tid h mid it ot s = Inr s'"
  obtains who w where "orig = Signed who" "Nodes s who \<noteq> None" "AttesterTaskCount s who tid = 0"
    "reserve (at_Currency T) who (AttestationDeposit T) (at_world s) = Some w"
    "s' = at_deposit_event (AttestationSubmitted (NextAttestationId s) who tid h)
      (s\<lparr>at_world := w, NextAttestationId := Suc (NextAttestationId s),
         Attestations := (Attestations s)(NextAttestationId s \<mapsto>
           new_attestation T now (NextAttestationId s) who tid h mid it ot),
         AttesterTaskCount := count_task who tid (AttesterTaskCount s)\<rparr>)"
  using assms
  by (auto simp: submit_attestation_def Let_def checked_Some split: option.splits if_splits)

lemma challenge_attestation_Inr:
  assumes "challenge_attestation now orig i s = Inr s'"
  obtains who att where "orig = Signed who" "Attestations s i = Some att" "status att = Pending"
    "challenger att = None" "now \<le> challenge_end att"
    "s' = at_deposit_event (AttestationChallenged i who)
      (s\<lparr>Attestations := (Attestations s)(i \<mapsto> att\<lparr>challenger := Some who\<rparr>)\<rparr>)"
  using assms by (auto simp: challenge_attestation_def split: option.splits if_splits)

lemma confirm_attestation_Inr:
  assumes "confirm_attestation T now orig i s = Inr s'"
  obtains att w1 where "AdminOrigin T orig" "Attestations s i = Some att" "status att = Pending"
    "challenger att = None" "challenge_end att < now"
    "w1 = fst (unreserve (at_Currency T) (attester att) (deposit att) (at_world s))"
    "s' = at_deposit_event (AttestationConfirmed i)
      (s\<lparr>at_world := fst (OnAttestationConfirmed T now (attester att) (attester att) (deposit att) i w1),
         Attestations := (Attestations s)(i \<mapsto> att\<lparr>status := Confirmed\<rparr>)\<rparr>)"
  using assms by (auto simp: confirm_attestation_def Let_def split: option.splits if_splits)

definition slash_part :: "'w at_config \<Rightarrow> balance \<Rightarrow> balance" where
  "slash_part T v = pmul (at_Perthing T) 1000000000 (from_percent (at_Perthing T) (SlashPercent T)) v"

lemma resolve_challenge_Inr:
  assumes "resolve_challenge T orig i guilty s = Inr s'"
  obtains att where "ensure_root orig" "Attestations s i = Some att" "status att = Pending"
    "challenger att \<noteq> None"
    "guilty \<Longrightarrow> s' = at_deposit_event (AttestationSlashed i (attester att) (slash_part T (deposit att)))
      (s\<lparr>at_world := fst (unreserve (at_Currency T) (attester att)
            (saturating_sub (deposit att) (slash_part T (deposit att)))
            (fst (slash_reserved (at_Currency T) (attester att) (slash_part T (deposit att)) (at_world s)))),
         Attestations := (Attestations s)(i \<mapsto> att\<lparr>status := Slashed\<rparr>)\<rparr>)"
    "\<not> guilty \<Longrightarrow> s' = at_deposit_event (AttestationDefended i)
      (s\<lparr>at_world := fst (unreserve (at_Currency T) (attester att) (deposit att) (at_world s)),
         Attestations := (Attestations s)(i \<mapsto> att\<lparr>status := Defended\<rparr>)\<rparr>)"
  using assms
  by (auto simp: resolve_challenge_def Let_def slash_part_def split: option.splits if_splits)

definition updated_providers ::
    "account \<Rightarrow> bytes list \<Rightarrow> 'w at_state \<Rightarrow> bytes \<Rightarrow> account \<Rightarrow> bool option" where
  "updated_providers who mids s =
     fold (insert_provider who) mids
       (case AgentCapabilities s who of None \<Rightarrow> ModelProviders s
        | Some old \<Rightarrow> fold (remove_provider who) (model_ids old) (ModelProviders s))"

lemma update_capability_Inr:
  assumes "update_capability T now orig mids maxc price reg s = Inr s'"
  obtains who where "orig = Signed who" "Nodes s who \<noteq> None" "length mids \<le> MaxModelsPerAgent T"
    "s' = at_deposit_event (AgentCapabilityUpdated who (length mids))
      (s\<lparr>ModelProviders := updated_providers who mids s,
         AgentCapabilities := (AgentCapabilities s)(who \<mapsto>
           \<lparr>cap_owner = who, model_ids = mids, max_concurrent = maxc, price_per_token = price,
            region = reg, updated_at = now\<rparr>)\<rparr>)"
  using assms
  by (auto simp: update_capability_def Let_def updated_providers_def split: option.splits if_splits)

lemma on_task_completed_cases:
  assumes "on_task_completed T now who tid h mid it ot s = (s', r)"
  obtains
    (full) "s' = s" "\<exists>e. r = Inl e"
  | (refused) "s' = s\<lparr>NextAttestationId := Suc (NextAttestationId s)\<rparr>" "\<exists>e. r = Inl e"
  | (created) w where
      "reserve (at_Currency T) who (AttestationDeposit T) (at_world s) = Some w"
      "r = Inr (NextAttestationId s)"
      "s' = at_deposit_event (AttestationSubmitted (NextAttestationId s) who tid h)
        (s\<lparr>NextAttestationId := Suc (NextAttestationId s), at_world := w,
           Attestations := (Attestations s)(NextAttestationId s \<mapsto>
             new_attestation T now (NextAttestationId s) who tid h mid it ot),
           AttesterTaskCount := count_task who tid (AttesterTaskCount s)\<rparr>)"
proof (cases "checked_add 64 (NextAttestationId s) 1")
  case None
  with assms have "s' = s" "\<exists>e. r = Inl e" by (auto simp: on_task_completed_def Let_def)
  then show ?thesis by (rule full)
next
  case (Some n)
  then have n: "n = Suc (NextAttestationId s)" by (simp add: checked_Some)
  show ?thesis
  proof (cases "length mid \<le> MaxModelIdLen T")
    case False
    with assms Some n have "s' = s\<lparr>NextAttestationId := Suc (NextAttestationId s)\<rparr>" "\<exists>e. r = Inl e"
      by (auto simp: on_task_completed_def Let_def)
    then show ?thesis by (rule refused)
  next
    case mid: True
    show ?thesis
    proof (cases "reserve (at_Currency T) who (AttestationDeposit T) (at_world s)")
      case None
      with assms Some n mid have "s' = s\<lparr>NextAttestationId := Suc (NextAttestationId s)\<rparr>" "\<exists>e. r = Inl e"
        by (auto simp: on_task_completed_def Let_def)
      then show ?thesis by (rule refused)
    next
      case w: (Some w)
      show ?thesis
        using assms Some n mid w
        by (intro created [OF w]) (simp_all add: on_task_completed_def Let_def)
    qed
  qed
qed

section \<open>The invariant\<close>

definition att_ok :: "nat \<Rightarrow> attestation \<Rightarrow> bool" where
  "att_ok i att \<longleftrightarrow>
     att_id att = i \<and> (status att = Confirmed \<longrightarrow> challenger att = None) \<and>
     (status att = Slashed \<or> status att = Defended \<longrightarrow> challenger att \<noteq> None)"

text \<open>The number of attestations of an account for a task, as a total over the attestation map.\<close>

definition task_tally :: "nat \<Rightarrow> attestation \<Rightarrow> account \<Rightarrow> nat" where
  "task_tally t att a = (if attester att = a \<and> task_id att = t then 1 else 0)"

definition attested :: "'w at_state \<Rightarrow> account \<Rightarrow> nat \<Rightarrow> nat" where
  "attested s a t = owed_total (task_tally t) (Attestations s) (NextAttestationId s) a"

definition served :: "'w at_state \<Rightarrow> account \<Rightarrow> bytes set" where
  "served s a = (case AgentCapabilities s a of None \<Rightarrow> {} | Some c \<Rightarrow> set (model_ids c))"

definition at_inv :: "'w at_state \<Rightarrow> bool" where
  "at_inv s \<longleftrightarrow>
     keys_below (Attestations s) (NextAttestationId s) \<and>
     (\<forall>i att. Attestations s i = Some att \<longrightarrow> att_ok i att) \<and>
     (\<forall>a t. AttesterTaskCount s a t = min (2 ^ 32 - 1) (attested s a t)) \<and>
     (\<forall>m a. ModelProviders s m a = (if m \<in> served s a then Some True else None)) \<and>
     (\<forall>a c. AgentCapabilities s a = Some c \<longrightarrow> cap_owner c = a \<and> Nodes s a \<noteq> None) \<and>
     (\<forall>a n. Nodes s a = Some n \<longrightarrow> node_owner n = a \<and> is_active n)"

lemma at_invD:
  assumes "at_inv s" "Attestations s i = Some att"
  shows "i < NextAttestationId s" "att_ok i att"
  using assms by (auto simp: at_inv_def dest: keys_belowD)

lemma fold_remove_provider:
  "fold (remove_provider who) ms p m a = (if a = who \<and> m \<in> set ms then None else p m a)"
  by (induction ms arbitrary: p) (auto simp: remove_provider_def)

lemma fold_insert_provider:
  "fold (insert_provider who) ms p m a = (if a = who \<and> m \<in> set ms then Some True else p m a)"
  by (induction ms arbitrary: p) (auto simp: insert_provider_def)

lemma updated_providers_eq:
  assumes "at_inv s"
  shows "updated_providers who mids s m a =
    (if a = who then (if m \<in> set mids then Some True else None) else ModelProviders s m a)"
  using assms
  by (auto simp: updated_providers_def fold_remove_provider fold_insert_provider at_inv_def served_def
      split: option.splits)

text \<open>Replacing an attestation by one of the same attester and task.\<close>

lemma at_inv_update:
  assumes inv: "at_inv s" and att: "Attestations s i = Some att"
    and same: "attester att' = attester att" "task_id att' = task_id att" and ok: "att_ok i att'"
    and m: "Attestations s' = (Attestations s)(i \<mapsto> att')"
    and fr: "NextAttestationId s' = NextAttestationId s" "AttesterTaskCount s' = AttesterTaskCount s"
      "ModelProviders s' = ModelProviders s" "AgentCapabilities s' = AgentCapabilities s" "Nodes s' = Nodes s"
  shows "at_inv s'"
proof -
  have i: "i < NextAttestationId s" using at_invD(1) [OF inv att] .
  have "attested s' a t = attested s a t" for a t
    using owed_total_update [of i "NextAttestationId s" "Attestations s" att "task_tally t" att' a] i att same
    by (simp add: attested_def m fr task_tally_def)
  moreover have "keys_below (Attestations s') (NextAttestationId s')"
    using inv i by (simp add: at_inv_def m fr keys_below_update)
  moreover have "\<forall>j a. Attestations s' j = Some a \<longrightarrow> att_ok j a"
    using inv ok by (simp add: at_inv_def m)
  ultimately show ?thesis
    using inv unfolding at_inv_def served_def fr by simp
qed

text \<open>A new attestation, and a consumed identifier.\<close>

lemma attested_new:
  assumes "Attestations s' = (Attestations s)(NextAttestationId s \<mapsto> new_attestation T now i who tid h mid it ot)"
    "NextAttestationId s' = Suc (NextAttestationId s)"
  shows "attested s' a t = attested s a t + (if a = who \<and> t = tid then 1 else 0)"
  using assms by (auto simp: attested_def owed_total_new task_tally_def new_attestation_def)

lemma count_task_min:
  "c who tid = min (2 ^ 32 - 1) n \<Longrightarrow>
    count_task who tid c a t =
      (if a = who \<and> t = tid then min (2 ^ 32 - 1) (n + 1) else c a t)"
  by (auto simp: count_task_def saturating_add_def)

lemma at_inv_new:
  assumes inv: "at_inv s"
    and m: "Attestations s' = (Attestations s)(NextAttestationId s \<mapsto>
        new_attestation T now (NextAttestationId s) who tid h mid it ot)"
    and n: "NextAttestationId s' = Suc (NextAttestationId s)"
    and fr: "AttesterTaskCount s' = count_task who tid (AttesterTaskCount s)"
      "ModelProviders s' = ModelProviders s" "AgentCapabilities s' = AgentCapabilities s" "Nodes s' = Nodes s"
  shows "at_inv s'"
proof -
  have c: "AttesterTaskCount s a t = min (2 ^ 32 - 1) (attested s a t)" for a t
    using inv by (simp add: at_inv_def)
  have "AttesterTaskCount s' a t = min (2 ^ 32 - 1) (attested s' a t)" for a t
    unfolding fr attested_new [OF m n] count_task_min [of "AttesterTaskCount s" who tid, OF c]
    by (simp add: c)
  moreover have "keys_below (Attestations s') (NextAttestationId s')"
    using inv by (simp add: at_inv_def m n keys_below_new)
  moreover have "\<forall>j a. Attestations s' j = Some a \<longrightarrow> att_ok j a"
    using inv by (auto simp: at_inv_def m att_ok_def new_attestation_def)
  ultimately show ?thesis
    using inv unfolding at_inv_def served_def fr by simp
qed

lemma at_inv_skip:
  assumes "at_inv s"
  shows "at_inv (s\<lparr>NextAttestationId := Suc (NextAttestationId s)\<rparr>)"
  using assms by (simp add: at_inv_def attested_def owed_total_skip keys_below_Suc served_def)

lemma at_inv_world: "at_inv (s\<lparr>at_world := w\<rparr>) \<longleftrightarrow> at_inv s"
  by (simp add: at_inv_def attested_def served_def)

text \<open>Every call keeps the invariant.\<close>

lemma register_node_inv:
  assumes "register_node T now orig u tf s = Inr s'" "at_inv s"
  shows "at_inv s'"
  using assms(1)
  by (rule register_node_Inr) (use assms(2) in \<open>auto simp: at_inv_def attested_def served_def\<close>)

lemma heartbeat_inv:
  assumes "heartbeat T now orig s = Inr s'" "at_inv s"
  shows "at_inv s'"
  using assms(1)
  by (rule heartbeat_Inr) (use assms(2) in \<open>auto simp: at_inv_def attested_def served_def\<close>)

lemma submit_attestation_inv:
  assumes "submit_attestation T now orig tid h mid it ot s = Inr s'" "at_inv s"
  shows "at_inv s'"
  using assms(1)
  by (rule submit_attestation_Inr) (rule at_inv_new [OF assms(2)], simp_all)

lemma challenge_attestation_inv:
  assumes "challenge_attestation now orig i s = Inr s'" "at_inv s"
  shows "at_inv s'"
  using assms(1)
proof (rule challenge_attestation_Inr)
  fix who att
  assume att: "Attestations s i = Some att" "status att = Pending"
    and s': "s' = at_deposit_event (AttestationChallenged i who)
      (s\<lparr>Attestations := (Attestations s)(i \<mapsto> att\<lparr>challenger := Some who\<rparr>)\<rparr>)"
  show ?thesis
    by (rule at_inv_update [OF assms(2) att(1), where att' = "att\<lparr>challenger := Some who\<rparr>"])
      (use att at_invD(2) [OF assms(2) att(1)] in \<open>simp_all add: s' att_ok_def\<close>)
qed

lemma confirm_attestation_inv:
  assumes "confirm_attestation T now orig i s = Inr s'" "at_inv s"
  shows "at_inv s'"
  using assms(1)
proof (rule confirm_attestation_Inr)
  fix att w1
  assume att: "Attestations s i = Some att" "challenger att = None"
    and s': "s' = at_deposit_event (AttestationConfirmed i)
      (s\<lparr>at_world := fst (OnAttestationConfirmed T now (attester att) (attester att) (deposit att) i w1),
         Attestations := (Attestations s)(i \<mapsto> att\<lparr>status := Confirmed\<rparr>)\<rparr>)"
  show ?thesis
    by (rule at_inv_update [OF assms(2) att(1), where att' = "att\<lparr>status := Confirmed\<rparr>"])
      (use att at_invD(2) [OF assms(2) att(1)] in \<open>simp_all add: s' att_ok_def\<close>)
qed

lemma resolve_challenge_inv:
  assumes "resolve_challenge T orig i guilty s = Inr s'" "at_inv s"
  shows "at_inv s'"
  using assms(1)
proof (rule resolve_challenge_Inr)
  fix att
  assume att: "Attestations s i = Some att" "challenger att \<noteq> None"
    and g: "guilty \<Longrightarrow> s' = at_deposit_event (AttestationSlashed i (attester att) (slash_part T (deposit att)))
      (s\<lparr>at_world := fst (unreserve (at_Currency T) (attester att)
            (saturating_sub (deposit att) (slash_part T (deposit att)))
            (fst (slash_reserved (at_Currency T) (attester att) (slash_part T (deposit att)) (at_world s)))),
         Attestations := (Attestations s)(i \<mapsto> att\<lparr>status := Slashed\<rparr>)\<rparr>)"
    and n: "\<not> guilty \<Longrightarrow> s' = at_deposit_event (AttestationDefended i)
      (s\<lparr>at_world := fst (unreserve (at_Currency T) (attester att) (deposit att) (at_world s)),
         Attestations := (Attestations s)(i \<mapsto> att\<lparr>status := Defended\<rparr>)\<rparr>)"
  show ?thesis
    by (rule at_inv_update [OF assms(2) att(1),
          where att' = "att\<lparr>status := if guilty then Slashed else Defended\<rparr>"])
      (cases guilty, use att at_invD(2) [OF assms(2) att(1)] in \<open>simp_all add: g n att_ok_def\<close>)+
qed

lemma update_capability_inv:
  assumes "update_capability T now orig mids maxc price reg s = Inr s'" "at_inv s"
  shows "at_inv s'"
  using assms(1)
  by (rule update_capability_Inr)
    (use assms(2) in \<open>simp add: at_inv_def attested_def served_def updated_providers_eq [OF assms(2)]\<close>)

lemma on_task_completed_inv:
  assumes "on_task_completed T now who tid h mid it ot s = (s', r)" "at_inv s"
  shows "at_inv s'"
  using assms(1)
proof (cases rule: on_task_completed_cases)
  case full
  with assms(2) show ?thesis by simp
next
  case refused
  with assms(2) show ?thesis by (simp add: at_inv_skip)
next
  case (created w)
  then show ?thesis by (intro at_inv_new [OF assms(2)]) simp_all
qed

lemma at_dispatch_inv:
  assumes "at_dispatch T now orig c s = Inr s'" "at_inv s"
  shows "at_inv s'"
  using assms
  by (cases c) (auto intro: register_node_inv heartbeat_inv submit_attestation_inv
      challenge_attestation_inv confirm_attestation_inv resolve_challenge_inv update_capability_inv)

lemma at_step_inv: "at_step T I L s s' \<Longrightarrow> at_inv s \<Longrightarrow> at_inv s'"
  by (induction rule: at_step.induct) (auto intro: at_dispatch_inv on_task_completed_inv simp: at_inv_world)

section \<open>Deposits\<close>

definition at_owed :: "attestation \<Rightarrow> account \<Rightarrow> nat" where
  "at_owed att a = (if attester att = a \<and> status att = Pending then deposit att else 0)"

definition at_locked :: "'w at_state \<Rightarrow> account \<Rightarrow> nat" where
  "at_locked s = owed_total at_owed (Attestations s) (NextAttestationId s)"

text \<open>What the pallet and the pallets below it keep reserved.\<close>

definition at_total :: "('w \<Rightarrow> account \<Rightarrow> nat) \<Rightarrow> 'w at_state \<Rightarrow> account \<Rightarrow> nat" where
  "at_total L s a = at_locked s a + L (at_world s) a"

abbreviation at_reserved :: "'w at_config \<Rightarrow> 'w at_state \<Rightarrow> account \<Rightarrow> nat" where
  "at_reserved T s \<equiv> reserved_balance (at_Currency T) (at_world s)"

abbreviation at_free :: "'w at_config \<Rightarrow> 'w at_state \<Rightarrow> account \<Rightarrow> nat" where
  "at_free T s \<equiv> free_balance (at_Currency T) (at_world s)"

definition at_ok :: "'w at_config \<Rightarrow> ('w \<Rightarrow> bool) \<Rightarrow> ('w \<Rightarrow> account \<Rightarrow> nat) \<Rightarrow> bool" where
  "at_ok T I L \<longleftrightarrow>
     hosted_currency (at_Currency T) I L \<and> perthing (at_Perthing T) \<and>
     attestation_settler (OnAttestationConfirmed T) (at_Currency T) I L"

lemma at_okD:
  assumes "at_ok T I L"
  shows "hosted_currency (at_Currency T) I L" "reservable_currency (at_Currency T)"
    "perthing (at_Perthing T)" "attestation_settler (OnAttestationConfirmed T) (at_Currency T) I L"
  using assms by (simp_all add: at_ok_def hosted_currency_def)

lemma at_owed_pending:
  "status att = Pending \<Longrightarrow> at_owed att a = (if a = attester att then deposit att else 0)"
  by (auto simp: at_owed_def)

lemma at_owed_closed: "status att \<noteq> Pending \<Longrightarrow> at_owed att a = 0"
  by (simp add: at_owed_def)

lemma slash_part_le: "perthing (at_Perthing T) \<Longrightarrow> slash_part T v \<le> v"
  unfolding slash_part_def
  by (rule perthing.pmul_le) (simp_all add: perthing.from_percent_law)

text \<open>Closing a pending attestation takes exactly its deposit out of the attester's reserve.\<close>

lemma close_attestation_exact:
  assumes inv: "at_inv s" and att: "Attestations s i = Some att" "status att = Pending"
    and b: "\<And>b. at_locked s b \<le> at_reserved T s b" and st: "status att' \<noteq> Pending"
    and m: "Attestations s' = (Attestations s)(i \<mapsto> att')" "NextAttestationId s' = NextAttestationId s"
    and r: "\<And>b. at_reserved T s' b = at_reserved T s b - (if b = attester att then deposit att else 0)"
  shows "at_reserved T s' a + at_locked s a = at_reserved T s a + at_locked s' a"
  unfolding at_locked_def m
  by (rule exact_release [where m = "Attestations s" and i = i, OF at_invD(1) [OF inv att(1)] att(1),
        where c = "attester att" and v = "deposit att"])
    (use att st b r in \<open>simp_all add: at_owed_pending at_owed_closed at_locked_def\<close>)

lemma submit_attestation_exact:
  assumes ok: "at_ok T I L" and w: "I (at_world s)"
    and call: "submit_attestation T now orig tid h mid it ot s = Inr s'"
  shows "at_reserved T s' a + at_locked s a = at_reserved T s a + at_locked s' a \<and>
    I (at_world s') \<and> L (at_world s') = L (at_world s)"
  using call
  by (rule submit_attestation_Inr)
    (use hosted_currency.reserve_keeps [OF at_okD(1) [OF ok] _ w] in
      \<open>simp add: at_locked_def owed_total_new at_owed_def new_attestation_def
        reservable_currency.reserve_reserved [OF at_okD(2) [OF ok]]\<close>)

lemma on_task_completed_exact:
  assumes cur: "hosted_currency (at_Currency T) I L" and w: "I (at_world s)" and inv: "at_inv s"
    and call: "on_task_completed T now who tid h mid it ot s = (s', r)"
  shows "at_reserved T s' a + at_locked s a = at_reserved T s a + at_locked s' a \<and>
    I (at_world s') \<and> L (at_world s') = L (at_world s) \<and>
    at_free T s' a + at_reserved T s' a = at_free T s a + at_reserved T s a"
  using call
proof (cases rule: on_task_completed_cases)
  case full
  then show ?thesis using w by simp
next
  case refused
  then show ?thesis using w inv by (simp add: at_locked_def owed_total_skip at_inv_def)
next
  case (created w')
  have rc: "reservable_currency (at_Currency T)" using cur by (simp add: hosted_currency_def)
  show ?thesis
    using created hosted_currency.reserve_keeps [OF cur created(1) w]
      reservable_currency.reserve_law [OF rc created(1)]
    by (simp add: at_locked_def owed_total_new at_owed_def new_attestation_def)
qed

lemma challenge_attestation_exact:
  assumes inv: "at_inv s" and call: "challenge_attestation now orig i s = Inr s'"
  shows "at_world s' = at_world s \<and> at_locked s' a = at_locked s a"
  using call
proof (rule challenge_attestation_Inr)
  fix who att
  assume att: "Attestations s i = Some att"
    and s': "s' = at_deposit_event (AttestationChallenged i who)
      (s\<lparr>Attestations := (Attestations s)(i \<mapsto> att\<lparr>challenger := Some who\<rparr>)\<rparr>)"
  show ?thesis
    using owed_total_update [of i "NextAttestationId s" "Attestations s" att at_owed
        "att\<lparr>challenger := Some who\<rparr>" a] att at_invD(1) [OF inv att]
    by (auto simp: s' at_locked_def at_owed_def split: if_splits)
qed

lemma confirm_world:
  assumes ok: "at_ok T I L" and w: "I w"
    and w2: "w2 = fst (OnAttestationConfirmed T now who who v i (fst (unreserve (at_Currency T) who v w)))"
  shows "I w2" "L w2 = L w"
    "reserved_balance (at_Currency T) w2 b =
      reserved_balance (at_Currency T) w b - (if b = who then v else 0)"
    "free_balance (at_Currency T) w2 b = free_balance (at_Currency T) w b +
      (if b = who then min v (reserved_balance (at_Currency T) w who) else 0)"
proof -
  let ?w1 = "fst (unreserve (at_Currency T) who v w)"
  have w1: "I ?w1" "L ?w1 = L w" using hosted_currency.unreserve_fst [OF at_okD(1) [OF ok] w] by auto
  show "I w2" "L w2 = L w"
    unfolding w2 using attestation_settler.settle_inv [OF at_okD(4) [OF ok] w1(1)]
      attestation_settler.settle_locked [OF at_okD(4) [OF ok] w1(1)] w1(2) by simp_all
  show "reserved_balance (at_Currency T) w2 b =
      reserved_balance (at_Currency T) w b - (if b = who then v else 0)"
    unfolding w2 attestation_settler.settle_reserved [OF at_okD(4) [OF ok] at_okD(2) [OF ok]]
    by (rule reservable_currency.unreserve_reserved [OF at_okD(2) [OF ok]])
  show "free_balance (at_Currency T) w2 b = free_balance (at_Currency T) w b +
      (if b = who then min v (reserved_balance (at_Currency T) w who) else 0)"
    unfolding w2 attestation_settler.settle_self_free [OF at_okD(4) [OF ok] at_okD(2) [OF ok]]
    by (rule reservable_currency.unreserve_free [OF at_okD(2) [OF ok]])
qed

lemma confirm_attestation_exact:
  assumes ok: "at_ok T I L" and w: "I (at_world s)" and inv: "at_inv s"
    and b: "\<And>b. at_locked s b \<le> at_reserved T s b" and call: "confirm_attestation T now orig i s = Inr s'"
  shows "at_reserved T s' a + at_locked s a = at_reserved T s a + at_locked s' a \<and>
    I (at_world s') \<and> L (at_world s') = L (at_world s)"
  using call
proof (rule confirm_attestation_Inr)
  fix att w1
  assume att: "Attestations s i = Some att" "status att = Pending"
    and w1: "w1 = fst (unreserve (at_Currency T) (attester att) (deposit att) (at_world s))"
    and s': "s' = at_deposit_event (AttestationConfirmed i)
      (s\<lparr>at_world := fst (OnAttestationConfirmed T now (attester att) (attester att) (deposit att) i w1),
         Attestations := (Attestations s)(i \<mapsto> att\<lparr>status := Confirmed\<rparr>)\<rparr>)"
  note cw = confirm_world [OF ok w, of "at_world s'" now "attester att" "deposit att" i]
  have "at_reserved T s' a + at_locked s a = at_reserved T s a + at_locked s' a"
    by (rule close_attestation_exact [OF inv att b, where att' = "att\<lparr>status := Confirmed\<rparr>"])
      (use cw(3) in \<open>simp_all add: s' w1\<close>)
  with cw(1,2) show ?thesis by (simp add: s' w1)
qed

lemma resolve_world:
  assumes ok: "at_ok T I L" and w: "I w"
    and w2: "w2 = fst (unreserve (at_Currency T) who (saturating_sub v (slash_part T v))
        (fst (slash_reserved (at_Currency T) who (slash_part T v) w)))"
  shows "I w2" "L w2 = L w"
    "reserved_balance (at_Currency T) w2 b =
      reserved_balance (at_Currency T) w b - (if b = who then v else 0)"
    "v \<le> reserved_balance (at_Currency T) w who \<Longrightarrow>
      free_balance (at_Currency T) w2 b =
        free_balance (at_Currency T) w b + (if b = who then v - slash_part T v else 0)"
proof -
  let ?w1 = "fst (slash_reserved (at_Currency T) who (slash_part T v) w)"
  have w1: "I ?w1" "L ?w1 = L w" using hosted_currency.slash_reserved_fst [OF at_okD(1) [OF ok] w] by auto
  then show "I w2" "L w2 = L w"
    using hosted_currency.unreserve_fst [OF at_okD(1) [OF ok] w1(1)] by (simp_all add: w2)
  have le: "slash_part T v \<le> v" by (rule slash_part_le [OF at_okD(3) [OF ok]])
  show "reserved_balance (at_Currency T) w2 b =
      reserved_balance (at_Currency T) w b - (if b = who then v else 0)"
    using le by (simp add: w2 saturating_sub_def reservable_currency.unreserve_reserved [OF at_okD(2) [OF ok]]
        reservable_currency.slash_reserved_reserved [OF at_okD(2) [OF ok]])
  have "free_balance (at_Currency T) ?w1 = free_balance (at_Currency T) w"
    by (cases "slash_reserved (at_Currency T) who (slash_part T v) w")
      (auto dest: reservable_currency.slash_reserved_law [OF at_okD(2) [OF ok]])
  then show "free_balance (at_Currency T) w2 b =
        free_balance (at_Currency T) w b + (if b = who then v - slash_part T v else 0)"
    if "v \<le> reserved_balance (at_Currency T) w who"
    using that le by (simp add: w2 saturating_sub_def reservable_currency.unreserve_free [OF at_okD(2) [OF ok]]
        reservable_currency.slash_reserved_reserved [OF at_okD(2) [OF ok]])
qed

lemma resolve_challenge_exact:
  assumes ok: "at_ok T I L" and w: "I (at_world s)" and inv: "at_inv s"
    and b: "\<And>b. at_locked s b \<le> at_reserved T s b" and call: "resolve_challenge T orig i guilty s = Inr s'"
  shows "at_reserved T s' a + at_locked s a = at_reserved T s a + at_locked s' a \<and>
    I (at_world s') \<and> L (at_world s') = L (at_world s)"
  using call
proof (rule resolve_challenge_Inr)
  fix att
  assume att: "Attestations s i = Some att" "status att = Pending"
    and g: "guilty \<Longrightarrow> s' = at_deposit_event (AttestationSlashed i (attester att) (slash_part T (deposit att)))
      (s\<lparr>at_world := fst (unreserve (at_Currency T) (attester att)
            (saturating_sub (deposit att) (slash_part T (deposit att)))
            (fst (slash_reserved (at_Currency T) (attester att) (slash_part T (deposit att)) (at_world s)))),
         Attestations := (Attestations s)(i \<mapsto> att\<lparr>status := Slashed\<rparr>)\<rparr>)"
    and n: "\<not> guilty \<Longrightarrow> s' = at_deposit_event (AttestationDefended i)
      (s\<lparr>at_world := fst (unreserve (at_Currency T) (attester att) (deposit att) (at_world s)),
         Attestations := (Attestations s)(i \<mapsto> att\<lparr>status := Defended\<rparr>)\<rparr>)"
  show ?thesis
  proof (cases guilty)
    case True
    note rw = resolve_world [OF ok w, of "at_world s'" "attester att" "deposit att"]
    have "at_reserved T s' a + at_locked s a = at_reserved T s a + at_locked s' a"
      by (rule close_attestation_exact [OF inv att b, where att' = "att\<lparr>status := Slashed\<rparr>"])
        (use rw(3) in \<open>simp_all add: g [OF True]\<close>)
    with rw(1,2) show ?thesis by (simp add: g [OF True])
  next
    case False
    have "at_reserved T s' a + at_locked s a = at_reserved T s a + at_locked s' a"
      by (rule close_attestation_exact [OF inv att b, where att' = "att\<lparr>status := Defended\<rparr>"])
        (simp_all add: n [OF False] reservable_currency.unreserve_reserved [OF at_okD(2) [OF ok]])
    with hosted_currency.unreserve_fst [OF at_okD(1) [OF ok] w] show ?thesis by (simp add: n [OF False])
  qed
qed

lemma at_dispatch_exact:
  assumes ok: "at_ok T I L" and w: "I (at_world s)" and inv: "at_inv s"
    and b: "\<And>b. at_locked s b \<le> at_reserved T s b" and call: "at_dispatch T now orig c s = Inr s'"
  shows "at_reserved T s' a + at_locked s a = at_reserved T s a + at_locked s' a \<and>
    I (at_world s') \<and> L (at_world s') = L (at_world s)"
proof (cases c)
  case (RegisterNode u tf)
  with call w show ?thesis by (auto elim!: register_node_Inr simp: at_locked_def)
next
  case Heartbeat
  with call w show ?thesis by (auto elim!: heartbeat_Inr simp: at_locked_def)
next
  case (SubmitAttestation t h m i ot)
  with call show ?thesis by (auto dest: submit_attestation_exact [OF ok w, where a = a])
next
  case (ChallengeAttestation i)
  with call w show ?thesis by (auto dest: challenge_attestation_exact [OF inv, where a = a])
next
  case (ConfirmAttestation i)
  with call show ?thesis by (auto dest: confirm_attestation_exact [OF ok w inv b, where a = a])
next
  case (ResolveChallenge i g)
  with call show ?thesis by (auto dest: resolve_challenge_exact [OF ok w inv b, where a = a])
next
  case (UpdateCapability ms mc p r)
  with call w show ?thesis by (auto elim!: update_capability_Inr simp: at_locked_def)
qed

definition at_world_inv ::
    "'w at_config \<Rightarrow> ('w \<Rightarrow> bool) \<Rightarrow> ('w \<Rightarrow> account \<Rightarrow> nat) \<Rightarrow> 'w at_state \<Rightarrow> bool" where
  "at_world_inv T I L s \<longleftrightarrow> (at_ok T I L \<and> at_inv s) \<and> I (at_world s)"

lemma at_step_exact:
  assumes "at_step T I L s s'" "at_world_inv T I L s" "backed (at_total L) (at_reserved T) s"
  shows "at_world_inv T I L s' \<and> at_reserved T s' a + at_total L s a = at_reserved T s a + at_total L s' a"
proof -
  have ok: "at_ok T I L" and inv: "at_inv s" and w: "I (at_world s)"
    using assms(2) by (simp_all add: at_world_inv_def)
  have b: "at_locked s b \<le> at_reserved T s b" for b
    using backedD [OF assms(3), of b] by (simp add: at_total_def)
  have i': "at_inv s'" by (rule at_step_inv [OF assms(1) inv])
  from assms(1) show ?thesis
  proof (cases rule: at_step.cases)
    case (call now orig c)
    with at_dispatch_exact [OF ok w inv b call(1), of a] ok i' show ?thesis
      by (simp add: at_world_inv_def at_total_def)
  next
    case (completed now who t h m i ot r)
    with on_task_completed_exact [OF at_okD(1) [OF ok] w inv completed, of a] ok i' show ?thesis
      by (simp add: at_world_inv_def at_total_def)
  next
    case (environment w')
    with ok i' show ?thesis by (simp add: at_world_inv_def at_total_def at_locked_def)
  qed
qed

interpretation ate: escrow_pallet "at_step T I L" "at_world_inv T I L" "at_total L" "at_reserved T"
  by unfold_locales (blast dest: at_step_exact)+

lemma at_init_inv: "at_inv (at_init w)"
  by (simp add: at_inv_def at_init_def keys_below_def attested_def served_def)

lemma at_init_locked: "at_locked (at_init w) a = 0"
  by (simp add: at_locked_def at_init_def)

section \<open>The pallet as a provider\<close>

abbreviation at_lift :: "'w currency_ops \<Rightarrow> 'w at_state currency_ops" where
  "at_lift \<equiv> lift_currency at_world (\<lambda>w s. s\<lparr>at_world := w\<rparr>)"

lemma at_hosted:
  assumes "hosted_currency (at_Currency T) I L"
  shows "hosted_currency (at_lift (at_Currency T)) (at_world_inv T I L) (at_total L)"
proof -
  have "hosted_currency (at_lift (at_Currency T)) (\<lambda>s. (at_ok T I L \<and> at_inv s) \<and> I (at_world s))
      (\<lambda>s a. at_locked s a + L (at_world s) a)"
    by (rule hosted_lift [OF assms]) (simp_all add: at_inv_world at_locked_def)
  moreover have "at_world_inv T I L = (\<lambda>s. (at_ok T I L \<and> at_inv s) \<and> I (at_world s))"
    "at_total L = (\<lambda>s a. at_locked s a + L (at_world s) a)"
    by (simp_all add: fun_eq_iff at_world_inv_def at_total_def)
  ultimately show ?thesis by simp
qed

interpretation ath: task_completion_handler "on_task_completed (T :: 'w at_config)"
    "at_lift (at_Currency T)" "at_world_inv T I L" "at_total L"
proof unfold_locales
  fix now a t h m i ot b and s :: "'w at_state"
  assume s: "at_world_inv T I L s"
  obtain s' r where st: "on_task_completed T now a t h m i ot s = (s', r)" by fastforce
  have ok: "hosted_currency (at_Currency T) I L" and inv: "at_inv s" and w: "I (at_world s)"
    using s at_okD by (auto simp: at_world_inv_def)
  note ex = on_task_completed_exact [OF ok w inv st, of b] on_task_completed_inv [OF st inv]
  then show "at_world_inv T I L (fst (on_task_completed T now a t h m i ot s))"
    using s st by (simp add: at_world_inv_def)
  show "reserved_balance (at_lift (at_Currency T)) (fst (on_task_completed T now a t h m i ot s)) b + at_total L s b =
      reserved_balance (at_lift (at_Currency T)) s b + at_total L (fst (on_task_completed T now a t h m i ot s)) b"
    "free_balance (at_lift (at_Currency T)) (fst (on_task_completed T now a t h m i ot s)) b +
      reserved_balance (at_lift (at_Currency T)) (fst (on_task_completed T now a t h m i ot s)) b =
      free_balance (at_lift (at_Currency T)) s b + reserved_balance (at_lift (at_Currency T)) s b"
    using ex by (simp_all add: st at_total_def)
qed

section \<open>The life of an attestation\<close>

definition same_attestation :: "attestation \<Rightarrow> attestation \<Rightarrow> bool" where
  "same_attestation att att' \<longleftrightarrow>
     att' = att\<lparr>status := status att', challenger := challenger att'\<rparr>"

definition later_attestation :: "attestation \<Rightarrow> attestation \<Rightarrow> bool" where
  "later_attestation att att' \<longleftrightarrow>
     same_attestation att att' \<and> (status att \<noteq> Pending \<longrightarrow> att' = att) \<and>
     (challenger att \<noteq> None \<longrightarrow> challenger att' = challenger att \<and> status att' \<noteq> Confirmed)"

lemma later_attestation_refl: "(status att = Confirmed \<Longrightarrow> challenger att = None) \<Longrightarrow> later_attestation att att"
  by (auto simp: later_attestation_def same_attestation_def)

lemma later_close:
  "status att = Pending \<Longrightarrow> st = Confirmed \<longrightarrow> challenger att = None \<Longrightarrow>
    later_attestation att (att\<lparr>status := st\<rparr>)"
  by (cases att) (auto simp: later_attestation_def same_attestation_def)

lemma later_challenge:
  "status att = Pending \<Longrightarrow> challenger att = None \<Longrightarrow> later_attestation att (att\<lparr>challenger := c\<rparr>)"
  by (cases att) (auto simp: later_attestation_def same_attestation_def)

lemma later_attestation_trans:
  assumes "later_attestation a b" "later_attestation b c"
  shows "later_attestation a c"
proof -
  have b: "b = a\<lparr>status := status b, challenger := challenger b\<rparr>"
    and c: "c = b\<lparr>status := status c, challenger := challenger c\<rparr>"
    using assms by (simp_all add: later_attestation_def same_attestation_def)
  have "c = a\<lparr>status := status c, challenger := challenger c\<rparr>"
    by (subst c, subst b) simp
  then show ?thesis
    using assms by (auto simp: later_attestation_def same_attestation_def)
qed

lemma resolve_challenge_attestations:
  assumes "resolve_challenge T orig i guilty s = Inr s'"
  shows "\<exists>att. Attestations s i = Some att \<and> status att = Pending \<and> challenger att \<noteq> None \<and>
    Attestations s' = (Attestations s)(i \<mapsto> att\<lparr>status := if guilty then Slashed else Defended\<rparr>)"
  using assms by (rule resolve_challenge_Inr) (cases guilty, auto)

lemma at_dispatch_later:
  assumes "at_dispatch T now orig c s = Inr s'" "at_inv s" "Attestations s i = Some att"
  shows "\<exists>att'. Attestations s' i = Some att' \<and> later_attestation att att'"
proof -
  have r: "later_attestation att att"
    using at_invD(2) [OF assms(2,3)] by (intro later_attestation_refl) (simp add: att_ok_def)
  have "i \<noteq> NextAttestationId s" using at_invD(1) [OF assms(2,3)] by simp
  with assms(1,3) r show ?thesis
  proof (cases c)
    case (ResolveChallenge j g)
    with assms(1,3) r show ?thesis
      by (auto simp: later_close dest!: resolve_challenge_attestations)
  qed (auto simp: later_close later_challenge elim!: register_node_Inr heartbeat_Inr
      submit_attestation_Inr challenge_attestation_Inr confirm_attestation_Inr update_capability_Inr)
qed

lemma at_step_later:
  assumes "at_step T I L s s'" "at_inv s" "Attestations s i = Some att"
  shows "\<exists>att'. Attestations s' i = Some att' \<and> later_attestation att att'"
proof -
  have r: "later_attestation att att"
    using at_invD(2) [OF assms(2,3)] by (intro later_attestation_refl) (simp add: att_ok_def)
  have "i \<noteq> NextAttestationId s" using at_invD(1) [OF assms(2,3)] by simp
  from assms(1) this r show ?thesis
  proof (cases rule: at_step.cases)
    case (call now orig c)
    from at_dispatch_later [OF call assms(2,3)] show ?thesis .
  next
    case (completed now who t h m it ot r')
    from completed \<open>i \<noteq> NextAttestationId s\<close> r assms(3) show ?thesis
      by (cases rule: on_task_completed_cases) auto
  next
    case (environment w)
    with r assms(3) show ?thesis by simp
  qed
qed

lemma at_run_later:
  assumes "(at_step T I L)\<^sup>*\<^sup>* s s'" "at_inv s" "Attestations s i = Some att"
  shows "at_inv s' \<and> (\<exists>att'. Attestations s' i = Some att' \<and> later_attestation att att')"
  using assms
proof (induction rule: rtranclp_induct)
  case base
  then show ?case
    using at_invD(2) [OF base] later_attestation_refl [of att] by (auto simp: att_ok_def)
next
  case (step t u)
  then obtain jt where jt: "Attestations t i = Some jt" "later_attestation att jt" and t: "at_inv t" by auto
  from at_step_later [OF step.hyps(2) t jt(1)] obtain kt where
    "Attestations u i = Some kt" "later_attestation jt kt" by auto
  with jt(2) at_step_inv [OF step.hyps(2) t] show ?case by (blast intro: later_attestation_trans)
qed

section \<open>A worked run\<close>

text \<open>
  The runtime configuration on top of the payment pallet: the world is the payment pallet's state on
  the concrete ledger. Accounts 5 and 6 register, account 5 attests task 3, account 8 challenges it,
  account 6 attests task 4.
\<close>

definition at_demo :: "ledger x4_state at_config" where
  "at_demo = at_runtime (x4_lift ledger_ops) perthing_ops_ref (settle_for_attestation x4_demo)"

definition at_demo_world :: "ledger x4_state" where
  "at_demo_world =
     x4_init \<lparr>ledger_free = (\<lambda>_. 0)(5 := 10 ^ 18, 6 := 10 ^ 18), ledger_reserved = (\<lambda>_. 0)\<rparr>"

definition at_demo_calls :: "(block_number \<times> origin \<times> at_call) list" where
  "at_demo_calls =
     [(10, Signed 5, RegisterNode [] 40),
      (10, Signed 6, RegisterNode [] 40),
      (11, Signed 5, UpdateCapability [[7]] 2 3 []),
      (12, Signed 5, SubmitAttestation 3 [9] [7] 100 200),
      (13, Signed 6, SubmitAttestation 4 [9] [7] 100 200),
      (14, Signed 8, ChallengeAttestation 0)]"

definition at_demo_state :: "ledger x4_state at_state" where
  "at_demo_state = projr (at_run at_demo at_demo_calls (at_init at_demo_world))"

lemmas at_eval = register_node_def heartbeat_def submit_attestation_def challenge_attestation_def
  confirm_attestation_def resolve_challenge_def update_capability_def on_task_completed_def
  new_attestation_def count_task_def remove_provider_def insert_provider_def at_deposit_event_def
  at_demo_def at_runtime_sel at_demo_world_def at_demo_calls_def at_init_def
  perthing_ops_ref_sel lift_currency_sel ledger_defs Let_def int_ops x4_init_def ensure_root_def
  settle_for_attestation_def x4_demo_def x4_runtime_sel make_receipt_def x4_deposit_event_def

lemma x4_settler_ok:
  assumes "reservable_currency C"
  shows "hosted_currency (x4_lift C) x4_inv x4_locked"
proof -
  have "x4_inv (s\<lparr>x4_world := w\<rparr>) \<longleftrightarrow> x4_inv s" for w and s :: "'w x4_state"
    by (simp add: x4_inv_def intent_ok_def is_nonce_used_def is_replay_fingerprint_used_def)
  then have "hosted_currency (x4_lift C) (\<lambda>s. x4_inv s \<and> True) (\<lambda>s a. x4_locked s a + 0)"
    by (intro hosted_lift [OF hosted_plain [OF assms]]) (simp_all add: x4_locked_def)
  then show ?thesis by simp
qed

lemma at_demo_ok: "at_ok at_demo x4_inv x4_locked"
  using x4_settler_ok [OF ledger.reservable_currency_axioms] perthing_ref.perthing_axioms
    x4.attestation_settler_axioms [of x4_demo]
  by (simp add: at_ok_def at_demo_def at_runtime_sel x4_demo_def x4_runtime_sel)

lemma at_demo_run: "at_run at_demo at_demo_calls (at_init at_demo_world) = Inr at_demo_state"
  by (simp add: at_demo_state_def at_eval)

lemma at_demo_steps: "(at_step at_demo x4_inv x4_locked)\<^sup>*\<^sup>* (at_init at_demo_world) at_demo_state"
  by (rule at_run_steps [OF at_demo_run])

lemma at_demo_world_ok: "x4_inv at_demo_world" "x4_locked at_demo_world a = 0"
  by (simp_all add: at_demo_world_def x4_init_inv) (simp add: x4_locked_def x4_init_def)

lemma at_run_inv: "(at_step T I L)\<^sup>*\<^sup>* (at_init w) s \<Longrightarrow> at_inv s"
  by (induction rule: rtranclp_induct) (simp add: at_init_inv, rule at_step_inv)

lemma at_reachable:
  assumes "at_ok T I L" "I w" "\<forall>a. L w a \<le> reserved_balance (at_Currency T) w a"
    "(at_step T I L)\<^sup>*\<^sup>* (at_init w) s"
  shows "at_inv s" "I (at_world s)" "\<And>a. at_total L s a \<le> at_reserved T s a"
    "at_reserved T s a + L w a = reserved_balance (at_Currency T) w a + at_total L s a"
proof -
  have w: "at_world_inv T I L (at_init w)" "backed (at_total L) (at_reserved T) (at_init w)"
    using assms(1-3) at_init_inv [of w]
    by (simp_all add: at_world_inv_def backed_def at_total_def at_init_locked) (simp_all add: at_init_def)
  from ate.run_backed [OF assms(4) w] show "at_inv s" "I (at_world s)" "\<And>a. at_total L s a \<le> at_reserved T s a"
    by (simp_all add: at_world_inv_def backed_def)
  from ate.run_exact [OF assms(4) w, of a] show
    "at_reserved T s a + L w a = reserved_balance (at_Currency T) w a + at_total L s a"
    by (simp add: at_total_def at_init_locked) (simp add: at_init_def at_total_def)
qed

lemma at_deposit_reserved:
  assumes "at_ok T I L" "I w" "\<forall>a. L w a \<le> reserved_balance (at_Currency T) w a"
    "(at_step T I L)\<^sup>*\<^sup>* (at_init w) s" "Attestations s i = Some att" "status att = Pending"
  shows "deposit att \<le> at_reserved T s (attester att)"
proof -
  have "at_owed att (attester att) \<le> at_locked s (attester att)"
    unfolding at_locked_def
    using at_invD(1) [OF at_reachable(1) [OF assms(1-4)] assms(5)] assms(5) by (rule owed_total_item_le)
  also have "\<dots> \<le> at_reserved T s (attester att)"
    using at_reachable(3) [OF assms(1-4), of "attester att"] by (simp add: at_total_def)
  finally show ?thesis using assms(6) by (simp add: at_owed_def)
qed

lemmas at_demo_reach = at_reachable [OF at_demo_ok at_demo_world_ok(1) _ at_demo_steps]

section \<open>Properties\<close>

text \<open>
  C17: Along every run of the attestation pallet, on top of a world whose own reserves are backed,
each account's reserved balance moves by exactly the deposits of its pending attestations and by what
the world below accounts for: a deposit is reserved while the attestation is pending and leaves the
reserve completely when it is confirmed, defended or slashed.\<close>

theorem at_deposits_exact:
  assumes "at_ok T I L" "I w" "\<forall>a. L w a \<le> reserved_balance (at_Currency T) w a"
    "(at_step T I L)\<^sup>*\<^sup>* (at_init w) s"
  shows "at_reserved T s a + L w a =
      reserved_balance (at_Currency T) w a + at_locked s a + L (at_world s) a \<and>
    at_locked s a + L (at_world s) a \<le> at_reserved T s a"
  using at_reachable(3,4) [OF assms, of a] by (simp add: at_total_def)

theorem at_deposits_exact_witness:
  "at_reserved at_demo at_demo_state 5 = 10 ^ 17 \<and> at_locked at_demo_state 5 = 10 ^ 17"
  using at_deposits_exact [OF at_demo_ok at_demo_world_ok(1) _ at_demo_steps, of 5]
  by (simp add: at_demo_world_ok)
    (simp add: at_demo_state_def at_eval at_locked_def owed_total_def at_owed_def)

text \<open>
  C31: The challenge window and the confirmation are exclusive: a pending, unchallenged attestation
can be challenged exactly up to and including the last block of its window, and confirmed exactly in
the blocks after it, by an admin origin; one that has been challenged or closed can be neither.\<close>

theorem at_challenge_or_confirm:
  assumes "Attestations s i = Some att"
  shows "((\<exists>s'. challenge_attestation now (Signed who) i s = Inr s') \<longleftrightarrow>
      status att = Pending \<and> challenger att = None \<and> now \<le> challenge_end att) \<and>
    ((\<exists>s'. confirm_attestation T now orig i s = Inr s') \<longleftrightarrow>
      status att = Pending \<and> challenger att = None \<and> challenge_end att < now \<and> AdminOrigin T orig)"
  using assms by (auto simp: challenge_attestation_def confirm_attestation_def Let_def)

theorem at_challenge_or_confirm_witness:
  "(\<exists>s'. confirm_attestation at_demo 8000 (Signed 7) 1 at_demo_state = Inr s') \<and>
   \<not> (\<exists>s'. confirm_attestation at_demo 8000 (Signed 7) 0 at_demo_state = Inr s')"
proof -
  obtain att0 att1 where a: "Attestations at_demo_state 0 = Some att0" "challenger att0 = Some 8"
      "Attestations at_demo_state 1 = Some att1" "challenger att1 = None" "status att1 = Pending"
      "challenge_end att1 = 7213"
    by (simp add: at_demo_state_def at_eval)
  have "AdminOrigin at_demo (Signed 7)" by (simp add: at_demo_def at_runtime_sel)
  with at_challenge_or_confirm [OF a(1), where now = 8000 and T = at_demo and orig = "Signed 7"]
    at_challenge_or_confirm [OF a(3), where now = 8000 and T = at_demo and orig = "Signed 7"] a
  show ?thesis by simp
qed

text \<open>
  Resolving a challenge against the attester takes exactly the deposit out of the reserve,
burns the slashed part, which is the configured percentage of the deposit rounded to the nearest unit
and never more than the deposit, and gives the rest back as free balance; resolving it in the
attester's favour gives the whole deposit back. No other account's balance changes.\<close>

lemma at_resolve_pays_exactly:
  assumes ok: "at_ok T I L" "I w" "\<forall>a. L w a \<le> reserved_balance (at_Currency T) w a"
      "(at_step T I L)\<^sup>*\<^sup>* (at_init w) s"
    and call: "resolve_challenge T orig i guilty s = Inr s'"
  shows "\<exists>att slash. Attestations s i = Some att \<and> challenger att \<noteq> None \<and> orig = Root \<and>
    slash \<le> deposit att \<and> (\<not> guilty \<longrightarrow> slash = 0) \<and>
    (guilty \<longrightarrow> 100 * slash \<le> min (SlashPercent T) 100 * deposit att + 50 \<and>
       min (SlashPercent T) 100 * deposit att \<le> 100 * slash + 50) \<and>
    at_reserved T s' = (at_reserved T s)(attester att := at_reserved T s (attester att) - deposit att) \<and>
    at_free T s' = (at_free T s)(attester att := at_free T s (attester att) + (deposit att - slash)) \<and>
    (\<exists>st. st \<noteq> Pending \<and> Attestations s' = (Attestations s)(i \<mapsto> att\<lparr>status := st\<rparr>))"
  using call
proof (rule resolve_challenge_Inr)
  fix att
  assume att: "ensure_root orig" "Attestations s i = Some att" "status att = Pending" "challenger att \<noteq> None"
    and g: "guilty \<Longrightarrow> s' = at_deposit_event (AttestationSlashed i (attester att) (slash_part T (deposit att)))
      (s\<lparr>at_world := fst (unreserve (at_Currency T) (attester att)
            (saturating_sub (deposit att) (slash_part T (deposit att)))
            (fst (slash_reserved (at_Currency T) (attester att) (slash_part T (deposit att)) (at_world s)))),
         Attestations := (Attestations s)(i \<mapsto> att\<lparr>status := Slashed\<rparr>)\<rparr>)"
    and n: "\<not> guilty \<Longrightarrow> s' = at_deposit_event (AttestationDefended i)
      (s\<lparr>at_world := fst (unreserve (at_Currency T) (attester att) (deposit att) (at_world s)),
         Attestations := (Attestations s)(i \<mapsto> att\<lparr>status := Defended\<rparr>)\<rparr>)"
  have root: "orig = Root" using att(1) by (cases orig) (simp_all add: ensure_root_def)
  have le: "deposit att \<le> at_reserved T s (attester att)" by (rule at_deposit_reserved [OF ok att(2,3)])
  have w: "I (at_world s)" by (rule at_reachable(2) [OF ok])
  show ?thesis
  proof (cases guilty)
    case True
    let ?sl = "slash_part T (deposit att)"
    have "100 * ?sl \<le> min (SlashPercent T) 100 * deposit att + 50 \<and>
        min (SlashPercent T) 100 * deposit att \<le> 100 * ?sl + 50"
      using perthing.pmul_lower [OF at_okD(3) [OF ok(1)], of 1000000000 "min (SlashPercent T) 100 * 10000000" "deposit att"]
        perthing.pmul_upper [OF at_okD(3) [OF ok(1)], of 1000000000 "min (SlashPercent T) 100 * 10000000" "deposit att"]
      by (simp add: slash_part_def perthing.from_percent_law [OF at_okD(3) [OF ok(1)]])
    moreover have "at_reserved T s' = (at_reserved T s)(attester att := at_reserved T s (attester att) - deposit att)"
      "at_free T s' = (at_free T s)(attester att := at_free T s (attester att) + (deposit att - ?sl))"
      using resolve_world(3,4) [OF ok(1) w, of "at_world s'" "attester att" "deposit att"] le
      by (simp_all add: g [OF True] fun_eq_iff)
    ultimately show ?thesis
      using att root slash_part_le [OF at_okD(3) [OF ok(1)], of "deposit att"] True
      by (intro exI [of _ att] exI [of _ ?sl] conjI exI [of _ Slashed]) (simp_all add: g [OF True])
  next
    case False
    have "at_reserved T s' = (at_reserved T s)(attester att := at_reserved T s (attester att) - deposit att)"
      "at_free T s' = (at_free T s)(attester att := at_free T s (attester att) + (deposit att - 0))"
      using le
      by (simp_all add: n [OF False] fun_eq_iff reservable_currency.unreserve_reserved [OF at_okD(2) [OF ok(1)]]
          reservable_currency.unreserve_free [OF at_okD(2) [OF ok(1)]])
    with att root False show ?thesis
      by (intro exI [of _ att] exI [of _ "0 :: nat"] conjI exI [of _ Defended]) (simp_all add: n [OF False])
  qed
qed

lemma at_resolve_pays_exactly_witness:
  "\<exists>s'. resolve_challenge at_demo Root 0 True at_demo_state = Inr s' \<and>
     at_reserved at_demo s' 5 = 0 \<and> at_free at_demo s' 5 = 10 ^ 18 - 5 * 10 ^ 16"
proof -
  let ?c = "resolve_challenge at_demo Root 0 True at_demo_state"
  have c: "?c = Inr (projr ?c)" by (simp add: at_demo_state_def at_eval)
  have d: "\<And>att. Attestations at_demo_state 0 = Some att \<Longrightarrow> attester att = 5 \<and> deposit att = 10 ^ 17"
    "at_reserved at_demo at_demo_state 5 = 10 ^ 17" "at_free at_demo at_demo_state 5 = 10 ^ 18 - 10 ^ 17"
    "SlashPercent at_demo = 50"
    by (auto simp: at_demo_state_def at_eval)
  from at_resolve_pays_exactly [OF at_demo_ok at_demo_world_ok(1) _ at_demo_steps c]
  obtain att slash where "Attestations at_demo_state 0 = Some att"
    "100 * slash \<le> 50 * deposit att + 50" "50 * deposit att \<le> 100 * slash + 50"
    "at_reserved at_demo (projr ?c) =
      (at_reserved at_demo at_demo_state)(attester att := at_reserved at_demo at_demo_state (attester att) - deposit att)"
    "at_free at_demo (projr ?c) =
      (at_free at_demo at_demo_state)(attester att := at_free at_demo at_demo_state (attester att) + (deposit att - slash))"
    by (auto simp: at_demo_world_ok d(4))
  with d have "at_reserved at_demo (projr ?c) 5 = 0 \<and> at_free at_demo (projr ?c) 5 = 10 ^ 18 - 5 * 10 ^ 16"
    by auto
  with c show ?thesis by blast
qed

text \<open>
  Confirming an attestation returns exactly its deposit to the attester's free balance and
changes no other balance: the settlement it triggers pays the attester from the attester, so it moves
no money whether it succeeds or not.\<close>

lemma at_confirm_returns_deposit:
  assumes ok: "at_ok T I L" "I w" "\<forall>a. L w a \<le> reserved_balance (at_Currency T) w a"
      "(at_step T I L)\<^sup>*\<^sup>* (at_init w) s"
    and call: "confirm_attestation T now orig i s = Inr s'"
  shows "\<exists>att. Attestations s i = Some att \<and>
    at_reserved T s' = (at_reserved T s)(attester att := at_reserved T s (attester att) - deposit att) \<and>
    at_free T s' = (at_free T s)(attester att := at_free T s (attester att) + deposit att) \<and>
    Attestations s' = (Attestations s)(i \<mapsto> att\<lparr>status := Confirmed\<rparr>)"
  using call
proof (rule confirm_attestation_Inr)
  fix att w1
  assume att: "Attestations s i = Some att" "status att = Pending"
    and w1: "w1 = fst (unreserve (at_Currency T) (attester att) (deposit att) (at_world s))"
    and s': "s' = at_deposit_event (AttestationConfirmed i)
      (s\<lparr>at_world := fst (OnAttestationConfirmed T now (attester att) (attester att) (deposit att) i w1),
         Attestations := (Attestations s)(i \<mapsto> att\<lparr>status := Confirmed\<rparr>)\<rparr>)"
  have "deposit att \<le> at_reserved T s (attester att)" by (rule at_deposit_reserved [OF ok att])
  with confirm_world(3,4) [OF ok(1) at_reachable(2) [OF ok], of "at_world s'" now "attester att" "deposit att" i]
    att show ?thesis by (auto simp: s' w1 fun_eq_iff)
qed

lemma at_confirm_returns_deposit_witness:
  "\<exists>s'. confirm_attestation at_demo 8000 (Signed 7) 1 at_demo_state = Inr s' \<and>
     at_reserved at_demo s' 6 = 0 \<and> at_free at_demo s' 6 = 10 ^ 18"
proof -
  let ?c = "confirm_attestation at_demo 8000 (Signed 7) 1 at_demo_state"
  have c: "?c = Inr (projr ?c)" by (simp add: at_demo_state_def at_eval)
  have d: "\<And>att. Attestations at_demo_state 1 = Some att \<Longrightarrow> attester att = 6 \<and> deposit att = 10 ^ 17"
    "at_reserved at_demo at_demo_state 6 = 10 ^ 17" "at_free at_demo at_demo_state 6 = 10 ^ 18 - 10 ^ 17"
    by (auto simp: at_demo_state_def at_eval)
  from at_confirm_returns_deposit [OF at_demo_ok at_demo_world_ok(1) _ at_demo_steps c] d c
  show ?thesis by (auto simp: at_demo_world_ok)
qed

text \<open>
  An attestation never disappears and keeps everything but its status and challenger; once it
leaves the pending status nothing about it changes; and once it has a challenger it keeps that
challenger and can never become confirmed.\<close>

lemma at_attestation_lifecycle:
  assumes "(at_step T I L)\<^sup>*\<^sup>* (at_init w) s" "(at_step T I L)\<^sup>*\<^sup>* s s'" "Attestations s i = Some att"
  shows "\<exists>att'. Attestations s' i = Some att' \<and>
    att' = att\<lparr>status := status att', challenger := challenger att'\<rparr> \<and>
    (status att \<noteq> Pending \<longrightarrow> att' = att) \<and>
    (challenger att \<noteq> None \<longrightarrow> challenger att' = challenger att \<and> status att' \<noteq> Confirmed)"
proof -
  have "at_inv s" by (rule at_run_inv [OF assms(1)])
  from at_run_later [OF assms(2) this assms(3)] show ?thesis
    unfolding later_attestation_def same_attestation_def by blast
qed

lemma at_attestation_lifecycle_witness:
  "\<exists>s' att'. resolve_challenge at_demo Root 0 False at_demo_state = Inr s' \<and>
     Attestations s' 0 = Some att' \<and> challenger att' = Some 8 \<and> attester att' = 5 \<and> status att' \<noteq> Confirmed"
proof -
  let ?c = "resolve_challenge at_demo Root 0 False at_demo_state"
  have c: "?c = Inr (projr ?c)" by (simp add: at_demo_state_def at_eval)
  have st: "(at_step at_demo x4_inv x4_locked)\<^sup>*\<^sup>* at_demo_state (projr ?c)"
    using at_step.call [of at_demo 0 Root "ResolveChallenge 0 False" at_demo_state "projr ?c"] c by auto
  obtain att where att: "Attestations at_demo_state 0 = Some att" "attester att = 5" "challenger att = Some 8"
    by (simp add: at_demo_state_def at_eval)
  from at_attestation_lifecycle [OF at_demo_steps st att(1)] obtain att' where
    a: "Attestations (projr ?c) 0 = Some att'" "att' = att\<lparr>status := status att', challenger := challenger att'\<rparr>"
      "challenger att' = Some 8" "status att' \<noteq> Confirmed" using att by auto
  from a(2) have "attester att' = attester att" by (metis attestation.select_convs(2) attestation.surjective attestation.update_convs(9,12))
  with a(1,3,4) att(2) c show ?thesis by (intro exI [of _ "projr ?c"] exI [of _ att'] conjI) simp_all
qed

text \<open>
  C32: The provider index always agrees with the published capabilities: looking up a model, with
the storage iteration listing the entries of the map, returns without repetition exactly the accounts
whose current capability lists the model; all of them are registered nodes. The activity flag that the
lookup filters on is set for every node ever registered, so nobody is filtered out.\<close>

theorem at_providers_correct:
  assumes "(at_step T I L)\<^sup>*\<^sup>* (at_init w) s"
    and "distinct (map fst (iter (ModelProviders s mid)))"
    and "set (iter (ModelProviders s mid)) = {(a, v). ModelProviders s mid a = Some v}"
  shows "set (get_providers_for_model iter mid s) =
      {a. \<exists>c. AgentCapabilities s a = Some c \<and> mid \<in> set (model_ids c)} \<and>
    distinct (get_providers_for_model iter mid s) \<and>
    (\<forall>a n. Nodes s a = Some n \<longrightarrow> is_active n)"
proof -
  have inv: "at_inv s" by (rule at_run_inv [OF assms(1)])
  have p: "ModelProviders s mid a = Some v \<longleftrightarrow> v \<and> mid \<in> served s a" for a v
    using inv by (auto simp: at_inv_def)
  have n: "\<exists>n. Nodes s a = Some n \<and> is_active n" if "mid \<in> served s a" for a
    using inv that by (fastforce simp: at_inv_def served_def split: option.splits)
  have "set (get_providers_for_model iter mid s) = {a. mid \<in> served s a}"
  proof (rule set_eqI)
    fix a
    have "a \<in> set (get_providers_for_model iter mid s) \<longleftrightarrow>
        (\<exists>v. ModelProviders s mid a = Some v \<and> (case Nodes s a of None \<Rightarrow> False | Some n \<Rightarrow> is_active n))"
      by (auto simp: get_providers_for_model_def assms(3) image_iff)
    also have "\<dots> \<longleftrightarrow> mid \<in> served s a" using n [of a] by (auto simp: p split: option.splits)
    finally show "a \<in> set (get_providers_for_model iter mid s) \<longleftrightarrow> a \<in> {a. mid \<in> served s a}" by simp
  qed
  moreover have "{a. mid \<in> served s a} = {a. \<exists>c. AgentCapabilities s a = Some c \<and> mid \<in> set (model_ids c)}"
    by (auto simp: served_def split: option.splits)
  moreover have "distinct (get_providers_for_model iter mid s)"
    using assms(2) unfolding get_providers_for_model_def by (rule distinct_map_filter)
  ultimately show ?thesis using inv by (simp add: at_inv_def)
qed

theorem at_providers_correct_witness:
  "set (get_providers_for_model (\<lambda>m. case m 5 of None \<Rightarrow> [] | Some v \<Rightarrow> [(5, v)]) [7] at_demo_state) =
     {a. \<exists>c. AgentCapabilities at_demo_state a = Some c \<and> [7] \<in> set (model_ids c)}"
proof -
  have m: "ModelProviders at_demo_state [7] = [5 \<mapsto> True]"
    by (simp add: at_demo_state_def at_eval)
  then have "{(a, v). ModelProviders at_demo_state [7] a = Some v} = {(5, True)}"
    by (auto split: if_splits)
  then show ?thesis
    using at_providers_correct [OF at_demo_steps,
        of "\<lambda>m. case m 5 of None \<Rightarrow> [] | Some v \<Rightarrow> [(5, v)]" "[7]"] m
    by simp
qed

text \<open>
  Every attestation counts towards its attester and task, so \<open>submit_attestation\<close> refuses a
second attestation for the same pair; but the completion handler does not consult the count, and with
a free deposit and identifier it creates a second pending attestation for the same pair.\<close>

lemma at_duplicate_guard:
  assumes "(at_step T I L)\<^sup>*\<^sup>* (at_init w) s" "Attestations s i = Some att" "Nodes s (attester att) \<noteq> None"
    and "NextAttestationId s + 1 < 2 ^ 64" "length mid \<le> MaxModelIdLen T"
    and "reserve (at_Currency T) (attester att) (AttestationDeposit T) (at_world s) = Some w'"
  shows "submit_attestation T now (Signed (attester att)) (task_id att) h mid it ot s = Inl DuplicateAttestation \<and>
    (\<exists>s' att'. on_task_completed T now (attester att) (task_id att) h mid it ot s = (s', Inr (NextAttestationId s)) \<and>
       Attestations s' (NextAttestationId s) = Some att' \<and> i \<noteq> NextAttestationId s \<and>
       Attestations s' i = Some att \<and> status att' = Pending \<and>
       attester att' = attester att \<and> task_id att' = task_id att)"
proof -
  have inv: "at_inv s" by (rule at_run_inv [OF assms(1)])
  have i: "i < NextAttestationId s" by (rule at_invD(1) [OF inv assms(2)])
  have "task_tally (task_id att) att (attester att) \<le> attested s (attester att) (task_id att)"
    unfolding attested_def using i assms(2) by (rule owed_total_item_le)
  then have "AttesterTaskCount s (attester att) (task_id att) \<noteq> 0"
    using inv by (auto simp: at_inv_def task_tally_def)
  then show ?thesis
    using assms i
    by (auto simp: submit_attestation_def on_task_completed_def Let_def checked_add_def new_attestation_def)
qed

lemma at_duplicate_guard_witness:
  "submit_attestation at_demo 20 (Signed 5) 3 [9] [7] 1 2 at_demo_state = Inl DuplicateAttestation \<and>
   (\<exists>s'. on_task_completed at_demo 20 5 3 [9] [7] 1 2 at_demo_state = (s', Inr 2))"
proof -
  have n: "Nodes at_demo_state 5 \<noteq> None" "NextAttestationId at_demo_state = 2" "MaxModelIdLen at_demo = 256"
    "reserve (at_Currency at_demo) 5 (AttestationDeposit at_demo) (at_world at_demo_state) \<noteq> None"
    by (simp_all add: at_demo_state_def at_eval)
  obtain att w' where "Attestations at_demo_state 0 = Some att" "attester att = 5" "task_id att = 3"
    "reserve (at_Currency at_demo) 5 (AttestationDeposit at_demo) (at_world at_demo_state) = Some w'"
    using n(4) by (auto simp: at_demo_state_def at_eval)
  with n show ?thesis
    using at_duplicate_guard [OF at_demo_steps, of 0 att "[7]" w' 20 "[9]" 1 2] by auto
qed

end
