(* ===== verification/Compute_Pool.thy ===== *)
theory Compute_Pool
  imports Agent_Attestation
begin

text \<open>
  The scheduler pallet \<open>pallets/compute-pool-scheduler/src/lib.rs\<close>. Pool owners register compute
  pools under a deposit, users submit tasks whose price and deposit are reserved, the best pool is
  selected by a score, the owner submits a proof, somebody else verifies it (or it is approved after a
  timeout), and the reward is claimed or the escrow released and the pool slashed. Completed tasks are
  reported to the attestation pallet through \<open>TaskCompletionHandler\<close>. The order in which storage maps
  are iterated is a parameter.
\<close>

section \<open>Data\<close>

datatype pool_status = Active | Inactive | Deregistered

datatype task_priority = Low | Normal | High | Critical

datatype task_status =
    Pending | Assigned | Computing | ProofSubmitted | Verifying | Completed | Failed

record task_dimensions =
  dim_m :: nat
  dim_n :: nat
  dim_k :: nat

record pool_score =
  reputation_score :: nat
  success_rate_score :: nat
  price_score :: nat
  nvlink_score :: nat
  final_score :: nat

definition default_score :: pool_score where
  "default_score =
     \<lparr>reputation_score = 0, success_rate_score = 0, price_score = 0, nvlink_score = 0, final_score = 0\<rparr>"

record compute_pool =
  pool_id :: nat
  owner :: account
  gpu_model :: bytes
  gpu_memory :: nat
  has_nvlink :: bool
  nvlink_efficiency :: nat
  price_per_task :: balance
  reputation :: nat
  success_rate :: nat
  total_tasks :: nat
  completed_tasks :: nat
  failed_tasks :: nat
  pool_state :: pool_status
  deposit_held :: balance
  score :: pool_score

record compute_task =
  ctask_id :: nat
  user :: account
  task_pool :: nat
  dimensions :: task_dimensions
  priority :: task_priority
  task_state :: task_status
  task_submitted_at :: block_number
  proof_hash :: "bytes option"
  verification_result :: "bool option"
  reward_amount :: "balance option"
  disputed :: bool

record reputation_info =
  rep_reputation :: nat
  rep_total_tasks :: nat
  rep_successful_tasks :: nat
  rep_failed_tasks :: nat

definition default_reputation :: reputation_info where
  "default_reputation =
     \<lparr>rep_reputation = 80, rep_total_tasks = 0, rep_successful_tasks = 0, rep_failed_tasks = 0\<rparr>"

record task_escrow =
  escrow_user :: account
  escrow_pool_owner :: account
  escrow_reward :: balance
  escrow_deposit :: balance
  claimed :: bool

datatype cp_error =
    BadOrigin
  | PoolAlreadyExists
  | PoolNotFound
  | NotPoolOwner
  | PoolInactive
  | InvalidNvlinkEfficiency
  | InvalidDimensions
  | TaskNotFound
  | NoAvailablePool
  | InvalidTaskState
  | NotTaskUser
  | NotAssignedPoolOwner
  | InvalidProof
  | RewardNotAvailable
  | RewardAlreadyClaimed
  | TaskExpired
  | DisputeNotAllowed
  | TooManyActiveTasks
  | ActiveTasksExist
  | InsufficientBalance
  | ArithmeticOverflow
  | InsufficientStake
  | StakeNotFound
  | DisputeAlreadyFiled
  | SelfVerificationNotAllowed
  | ProofNotSubmitted
  | ArithmeticError_Overflow

datatype cp_event =
    PoolRegistered nat account
  | PoolConfigUpdated nat
  | PoolDeregistered nat account
  | TaskSubmitted nat account
  | TaskAssigned nat nat nat
  | TaskStatusChanged nat task_status
  | ProofSubmitted_ev nat nat
  | ProofVerified nat bool
  | RewardAvailable nat balance
  | RewardClaimed nat account balance
  | VerificationDisputed nat account
  | TaskTimedOut nat
  | PoolSlashed nat balance
  | Staked account nat balance
  | Unstaked account nat balance
  | StakeSlashed nat balance

record 'w cp_config =
  cp_Currency :: "'w currency_ops"
  PoolDeposit :: balance
  TaskDeposit :: balance
  FailureSlash :: balance
  TaskTimeout :: block_number
  MinPoolStake :: balance
  StakeSlashPercent :: nat
  MaxTasksPerPool :: nat
  InitialReputation :: nat
  VerificationTimeout :: block_number
  OnTaskCompleted :: "'w completion_fn"
  iter_Pools :: "(nat \<Rightarrow> compute_pool option) \<Rightarrow> (nat \<times> compute_pool) list"
  iter_PoolTasks :: "(nat \<Rightarrow> nat list) \<Rightarrow> (nat \<times> nat list) list"

record 'w cp_state =
  NextPoolId :: nat
  NextTaskId :: nat
  Pools :: "nat \<Rightarrow> compute_pool option"
  PoolByOwner :: "account \<Rightarrow> nat option"
  Tasks :: "nat \<Rightarrow> compute_task option"
  PoolTasks :: "nat \<Rightarrow> nat list"
  ActiveTaskCount :: "nat \<Rightarrow> nat"
  MinerReputation :: "account \<Rightarrow> reputation_info"
  Rewards :: "nat \<Rightarrow> balance option"
  TaskEscrowStore :: "nat \<Rightarrow> task_escrow option"
  PoolStakes :: "nat \<Rightarrow> account \<Rightarrow> balance"
  TotalPoolStake :: "nat \<Rightarrow> balance"
  ProofSubmittedAt :: "nat \<Rightarrow> block_number option"
  cp_events :: "cp_event list"
  cp_world :: 'w

definition cp_deposit_event :: "cp_event \<Rightarrow> 'w cp_state \<Rightarrow> 'w cp_state" where
  "cp_deposit_event e s = s\<lparr>cp_events := cp_events s @ [e]\<rparr>"

text \<open>
  A helper that may stop with an error after it has written to storage returns the storage it leaves
  and the error, if any: a dispatchable discards the storage then, the block hook keeps it.
\<close>

type_synonym 'w cp_res = "'w cp_state \<times> cp_error option"

section \<open>Pure helpers\<close>

definition ensure_nvlink :: "bool \<Rightarrow> nat \<Rightarrow> bool" where
  "ensure_nvlink nv eff = (if nv then 120 \<le> eff \<and> eff \<le> 150 else eff = 100)"

definition is_terminal :: "task_status \<Rightarrow> bool" where
  "is_terminal st \<longleftrightarrow> st = Completed \<or> st = Failed"

definition calculate_reward ::
    "task_dimensions \<Rightarrow> balance \<Rightarrow> bool \<Rightarrow> nat \<Rightarrow> cp_error + balance" where
  "calculate_reward dims price nv eff =
     (case checked_mul 128 (dim_m dims) (dim_n dims) of None \<Rightarrow> Inl ArithmeticError_Overflow
      | Some x \<Rightarrow>
      case checked_mul 128 x (dim_k dims) of None \<Rightarrow> Inl ArithmeticError_Overflow
      | Some complexity \<Rightarrow>
      let complexity_factor = max 1 (complexity div 1000000);
          base_price = saturated_into 128 price
      in case checked_mul 128 base_price complexity_factor of None \<Rightarrow> Inl ArithmeticError_Overflow
      | Some reward \<Rightarrow>
      if nv
      then (case checked_mul 128 reward eff of None \<Rightarrow> Inl ArithmeticError_Overflow
            | Some r \<Rightarrow> Inr (saturated_into 128 (r div 100)))
      else Inr (saturated_into 128 reward))"

definition calculate_pool_score :: "compute_pool \<Rightarrow> nat \<Rightarrow> nat \<Rightarrow> pool_score" where
  "calculate_pool_score pool min_price max_price =
     (let rep = min (reputation pool) 100;
          succ_rate = min (success_rate pool) 100;
          price = saturated_into 128 (price_per_task pool);
          normalized_price_score =
            (if max_price = min_price then 100
             else let spread = saturating_sub max_price min_price;
                      delta = saturating_sub price min_price
                  in saturating_sub 100 (saturating_mul 128 delta 100 div spread) mod 2 ^ 32);
          nv = (if has_nvlink pool then saturating_mul 32 (min (nvlink_efficiency pool) 150) 100 div 150
                else 0);
          reputation_component = saturating_mul 32 rep 40;
          success_component = saturating_mul 32 succ_rate 30;
          price_component = saturating_mul 32 normalized_price_score 20;
          nvlink_component = saturating_mul 32 nv 10;
          final = saturating_add 32 (saturating_add 32 (saturating_add 32 reputation_component
                    success_component) price_component) nvlink_component
      in \<lparr>reputation_score = reputation_component, success_rate_score = success_component,
          price_score = price_component, nvlink_score = nvlink_component, final_score = final\<rparr>)"

section \<open>Pool selection\<close>

definition eligible :: "'w cp_config \<Rightarrow> 'w cp_state \<Rightarrow> nat \<Rightarrow> nat \<times> compute_pool \<Rightarrow> bool" where
  "eligible T s k c \<longleftrightarrow>
     pool_state (snd c) = Active \<and> \<not> ActiveTaskCount s (fst c) \<ge> MaxTasksPerPool T \<and>
     \<not> gpu_memory (snd c) < k"

definition widen :: "nat \<times> compute_pool \<Rightarrow> nat \<times> nat \<Rightarrow> nat \<times> nat" where
  "widen c b =
     (let p = saturated_into 128 (price_per_task (snd c))
      in (if p < fst b then p else fst b, if p > snd b then p else snd b))"

definition price_bounds :: "(nat \<times> compute_pool) list \<Rightarrow> nat \<times> nat" where
  "price_bounds cs = fold widen cs (2 ^ 128 - 1, 0)"

definition better ::
    "nat \<Rightarrow> nat \<Rightarrow> nat \<times> compute_pool \<Rightarrow> (nat \<times> pool_score) option \<Rightarrow> (nat \<times> pool_score) option" where
  "better min_price max_price c best =
     (let sc = calculate_pool_score (snd c) min_price max_price
      in case best of
           Some (_, current) \<Rightarrow> if final_score current \<ge> final_score sc then best else Some (fst c, sc)
         | None \<Rightarrow> Some (fst c, sc))"

definition pick_best ::
    "nat \<Rightarrow> nat \<Rightarrow> (nat \<times> compute_pool) list \<Rightarrow> (nat \<times> pool_score) option" where
  "pick_best min_price max_price cs = fold (better min_price max_price) cs None"

definition set_pool_score :: "nat \<Rightarrow> pool_score \<Rightarrow> 'w cp_state \<Rightarrow> 'w cp_state" where
  "set_pool_score pid sc s =
     (case Pools s pid of None \<Rightarrow> s
      | Some pool \<Rightarrow> s\<lparr>Pools := (Pools s)(pid \<mapsto> pool\<lparr>score := sc\<rparr>)\<rparr>)"

definition select_best_pool_for_task ::
    "'w cp_config \<Rightarrow> compute_task \<Rightarrow> 'w cp_state \<Rightarrow> cp_error + ('w cp_state \<times> nat \<times> pool_score)" where
  "select_best_pool_for_task T task s =
     (let candidates = filter (eligible T s (dim_k (dimensions task))) (take 50 (iter_Pools T (Pools s))) in
      if candidates = [] then Inl NoAvailablePool
      else case price_bounds candidates of (min_price, max_price) \<Rightarrow>
      case pick_best min_price max_price candidates of None \<Rightarrow> Inl NoAvailablePool
      | Some (selected_pool, selected_score) \<Rightarrow>
      Inr (set_pool_score selected_pool selected_score s, selected_pool, selected_score))"

section \<open>State helpers\<close>

definition decrement_pool_activity :: "nat \<Rightarrow> nat \<Rightarrow> 'w cp_state \<Rightarrow> 'w cp_state" where
  "decrement_pool_activity pid tid s =
     s\<lparr>ActiveTaskCount := (ActiveTaskCount s)(pid := saturating_sub (ActiveTaskCount s pid) 1),
       PoolTasks := (PoolTasks s)(pid := filter (\<lambda>i. i \<noteq> tid) (PoolTasks s pid))\<rparr>"

definition updated_pool :: "bool \<Rightarrow> compute_pool \<Rightarrow> compute_pool" where
  "updated_pool success pool =
     (let pool = pool\<lparr>total_tasks := saturating_add 32 (total_tasks pool) 1\<rparr>;
          pool = (if success
                  then pool\<lparr>completed_tasks := saturating_add 32 (completed_tasks pool) 1\<rparr>
                  else pool\<lparr>failed_tasks := saturating_add 32 (failed_tasks pool) 1\<rparr>);
          pool = (if total_tasks pool > 0
                  then pool\<lparr>success_rate :=
                    min (saturating_mul 32 (completed_tasks pool) 100 div total_tasks pool) 100\<rparr>
                  else pool)
      in pool\<lparr>reputation := if success then min (saturating_add 32 (reputation pool) 1) 100
                           else saturating_sub (reputation pool) 2\<rparr>)"

definition updated_miner :: "bool \<Rightarrow> reputation_info \<Rightarrow> reputation_info" where
  "updated_miner success rep =
     (let rep = rep\<lparr>rep_total_tasks := saturating_add 32 (rep_total_tasks rep) 1\<rparr> in
      if success
      then rep\<lparr>rep_successful_tasks := saturating_add 32 (rep_successful_tasks rep) 1,
               rep_reputation := min (saturating_add 32 (rep_reputation rep) 1) 100\<rparr>
      else rep\<lparr>rep_failed_tasks := saturating_add 32 (rep_failed_tasks rep) 1,
               rep_reputation := saturating_sub (rep_reputation rep) 2\<rparr>)"

definition update_reputation :: "nat \<Rightarrow> bool \<Rightarrow> 'w cp_state \<Rightarrow> 'w cp_state" where
  "update_reputation pid success s =
     (case Pools s pid of None \<Rightarrow> s
      | Some pool \<Rightarrow>
          s\<lparr>Pools := (Pools s)(pid \<mapsto> updated_pool success pool),
            MinerReputation := (MinerReputation s)
              (owner pool := updated_miner success (MinerReputation s (owner pool)))\<rparr>)"

definition release_escrow :: "'w cp_config \<Rightarrow> nat \<Rightarrow> 'w cp_state \<Rightarrow> 'w cp_state" where
  "release_escrow T tid s =
     (let s1 = s\<lparr>Rewards := (Rewards s)(tid := None)\<rparr> in
      case TaskEscrowStore s1 tid of None \<Rightarrow> s1
      | Some escrow \<Rightarrow>
          let s2 = s1\<lparr>TaskEscrowStore := (TaskEscrowStore s1)(tid := None)\<rparr>;
              tot = saturating_add 128 (escrow_reward escrow) (escrow_deposit escrow)
          in s2\<lparr>cp_world := fst (unreserve (cp_Currency T) (escrow_user escrow) tot (cp_world s2))\<rparr>)"

definition slash_pool :: "'w cp_config \<Rightarrow> nat \<Rightarrow> 'w cp_state \<Rightarrow> 'w cp_res" where
  "slash_pool T pid s =
     (case Pools s pid of None \<Rightarrow> (s, Some PoolNotFound)
      | Some pool \<Rightarrow>
      if deposit_held pool = 0 then (s, None)
      else
        let slash_amount = (if deposit_held pool > FailureSlash T then FailureSlash T
                            else deposit_held pool)
        in case slash_reserved (cp_Currency T) (owner pool) slash_amount (cp_world s) of
             (w, unslashed) \<Rightarrow>
        let actual_slashed = saturating_sub slash_amount unslashed;
            s1 = s\<lparr>cp_world := w,
                   Pools := (Pools s)(pid \<mapsto>
                     pool\<lparr>deposit_held := saturating_sub (deposit_held pool) actual_slashed\<rparr>)\<rparr>
        in (if actual_slashed \<noteq> 0 then cp_deposit_event (PoolSlashed pid actual_slashed) s1 else s1, None))"

definition finalize_verification ::
    "'w cp_config \<Rightarrow> block_number \<Rightarrow> nat \<Rightarrow> nat \<Rightarrow> bool \<Rightarrow> 'w cp_state \<Rightarrow> 'w cp_res" where
  "finalize_verification T now tid pid res s =
     (case Tasks s tid of None \<Rightarrow> (s, Some ProofNotSubmitted)
      | Some t \<Rightarrow>
      case proof_hash t of None \<Rightarrow> (s, Some ProofNotSubmitted)
      | Some ph \<Rightarrow>
      let t1 = t\<lparr>task_state := Verifying\<rparr>;
          s1 = cp_deposit_event (TaskStatusChanged tid Verifying) (s\<lparr>Tasks := (Tasks s)(tid \<mapsto> t1)\<rparr>);
          st = (if res then Completed else Failed);
          t2 = t1\<lparr>verification_result := Some res, task_state := st\<rparr>;
          s2 = cp_deposit_event (TaskStatusChanged tid st) (cp_deposit_event (ProofVerified tid res)
                 (s1\<lparr>Tasks := (Tasks s1)(tid \<mapsto> t2)\<rparr>));
          s3 = update_reputation pid res (decrement_pool_activity pid tid s2);
          s4 = s3\<lparr>ProofSubmittedAt := (ProofSubmittedAt s3)(tid := None)\<rparr>
      in if res
         then
           let s5 = (case reward_amount t2 of None \<Rightarrow> s4
                     | Some r \<Rightarrow> cp_deposit_event (RewardAvailable tid r)
                         (s4\<lparr>Rewards := (Rewards s4)(tid \<mapsto> r)\<rparr>))
           in (case Pools s5 (task_pool t2) of None \<Rightarrow> (s5, Some PoolNotFound)
               | Some pool \<Rightarrow>
                   (s5\<lparr>cp_world := fst (OnTaskCompleted T now (owner pool) tid ph [] 0 0 (cp_world s5))\<rparr>,
                    None))
         else slash_pool T pid (release_escrow T tid s4))"

definition mark_task_failed :: "'w cp_config \<Rightarrow> nat \<Rightarrow> bool \<Rightarrow> 'w cp_state \<Rightarrow> 'w cp_res" where
  "mark_task_failed T tid timed_out s =
     (case Tasks s tid of None \<Rightarrow> (s, Some TaskNotFound)
      | Some t \<Rightarrow>
      if is_terminal (task_state t) then (s, None)
      else
        let s1 = s\<lparr>Tasks := (Tasks s)(tid \<mapsto> t\<lparr>task_state := Failed, verification_result := Some False\<rparr>)\<rparr>;
            s2 = update_reputation (task_pool t) False (decrement_pool_activity (task_pool t) tid s1);
            s3 = s2\<lparr>ProofSubmittedAt := (ProofSubmittedAt s2)(tid := None)\<rparr>
        in case slash_pool T (task_pool t) (release_escrow T tid s3) of
             (s4, Some e) \<Rightarrow> (s4, Some e)
           | (s4, None) \<Rightarrow>
               let s5 = (if timed_out then cp_deposit_event (TaskTimedOut tid) s4 else s4)
               in (cp_deposit_event (TaskStatusChanged tid Failed) s5, None))"

section \<open>Pools\<close>

definition new_pool ::
    "'w cp_config \<Rightarrow> nat \<Rightarrow> account \<Rightarrow> bytes \<Rightarrow> nat \<Rightarrow> bool \<Rightarrow> nat \<Rightarrow> balance \<Rightarrow> compute_pool" where
  "new_pool T pid who model mem nv eff price =
     \<lparr>pool_id = pid, owner = who, gpu_model = model, gpu_memory = mem, has_nvlink = nv,
      nvlink_efficiency = eff, price_per_task = price, reputation = min (InitialReputation T) 100,
      success_rate = 100, total_tasks = 0, completed_tasks = 0, failed_tasks = 0, pool_state = Active,
      deposit_held = PoolDeposit T, score = default_score\<rparr>"

definition register_pool ::
    "'w cp_config \<Rightarrow> origin \<Rightarrow> bytes \<Rightarrow> nat \<Rightarrow> bool \<Rightarrow> nat \<Rightarrow> balance \<Rightarrow> 'w cp_state \<Rightarrow>
     cp_error + 'w cp_state" where
  "register_pool T orig model mem nv eff price s =
     (case ensure_signed orig of None \<Rightarrow> Inl BadOrigin
      | Some who \<Rightarrow>
      if PoolByOwner s who \<noteq> None then Inl PoolAlreadyExists
      else if \<not> mem > 0 then Inl InvalidDimensions
      else if price = 0 then Inl InsufficientBalance
      else if \<not> ensure_nvlink nv eff then Inl InvalidNvlinkEfficiency
      else (case reserve (cp_Currency T) who (PoolDeposit T) (cp_world s) of
        None \<Rightarrow> Inl InsufficientBalance
      | Some w \<Rightarrow>
      let pid = NextPoolId s;
          s1 = s\<lparr>cp_world := w,
                 Pools := (Pools s)(pid \<mapsto> new_pool T pid who model mem nv eff price),
                 PoolByOwner := (PoolByOwner s)(who \<mapsto> pid),
                 MinerReputation := (MinerReputation s)(who :=
                   \<lparr>rep_reputation = min (InitialReputation T) 100, rep_total_tasks = 0,
                    rep_successful_tasks = 0, rep_failed_tasks = 0\<rparr>),
                 ActiveTaskCount := (ActiveTaskCount s)(pid := 0)\<rparr>
      in (case checked_add 64 pid 1 of None \<Rightarrow> Inl ArithmeticOverflow
          | Some next_pool_id \<Rightarrow>
              Inr (cp_deposit_event (PoolRegistered pid who) (s1\<lparr>NextPoolId := next_pool_id\<rparr>)))))"

definition update_pool_config ::
    "origin \<Rightarrow> nat \<Rightarrow> bytes \<Rightarrow> nat \<Rightarrow> bool \<Rightarrow> nat \<Rightarrow> balance \<Rightarrow> 'w cp_state \<Rightarrow> cp_error + 'w cp_state" where
  "update_pool_config orig pid model mem nv eff price s =
     (case ensure_signed orig of None \<Rightarrow> Inl BadOrigin
      | Some sender \<Rightarrow>
      if \<not> mem > 0 then Inl InvalidDimensions
      else if price = 0 then Inl InsufficientBalance
      else if \<not> ensure_nvlink nv eff then Inl InvalidNvlinkEfficiency
      else (case Pools s pid of None \<Rightarrow> Inl PoolNotFound
      | Some pool \<Rightarrow>
      if \<not> owner pool = sender then Inl NotPoolOwner
      else if \<not> (pool_state pool = Active \<or> pool_state pool = Inactive) then Inl PoolInactive
      else Inr (cp_deposit_event (PoolConfigUpdated pid)
        (s\<lparr>Pools := (Pools s)(pid \<mapsto>
             pool\<lparr>gpu_model := model, gpu_memory := mem, has_nvlink := nv, nvlink_efficiency := eff,
                  price_per_task := price\<rparr>)\<rparr>))))"

definition deregister_pool ::
    "'w cp_config \<Rightarrow> origin \<Rightarrow> nat \<Rightarrow> 'w cp_state \<Rightarrow> cp_error + 'w cp_state" where
  "deregister_pool T orig pid s =
     (case ensure_signed orig of None \<Rightarrow> Inl BadOrigin
      | Some sender \<Rightarrow>
      (case Pools s pid of None \<Rightarrow> Inl PoolNotFound
      | Some pool \<Rightarrow>
      if \<not> owner pool = sender then Inl NotPoolOwner
      else if \<not> ActiveTaskCount s pid = 0 then Inl ActiveTasksExist
      else Inr (cp_deposit_event (PoolDeregistered pid (owner pool))
        (s\<lparr>Pools := (Pools s)(pid := None),
           PoolTasks := (PoolTasks s)(pid := []),
           ActiveTaskCount := (ActiveTaskCount s)(pid := 0),
           PoolByOwner := (PoolByOwner s)(owner pool := None),
           cp_world := fst (unreserve (cp_Currency T) (owner pool) (deposit_held pool) (cp_world s))\<rparr>))))"

section \<open>Tasks\<close>

definition new_task :: "nat \<Rightarrow> account \<Rightarrow> task_dimensions \<Rightarrow> task_priority \<Rightarrow> block_number \<Rightarrow> compute_task" where
  "new_task tid who dims prio now =
     \<lparr>ctask_id = tid, user = who, task_pool = 0, dimensions = dims, priority = prio,
      task_state = Pending, task_submitted_at = now, proof_hash = None, verification_result = None,
      reward_amount = None, disputed = False\<rparr>"

text \<open>The pool of a task: the preferred one if it can take the task, the best one otherwise.\<close>

definition choose_pool ::
    "'w cp_config \<Rightarrow> compute_task \<Rightarrow> nat option \<Rightarrow> 'w cp_state \<Rightarrow>
     cp_error + ('w cp_state \<times> nat \<times> pool_score)" where
  "choose_pool T task preferred s =
     (case preferred of
        Some pid \<Rightarrow>
          (case Pools s pid of None \<Rightarrow> Inl PoolNotFound
           | Some pool \<Rightarrow>
           if \<not> pool_state pool = Active then Inl PoolInactive
           else if \<not> ActiveTaskCount s pid < MaxTasksPerPool T then Inl TooManyActiveTasks
           else if \<not> gpu_memory pool \<ge> dim_k (dimensions task) then Inl NoAvailablePool
           else let sc = calculate_pool_score pool (saturated_into 128 (price_per_task pool))
                           (saturated_into 128 (price_per_task pool))
                in Inr (set_pool_score pid sc s, pid, sc))
      | None \<Rightarrow> select_best_pool_for_task T task s)"

definition submit_task ::
    "'w cp_config \<Rightarrow> block_number \<Rightarrow> origin \<Rightarrow> task_dimensions \<Rightarrow> task_priority \<Rightarrow> nat option \<Rightarrow>
     'w cp_state \<Rightarrow> cp_error + 'w cp_state" where
  "submit_task T now orig dims prio preferred s =
     (case ensure_signed orig of None \<Rightarrow> Inl BadOrigin
      | Some who \<Rightarrow>
      if \<not> (dim_m dims > 0 \<and> dim_n dims > 0 \<and> dim_k dims > 0) then Inl InvalidDimensions
      else
        let tid = NextTaskId s;
            task = new_task tid who dims prio now;
            s1 = cp_deposit_event (TaskStatusChanged tid Pending) (cp_deposit_event (TaskSubmitted tid who)
                   (s\<lparr>Tasks := (Tasks s)(tid \<mapsto> task)\<rparr>))
        in (case choose_pool T task preferred s1 of Inl e \<Rightarrow> Inl e
            | Inr (s2, pid, sc) \<Rightarrow>
        (case Pools s2 pid of None \<Rightarrow> Inl PoolNotFound
         | Some pool \<Rightarrow>
        if \<not> ActiveTaskCount s2 pid < MaxTasksPerPool T then Inl TooManyActiveTasks
        else (case calculate_reward dims (price_per_task pool) (has_nvlink pool) (nvlink_efficiency pool) of
          Inl e \<Rightarrow> Inl e
        | Inr reward \<Rightarrow>
        (case reserve (cp_Currency T) who (saturating_add 128 reward (TaskDeposit T)) (cp_world s2) of
          None \<Rightarrow> Inl InsufficientBalance
        | Some w \<Rightarrow>
        let t1 = task\<lparr>task_pool := pid, task_state := Assigned, reward_amount := Some reward\<rparr>;
            s3 = cp_deposit_event (TaskStatusChanged tid Assigned)
                   (cp_deposit_event (TaskAssigned tid pid (final_score sc))
                     (s2\<lparr>cp_world := w, Tasks := (Tasks s2)(tid \<mapsto> t1)\<rparr>));
            s4 = cp_deposit_event (TaskStatusChanged tid Computing)
                   (s3\<lparr>Tasks := (Tasks s3)(tid \<mapsto> t1\<lparr>task_state := Computing\<rparr>)\<rparr>)
        in (case try_push (MaxTasksPerPool T) (PoolTasks s4 pid) tid of None \<Rightarrow> Inl TooManyActiveTasks
            | Some ids \<Rightarrow>
        let s5 = s4\<lparr>PoolTasks := (PoolTasks s4)(pid := ids),
                    ActiveTaskCount := (ActiveTaskCount s4)(pid := saturating_add 32 (ActiveTaskCount s4 pid) 1),
                    TaskEscrowStore := (TaskEscrowStore s4)(tid \<mapsto>
                      \<lparr>escrow_user = who, escrow_pool_owner = owner pool, escrow_reward = reward,
                       escrow_deposit = TaskDeposit T, claimed = False\<rparr>)\<rparr>
        in (case checked_add 64 tid 1 of None \<Rightarrow> Inl ArithmeticOverflow
            | Some next_task_id \<Rightarrow> Inr (s5\<lparr>NextTaskId := next_task_id\<rparr>))))))))"

definition submit_proof ::
    "'w cp_config \<Rightarrow> block_number \<Rightarrow> origin \<Rightarrow> nat \<Rightarrow> bytes \<Rightarrow> 'w cp_state \<Rightarrow> cp_error + 'w cp_state" where
  "submit_proof T now orig tid ph s =
     (case ensure_signed orig of None \<Rightarrow> Inl BadOrigin
      | Some sender \<Rightarrow>
      if ph = replicate 32 0 then Inl InvalidProof
      else (case Tasks s tid of None \<Rightarrow> Inl TaskNotFound
      | Some task \<Rightarrow>
      if task_state task \<noteq> Computing then Inl InvalidTaskState
      else (case Pools s (task_pool task) of None \<Rightarrow> Inl PoolNotFound
      | Some pool \<Rightarrow>
      if \<not> owner pool = sender then Inl NotAssignedPoolOwner
      else if \<not> now \<le> saturating_add 32 (task_submitted_at task) (TaskTimeout T) then Inl TaskExpired
      else Inr (cp_deposit_event (TaskStatusChanged tid ProofSubmitted)
        (cp_deposit_event (ProofSubmitted_ev tid (task_pool task))
          (s\<lparr>Tasks := (Tasks s)(tid \<mapsto> task\<lparr>proof_hash := Some ph, task_state := ProofSubmitted\<rparr>),
             ProofSubmittedAt := (ProofSubmittedAt s)(tid \<mapsto> now)\<rparr>))))))"

text \<open>A dispatchable drops what a failing helper wrote.\<close>

definition commit :: "'w cp_res \<Rightarrow> cp_error + 'w cp_state" where
  "commit r = (case snd r of None \<Rightarrow> Inr (fst r) | Some e \<Rightarrow> Inl e)"

definition verify_proof ::
    "'w cp_config \<Rightarrow> block_number \<Rightarrow> origin \<Rightarrow> nat \<Rightarrow> bool \<Rightarrow> 'w cp_state \<Rightarrow> cp_error + 'w cp_state" where
  "verify_proof T now orig tid res s =
     (case ensure_signed orig of None \<Rightarrow> Inl BadOrigin
      | Some sender \<Rightarrow>
      (case Tasks s tid of None \<Rightarrow> Inl TaskNotFound
      | Some task \<Rightarrow>
      if task_state task \<noteq> ProofSubmitted then Inl InvalidTaskState
      else if proof_hash task = None then Inl ProofNotSubmitted
      else (case Pools s (task_pool task) of None \<Rightarrow> Inl PoolNotFound
      | Some pool \<Rightarrow>
      if \<not> owner pool \<noteq> sender then Inl SelfVerificationNotAllowed
      else commit (finalize_verification T now tid (task_pool task) res s))))"

definition claim_reward ::
    "'w cp_config \<Rightarrow> origin \<Rightarrow> nat \<Rightarrow> 'w cp_state \<Rightarrow> cp_error + 'w cp_state" where
  "claim_reward T orig tid s =
     (case ensure_signed orig of None \<Rightarrow> Inl BadOrigin
      | Some sender \<Rightarrow>
      (case Tasks s tid of None \<Rightarrow> Inl TaskNotFound
      | Some task \<Rightarrow>
      if task_state task \<noteq> Completed then Inl InvalidTaskState
      else if verification_result task \<noteq> Some True then Inl RewardNotAvailable
      else (case Pools s (task_pool task) of None \<Rightarrow> Inl PoolNotFound
      | Some pool \<Rightarrow>
      if \<not> owner pool = sender then Inl NotAssignedPoolOwner
      else (case Rewards s tid of None \<Rightarrow> Inl RewardNotAvailable
      | Some reward \<Rightarrow>
      (case TaskEscrowStore s tid of None \<Rightarrow> Inl RewardNotAvailable
      | Some escrow \<Rightarrow>
      if claimed escrow then Inl RewardAlreadyClaimed
      else (case repatriate_reserved (cp_Currency T) (escrow_user escrow) sender reward (cp_world s) of
        None \<Rightarrow> Inl InsufficientBalance
      | Some (w, remainder) \<Rightarrow>
      if remainder \<noteq> 0 then Inl InsufficientBalance
      else Inr (cp_deposit_event (RewardClaimed tid sender reward)
        (s\<lparr>cp_world := fst (unreserve (cp_Currency T) (escrow_user escrow) (escrow_deposit escrow) w),
           TaskEscrowStore := (TaskEscrowStore s)(tid \<mapsto> escrow\<lparr>claimed := True\<rparr>),
           Rewards := (Rewards s)(tid := None)\<rparr>))))))))"

definition dispute_verification ::
    "'w cp_config \<Rightarrow> origin \<Rightarrow> nat \<Rightarrow> 'w cp_state \<Rightarrow> cp_error + 'w cp_state" where
  "dispute_verification T orig tid s =
     (case ensure_signed orig of None \<Rightarrow> Inl BadOrigin
      | Some sender \<Rightarrow>
      (case Tasks s tid of None \<Rightarrow> Inl TaskNotFound
      | Some task \<Rightarrow>
      if \<not> user task = sender then Inl NotTaskUser
      else if \<not> (task_state task = Completed \<or> task_state task = Failed) then Inl DisputeNotAllowed
      else if disputed task then Inl DisputeAlreadyFiled
      else if verification_result task = Some True
      then
        let s1 = s\<lparr>Tasks := (Tasks s)(tid \<mapsto>
                   task\<lparr>task_state := Failed, verification_result := Some False, disputed := True\<rparr>)\<rparr>;
            s2 = release_escrow T tid (update_reputation (task_pool task) False s1)
        in (case slash_pool T (task_pool task) s2 of
              (s3, Some e) \<Rightarrow> Inl e
            | (s3, None) \<Rightarrow> Inr (cp_deposit_event (VerificationDisputed tid sender)
                (cp_deposit_event (TaskStatusChanged tid Failed) s3)))
      else if verification_result task = Some False
      then
        let s1 = s\<lparr>Tasks := (Tasks s)(tid \<mapsto>
                   task\<lparr>task_state := Completed, verification_result := Some True, disputed := True\<rparr>)\<rparr>;
            s2 = (case reward_amount task of None \<Rightarrow> s1
                  | Some r \<Rightarrow> cp_deposit_event (RewardAvailable tid r)
                      (s1\<lparr>Rewards := (Rewards s1)(tid \<mapsto> r)\<rparr>));
            s3 = update_reputation (task_pool task) True s2
        in Inr (cp_deposit_event (VerificationDisputed tid sender)
             (cp_deposit_event (TaskStatusChanged tid Completed) s3))
      else Inl DisputeNotAllowed))"

section \<open>Stakes\<close>

definition stake_to_pool ::
    "'w cp_config \<Rightarrow> origin \<Rightarrow> nat \<Rightarrow> balance \<Rightarrow> 'w cp_state \<Rightarrow> cp_error + 'w cp_state" where
  "stake_to_pool T orig pid v s =
     (case ensure_signed orig of None \<Rightarrow> Inl BadOrigin
      | Some who \<Rightarrow>
      if Pools s pid = None then Inl PoolNotFound
      else (case reserve (cp_Currency T) who v (cp_world s) of None \<Rightarrow> Inl InsufficientBalance
      | Some w \<Rightarrow>
      Inr (cp_deposit_event (Staked who pid v)
        (s\<lparr>cp_world := w,
           PoolStakes := (PoolStakes s)(pid := (PoolStakes s pid)
             (who := saturating_add 128 (PoolStakes s pid who) v)),
           TotalPoolStake := (TotalPoolStake s)(pid := saturating_add 128 (TotalPoolStake s pid) v)\<rparr>))))"

definition unstake_from_pool ::
    "'w cp_config \<Rightarrow> origin \<Rightarrow> nat \<Rightarrow> balance \<Rightarrow> 'w cp_state \<Rightarrow> cp_error + 'w cp_state" where
  "unstake_from_pool T orig pid v s =
     (case ensure_signed orig of None \<Rightarrow> Inl BadOrigin
      | Some who \<Rightarrow>
      if \<not> PoolStakes s pid who \<ge> v then Inl StakeNotFound
      else Inr (cp_deposit_event (Unstaked who pid v)
        (s\<lparr>cp_world := fst (unreserve (cp_Currency T) who v (cp_world s)),
           PoolStakes := (PoolStakes s)(pid := (PoolStakes s pid)
             (who := saturating_sub (PoolStakes s pid who) v)),
           TotalPoolStake := (TotalPoolStake s)(pid := saturating_sub (TotalPoolStake s pid) v)\<rparr>)))"

section \<open>The block hook\<close>

datatype task_due = NotDue | AutoVerify | Expire

definition classify :: "'w cp_config \<Rightarrow> block_number \<Rightarrow> 'w cp_state \<Rightarrow> nat \<Rightarrow> task_due" where
  "classify T now s tid =
     (case Tasks s tid of None \<Rightarrow> NotDue
      | Some task \<Rightarrow>
      if is_terminal (task_state task) then NotDue
      else if task_state task = ProofSubmitted \<and>
        (case ProofSubmittedAt s tid of None \<Rightarrow> False
         | Some proof_at \<Rightarrow> now > saturating_add 32 proof_at (VerificationTimeout T))
      then AutoVerify
      else if now > saturating_add 32 (task_submitted_at task) (TaskTimeout T) then Expire
      else NotDue)"

definition auto_verify_one :: "'w cp_config \<Rightarrow> block_number \<Rightarrow> nat \<Rightarrow> 'w cp_state \<Rightarrow> 'w cp_state" where
  "auto_verify_one T now tid s =
     (case Tasks s tid of None \<Rightarrow> s
      | Some task \<Rightarrow> fst (finalize_verification T now tid (task_pool task) True s))"

definition expire_one :: "'w cp_config \<Rightarrow> nat \<Rightarrow> 'w cp_state \<Rightarrow> 'w cp_state" where
  "expire_one T tid s = fst (mark_task_failed T tid True s)"

definition on_initialize :: "'w cp_config \<Rightarrow> block_number \<Rightarrow> 'w cp_state \<Rightarrow> 'w cp_state" where
  "on_initialize T now s =
     (let ids = concat (map snd (iter_PoolTasks T (PoolTasks s)));
          auto_verify = filter (\<lambda>tid. classify T now s tid = AutoVerify) ids;
          expired = filter (\<lambda>tid. classify T now s tid = Expire) ids
      in fold (expire_one T) expired (fold (auto_verify_one T now) auto_verify s))"

section \<open>The \<open>TaskComputeScheduler\<close> trait\<close>

definition schedule_pick :: "(nat \<times> compute_pool) list \<Rightarrow> (nat \<times> compute_pool) option" where
  "schedule_pick cs =
     snd (fold (\<lambda>(pid, pool) (best_score, best).
         if pool_state pool \<noteq> Active then (best_score, best)
         else let sc = saturating_add 32 (reputation pool) (success_rate pool) div 2
              in if sc > best_score then (sc, Some (pid, pool)) else (best_score, best))
       cs (0, None))"

definition schedule_compute ::
    "'w cp_config \<Rightarrow> block_number \<Rightarrow> account \<Rightarrow> bytes \<Rightarrow> nat \<times> nat \<times> nat \<Rightarrow> 'w cp_state \<Rightarrow>
     'w cp_state \<times> (string + nat \<times> account \<times> balance)" where
  "schedule_compute T now who _ dims s =
     (case schedule_pick (take 50 (iter_Pools T (Pools s))) of
        None \<Rightarrow> (s, Inl ''No active pool available'')
      | Some (pid, pool) \<Rightarrow>
      let tid = NextTaskId s
      in (case checked_add 64 tid 1 of None \<Rightarrow> (s, Inl ''Task ID overflow'')
          | Some next_task_id \<Rightarrow>
      let task = (new_task tid who \<lparr>dim_m = fst dims, dim_n = fst (snd dims), dim_k = snd (snd dims)\<rparr>
                   Normal now)\<lparr>task_pool := pid, reward_amount := Some (price_per_task pool)\<rparr>;
          s1 = s\<lparr>NextTaskId := next_task_id, Tasks := (Tasks s)(tid \<mapsto> task),
                 ActiveTaskCount := (ActiveTaskCount s)(pid := saturating_add 32 (ActiveTaskCount s pid) 1)\<rparr>
      in (case try_push (MaxTasksPerPool T) (PoolTasks s1 pid) tid of
            None \<Rightarrow> (s1, Inl ''Pool task limit reached'')
          | Some ids \<Rightarrow>
              (s1\<lparr>PoolTasks := (PoolTasks s1)(pid := ids),
                  Tasks := (Tasks s1)(tid \<mapsto> task\<lparr>task_state := Computing\<rparr>)\<rparr>,
               Inr (tid, owner pool, price_per_task pool)))))"

definition is_task_completed :: "nat \<Rightarrow> 'w cp_state \<Rightarrow> bool" where
  "is_task_completed tid s =
     (case Tasks s tid of None \<Rightarrow> False | Some task \<Rightarrow> task_state task = Completed)"

section \<open>Calls and steps\<close>

datatype cp_call =
    RegisterPool bytes nat bool nat balance
  | UpdatePoolConfig nat bytes nat bool nat balance
  | DeregisterPool nat
  | SubmitTask task_dimensions task_priority "nat option"
  | SubmitProof nat bytes
  | VerifyProof nat bool
  | ClaimReward nat
  | DisputeVerification nat
  | StakeToPool nat balance
  | UnstakeFromPool nat balance

fun cp_dispatch ::
    "'w cp_config \<Rightarrow> block_number \<Rightarrow> origin \<Rightarrow> cp_call \<Rightarrow> 'w cp_state \<Rightarrow> cp_error + 'w cp_state" where
  "cp_dispatch T now orig (RegisterPool g m nv e p) s = register_pool T orig g m nv e p s"
| "cp_dispatch T now orig (UpdatePoolConfig i g m nv e p) s = update_pool_config orig i g m nv e p s"
| "cp_dispatch T now orig (DeregisterPool i) s = deregister_pool T orig i s"
| "cp_dispatch T now orig (SubmitTask d pr pref) s = submit_task T now orig d pr pref s"
| "cp_dispatch T now orig (SubmitProof t h) s = submit_proof T now orig t h s"
| "cp_dispatch T now orig (VerifyProof t r) s = verify_proof T now orig t r s"
| "cp_dispatch T now orig (ClaimReward t) s = claim_reward T orig t s"
| "cp_dispatch T now orig (DisputeVerification t) s = dispute_verification T orig t s"
| "cp_dispatch T now orig (StakeToPool i v) s = stake_to_pool T orig i v s"
| "cp_dispatch T now orig (UnstakeFromPool i v) s = unstake_from_pool T orig i v s"

definition cp_init :: "'w \<Rightarrow> 'w cp_state" where
  "cp_init w =
     \<lparr>NextPoolId = 0, NextTaskId = 0, Pools = Map.empty, PoolByOwner = Map.empty, Tasks = Map.empty,
      PoolTasks = (\<lambda>_. []), ActiveTaskCount = (\<lambda>_. 0), MinerReputation = (\<lambda>_. default_reputation),
      Rewards = Map.empty, TaskEscrowStore = Map.empty, PoolStakes = (\<lambda>_ _. 0),
      TotalPoolStake = (\<lambda>_. 0), ProofSubmittedAt = Map.empty, cp_events = [], cp_world = w\<rparr>"

fun cp_run ::
    "'w cp_config \<Rightarrow> (block_number \<times> origin \<times> cp_call) list \<Rightarrow> 'w cp_state \<Rightarrow> cp_error + 'w cp_state" where
  "cp_run T [] s = Inr s"
| "cp_run T ((now, orig, c) # cs) s =
     (case cp_dispatch T now orig c s of Inl e \<Rightarrow> Inl e | Inr s' \<Rightarrow> cp_run T cs s')"

text \<open>The runtime's constants.\<close>

definition cp_runtime ::
    "'w currency_ops \<Rightarrow> 'w completion_fn \<Rightarrow> ((nat \<Rightarrow> compute_pool option) \<Rightarrow> (nat \<times> compute_pool) list) \<Rightarrow>
     ((nat \<Rightarrow> nat list) \<Rightarrow> (nat \<times> nat list) list) \<Rightarrow> 'w cp_config" where
  "cp_runtime C handler iter_p iter_t =
     \<lparr>cp_Currency = C, PoolDeposit = 10000 * 10 ^ 15, TaskDeposit = 1000 * 10 ^ 15,
      FailureSlash = 500 * 10 ^ 15, TaskTimeout = 14400, MinPoolStake = 10000000000000,
      StakeSlashPercent = 10, MaxTasksPerPool = 1000, InitialReputation = 100,
      VerificationTimeout = 1200, OnTaskCompleted = handler, iter_Pools = iter_p,
      iter_PoolTasks = iter_t\<rparr>"

text \<open>
  A step of the pallet on a world with invariant \<open>I\<close> and own reserves \<open>L\<close>: a successful call that
  satisfies \<open>G\<close>, the block hook, or an outside change that keeps \<open>I\<close> and moves reserves as \<open>L\<close> does.
\<close>

inductive cp_step ::
    "'w cp_config \<Rightarrow> ('w \<Rightarrow> bool) \<Rightarrow> ('w \<Rightarrow> account \<Rightarrow> nat) \<Rightarrow> (cp_call \<Rightarrow> 'w cp_state \<Rightarrow> bool) \<Rightarrow>
     'w cp_state \<Rightarrow> 'w cp_state \<Rightarrow> bool"
  for T I L G where
  call: "cp_dispatch T now orig c s = Inr s' \<Longrightarrow> G c s \<Longrightarrow> cp_step T I L G s s'"
| hook: "cp_step T I L G s (on_initialize T now s)"
| environment: "I w \<Longrightarrow>
    (\<And>a. reserved_balance (cp_Currency T) w a + L (cp_world s) a =
      reserved_balance (cp_Currency T) (cp_world s) a + L w a) \<Longrightarrow>
    cp_step T I L G s (s\<lparr>cp_world := w\<rparr>)"

abbreviation any_call :: "cp_call \<Rightarrow> 'w cp_state \<Rightarrow> bool" where
  "any_call \<equiv> \<lambda>_ _. True"

text \<open>Calls other than a dispute of a task whose reward has been claimed.\<close>

definition no_late_dispute :: "cp_call \<Rightarrow> 'w cp_state \<Rightarrow> bool" where
  "no_late_dispute c s \<longleftrightarrow>
     (\<forall>t e. c = DisputeVerification t \<longrightarrow> TaskEscrowStore s t = Some e \<longrightarrow> \<not> claimed e)"

lemma cp_run_steps: "cp_run T cs s = Inr s' \<Longrightarrow> (cp_step T I L any_call)\<^sup>*\<^sup>* s s'"
proof (induction T cs s rule: cp_run.induct)
  case (1 T s)
  then show ?case by simp
next
  case (2 T now orig c cs s)
  then show ?case
    by (auto split: sum.splits intro: converse_rtranclp_into_rtranclp cp_step.call)
qed

section \<open>Frames of the helpers\<close>

lemma cp_event_frame [simp]:
  "NextPoolId (cp_deposit_event e s) = NextPoolId s"
  "NextTaskId (cp_deposit_event e s) = NextTaskId s"
  "Pools (cp_deposit_event e s) = Pools s"
  "PoolByOwner (cp_deposit_event e s) = PoolByOwner s"
  "Tasks (cp_deposit_event e s) = Tasks s"
  "PoolTasks (cp_deposit_event e s) = PoolTasks s"
  "ActiveTaskCount (cp_deposit_event e s) = ActiveTaskCount s"
  "MinerReputation (cp_deposit_event e s) = MinerReputation s"
  "Rewards (cp_deposit_event e s) = Rewards s"
  "TaskEscrowStore (cp_deposit_event e s) = TaskEscrowStore s"
  "PoolStakes (cp_deposit_event e s) = PoolStakes s"
  "TotalPoolStake (cp_deposit_event e s) = TotalPoolStake s"
  "ProofSubmittedAt (cp_deposit_event e s) = ProofSubmittedAt s"
  "cp_world (cp_deposit_event e s) = cp_world s"
  by (simp_all add: cp_deposit_event_def)

lemma decrement_frame [simp]:
  "NextPoolId (decrement_pool_activity p t s) = NextPoolId s"
  "NextTaskId (decrement_pool_activity p t s) = NextTaskId s"
  "Pools (decrement_pool_activity p t s) = Pools s"
  "PoolByOwner (decrement_pool_activity p t s) = PoolByOwner s"
  "Tasks (decrement_pool_activity p t s) = Tasks s"
  "Rewards (decrement_pool_activity p t s) = Rewards s"
  "TaskEscrowStore (decrement_pool_activity p t s) = TaskEscrowStore s"
  "PoolStakes (decrement_pool_activity p t s) = PoolStakes s"
  "ProofSubmittedAt (decrement_pool_activity p t s) = ProofSubmittedAt s"
  "cp_world (decrement_pool_activity p t s) = cp_world s"
  by (simp_all add: decrement_pool_activity_def)

lemma update_reputation_frame [simp]:
  "NextPoolId (update_reputation p b s) = NextPoolId s"
  "NextTaskId (update_reputation p b s) = NextTaskId s"
  "PoolByOwner (update_reputation p b s) = PoolByOwner s"
  "Tasks (update_reputation p b s) = Tasks s"
  "PoolTasks (update_reputation p b s) = PoolTasks s"
  "ActiveTaskCount (update_reputation p b s) = ActiveTaskCount s"
  "Rewards (update_reputation p b s) = Rewards s"
  "TaskEscrowStore (update_reputation p b s) = TaskEscrowStore s"
  "PoolStakes (update_reputation p b s) = PoolStakes s"
  "ProofSubmittedAt (update_reputation p b s) = ProofSubmittedAt s"
  "cp_world (update_reputation p b s) = cp_world s"
  by (simp_all add: update_reputation_def split: option.splits)

lemma set_pool_score_frame [simp]:
  "NextPoolId (set_pool_score p sc s) = NextPoolId s"
  "NextTaskId (set_pool_score p sc s) = NextTaskId s"
  "PoolByOwner (set_pool_score p sc s) = PoolByOwner s"
  "Tasks (set_pool_score p sc s) = Tasks s"
  "PoolTasks (set_pool_score p sc s) = PoolTasks s"
  "ActiveTaskCount (set_pool_score p sc s) = ActiveTaskCount s"
  "Rewards (set_pool_score p sc s) = Rewards s"
  "TaskEscrowStore (set_pool_score p sc s) = TaskEscrowStore s"
  "PoolStakes (set_pool_score p sc s) = PoolStakes s"
  "ProofSubmittedAt (set_pool_score p sc s) = ProofSubmittedAt s"
  "cp_world (set_pool_score p sc s) = cp_world s"
  by (simp_all add: set_pool_score_def split: option.splits)

lemma release_escrow_frame [simp]:
  "NextPoolId (release_escrow T t s) = NextPoolId s"
  "NextTaskId (release_escrow T t s) = NextTaskId s"
  "Pools (release_escrow T t s) = Pools s"
  "PoolByOwner (release_escrow T t s) = PoolByOwner s"
  "Tasks (release_escrow T t s) = Tasks s"
  "PoolTasks (release_escrow T t s) = PoolTasks s"
  "ActiveTaskCount (release_escrow T t s) = ActiveTaskCount s"
  "PoolStakes (release_escrow T t s) = PoolStakes s"
  "ProofSubmittedAt (release_escrow T t s) = ProofSubmittedAt s"
  "Rewards (release_escrow T t s) = (Rewards s)(t := None)"
  "TaskEscrowStore (release_escrow T t s) = (TaskEscrowStore s)(t := None)"
  by (auto simp: release_escrow_def Let_def split: option.splits)

lemma slash_pool_frame [simp]:
  "NextPoolId (fst (slash_pool T p s)) = NextPoolId s"
  "NextTaskId (fst (slash_pool T p s)) = NextTaskId s"
  "PoolByOwner (fst (slash_pool T p s)) = PoolByOwner s"
  "Tasks (fst (slash_pool T p s)) = Tasks s"
  "PoolTasks (fst (slash_pool T p s)) = PoolTasks s"
  "ActiveTaskCount (fst (slash_pool T p s)) = ActiveTaskCount s"
  "Rewards (fst (slash_pool T p s)) = Rewards s"
  "TaskEscrowStore (fst (slash_pool T p s)) = TaskEscrowStore s"
  "PoolStakes (fst (slash_pool T p s)) = PoolStakes s"
  "ProofSubmittedAt (fst (slash_pool T p s)) = ProofSubmittedAt s"
  by (simp_all add: slash_pool_def Let_def split: option.splits prod.splits)

section \<open>The invariant\<close>

definition pool_ok :: "'w cp_state \<Rightarrow> nat \<Rightarrow> compute_pool \<Rightarrow> bool" where
  "pool_ok s p pool \<longleftrightarrow>
     pool_id pool = p \<and> PoolByOwner s (owner pool) = Some p \<and>
     reputation pool \<le> 100 \<and> success_rate pool \<le> 100"

definition escrow_ok :: "'w cp_state \<Rightarrow> nat \<Rightarrow> task_escrow \<Rightarrow> bool" where
  "escrow_ok s t e \<longleftrightarrow>
     (\<exists>task. Tasks s t = Some task \<and> reward_amount task = Some (escrow_reward e) \<and>
        user task = escrow_user e \<and> (claimed e \<longrightarrow> task_state task = Completed))"

definition reward_ok :: "'w cp_state \<Rightarrow> nat \<Rightarrow> balance \<Rightarrow> bool" where
  "reward_ok s t r \<longleftrightarrow> (\<exists>task. Tasks s t = Some task \<and> reward_amount task = Some r)"

definition cp_inv :: "'w cp_state \<Rightarrow> bool" where
  "cp_inv s \<longleftrightarrow>
     keys_below (Pools s) (NextPoolId s) \<and> keys_below (Tasks s) (NextTaskId s) \<and>
     (\<forall>p pool. Pools s p = Some pool \<longrightarrow> pool_ok s p pool) \<and>
     (\<forall>t e. TaskEscrowStore s t = Some e \<longrightarrow> escrow_ok s t e) \<and>
     (\<forall>t r. Rewards s t = Some r \<longrightarrow> reward_ok s t r) \<and>
     (\<forall>p a. NextPoolId s \<le> p \<longrightarrow> PoolStakes s p a = 0)"

lemma cp_invD:
  assumes "cp_inv s"
  shows "Pools s p = Some pool \<Longrightarrow> p < NextPoolId s" "Pools s p = Some pool \<Longrightarrow> pool_ok s p pool"
    "TaskEscrowStore s t = Some e \<Longrightarrow> escrow_ok s t e" "Rewards s t = Some r \<Longrightarrow> reward_ok s t r"
    "TaskEscrowStore s t = Some e \<Longrightarrow> t < NextTaskId s" "Tasks s t = Some task \<Longrightarrow> t < NextTaskId s"
  using assms unfolding cp_inv_def escrow_ok_def keys_below_def by (metis option.distinct(1))+

text \<open>Changes that keep each pool's owner and index entry and its two rates within bounds.\<close>

definition pools_like :: "'w cp_state \<Rightarrow> 'w cp_state \<Rightarrow> bool" where
  "pools_like s s' \<longleftrightarrow>
     (\<forall>p. case Pools s p of None \<Rightarrow> Pools s' p = None
          | Some pool \<Rightarrow> (\<exists>pool'. Pools s' p = Some pool' \<and> pool_id pool' = pool_id pool \<and>
              owner pool' = owner pool \<and> (reputation pool \<le> 100 \<longrightarrow> reputation pool' \<le> 100) \<and>
              (success_rate pool \<le> 100 \<longrightarrow> success_rate pool' \<le> 100)))"

lemma pools_like_refl [simp]: "Pools s' = Pools s \<Longrightarrow> pools_like s s'"
  by (auto simp: pools_like_def split: option.splits)

lemma pools_like_trans:
  assumes "pools_like a b" "pools_like b c"
  shows "pools_like a c"
  unfolding pools_like_def
proof
  fix p
  show "case Pools a p of None \<Rightarrow> Pools c p = None
    | Some pool \<Rightarrow> (\<exists>pool'. Pools c p = Some pool' \<and> pool_id pool' = pool_id pool \<and>
        owner pool' = owner pool \<and> (reputation pool \<le> 100 \<longrightarrow> reputation pool' \<le> 100) \<and>
        (success_rate pool \<le> 100 \<longrightarrow> success_rate pool' \<le> 100))"
    using assms [unfolded pools_like_def, rule_format, of p] by (auto split: option.splits)
qed

lemma updated_pool_simps [simp]:
  "pool_id (updated_pool b pool) = pool_id pool" "owner (updated_pool b pool) = owner pool"
  "deposit_held (updated_pool b pool) = deposit_held pool"
  by (simp_all add: updated_pool_def Let_def)

lemma updated_pool_rates:
  "reputation pool \<le> 100 \<Longrightarrow> reputation (updated_pool b pool) \<le> 100"
  "success_rate pool \<le> 100 \<Longrightarrow> success_rate (updated_pool b pool) \<le> 100"
  by (auto simp: updated_pool_def Let_def saturating_sub_def)

lemma update_reputation_like: "pools_like s (update_reputation p b s)"
  using updated_pool_rates
  by (auto simp: pools_like_def update_reputation_def split: option.splits)

lemma set_pool_score_like: "pools_like s (set_pool_score p sc s)"
  by (auto simp: pools_like_def set_pool_score_def split: option.splits)

lemma slash_pool_like: "pools_like s (fst (slash_pool T p s))"
  by (auto simp: pools_like_def slash_pool_def Let_def split: option.splits prod.splits)

lemma pools_likeD:
  assumes "pools_like s s'" "Pools s' p = Some pool'"
  obtains pool where "Pools s p = Some pool" "pool_id pool' = pool_id pool" "owner pool' = owner pool"
    "reputation pool \<le> 100 \<Longrightarrow> reputation pool' \<le> 100"
    "success_rate pool \<le> 100 \<Longrightarrow> success_rate pool' \<le> 100"
  using assms(1) [unfolded pools_like_def, rule_format, of p] assms(2)
  by (cases "Pools s p") auto

lemma cp_inv_like:
  assumes "cp_inv s" "pools_like s s'"
    "NextPoolId s' = NextPoolId s" "NextTaskId s' = NextTaskId s" "PoolByOwner s' = PoolByOwner s"
    "PoolStakes s' = PoolStakes s" "keys_below (Tasks s') (NextTaskId s)"
    "\<And>t e. TaskEscrowStore s' t = Some e \<Longrightarrow> escrow_ok s' t e"
    "\<And>t r. Rewards s' t = Some r \<Longrightarrow> reward_ok s' t r"
  shows "cp_inv s'"
proof -
  have "p < NextPoolId s \<and> pool_ok s' p pool'" if "Pools s' p = Some pool'" for p pool'
    using assms(2) that
    by (rule pools_likeD)
      (use cp_invD(1,2) [OF assms(1), of p] assms(5) in \<open>auto simp: pool_ok_def\<close>)
  then have "\<forall>p pool. Pools s' p = Some pool \<longrightarrow> pool_ok s' p pool" "keys_below (Pools s') (NextPoolId s)"
    by (auto simp: keys_below_def)
  then show ?thesis
    using assms(1,7-9) unfolding cp_inv_def assms(3,4,6) by blast
qed

section \<open>Reserves\<close>

definition pool_owed :: "compute_pool \<Rightarrow> account \<Rightarrow> nat" where
  "pool_owed pool a = (if owner pool = a then deposit_held pool else 0)"

definition escrow_owed :: "task_escrow \<Rightarrow> account \<Rightarrow> nat" where
  "escrow_owed e a =
     (if escrow_user e = a \<and> \<not> claimed e
      then saturating_add 128 (escrow_reward e) (escrow_deposit e) else 0)"

definition pools_total :: "'w cp_state \<Rightarrow> account \<Rightarrow> nat" where
  "pools_total s = owed_total pool_owed (Pools s) (NextPoolId s)"

definition escrows_total :: "'w cp_state \<Rightarrow> account \<Rightarrow> nat" where
  "escrows_total s = owed_total escrow_owed (TaskEscrowStore s) (NextTaskId s)"

definition stakes_total :: "'w cp_state \<Rightarrow> account \<Rightarrow> nat" where
  "stakes_total s a = (\<Sum>p<NextPoolId s. PoolStakes s p a)"

definition cp_locked :: "'w cp_state \<Rightarrow> account \<Rightarrow> nat" where
  "cp_locked s a = pools_total s a + escrows_total s a + stakes_total s a"

text \<open>What the pallet and the pallets below it keep reserved.\<close>

definition cp_total :: "('w \<Rightarrow> account \<Rightarrow> nat) \<Rightarrow> 'w cp_state \<Rightarrow> account \<Rightarrow> nat" where
  "cp_total L s a = cp_locked s a + L (cp_world s) a"

abbreviation cp_reserved :: "'w cp_config \<Rightarrow> 'w cp_state \<Rightarrow> account \<Rightarrow> nat" where
  "cp_reserved T s \<equiv> reserved_balance (cp_Currency T) (cp_world s)"

abbreviation cp_free :: "'w cp_config \<Rightarrow> 'w cp_state \<Rightarrow> account \<Rightarrow> nat" where
  "cp_free T s \<equiv> free_balance (cp_Currency T) (cp_world s)"

definition cp_ok :: "'w cp_config \<Rightarrow> ('w \<Rightarrow> bool) \<Rightarrow> ('w \<Rightarrow> account \<Rightarrow> nat) \<Rightarrow> bool" where
  "cp_ok T I L \<longleftrightarrow>
     hosted_currency (cp_Currency T) I L \<and>
     task_completion_handler (OnTaskCompleted T) (cp_Currency T) I L"

lemma cp_okD:
  assumes "cp_ok T I L"
  shows "hosted_currency (cp_Currency T) I L" "reservable_currency (cp_Currency T)"
    "task_completion_handler (OnTaskCompleted T) (cp_Currency T) I L"
  using assms by (simp_all add: cp_ok_def hosted_currency_def)

text \<open>
  \<open>settled T I L s s'\<close>: the world invariant holds after the change and reserves moved by exactly what
  the records did. A good state has the invariants and is backed.
\<close>

definition settled ::
    "'w cp_config \<Rightarrow> ('w \<Rightarrow> bool) \<Rightarrow> ('w \<Rightarrow> account \<Rightarrow> nat) \<Rightarrow> 'w cp_state \<Rightarrow> 'w cp_state \<Rightarrow> bool" where
  "settled T I L s s' \<longleftrightarrow>
     I (cp_world s') \<and>
     (\<forall>a. cp_reserved T s' a + cp_total L s a = cp_reserved T s a + cp_total L s' a)"

definition good :: "'w cp_config \<Rightarrow> ('w \<Rightarrow> bool) \<Rightarrow> ('w \<Rightarrow> account \<Rightarrow> nat) \<Rightarrow> 'w cp_state \<Rightarrow> bool" where
  "good T I L s \<longleftrightarrow>
     cp_ok T I L \<and> cp_inv s \<and> I (cp_world s) \<and> backed (cp_total L) (cp_reserved T) s"

lemma settled_trans: "settled T I L a b \<Longrightarrow> settled T I L b c \<Longrightarrow> settled T I L a c"
  unfolding settled_def
proof (intro conjI allI; elim conjE)
  fix x
  assume b: "\<forall>x. cp_reserved T b x + cp_total L a x = cp_reserved T a x + cp_total L b x"
    and c: "\<forall>x. cp_reserved T c x + cp_total L b x = cp_reserved T b x + cp_total L c x"
  show "cp_reserved T c x + cp_total L a x = cp_reserved T a x + cp_total L c x"
    using b [rule_format, of x] c [rule_format, of x] by linarith
qed

lemma settled_same:
  assumes "I (cp_world s)" "cp_world s' = cp_world s" "\<And>a. cp_locked s' a = cp_locked s a"
  shows "settled T I L s s'"
  using assms by (simp add: settled_def cp_total_def)

lemma good_settled:
  assumes "good T I L s" "settled T I L s s'" "cp_inv s'"
  shows "good T I L s'"
proof -
  have "cp_total L s' a \<le> cp_reserved T s' a" for a
    using assms(1,2) unfolding good_def settled_def backed_def by (metis add.commute nat_add_left_cancel_le)
  then show ?thesis using assms by (simp add: good_def settled_def backed_def)
qed

lemma goodD:
  assumes "good T I L s"
  shows "cp_inv s" "I (cp_world s)" "hosted_currency (cp_Currency T) I L"
    "reservable_currency (cp_Currency T)" "cp_total L s a \<le> cp_reserved T s a"
    "pools_total s a \<le> cp_reserved T s a" "escrows_total s a \<le> cp_reserved T s a"
    "stakes_total s a \<le> cp_reserved T s a"
proof -
  show "cp_inv s" "I (cp_world s)" "hosted_currency (cp_Currency T) I L" "reservable_currency (cp_Currency T)"
    using assms cp_okD by (auto simp: good_def)
  show le: "cp_total L s a \<le> cp_reserved T s a" using assms by (simp add: good_def backed_def)
  then show "pools_total s a \<le> cp_reserved T s a" "escrows_total s a \<le> cp_reserved T s a"
    "stakes_total s a \<le> cp_reserved T s a"
    by (simp_all add: cp_total_def cp_locked_def)
qed

text \<open>Pools whose owners and deposits do not change.\<close>

lemma pools_total_same:
  assumes "NextPoolId s' = NextPoolId s"
    "\<And>p. map_option (\<lambda>pool. (owner pool, deposit_held pool)) (Pools s' p) =
      map_option (\<lambda>pool. (owner pool, deposit_held pool)) (Pools s p)"
  shows "pools_total s' a = pools_total s a"
proof -
  have "(case Pools s' p of None \<Rightarrow> 0 | Some x \<Rightarrow> pool_owed x a) =
      (case Pools s p of None \<Rightarrow> 0 | Some x \<Rightarrow> pool_owed x a)" for p
    using assms(2) [of p] by (auto simp: pool_owed_def split: option.splits)
  then show ?thesis by (simp add: pools_total_def owed_total_def assms(1))
qed

lemma update_reputation_total: "pools_total (update_reputation p b s) a = pools_total s a"
  by (rule pools_total_same) (auto simp: update_reputation_def split: option.splits)

lemma set_pool_score_total: "pools_total (set_pool_score p sc s) a = pools_total s a"
  by (rule pools_total_same) (auto simp: set_pool_score_def split: option.splits)

text \<open>One part of the records gives up \<open>v\<close> and the reserve gives up the same.\<close>

lemma release_part:
  fixes x x' y r r' v :: nat
  assumes "x' + v = x" "r' = r - v" "x \<le> r"
  shows "r' + (x + y) = r + (x' + y)"
  using assms by linarith

text \<open>Releasing an unclaimed escrow.\<close>

lemma release_escrow_settled:
  assumes g: "good T I L s" and e: "\<And>e. TaskEscrowStore s t = Some e \<Longrightarrow> \<not> claimed e"
  shows "settled T I L s (release_escrow T t s)"
proof (cases "TaskEscrowStore s t")
  case None
  then have "TaskEscrowStore (release_escrow T t s) = TaskEscrowStore s" by auto
  then show ?thesis
    using None goodD(2) [OF g]
    by (intro settled_same)
      (simp_all add: release_escrow_def Let_def cp_locked_def pools_total_def escrows_total_def stakes_total_def)
next
  case (Some e)
  let ?tot = "saturating_add 128 (escrow_reward e) (escrow_deposit e)"
  have w: "cp_world (release_escrow T t s) = fst (unreserve (cp_Currency T) (escrow_user e) ?tot (cp_world s))"
    using Some by (simp add: release_escrow_def Let_def)
  have t: "t < NextTaskId s" using cp_invD(5) [OF goodD(1) [OF g] Some] .
  have "cp_reserved T (release_escrow T t s) a + cp_total L s a =
      cp_reserved T s a + cp_total L (release_escrow T t s) a" for a
  proof -
    have own: "escrow_owed e a = (if a = escrow_user e then ?tot else 0)"
      using assms(2) [OF Some] by (auto simp: escrow_owed_def)
    have "cp_reserved T (release_escrow T t s) a +
        (escrows_total s a + (pools_total s a + stakes_total s a + L (cp_world s) a)) =
      cp_reserved T s a +
        (escrows_total (release_escrow T t s) a + (pools_total s a + stakes_total s a + L (cp_world s) a))"
    proof (rule release_part)
      show "escrows_total (release_escrow T t s) a + escrow_owed e a = escrows_total s a"
        using owed_total_remove [of t "NextTaskId s" "TaskEscrowStore s" e escrow_owed a, OF t Some]
        by (simp add: escrows_total_def)
      show "cp_reserved T (release_escrow T t s) a = cp_reserved T s a - escrow_owed e a"
        by (simp add: w own reservable_currency.unreserve_reserved [OF goodD(4) [OF g]])
      show "escrows_total s a \<le> cp_reserved T s a" by (rule goodD(7) [OF g])
    qed
    moreover have "pools_total (release_escrow T t s) a = pools_total s a"
      "stakes_total (release_escrow T t s) a = stakes_total s a"
      "L (cp_world (release_escrow T t s)) = L (cp_world s)"
      using hosted_currency.unreserve_fst [OF goodD(3) [OF g] goodD(2) [OF g]]
      by (simp_all add: w pools_total_def stakes_total_def)
    ultimately show ?thesis by (simp add: cp_total_def cp_locked_def)
  qed
  moreover have "I (cp_world (release_escrow T t s))"
    using hosted_currency.unreserve_fst [OF goodD(3) [OF g] goodD(2) [OF g]] by (simp add: w)
  ultimately show ?thesis by (simp add: settled_def)
qed

text \<open>Slashing a pool takes the same amount from the held deposit and from the reserve.\<close>

lemma slash_pool_settled:
  assumes g: "good T I L s"
  shows "settled T I L s (fst (slash_pool T p s))"
proof (cases "\<exists>pool. Pools s p = Some pool \<and> deposit_held pool \<noteq> 0")
  case False
  then have "fst (slash_pool T p s) = s" by (auto simp: slash_pool_def split: option.splits)
  then show ?thesis using goodD(2) [OF g] by (simp add: settled_def)
next
  case True
  then obtain pool where pool: "Pools s p = Some pool" "deposit_held pool \<noteq> 0" by blast
  let ?v = "if deposit_held pool > FailureSlash T then FailureSlash T else deposit_held pool"
  let ?s = "fst (slash_pool T p s)"
  obtain w u where sl: "slash_reserved (cp_Currency T) (owner pool) ?v (cp_world s) = (w, u)" by fastforce
  have p: "p < NextPoolId s" by (rule cp_invD(1) [OF goodD(1) [OF g] pool(1)])
  have "pool_owed pool (owner pool) \<le> pools_total s (owner pool)"
    unfolding pools_total_def using p pool(1) by (rule owed_total_item_le)
  with goodD(6) [OF g, of "owner pool"] have "deposit_held pool \<le> cp_reserved T s (owner pool)"
    by (simp add: pool_owed_def)
  then have v: "?v \<le> cp_reserved T s (owner pool)" "?v \<le> deposit_held pool" by auto
  have u: "u = 0"
    using reservable_currency.slash_reserved_law [OF goodD(4) [OF g] sl] v(1) by auto
  have Ps: "Pools ?s = (Pools s)(p \<mapsto> pool\<lparr>deposit_held := deposit_held pool - ?v\<rparr>)" and W: "cp_world ?s = w"
    using pool sl by (simp_all add: slash_pool_def Let_def saturating_sub_def u)
  have "cp_reserved T ?s a + cp_total L s a = cp_reserved T s a + cp_total L ?s a" for a
  proof -
    have "cp_reserved T ?s a + (pools_total s a + (escrows_total s a + stakes_total s a + L (cp_world s) a)) =
      cp_reserved T s a + (pools_total ?s a + (escrows_total s a + stakes_total s a + L (cp_world s) a))"
    proof (rule release_part)
      show "pools_total ?s a + (if a = owner pool then ?v else 0) = pools_total s a"
        using owed_total_update [of p "NextPoolId s" "Pools s" pool pool_owed
            "pool\<lparr>deposit_held := deposit_held pool - ?v\<rparr>" a, OF p pool(1)] v(2)
        by (auto simp: pools_total_def Ps pool_owed_def)
      show "cp_reserved T ?s a = cp_reserved T s a - (if a = owner pool then ?v else 0)"
        using reservable_currency.slash_reserved_law [OF goodD(4) [OF g] sl] by (auto simp: W)
      show "pools_total s a \<le> cp_reserved T s a" by (rule goodD(6) [OF g])
    qed
    moreover have "escrows_total ?s a = escrows_total s a" "stakes_total ?s a = stakes_total s a"
      by (simp_all add: escrows_total_def stakes_total_def)
    moreover have "L (cp_world ?s) = L (cp_world s)"
      using hosted_currency.slash_reserved_keeps [OF goodD(3) [OF g] sl goodD(2) [OF g]] by (simp add: W)
    ultimately show ?thesis by (simp add: cp_total_def cp_locked_def)
  qed
  moreover have "I (cp_world ?s)"
    using hosted_currency.slash_reserved_keeps [OF goodD(3) [OF g] sl goodD(2) [OF g]] by (simp add: W)
  ultimately show ?thesis by (simp add: settled_def)
qed

lemma pools_like_cong:
  assumes "pools_like s s'" "Pools u = Pools s" "Pools u' = Pools s'"
  shows "pools_like u u'"
  using assms(1) unfolding pools_like_def assms(2,3) .

lemma pools_total_cong:
  "pools_total s a = n \<Longrightarrow> Pools u = Pools s \<Longrightarrow> NextPoolId u = NextPoolId s \<Longrightarrow> pools_total u a = n"
  by (simp add: pools_total_def)

lemma release_escrow_inv: "cp_inv s \<Longrightarrow> cp_inv (release_escrow T t s)"
  by (rule cp_inv_like)
    (auto simp: cp_inv_def escrow_ok_def reward_ok_def split: if_splits)

lemma slash_pool_inv: "cp_inv s \<Longrightarrow> cp_inv (fst (slash_pool T p s))"
  by (rule cp_inv_like [OF _ slash_pool_like])
    (auto simp: cp_inv_def escrow_ok_def reward_ok_def)

text \<open>Releasing the escrow of a failed task and slashing its pool.\<close>

lemma release_and_slash:
  assumes "good T I L s" "\<And>e. TaskEscrowStore s t = Some e \<Longrightarrow> \<not> claimed e"
  shows "good T I L (fst (slash_pool T p (release_escrow T t s)))"
    "settled T I L s (fst (slash_pool T p (release_escrow T t s)))"
proof -
  have r: "settled T I L s (release_escrow T t s)" by (rule release_escrow_settled [OF assms])
  have g: "good T I L (release_escrow T t s)"
    by (rule good_settled [OF assms(1) r release_escrow_inv [OF goodD(1) [OF assms(1)]]])
  note sl = slash_pool_settled [OF g, of p]
  show "good T I L (fst (slash_pool T p (release_escrow T t s)))"
    by (rule good_settled [OF g sl slash_pool_inv [OF goodD(1) [OF g]]])
  show "settled T I L s (fst (slash_pool T p (release_escrow T t s)))" by (rule settled_trans [OF r sl])
qed

text \<open>Changing a task's progress, and whatever else does not involve money.\<close>

lemma good_task_update:
  assumes g: "good T I L s" and t: "Tasks s t = Some task"
    and task': "reward_amount task' = reward_amount task" "user task' = user task"
      "\<And>e. TaskEscrowStore s t = Some e \<Longrightarrow> claimed e \<Longrightarrow> task_state task' = Completed"
    and s': "Tasks s' = (Tasks s)(t \<mapsto> task')" "pools_like s s'" "\<And>a. pools_total s' a = pools_total s a"
      "NextPoolId s' = NextPoolId s" "NextTaskId s' = NextTaskId s" "PoolByOwner s' = PoolByOwner s"
      "PoolStakes s' = PoolStakes s" "TaskEscrowStore s' = TaskEscrowStore s" "cp_world s' = cp_world s"
      "Rewards s' = Rewards s \<or> Rewards s' = (Rewards s)(t := reward_amount task)"
  shows "good T I L s'" "settled T I L s s'"
proof -
  note inv = goodD(1) [OF g]
  have e: "escrow_ok s' i e" if "TaskEscrowStore s' i = Some e" for i e
    using cp_invD(3) [OF inv, of i e] that t task' by (auto simp: escrow_ok_def s' split: if_splits)
  have r: "reward_ok s' i v" if "Rewards s' i = Some v" for i v
    using cp_invD(4) [OF inv, of i v] that t task' s'(10)
    by (auto simp: reward_ok_def s'(1) split: if_splits)
  have "keys_below (Tasks s') (NextTaskId s)"
    using inv cp_invD(6) [OF inv t] by (simp add: s' cp_inv_def keys_below_update)
  then have i': "cp_inv s'" using cp_inv_like [OF inv s'(2,4,5,6,7) _ e r] by blast
  show st: "settled T I L s s'"
    using goodD(2) [OF g]
    by (intro settled_same) (simp_all add: s' cp_locked_def escrows_total_def stakes_total_def)
  show "good T I L s'" by (rule good_settled [OF g st i'])
qed

lemma finalize_verification_good:
  assumes g: "good T I L s"
    and cl: "\<And>e. \<not> res \<Longrightarrow> TaskEscrowStore s t = Some e \<Longrightarrow> \<not> claimed e"
  shows "good T I L (fst (finalize_verification T now t p res s))"
    "settled T I L s (fst (finalize_verification T now t p res s))"
proof -
  have "good T I L (fst (finalize_verification T now t p res s)) \<and>
    settled T I L s (fst (finalize_verification T now t p res s))"
  proof (cases "\<exists>task ph. Tasks s t = Some task \<and> proof_hash task = Some ph")
    case False
    then have "fst (finalize_verification T now t p res s) = s"
      by (auto simp: finalize_verification_def split: option.splits)
    then show ?thesis using g goodD(2) [OF g] by (simp add: settled_def)
  next
    case True
    then obtain task ph where t: "Tasks s t = Some task" "proof_hash task = Some ph" by blast
    define st where "st = (if res then Completed else Failed)"
    define t1 where "t1 = task\<lparr>task_state := Verifying\<rparr>"
    define s1 where "s1 = cp_deposit_event (TaskStatusChanged t Verifying) (s\<lparr>Tasks := (Tasks s)(t \<mapsto> t1)\<rparr>)"
    define t2 where "t2 = t1\<lparr>verification_result := Some res, task_state := st\<rparr>"
    define s2 where "s2 = cp_deposit_event (TaskStatusChanged t st) (cp_deposit_event (ProofVerified t res)
      (s1\<lparr>Tasks := (Tasks s1)(t \<mapsto> t2)\<rparr>))"
    define s3 where "s3 = update_reputation p res (decrement_pool_activity p t s2)"
    define s4 where "s4 = s3\<lparr>ProofSubmittedAt := (ProofSubmittedAt s3)(t := None)\<rparr>"
    have P: "Pools s4 = Pools (update_reputation p res (decrement_pool_activity p t s2))"
      by (simp add: s4_def s3_def)
    have like: "pools_like s s4"
      by (rule pools_like_cong [OF update_reputation_like [of "decrement_pool_activity p t s2" p res] _ P])
        (simp add: s2_def s1_def)
    have tot: "pools_total s4 a = pools_total s a" for a
      by (rule pools_total_cong [OF _ P], subst update_reputation_total)
        (simp_all add: pools_total_def s4_def s3_def s2_def s1_def)
    show ?thesis
    proof (cases res)
      case False
      have fv: "fst (finalize_verification T now t p res s) = fst (slash_pool T p (release_escrow T t s4))"
        using t False unfolding s4_def s3_def s2_def s1_def t2_def t1_def st_def
        by (simp add: finalize_verification_def Let_def)
      have g4: "good T I L s4" "settled T I L s s4"
        by (rule good_task_update [OF g t(1), where task' = t2]; use like tot cl [OF False] in
            \<open>simp add: s4_def s3_def s2_def s1_def t2_def t1_def\<close>)+
      have e4: "\<not> claimed e" if "TaskEscrowStore s4 t = Some e" for e
        using that cl [OF False] by (simp add: s4_def s3_def s2_def s1_def)
      from release_and_slash [where t = t and p = p, OF g4(1) e4] settled_trans [OF g4(2)] show ?thesis by (simp add: fv)
    next
      case True
      define s5 where "s5 = (case reward_amount t2 of None \<Rightarrow> s4
        | Some r \<Rightarrow> cp_deposit_event (RewardAvailable t r) (s4\<lparr>Rewards := (Rewards s4)(t \<mapsto> r)\<rparr>))"
      have fv: "fst (finalize_verification T now t p res s) =
          (case Pools s5 (task_pool task) of None \<Rightarrow> s5
           | Some pool \<Rightarrow> s5\<lparr>cp_world := fst (OnTaskCompleted T now (owner pool) t ph [] 0 0 (cp_world s5))\<rparr>)"
        using t True unfolding s5_def s4_def s3_def s2_def s1_def t2_def t1_def st_def
        by (simp add: finalize_verification_def Let_def split: option.splits)
      have s5: "Pools s5 = Pools s4" "NextPoolId s5 = NextPoolId s" "NextTaskId s5 = NextTaskId s"
        "PoolByOwner s5 = PoolByOwner s" "PoolStakes s5 = PoolStakes s"
        "TaskEscrowStore s5 = TaskEscrowStore s" "cp_world s5 = cp_world s"
        "Tasks s5 = (Tasks s)(t \<mapsto> t2)"
        "Rewards s5 = Rewards s \<or> Rewards s5 = (Rewards s)(t := reward_amount task)"
        by (auto simp: s5_def s4_def s3_def s2_def s1_def t2_def t1_def split: option.splits)
      have l5: "pools_like s s5" by (rule pools_like_cong [OF like _ s5(1)]) simp
      have t5: "pools_total s5 a = pools_total s a" for a
        by (rule pools_total_cong [OF tot s5(1)]) (simp add: s5(2), simp add: s4_def s3_def s2_def s1_def)
      have g5: "good T I L s5" "settled T I L s s5"
        by (rule good_task_update [OF g t(1), where task' = t2]; use l5 t5 s5 True in
            \<open>simp add: t2_def t1_def st_def\<close>)+
      show ?thesis
      proof (cases "Pools s5 (task_pool task)")
        case None
        with g5 fv show ?thesis by simp
      next
        case (Some pool)
        let ?s6 = "s5\<lparr>cp_world := fst (OnTaskCompleted T now (owner pool) t ph [] 0 0 (cp_world s5))\<rparr>"
        have h: "task_completion_handler (OnTaskCompleted T) (cp_Currency T) I L"
          using g cp_okD(3) by (auto simp: good_def)
        have s6: "settled T I L s5 ?s6"
          using task_completion_handler.handler_inv [OF h goodD(2) [OF g5(1)]]
            task_completion_handler.handler_exact [OF h goodD(2) [OF g5(1)]]
          by (simp add: settled_def cp_total_def cp_locked_def pools_total_def escrows_total_def stakes_total_def)
        have "cp_inv ?s6"
          by (rule cp_inv_like [OF goodD(1) [OF g5(1)]])
            (use goodD(1) [OF g5(1)] in \<open>auto simp: cp_inv_def escrow_ok_def reward_ok_def\<close>)
        with good_settled [OF g5(1) s6] settled_trans [OF g5(2) s6] show ?thesis by (simp add: fv Some)
      qed
    qed
  qed
  then show "good T I L (fst (finalize_verification T now t p res s))"
    "settled T I L s (fst (finalize_verification T now t p res s))" by simp_all
qed

lemma open_task_unclaimed:
  assumes "cp_inv s" "Tasks s t = Some task" "task_state task \<noteq> Completed" "TaskEscrowStore s t = Some e"
  shows "\<not> claimed e"
  using cp_invD(3) [OF assms(1,4)] assms(2,3) by (auto simp: escrow_ok_def)

lemma good_event [simp]:
  "good T I L (cp_deposit_event e s) \<longleftrightarrow> good T I L s"
  "settled T I L u (cp_deposit_event e s) \<longleftrightarrow> settled T I L u s"
  by (simp_all add: good_def settled_def backed_def cp_total_def cp_locked_def pools_total_def
      escrows_total_def stakes_total_def cp_inv_def pool_ok_def escrow_ok_def reward_ok_def)

lemma mark_task_failed_good:
  assumes g: "good T I L s"
  shows "good T I L (fst (mark_task_failed T t b s)) \<and> settled T I L s (fst (mark_task_failed T t b s))"
proof (cases "\<exists>task. Tasks s t = Some task \<and> \<not> is_terminal (task_state task)")
  case False
  then have "fst (mark_task_failed T t b s) = s"
    by (auto simp: mark_task_failed_def split: option.splits)
  then show ?thesis using g goodD(2) [OF g] by (simp add: settled_def)
next
  case True
  then obtain task where t: "Tasks s t = Some task" "\<not> is_terminal (task_state task)" by blast
  define s1 where "s1 = s\<lparr>Tasks := (Tasks s)(t \<mapsto> task\<lparr>task_state := Failed, verification_result := Some False\<rparr>)\<rparr>"
  define s2 where "s2 = update_reputation (task_pool task) False (decrement_pool_activity (task_pool task) t s1)"
  define s3 where "s3 = s2\<lparr>ProofSubmittedAt := (ProofSubmittedAt s2)(t := None)\<rparr>"
  define s4 where "s4 = fst (slash_pool T (task_pool task) (release_escrow T t s3))"
  have mf: "fst (mark_task_failed T t b s) = s4 \<or>
      fst (mark_task_failed T t b s) = cp_deposit_event (TaskStatusChanged t Failed) s4 \<or>
      fst (mark_task_failed T t b s) =
        cp_deposit_event (TaskStatusChanged t Failed) (cp_deposit_event (TaskTimedOut t) s4)"
    using t unfolding s4_def s3_def s2_def s1_def
    by (simp add: mark_task_failed_def Let_def split: prod.splits option.splits)
  have unc: "\<not> claimed e" if "TaskEscrowStore s t = Some e" for e
    using open_task_unclaimed [OF goodD(1) [OF g] t(1) _ that] t(2) by (auto simp: is_terminal_def)
  have P: "Pools s3 = Pools (update_reputation (task_pool task) False (decrement_pool_activity (task_pool task) t s1))"
    by (simp add: s3_def s2_def)
  have like: "pools_like s s3"
    by (rule pools_like_cong [OF update_reputation_like _ P]) (simp add: s1_def)
  have tot: "pools_total s3 a = pools_total s a" for a
    by (rule pools_total_cong [OF _ P], subst update_reputation_total)
      (simp_all add: pools_total_def s3_def s2_def s1_def)
  have g3: "good T I L s3" "settled T I L s s3"
    by (rule good_task_update [OF g t(1),
          where task' = "task\<lparr>task_state := Failed, verification_result := Some False\<rparr>"];
        use like tot unc in \<open>simp add: s3_def s2_def s1_def\<close>)+
  have "\<not> claimed e" if "TaskEscrowStore s3 t = Some e" for e
    using that unc by (simp add: s3_def s2_def s1_def)
  from release_and_slash [where t = t and p = "task_pool task", OF g3(1) this]
  have g4: "good T I L s4" "settled T I L s s4" using settled_trans [OF g3(2)] by (auto simp: s4_def)
  from mf g4 show ?thesis by (elim disjE) simp_all
qed

lemma fold_good:
  assumes "good T I L s" "\<And>t u. good T I L u \<Longrightarrow> good T I L (f t u) \<and> settled T I L u (f t u)"
  shows "good T I L (fold f ts s) \<and> settled T I L s (fold f ts s)"
  using assms(1)
proof (induction ts arbitrary: s)
  case Nil
  then show ?case using goodD(2) [OF Nil] by (simp add: settled_def)
next
  case (Cons t ts)
  with assms(2) [OF Cons.prems, of t] Cons.IH [of "f t s"] show ?case
    by (auto intro: settled_trans)
qed

lemma on_initialize_good:
  assumes g: "good T I L s"
  shows "good T I L (on_initialize T now s) \<and> settled T I L s (on_initialize T now s)"
proof -
  let ?ids = "concat (map snd (iter_PoolTasks T (PoolTasks s)))"
  let ?s1 = "fold (auto_verify_one T now) (filter (\<lambda>t. classify T now s t = AutoVerify) ?ids) s"
  have "good T I L (auto_verify_one T now t u) \<and> settled T I L u (auto_verify_one T now t u)"
    if "good T I L u" for t u
    using finalize_verification_good [OF that, where res = True] that goodD(2) [OF that]
    by (auto simp: auto_verify_one_def settled_def split: option.splits)
  then have 1: "good T I L ?s1 \<and> settled T I L s ?s1" by (intro fold_good [OF g]) auto
  have "good T I L (expire_one T t u) \<and> settled T I L u (expire_one T t u)" if "good T I L u" for t u
    using mark_task_failed_good [OF that] by (simp add: expire_one_def)
  then have "good T I L (fold (expire_one T) xs ?s1) \<and> settled T I L ?s1 (fold (expire_one T) xs ?s1)" for xs
    using 1 by (intro fold_good) auto
  then show ?thesis using 1 by (auto simp: on_initialize_def Let_def intro: settled_trans)
qed

section \<open>Every call keeps the accounts\<close>

lemma register_pool_good:
  assumes g: "good T I L s" and call: "register_pool T orig model mem nv eff price s = Inr s'"
  shows "good T I L s' \<and> settled T I L s s'"
proof -
  obtain who w where who: "PoolByOwner s who = None"
    and w: "reserve (cp_Currency T) who (PoolDeposit T) (cp_world s) = Some w"
    and s': "s' = cp_deposit_event (PoolRegistered (NextPoolId s) who)
      (s\<lparr>cp_world := w,
         Pools := (Pools s)(NextPoolId s \<mapsto> new_pool T (NextPoolId s) who model mem nv eff price),
         PoolByOwner := (PoolByOwner s)(who \<mapsto> NextPoolId s),
         MinerReputation := (MinerReputation s)(who :=
           \<lparr>rep_reputation = min (InitialReputation T) 100, rep_total_tasks = 0,
            rep_successful_tasks = 0, rep_failed_tasks = 0\<rparr>),
         ActiveTaskCount := (ActiveTaskCount s)(NextPoolId s := 0), NextPoolId := Suc (NextPoolId s)\<rparr>)"
    using call by (auto simp: register_pool_def Let_def checked_Some split: option.splits if_splits)
  note inv = goodD(1) [OF g]
  have own: "owner pool \<noteq> who" if "Pools s p = Some pool" for p pool
    using cp_invD(2) [OF inv that] who by (auto simp: pool_ok_def)
  have "keys_below (Pools s') (NextPoolId s')"
    using inv by (simp add: s' cp_inv_def keys_below_new)
  moreover have "pool_ok s' p pool" if "Pools s' p = Some pool" for p pool
    using that cp_invD(2) [OF inv, of p pool] own [of p pool]
    by (auto simp: s' pool_ok_def new_pool_def split: if_splits)
  ultimately have i': "cp_inv s'"
    using inv by (simp add: cp_inv_def s' escrow_ok_def reward_ok_def)
  have "cp_reserved T s' a + cp_total L s a = cp_reserved T s a + cp_total L s' a" for a
  proof -
    have "pools_total s' a = pools_total s a + (if a = who then PoolDeposit T else 0)"
      by (simp add: pools_total_def s' owed_total_new pool_owed_def new_pool_def)
    moreover have "stakes_total s' a = stakes_total s a"
      using inv by (simp add: stakes_total_def s' cp_inv_def)
    moreover have "escrows_total s' a = escrows_total s a" by (simp add: escrows_total_def s')
    moreover have "L (cp_world s') = L (cp_world s)"
      using hosted_currency.reserve_keeps [OF goodD(3) [OF g] w goodD(2) [OF g]] by (simp add: s')
    ultimately show ?thesis
      by (simp add: cp_total_def cp_locked_def s' reservable_currency.reserve_reserved [OF goodD(4) [OF g] w])
  qed
  moreover have "I (cp_world s')"
    using hosted_currency.reserve_keeps [OF goodD(3) [OF g] w goodD(2) [OF g]] by (simp add: s')
  ultimately have "settled T I L s s'" by (simp add: settled_def)
  with good_settled [OF g this i'] show ?thesis by simp
qed

lemma update_pool_config_good:
  assumes g: "good T I L s" and call: "update_pool_config orig p model mem nv eff price s = Inr s'"
  shows "good T I L s' \<and> settled T I L s s'"
proof -
  obtain pool where pool: "Pools s p = Some pool"
    and s': "s' = cp_deposit_event (PoolConfigUpdated p) (s\<lparr>Pools := (Pools s)(p \<mapsto>
      pool\<lparr>gpu_model := model, gpu_memory := mem, has_nvlink := nv, nvlink_efficiency := eff,
           price_per_task := price\<rparr>)\<rparr>)"
    using call by (auto simp: update_pool_config_def split: option.splits if_splits)
  have like: "pools_like s s'" by (auto simp: pools_like_def s' pool split: option.splits)
  have "cp_inv s'"
    by (rule cp_inv_like [OF goodD(1) [OF g] like])
      (use goodD(1) [OF g] in \<open>auto simp: s' cp_inv_def escrow_ok_def reward_ok_def\<close>)
  moreover have "pools_total s' a = pools_total s a" for a
    by (rule pools_total_same) (auto simp: s' pool)
  then have "settled T I L s s'"
    using goodD(2) [OF g]
    by (intro settled_same) (simp_all add: s' cp_locked_def escrows_total_def stakes_total_def)
  ultimately show ?thesis using good_settled [OF g] by blast
qed

lemma deregister_pool_good:
  assumes g: "good T I L s" and call: "deregister_pool T orig p s = Inr s'"
  shows "good T I L s' \<and> settled T I L s s'"
proof -
  obtain pool where pool: "Pools s p = Some pool"
    and s': "s' = cp_deposit_event (PoolDeregistered p (owner pool))
      (s\<lparr>Pools := (Pools s)(p := None), PoolTasks := (PoolTasks s)(p := []),
         ActiveTaskCount := (ActiveTaskCount s)(p := 0),
         PoolByOwner := (PoolByOwner s)(owner pool := None),
         cp_world := fst (unreserve (cp_Currency T) (owner pool) (deposit_held pool) (cp_world s))\<rparr>)"
    using call by (auto simp: deregister_pool_def split: option.splits if_splits)
  note inv = goodD(1) [OF g]
  have own: "owner q \<noteq> owner pool" if "Pools s i = Some q" "i \<noteq> p" for i q
    using cp_invD(2) [OF inv that(1)] cp_invD(2) [OF inv pool] that(2) by (auto simp: pool_ok_def)
  have "pool_ok s' i q" if "Pools s' i = Some q" for i q
    using that cp_invD(2) [OF inv, of i q] own [of i q] by (auto simp: s' pool_ok_def split: if_splits)
  then have i': "cp_inv s'"
    using inv by (auto simp: cp_inv_def s' escrow_ok_def reward_ok_def keys_below_def)
  have keeps: "I (cp_world s') \<and> L (cp_world s') = L (cp_world s)"
    using hosted_currency.unreserve_fst [OF goodD(3) [OF g] goodD(2) [OF g]] by (simp add: s')
  have "cp_reserved T s' a + cp_total L s a = cp_reserved T s a + cp_total L s' a" for a
  proof -
    have "cp_reserved T s' a + (pools_total s a + (escrows_total s a + stakes_total s a + L (cp_world s) a)) =
      cp_reserved T s a + (pools_total s' a + (escrows_total s a + stakes_total s a + L (cp_world s) a))"
    proof (rule release_part)
      show "pools_total s' a + pool_owed pool a = pools_total s a"
        using owed_total_remove [of p "NextPoolId s" "Pools s" pool pool_owed a] cp_invD(1) [OF inv pool] pool
        by (simp add: pools_total_def s')
      show "cp_reserved T s' a = cp_reserved T s a - pool_owed pool a"
        by (auto simp: s' reservable_currency.unreserve_reserved [OF goodD(4) [OF g]] pool_owed_def)
      show "pools_total s a \<le> cp_reserved T s a" by (rule goodD(6) [OF g])
    qed
    with keeps show ?thesis
      by (simp add: cp_total_def cp_locked_def) (simp add: s' escrows_total_def stakes_total_def)
  qed
  with keeps have "settled T I L s s'" by (simp add: settled_def)
  with good_settled [OF g this i'] show ?thesis by simp
qed

lemma choose_pool_Inr:
  assumes "choose_pool T task pref s = Inr (s', p, sc)"
  shows "s' = set_pool_score p sc s"
  using assms
  by (auto simp: choose_pool_def select_best_pool_for_task_def Let_def
      split: option.splits if_splits prod.splits)

lemma submit_task_Inr:
  assumes "submit_task T now orig dims prio pref s = Inr s'"
  obtains who p sc pool reward w where
    "orig = Signed who" "0 < dim_m dims" "0 < dim_n dims" "0 < dim_k dims"
    "choose_pool T (new_task (NextTaskId s) who dims prio now) pref
      (cp_deposit_event (TaskStatusChanged (NextTaskId s) Pending)
        (cp_deposit_event (TaskSubmitted (NextTaskId s) who)
          (s\<lparr>Tasks := (Tasks s)(NextTaskId s \<mapsto> new_task (NextTaskId s) who dims prio now)\<rparr>))) =
      Inr (set_pool_score p sc (cp_deposit_event (TaskStatusChanged (NextTaskId s) Pending)
        (cp_deposit_event (TaskSubmitted (NextTaskId s) who)
          (s\<lparr>Tasks := (Tasks s)(NextTaskId s \<mapsto> new_task (NextTaskId s) who dims prio now)\<rparr>))), p, sc)"
    "Pools s p = Some pool" "ActiveTaskCount s p < MaxTasksPerPool T"
    "calculate_reward dims (price_per_task pool) (has_nvlink pool) (nvlink_efficiency pool) = Inr reward"
    "reserve (cp_Currency T) who (saturating_add 128 reward (TaskDeposit T)) (cp_world s) = Some w"
    "cp_world s' = w" "NextTaskId s' = Suc (NextTaskId s)" "NextPoolId s' = NextPoolId s"
    "Tasks s' = (Tasks s)(NextTaskId s \<mapsto> (new_task (NextTaskId s) who dims prio now)
      \<lparr>task_pool := p, task_state := Computing, reward_amount := Some reward\<rparr>)"
    "Pools s' = (Pools s)(p \<mapsto> pool\<lparr>score := sc\<rparr>)" "PoolByOwner s' = PoolByOwner s"
    "PoolStakes s' = PoolStakes s" "Rewards s' = Rewards s" "ProofSubmittedAt s' = ProofSubmittedAt s"
    "TaskEscrowStore s' = (TaskEscrowStore s)(NextTaskId s \<mapsto>
      \<lparr>escrow_user = who, escrow_pool_owner = owner pool, escrow_reward = reward,
       escrow_deposit = TaskDeposit T, claimed = False\<rparr>)"
    "PoolTasks s' = (PoolTasks s)(p := PoolTasks s p @ [NextTaskId s])"
    "ActiveTaskCount s' = (ActiveTaskCount s)(p := saturating_add 32 (ActiveTaskCount s p) 1)"
proof -
  let ?t = "NextTaskId s"
  from assms obtain who where who: "orig = Signed who" "0 < dim_m dims" "0 < dim_n dims" "0 < dim_k dims"
    by (auto simp: submit_task_def Let_def split: option.splits if_splits)
  let ?task = "new_task ?t who dims prio now"
  let ?s1 = "cp_deposit_event (TaskStatusChanged ?t Pending)
    (cp_deposit_event (TaskSubmitted ?t who) (s\<lparr>Tasks := (Tasks s)(?t \<mapsto> ?task)\<rparr>))"
  from assms who obtain s2 p sc where ch: "choose_pool T ?task pref ?s1 = Inr (s2, p, sc)"
    by (auto simp: submit_task_def Let_def split: sum.splits)
  have s2: "s2 = set_pool_score p sc ?s1" by (rule choose_pool_Inr [OF ch])
  from assms who ch obtain q reward w where q: "Pools s2 p = Some q" "ActiveTaskCount s2 p < MaxTasksPerPool T"
      "calculate_reward dims (price_per_task q) (has_nvlink q) (nvlink_efficiency q) = Inr reward"
      "reserve (cp_Currency T) who (saturating_add 128 reward (TaskDeposit T)) (cp_world s2) = Some w"
    by (auto simp: submit_task_def Let_def split: sum.splits option.splits if_splits)
  from q(1) obtain pool where pool: "Pools s p = Some pool" "q = pool\<lparr>score := sc\<rparr>"
    by (auto simp: s2 set_pool_score_def split: option.splits)
  have P2: "Pools s2 = (Pools s)(p \<mapsto> pool\<lparr>score := sc\<rparr>)"
    using pool by (simp add: s2 set_pool_score_def)
  show ?thesis
    by (rule that [of who p sc pool reward w])
      (use assms who ch q pool P2 in \<open>auto simp: submit_task_def Let_def checked_Some try_push_Some s2
        split: option.splits\<close>)
qed

lemma submit_task_good:
  assumes g: "good T I L s" and call: "submit_task T now orig dims prio pref s = Inr s'"
  shows "good T I L s' \<and> settled T I L s s'"
  using call
proof (rule submit_task_Inr)
  fix who p sc and pool :: compute_pool and reward w
  let ?t = "NextTaskId s"
  let ?task = "(new_task ?t who dims prio now)\<lparr>task_pool := p, task_state := Computing, reward_amount := Some reward\<rparr>"
  let ?e = "\<lparr>escrow_user = who, escrow_pool_owner = owner pool, escrow_reward = reward,
       escrow_deposit = TaskDeposit T, claimed = False\<rparr>"
  assume pool: "Pools s p = Some pool"
    and w: "reserve (cp_Currency T) who (saturating_add 128 reward (TaskDeposit T)) (cp_world s) = Some w"
    and s': "cp_world s' = w" "NextTaskId s' = Suc ?t" "NextPoolId s' = NextPoolId s"
      "Tasks s' = (Tasks s)(?t \<mapsto> ?task)" "Pools s' = (Pools s)(p \<mapsto> pool\<lparr>score := sc\<rparr>)"
      "PoolByOwner s' = PoolByOwner s" "PoolStakes s' = PoolStakes s" "Rewards s' = Rewards s"
      "TaskEscrowStore s' = (TaskEscrowStore s)(?t \<mapsto> ?e)"
  note inv = goodD(1) [OF g]
  have fresh: "Tasks s ?t = None" using inv by (simp add: cp_inv_def keys_below_fresh)
  have "keys_below (Tasks s') (NextTaskId s')" "keys_below (Pools s') (NextPoolId s')"
    using inv cp_invD(1) [OF inv pool]
    by (simp_all add: s' cp_inv_def keys_below_new keys_below_update)
  moreover have "pool_ok s' i q" if "Pools s' i = Some q" for i q
    using that cp_invD(2) [OF inv, of i q] cp_invD(2) [OF inv pool]
    by (auto simp: s' pool_ok_def split: if_splits)
  moreover have "escrow_ok s' i e" if "TaskEscrowStore s' i = Some e" for i e
    using that cp_invD(3) [OF inv, of i e] fresh
    by (auto simp: s' escrow_ok_def new_task_def split: if_splits)
  moreover have "reward_ok s' i r" if "Rewards s' i = Some r" for i r
    using that cp_invD(4) [OF inv, of i r] fresh by (auto simp: s' reward_ok_def split: if_splits)
  ultimately have i': "cp_inv s'" using inv by (simp add: cp_inv_def s')
  have keeps: "I (cp_world s') \<and> L (cp_world s') = L (cp_world s)"
    using hosted_currency.reserve_keeps [OF goodD(3) [OF g] w goodD(2) [OF g]] by (simp add: s')
  have pt: "pools_total s' a = pools_total s a" for a
    by (rule pools_total_same) (auto simp: s' pool)
  have "cp_reserved T s' a + cp_total L s a = cp_reserved T s a + cp_total L s' a" for a
  proof -
    have "escrows_total s' a = escrows_total s a + (if a = who then saturating_add 128 reward (TaskDeposit T) else 0)"
      by (simp add: escrows_total_def s' owed_total_new escrow_owed_def)
    moreover have "stakes_total s' a = stakes_total s a" by (simp add: stakes_total_def s')
    ultimately show ?thesis
      using keeps by (simp add: cp_total_def cp_locked_def pt)
        (simp add: s' reservable_currency.reserve_reserved [OF goodD(4) [OF g] w])
  qed
  with keeps have "settled T I L s s'" by (simp add: settled_def)
  with good_settled [OF g this i'] show ?thesis by simp
qed

lemma submit_proof_good:
  assumes g: "good T I L s" and call: "submit_proof T now orig t ph s = Inr s'"
  shows "good T I L s' \<and> settled T I L s s'"
proof -
  obtain task where t: "Tasks s t = Some task" "task_state task = Computing"
    and s': "s' = cp_deposit_event (TaskStatusChanged t ProofSubmitted)
      (cp_deposit_event (ProofSubmitted_ev t (task_pool task))
        (s\<lparr>Tasks := (Tasks s)(t \<mapsto> task\<lparr>proof_hash := Some ph, task_state := ProofSubmitted\<rparr>),
           ProofSubmittedAt := (ProofSubmittedAt s)(t \<mapsto> now)\<rparr>))"
    using call by (auto simp: submit_proof_def split: option.splits if_splits)
  have "\<not> claimed e" if "TaskEscrowStore s t = Some e" for e
    using open_task_unclaimed [OF goodD(1) [OF g] t(1) _ that] t(2) by auto
  then have "good T I L s'" "settled T I L s s'"
    by (intro good_task_update [OF g t(1),
          where task' = "task\<lparr>proof_hash := Some ph, task_state := ProofSubmitted\<rparr>"];
        simp add: s' pools_total_def)+
  then show ?thesis by simp
qed

lemma verify_proof_Inr:
  assumes "verify_proof T now orig t res s = Inr s'"
  obtains sender task pool where "orig = Signed sender" "Tasks s t = Some task"
    "task_state task = ProofSubmitted" "proof_hash task \<noteq> None" "Pools s (task_pool task) = Some pool"
    "owner pool \<noteq> sender" "finalize_verification T now t (task_pool task) res s = (s', None)"
  using assms
  by (auto simp: verify_proof_def commit_def prod_eq_iff split: option.splits if_splits)

lemma verify_proof_good:
  assumes g: "good T I L s" and call: "verify_proof T now orig t res s = Inr s'"
  shows "good T I L s' \<and> settled T I L s s'"
  using call
proof (rule verify_proof_Inr)
  fix sender task pool
  assume t: "Tasks s t = Some task" "task_state task = ProofSubmitted"
    and fv: "finalize_verification T now t (task_pool task) res s = (s', None)"
  have "\<not> claimed e" if "TaskEscrowStore s t = Some e" for e
    using open_task_unclaimed [OF goodD(1) [OF g] t(1) _ that] t(2) by auto
  with finalize_verification_good [OF g, of res t now "task_pool task"] show ?thesis by (simp add: fv)
qed

lemma claim_reward_Inr:
  assumes "claim_reward T orig t s = Inr s'"
  obtains sender task pool reward e w where "orig = Signed sender" "Tasks s t = Some task"
    "task_state task = Completed" "verification_result task = Some True"
    "Pools s (task_pool task) = Some pool" "owner pool = sender"
    "Rewards s t = Some reward" "TaskEscrowStore s t = Some e" "\<not> claimed e"
    "repatriate_reserved (cp_Currency T) (escrow_user e) sender reward (cp_world s) = Some (w, 0)"
    "s' = cp_deposit_event (RewardClaimed t sender reward)
      (s\<lparr>cp_world := fst (unreserve (cp_Currency T) (escrow_user e) (escrow_deposit e) w),
         TaskEscrowStore := (TaskEscrowStore s)(t \<mapsto> e\<lparr>claimed := True\<rparr>),
         Rewards := (Rewards s)(t := None)\<rparr>)"
  using assms by (auto simp: claim_reward_def split: option.splits if_splits)

lemma claim_reward_good:
  assumes g: "good T I L s" and call: "claim_reward T orig t s = Inr s'"
  shows "good T I L s' \<and> settled T I L s s'"
  using call
proof (rule claim_reward_Inr)
  fix sender task pool reward e w
  assume t: "Tasks s t = Some task" "task_state task = Completed"
    and re: "Rewards s t = Some reward" "TaskEscrowStore s t = Some e" "\<not> claimed e"
    and w: "repatriate_reserved (cp_Currency T) (escrow_user e) sender reward (cp_world s) = Some (w, 0)"
    and s': "s' = cp_deposit_event (RewardClaimed t sender reward)
      (s\<lparr>cp_world := fst (unreserve (cp_Currency T) (escrow_user e) (escrow_deposit e) w),
         TaskEscrowStore := (TaskEscrowStore s)(t \<mapsto> e\<lparr>claimed := True\<rparr>),
         Rewards := (Rewards s)(t := None)\<rparr>)"
  note inv = goodD(1) [OF g]
  have rew: "reward = escrow_reward e"
    using cp_invD(3) [OF inv re(2)] cp_invD(4) [OF inv re(1)] by (auto simp: escrow_ok_def reward_ok_def)
  have i': "cp_inv s'"
    by (rule cp_inv_like [OF inv])
      (use inv t re cp_invD(3) [OF inv re(2)] in
        \<open>auto simp: s' cp_inv_def escrow_ok_def reward_ok_def split: if_splits\<close>)
  have kw: "I w \<and> L w = L (cp_world s)"
    using hosted_currency.repatriate_reserved_keeps [OF goodD(3) [OF g] w goodD(2) [OF g]] .
  then have keeps: "I (cp_world s') \<and> L (cp_world s') = L (cp_world s)"
    using hosted_currency.unreserve_fst [OF goodD(3) [OF g], of w] by (simp add: s')
  have "cp_reserved T s' a + cp_total L s a = cp_reserved T s a + cp_total L s' a" for a
  proof -
    let ?v = "escrow_owed e a"
    have b: "cp_reserved T s a < 2 ^ 128" by (rule reservable_currency.reserved_bounded [OF goodD(4) [OF g]])
    have r: "cp_reserved T s' a =
        cp_reserved T s a - (if a = escrow_user e then escrow_reward e + escrow_deposit e else 0)"
      by (simp add: s' reservable_currency.unreserve_reserved [OF goodD(4) [OF g]]
          reservable_currency.repatriate_reserved_reserved [OF goodD(4) [OF g] w] rew)
    have "cp_reserved T s' a + (escrows_total s a + (pools_total s a + stakes_total s a + L (cp_world s) a)) =
      cp_reserved T s a + (escrows_total s' a + (pools_total s a + stakes_total s a + L (cp_world s) a))"
    proof (rule release_part)
      show "escrows_total s' a + ?v = escrows_total s a"
        using owed_total_update [of t "NextTaskId s" "TaskEscrowStore s" e escrow_owed "e\<lparr>claimed := True\<rparr>" a]
          cp_invD(5) [OF inv re(2)] re(2)
        by (simp add: escrows_total_def s') (simp add: escrow_owed_def)
      show "cp_reserved T s' a = cp_reserved T s a - ?v"
        using r re(3) b by (auto simp: escrow_owed_def saturating_add_def)
      show "escrows_total s a \<le> cp_reserved T s a" by (rule goodD(7) [OF g])
    qed
    with keeps show ?thesis
      by (simp add: cp_total_def cp_locked_def) (simp add: s' pools_total_def stakes_total_def)
  qed
  with keeps have "settled T I L s s'" by (simp add: settled_def)
  with good_settled [OF g this i'] show ?thesis by simp
qed

lemma dispute_verification_good:
  assumes g: "good T I L s" and call: "dispute_verification T orig t s = Inr s'"
    and unc: "\<And>e. TaskEscrowStore s t = Some e \<Longrightarrow> \<not> claimed e"
  shows "good T I L s' \<and> settled T I L s s'"
proof -
  from call obtain who task where t: "Tasks s t = Some task"
    and vr: "verification_result task = Some True \<or> verification_result task = Some False"
    by (auto simp: dispute_verification_def split: option.splits if_splits)
  show ?thesis
  proof (cases "verification_result task = Some True")
    case True
    define s1 where "s1 = s\<lparr>Tasks := (Tasks s)(t \<mapsto>
      task\<lparr>task_state := Failed, verification_result := Some False, disputed := True\<rparr>)\<rparr>"
    define s2 where "s2 = update_reputation (task_pool task) False s1"
    have tot: "pools_total s2 a = pools_total s a" for a
      by (simp add: s2_def update_reputation_total) (simp add: pools_total_def s1_def)
    have like: "pools_like s s2"
      unfolding s2_def by (rule pools_like_cong [OF update_reputation_like]) (simp_all add: s1_def)
    have g2: "good T I L s2" "settled T I L s s2"
      by (rule good_task_update [OF g t,
            where task' = "task\<lparr>task_state := Failed, verification_result := Some False, disputed := True\<rparr>"];
          use like tot unc in \<open>simp add: s2_def s1_def\<close>)+
    have "TaskEscrowStore s2 = TaskEscrowStore s" by (simp add: s2_def s1_def)
    then have "good T I L (fst (slash_pool T (task_pool task) (release_escrow T t s2)))"
      "settled T I L s2 (fst (slash_pool T (task_pool task) (release_escrow T t s2)))"
      by (intro release_and_slash [OF g2(1)]; use unc in simp)+
    moreover have "\<exists>e1 e2. s' = cp_deposit_event e1 (cp_deposit_event e2
        (fst (slash_pool T (task_pool task) (release_escrow T t s2))))"
      using call t True unfolding s2_def s1_def
      by (auto simp: dispute_verification_def Let_def split: option.splits if_splits prod.splits)
    ultimately show ?thesis using settled_trans [OF g2(2)] by auto
  next
    case False
    with vr have vf: "verification_result task = Some False" by simp
    let ?task = "task\<lparr>task_state := Completed, verification_result := Some True, disputed := True\<rparr>"
    define s1 where "s1 = s\<lparr>Tasks := (Tasks s)(t \<mapsto> ?task)\<rparr>"
    define s2 where "s2 = (case reward_amount task of None \<Rightarrow> s1
      | Some r \<Rightarrow> cp_deposit_event (RewardAvailable t r) (s1\<lparr>Rewards := (Rewards s1)(t \<mapsto> r)\<rparr>))"
    have s2: "Pools s2 = Pools s" "NextPoolId s2 = NextPoolId s" "NextTaskId s2 = NextTaskId s"
      "PoolByOwner s2 = PoolByOwner s" "PoolStakes s2 = PoolStakes s"
      "TaskEscrowStore s2 = TaskEscrowStore s" "cp_world s2 = cp_world s" "Tasks s2 = (Tasks s)(t \<mapsto> ?task)"
      "Rewards s2 = Rewards s \<or> Rewards s2 = (Rewards s)(t := reward_amount task)"
      by (auto simp: s2_def s1_def split: option.splits)
    define s3 where "s3 = update_reputation (task_pool task) True s2"
    have "pools_total s3 a = pools_total s a" for a
      by (simp add: s3_def update_reputation_total) (simp add: pools_total_def s2)
    moreover have "pools_like s s3"
      unfolding s3_def by (rule pools_like_cong [OF update_reputation_like]) (simp_all add: s2)
    ultimately have "good T I L s3" "settled T I L s s3"
      by (intro good_task_update [OF g t, where task' = ?task]; use s2 in \<open>simp add: s3_def\<close>)+
    moreover have "\<exists>e1 e2. s' = cp_deposit_event e1 (cp_deposit_event e2 s3)"
      using call t vf unfolding s3_def s2_def s1_def
      by (auto simp: dispute_verification_def Let_def split: option.splits if_splits)
    ultimately show ?thesis by auto
  qed
qed

text \<open>One staker's entry of one pool is part of the staked total.\<close>

lemma stakes_total_update:
  assumes "p < NextPoolId s" "NextPoolId s' = NextPoolId s"
    "PoolStakes s' = (PoolStakes s)(p := (PoolStakes s p)(who := v))"
  shows "stakes_total s' a + (if a = who then PoolStakes s p who else 0) =
      stakes_total s a + (if a = who then v else 0)"
    "PoolStakes s p who \<le> stakes_total s who"
proof -
  have split: "(\<Sum>i<NextPoolId s. f i) = f p + (\<Sum>i \<in> {..<NextPoolId s} - {p}. f i)" for f :: "nat \<Rightarrow> nat"
    using assms(1) by (simp add: sum.remove)
  have "(\<Sum>i \<in> {..<NextPoolId s} - {p}. PoolStakes s' i a) = (\<Sum>i \<in> {..<NextPoolId s} - {p}. PoolStakes s i a)"
    by (rule sum.cong) (auto simp: assms(3))
  then show "stakes_total s' a + (if a = who then PoolStakes s p who else 0) =
      stakes_total s a + (if a = who then v else 0)"
    unfolding stakes_total_def assms(2) split [of "\<lambda>i. PoolStakes s' i a"] split [of "\<lambda>i. PoolStakes s i a"]
    by (simp add: assms(3))
  show "PoolStakes s p who \<le> stakes_total s who"
    unfolding stakes_total_def split [of "\<lambda>i. PoolStakes s i who"] by simp
qed

lemma stake_to_pool_good:
  assumes g: "good T I L s" and call: "stake_to_pool T orig p v s = Inr s'"
  shows "good T I L s' \<and> settled T I L s s'"
proof -
  obtain who pool w where pool: "Pools s p = Some pool"
    and w: "reserve (cp_Currency T) who v (cp_world s) = Some w"
    and s': "s' = cp_deposit_event (Staked who p v)
      (s\<lparr>cp_world := w,
         PoolStakes := (PoolStakes s)(p := (PoolStakes s p)(who := saturating_add 128 (PoolStakes s p who) v)),
         TotalPoolStake := (TotalPoolStake s)(p := saturating_add 128 (TotalPoolStake s p) v)\<rparr>)"
    using call by (auto simp: stake_to_pool_def split: option.splits if_splits)
  note inv = goodD(1) [OF g]
  have p: "p < NextPoolId s" by (rule cp_invD(1) [OF inv pool])
  let ?st = "saturating_add 128 (PoolStakes s p who) v"
  note upd = stakes_total_update [OF p, of s' who ?st]
  have le: "PoolStakes s p who + v \<le> cp_reserved T s who + v"
    using upd(2) goodD(8) [OF g, of who] by (simp add: s')
  also have "\<dots> = reserved_balance (cp_Currency T) w who"
    using reservable_currency.reserve_reserved [OF goodD(4) [OF g] w, of who] by simp
  also have "\<dots> < 2 ^ 128" by (rule reservable_currency.reserved_bounded [OF goodD(4) [OF g]])
  finally have st: "?st = PoolStakes s p who + v" by (rule saturating_add_exact)
  have keeps: "I (cp_world s') \<and> L (cp_world s') = L (cp_world s)"
    using hosted_currency.reserve_keeps [OF goodD(3) [OF g] w goodD(2) [OF g]] by (simp add: s')
  have "cp_reserved T s' a + cp_total L s a = cp_reserved T s a + cp_total L s' a" for a
  proof -
    have "stakes_total s' a = stakes_total s a + (if a = who then v else 0)"
      using upd(1) [of a] st by (simp add: s' split: if_splits)
    moreover have "pools_total s' a = pools_total s a" "escrows_total s' a = escrows_total s a"
      by (simp_all add: s' pools_total_def escrows_total_def)
    moreover have "cp_reserved T s' a = cp_reserved T s a + (if a = who then v else 0)"
      using reservable_currency.reserve_reserved [OF goodD(4) [OF g] w, of a] by (simp add: s')
    ultimately show ?thesis
      using keeps by (simp add: cp_total_def cp_locked_def)
  qed
  with keeps have se: "settled T I L s s'" by (simp add: settled_def)
  have "cp_inv s'"
    using inv p by (simp add: s' cp_inv_def pool_ok_def escrow_ok_def reward_ok_def)
  with good_settled [OF g se] se show ?thesis by simp
qed

lemma unstake_from_pool_good:
  assumes g: "good T I L s" and call: "unstake_from_pool T orig p v s = Inr s'"
  shows "good T I L s' \<and> settled T I L s s'"
proof -
  obtain who where v: "v \<le> PoolStakes s p who"
    and s': "s' = cp_deposit_event (Unstaked who p v)
      (s\<lparr>cp_world := fst (unreserve (cp_Currency T) who v (cp_world s)),
         PoolStakes := (PoolStakes s)(p := (PoolStakes s p)(who := saturating_sub (PoolStakes s p who) v)),
         TotalPoolStake := (TotalPoolStake s)(p := saturating_sub (TotalPoolStake s p) v)\<rparr>)"
    using call by (auto simp: unstake_from_pool_def split: option.splits if_splits)
  note inv = goodD(1) [OF g]
  have keeps: "I (cp_world s') \<and> L (cp_world s') = L (cp_world s)"
    using hosted_currency.unreserve_fst [OF goodD(3) [OF g] goodD(2) [OF g]] by (simp add: s')
  have st: "stakes_total s' a + (if a = who then v else 0) = stakes_total s a" for a
  proof (cases "p < NextPoolId s")
    case True
    have "NextPoolId s' = NextPoolId s"
      "PoolStakes s' = (PoolStakes s)(p := (PoolStakes s p)(who := PoolStakes s p who - v))"
      by (simp_all add: s' saturating_sub_def)
    from stakes_total_update(1) [OF True this, of a] v stakes_total_update(2) [OF True this] show ?thesis
      by (cases "a = who") simp_all
  next
    case False
    then have "v = 0" using inv v by (simp add: cp_inv_def)
    moreover have "PoolStakes s' = PoolStakes s"
      using \<open>v = 0\<close> by (simp add: s' saturating_sub_def)
    ultimately show ?thesis by (simp add: stakes_total_def) (simp add: s')
  qed
  have "cp_reserved T s' a + cp_total L s a = cp_reserved T s a + cp_total L s' a" for a
  proof -
    have "cp_reserved T s' a + (stakes_total s a + (pools_total s a + escrows_total s a + L (cp_world s) a)) =
      cp_reserved T s a + (stakes_total s' a + (pools_total s a + escrows_total s a + L (cp_world s) a))"
      by (rule release_part [OF st _ goodD(8) [OF g]])
        (simp add: s' reservable_currency.unreserve_reserved [OF goodD(4) [OF g]])
    with keeps show ?thesis
      by (simp add: cp_total_def cp_locked_def) (simp add: s' pools_total_def escrows_total_def)
  qed
  with keeps have se: "settled T I L s s'" by (simp add: settled_def)
  have "cp_inv s'"
    using inv by (simp add: s' cp_inv_def pool_ok_def escrow_ok_def reward_ok_def saturating_sub_def)
  with good_settled [OF g se] se show ?thesis by simp
qed

lemma cp_dispatch_good:
  assumes "good T I L s" "cp_dispatch T now orig c s = Inr s'" "no_late_dispute c s"
  shows "good T I L s' \<and> settled T I L s s'"
proof (cases c)
  case (DisputeVerification t)
  with assms show ?thesis
    by (intro dispute_verification_good [of T I L s orig t]) (auto simp: no_late_dispute_def)
qed (use assms(2) in \<open>auto dest: register_pool_good [OF assms(1)] update_pool_config_good [OF assms(1)]
    deregister_pool_good [OF assms(1)] submit_task_good [OF assms(1)] submit_proof_good [OF assms(1)]
    verify_proof_good [OF assms(1)] claim_reward_good [OF assms(1)] stake_to_pool_good [OF assms(1)]
    unstake_from_pool_good [OF assms(1)]\<close>)

lemma cp_step_good:
  assumes "cp_step T I L no_late_dispute s s'" "good T I L s"
  shows "good T I L s' \<and> settled T I L s s'"
  using assms
proof (induction rule: cp_step.induct)
  case (call now orig c s s')
  then show ?case by (intro cp_dispatch_good)
next
  case (hook s now)
  then show ?case by (rule on_initialize_good)
next
  case (environment w s)
  have inv: "cp_inv (s\<lparr>cp_world := w\<rparr>)"
    using goodD(1) [OF environment.prems] by (simp add: cp_inv_def pool_ok_def escrow_ok_def reward_ok_def)
  have se: "settled T I L s (s\<lparr>cp_world := w\<rparr>)"
    using environment.hyps
    by (simp add: settled_def cp_total_def cp_locked_def pools_total_def escrows_total_def stakes_total_def)
  from good_settled [OF environment.prems se inv] se show ?case by simp
qed

interpretation cpe: escrow_pallet "cp_step T I L no_late_dispute"
    "\<lambda>s. cp_ok T I L \<and> cp_inv s \<and> I (cp_world s)" "cp_total L" "cp_reserved T"
proof unfold_locales
  fix s s' a
  assume "cp_step T I L no_late_dispute s s'" "cp_ok T I L \<and> cp_inv s \<and> I (cp_world s)"
    "backed (cp_total L) (cp_reserved T) s"
  then have "good T I L s' \<and> settled T I L s s'" by (intro cp_step_good) (simp_all add: good_def)
  then show "cp_ok T I L \<and> cp_inv s' \<and> I (cp_world s')"
    "cp_reserved T s' a + cp_total L s a = cp_reserved T s a + cp_total L s' a"
    by (simp_all add: good_def settled_def)
qed

lemma cp_init_inv: "cp_inv (cp_init w)"
  by (simp add: cp_inv_def cp_init_def keys_below_def)

lemma cp_init_locked: "cp_locked (cp_init w) a = 0"
  by (simp add: cp_locked_def pools_total_def escrows_total_def stakes_total_def cp_init_def)

lemma cp_reachable:
  assumes "cp_ok T I L" "I w" "\<forall>a. L w a \<le> reserved_balance (cp_Currency T) w a"
    "(cp_step T I L no_late_dispute)\<^sup>*\<^sup>* (cp_init w) s"
  shows "good T I L s" "cp_reserved T s a + L w a = reserved_balance (cp_Currency T) w a + cp_total L s a"
proof -
  have w: "cp_ok T I L \<and> cp_inv (cp_init w) \<and> I (cp_world (cp_init w))"
    "backed (cp_total L) (cp_reserved T) (cp_init w)"
    using assms(1-3) by (simp_all add: cp_init_inv backed_def cp_total_def cp_init_locked) (simp_all add: cp_init_def)
  from cpe.run_backed [OF assms(4) w] show "good T I L s" by (simp add: good_def)
  from cpe.run_exact [OF assms(4) w, of a]
  show "cp_reserved T s a + L w a = reserved_balance (cp_Currency T) w a + cp_total L s a"
    by (simp add: cp_total_def cp_init_locked) (simp add: cp_init_def cp_total_def)
qed

section \<open>Open tasks are listed\<close>

text \<open>
  \<open>act_inv\<close>: an open task is in the list of its pool, which exists; a list holds open tasks of its pool
  only, each once, and the counter is its length; a submitted proof is stored; a failed task has no
  escrow.
\<close>

definition task_ok :: "'w cp_state \<Rightarrow> nat \<Rightarrow> compute_task \<Rightarrow> bool" where
  "task_ok s t task \<longleftrightarrow>
     (\<not> is_terminal (task_state task) \<longrightarrow> t \<in> set (PoolTasks s (task_pool task))) \<and>
     (task_state task = ProofSubmitted \<longrightarrow> proof_hash task \<noteq> None) \<and>
     (task_state task = Failed \<longrightarrow> TaskEscrowStore s t = None)"

definition list_ok :: "'w cp_state \<Rightarrow> nat \<Rightarrow> bool" where
  "list_ok s p \<longleftrightarrow>
     distinct (PoolTasks s p) \<and> ActiveTaskCount s p = length (PoolTasks s p) \<and>
     (\<forall>t \<in> set (PoolTasks s p). Pools s p \<noteq> None \<and>
        (\<exists>task. Tasks s t = Some task \<and> task_pool task = p \<and> \<not> is_terminal (task_state task)))"

definition act_inv :: "'w cp_state \<Rightarrow> bool" where
  "act_inv s \<longleftrightarrow>
     keys_below (Pools s) (NextPoolId s) \<and> keys_below (Tasks s) (NextTaskId s) \<and>
     (\<forall>t. TaskEscrowStore s t \<noteq> None \<longrightarrow> t < NextTaskId s) \<and>
     (\<forall>t task. Tasks s t = Some task \<longrightarrow> task_ok s t task) \<and> (\<forall>p. list_ok s p)"

lemma act_invD:
  assumes "act_inv s"
  shows "Tasks s t = Some task \<Longrightarrow> task_ok s t task" "list_ok s p" "Tasks s t = Some task \<Longrightarrow> t < NextTaskId s"
    "Pools s p = Some pool \<Longrightarrow> p < NextPoolId s" "TaskEscrowStore s t \<noteq> None \<Longrightarrow> t < NextTaskId s"
  using assms unfolding act_inv_def keys_below_def by (metis option.distinct(1))+

lemma open_task_pool:
  assumes "act_inv s" "Tasks s t = Some task" "\<not> is_terminal (task_state task)"
  shows "Pools s (task_pool task) \<noteq> None" "t \<in> set (PoolTasks s (task_pool task))"
  using act_invD(1) [OF assms(1,2)] act_invD(2) [OF assms(1), of "task_pool task"] assms(2,3)
  by (auto simp: task_ok_def list_ok_def)

text \<open>A change that touches none of the parts the invariant reads, up to the contents of the pools.\<close>

lemma act_inv_cong:
  assumes "act_inv s" "Tasks s' = Tasks s" "PoolTasks s' = PoolTasks s"
    "ActiveTaskCount s' = ActiveTaskCount s" "dom (Pools s') = dom (Pools s)"
    "NextPoolId s' = NextPoolId s" "NextTaskId s' = NextTaskId s"
    "\<And>t. TaskEscrowStore s' t \<noteq> None \<Longrightarrow> TaskEscrowStore s t \<noteq> None"
  shows "act_inv s'"
proof -
  have "Pools s' p = None \<longleftrightarrow> Pools s p = None" for p
    using assms(5) by (metis domIff)
  then have "list_ok s' p \<longleftrightarrow> list_ok s p" "keys_below (Pools s') n \<longleftrightarrow> keys_below (Pools s) n" for p n
    by (simp_all add: list_ok_def keys_below_def assms(2-4))
  moreover have "task_ok s' t task" if "task_ok s t task" for t task
    using that assms(8) [of t] by (cases "TaskEscrowStore s' t") (auto simp: task_ok_def assms(3))
  ultimately show ?thesis
    using assms(1,8) unfolding act_inv_def assms(2,6,7) by simp blast
qed

text \<open>\<open>closes t res s s'\<close>: the task becomes terminal with the result and leaves its pool's list.\<close>

definition closes :: "nat \<Rightarrow> bool \<Rightarrow> 'w cp_state \<Rightarrow> 'w cp_state \<Rightarrow> bool" where
  "closes t res s s' \<longleftrightarrow>
     (\<exists>task. Tasks s t = Some task \<and>
        Tasks s' = (Tasks s)(t \<mapsto> task\<lparr>task_state := if res then Completed else Failed,
          verification_result := Some res\<rparr>) \<and>
        PoolTasks s' = PoolTasks (decrement_pool_activity (task_pool task) t s) \<and>
        ActiveTaskCount s' = ActiveTaskCount (decrement_pool_activity (task_pool task) t s) \<and>
        dom (Pools s') = dom (Pools s) \<and> NextPoolId s' = NextPoolId s \<and> NextTaskId s' = NextTaskId s \<and>
        TaskEscrowStore s' = (if res then TaskEscrowStore s else (TaskEscrowStore s)(t := None)))"

lemma act_inv_closes:
  assumes inv: "act_inv s" and cl: "closes t res s s'"
    and op: "\<And>task. Tasks s t = Some task \<Longrightarrow> \<not> is_terminal (task_state task)"
  shows "act_inv s'"
proof -
  from cl obtain task where t: "Tasks s t = Some task"
    and s': "Tasks s' = (Tasks s)(t \<mapsto> task\<lparr>task_state := if res then Completed else Failed,
          verification_result := Some res\<rparr>)"
      "PoolTasks s' = (PoolTasks s)(task_pool task := filter (\<lambda>i. i \<noteq> t) (PoolTasks s (task_pool task)))"
      "ActiveTaskCount s' = (ActiveTaskCount s)(task_pool task := ActiveTaskCount s (task_pool task) - 1)"
      "dom (Pools s') = dom (Pools s)" "NextPoolId s' = NextPoolId s" "NextTaskId s' = NextTaskId s"
      "TaskEscrowStore s' = (if res then TaskEscrowStore s else (TaskEscrowStore s)(t := None))"
    unfolding closes_def by (auto simp: decrement_pool_activity_def saturating_sub_def)
  have P: "Pools s' p = None \<longleftrightarrow> Pools s p = None" for p
    using s'(4) by (metis domIff)
  have nt: "\<not> is_terminal (task_state task)" by (rule op [OF t])
  have tin: "t \<in> set (PoolTasks s (task_pool task))" by (rule open_task_pool(2) [OF inv t nt])
  have "task_ok s' t' task'" if "Tasks s' t' = Some task'" for t' task'
  proof (cases "t' = t")
    case True
    then show ?thesis using that by (auto simp: s' task_ok_def is_terminal_def)
  next
    case False
    then have "task_ok s t' task'" using that act_invD(1) [OF inv] by (simp add: s')
    then show ?thesis using False by (auto simp: task_ok_def s')
  qed
  moreover have "list_ok s' p" for p
  proof -
    note l = act_invD(2) [OF inv, of p]
    have len: "length (filter (\<lambda>i. i \<noteq> t) xs) = length xs - 1" if "distinct xs" "t \<in> set xs" for xs
      using that distinct_remove1_removeAll [of xs t] length_remove1 [of t xs]
      by (simp add: removeAll_filter_not_eq eq_commute [of t])
    have sub: "set (PoolTasks s' p) \<subseteq> set (PoolTasks s p)" by (auto simp: s')
    have old: "Tasks s' t' = Tasks s t'" if "t' \<in> set (PoolTasks s' p)" for t'
      using that t l by (auto simp: s' list_ok_def split: if_splits)
    have "distinct (PoolTasks s' p)" "ActiveTaskCount s' p = length (PoolTasks s' p)"
      using l len [OF _ tin] by (cases "p = task_pool task"; simp add: list_ok_def s'(2,3))+
    moreover have "\<forall>t' \<in> set (PoolTasks s' p). Pools s' p \<noteq> None \<and>
        (\<exists>task. Tasks s' t' = Some task \<and> task_pool task = p \<and> \<not> is_terminal (task_state task))"
      using l sub unfolding list_ok_def P by (auto simp: old)
    ultimately show ?thesis by (simp add: list_ok_def)
  qed
  ultimately show ?thesis
    using inv act_invD(3) [OF inv t] P unfolding act_inv_def s'(5,6)
    by (auto simp: keys_below_def s' split: if_splits)
qed

lemma dom_Pools_frame [simp]:
  "dom (Pools (update_reputation p b s)) = dom (Pools s)"
  "dom (Pools (set_pool_score p sc s)) = dom (Pools s)"
  "dom (Pools (fst (slash_pool T p s))) = dom (Pools s)"
  by (auto simp: update_reputation_def set_pool_score_def slash_pool_def Let_def dom_def
      split: option.splits prod.splits)

lemma decrement_lists:
  "PoolTasks (decrement_pool_activity p t s) = (PoolTasks s)(p := filter (\<lambda>i. i \<noteq> t) (PoolTasks s p))"
  "ActiveTaskCount (decrement_pool_activity p t s) = (ActiveTaskCount s)(p := ActiveTaskCount s p - 1)"
  by (simp_all add: decrement_pool_activity_def saturating_sub_def)

lemma finalize_closes:
  assumes t: "Tasks s t = Some task" and ph: "proof_hash task \<noteq> None"
  shows "closes t res s (fst (finalize_verification T now t (task_pool task) res s))"
proof (cases res)
  case True
  then show ?thesis
    using ph by (auto simp: finalize_verification_def Let_def t closes_def decrement_lists split: option.splits)
next
  case False
  then show ?thesis
    using ph by (auto simp: finalize_verification_def Let_def t closes_def decrement_lists split: option.splits)
qed

lemma mark_task_failed_closes:
  assumes "Tasks s t = Some task" "\<not> is_terminal (task_state task)"
  shows "closes t False s (fst (mark_task_failed T t b s))"
proof -
  let ?s3 = "slash_pool T (task_pool task) (release_escrow T t
    ((update_reputation (task_pool task) False (decrement_pool_activity (task_pool task) t
      (s\<lparr>Tasks := (Tasks s)(t \<mapsto> task\<lparr>task_state := Failed, verification_result := Some False\<rparr>)\<rparr>)))
     \<lparr>ProofSubmittedAt := (ProofSubmittedAt s)(t := None)\<rparr>))"
  have "closes t False s (fst ?s3)"
    by (simp add: closes_def decrement_lists assms(1))
  moreover have "\<exists>e1 e2. fst (mark_task_failed T t b s) \<in> {fst ?s3, cp_deposit_event e1 (fst ?s3),
      cp_deposit_event e1 (cp_deposit_event e2 (fst ?s3))}"
    using assms by (auto simp: mark_task_failed_def Let_def split: prod.splits option.splits)
  ultimately show ?thesis by (auto simp: closes_def decrement_lists)
qed

text \<open>
  Storage iteration visits every pool that has tasks, once, with its current list.
\<close>

definition iter_complete :: "((nat \<Rightarrow> nat list) \<Rightarrow> (nat \<times> nat list) list) \<Rightarrow> bool" where
  "iter_complete it \<longleftrightarrow>
     (\<forall>m. finite {p. m p \<noteq> []} \<longrightarrow>
        distinct (map fst (it m)) \<and> (\<forall>x \<in> set (it m). snd x = m (fst x)) \<and>
        (\<forall>p. m p \<noteq> [] \<longrightarrow> p \<in> fst ` set (it m)))"

definition listed :: "'w cp_config \<Rightarrow> 'w cp_state \<Rightarrow> nat list" where
  "listed T s = concat (map snd (iter_PoolTasks T (PoolTasks s)))"

lemma act_inv_lists_finite:
  assumes "act_inv s"
  shows "finite {p. PoolTasks s p \<noteq> []}"
proof (rule finite_subset)
  show "{p. PoolTasks s p \<noteq> []} \<subseteq> {..<NextPoolId s}"
  proof
    fix p assume "p \<in> {p. PoolTasks s p \<noteq> []}"
    then have "hd (PoolTasks s p) \<in> set (PoolTasks s p)" by simp
    with act_invD(2) [OF assms, of p] obtain pool where "Pools s p = Some pool"
      by (auto simp: list_ok_def)
    from act_invD(4) [OF assms this] show "p \<in> {..<NextPoolId s}" by simp
  qed
qed simp

lemma distinct_concat_lists:
  assumes "distinct (map fst xs)" "\<And>x. x \<in> set xs \<Longrightarrow> distinct (snd x)"
    "\<And>x t. x \<in> set xs \<Longrightarrow> t \<in> set (snd x) \<Longrightarrow> g t = fst x"
  shows "distinct (concat (map snd xs))"
  using assms
proof (induction xs)
  case (Cons x xs)
  have "set (snd x) \<inter> set (concat (map snd xs)) = {}"
  proof (rule ccontr)
    assume "set (snd x) \<inter> set (concat (map snd xs)) \<noteq> {}"
    then obtain t y where "t \<in> set (snd x)" "y \<in> set xs" "t \<in> set (snd y)" by auto
    with Cons.prems(3) have "fst x = fst y" by (metis list.set_intros(1,2))
    with \<open>y \<in> set xs\<close> Cons.prems(1) show False by auto
  qed
  with Cons show ?case by simp
qed simp

lemma listed_ok:
  assumes inv: "act_inv s" and it: "iter_complete (iter_PoolTasks T)"
  shows "distinct (listed T s)"
    "t \<in> set (listed T s) \<longleftrightarrow> (\<exists>task. Tasks s t = Some task \<and> \<not> is_terminal (task_state task))"
proof -
  let ?xs = "iter_PoolTasks T (PoolTasks s)"
  have xs: "distinct (map fst ?xs)" "\<And>x. x \<in> set ?xs \<Longrightarrow> snd x = PoolTasks s (fst x)"
    "\<And>p. PoolTasks s p \<noteq> [] \<Longrightarrow> p \<in> fst ` set ?xs"
    using it act_inv_lists_finite [OF inv] unfolding iter_complete_def by blast+
  show "distinct (listed T s)"
    unfolding listed_def
  proof (rule distinct_concat_lists [OF xs(1), where g = "\<lambda>t. task_pool (the (Tasks s t))"])
    fix x assume "x \<in> set ?xs"
    then show "distinct (snd x)" using act_invD(2) [OF inv, of "fst x"] by (simp add: xs(2) list_ok_def)
  next
    fix x t assume "x \<in> set ?xs" "t \<in> set (snd x)"
    then show "task_pool (the (Tasks s t)) = fst x"
      using act_invD(2) [OF inv, of "fst x"] by (auto simp: xs(2) list_ok_def)
  qed
  show "t \<in> set (listed T s) \<longleftrightarrow> (\<exists>task. Tasks s t = Some task \<and> \<not> is_terminal (task_state task))"
  proof
    assume "t \<in> set (listed T s)"
    then obtain x where x: "x \<in> set ?xs" "t \<in> set (snd x)" by (auto simp: listed_def)
    with xs(2) act_invD(2) [OF inv, of "fst x"]
    show "\<exists>task. Tasks s t = Some task \<and> \<not> is_terminal (task_state task)" by (auto simp: list_ok_def)
  next
    assume "\<exists>task. Tasks s t = Some task \<and> \<not> is_terminal (task_state task)"
    then obtain task :: compute_task where "t \<in> set (PoolTasks s (task_pool task))" using open_task_pool(2) [OF inv] by blast
    moreover from this have "PoolTasks s (task_pool task) \<noteq> []" by auto
    from xs(3) [OF this] obtain x where x: "x \<in> set ?xs" "fst x = task_pool task" by auto
    ultimately have "t \<in> set (snd x)" using xs(2) [OF x(1)] by simp
    with x(1) show "t \<in> set (listed T s)" by (auto simp: listed_def)
  qed
qed

text \<open>Closing a list of open tasks one after the other.\<close>

lemma fold_closes:
  assumes f: "\<And>t s task. act_inv s \<Longrightarrow> Tasks s t = Some task \<Longrightarrow> P task \<Longrightarrow> closes t res s (f t s)"
    and P: "\<And>task. P task \<Longrightarrow> \<not> is_terminal (task_state task)"
    and "distinct ts" "\<forall>t \<in> set ts. \<exists>task. Tasks s t = Some task \<and> P task" "act_inv s"
  shows "act_inv (fold f ts s) \<and>
    (\<forall>t \<in> set ts. \<exists>k. Tasks s t = Some k \<and> Tasks (fold f ts s) t = Some (k
       \<lparr>task_state := if res then Completed else Failed, verification_result := Some res\<rparr>)) \<and>
    (\<forall>t. t \<notin> set ts \<longrightarrow> Tasks (fold f ts s) t = Tasks s t \<and>
       TaskEscrowStore (fold f ts s) t = TaskEscrowStore s t) \<and>
    NextPoolId (fold f ts s) = NextPoolId s \<and> dom (Pools (fold f ts s)) = dom (Pools s)"
  using assms(3-5)
proof (induction ts arbitrary: s)
  case (Cons t ts)
  from Cons.prems obtain task where t: "Tasks s t = Some task" "P task" by auto
  have cl: "closes t res s (f t s)" by (rule f [OF Cons.prems(3) t])
  then have new: "Tasks (f t s) = (Tasks s)(t \<mapsto> task\<lparr>task_state := if res then Completed else Failed,
          verification_result := Some res\<rparr>)"
    and esc: "\<And>u. u \<noteq> t \<Longrightarrow> TaskEscrowStore (f t s) u = TaskEscrowStore s u"
      "NextPoolId (f t s) = NextPoolId s" "dom (Pools (f t s)) = dom (Pools s)"
    using t by (auto simp: closes_def)
  have inv: "act_inv (f t s)" by (rule act_inv_closes [OF Cons.prems(3) cl]) (use t P in auto)
  have "\<forall>u \<in> set ts. \<exists>task. Tasks (f t s) u = Some task \<and> P task"
    using Cons.prems(1,2) by (auto simp: new)
  note IH = Cons.IH [OF _ this inv]
  have "\<exists>k. Tasks s u = Some k \<and> Tasks (fold f ts (f t s)) u = Some (k
       \<lparr>task_state := if res then Completed else Failed, verification_result := Some res\<rparr>)"
    if u: "u \<in> set (t # ts)" for u
  proof (cases "u = t")
    case True
    then show ?thesis using IH Cons.prems(1) t(1) new by simp
  next
    case False
    with u have "u \<in> set ts" "Tasks (f t s) u = Tasks s u" by (simp_all add: new)
    then show ?thesis using IH Cons.prems(1) by (metis distinct.simps(2))
  qed
  with IH Cons.prems(1) show ?case by (simp add: new esc)
qed simp

text \<open>Every open task whose proof waits for too long, or that is too old, is closed by the hook.\<close>

definition overdue :: "'w cp_config \<Rightarrow> block_number \<Rightarrow> 'w cp_state \<Rightarrow> nat \<Rightarrow> bool" where
  "overdue T now s t \<longleftrightarrow> classify T now s t \<noteq> NotDue"

lemma on_initialize_closes:
  fixes s :: "'w cp_state"
  assumes inv: "act_inv s" and it: "iter_complete (iter_PoolTasks T)"
  shows "act_inv (on_initialize T now s) \<and>
    (\<forall>t. overdue T now s t \<longrightarrow> (\<exists>k. Tasks s t = Some k \<and> Tasks (on_initialize T now s) t = Some (k
       \<lparr>task_state := if classify T now s t = AutoVerify then Completed else Failed,
         verification_result := Some (classify T now s t = AutoVerify)\<rparr>))) \<and>
    (\<forall>t. \<not> overdue T now s t \<longrightarrow> Tasks (on_initialize T now s) t = Tasks s t \<and>
       TaskEscrowStore (on_initialize T now s) t = TaskEscrowStore s t) \<and>
    NextPoolId (on_initialize T now s) = NextPoolId s \<and>
    dom (Pools (on_initialize T now s)) = dom (Pools s)"
proof -
  let ?av = "filter (\<lambda>t. classify T now s t = AutoVerify) (listed T s)"
  let ?ex = "filter (\<lambda>t. classify T now s t = Expire) (listed T s)"
  define s1 where "s1 = fold (auto_verify_one T now) ?av s"
  have hook: "on_initialize T now s = fold (expire_one T) ?ex s1"
    by (simp add: on_initialize_def listed_def s1_def Let_def)
  note l = listed_ok [OF inv it]
  have due: "\<exists>task. Tasks s t = Some task \<and> \<not> is_terminal (task_state task)" if "overdue T now s t" for t
    using that by (auto simp: overdue_def classify_def split: option.splits if_splits)
  have av: "act_inv s1 \<and>
    (\<forall>t \<in> set ?av. \<exists>k. Tasks s t = Some k \<and> Tasks s1 t = Some (k
       \<lparr>task_state := if True then Completed else Failed, verification_result := Some True\<rparr>)) \<and>
    (\<forall>t. t \<notin> set ?av \<longrightarrow> Tasks s1 t = Tasks s t \<and> TaskEscrowStore s1 t = TaskEscrowStore s t) \<and>
    NextPoolId s1 = NextPoolId s \<and> dom (Pools s1) = dom (Pools s)"
    unfolding s1_def
  proof (rule fold_closes [where P = "\<lambda>task. task_state task = ProofSubmitted"])
    fix t task and s :: "'w cp_state" assume "act_inv s" "Tasks s t = Some task" "task_state task = ProofSubmitted"
    then show "closes t True s (auto_verify_one T now t s)"
      using finalize_closes [of s t task] act_invD(1) [of s t task]
      by (auto simp: auto_verify_one_def task_ok_def)
  next
    show "\<forall>t \<in> set ?av. \<exists>task. Tasks s t = Some task \<and> task_state task = ProofSubmitted"
      by (auto simp: classify_def split: option.splits if_splits)
  qed (use l inv in \<open>simp_all add: is_terminal_def\<close>)
  have ex: "act_inv (fold (expire_one T) ?ex s1) \<and>
    (\<forall>t \<in> set ?ex. \<exists>k. Tasks s1 t = Some k \<and> Tasks (fold (expire_one T) ?ex s1) t = Some (k
       \<lparr>task_state := if False then Completed else Failed, verification_result := Some False\<rparr>)) \<and>
    (\<forall>t. t \<notin> set ?ex \<longrightarrow> Tasks (fold (expire_one T) ?ex s1) t = Tasks s1 t \<and>
       TaskEscrowStore (fold (expire_one T) ?ex s1) t = TaskEscrowStore s1 t) \<and>
    NextPoolId (fold (expire_one T) ?ex s1) = NextPoolId s1 \<and>
    dom (Pools (fold (expire_one T) ?ex s1)) = dom (Pools s1)"
  proof (rule fold_closes [where P = "\<lambda>task. \<not> is_terminal (task_state task)"])
    fix t task and s :: "'w cp_state" assume "Tasks s t = Some task" "\<not> is_terminal (task_state task)"
    then show "closes t False s (expire_one T t s)"
      using mark_task_failed_closes by (simp add: expire_one_def)
  next
    show "\<forall>t \<in> set ?ex. \<exists>task. Tasks s1 t = Some task \<and> \<not> is_terminal (task_state task)"
    proof
      fix t assume t: "t \<in> set ?ex"
      then have "Tasks s1 t = Tasks s t" using av by simp
      then show "\<exists>task. Tasks s1 t = Some task \<and> \<not> is_terminal (task_state task)"
        using due [of t] t by (auto simp: overdue_def)
    qed
  qed (use l av in simp_all)
  have "\<exists>k. Tasks s t = Some k \<and> Tasks (on_initialize T now s) t = Some (k
       \<lparr>task_state := if classify T now s t = AutoVerify then Completed else Failed,
         verification_result := Some (classify T now s t = AutoVerify)\<rparr>)"
    if o: "overdue T now s t" for t
  proof -
    have "t \<in> set (listed T s)" using due [OF o] l(2) by simp
    then have "t \<in> set ?av \<and> t \<notin> set ?ex \<or> t \<in> set ?ex \<and> t \<notin> set ?av"
      using o by (cases "classify T now s t") (auto simp: overdue_def)
    then show ?thesis using av ex unfolding hook by (elim disjE) auto
  qed
  then show ?thesis using av ex unfolding hook by (auto simp: overdue_def)
qed

text \<open>Rewriting one task without opening or closing it.\<close>

lemma act_inv_task:
  assumes inv: "act_inv s" and t: "Tasks s t = Some task"
    and s': "Tasks s' = (Tasks s)(t \<mapsto> task')" "PoolTasks s' = PoolTasks s"
      "ActiveTaskCount s' = ActiveTaskCount s" "dom (Pools s') = dom (Pools s)"
      "NextPoolId s' = NextPoolId s" "NextTaskId s' = NextTaskId s"
    and same: "task_pool task' = task_pool task"
      "is_terminal (task_state task') \<longleftrightarrow> is_terminal (task_state task)"
    and esc: "\<And>u. TaskEscrowStore s' u \<noteq> None \<Longrightarrow> TaskEscrowStore s u \<noteq> None"
    and new: "task_state task' = ProofSubmitted \<Longrightarrow> proof_hash task' \<noteq> None"
      "task_state task' = Failed \<Longrightarrow> TaskEscrowStore s' t = None"
  shows "act_inv s'"
proof -
  have P: "Pools s' p = None \<longleftrightarrow> Pools s p = None" for p using s'(4) by (metis domIff)
  have "task_ok s' u k" if "Tasks s' u = Some k" for u k
  proof (cases "u = t")
    case True
    with that act_invD(1) [OF inv t] same new show ?thesis
      by (auto simp: task_ok_def s')
  next
    case False
    with that have "task_ok s u k" using act_invD(1) [OF inv] by (simp add: s')
    then show ?thesis using esc [of u] by (cases "TaskEscrowStore s' u") (auto simp: task_ok_def s')
  qed
  moreover have "list_ok s' p" for p
    using act_invD(2) [OF inv, of p] t same unfolding list_ok_def s' P by (auto split: if_splits)
  ultimately show ?thesis
    using inv esc act_invD(3) [OF inv t] unfolding act_inv_def s'(5,6)
    by (auto simp: keys_below_def s'(1) P)
qed

lemma register_pool_act:
  assumes inv: "act_inv s" and call: "register_pool T orig g m nv e pr s = Inr s'"
  shows "act_inv s'"
proof -
  let ?p = "NextPoolId s"
  from call obtain pool where s': "Pools s' = (Pools s)(?p \<mapsto> pool)" "Tasks s' = Tasks s"
      "PoolTasks s' = PoolTasks s" "ActiveTaskCount s' = (ActiveTaskCount s)(?p := 0)"
      "NextPoolId s' = Suc ?p" "NextTaskId s' = NextTaskId s" "TaskEscrowStore s' = TaskEscrowStore s"
    by (auto simp: register_pool_def Let_def checked_Some split: option.splits if_splits)
  have "Pools s ?p = None" using inv by (auto simp: act_inv_def dest: keys_below_fresh)
  then have "PoolTasks s ?p = []"
    using act_invD(2) [OF inv, of ?p] by (cases "PoolTasks s ?p") (auto simp: list_ok_def)
  then have "list_ok s' p" for p
    using act_invD(2) [OF inv, of p] by (auto simp: list_ok_def s')
  moreover have "task_ok s' t k \<longleftrightarrow> task_ok s t k" for t k by (simp add: task_ok_def s')
  ultimately show ?thesis
    using inv keys_below_new [of "Pools s" ?p] unfolding act_inv_def s' by simp blast
qed

lemma deregister_pool_act:
  assumes inv: "act_inv s" and call: "deregister_pool T orig p s = Inr s'"
  shows "act_inv s'"
proof -
  from call have cnt: "ActiveTaskCount s p = 0"
    and s': "Pools s' = (Pools s)(p := None)" "Tasks s' = Tasks s"
      "PoolTasks s' = (PoolTasks s)(p := [])" "ActiveTaskCount s' = (ActiveTaskCount s)(p := 0)"
      "NextPoolId s' = NextPoolId s" "NextTaskId s' = NextTaskId s" "TaskEscrowStore s' = TaskEscrowStore s"
    by (auto simp: deregister_pool_def split: option.splits if_splits)
  from cnt act_invD(2) [OF inv, of p] have emp: "PoolTasks s p = []" by (simp add: list_ok_def)
  then have lists: "PoolTasks s' = PoolTasks s" by (simp add: s' fun_upd_idem)
  have "list_ok s' q" for q
    using act_invD(2) [OF inv, of q] emp by (auto simp: list_ok_def s')
  moreover have "task_ok s' t k \<longleftrightarrow> task_ok s t k" for t k by (simp add: task_ok_def s'(7) lists)
  ultimately show ?thesis
    using inv unfolding act_inv_def s'(2,5-7) by (simp add: s'(1) keys_below_def) blast
qed

lemma submit_task_act:
  assumes inv: "act_inv s" and call: "submit_task T now orig d pr pref s = Inr s'"
    and mx: "MaxTasksPerPool T < 2 ^ 32"
  shows "act_inv s'"
  using call
proof (rule submit_task_Inr)
  fix who p sc pool reward w
  let ?t = "NextTaskId s"
  let ?task = "(new_task ?t who d pr now)\<lparr>task_pool := p, task_state := Computing, reward_amount := Some reward\<rparr>"
  assume pool: "Pools s p = Some pool" and lt: "ActiveTaskCount s p < MaxTasksPerPool T"
    and s': "NextTaskId s' = Suc ?t" "NextPoolId s' = NextPoolId s" "Tasks s' = (Tasks s)(?t \<mapsto> ?task)"
      "Pools s' = (Pools s)(p \<mapsto> pool\<lparr>score := sc\<rparr>)"
      "TaskEscrowStore s' = (TaskEscrowStore s)(?t \<mapsto> \<lparr>escrow_user = who, escrow_pool_owner = owner pool,
        escrow_reward = reward, escrow_deposit = TaskDeposit T, claimed = False\<rparr>)"
      "PoolTasks s' = (PoolTasks s)(p := PoolTasks s p @ [?t])"
      "ActiveTaskCount s' = (ActiveTaskCount s)(p := saturating_add 32 (ActiveTaskCount s p) 1)"
  have add: "saturating_add 32 (ActiveTaskCount s p) 1 = ActiveTaskCount s p + 1"
    using lt mx by (intro saturating_add_exact) simp
  have fresh: "Tasks s ?t = None" using inv by (auto simp: act_inv_def dest: keys_below_fresh)
  have notin: "?t \<notin> set (PoolTasks s q)" for q
    using act_invD(2) [OF inv, of q] fresh by (auto simp: list_ok_def)
  have "task_ok s' u k" if "Tasks s' u = Some k" for u k
  proof (cases "u = ?t")
    case True
    with that show ?thesis by (auto simp: s'(3,6) task_ok_def)
  next
    case False
    with that have "task_ok s u k" using act_invD(1) [OF inv] by (simp add: s'(3))
    then show ?thesis using False by (auto simp: task_ok_def s'(5,6))
  qed
  moreover have "list_ok s' q" for q
  proof -
    have "\<forall>u \<in> set (PoolTasks s' q). Pools s' q \<noteq> None \<and>
        (\<exists>k. Tasks s' u = Some k \<and> task_pool k = q \<and> \<not> is_terminal (task_state k))"
      using act_invD(2) [OF inv, of q] notin [of q] pool fresh
      by (auto simp: list_ok_def s'(3,4,6) is_terminal_def)
    then show ?thesis
      using act_invD(2) [OF inv, of q] notin [of q] add by (auto simp: list_ok_def s'(6,7))
  qed
  moreover have "keys_below (Pools s') (NextPoolId s')"
    using inv act_invD(4) [OF inv pool] by (auto simp: act_inv_def keys_below_def s'(2,4))
  moreover have "keys_below (Tasks s') (NextTaskId s')"
    using inv unfolding s'(1,3) by (intro keys_below_new) (simp add: act_inv_def)
  ultimately show ?thesis
    using act_invD(5) [OF inv] by (auto simp: act_inv_def s'(1,5) less_Suc_eq)
qed

lemma dispute_verification_Inr:
  assumes "dispute_verification T orig t s = Inr s'"
  obtains task res where "Tasks s t = Some task" "orig = Signed (user task)" "is_terminal (task_state task)"
    "\<not> disputed task" "verification_result task = Some res"
    "Tasks s' = (Tasks s)(t \<mapsto> task\<lparr>task_state := if res then Failed else Completed,
      verification_result := Some (\<not> res), disputed := True\<rparr>)"
    "PoolTasks s' = PoolTasks s" "ActiveTaskCount s' = ActiveTaskCount s" "dom (Pools s') = dom (Pools s)"
    "NextPoolId s' = NextPoolId s" "NextTaskId s' = NextTaskId s"
    "TaskEscrowStore s' = (if res then (TaskEscrowStore s)(t := None) else TaskEscrowStore s)"
    "res \<Longrightarrow> Pools s (task_pool task) \<noteq> None"
    "\<not> res \<Longrightarrow> cp_world s' = cp_world s"
proof -
  from assms obtain task res where t: "Tasks s t = Some task" "orig = Signed (user task)"
      "is_terminal (task_state task)" "\<not> disputed task" "verification_result task = Some res"
    by (cases orig) (auto simp: dispute_verification_def is_terminal_def split: option.splits if_splits)
  show ?thesis
  proof (cases res)
    case False
    let ?s1 = "s\<lparr>Tasks := (Tasks s)(t \<mapsto>
      task\<lparr>task_state := Completed, verification_result := Some True, disputed := True\<rparr>)\<rparr>"
    let ?s2 = "case reward_amount task of None \<Rightarrow> ?s1
      | Some r \<Rightarrow> cp_deposit_event (RewardAvailable t r) (?s1\<lparr>Rewards := (Rewards ?s1)(t \<mapsto> r)\<rparr>)"
    have s': "s' = cp_deposit_event (VerificationDisputed t (user task))
        (cp_deposit_event (TaskStatusChanged t Completed) (update_reputation (task_pool task) True ?s2))"
      using assms t False by (auto simp: dispute_verification_def is_terminal_def Let_def)
    show ?thesis
      by (rule that [OF t]) (use False in \<open>auto simp: s' split: option.splits\<close>)
  next
    case True
    let ?s1 = "s\<lparr>Tasks := (Tasks s)(t \<mapsto>
      task\<lparr>task_state := Failed, verification_result := Some False, disputed := True\<rparr>)\<rparr>"
    let ?sl = "slash_pool T (task_pool task) (release_escrow T t (update_reputation (task_pool task) False ?s1))"
    obtain e1 e2 where s': "s' = cp_deposit_event e1 (cp_deposit_event e2 (fst ?sl))" and sl: "snd ?sl = None"
      using assms t True
      by (auto simp: dispute_verification_def is_terminal_def Let_def split: prod.splits option.splits)
    have "Pools s (task_pool task) \<noteq> None"
      using sl by (auto simp: slash_pool_def update_reputation_def split: option.splits)
    then show ?thesis
      by (intro that [OF t]) (use s' True in auto)
  qed
qed

lemma cp_dispatch_act:
  assumes inv: "act_inv s" and call: "cp_dispatch T now orig c s = Inr s'" and mx: "MaxTasksPerPool T < 2 ^ 32"
  shows "act_inv s'"
proof (cases c)
  case (RegisterPool g m nv e p)
  with call show ?thesis by (auto intro: register_pool_act [OF inv])
next
  case (UpdatePoolConfig i g m nv e p)
  with call show ?thesis
    by (intro act_inv_cong [OF inv])
      (auto simp: update_pool_config_def dom_def split: option.splits if_splits)
next
  case (DeregisterPool i)
  with call show ?thesis by (auto intro: deregister_pool_act [OF inv])
next
  case (SubmitTask d pr pref)
  with call show ?thesis by (auto intro: submit_task_act [OF inv _ mx])
next
  case (SubmitProof t h)
  with call obtain task where t: "Tasks s t = Some task" "task_state task = Computing"
    and s': "Tasks s' = (Tasks s)(t \<mapsto> task\<lparr>proof_hash := Some h, task_state := ProofSubmitted\<rparr>)"
      "PoolTasks s' = PoolTasks s" "ActiveTaskCount s' = ActiveTaskCount s" "Pools s' = Pools s"
      "NextPoolId s' = NextPoolId s" "NextTaskId s' = NextTaskId s" "TaskEscrowStore s' = TaskEscrowStore s"
    by (auto simp: submit_proof_def split: option.splits if_splits)
  show ?thesis by (rule act_inv_task [OF inv t(1) s'(1-3)]) (auto simp: is_terminal_def t s')
next
  case (VerifyProof t r)
  with call have "verify_proof T now orig t r s = Inr s'" by simp
  then show ?thesis
  proof (rule verify_proof_Inr)
    fix task assume t: "Tasks s t = Some task" "task_state task = ProofSubmitted" "proof_hash task \<noteq> None"
      and fv: "finalize_verification T now t (task_pool task) r s = (s', None)"
    from finalize_closes [OF t(1,3), of r T now] have "closes t r s s'" by (simp add: fv)
    then show ?thesis by (rule act_inv_closes [OF inv]) (use t in \<open>auto simp: is_terminal_def\<close>)
  qed
next
  case (ClaimReward t)
  with call have "claim_reward T orig t s = Inr s'" by simp
  then show ?thesis by (rule claim_reward_Inr) (rule act_inv_cong [OF inv], auto split: if_splits)
next
  case (DisputeVerification t)
  with call have "dispute_verification T orig t s = Inr s'" by simp
  then show ?thesis
  proof (rule dispute_verification_Inr)
    fix task res
    assume t: "Tasks s t = Some task" "is_terminal (task_state task)"
      and s': "Tasks s' = (Tasks s)(t \<mapsto> task\<lparr>task_state := if res then Failed else Completed,
          verification_result := Some (\<not> res), disputed := True\<rparr>)"
        "PoolTasks s' = PoolTasks s" "ActiveTaskCount s' = ActiveTaskCount s" "dom (Pools s') = dom (Pools s)"
        "NextPoolId s' = NextPoolId s" "NextTaskId s' = NextTaskId s"
        "TaskEscrowStore s' = (if res then (TaskEscrowStore s)(t := None) else TaskEscrowStore s)"
    show ?thesis
      by (rule act_inv_task [OF inv t(1) s'(1-6)]) (use t(2) in \<open>auto simp: is_terminal_def s'(7) split: if_splits\<close>)
  qed
next
  case (StakeToPool i v)
  with call show ?thesis
    by (intro act_inv_cong [OF inv]) (auto simp: stake_to_pool_def split: option.splits if_splits)
next
  case (UnstakeFromPool i v)
  with call show ?thesis
    by (intro act_inv_cong [OF inv]) (auto simp: unstake_from_pool_def split: option.splits if_splits)
qed

definition sched_ok :: "'w cp_config \<Rightarrow> bool" where
  "sched_ok T \<longleftrightarrow> iter_complete (iter_PoolTasks T) \<and> MaxTasksPerPool T < 2 ^ 32"

lemma cp_step_act:
  assumes "cp_step T I L G s s'" "act_inv s" "sched_ok T"
  shows "act_inv s'"
  using assms
proof (induction rule: cp_step.induct)
  case (call now orig c s s')
  then show ?case by (auto simp: sched_ok_def intro: cp_dispatch_act)
next
  case (hook s now)
  then show ?case using on_initialize_closes [of s T now] by (simp add: sched_ok_def)
next
  case (environment w s)
  then show ?case by (intro act_inv_cong [OF environment.prems(1)]) simp_all
qed

lemma cp_init_act: "act_inv (cp_init w)"
  by (simp add: act_inv_def cp_init_def keys_below_def list_ok_def)

lemma cp_reach_act:
  assumes "(cp_step T I L G)\<^sup>*\<^sup>* (cp_init w) s" "sched_ok T"
  shows "act_inv s"
  using assms(1) by (induction rule: rtranclp_induct) (auto simp: cp_init_act intro: cp_step_act assms(2))

text \<open>
  Once the pool of a completed task is gone nothing changes the task or its escrow any more: the claim
  and the dispute both need the pool.
\<close>

definition stranded :: "nat \<Rightarrow> compute_task \<Rightarrow> task_escrow \<Rightarrow> 'w cp_state \<Rightarrow> bool" where
  "stranded t task e s \<longleftrightarrow>
     Tasks s t = Some task \<and> task_state task = Completed \<and> verification_result task = Some True \<and>
     TaskEscrowStore s t = Some e \<and> Pools s (task_pool task) = None \<and> task_pool task < NextPoolId s"

lemma dom_Pools_None: "dom (Pools s') = dom (Pools s) \<Longrightarrow> Pools s p = None \<Longrightarrow> Pools s' p = None"
  by (metis domIff)

lemma stranded_dispatch:
  assumes inv: "act_inv s" and st: "stranded t task e s" and call: "cp_dispatch T now orig c s = Inr s'"
  shows "stranded t task e s'"
proof (cases c)
  case (RegisterPool g m nv ef p)
  with call st show ?thesis
    by (auto simp: stranded_def register_pool_def Let_def checked_Some split: option.splits if_splits)
next
  case (UpdatePoolConfig i g m nv ef p)
  with call st show ?thesis
    by (auto simp: stranded_def update_pool_config_def split: option.splits if_splits)
next
  case (DeregisterPool i)
  with call st show ?thesis
    by (auto simp: stranded_def deregister_pool_def split: option.splits if_splits)
next
  case (SubmitTask d pr pref)
  with call have "submit_task T now orig d pr pref s = Inr s'" by simp
  then show ?thesis
    using st act_invD(3) [OF inv, of t task] by (elim submit_task_Inr) (auto simp: stranded_def)
next
  case (SubmitProof u h)
  with call st show ?thesis
    by (auto simp: stranded_def submit_proof_def split: option.splits if_splits)
next
  case (VerifyProof u r)
  with call have "verify_proof T now orig u r s = Inr s'" by simp
  then show ?thesis
  proof (rule verify_proof_Inr)
    fix k assume k: "Tasks s u = Some k" "task_state k = ProofSubmitted" "proof_hash k \<noteq> None"
      and fv: "finalize_verification T now u (task_pool k) r s = (s', None)"
    from finalize_closes [OF k(1,3), of r T now] have "closes u r s s'" by (simp add: fv)
    then show ?thesis using st k by (auto simp: stranded_def closes_def intro: dom_Pools_None)
  qed
next
  case (ClaimReward u)
  with call have "claim_reward T orig u s = Inr s'" by simp
  then show ?thesis using st by (elim claim_reward_Inr) (auto simp: stranded_def)
next
  case (DisputeVerification u)
  with call have "dispute_verification T orig u s = Inr s'" by simp
  then show ?thesis
    using st by (elim dispute_verification_Inr) (auto simp: stranded_def split: if_splits intro: dom_Pools_None)
next
  case (StakeToPool i v)
  with call st show ?thesis
    by (auto simp: stranded_def stake_to_pool_def split: option.splits if_splits)
next
  case (UnstakeFromPool i v)
  with call st show ?thesis
    by (auto simp: stranded_def unstake_from_pool_def split: option.splits if_splits)
qed

lemma stranded_step:
  assumes "cp_step T I L G s s'" "sched_ok T" "act_inv s" "stranded t task e s"
  shows "stranded t task e s'"
  using assms
proof (induction rule: cp_step.induct)
  case (call now orig c s s')
  show ?case by (rule stranded_dispatch [OF call.prems(2,3) call.hyps(1)])
next
  case (hook s now)
  then have "\<not> overdue T now s t"
    by (simp add: stranded_def overdue_def classify_def is_terminal_def)
  with on_initialize_closes [of s T now] hook.prems show ?case
    by (auto simp: stranded_def sched_ok_def intro: dom_Pools_None)
next
  case (environment w s)
  then show ?case by (simp add: stranded_def)
qed

lemma stranded_run:
  assumes "(cp_step T I L G)\<^sup>*\<^sup>* s s'" "sched_ok T" "act_inv s" "stranded t task e s"
  shows "stranded t task e s'"
proof -
  from assms(1) have "act_inv s' \<and> stranded t task e s'"
  proof (induction rule: rtranclp_induct)
    case (step s1 s2)
    then show ?case using cp_step_act [OF step.hyps(2) _ assms(2)] stranded_step [OF step.hyps(2) assms(2)] by blast
  qed (use assms in simp)
  then show ?thesis ..
qed

section \<open>Paid tasks\<close>

text \<open>
  \<open>paid t s\<close>: there is no unclaimed escrow for the task and there never will be one again, because
  escrows are created for new tasks only.
\<close>

definition paid :: "nat \<Rightarrow> 'w cp_state \<Rightarrow> bool" where
  "paid t s \<longleftrightarrow> t < NextTaskId s \<and> (\<forall>e. TaskEscrowStore s t = Some e \<longrightarrow> claimed e)"

lemma paid_no_claim: "paid t s \<Longrightarrow> \<nexists>s'. claim_reward T orig t s = Inr s'"
  by (auto simp: paid_def elim!: claim_reward_Inr)

lemma paid_mono:
  assumes "paid t s" "NextTaskId s \<le> NextTaskId s'"
    "TaskEscrowStore s' t = TaskEscrowStore s t \<or> TaskEscrowStore s' t = None"
  shows "paid t s'"
  using assms by (auto simp: paid_def)

lemma paid_upd:
  assumes "paid t s" "NextTaskId s' = NextTaskId s"
    "TaskEscrowStore s' = TaskEscrowStore s \<or> TaskEscrowStore s' = (TaskEscrowStore s)(u := None)"
  shows "paid t s'"
  using assms by (auto simp: paid_def split: if_splits)

lemma finalize_escrow:
  "NextTaskId (fst (finalize_verification T now u p r s)) = NextTaskId s"
  "TaskEscrowStore (fst (finalize_verification T now u p r s)) = TaskEscrowStore s \<or>
   TaskEscrowStore (fst (finalize_verification T now u p r s)) = (TaskEscrowStore s)(u := None)"
  by (simp_all add: finalize_verification_def Let_def split: option.splits)

lemma mark_task_failed_escrow:
  "NextTaskId (fst (mark_task_failed T u b s)) = NextTaskId s"
  "TaskEscrowStore (fst (mark_task_failed T u b s)) = TaskEscrowStore s \<or>
   TaskEscrowStore (fst (mark_task_failed T u b s)) = (TaskEscrowStore s)(u := None)"
proof -
  have "fst (mark_task_failed T u b s) = s \<or>
    NextTaskId (fst (mark_task_failed T u b s)) = NextTaskId s \<and>
    TaskEscrowStore (fst (mark_task_failed T u b s)) = (TaskEscrowStore s)(u := None)"
  proof (cases "\<exists>task. Tasks s u = Some task \<and> \<not> is_terminal (task_state task)")
    case True
    then obtain task where "Tasks s u = Some task" "\<not> is_terminal (task_state task)" by blast
    from mark_task_failed_closes [OF this, of T b] show ?thesis by (auto simp: closes_def)
  next
    case False
    then show ?thesis by (auto simp: mark_task_failed_def split: option.splits)
  qed
  then show "NextTaskId (fst (mark_task_failed T u b s)) = NextTaskId s"
    "TaskEscrowStore (fst (mark_task_failed T u b s)) = TaskEscrowStore s \<or>
     TaskEscrowStore (fst (mark_task_failed T u b s)) = (TaskEscrowStore s)(u := None)" by auto
qed

lemma fold_paid:
  assumes "\<And>u s. paid t s \<Longrightarrow> paid t (f u s)" "paid t s"
  shows "paid t (fold f us s)"
  using assms(2) by (induction us arbitrary: s) (auto simp: assms(1))

lemma on_initialize_paid:
  assumes "paid t s"
  shows "paid t (on_initialize T now s)"
proof -
  have "paid t (auto_verify_one T now u s)" if "paid t s" for u s
    using that paid_upd [OF that finalize_escrow]
    by (simp add: auto_verify_one_def split: option.splits)
  moreover have "paid t (expire_one T u s)" if "paid t s" for u s
    unfolding expire_one_def by (rule paid_upd [OF that mark_task_failed_escrow])
  ultimately show ?thesis
    using assms unfolding on_initialize_def Let_def by (intro fold_paid)
qed

lemma cp_dispatch_paid:
  assumes p: "paid t s" and call: "cp_dispatch T now orig c s = Inr s'"
  shows "paid t s'"
proof (cases c)
  case (SubmitTask d pr pref)
  with call have "submit_task T now orig d pr pref s = Inr s'" by simp
  then show ?thesis using p by (elim submit_task_Inr) (auto simp: paid_def less_Suc_eq)
next
  case (VerifyProof u r)
  with call have "verify_proof T now orig u r s = Inr s'" by simp
  then show ?thesis
  proof (rule verify_proof_Inr)
    fix k assume "finalize_verification T now u (task_pool k) r s = (s', None)"
    with paid_upd [OF p finalize_escrow, of T now u "task_pool k" r] show ?thesis by simp
  qed
next
  case (ClaimReward u)
  with call have "claim_reward T orig u s = Inr s'" by simp
  then show ?thesis using p by (elim claim_reward_Inr) (auto simp: paid_def)
next
  case (DisputeVerification u)
  with call have "dispute_verification T orig u s = Inr s'" by simp
  then show ?thesis using p by (elim dispute_verification_Inr) (auto simp: paid_def split: if_splits)
qed (use call in \<open>auto intro!: paid_mono [OF p] simp: register_pool_def update_pool_config_def deregister_pool_def
    submit_proof_def stake_to_pool_def unstake_from_pool_def Let_def split: option.splits if_splits\<close>)

lemma paid_run:
  assumes "(cp_step T I L G)\<^sup>*\<^sup>* s s'" "paid t s"
  shows "paid t s'"
  using assms
proof (induction rule: rtranclp_induct)
  case (step s1 s2)
  from step.hyps(2) step.IH [OF step.prems] show ?case
  proof (induction rule: cp_step.induct)
    case (environment w s)
    then show ?case by (simp add: paid_def)
  qed (blast intro: cp_dispatch_paid on_initialize_paid)+
qed (use assms in simp)

section \<open>The life of a task\<close>

definition task_follows :: "compute_task \<Rightarrow> compute_task \<Rightarrow> bool" where
  "task_follows k k' \<longleftrightarrow>
     user k' = user k \<and> task_pool k' = task_pool k \<and> reward_amount k' = reward_amount k \<and>
     (k' = k \<or>
      task_state k = Computing \<and> task_state k' = ProofSubmitted \<and> disputed k' = disputed k \<or>
      \<not> is_terminal (task_state k) \<and> task_state k' = Failed \<and> disputed k' = disputed k \<or>
      task_state k = ProofSubmitted \<and> task_state k' = Completed \<and> disputed k' = disputed k \<or>
      is_terminal (task_state k) \<and> is_terminal (task_state k') \<and> \<not> disputed k \<and> disputed k')"

lemma closes_follows:
  assumes "closes u res s s'" "Tasks s t = Some k"
    "\<And>k. Tasks s u = Some k \<Longrightarrow> \<not> is_terminal (task_state k) \<and> (res \<longrightarrow> task_state k = ProofSubmitted)"
  shows "\<exists>k'. Tasks s' t = Some k' \<and> task_follows k k'"
  using assms by (cases "t = u") (auto simp: closes_def task_follows_def)

lemma cp_dispatch_follows:
  assumes inv: "act_inv s" and t: "Tasks s t = Some k" and call: "cp_dispatch T now orig c s = Inr s'"
  shows "\<exists>k'. Tasks s' t = Some k' \<and> task_follows k k'"
proof (cases c)
  case (SubmitTask d pr pref)
  with call have "submit_task T now orig d pr pref s = Inr s'" by simp
  then show ?thesis
    using t act_invD(3) [OF inv t] by (elim submit_task_Inr) (auto simp: task_follows_def)
next
  case (VerifyProof u r)
  with call have "verify_proof T now orig u r s = Inr s'" by simp
  then show ?thesis
  proof (rule verify_proof_Inr)
    fix l assume l: "Tasks s u = Some l" "task_state l = ProofSubmitted" "proof_hash l \<noteq> None"
      and fv: "finalize_verification T now u (task_pool l) r s = (s', None)"
    from finalize_closes [OF l(1,3), of r T now] have "closes u r s s'" by (simp add: fv)
    then show ?thesis using t by (rule closes_follows) (use l in \<open>simp add: is_terminal_def\<close>)
  qed
next
  case (ClaimReward u)
  with call have "claim_reward T orig u s = Inr s'" by simp
  then show ?thesis using t by (elim claim_reward_Inr) (simp add: task_follows_def)
next
  case (DisputeVerification u)
  with call have "dispute_verification T orig u s = Inr s'" by simp
  then show ?thesis
    using t by (elim dispute_verification_Inr; cases "u = t") (auto simp: task_follows_def is_terminal_def)
qed (use call t in \<open>auto simp: task_follows_def register_pool_def update_pool_config_def deregister_pool_def
    submit_proof_def stake_to_pool_def unstake_from_pool_def Let_def split: option.splits if_splits\<close>)

lemma on_initialize_follows:
  assumes inv: "act_inv s" and it: "iter_complete (iter_PoolTasks T)" and t: "Tasks s t = Some k"
  shows "\<exists>k'. Tasks (on_initialize T now s) t = Some k' \<and> task_follows k k'"
proof (cases "overdue T now s t")
  case True
  with on_initialize_closes [OF inv it, of now] t
  have "Tasks (on_initialize T now s) t = Some (k
       \<lparr>task_state := if classify T now s t = AutoVerify then Completed else Failed,
         verification_result := Some (classify T now s t = AutoVerify)\<rparr>)" by auto
  moreover have "\<not> is_terminal (task_state k)" "classify T now s t = AutoVerify \<Longrightarrow> task_state k = ProofSubmitted"
    using True t by (auto simp: overdue_def classify_def split: if_splits)
  ultimately show ?thesis by (auto simp: task_follows_def)
next
  case False
  with on_initialize_closes [OF inv it, of now] t show ?thesis by (auto simp: task_follows_def)
qed

lemma cp_step_follows:
  assumes "cp_step T I L G s s'" "act_inv s" "sched_ok T" "Tasks s t = Some k"
  shows "\<exists>k'. Tasks s' t = Some k' \<and> task_follows k k'"
  using assms
proof (induction rule: cp_step.induct)
  case (call now orig c s s')
  then show ?case by (intro cp_dispatch_follows)
next
  case (hook s now)
  then show ?case by (intro on_initialize_follows) (simp_all add: sched_ok_def)
next
  case (environment w s)
  then show ?case by (simp add: task_follows_def)
qed

section \<open>Selection\<close>

definition candidate_pools :: "'w cp_config \<Rightarrow> compute_task \<Rightarrow> 'w cp_state \<Rightarrow> (nat \<times> compute_pool) list" where
  "candidate_pools T task s =
     filter (eligible T s (dim_k (dimensions task))) (take 50 (iter_Pools T (Pools s)))"

definition pool_prices :: "(nat \<times> compute_pool) list \<Rightarrow> nat set" where
  "pool_prices cs = (\<lambda>c. saturated_into 128 (price_per_task (snd c))) ` set cs"

lemma Min_Max_insert_if:
  fixes p :: nat
  assumes "finite S"
  shows "Min (insert (if p < lo then p else lo) S) = Min (insert p (insert lo S))"
    "Max (insert (if p > hi then p else hi) S) = Max (insert p (insert hi S))"
  using assms by (cases "S = {}"; auto simp: min_def max_def)+

lemma price_bounds_aux:
  "fold widen cs (lo, hi) = (Min (insert lo (pool_prices cs)), Max (insert hi (pool_prices cs)))"
proof (induction cs arbitrary: lo hi)
  case (Cons c cs)
  have "insert x (pool_prices (c # cs)) = insert (saturated_into 128 (price_per_task (snd c))) (insert x (pool_prices cs))"
    for x by (auto simp: pool_prices_def)
  moreover have "finite (pool_prices cs)" by (simp add: pool_prices_def)
  ultimately show ?case
    using Cons.IH by (simp only: fold_simps comp_apply widen_def Let_def Min_Max_insert_if fst_conv snd_conv)
qed (simp add: pool_prices_def)

lemma price_bounds_eq:
  assumes "cs \<noteq> []"
  shows "price_bounds cs = (Min (pool_prices cs), Max (pool_prices cs))"
proof -
  have fin: "finite (pool_prices cs)" "pool_prices cs \<noteq> {}" using assms by (simp_all add: pool_prices_def)
  moreover have "p \<le> 2 ^ 128 - 1" if "p \<in> pool_prices cs" for p
    using that by (auto simp: pool_prices_def saturated_into_def)
  ultimately show ?thesis
    unfolding price_bounds_def price_bounds_aux
    by (simp add: Min_insert min_absorb2 max_absorb2)
qed

text \<open>The fold keeps the best candidate seen so far.\<close>

lemma pick_best_aux:
  assumes "fold (better lo hi) cs best = r"
  shows "(r = None \<longleftrightarrow> cs = [] \<and> best = None) \<and>
    (\<forall>p sc. r = Some (p, sc) \<longrightarrow>
       (best = Some (p, sc) \<or> (\<exists>pool. (p, pool) \<in> set cs \<and> sc = calculate_pool_score pool lo hi)) \<and>
       (\<forall>c \<in> set cs. final_score (calculate_pool_score (snd c) lo hi) \<le> final_score sc) \<and>
       (\<forall>q sc'. best = Some (q, sc') \<longrightarrow> final_score sc' \<le> final_score sc))"
  using assms
proof (induction cs arbitrary: best)
  case (Cons c cs)
  obtain pid pool where c: "c = (pid, pool)" by fastforce
  let ?sc = "calculate_pool_score pool lo hi"
  show ?case
  proof (cases best)
    case None
    with Cons.IH [of "Some (pid, ?sc)"] Cons.prems show ?thesis by (auto simp: c better_def Let_def)
  next
    case (Some b)
    obtain q cur where b: "b = (q, cur)" by fastforce
    show ?thesis
    proof (cases "final_score cur \<ge> final_score ?sc")
      case True
      with Cons.IH [of "Some b"] Cons.prems Some b show ?thesis by (auto simp: c better_def Let_def)
    next
      case False
      with Cons.IH [of "Some (pid, ?sc)"] Cons.prems Some b show ?thesis by (auto simp: c better_def Let_def)
    qed
  qed
qed auto

lemma pick_best_Some:
  assumes "pick_best lo hi cs = Some (p, sc)"
  shows "\<exists>pool. (p, pool) \<in> set cs \<and> sc = calculate_pool_score pool lo hi"
    "\<forall>c \<in> set cs. final_score (calculate_pool_score (snd c) lo hi) \<le> final_score sc"
  using pick_best_aux [OF assms [unfolded pick_best_def]] by auto

lemma pick_best_None: "pick_best lo hi cs = None \<longleftrightarrow> cs = []"
  using pick_best_aux [of lo hi cs None, OF refl] by (simp add: pick_best_def)

section \<open>A run\<close>

definition iter_ref :: "(nat \<Rightarrow> 'v list) \<Rightarrow> (nat \<times> 'v list) list" where
  "iter_ref m = map (\<lambda>p. (p, m p)) (sorted_list_of_set {p. m p \<noteq> []})"

lemma iter_ref_complete: "iter_complete iter_ref"
proof -
  have "p \<in> fst ` set (iter_ref m)" if "finite {p. m p \<noteq> []}" "m p \<noteq> []" for m :: "nat \<Rightarrow> nat list" and p
    using that by (auto simp: iter_ref_def image_iff)
  then show ?thesis by (auto simp: iter_complete_def iter_ref_def comp_def)
qed

definition iter_first4 :: "(nat \<Rightarrow> 'v option) \<Rightarrow> (nat \<times> 'v) list" where
  "iter_first4 m = List.map_filter (\<lambda>p. map_option (Pair p) (m p)) [0, 1, 2, 3]"

definition cp_demo :: "ledger x4_state at_state cp_config" where
  "cp_demo = cp_runtime (at_lift (at_Currency at_demo)) (on_task_completed at_demo) iter_first4 iter_ref"

definition cp_demo_world :: "ledger x4_state at_state" where
  "cp_demo_world = at_init (x4_init
     \<lparr>ledger_free = (\<lambda>_. 0)(5 := 10 ^ 20, 6 := 10 ^ 20, 7 := 10 ^ 20), ledger_reserved = (\<lambda>_. 0)\<rparr>)"

definition cp_demo_calls :: "(block_number \<times> origin \<times> cp_call) list" where
  "cp_demo_calls =
     [(10, Signed 5, RegisterPool [3] 80 False 100 (10 ^ 15)),
      (10, Signed 6, RegisterPool [4] 80 True 150 (2 * 10 ^ 15)),
      (11, Signed 7, SubmitTask \<lparr>dim_m = 8, dim_n = 8, dim_k = 8\<rparr> Normal None),
      (12, Signed 7, SubmitTask \<lparr>dim_m = 8, dim_n = 8, dim_k = 8\<rparr> Normal (Some 1)),
      (13, Signed 5, SubmitProof 0 (replicate 32 9)),
      (14, Signed 8, VerifyProof 0 True)]"

definition cp_demo_state :: "ledger x4_state at_state cp_state" where
  "cp_demo_state = projr (cp_run cp_demo cp_demo_calls (cp_init cp_demo_world))"

lemma cp_runtime_sel:
  "cp_Currency (cp_runtime C h ip it) = C" "PoolDeposit (cp_runtime C h ip it) = 10000 * 10 ^ 15"
  "TaskDeposit (cp_runtime C h ip it) = 1000 * 10 ^ 15" "FailureSlash (cp_runtime C h ip it) = 500 * 10 ^ 15"
  "TaskTimeout (cp_runtime C h ip it) = 14400" "MaxTasksPerPool (cp_runtime C h ip it) = 1000"
  "InitialReputation (cp_runtime C h ip it) = 100" "VerificationTimeout (cp_runtime C h ip it) = 1200"
  "OnTaskCompleted (cp_runtime C h ip it) = h" "iter_Pools (cp_runtime C h ip it) = ip"
  "iter_PoolTasks (cp_runtime C h ip it) = it"
  by (simp_all add: cp_runtime_def)

text \<open>The definitions with pairs taken apart by projections, so that the simplifier evaluates arguments first.\<close>

lemmas cp_ops = register_pool_def submit_task_def submit_proof_def verify_proof_def claim_reward_def
  dispute_verification_def deregister_pool_def choose_pool_def select_best_pool_for_task_def
  better_def finalize_verification_def slash_pool_def

lemmas cp_eval = cp_ops [unfolded case_prod_unfold]
  price_bounds_def pick_best_def widen_def eligible_def set_pool_score_def calculate_pool_score_def
  calculate_reward_def commit_def update_reputation_def updated_pool_def updated_miner_def
  decrement_pool_activity_def release_escrow_def new_pool_def new_task_def ensure_nvlink_def
  cp_demo_def cp_runtime_sel cp_demo_world_def cp_demo_calls_def cp_init_def cp_deposit_event_def
  iter_first4_def try_push_def default_score_def at_eval

lemma cp_demo_run: "cp_run cp_demo cp_demo_calls (cp_init cp_demo_world) = Inr cp_demo_state"
  by (simp add: cp_demo_state_def cp_eval cong: let_weak_cong)

lemma cp_demo_steps: "(cp_step cp_demo I L any_call)\<^sup>*\<^sup>* (cp_init cp_demo_world) cp_demo_state"
  by (rule cp_run_steps [OF cp_demo_run])

lemma cp_run_undisputed:
  "cp_run T cs s = Inr s' \<Longrightarrow> (\<forall>x \<in> set cs. \<forall>t. snd (snd x) \<noteq> DisputeVerification t) \<Longrightarrow>
    (cp_step T I L no_late_dispute)\<^sup>*\<^sup>* s s'"
proof (induction T cs s rule: cp_run.induct)
  case (2 T now orig c cs s)
  from "2.prems"(1) obtain s1 where s1: "cp_dispatch T now orig c s = Inr s1" "cp_run T cs s1 = Inr s'"
    by (auto split: sum.splits)
  have "cp_step T I L no_late_dispute s s1"
    using "2.prems"(2) by (intro cp_step.call [OF s1(1)]) (simp add: no_late_dispute_def)
  moreover have "(cp_step T I L no_late_dispute)\<^sup>*\<^sup>* s1 s'"
    by (rule "2.IH" [OF s1]) (use "2.prems"(2) in simp)
  ultimately show ?case by (rule converse_rtranclp_into_rtranclp)
qed simp

lemma cp_demo_steps': "(cp_step cp_demo I L no_late_dispute)\<^sup>*\<^sup>* (cp_init cp_demo_world) cp_demo_state"
  by (rule cp_run_undisputed [OF cp_demo_run]) (simp add: cp_demo_calls_def)

lemma cp_demo_ok: "cp_ok cp_demo (at_world_inv at_demo x4_inv x4_locked) (at_total x4_locked)"
  using at_hosted [OF at_okD(1) [OF at_demo_ok]] ath.task_completion_handler_axioms
  by (simp add: cp_ok_def cp_demo_def cp_runtime_sel)

lemma cp_demo_sched: "sched_ok cp_demo"
  by (simp add: sched_ok_def cp_demo_def cp_runtime_sel iter_ref_complete)

lemma cp_demo_world_ok:
  "at_world_inv at_demo x4_inv x4_locked cp_demo_world" "at_total x4_locked cp_demo_world a = 0"
  unfolding cp_demo_world_def at_world_inv_def at_total_def
  by (simp_all add: at_demo_ok at_init_inv at_init_locked)
    (simp add: at_init_def x4_init_inv, simp add: at_init_def x4_locked_def x4_init_def)

definition cp_demo_task :: compute_task where
  "cp_demo_task = (new_task 0 7 \<lparr>dim_m = 8, dim_n = 8, dim_k = 8\<rparr> Normal 11)
     \<lparr>task_state := Completed, proof_hash := Some (replicate 32 9), verification_result := Some True,
      reward_amount := Some (10 ^ 15)\<rparr>"

definition cp_demo_escrow :: task_escrow where
  "cp_demo_escrow = \<lparr>escrow_user = 7, escrow_pool_owner = 5, escrow_reward = 10 ^ 15,
     escrow_deposit = 10 ^ 18, claimed = False\<rparr>"

lemma cp_demo_obs:
  "cp_reserved cp_demo cp_demo_state 7 = 2 * 10 ^ 18 + 4 * 10 ^ 15"
  "cp_free cp_demo cp_demo_state 7 = 98 * 10 ^ 18 - 4 * 10 ^ 15"
  "cp_free cp_demo cp_demo_state 5 = 899 * 10 ^ 17"
  "Tasks cp_demo_state 0 = Some cp_demo_task" "TaskEscrowStore cp_demo_state 0 = Some cp_demo_escrow"
  by (simp_all add: cp_demo_state_def cp_demo_task_def cp_demo_escrow_def cp_eval cong: let_weak_cong)

section \<open>Properties\<close>

text \<open>
  C8: Along every run of calls, block hooks and outside changes of the world in which nobody disputes
a task whose reward has been claimed, each account's reserved balance is exactly what it was before plus
what the pallet's records say is locked for it (pool deposits that remain after slashing, the reward and
deposit of unclaimed escrows, stakes) and what the pallets below account for, so every lock is backed.\<close>

theorem cp_reserves_exact:
  assumes "cp_ok T I L" "I w" "\<forall>a. L w a \<le> reserved_balance (cp_Currency T) w a"
    "(cp_step T I L no_late_dispute)\<^sup>*\<^sup>* (cp_init w) s"
  shows "cp_reserved T s a + L w a =
      reserved_balance (cp_Currency T) w a + cp_locked s a + L (cp_world s) a \<and>
    cp_locked s a + L (cp_world s) a \<le> cp_reserved T s a"
  using cp_reachable(2) [OF assms, of a] goodD(5) [OF cp_reachable(1) [OF assms], of a]
  by (simp add: cp_total_def)

theorem cp_reserves_exact_witness:
  "cp_locked cp_demo_state 7 + at_total x4_locked (cp_world cp_demo_state) 7 = 2 * 10 ^ 18 + 4 * 10 ^ 15"
proof -
  have "reserved_balance (cp_Currency cp_demo) cp_demo_world 7 = 0"
    by (simp add: cp_eval)
  with cp_reserves_exact [OF cp_demo_ok cp_demo_world_ok(1) _ cp_demo_steps', of 7] show ?thesis
    by (simp add: cp_demo_world_ok cp_demo_obs)
qed



text \<open>
  C21: Selection is optimal: among the first fifty pools in storage order, the selected pool is one that
is active, has room and enough memory, its score is computed against the cheapest and dearest of those
pools, and no such pool scores higher; selection fails exactly when there is none.\<close>

theorem cp_selection_optimal:
  "case select_best_pool_for_task T task s of
     Inl err \<Rightarrow> err = NoAvailablePool \<and> candidate_pools T task s = []
   | Inr (s', p, sc) \<Rightarrow>
       (let cs = candidate_pools T task s; lo = Min (pool_prices cs); hi = Max (pool_prices cs) in
        (\<exists>pool. (p, pool) \<in> set cs \<and> eligible T s (dim_k (dimensions task)) (p, pool) \<and>
           sc = calculate_pool_score pool lo hi) \<and>
        (\<forall>c \<in> set cs. final_score (calculate_pool_score (snd c) lo hi) \<le> final_score sc) \<and>
        s' = set_pool_score p sc s)"
proof (cases "candidate_pools T task s = []")
  case True
  then show ?thesis by (simp add: select_best_pool_for_task_def candidate_pools_def)
next
  case False
  let ?cs = "candidate_pools T task s"
  let ?lo = "Min (pool_prices ?cs)" and ?hi = "Max (pool_prices ?cs)"
  obtain p sc where b: "pick_best ?lo ?hi ?cs = Some (p, sc)"
    using False pick_best_None [of ?lo ?hi ?cs] by (cases "pick_best ?lo ?hi ?cs") auto
  have "select_best_pool_for_task T task s = Inr (set_pool_score p sc s, p, sc)"
    using False b price_bounds_eq [OF False]
    by (simp add: select_best_pool_for_task_def candidate_pools_def Let_def)
  moreover have "eligible T s (dim_k (dimensions task)) c" if "c \<in> set ?cs" for c
    using that by (simp add: candidate_pools_def)
  ultimately show ?thesis using pick_best_Some [OF b] by (simp add: Let_def) blast
qed

theorem cp_selection_optimal_witness:
  "\<exists>s' sc. select_best_pool_for_task cp_demo cp_demo_task cp_demo_state = Inr (s', 0, sc) \<and>
     (\<forall>c \<in> set (candidate_pools cp_demo cp_demo_task cp_demo_state).
        final_score (calculate_pool_score (snd c)
          (Min (pool_prices (candidate_pools cp_demo cp_demo_task cp_demo_state)))
          (Max (pool_prices (candidate_pools cp_demo cp_demo_task cp_demo_state)))) \<le> final_score sc)"
proof -
  obtain s' sc where "select_best_pool_for_task cp_demo cp_demo_task cp_demo_state = Inr (s', 0, sc)"
    by (simp add: cp_demo_state_def cp_demo_task_def cp_eval cong: let_weak_cong)
  with cp_selection_optimal [of cp_demo cp_demo_task cp_demo_state] show ?thesis
    by (auto simp: Let_def)
qed

text \<open>A pool's score is the exact sum of its four components, whatever the pool and the price range:
at most 4000 points for reputation, 3000 for the success rate, 2000 for the price and 1000 for the link,
so it is at most 10000 and none of the saturating 32-bit operations ever saturates.\<close>

lemma cp_score_bounds:
  assumes "lo \<le> hi"
  shows "let sc = calculate_pool_score pool lo hi in
   reputation_score sc = 40 * min (reputation pool) 100 \<and>
   success_rate_score sc = 30 * min (success_rate pool) 100 \<and>
   price_score sc \<le> 2000 \<and> nvlink_score sc \<le> 1000 \<and>
   final_score sc = reputation_score sc + success_rate_score sc + price_score sc + nvlink_score sc \<and>
   final_score sc \<le> 10000"
proof -
  define price where "price = (if hi = lo then 100
    else saturating_sub 100 (saturating_mul 128 (saturating_sub (saturated_into 128 (price_per_task pool)) lo) 100
      div saturating_sub hi lo) mod 2 ^ 32)"
  define nv where "nv = (if has_nvlink pool then saturating_mul 32 (min (nvlink_efficiency pool) 150) 100 div 150 else 0)"
  have p: "price \<le> 100"
    unfolding price_def saturating_sub_def by (simp add: order.trans [OF mod_less_eq_dividend])
  have "saturating_mul 32 (min (nvlink_efficiency pool) 150) 100 \<le> 15000"
    by (simp add: saturating_mul_def min_def)
  then have "saturating_mul 32 (min (nvlink_efficiency pool) 150) 100 div 150 \<le> 15000 div 150"
    by (rule div_le_mono)
  then have n: "nv \<le> 100" by (simp add: nv_def)
  have m: "saturating_mul 32 x c = c * x" if "x \<le> 100" "c \<le> 40" for x c :: nat
  proof -
    have "x * c \<le> 100 * 40" using that by (intro mult_le_mono)
    then show ?thesis by (simp add: saturating_mul_def mult.commute)
  qed
  have sc: "calculate_pool_score pool lo hi =
     (let r = saturating_mul 32 (min (reputation pool) 100) 40; s = saturating_mul 32 (min (success_rate pool) 100) 30;
          p = saturating_mul 32 price 20; n = saturating_mul 32 nv 10
      in \<lparr>reputation_score = r, success_rate_score = s, price_score = p, nvlink_score = n,
          final_score = saturating_add 32 (saturating_add 32 (saturating_add 32 r s) p) n\<rparr>)"
    unfolding price_def nv_def by (simp add: calculate_pool_score_def Let_def)
  show ?thesis
    unfolding sc using p n by (simp add: Let_def m saturating_add_def min_def)
qed

lemma cp_score_bounds_witness:
  "final_score (calculate_pool_score (new_pool cp_demo 0 5 [3] 80 True 150 7) 5 9) \<le> 10000"
  using cp_score_bounds [of 5 9 "new_pool cp_demo 0 5 [3] 80 True 150 7"] by (simp add: Let_def)

text \<open>
  C23: No task stays open past its deadlines. In every state a run can reach, the block hook turns each
open task whose proof has waited longer than the verification timeout into a completed one, each other
open task older than the task timeout into a failed one, and leaves the remaining tasks alone; the open
tasks are exactly the ones in the lists the hook walks through, so none is missed.\<close>

theorem cp_hook_closes_overdue:
  assumes "sched_ok T" "(cp_step T I L any_call)\<^sup>*\<^sup>* (cp_init w) s"
    "Tasks s t = Some task" "\<not> is_terminal (task_state task)"
  shows "Tasks (on_initialize T now s) t = Some (
      if task_state task = ProofSubmitted \<and>
        (\<exists>b. ProofSubmittedAt s t = Some b \<and> saturating_add 32 b (VerificationTimeout T) < now)
      then task\<lparr>task_state := Completed, verification_result := Some True\<rparr>
      else if saturating_add 32 (task_submitted_at task) (TaskTimeout T) < now
      then task\<lparr>task_state := Failed, verification_result := Some False\<rparr> else task) \<and>
    (\<exists>p pool. Pools s p = Some pool \<and> t \<in> set (PoolTasks s p))"
proof -
  have inv: "act_inv s" by (rule cp_reach_act [OF assms(2,1)])
  have it: "iter_complete (iter_PoolTasks T)" using assms(1) by (simp add: sched_ok_def)
  have h: "Tasks (on_initialize T now s) t = Some (if classify T now s t = NotDue then task
    else task\<lparr>task_state := if classify T now s t = AutoVerify then Completed else Failed,
         verification_result := Some (classify T now s t = AutoVerify)\<rparr>)"
    using on_initialize_closes [OF inv it, of now] assms(3)
    by (cases "classify T now s t = NotDue") (auto simp: overdue_def)
  define A where "A \<longleftrightarrow> task_state task = ProofSubmitted \<and>
    (\<exists>b. ProofSubmittedAt s t = Some b \<and> saturating_add 32 b (VerificationTimeout T) < now)"
  define B where "B \<longleftrightarrow> saturating_add 32 (task_submitted_at task) (TaskTimeout T) < now"
  have "classify T now s t = (if A then AutoVerify else if B then Expire else NotDue)"
    using assms(3,4) by (auto simp: classify_def A_def B_def split: option.splits)
  with h have "Tasks (on_initialize T now s) t = Some (
      if A then task\<lparr>task_state := Completed, verification_result := Some True\<rparr>
      else if B then task\<lparr>task_state := Failed, verification_result := Some False\<rparr> else task)"
    by (cases A; cases B) simp_all
  with open_task_pool [OF inv assms(3,4)] show ?thesis unfolding A_def B_def by blast
qed

theorem cp_hook_closes_overdue_witness:
  "\<exists>task. Tasks (on_initialize cp_demo 14413 cp_demo_state) 1 = Some task \<and> task_state task = Failed"
proof -
  obtain task where t: "Tasks cp_demo_state 1 = Some task" "task_state task = Computing" "task_submitted_at task = 12"
    by (simp add: cp_demo_state_def cp_eval cong: let_weak_cong)
  have "TaskTimeout cp_demo = 14400" by (simp add: cp_demo_def cp_runtime_sel)
  with cp_hook_closes_overdue [OF cp_demo_sched cp_demo_steps t(1), where now = 14413] t show ?thesis
    by (auto simp: is_terminal_def saturating_add_def)
qed

text \<open>
  C29: The life of a task: whatever step a run takes next, a task keeps its user, its pool and its
reward, and either nothing of it changes, or a computing task gets its proof, an open task fails, a task
with a proof completes, or a completed or failed task is disputed, which happens at most once.\<close>

theorem cp_task_lifecycle:
  assumes "sched_ok T" "(cp_step T I L any_call)\<^sup>*\<^sup>* (cp_init w) s" "cp_step T I L any_call s s'"
    "Tasks s t = Some k"
  shows "\<exists>k'. Tasks s' t = Some k' \<and> user k' = user k \<and> task_pool k' = task_pool k \<and>
     reward_amount k' = reward_amount k \<and>
     (k' = k \<or>
      task_state k = Computing \<and> task_state k' = ProofSubmitted \<and> disputed k' = disputed k \<or>
      \<not> is_terminal (task_state k) \<and> task_state k' = Failed \<and> disputed k' = disputed k \<or>
      task_state k = ProofSubmitted \<and> task_state k' = Completed \<and> disputed k' = disputed k \<or>
      is_terminal (task_state k) \<and> is_terminal (task_state k') \<and> \<not> disputed k \<and> disputed k')"
  using cp_step_follows [OF assms(3) cp_reach_act [OF assms(2,1)] assms(1,4)]
  by (simp add: task_follows_def)

theorem cp_task_lifecycle_witness:
  "\<exists>s' k'. dispute_verification cp_demo (Signed 7) 0 cp_demo_state = Inr s' \<and> Tasks s' 0 = Some k' \<and>
     user k' = 7 \<and> (k' = cp_demo_task \<or> disputed k')"
proof -
  let ?c = "dispute_verification cp_demo (Signed 7) 0 cp_demo_state"
  have c: "?c = Inr (projr ?c)"
    by (simp add: cp_demo_state_def cp_eval cong: let_weak_cong)
  then have "cp_step cp_demo (\<lambda>_. True) (\<lambda>_ _. 0) any_call cp_demo_state (projr ?c)"
    by (intro cp_step.call [where c = "DisputeVerification 0" and orig = "Signed 7"]) simp_all
  from cp_task_lifecycle [OF cp_demo_sched cp_demo_steps this cp_demo_obs(4)] c show ?thesis
    by (intro exI [of _ "projr ?c"]) (auto simp: cp_demo_task_def new_task_def is_terminal_def)
qed

text \<open>
  C35: A dispute of a completed task whose reward has already been claimed releases the escrow a second
time: the paid escrow locks nothing any more, yet reward plus deposit are moved from the user's reserved
to the user's free balance again, as far as the user has any reserved balance, be it locked for other
tasks, for stakes or by other pallets.\<close>

theorem cp_late_dispute_releases_twice:
  assumes C: "reservable_currency (cp_Currency T)"
    and "Tasks s t = Some task" "verification_result task = Some True"
    and "TaskEscrowStore s t = Some e" "claimed e"
    and "dispute_verification T orig t s = Inr s'"
  shows "escrow_owed e (escrow_user e) = 0 \<and>
    cp_free T s' (escrow_user e) = cp_free T s (escrow_user e) +
      min (saturating_add 128 (escrow_reward e) (escrow_deposit e)) (cp_reserved T s (escrow_user e))"
proof -
  let ?s1 = "update_reputation (task_pool task) False (s\<lparr>Tasks := (Tasks s)(t \<mapsto>
      task\<lparr>task_state := Failed, verification_result := Some False, disputed := True\<rparr>)\<rparr>)"
  let ?sl = "slash_pool T (task_pool task) (release_escrow T t ?s1)"
  obtain e1 e2 where s': "s' = cp_deposit_event e1 (cp_deposit_event e2 (fst ?sl))"
    using assms(2,3,6) by (auto simp: dispute_verification_def Let_def split: option.splits if_splits prod.splits)
  have slash: "cp_free T (fst (slash_pool T p u)) a = cp_free T u a" for p u a
    using reservable_currency.slash_reserved_law [OF C]
    by (auto simp: slash_pool_def Let_def split: option.splits prod.splits)
  have "cp_free T (release_escrow T t ?s1) (escrow_user e) = cp_free T s (escrow_user e) +
      min (saturating_add 128 (escrow_reward e) (escrow_deposit e)) (cp_reserved T s (escrow_user e))"
    using assms(4) by (simp add: release_escrow_def Let_def reservable_currency.unreserve_free [OF C])
  then show ?thesis using assms(5) by (simp add: s' slash escrow_owed_def)
qed

definition cp_claimed_state :: "ledger x4_state at_state cp_state" where
  "cp_claimed_state = projr (claim_reward cp_demo (Signed 5) 0 cp_demo_state)"

text \<open>In the run, the user's second task is no longer backed after the late dispute of the first.\<close>

theorem cp_late_dispute_releases_twice_witness:
  "\<exists>s'. dispute_verification cp_demo (Signed 7) 0 cp_claimed_state = Inr s' \<and>
     cp_free cp_demo s' 7 = cp_free cp_demo cp_claimed_state 7 + (10 ^ 18 + 10 ^ 15) \<and>
     cp_reserved cp_demo s' 7 = 2 * 10 ^ 15 \<and> cp_locked s' 7 = 10 ^ 18 + 3 * 10 ^ 15"
proof -
  let ?c = "dispute_verification cp_demo (Signed 7) 0 cp_claimed_state"
  have C: "reservable_currency (cp_Currency cp_demo)" by (rule cp_okD(2) [OF cp_demo_ok])
  have c: "?c = Inr (projr ?c)" "Tasks cp_claimed_state 0 = Some cp_demo_task"
    "TaskEscrowStore cp_claimed_state 0 = Some (cp_demo_escrow\<lparr>claimed := True\<rparr>)"
    "cp_reserved cp_demo cp_claimed_state 7 = 10 ^ 18 + 3 * 10 ^ 15"
    "cp_reserved cp_demo (projr ?c) 7 = 2 * 10 ^ 15"
    "cp_locked (projr ?c) 7 = 10 ^ 18 + 3 * 10 ^ 15"
    by (simp_all add: cp_claimed_state_def cp_demo_state_def cp_demo_task_def cp_demo_escrow_def cp_locked_def
        pools_total_def escrows_total_def stakes_total_def owed_total_def pool_owed_def escrow_owed_def
        cp_eval cong: let_weak_cong)
  from cp_late_dispute_releases_twice [OF C c(2) _ c(3) _ c(1)] c show ?thesis
    by (intro exI [of _ "projr ?c"]) (simp add: cp_demo_task_def cp_demo_escrow_def saturating_add_def)
qed

text \<open>
  Deregistering a pool strands the escrow of each of its completed tasks that has not been claimed
yet: in every later state of every run the escrow is still stored, and neither a claim nor a dispute by
anyone can succeed, so the user's reward and deposit stay reserved forever.\<close>

lemma cp_deregister_strands_escrow:
  assumes "sched_ok T" "(cp_step T I L any_call)\<^sup>*\<^sup>* (cp_init w) s"
    "Tasks s t = Some task" "task_state task = Completed" "verification_result task = Some True"
    "TaskEscrowStore s t = Some e" "deregister_pool T orig (task_pool task) s = Inr s1"
    "(cp_step T I L any_call)\<^sup>*\<^sup>* s1 s2"
  shows "TaskEscrowStore s2 t = Some e \<and> (\<nexists>s3. claim_reward T orig' t s2 = Inr s3) \<and>
    (\<nexists>s3. dispute_verification T orig' t s2 = Inr s3)"
proof -
  have inv: "act_inv s" by (rule cp_reach_act [OF assms(2,1)])
  from assms(7) obtain pool where "Pools s (task_pool task) = Some pool"
    by (auto simp: deregister_pool_def split: option.splits)
  from act_invD(4) [OF inv this] assms(3-7) have "stranded t task e s1"
    by (auto simp: stranded_def deregister_pool_def split: option.splits if_splits)
  with assms(1,8) have "stranded t task e s2"
    by (intro stranded_run [OF assms(8)] deregister_pool_act [OF inv assms(7)])
  then show ?thesis
    by (auto simp: stranded_def elim!: claim_reward_Inr dispute_verification_Inr)
qed

lemma cp_deregister_strands_escrow_witness:
  "\<exists>s1. deregister_pool cp_demo (Signed 5) 0 cp_demo_state = Inr s1 \<and>
     (\<nexists>s3. claim_reward cp_demo (Signed 5) 0 s1 = Inr s3)"
proof -
  let ?c = "deregister_pool cp_demo (Signed 5) (task_pool cp_demo_task) cp_demo_state"
  have p: "task_pool cp_demo_task = 0" by (simp add: cp_demo_task_def new_task_def)
  have c: "?c = Inr (projr ?c)"
    unfolding p by (simp add: cp_demo_state_def cp_eval cong: let_weak_cong)
  have st: "task_state cp_demo_task = Completed" "verification_result cp_demo_task = Some True"
    by (simp_all add: cp_demo_task_def)
  have "\<nexists>s3. claim_reward cp_demo (Signed 5) 0 (projr ?c) = Inr s3"
    using cp_deregister_strands_escrow [OF cp_demo_sched cp_demo_steps cp_demo_obs(4) st cp_demo_obs(5) c
        rtranclp.rtrancl_refl] by blast
  with c show ?thesis unfolding p by blast
qed

text \<open>
  A dispute that turns a failed task into a completed one announces a reward that is never paid: the
escrow of a failed task is gone, so although the task counts as completed and its reward is recorded as
available, no claim of it succeeds in any later state.\<close>

lemma cp_failed_dispute_never_pays:
  assumes "sched_ok T" "(cp_step T I L any_call)\<^sup>*\<^sup>* (cp_init w) s"
    "Tasks s t = Some task" "task_state task = Failed" "verification_result task = Some False"
    "dispute_verification T orig t s = Inr s1" "(cp_step T I L any_call)\<^sup>*\<^sup>* s1 s2"
  shows "is_task_completed t s1 \<and> (reward_amount task \<noteq> None \<longrightarrow> Rewards s1 t = reward_amount task) \<and>
    (\<nexists>s3. claim_reward T orig' t s2 = Inr s3)"
proof -
  have inv: "act_inv s" by (rule cp_reach_act [OF assms(2,1)])
  have "paid t s"
    using act_invD(1,3) [OF inv assms(3)] assms(4) by (simp add: paid_def task_ok_def)
  then have "paid t s1"
    by (rule cp_dispatch_paid [where c = "DisputeVerification t" and orig = orig and T = T]) (use assms(6) in simp)
  then have "\<nexists>s3. claim_reward T orig' t s2 = Inr s3" by (intro paid_no_claim paid_run [OF assms(7)])
  moreover have "is_task_completed t s1"
    using assms(6) by (rule dispute_verification_Inr) (use assms(3,5) in \<open>auto simp: is_task_completed_def\<close>)
  moreover have "reward_amount task \<noteq> None \<longrightarrow> Rewards s1 t = reward_amount task"
    using assms(3,5,6) by (auto simp: dispute_verification_def Let_def split: option.splits if_splits)
  ultimately show ?thesis by blast
qed

definition cp_rejected_state :: "ledger x4_state at_state cp_state" where
  "cp_rejected_state = projr (cp_run cp_demo
     [(15, Signed 6, SubmitProof 1 (replicate 32 9)), (16, Signed 8, VerifyProof 1 False)] cp_demo_state)"

lemma cp_failed_dispute_never_pays_witness:
  "\<exists>s1. dispute_verification cp_demo (Signed 7) 1 cp_rejected_state = Inr s1 \<and> is_task_completed 1 s1 \<and>
     (\<nexists>s3. claim_reward cp_demo (Signed 6) 1 s1 = Inr s3)"
proof -
  let ?c = "dispute_verification cp_demo (Signed 7) 1 cp_rejected_state"
  have r: "cp_run cp_demo [(15, Signed 6, SubmitProof 1 (replicate 32 9)), (16, Signed 8, VerifyProof 1 False)]
      cp_demo_state = Inr cp_rejected_state"
    and c: "?c = Inr (projr ?c)"
    by (simp_all add: cp_rejected_state_def cp_demo_state_def cp_eval cong: let_weak_cong)
  obtain task where t: "Tasks cp_rejected_state 1 = Some task" "task_state task = Failed"
      "verification_result task = Some False"
    by (simp add: cp_rejected_state_def cp_demo_state_def cp_eval cong: let_weak_cong)
  have "(cp_step cp_demo (\<lambda>_. True) (\<lambda>_ _. 0) any_call)\<^sup>*\<^sup>* (cp_init cp_demo_world) cp_rejected_state"
    using cp_demo_steps cp_run_steps [OF r] by (rule rtranclp_trans)
  from cp_failed_dispute_never_pays [OF cp_demo_sched this t c rtranclp.rtrancl_refl] c show ?thesis
    by (intro exI [of _ "projr ?c"]) auto
qed

end
