(* ===== verification/Zk_Compute.thy ===== *)
theory Zk_Compute
  imports Escrow
begin

text \<open>
  The pallet \<open>pallets/zk-compute/src/lib.rs\<close> and the runtime's proof verifier
  (\<open>runtime/src/lib.rs\<close>, \<open>HashCommitmentZkVerifier\<close>). Miners submit proofs under a deposit; a proof is
  verified by anyone with \<open>verify_task\<close> or by an unsigned transaction of the off-chain worker; the miner
  of a verified proof claims a reward from the pallet's account and gets the deposit back, the deposit of
  a failed proof goes to the pallet's account. The hash function \<open>blake2_256\<close> and the account of the
  pallet are parameters.
\<close>

section \<open>Data\<close>

datatype zk_verification_status = Pending | Verified | Failed

record zk_task =
  zk_task_id :: nat
  zk_miner :: account
  zk_proof :: bytes
  zk_dims :: "nat \<times> nat \<times> nat"
  zk_status :: zk_verification_status
  base_reward :: balance
  multiplier_q100 :: nat
  zk_submitted_at :: block_number
  submission_deposit :: balance
  reward_claimed :: bool

datatype zk_error =
    BadOrigin
  | TaskNotFound
  | TaskIdOverflow
  | ProofTooLarge
  | InvalidDimensions
  | InvalidMultiplier
  | InvalidTaskStatus
  | RewardAlreadyClaimed
  | TaskNotVerified
  | NotTaskMiner
  | ArithmeticOverflow
  | NonceAlreadyUsed
  | TooManyPendingTasks
  | TooManyVerifiedTasks
  | TooManyPendingTasksForMiner
  | InsufficientMinerScore
  | BalanceTransferFailed
  | CurrencyError

datatype zk_event =
    ProofSubmitted nat account nat "nat \<times> nat \<times> nat"
  | ProofVerifiedByOcw nat bool
  | ProofVerified nat account zk_verification_status
  | RewardClaimed nat account balance
  | MinerScoreUpdated account nat
  | DepositSlashed nat account balance

record 'w zk_config =
  zk_Currency :: "'w currency_ops"
  ZkVerifier :: "bytes \<Rightarrow> nat \<times> nat \<times> nat \<Rightarrow> bool"
  MaxProofSize :: nat
  MaxPendingTasks :: nat
  MaxVerifiedTasks :: nat
  MaxPendingPerMiner :: nat
  BaseReward :: balance
  SubmissionDeposit :: balance
  VerificationTimeout :: block_number
  InitialMinerScore :: nat
  MinMinerScoreToSubmit :: nat
  MaxMinerScore :: nat
  ScoreOnSuccess :: nat
  ScorePenaltyOnFailure :: nat
  zk_account_id :: account

record 'w zk_state =
  NextTaskId :: nat
  Tasks :: "nat \<Rightarrow> zk_task option"
  PendingTasks :: "nat list"
  VerifiedTasks :: "nat list"
  MinerScores :: "account \<Rightarrow> nat option"
  UsedNonces :: "account \<Rightarrow> nat \<Rightarrow> bool"
  MinerPendingCount :: "account \<Rightarrow> nat"
  zk_events :: "zk_event list"
  zk_world :: 'w

definition zk_deposit_event :: "zk_event \<Rightarrow> 'w zk_state \<Rightarrow> 'w zk_state" where
  "zk_deposit_event e s = s\<lparr>zk_events := zk_events s @ [e]\<rparr>"

section \<open>Helpers\<close>

definition volume :: "nat \<times> nat \<times> nat \<Rightarrow> nat option" where
  "volume d =
     (case checked_mul 128 (fst d) (fst (snd d)) of None \<Rightarrow> None
      | Some v \<Rightarrow> checked_mul 128 v (snd (snd d)))"

definition valid_dimensions :: "nat \<times> nat \<times> nat \<Rightarrow> bool" where
  "valid_dimensions d =
     (if fst d = 0 \<or> fst (snd d) = 0 \<or> snd (snd d) = 0 then False else volume d \<noteq> None)"

definition calculate_reward :: "zk_task \<Rightarrow> zk_error + balance" where
  "calculate_reward task =
     (case volume (zk_dims task) of None \<Rightarrow> Inl ArithmeticOverflow
      | Some vol \<Rightarrow>
      (case checked_mul 128 (saturated_into 128 (base_reward task)) vol of None \<Rightarrow> Inl ArithmeticOverflow
       | Some v \<Rightarrow>
      (case checked_mul 128 v (multiplier_q100 task) of None \<Rightarrow> Inl ArithmeticOverflow
       | Some numerator \<Rightarrow>
      (case checked_div numerator 100000000 of None \<Rightarrow> Inl ArithmeticOverflow
       | Some reward \<Rightarrow> Inr (saturated_into 128 reward)))))"

definition remove_from_pending :: "nat \<Rightarrow> 'w zk_state \<Rightarrow> 'w zk_state" where
  "remove_from_pending t s =
     (case position t (PendingTasks s) of None \<Rightarrow> s
      | Some i \<Rightarrow> s\<lparr>PendingTasks := swap_remove (PendingTasks s) i\<rparr>)"

definition current_miner_score :: "'w zk_config \<Rightarrow> account \<Rightarrow> 'w zk_state \<Rightarrow> nat" where
  "current_miner_score T who s = (case MinerScores s who of None \<Rightarrow> InitialMinerScore T | Some sc \<Rightarrow> sc)"

definition increase_score :: "'w zk_config \<Rightarrow> account \<Rightarrow> 'w zk_state \<Rightarrow> 'w zk_state" where
  "increase_score T who s =
     (let sc = min (saturating_add 32 (current_miner_score T who s) (ScoreOnSuccess T)) (MaxMinerScore T)
      in zk_deposit_event (MinerScoreUpdated who sc) (s\<lparr>MinerScores := (MinerScores s)(who \<mapsto> sc)\<rparr>))"

definition decrease_score :: "'w zk_config \<Rightarrow> account \<Rightarrow> 'w zk_state \<Rightarrow> 'w zk_state" where
  "decrease_score T who s =
     (let sc = saturating_sub (current_miner_score T who s) (ScorePenaltyOnFailure T)
      in zk_deposit_event (MinerScoreUpdated who sc) (s\<lparr>MinerScores := (MinerScores s)(who \<mapsto> sc)\<rparr>))"

section \<open>Dispatchables\<close>

definition new_zk_task ::
    "'w zk_config \<Rightarrow> block_number \<Rightarrow> nat \<Rightarrow> account \<Rightarrow> bytes \<Rightarrow> nat \<times> nat \<times> nat \<Rightarrow> nat \<Rightarrow> zk_task" where
  "new_zk_task T now t who pr dims mult =
     \<lparr>zk_task_id = t, zk_miner = who, zk_proof = pr, zk_dims = dims, zk_status = Pending,
      base_reward = BaseReward T, multiplier_q100 = mult, zk_submitted_at = now,
      submission_deposit = SubmissionDeposit T, reward_claimed = False\<rparr>"

definition submit_proof ::
    "'w zk_config \<Rightarrow> block_number \<Rightarrow> origin \<Rightarrow> bytes \<Rightarrow> nat \<times> nat \<times> nat \<Rightarrow> nat \<Rightarrow> nat \<Rightarrow> 'w zk_state \<Rightarrow>
     zk_error + 'w zk_state" where
  "submit_proof T now orig pr dims mult nonce s =
     (case ensure_signed orig of None \<Rightarrow> Inl BadOrigin
      | Some who \<Rightarrow>
      if \<not> valid_dimensions dims then Inl InvalidDimensions
      else if \<not> (120 \<le> mult \<and> mult \<le> 150) then Inl InvalidMultiplier
      else if UsedNonces s who nonce then Inl NonceAlreadyUsed
      else if \<not> current_miner_score T who s \<ge> MinMinerScoreToSubmit T then Inl InsufficientMinerScore
      else let pending_count = MinerPendingCount s who in
      if \<not> pending_count < MaxPendingPerMiner T then Inl TooManyPendingTasksForMiner
      else if length pr > MaxProofSize T then Inl ProofTooLarge
      else (case reserve (zk_Currency T) who (SubmissionDeposit T) (zk_world s) of None \<Rightarrow> Inl CurrencyError
      | Some w \<Rightarrow>
      let t = NextTaskId s in
      (case checked_add 64 t 1 of None \<Rightarrow> Inl TaskIdOverflow
       | Some next_task_id \<Rightarrow>
      (case try_push (MaxPendingTasks T) (PendingTasks s) t of None \<Rightarrow> Inl TooManyPendingTasks
       | Some queue \<Rightarrow>
      Inr (zk_deposit_event (ProofSubmitted t who nonce dims)
        (s\<lparr>zk_world := w, PendingTasks := queue,
           Tasks := (Tasks s)(t \<mapsto> new_zk_task T now t who pr dims mult),
           NextTaskId := next_task_id,
           UsedNonces := (UsedNonces s)(who := (UsedNonces s who)(nonce := True)),
           MinerPendingCount := (MinerPendingCount s)(who := saturating_add 32 pending_count 1)\<rparr>))))))"

text \<open>What both ways of verifying do first: store the verdict and take the task out of the queue.\<close>

definition record_verdict :: "nat \<Rightarrow> zk_task \<Rightarrow> bool \<Rightarrow> 'w zk_state \<Rightarrow> 'w zk_state" where
  "record_verdict t task verified s =
     (let st = (if verified then Verified else Failed);
          s1 = remove_from_pending t (s\<lparr>Tasks := (Tasks s)(t \<mapsto> task\<lparr>zk_status := st\<rparr>)\<rparr>)
      in s1\<lparr>MinerPendingCount := (MinerPendingCount s1)
             (zk_miner task := saturating_sub (MinerPendingCount s1 (zk_miner task)) 1)\<rparr>)"

definition verify_task ::
    "'w zk_config \<Rightarrow> block_number \<Rightarrow> origin \<Rightarrow> nat \<Rightarrow> 'w zk_state \<Rightarrow> zk_error + 'w zk_state" where
  "verify_task T now orig t s =
     (case ensure_signed orig of None \<Rightarrow> Inl BadOrigin
      | Some verifier \<Rightarrow>
      (case Tasks s t of None \<Rightarrow> Inl TaskNotFound
       | Some task \<Rightarrow>
      if zk_status task \<noteq> Pending then Inl InvalidTaskStatus
      else (case checked_add 32 (zk_submitted_at task) (VerificationTimeout T) of
        None \<Rightarrow> Inl ArithmeticOverflow
      | Some deadline \<Rightarrow>
      let timed_out = now > deadline;
          verified = (if timed_out then False else ZkVerifier T (zk_proof task) (zk_dims task));
          s1 = record_verdict t task verified s
      in if verified
         then (case try_push (MaxVerifiedTasks T) (VerifiedTasks s1) t of None \<Rightarrow> Inl TooManyVerifiedTasks
               | Some history \<Rightarrow>
                   Inr (zk_deposit_event (ProofVerified t verifier Verified)
                     (increase_score T (zk_miner task) (s1\<lparr>VerifiedTasks := history\<rparr>))))
         else
           let s2 = decrease_score T (zk_miner task) s1
           in (case repatriate_reserved (zk_Currency T) (zk_miner task) (zk_account_id T)
                   (submission_deposit task) (zk_world s2) of
                 None \<Rightarrow> Inl CurrencyError
               | Some r \<Rightarrow>
                   let slashed = saturating_sub (submission_deposit task) (snd r);
                       s3 = s2\<lparr>zk_world := fst r\<rparr>;
                       s4 = (if slashed \<noteq> 0
                             then zk_deposit_event (DepositSlashed t (zk_miner task) slashed) s3 else s3)
                   in Inr (zk_deposit_event (ProofVerified t verifier Failed) s4)))))"

definition claim_reward :: "'w zk_config \<Rightarrow> origin \<Rightarrow> nat \<Rightarrow> 'w zk_state \<Rightarrow> zk_error + 'w zk_state" where
  "claim_reward T orig t s =
     (case ensure_signed orig of None \<Rightarrow> Inl BadOrigin
      | Some who \<Rightarrow>
      (case Tasks s t of None \<Rightarrow> Inl TaskNotFound
       | Some task \<Rightarrow>
      if \<not> zk_miner task = who then Inl NotTaskMiner
      else if \<not> zk_status task = Verified then Inl TaskNotVerified
      else if reward_claimed task then Inl RewardAlreadyClaimed
      else (case calculate_reward task of Inl e \<Rightarrow> Inl e
      | Inr reward \<Rightarrow>
      (case transfer (zk_Currency T) (zk_account_id T) (zk_miner task) reward AllowDeath (zk_world s) of
        None \<Rightarrow> Inl BalanceTransferFailed
      | Some w \<Rightarrow>
      Inr (zk_deposit_event (RewardClaimed t who reward)
        (s\<lparr>zk_world := fst (unreserve (zk_Currency T) (zk_miner task) (submission_deposit task) w),
           Tasks := (Tasks s)(t \<mapsto> task\<lparr>reward_claimed := True\<rparr>)\<rparr>))))))"

definition submit_verification_unsigned ::
    "'w zk_config \<Rightarrow> origin \<Rightarrow> nat \<Rightarrow> bool \<Rightarrow> 'w zk_state \<Rightarrow> zk_error + 'w zk_state" where
  "submit_verification_unsigned T orig t verified s =
     (if \<not> ensure_none orig then Inl BadOrigin
      else (case Tasks s t of None \<Rightarrow> Inl TaskNotFound
      | Some task \<Rightarrow>
      if zk_status task \<noteq> Pending then Inl InvalidTaskStatus
      else
        let s1 = record_verdict t task verified s;
            s2 = (if verified
                  then increase_score T (zk_miner task)
                    (case try_push (MaxVerifiedTasks T) (VerifiedTasks s1) t of None \<Rightarrow> s1
                     | Some history \<Rightarrow> s1\<lparr>VerifiedTasks := history\<rparr>)
                  else
                    let s1' = decrease_score T (zk_miner task) s1
                    in (case repatriate_reserved (zk_Currency T) (zk_miner task) (zk_account_id T)
                            (submission_deposit task) (zk_world s1') of
                          None \<Rightarrow> s1'
                        | Some r \<Rightarrow> s1'\<lparr>zk_world := fst r\<rparr>))
        in Inr (zk_deposit_event (ProofVerifiedByOcw t verified) s2)))"

datatype zk_call =
    SubmitProof bytes "nat \<times> nat \<times> nat" nat nat
  | VerifyTask nat
  | ClaimReward nat
  | SubmitVerificationUnsigned nat bool

fun zk_dispatch ::
    "'w zk_config \<Rightarrow> block_number \<Rightarrow> origin \<Rightarrow> zk_call \<Rightarrow> 'w zk_state \<Rightarrow> zk_error + 'w zk_state" where
  "zk_dispatch T now orig (SubmitProof pr d m n) s = submit_proof T now orig pr d m n s"
| "zk_dispatch T now orig (VerifyTask t) s = verify_task T now orig t s"
| "zk_dispatch T now orig (ClaimReward t) s = claim_reward T orig t s"
| "zk_dispatch T now orig (SubmitVerificationUnsigned t b) s = submit_verification_unsigned T orig t b s"

section \<open>Unsigned transactions and the off-chain worker\<close>

datatype validity = Valid "string \<times> nat" | Invalid string

definition validate_unsigned :: "zk_call \<Rightarrow> 'w zk_state \<Rightarrow> validity" where
  "validate_unsigned c s =
     (case c of
        SubmitVerificationUnsigned t _ \<Rightarrow>
          (case Tasks s t of None \<Rightarrow> Invalid ''BadProof''
           | Some task \<Rightarrow>
               if zk_status task \<noteq> Pending then Invalid ''Stale'' else Valid (''zk-verify'', t))
      | _ \<Rightarrow> Invalid ''Call'')"

text \<open>The calls the worker hands to the transaction pool.\<close>

definition ocw_verify_pending_tasks :: "'w zk_config \<Rightarrow> 'w zk_state \<Rightarrow> zk_call list" where
  "ocw_verify_pending_tasks T s =
     concat (map (\<lambda>t. case Tasks s t of None \<Rightarrow> []
       | Some task \<Rightarrow>
           if zk_status task \<noteq> Pending then []
           else [SubmitVerificationUnsigned t (ZkVerifier T (zk_proof task) (zk_dims task))])
     (PendingTasks s))"

section \<open>The runtime's verifier\<close>

definition dims_bytes :: "nat \<times> nat \<times> nat \<Rightarrow> bytes" where
  "dims_bytes d = le_bytes 4 (fst d) @ le_bytes 4 (fst (snd d)) @ le_bytes 4 (snd (snd d))"

definition hash_commitment_verify :: "(bytes \<Rightarrow> bytes) \<Rightarrow> bytes \<Rightarrow> nat \<times> nat \<times> nat \<Rightarrow> bool" where
  "hash_commitment_verify blake2_256 pr d =
     (if length pr < 97 then False
      else if pr ! 0 \<noteq> 1 then False
      else if fst d = 0 \<or> fst (snd d) = 0 \<or> snd (snd d) = 0 then False
      else if fst d > 65536 \<or> fst (snd d) > 65536 \<or> snd (snd d) > 65536 then False
      else
        let binding_hash = take 32 (drop 65 pr);
            preimage = take 65 pr @ dims_bytes d
        in binding_hash = blake2_256 preimage)"

section \<open>Runs\<close>

definition zk_init :: "'w \<Rightarrow> 'w zk_state" where
  "zk_init w =
     \<lparr>NextTaskId = 0, Tasks = Map.empty, PendingTasks = [], VerifiedTasks = [], MinerScores = Map.empty,
      UsedNonces = (\<lambda>_ _. False), MinerPendingCount = (\<lambda>_. 0), zk_events = [], zk_world = w\<rparr>"

fun zk_run ::
    "'w zk_config \<Rightarrow> (block_number \<times> origin \<times> zk_call) list \<Rightarrow> 'w zk_state \<Rightarrow> zk_error + 'w zk_state" where
  "zk_run T [] s = Inr s"
| "zk_run T ((now, orig, c) # cs) s =
     (case zk_dispatch T now orig c s of Inl e \<Rightarrow> Inl e | Inr s' \<Rightarrow> zk_run T cs s')"

definition zk_runtime :: "'w currency_ops \<Rightarrow> (bytes \<Rightarrow> bytes) \<Rightarrow> account \<Rightarrow> 'w zk_config" where
  "zk_runtime C blake2_256 acc =
     \<lparr>zk_Currency = C, ZkVerifier = hash_commitment_verify blake2_256, MaxProofSize = 4096,
      MaxPendingTasks = 1000, MaxVerifiedTasks = 10000, MaxPendingPerMiner = 10,
      BaseReward = 100 * 10 ^ 15, SubmissionDeposit = 10 * 10 ^ 15, VerificationTimeout = 1200,
      InitialMinerScore = 50, MinMinerScoreToSubmit = 10, MaxMinerScore = 100, ScoreOnSuccess = 5,
      ScorePenaltyOnFailure = 10, zk_account_id = acc\<rparr>"

text \<open>A step: a successful call, or an outside change of the ledger that leaves reserves alone.\<close>

inductive zk_step :: "'w zk_config \<Rightarrow> 'w zk_state \<Rightarrow> 'w zk_state \<Rightarrow> bool" for T where
  call: "zk_dispatch T now orig c s = Inr s' \<Longrightarrow> zk_step T s s'"
| environment: "reserved_balance (zk_Currency T) w = reserved_balance (zk_Currency T) (zk_world s) \<Longrightarrow>
    zk_step T s (s\<lparr>zk_world := w\<rparr>)"

section \<open>Inversion and frames\<close>

lemma zk_event_frame [simp]:
  "NextTaskId (zk_deposit_event e s) = NextTaskId s" "Tasks (zk_deposit_event e s) = Tasks s"
  "PendingTasks (zk_deposit_event e s) = PendingTasks s" "VerifiedTasks (zk_deposit_event e s) = VerifiedTasks s"
  "MinerScores (zk_deposit_event e s) = MinerScores s" "UsedNonces (zk_deposit_event e s) = UsedNonces s"
  "MinerPendingCount (zk_deposit_event e s) = MinerPendingCount s" "zk_world (zk_deposit_event e s) = zk_world s"
  by (simp_all add: zk_deposit_event_def)

lemma score_frame [simp]:
  "NextTaskId (increase_score T a s) = NextTaskId s" "Tasks (increase_score T a s) = Tasks s"
  "PendingTasks (increase_score T a s) = PendingTasks s" "VerifiedTasks (increase_score T a s) = VerifiedTasks s"
  "UsedNonces (increase_score T a s) = UsedNonces s" "zk_world (increase_score T a s) = zk_world s"
  "MinerPendingCount (increase_score T a s) = MinerPendingCount s"
  "NextTaskId (decrease_score T a s) = NextTaskId s" "Tasks (decrease_score T a s) = Tasks s"
  "PendingTasks (decrease_score T a s) = PendingTasks s" "VerifiedTasks (decrease_score T a s) = VerifiedTasks s"
  "UsedNonces (decrease_score T a s) = UsedNonces s" "zk_world (decrease_score T a s) = zk_world s"
  "MinerPendingCount (decrease_score T a s) = MinerPendingCount s"
  by (simp_all add: increase_score_def decrease_score_def Let_def)

lemma verdict_frame [simp]:
  "NextTaskId (record_verdict t task b s) = NextTaskId s"
  "Tasks (record_verdict t task b s) = (Tasks s)(t \<mapsto> task\<lparr>zk_status := if b then Verified else Failed\<rparr>)"
  "VerifiedTasks (record_verdict t task b s) = VerifiedTasks s"
  "UsedNonces (record_verdict t task b s) = UsedNonces s" "zk_world (record_verdict t task b s) = zk_world s"
  "MinerPendingCount (record_verdict t task b s) =
     (MinerPendingCount s)(zk_miner task := MinerPendingCount s (zk_miner task) - 1)"
  "PendingTasks (record_verdict t task b s) =
     (case position t (PendingTasks s) of None \<Rightarrow> PendingTasks s | Some i \<Rightarrow> swap_remove (PendingTasks s) i)"
  by (simp_all add: record_verdict_def remove_from_pending_def Let_def saturating_sub_def split: option.splits)

lemma zk_submit_proof_Inr:
  assumes "submit_proof T now orig pr d m n s = Inr s'"
  obtains who w where "orig = Signed who" "valid_dimensions d" "120 \<le> m" "m \<le> 150" "\<not> UsedNonces s who n"
    "MinerPendingCount s who < MaxPendingPerMiner T" "length pr \<le> MaxProofSize T"
    "length (PendingTasks s) < MaxPendingTasks T"
    "reserve (zk_Currency T) who (SubmissionDeposit T) (zk_world s) = Some w"
    "s' = zk_deposit_event (ProofSubmitted (NextTaskId s) who n d)
        (s\<lparr>zk_world := w, PendingTasks := PendingTasks s @ [NextTaskId s],
           Tasks := (Tasks s)(NextTaskId s \<mapsto> new_zk_task T now (NextTaskId s) who pr d m),
           NextTaskId := Suc (NextTaskId s),
           UsedNonces := (UsedNonces s)(who := (UsedNonces s who)(n := True)),
           MinerPendingCount := (MinerPendingCount s)(who := saturating_add 32 (MinerPendingCount s who) 1)\<rparr>)"
  using assms
  by (auto simp: submit_proof_def Let_def checked_Some try_push_Some split: option.splits if_splits)

text \<open>
  Both ways of verifying end in the same shape: the task leaves the queue with the verdict, and a
  rejected task's deposit is taken, or, in the unsigned call only, left where it is when taking it fails.
\<close>

lemma verify_task_Inr:
  assumes "verify_task T now orig t s = Inr s'"
  obtains verifier task where "orig = Signed verifier" "Tasks s t = Some task" "zk_status task = Pending"
    "\<exists>v. (v \<longrightarrow> now \<le> zk_submitted_at task + VerificationTimeout T \<and> ZkVerifier T (zk_proof task) (zk_dims task)) \<and>
      NextTaskId s' = NextTaskId s \<and> UsedNonces s' = UsedNonces s \<and>
      Tasks s' = (Tasks s)(t \<mapsto> task\<lparr>zk_status := if v then Verified else Failed\<rparr>) \<and>
      PendingTasks s' = PendingTasks (record_verdict t task v s) \<and>
      MinerPendingCount s' = MinerPendingCount (record_verdict t task v s) \<and>
      (if v then zk_world s' = zk_world s
       else \<exists>r. repatriate_reserved (zk_Currency T) (zk_miner task) (zk_account_id T)
         (submission_deposit task) (zk_world s) = Some (zk_world s', r))"
proof -
  from assms obtain verifier task deadline where c: "orig = Signed verifier" "Tasks s t = Some task"
      "zk_status task = Pending" "checked_add 32 (zk_submitted_at task) (VerificationTimeout T) = Some deadline"
    by (auto simp: verify_task_def split: option.splits if_splits)
  show ?thesis
  proof (cases "\<not> now > deadline \<and> ZkVerifier T (zk_proof task) (zk_dims task)")
    case True
    with assms c obtain history where "s' = zk_deposit_event (ProofVerified t verifier Verified)
        (increase_score T (zk_miner task) ((record_verdict t task True s)\<lparr>VerifiedTasks := history\<rparr>))"
      by (auto simp: verify_task_def Let_def split: option.splits)
    then show ?thesis
      using True c(4) by (intro that [OF c(1-3)] exI [of _ True]) (simp add: checked_Some)
  next
    case False
    let ?s2 = "decrease_score T (zk_miner task) (record_verdict t task False s)"
    from assms c False obtain r where r: "repatriate_reserved (zk_Currency T) (zk_miner task) (zk_account_id T)
          (submission_deposit task) (zk_world ?s2) = Some r"
      and s': "s' = zk_deposit_event (ProofVerified t verifier Failed)
        (if saturating_sub (submission_deposit task) (snd r) \<noteq> 0
         then zk_deposit_event (DepositSlashed t (zk_miner task) (saturating_sub (submission_deposit task) (snd r)))
           (?s2\<lparr>zk_world := fst r\<rparr>) else ?s2\<lparr>zk_world := fst r\<rparr>)"
      by (cases "now > deadline") (simp_all add: verify_task_def Let_def split: option.splits)
    show ?thesis
      using r by (intro that [OF c(1-3)] exI [of _ False]) (cases r, simp add: s')
  qed
qed

lemma unsigned_Inr:
  assumes "submit_verification_unsigned T orig t v s = Inr s'"
  obtains task where "orig = Unsigned" "Tasks s t = Some task" "zk_status task = Pending"
    "NextTaskId s' = NextTaskId s" "UsedNonces s' = UsedNonces s"
    "Tasks s' = (Tasks s)(t \<mapsto> task\<lparr>zk_status := if v then Verified else Failed\<rparr>)"
    "PendingTasks s' = PendingTasks (record_verdict t task v s)"
    "MinerPendingCount s' = MinerPendingCount (record_verdict t task v s)"
    "zk_world s' = zk_world s \<or> \<not> v \<and> (\<exists>r. repatriate_reserved (zk_Currency T) (zk_miner task) (zk_account_id T)
         (submission_deposit task) (zk_world s) = Some (zk_world s', r))"
proof -
  from assms obtain task where c: "orig = Unsigned" "Tasks s t = Some task" "zk_status task = Pending"
    by (cases orig) (auto simp: submit_verification_unsigned_def ensure_none_def split: option.splits if_splits)
  show ?thesis
  proof (cases v)
    case True
    with assms c show ?thesis
      by (intro that [OF c])
        (auto simp: submit_verification_unsigned_def ensure_none_def Let_def split: option.splits)
  next
    case False
    let ?s2 = "decrease_score T (zk_miner task) (record_verdict t task False s)"
    from assms c False have s': "s' = zk_deposit_event (ProofVerifiedByOcw t False)
      (case repatriate_reserved (zk_Currency T) (zk_miner task) (zk_account_id T)
          (submission_deposit task) (zk_world ?s2) of None \<Rightarrow> ?s2 | Some r \<Rightarrow> ?s2\<lparr>zk_world := fst r\<rparr>)"
      by (auto simp: submit_verification_unsigned_def ensure_none_def Let_def)
    show ?thesis
      using False by (intro that [OF c]) (auto simp: s' split: option.splits)
  qed
qed

lemma zk_claim_reward_Inr:
  assumes "claim_reward T orig t s = Inr s'"
  obtains task reward w where "orig = Signed (zk_miner task)" "Tasks s t = Some task" "zk_status task = Verified"
    "\<not> reward_claimed task" "calculate_reward task = Inr reward"
    "transfer (zk_Currency T) (zk_account_id T) (zk_miner task) reward AllowDeath (zk_world s) = Some w"
    "s' = zk_deposit_event (RewardClaimed t (zk_miner task) reward)
        (s\<lparr>zk_world := fst (unreserve (zk_Currency T) (zk_miner task) (submission_deposit task) w),
           Tasks := (Tasks s)(t \<mapsto> task\<lparr>reward_claimed := True\<rparr>)\<rparr>)"
  using assms by (cases orig) (auto simp: claim_reward_def split: option.splits sum.splits if_splits)

section \<open>The invariant\<close>

definition pending_of :: "'w zk_state \<Rightarrow> account \<Rightarrow> nat set" where
  "pending_of s a = {t. \<exists>task. Tasks s t = Some task \<and> zk_status task = Pending \<and> zk_miner task = a}"

definition zk_task_ok :: "'w zk_config \<Rightarrow> zk_task \<Rightarrow> bool" where
  "zk_task_ok T task \<longleftrightarrow>
     valid_dimensions (zk_dims task) \<and> 120 \<le> multiplier_q100 task \<and> multiplier_q100 task \<le> 150 \<and>
     length (zk_proof task) \<le> MaxProofSize T \<and> base_reward task = BaseReward T \<and> (reward_claimed task \<longrightarrow> zk_status task = Verified)"

text \<open>
  The queue holds exactly the pending tasks, each once; a miner's counter is the number of the miner's
  pending tasks and within its limit.
\<close>

definition zk_inv :: "'w zk_config \<Rightarrow> 'w zk_state \<Rightarrow> bool" where
  "zk_inv T s \<longleftrightarrow>
     keys_below (Tasks s) (NextTaskId s) \<and> distinct (PendingTasks s) \<and>
     (\<forall>t. t \<in> set (PendingTasks s) \<longleftrightarrow> (\<exists>task. Tasks s t = Some task \<and> zk_status task = Pending)) \<and>
     (\<forall>a. MinerPendingCount s a = card (pending_of s a) \<and> MinerPendingCount s a \<le> MaxPendingPerMiner T) \<and>
     (\<forall>t task. Tasks s t = Some task \<longrightarrow> zk_task_ok T task)"

lemma zk_invD:
  assumes "zk_inv T s"
  shows "Tasks s t = Some task \<Longrightarrow> t < NextTaskId s" "distinct (PendingTasks s)"
    "t \<in> set (PendingTasks s) \<longleftrightarrow> (\<exists>task. Tasks s t = Some task \<and> zk_status task = Pending)"
    "MinerPendingCount s a = card (pending_of s a)" "MinerPendingCount s a \<le> MaxPendingPerMiner T"
    "Tasks s t = Some task \<Longrightarrow> zk_task_ok T task" "Tasks s (NextTaskId s) = None"
  using assms keys_below_fresh unfolding zk_inv_def keys_below_def by (blast | metis option.distinct(1))+

lemma pending_of_finite: "zk_inv T s \<Longrightarrow> finite (pending_of s a)"
  by (rule finite_subset [of _ "{..<NextTaskId s}"]) (auto simp: pending_of_def dest: zk_invD(1))

lemma verdict_inv:
  assumes inv: "zk_inv T s" and t: "Tasks s t = Some task" "zk_status task = Pending"
    and s': "NextTaskId s' = NextTaskId s"
      "Tasks s' = (Tasks s)(t \<mapsto> task\<lparr>zk_status := if v then Verified else Failed\<rparr>)"
      "PendingTasks s' = PendingTasks (record_verdict t task v s)"
      "MinerPendingCount s' = MinerPendingCount (record_verdict t task v s)"
  shows "zk_inv T s'"
proof -
  have tin: "t \<in> set (PendingTasks s)" using zk_invD(3) [OF inv] t by blast
  then obtain i where i: "position t (PendingTasks s) = Some i"
    using position_None [of t "PendingTasks s"] by (cases "position t (PendingTasks s)") auto
  have q: "distinct (PendingTasks s')" "set (PendingTasks s') = set (PendingTasks s) - {t}"
    using swap_remove_distinct [OF zk_invD(2) [OF inv], of i] position_Some [OF i] i by (simp_all add: s')
  have pend: "pending_of s' a = pending_of s a - (if a = zk_miner task then {t} else {})" for a
    using t by (auto simp: pending_of_def s')
  have mem: "t \<in> pending_of s (zk_miner task)" using t by (simp add: pending_of_def)
  have "MinerPendingCount s' a = card (pending_of s' a) \<and> MinerPendingCount s' a \<le> MaxPendingPerMiner T" for a
    using zk_invD(4,5) [OF inv, of a] mem pending_of_finite [OF inv]
    by (cases "a = zk_miner task") (simp_all add: pend s' card_Diff_singleton)
  moreover have "u \<in> set (PendingTasks s') \<longleftrightarrow> (\<exists>k. Tasks s' u = Some k \<and> zk_status k = Pending)" for u
    using zk_invD(3) [OF inv, of u] by (auto simp: q s'(2))
  moreover have "zk_task_ok T k" if "Tasks s' u = Some k" for u k
    using that zk_invD(6) [OF inv] t by (auto simp: s'(2) zk_task_ok_def split: if_splits)
  moreover have "keys_below (Tasks s') (NextTaskId s')"
    using inv zk_invD(1) [OF inv t(1)] unfolding s'(1,2) zk_inv_def by (simp add: keys_below_update)
  ultimately show ?thesis using q(1) unfolding zk_inv_def by blast
qed

lemma submit_proof_inv:
  assumes inv: "zk_inv T s" and call: "submit_proof T now orig pr d m n s = Inr s'"
    and mx: "MaxPendingPerMiner T < 2 ^ 32"
  shows "zk_inv T s'"
  using call
proof (rule zk_submit_proof_Inr)
  fix who w
  let ?t = "NextTaskId s" let ?k = "new_zk_task T now ?t who pr d m"
  assume c: "valid_dimensions d" "120 \<le> m" "m \<le> 150" "MinerPendingCount s who < MaxPendingPerMiner T"
      "length pr \<le> MaxProofSize T"
    and s': "s' = zk_deposit_event (ProofSubmitted ?t who n d)
        (s\<lparr>zk_world := w, PendingTasks := PendingTasks s @ [?t], Tasks := (Tasks s)(?t \<mapsto> ?k),
           NextTaskId := Suc ?t, UsedNonces := (UsedNonces s)(who := (UsedNonces s who)(n := True)),
           MinerPendingCount := (MinerPendingCount s)(who := saturating_add 32 (MinerPendingCount s who) 1)\<rparr>)"
  note fresh = zk_invD(7) [OF inv]
  have k: "zk_status ?k = Pending" "zk_miner ?k = who" "zk_task_ok T ?k"
    using c by (simp_all add: new_zk_task_def zk_task_ok_def)
  have pend: "pending_of s' a = (if a = who then insert ?t (pending_of s a) else pending_of s a)" for a
    using fresh k by (auto simp: pending_of_def s')
  have "?t \<notin> pending_of s a" for a using fresh by (simp add: pending_of_def)
  moreover have "saturating_add 32 (MinerPendingCount s who) 1 = MinerPendingCount s who + 1"
    using c(4) mx by (intro saturating_add_exact) simp
  ultimately have "MinerPendingCount s' a = card (pending_of s' a) \<and> MinerPendingCount s' a \<le> MaxPendingPerMiner T" for a
    using zk_invD(4,5) [OF inv, of a] c(4) pending_of_finite [OF inv, of a]
    by (cases "a = who") (simp_all add: pend, simp_all add: s')
  moreover have "distinct (PendingTasks s')" "keys_below (Tasks s') (NextTaskId s')"
    using zk_invD(2,3) [OF inv] fresh inv by (auto simp: s' zk_inv_def keys_below_new)
  moreover have "u \<in> set (PendingTasks s') \<longleftrightarrow> (\<exists>k. Tasks s' u = Some k \<and> zk_status k = Pending)" for u
    using zk_invD(3) [OF inv, of u] fresh k by (auto simp: s')
  moreover have "zk_task_ok T k" if "Tasks s' u = Some k" for u k
    using that zk_invD(6) [OF inv] k(3) by (auto simp: s' split: if_splits)
  ultimately show ?thesis unfolding zk_inv_def by blast
qed

lemma zk_dispatch_inv:
  assumes inv: "zk_inv T s" and call: "zk_dispatch T now orig c s = Inr s'" and mx: "MaxPendingPerMiner T < 2 ^ 32"
  shows "zk_inv T s'"
proof (cases c)
  case (SubmitProof pr d m n)
  with call show ?thesis by (auto intro: submit_proof_inv [OF inv _ mx])
next
  case (VerifyTask t)
  with call have "verify_task T now orig t s = Inr s'" by simp
  then show ?thesis by (rule verify_task_Inr) (auto intro: verdict_inv [OF inv])
next
  case (ClaimReward t)
  with call have "claim_reward T orig t s = Inr s'" by simp
  then show ?thesis
  proof (rule zk_claim_reward_Inr)
    fix task reward w
    assume t: "Tasks s t = Some task" "zk_status task = Verified"
      and s': "s' = zk_deposit_event (RewardClaimed t (zk_miner task) reward)
        (s\<lparr>zk_world := fst (unreserve (zk_Currency T) (zk_miner task) (submission_deposit task) w),
           Tasks := (Tasks s)(t \<mapsto> task\<lparr>reward_claimed := True\<rparr>)\<rparr>)"
    have "pending_of s' a = pending_of s a" for a using t by (auto simp: pending_of_def s')
    moreover have "u \<in> set (PendingTasks s') \<longleftrightarrow> (\<exists>k. Tasks s' u = Some k \<and> zk_status k = Pending)" for u
      using zk_invD(3) [OF inv, of u] t by (auto simp: s')
    moreover have "zk_task_ok T k" if "Tasks s' u = Some k" for u k
      using that zk_invD(6) [OF inv] t by (auto simp: s' zk_task_ok_def split: if_splits)
    moreover have "keys_below (Tasks s') (NextTaskId s')"
      using inv zk_invD(1) [OF inv t(1)] by (simp add: s' zk_inv_def keys_below_update)
    moreover have "MinerPendingCount s' = MinerPendingCount s" "distinct (PendingTasks s')"
      using zk_invD(2) [OF inv] by (simp_all add: s')
    ultimately show ?thesis using zk_invD(4,5) [OF inv] unfolding zk_inv_def by metis
  qed
next
  case (SubmitVerificationUnsigned t v)
  with call have "submit_verification_unsigned T orig t v s = Inr s'" by simp
  then show ?thesis by (rule unsigned_Inr) (rule verdict_inv [OF inv])
qed

lemma zk_step_inv:
  assumes "zk_step T s s'" "zk_inv T s" "MaxPendingPerMiner T < 2 ^ 32"
  shows "zk_inv T s'"
  using assms
proof (induction rule: zk_step.induct)
  case (call now orig c s s')
  then show ?case by (auto intro: zk_dispatch_inv)
next
  case (environment w s)
  have "zk_inv T (s\<lparr>zk_world := w\<rparr>) \<longleftrightarrow> zk_inv T s" by (simp add: zk_inv_def pending_of_def)
  with environment show ?case by simp
qed

section \<open>Deposits\<close>

definition zk_owed :: "zk_task \<Rightarrow> account \<Rightarrow> nat" where
  "zk_owed task a =
     (if zk_miner task = a \<and> (zk_status task = Pending \<or> zk_status task = Verified \<and> \<not> reward_claimed task)
      then submission_deposit task else 0)"

definition zk_locked :: "'w zk_state \<Rightarrow> account \<Rightarrow> nat" where
  "zk_locked s = owed_total zk_owed (Tasks s) (NextTaskId s)"

abbreviation zk_reserved :: "'w zk_config \<Rightarrow> 'w zk_state \<Rightarrow> account \<Rightarrow> nat" where
  "zk_reserved T s \<equiv> reserved_balance (zk_Currency T) (zk_world s)"

abbreviation zk_free :: "'w zk_config \<Rightarrow> 'w zk_state \<Rightarrow> account \<Rightarrow> nat" where
  "zk_free T s \<equiv> free_balance (zk_Currency T) (zk_world s)"

text \<open>A verdict, with the deposit taken, or with the reserve left as it is.\<close>

lemma verdict_covers:
  assumes C: "reservable_currency (zk_Currency T)" and inv: "zk_inv T s"
    and b: "\<And>a. zk_locked s a \<le> zk_reserved T s a"
    and t: "Tasks s t = Some task" "zk_status task = Pending"
    and s': "NextTaskId s' = NextTaskId s"
      "Tasks s' = (Tasks s)(t \<mapsto> task\<lparr>zk_status := if v then Verified else Failed\<rparr>)"
    and w: "zk_world s' = zk_world s \<or> \<not> v \<and> (\<exists>r. repatriate_reserved (zk_Currency T) (zk_miner task)
        (zk_account_id T) (submission_deposit task) (zk_world s) = Some (zk_world s', r))"
  shows "zk_reserved T s a + zk_locked s' a \<le> zk_reserved T s' a + zk_locked s a"
proof -
  let ?k = "task\<lparr>zk_status := if v then Verified else Failed\<rparr>"
  have tn: "t < NextTaskId s" by (rule zk_invD(1) [OF inv t(1)])
  have unclaimed: "\<not> reward_claimed task" using zk_invD(6) [OF inv t(1)] t(2) by (auto simp: zk_task_ok_def)
  have upd: "zk_locked s' a + zk_owed task a = zk_locked s a + zk_owed ?k a"
    unfolding zk_locked_def s' by (rule owed_total_update [where m = "Tasks s" and i = t, OF tn t(1)])
  have le: "zk_owed task a \<le> zk_locked s a"
    unfolding zk_locked_def by (rule owed_total_item_le [where m = "Tasks s" and i = t, OF tn t(1)])
  have owed: "zk_owed ?k a = (if v then zk_owed task a else 0)"
    using t(2) unclaimed by (simp add: zk_owed_def)
  show ?thesis
  proof (cases "zk_world s' = zk_world s")
    case True
    with upd owed show ?thesis by (auto split: if_splits)
  next
    case False
    with w obtain r where v: "\<not> v" and r: "repatriate_reserved (zk_Currency T) (zk_miner task) (zk_account_id T)
        (submission_deposit task) (zk_world s) = Some (zk_world s', r)" by blast
    have "zk_reserved T s' a = zk_reserved T s a - zk_owed task a"
      using reservable_currency.repatriate_reserved_reserved [OF C r, of a] t(2) by (auto simp: zk_owed_def)
    with upd owed v le b [of a] show ?thesis by simp
  qed
qed

lemma zk_dispatch_covers:
  assumes C: "reservable_currency (zk_Currency T)" and inv: "zk_inv T s"
    and b: "\<And>a. zk_locked s a \<le> zk_reserved T s a"
    and call: "zk_dispatch T now orig c s = Inr s'"
  shows "zk_reserved T s a + zk_locked s' a \<le> zk_reserved T s' a + zk_locked s a"
proof (cases c)
  case (SubmitProof pr d m n)
  with call have "submit_proof T now orig pr d m n s = Inr s'" by simp
  then show ?thesis
  proof (rule zk_submit_proof_Inr)
    fix who w
    assume w: "reserve (zk_Currency T) who (SubmissionDeposit T) (zk_world s) = Some w"
      and s': "s' = zk_deposit_event (ProofSubmitted (NextTaskId s) who n d)
        (s\<lparr>zk_world := w, PendingTasks := PendingTasks s @ [NextTaskId s],
           Tasks := (Tasks s)(NextTaskId s \<mapsto> new_zk_task T now (NextTaskId s) who pr d m),
           NextTaskId := Suc (NextTaskId s),
           UsedNonces := (UsedNonces s)(who := (UsedNonces s who)(n := True)),
           MinerPendingCount := (MinerPendingCount s)(who := saturating_add 32 (MinerPendingCount s who) 1)\<rparr>)"
    show ?thesis
      using reservable_currency.reserve_reserved [OF C w, of a]
      by (simp add: zk_locked_def s' owed_total_new zk_owed_def new_zk_task_def)
  qed
next
  case (VerifyTask t)
  with call have "verify_task T now orig t s = Inr s'" by simp
  then show ?thesis
    by (rule verify_task_Inr) (elim exE conjE, rule verdict_covers [OF C inv b], auto split: if_splits)
next
  case (ClaimReward t)
  with call have "claim_reward T orig t s = Inr s'" by simp
  then show ?thesis
  proof (rule zk_claim_reward_Inr)
    fix task reward w
    assume t: "Tasks s t = Some task" "zk_status task = Verified" "\<not> reward_claimed task"
      and w: "transfer (zk_Currency T) (zk_account_id T) (zk_miner task) reward AllowDeath (zk_world s) = Some w"
      and s': "s' = zk_deposit_event (RewardClaimed t (zk_miner task) reward)
        (s\<lparr>zk_world := fst (unreserve (zk_Currency T) (zk_miner task) (submission_deposit task) w),
           Tasks := (Tasks s)(t \<mapsto> task\<lparr>reward_claimed := True\<rparr>)\<rparr>)"
    have tn: "t < NextTaskId s" by (rule zk_invD(1) [OF inv t(1)])
    have "zk_locked s' a + zk_owed task a = zk_locked s a + zk_owed (task\<lparr>reward_claimed := True\<rparr>) a"
      unfolding zk_locked_def s' using owed_total_update [where m = "Tasks s" and i = t, OF tn t(1)] by simp
    moreover have "zk_owed (task\<lparr>reward_claimed := True\<rparr>) a = 0" using t by (simp add: zk_owed_def)
    moreover have "zk_owed task a \<le> zk_locked s a"
      unfolding zk_locked_def by (rule owed_total_item_le [where m = "Tasks s" and i = t, OF tn t(1)])
    moreover have "zk_reserved T s' a = zk_reserved T s a - zk_owed task a"
      using reservable_currency.unreserve_reserved [OF C, of "zk_miner task" "submission_deposit task" w a]
        reservable_currency.transfer_reserved [OF C w] t by (auto simp: s' zk_owed_def)
    ultimately show ?thesis using b [of a] by simp
  qed
next
  case (SubmitVerificationUnsigned t v)
  with call have "submit_verification_unsigned T orig t v s = Inr s'" by simp
  then show ?thesis by (rule unsigned_Inr) (rule verdict_covers [OF C inv b])
qed

definition zk_ok :: "'w zk_config \<Rightarrow> bool" where
  "zk_ok T \<longleftrightarrow>
     reservable_currency (zk_Currency T) \<and> MaxPendingPerMiner T < 2 ^ 32 \<and> BaseReward T < 2 ^ 128"

interpretation zke: backed_pallet "zk_step T" "\<lambda>s. zk_ok T \<and> zk_inv T s" zk_locked "zk_reserved T"
proof unfold_locales
  fix s s' a
  assume st: "zk_step T s s'" and i: "zk_ok T \<and> zk_inv T s" and b: "backed zk_locked (zk_reserved T) s"
  then show "zk_ok T \<and> zk_inv T s'" by (auto simp: zk_ok_def intro: zk_step_inv)
  from st i b show "zk_reserved T s a + zk_locked s' a \<le> zk_reserved T s' a + zk_locked s a"
  proof (induction rule: zk_step.induct)
    case (call now orig c s s')
    then show ?case by (intro zk_dispatch_covers) (auto simp: zk_ok_def backed_def)
  next
    case (environment w s)
    then show ?case by (simp add: zk_locked_def)
  qed
qed

lemma zk_init_inv: "zk_inv T (zk_init w)"
  by (simp add: zk_inv_def zk_init_def keys_below_def pending_of_def)

lemma zk_reachable:
  assumes "zk_ok T" "(zk_step T)\<^sup>*\<^sup>* (zk_init w) s"
  shows "zk_inv T s" "zk_locked s a \<le> zk_reserved T s a"
proof -
  have "backed zk_locked (zk_reserved T) (zk_init w)" by (simp add: backed_def zk_locked_def zk_init_def)
  with zke.run_backed [OF assms(2)] assms(1) zk_init_inv [of T w]
  show "zk_inv T s" "zk_locked s a \<le> zk_reserved T s a" by (auto simp: backed_def)
qed

section \<open>The life of a task\<close>

definition zk_follows :: "zk_task \<Rightarrow> zk_task \<Rightarrow> bool" where
  "zk_follows k k' \<longleftrightarrow>
     zk_miner k' = zk_miner k \<and> zk_proof k' = zk_proof k \<and> zk_dims k' = zk_dims k \<and>
     (zk_status k \<noteq> Pending \<longrightarrow> zk_status k' = zk_status k) \<and> (reward_claimed k \<longrightarrow> reward_claimed k')"

lemma zk_step_follows:
  assumes "zk_step T s s'" "zk_inv T s" "Tasks s t = Some k"
  shows "\<exists>k'. Tasks s' t = Some k' \<and> zk_follows k k'"
  using assms
proof (induction rule: zk_step.induct)
  case (call now orig c s s')
  note tn = zk_invD(1) [OF call.prems]
  show ?case
  proof (cases c)
    case (SubmitProof pr d m n)
    with call have "submit_proof T now orig pr d m n s = Inr s'" by simp
    then show ?thesis using call.prems tn by (elim zk_submit_proof_Inr) (auto simp: zk_follows_def)
  next
    case (VerifyTask u)
    with call have "verify_task T now orig u s = Inr s'" by simp
    then show ?thesis using call.prems by (elim verify_task_Inr) (auto simp: zk_follows_def)
  next
    case (ClaimReward u)
    with call have "claim_reward T orig u s = Inr s'" by simp
    then show ?thesis using call.prems by (elim zk_claim_reward_Inr) (auto simp: zk_follows_def)
  next
    case (SubmitVerificationUnsigned u v)
    with call have "submit_verification_unsigned T orig u v s = Inr s'" by simp
    then show ?thesis using call.prems by (elim unsigned_Inr) (auto simp: zk_follows_def)
  qed
next
  case (environment w s)
  then show ?case by (simp add: zk_follows_def)
qed

lemma zk_run_claimed:
  assumes "(zk_step T)\<^sup>*\<^sup>* s s'" "zk_ok T" "zk_inv T s" "Tasks s t = Some k" "reward_claimed k"
  shows "\<exists>k'. Tasks s' t = Some k' \<and> reward_claimed k'"
proof -
  from assms(1) have "zk_inv T s' \<and> (\<exists>k'. Tasks s' t = Some k' \<and> reward_claimed k')"
  proof (induction rule: rtranclp_induct)
    case (step s1 s2)
    then obtain k1 where k1: "zk_inv T s1" "Tasks s1 t = Some k1" "reward_claimed k1" by blast
    with zk_step_follows [OF step.hyps(2) k1(1,2)] zk_step_inv [OF step.hyps(2) k1(1)] assms(2) show ?case
      by (auto simp: zk_ok_def zk_follows_def)
  qed (use assms in simp)
  then show ?thesis ..
qed

section \<open>The verifier and the reward\<close>

lemma volume_eq:
  assumes "m < 2 ^ 32" "n < 2 ^ 32" "k < 2 ^ 32"
  shows "volume (m, n, k) = Some (m * n * k)"
proof -
  have "m * n < 2 ^ 32 * 2 ^ 32" using assms by (intro mult_strict_mono) auto
  then have mn: "m * n < 2 ^ 64" by simp
  then have "m * n * k < 2 ^ 64 * 2 ^ 32" using assms by (intro mult_strict_mono) auto
  then show ?thesis using mn by (simp add: volume_def checked_mul_def)
qed

definition well_sized :: "nat \<times> nat \<times> nat \<Rightarrow> bool" where
  "well_sized d \<longleftrightarrow> fst d < 2 ^ 32 \<and> fst (snd d) < 2 ^ 32 \<and> snd (snd d) < 2 ^ 32"

definition cells :: "nat \<times> nat \<times> nat \<Rightarrow> nat" where
  "cells d = fst d * fst (snd d) * snd (snd d)"

lemma calculate_reward_eq:
  assumes "well_sized (zk_dims task)" "base_reward task < 2 ^ 128"
  shows "calculate_reward task =
    (if base_reward task * cells (zk_dims task) < 2 ^ 128 \<and>
        base_reward task * cells (zk_dims task) * multiplier_q100 task < 2 ^ 128
     then Inr (base_reward task * cells (zk_dims task) * multiplier_q100 task div 100000000)
     else Inl ArithmeticOverflow)"
proof -
  obtain m n k where d: "zk_dims task = (m, n, k)" by (metis prod.exhaust)
  have "volume (zk_dims task) = Some (cells (zk_dims task))"
    using assms(1) volume_eq [of m n k] by (simp add: d well_sized_def cells_def)
  moreover have "x div 100000000 \<le> 2 ^ 128 - 1" if "x < 2 ^ 128" for x :: nat
    using that div_le_dividend [of x 100000000] by simp
  ultimately show ?thesis
    using assms(2) by (auto simp: calculate_reward_def checked_mul_def checked_div_def saturated_into_def min_def)
qed

text \<open>A proof of the documented layout.\<close>

definition make_proof :: "(bytes \<Rightarrow> bytes) \<Rightarrow> bytes \<Rightarrow> bytes \<Rightarrow> nat \<times> nat \<times> nat \<Rightarrow> bytes" where
  "make_proof blake2_256 commitment nonce d =
     (1 # commitment @ nonce) @ blake2_256 ((1 # commitment @ nonce) @ dims_bytes d)"

lemma dims_bytes_inj:
  assumes "well_sized d" "well_sized d'" "dims_bytes d = dims_bytes d'"
  shows "d = d'"
proof -
  have "le_bytes 4 (fst d) = le_bytes 4 (fst d')" "le_bytes 4 (fst (snd d)) = le_bytes 4 (fst (snd d'))"
    "le_bytes 4 (snd (snd d)) = le_bytes 4 (snd (snd d'))"
    using assms(3) by (simp_all add: dims_bytes_def)
  with assms(1,2) show ?thesis
    by (auto simp: well_sized_def prod_eq_iff le_bytes_eq)
qed

lemma make_proof_verifies:
  assumes "length c = 32" "length n = 32" "\<And>x. length (blake2_256 x) = 32"
    "0 < fst d" "0 < fst (snd d)" "0 < snd (snd d)"
    "fst d \<le> 65536" "fst (snd d) \<le> 65536" "snd (snd d) \<le> 65536"
  shows "hash_commitment_verify blake2_256 (make_proof blake2_256 c n d) d"
proof -
  let ?h = "1 # c @ n"
  have len: "length ?h = 65" using assms(1,2) by simp
  have "take 65 (?h @ bs) = ?h" "drop 65 (?h @ bs) = bs" for bs
    using len by (metis append_eq_conv_conj)+
  then show ?thesis
    using assms unfolding hash_commitment_verify_def make_proof_def Let_def
    by (simp del: append_Cons add: len) simp
qed

lemma verify_same_proof:
  assumes "hash_commitment_verify blake2_256 p d" "hash_commitment_verify blake2_256 p d'" "d \<noteq> d'"
  shows "\<exists>x y. x \<noteq> y \<and> blake2_256 x = blake2_256 y"
proof -
  have ws: "well_sized d" "well_sized d'"
    using assms(1,2) by (auto simp: hash_commitment_verify_def well_sized_def split: if_splits)
  then have "take 65 p @ dims_bytes d \<noteq> take 65 p @ dims_bytes d'"
    using dims_bytes_inj [of d d'] assms(3) by auto
  moreover have "blake2_256 (take 65 p @ dims_bytes d) = blake2_256 (take 65 p @ dims_bytes d')"
    using assms(1,2) by (auto simp: hash_commitment_verify_def Let_def split: if_splits)
  ultimately show ?thesis by blast
qed

text \<open>The worker proposes one verdict, the verifier's, for every waiting task, and the pool accepts it.\<close>

lemma ocw_calls:
  assumes "zk_inv T s"
  shows "c \<in> set (ocw_verify_pending_tasks T s) \<longleftrightarrow>
    (\<exists>t task. Tasks s t = Some task \<and> zk_status task = Pending \<and>
       c = SubmitVerificationUnsigned t (ZkVerifier T (zk_proof task) (zk_dims task)) \<and>
       validate_unsigned c s = Valid (''zk-verify'', t))"
proof
  assume "c \<in> set (ocw_verify_pending_tasks T s)"
  then show "\<exists>t task. Tasks s t = Some task \<and> zk_status task = Pending \<and>
       c = SubmitVerificationUnsigned t (ZkVerifier T (zk_proof task) (zk_dims task)) \<and>
       validate_unsigned c s = Valid (''zk-verify'', t)"
    by (auto simp: ocw_verify_pending_tasks_def validate_unsigned_def split: option.splits if_splits) metis
next
  assume "\<exists>t task. Tasks s t = Some task \<and> zk_status task = Pending \<and>
       c = SubmitVerificationUnsigned t (ZkVerifier T (zk_proof task) (zk_dims task)) \<and>
       validate_unsigned c s = Valid (''zk-verify'', t)"
  then obtain t task where t: "Tasks s t = Some task" "zk_status task = Pending"
    "c = SubmitVerificationUnsigned t (ZkVerifier T (zk_proof task) (zk_dims task))" by blast
  then have "t \<in> set (PendingTasks s)" using zk_invD(3) [OF assms, of t] by blast
  with t show "c \<in> set (ocw_verify_pending_tasks T s)"
    unfolding ocw_verify_pending_tasks_def set_concat set_map by (intro UnionI [OF imageI]) auto
qed

section \<open>A run\<close>

definition zk_demo_hash :: "bytes \<Rightarrow> bytes" where
  "zk_demo_hash x = replicate 32 (sum_list x)"

definition zk_demo_proof :: bytes where
  "zk_demo_proof = make_proof zk_demo_hash (replicate 32 7) (replicate 32 9) (64, 64, 64)"

definition zk_demo :: "ledger zk_config" where
  "zk_demo = zk_runtime ledger_ops zk_demo_hash 9"

definition zk_demo_world :: ledger where
  "zk_demo_world = \<lparr>ledger_free = (\<lambda>_. 0)(5 := 10 ^ 18, 6 := 10 ^ 18, 9 := 10 ^ 18), ledger_reserved = (\<lambda>_. 0)\<rparr>"

definition zk_demo_calls :: "(block_number \<times> origin \<times> zk_call) list" where
  "zk_demo_calls =
     [(10, Signed 5, SubmitProof zk_demo_proof (64, 64, 64) 150 3),
      (10, Signed 6, SubmitProof [] (64, 64, 64) 120 3),
      (11, Signed 7, VerifyTask 0)]"

definition zk_demo_state :: "ledger zk_state" where
  "zk_demo_state = projr (zk_run zk_demo zk_demo_calls (zk_init zk_demo_world))"

lemma zk_demo_proof_simps [simp]:
  "length zk_demo_proof = 97" "hash_commitment_verify zk_demo_hash zk_demo_proof (64, 64, 64)"
  unfolding zk_demo_proof_def
  by (simp add: make_proof_def zk_demo_hash_def)
    (rule make_proof_verifies, simp_all add: zk_demo_hash_def)

lemma zk_runtime_sel:
  "zk_Currency (zk_runtime C b p) = C" "ZkVerifier (zk_runtime C b p) = hash_commitment_verify b"
  "MaxProofSize (zk_runtime C b p) = 4096" "MaxPendingTasks (zk_runtime C b p) = 1000"
  "MaxVerifiedTasks (zk_runtime C b p) = 10000" "MaxPendingPerMiner (zk_runtime C b p) = 10"
  "BaseReward (zk_runtime C b p) = 100 * 10 ^ 15" "SubmissionDeposit (zk_runtime C b p) = 10 * 10 ^ 15"
  "VerificationTimeout (zk_runtime C b p) = 1200" "InitialMinerScore (zk_runtime C b p) = 50"
  "MinMinerScoreToSubmit (zk_runtime C b p) = 10" "MaxMinerScore (zk_runtime C b p) = 100"
  "ScoreOnSuccess (zk_runtime C b p) = 5" "ScorePenaltyOnFailure (zk_runtime C b p) = 10"
  "zk_account_id (zk_runtime C b p) = p"
  by (simp_all add: zk_runtime_def)

lemmas zk_eval = submit_proof_def verify_task_def claim_reward_def submit_verification_unsigned_def
  record_verdict_def remove_from_pending_def increase_score_def decrease_score_def current_miner_score_def
  new_zk_task_def valid_dimensions_def volume_def calculate_reward_def zk_deposit_event_def zk_init_def
  zk_demo_def zk_runtime_sel zk_demo_world_def zk_demo_calls_def ledger_defs int_ops try_push_def
  swap_remove_def ensure_none_def Let_def

lemma zk_demo_run: "zk_run zk_demo zk_demo_calls (zk_init zk_demo_world) = Inr zk_demo_state"
  by (simp add: zk_demo_state_def zk_eval cong: let_weak_cong)

lemma zk_run_steps: "zk_run T cs s = Inr s' \<Longrightarrow> (zk_step T)\<^sup>*\<^sup>* s s'"
proof (induction T cs s rule: zk_run.induct)
  case (2 T now orig c cs s)
  then show ?case
    by (auto split: sum.splits intro: converse_rtranclp_into_rtranclp zk_step.call)
qed simp

lemma zk_demo_steps: "(zk_step zk_demo)\<^sup>*\<^sup>* (zk_init zk_demo_world) zk_demo_state"
  by (rule zk_run_steps [OF zk_demo_run])

lemma zk_demo_ok: "zk_ok zk_demo"
  using ledger.reservable_currency_axioms by (simp add: zk_ok_def zk_demo_def zk_runtime_sel)

section \<open>Properties\<close>

text \<open>
  C20: In every state a run can reach, the queue of pending tasks holds exactly the tasks that wait for a
verdict, each once; the counter of each miner is the number of the miner's waiting tasks and within the
limit; and the reserve of each miner covers the deposits of all its tasks that are waiting, or verified
and not yet rewarded.\<close>

theorem zk_queue_and_deposits:
  assumes "zk_ok T" "(zk_step T)\<^sup>*\<^sup>* (zk_init w) s"
  shows "distinct (PendingTasks s) \<and>
    set (PendingTasks s) = {t. \<exists>task. Tasks s t = Some task \<and> zk_status task = Pending} \<and>
    MinerPendingCount s a = card (pending_of s a) \<and> MinerPendingCount s a \<le> MaxPendingPerMiner T \<and>
    zk_locked s a \<le> zk_reserved T s a"
  using zk_invD(2-5) [OF zk_reachable(1) [OF assms]] zk_reachable(2) [OF assms] by auto

theorem zk_queue_and_deposits_witness:
  "set (PendingTasks zk_demo_state) = {t. \<exists>task. Tasks zk_demo_state t = Some task \<and> zk_status task = Pending} \<and>
   PendingTasks zk_demo_state = [1]"
proof -
  have "PendingTasks zk_demo_state = [1]"
    by (simp add: zk_demo_state_def zk_eval cong: let_weak_cong)
  with zk_queue_and_deposits [OF zk_demo_ok zk_demo_steps] show ?thesis by blast
qed

text \<open>
  C28: A claim succeeds only for the miner of a verified task; it moves exactly the product of base reward,
matrix volume and multiplier, scaled down, from the pallet's account to the miner and returns exactly the
deposit; and no later state of any run allows a second claim of the task.\<close>

theorem zk_claim_pays_once:
  assumes ok: "zk_ok T" "(zk_step T)\<^sup>*\<^sup>* (zk_init w) s"
    and call: "claim_reward T orig t s = Inr s'"
    and ws: "\<And>task. Tasks s t = Some task \<Longrightarrow> well_sized (zk_dims task)"
  shows "(\<exists>task reward f. Tasks s t = Some task \<and> orig = Signed (zk_miner task) \<and> zk_status task = Verified \<and>
      reward = BaseReward T * cells (zk_dims task) * multiplier_q100 task div 100000000 \<and>
      f = (zk_free T s)(zk_account_id T := zk_free T s (zk_account_id T) - reward) \<and>
      reward \<le> zk_free T s (zk_account_id T) \<and>
      zk_free T s' = (let g = f(zk_miner task := f (zk_miner task) + reward)
        in g(zk_miner task := g (zk_miner task) + submission_deposit task)) \<and>
      zk_reserved T s' = (zk_reserved T s)(zk_miner task := zk_reserved T s (zk_miner task) - submission_deposit task)) \<and>
    (\<forall>s2 orig'. (zk_step T)\<^sup>*\<^sup>* s' s2 \<longrightarrow> (\<nexists>s3. claim_reward T orig' t s2 = Inr s3))"
  using call
proof (rule zk_claim_reward_Inr)
  fix task reward w1
  assume t: "orig = Signed (zk_miner task)" "Tasks s t = Some task" "zk_status task = Verified"
      "\<not> reward_claimed task" "calculate_reward task = Inr reward"
    and w1: "transfer (zk_Currency T) (zk_account_id T) (zk_miner task) reward AllowDeath (zk_world s) = Some w1"
    and s': "s' = zk_deposit_event (RewardClaimed t (zk_miner task) reward)
        (s\<lparr>zk_world := fst (unreserve (zk_Currency T) (zk_miner task) (submission_deposit task) w1),
           Tasks := (Tasks s)(t \<mapsto> task\<lparr>reward_claimed := True\<rparr>)\<rparr>)"
  have C: "reservable_currency (zk_Currency T)" using ok(1) by (simp add: zk_ok_def)
  note inv = zk_reachable(1) [OF ok]
  have base: "base_reward task = BaseReward T" using zk_invD(6) [OF inv t(2)] by (simp add: zk_task_ok_def)
  then have rew: "reward = BaseReward T * cells (zk_dims task) * multiplier_q100 task div 100000000"
    using calculate_reward_eq [OF ws [OF t(2)]] t(5) ok(1) by (auto simp: zk_ok_def split: if_splits)
  have "zk_owed task (zk_miner task) \<le> zk_locked s (zk_miner task)" unfolding zk_locked_def
    by (rule owed_total_item_le [where m = "Tasks s" and i = t, OF zk_invD(1) [OF inv t(2)] t(2)])
  with zk_reachable(2) [OF ok, of "zk_miner task"]
  have dep: "submission_deposit task \<le> zk_reserved T s (zk_miner task)" using t by (simp add: zk_owed_def)
  note tr = reservable_currency.transfer_law [OF C w1]
  have "zk_reserved T s' = (zk_reserved T s)(zk_miner task := zk_reserved T s (zk_miner task) - submission_deposit task)"
    by (rule ext) (use tr in \<open>simp add: s' reservable_currency.unreserve_reserved [OF C]\<close>)
  moreover have "zk_free T s' = (let f = (zk_free T s)(zk_account_id T := zk_free T s (zk_account_id T) - reward);
        g = f(zk_miner task := f (zk_miner task) + reward)
        in g(zk_miner task := g (zk_miner task) + submission_deposit task))"
    by (rule ext) (use tr dep in \<open>auto simp: s' Let_def reservable_currency.unreserve_free [OF C]\<close>)
  moreover have inv': "zk_inv T s'"
    by (rule zk_dispatch_inv [OF inv, where c = "ClaimReward t"]) (use call ok(1) in \<open>auto simp: zk_ok_def\<close>)
  have "\<nexists>s3. claim_reward T orig' t s2 = Inr s3" if run: "(zk_step T)\<^sup>*\<^sup>* s' s2" for s2 orig'
  proof -
    have "Tasks s' t = Some (task\<lparr>reward_claimed := True\<rparr>)" by (simp add: s')
    from zk_run_claimed [OF run ok(1) inv' this] obtain k where "Tasks s2 t = Some k" "reward_claimed k" by auto
    then show ?thesis by (auto elim!: zk_claim_reward_Inr)
  qed
  ultimately show ?thesis using t tr rew by (auto simp: Let_def)
qed

theorem zk_claim_pays_once_witness:
  "\<exists>s'. claim_reward zk_demo (Signed 5) 0 zk_demo_state = Inr s' \<and> zk_reserved zk_demo s' 5 = 0 \<and>
     (\<nexists>s3. claim_reward zk_demo (Signed 5) 0 s' = Inr s3)"
proof -
  let ?c = "claim_reward zk_demo (Signed 5) 0 zk_demo_state"
  have c: "?c = Inr (projr ?c)"
    by (simp add: zk_demo_state_def zk_eval cong: let_weak_cong)
  obtain task where t: "Tasks zk_demo_state 0 = Some task" "zk_dims task = (64, 64, 64)" "zk_miner task = 5"
      "submission_deposit task = 10 ^ 16"
    by (simp add: zk_demo_state_def zk_eval cong: let_weak_cong)
  have r: "zk_reserved zk_demo zk_demo_state 5 = 10 ^ 16"
    by (simp add: zk_demo_state_def zk_eval cong: let_weak_cong)
  from zk_claim_pays_once [OF zk_demo_ok zk_demo_steps c] t
  have "zk_reserved zk_demo (projr ?c) 5 = zk_reserved zk_demo zk_demo_state 5 - 10 ^ 16 \<and>
      (\<nexists>s3. claim_reward zk_demo (Signed 5) 0 (projr ?c) = Inr s3)"
    by (auto simp: well_sized_def)
  with c r show ?thesis by (intro exI [of _ "projr ?c"]) simp
qed

text \<open>
  The signed path is sound and the unsigned one is not. When \<open>verify_task\<close> marks a task as verified,
its verifier has accepted the proof before the deadline; but for every waiting task, whatever its proof,
the transaction pool accepts an unsigned transaction with a positive verdict from anybody, and executing
it marks the task as verified.\<close>

lemma zk_unsigned_verdict_unchecked:
  assumes "Tasks s t = Some task" "zk_status task = Pending"
  shows "(\<forall>now orig s'. verify_task T now orig t s = Inr s' \<longrightarrow>
       Tasks s' t = Some (task\<lparr>zk_status := Verified\<rparr>) \<longrightarrow>
       now \<le> zk_submitted_at task + VerificationTimeout T \<and> ZkVerifier T (zk_proof task) (zk_dims task)) \<and>
    validate_unsigned (SubmitVerificationUnsigned t True) s = Valid (''zk-verify'', t) \<and>
    (\<exists>s'. submit_verification_unsigned T Unsigned t True s = Inr s' \<and>
       Tasks s' t = Some (task\<lparr>zk_status := Verified\<rparr>))"
proof (intro conjI allI impI)
  fix now orig s'
  assume "verify_task T now orig t s = Inr s'" and v: "Tasks s' t = Some (task\<lparr>zk_status := Verified\<rparr>)"
  then have "now \<le> zk_submitted_at task + VerificationTimeout T \<and> ZkVerifier T (zk_proof task) (zk_dims task)"
  proof (elim verify_task_Inr exE conjE)
    fix k v
    assume k: "Tasks s t = Some k"
      and imp: "v \<longrightarrow> now \<le> zk_submitted_at k + VerificationTimeout T \<and> ZkVerifier T (zk_proof k) (zk_dims k)"
      and s': "Tasks s' = (Tasks s)(t \<mapsto> k\<lparr>zk_status := if v then Verified else Failed\<rparr>)"
    have "zk_status (k\<lparr>zk_status := if v then Verified else Failed\<rparr>) = Verified"
      using \<open>Tasks s' t = _\<close> s' by simp
    then have v by (simp split: if_splits)
    with imp k assms(1) show ?thesis by simp
  qed
  then show "now \<le> zk_submitted_at task + VerificationTimeout T" "ZkVerifier T (zk_proof task) (zk_dims task)" by simp_all
next
  show "validate_unsigned (SubmitVerificationUnsigned t True) s = Valid (''zk-verify'', t)"
    by (simp add: validate_unsigned_def assms)
  obtain s' where s': "submit_verification_unsigned T Unsigned t True s = Inr s'"
    using assms by (simp add: submit_verification_unsigned_def ensure_none_def Let_def)
  then show "\<exists>s'. submit_verification_unsigned T Unsigned t True s = Inr s' \<and>
       Tasks s' t = Some (task\<lparr>zk_status := Verified\<rparr>)"
    using assms by (auto elim!: unsigned_Inr)
qed

lemma zk_unsigned_verdict_unchecked_witness:
  "\<exists>s'. submit_verification_unsigned zk_demo Unsigned 1 True zk_demo_state = Inr s' \<and>
     (\<exists>k. Tasks s' 1 = Some k \<and> zk_status k = Verified \<and> \<not> ZkVerifier zk_demo (zk_proof k) (zk_dims k))"
proof -
  obtain task where t: "Tasks zk_demo_state 1 = Some task" "zk_status task = Pending" "zk_proof task = []"
    by (simp add: zk_demo_state_def zk_eval cong: let_weak_cong)
  have "\<not> ZkVerifier zk_demo (zk_proof task) (zk_dims task)" using t(3) by (simp add: zk_demo_def zk_runtime_sel hash_commitment_verify_def)
  with zk_unsigned_verdict_unchecked [OF t(1,2), of zk_demo] show ?thesis by fastforce
qed

text \<open>
  The reward is exact or refused. For 32-bit dimensions it is the exact quotient when the products
fit into 128 bits and an overflow error otherwise; for every task whose proof the runtime's verifier
accepts, with the runtime's base reward, it is always exact, so an accepted task is never unclaimable for
arithmetic reasons.\<close>

lemma zk_reward_exact:
  assumes "well_sized (zk_dims task)" "base_reward task < 2 ^ 128"
  shows "calculate_reward task =
      (if base_reward task * cells (zk_dims task) * max 1 (multiplier_q100 task) < 2 ^ 128
       then Inr (base_reward task * cells (zk_dims task) * multiplier_q100 task div 100000000)
       else Inl ArithmeticOverflow) \<and>
    (hash_commitment_verify blake2_256 (zk_proof task) (zk_dims task) \<and> multiplier_q100 task \<le> 150 \<and>
     base_reward task = BaseReward (zk_runtime C blake2_256 acc) \<longrightarrow>
     calculate_reward task = Inr (base_reward task * cells (zk_dims task) * multiplier_q100 task div 100000000))"
proof -
  let ?v = "base_reward task * cells (zk_dims task)"
  have ex: "calculate_reward task =
      (if ?v * max 1 (multiplier_q100 task) < 2 ^ 128
       then Inr (?v * multiplier_q100 task div 100000000) else Inl ArithmeticOverflow)"
  proof (cases "multiplier_q100 task = 0")
    case True
    then show ?thesis using calculate_reward_eq [OF assms] by simp
  next
    case False
    then have "?v \<le> ?v * multiplier_q100 task" by simp
    then have "?v < 2 ^ 128 \<and> ?v * multiplier_q100 task < 2 ^ 128 \<longleftrightarrow> ?v * multiplier_q100 task < 2 ^ 128"
      by (meson le_less_trans)
    then show ?thesis using calculate_reward_eq [OF assms] False by (simp add: max_def)
  qed
  moreover have "?v * max 1 (multiplier_q100 task) < 2 ^ 128"
    if h: "hash_commitment_verify blake2_256 (zk_proof task) (zk_dims task)" "multiplier_q100 task \<le> 150"
      "base_reward task = BaseReward (zk_runtime C blake2_256 acc)"
  proof -
    have "cells (zk_dims task) \<le> 65536 * 65536 * 65536"
      using h(1) unfolding cells_def hash_commitment_verify_def by (intro mult_le_mono) (auto split: if_splits)
    then have "?v * max 1 (multiplier_q100 task) \<le> (100 * 10 ^ 15) * (65536 * 65536 * 65536) * 150"
      using h(2,3) by (intro mult_le_mono) (simp_all add: zk_runtime_sel)
    also have "\<dots> < (2::nat) ^ 128" by simp
    finally show ?thesis .
  qed
  ultimately show ?thesis by auto
qed

lemma zk_reward_exact_witness:
  "calculate_reward (new_zk_task zk_demo 10 0 5 zk_demo_proof (64, 64, 64) 150) =
     Inr (10 ^ 17 * 262144 * 150 div 100000000) \<and>
   calculate_reward (new_zk_task zk_demo 10 0 5 [] (2 ^ 32 - 1, 2 ^ 32 - 1, 2 ^ 32 - 1) 150) = Inl ArithmeticOverflow"
proof -
  let ?a = "new_zk_task zk_demo 10 0 5 zk_demo_proof (64, 64, 64) 150"
  let ?b = "new_zk_task zk_demo 10 0 5 [] (2 ^ 32 - 1, 2 ^ 32 - 1, 2 ^ 32 - 1) 150"
  have "calculate_reward ?a = Inr (10 ^ 17 * 262144 * 150 div 100000000)"
    using zk_reward_exact [of ?a]
    by (simp add: new_zk_task_def well_sized_def cells_def zk_demo_def zk_runtime_sel)
  moreover have "calculate_reward ?b = Inl ArithmeticOverflow"
    using zk_reward_exact [of ?b]
    by (simp add: new_zk_task_def well_sized_def cells_def zk_demo_def zk_runtime_sel)
  ultimately show ?thesis ..
qed



text \<open>
  A full history blocks honest miners: the list of verified tasks never gets shorter in any run, and
once it has reached its limit, every accepted proof is refused by \<open>verify_task\<close> until its deadline has
passed, and rejected, with the deposit taken, after it.\<close>

lemma zk_full_history_punishes:
  assumes full: "length (VerifiedTasks s) \<ge> MaxVerifiedTasks T"
    and t: "Tasks s t = Some task" "zk_status task = Pending" "ZkVerifier T (zk_proof task) (zk_dims task)"
    and dl: "checked_add 32 (zk_submitted_at task) (VerificationTimeout T) = Some deadline"
  shows "(\<forall>s'. (zk_step T)\<^sup>*\<^sup>* s s' \<longrightarrow> length (VerifiedTasks s') \<ge> MaxVerifiedTasks T) \<and>
    (now \<le> deadline \<longrightarrow> verify_task T now (Signed a) t s = Inl TooManyVerifiedTasks) \<and>
    (now > deadline \<longrightarrow> verify_task T now (Signed a) t s = Inr s' \<longrightarrow>
       Tasks s' t = Some (task\<lparr>zk_status := Failed\<rparr>))"
proof (intro conjI allI impI)
  fix s'
  have mono: "length (VerifiedTasks s) \<le> length (VerifiedTasks s')" if "zk_step T s s'" for s s' :: "'a zk_state"
    using that
  proof (induction rule: zk_step.induct)
    case (call now orig c s s')
    then show ?case
      by (cases c)
        (auto simp: submit_proof_def verify_task_def claim_reward_def submit_verification_unsigned_def Let_def
          try_push_Some split: option.splits sum.splits if_splits)
  qed simp
  assume "(zk_step T)\<^sup>*\<^sup>* s s'"
  then have "length (VerifiedTasks s) \<le> length (VerifiedTasks s')"
    by (induction rule: rtranclp_induct) (auto dest: mono)
  with full show "length (VerifiedTasks s') \<ge> MaxVerifiedTasks T" by simp
next
  assume "now \<le> deadline"
  with full t dl show "verify_task T now (Signed a) t s = Inl TooManyVerifiedTasks"
    by (simp add: verify_task_def Let_def try_push_def)
next
  assume "now > deadline" "verify_task T now (Signed a) t s = Inr s'"
  then show "Tasks s' t = Some (task\<lparr>zk_status := Failed\<rparr>)"
    using t dl by (auto simp: checked_Some elim!: verify_task_Inr split: if_splits)
qed

lemma zk_full_history_punishes_witness:
  "verify_task (zk_demo\<lparr>MaxVerifiedTasks := 0\<rparr>) 11 (Signed 7) 0
     (projr (zk_run zk_demo (take 1 zk_demo_calls) (zk_init zk_demo_world))) = Inl TooManyVerifiedTasks"
proof -
  let ?s = "projr (zk_run zk_demo (take 1 zk_demo_calls) (zk_init zk_demo_world))"
  let ?T = "zk_demo\<lparr>MaxVerifiedTasks := 0\<rparr>"
  obtain task where t: "Tasks ?s 0 = Some task" "zk_status task = Pending"
      "ZkVerifier ?T (zk_proof task) (zk_dims task)"
      "checked_add 32 (zk_submitted_at task) (VerificationTimeout ?T) = Some 1210"
    by (simp add: zk_eval cong: let_weak_cong)
  with zk_full_history_punishes [of ?T ?s, OF _ t, of 11] show ?thesis by simp
qed

end
