(* ===== verification/Item_List.thy ===== *)
theory Item_List
  imports DBC_Prelude
begin

text \<open>
  The sorted vectors of \<open>pallets/support/src/primitives.rs\<close> (\<open>ItemList\<close>), which the older pallets use
  as sets: \<open>add_item\<close>, \<open>rm_item\<close> and \<open>expand_to_order\<close> over the standard library's \<open>binary_search\<close>. The
  locale \<open>item_set\<close> is the interface the pallets rely on; it is interpreted by these operations on
  strictly ascending lists.
\<close>

section \<open>Binary search\<close>

text \<open>
  The search of the standard library on the half-open range \<open>[l, r)\<close>: \<open>Inr i\<close> is \<open>Ok(i)\<close>, \<open>Inl i\<close> is
  \<open>Err(i)\<close>. The range shrinks in every round. On a list without duplicates the index is determined by the
  documented result of \<open>binary_search\<close>, whichever way the library picks the midpoint.
\<close>

function search_range :: "'a::linorder \<Rightarrow> 'a list \<Rightarrow> nat \<Rightarrow> nat \<Rightarrow> nat + nat" where
  "search_range x xs l r =
     (if l < r
      then let mid = l + (r - l) div 2 in
           if xs ! mid < x then search_range x xs (mid + 1) r
           else if xs ! mid > x then search_range x xs l mid
           else Inr mid
      else Inl l)"
  by pat_completeness auto
termination
  by (relation "measure (\<lambda>(x, xs, l, r). r - l)") auto

declare search_range.simps [simp del]

definition binary_search :: "'a::linorder \<Rightarrow> 'a list \<Rightarrow> nat + nat" where
  "binary_search x xs = search_range x xs 0 (length xs)"

definition is_ok :: "nat + nat \<Rightarrow> bool" where
  "is_ok r = (case r of Inl _ \<Rightarrow> False | Inr _ \<Rightarrow> True)"

section \<open>The operations\<close>

text \<open>\<open>Vec::insert\<close> and \<open>Vec::remove\<close> at an index.\<close>

definition vec_insert :: "nat \<Rightarrow> 'a \<Rightarrow> 'a list \<Rightarrow> 'a list" where
  "vec_insert i x xs = take i xs @ x # drop i xs"

definition vec_remove :: "nat \<Rightarrow> 'a list \<Rightarrow> 'a list" where
  "vec_remove i xs = take i xs @ drop (Suc i) xs"

definition add_item :: "'a::linorder \<Rightarrow> 'a list \<Rightarrow> 'a list" where
  "add_item x xs = (case binary_search x xs of Inl i \<Rightarrow> vec_insert i x xs | Inr _ \<Rightarrow> xs)"

definition rm_item :: "'a::linorder \<Rightarrow> 'a list \<Rightarrow> 'a list" where
  "rm_item x xs = (case binary_search x xs of Inl _ \<Rightarrow> xs | Inr i \<Rightarrow> vec_remove i xs)"

definition expand_to_order :: "'a::linorder list \<Rightarrow> 'a list \<Rightarrow> 'a list" where
  "expand_to_order raw_items new_items = fold add_item new_items raw_items"

section \<open>Correctness of the search\<close>

abbreviation ascending :: "'a::linorder list \<Rightarrow> bool" where
  "ascending \<equiv> sorted_wrt (<)"

lemma search_range_steps:
  assumes "l < r" "m = l + (r - l) div 2"
  shows "xs ! m < x \<Longrightarrow> search_range x xs l r = search_range x xs (m + 1) r"
    and "x < xs ! m \<Longrightarrow> search_range x xs l r = search_range x xs l m"
    and "xs ! m = x \<Longrightarrow> search_range x xs l r = Inr m"
  using assms by (auto simp: search_range.simps [of x xs l r] Let_def)

lemma search_range_empty: "\<not> l < r \<Longrightarrow> search_range x xs l r = Inl l"
  by (subst search_range.simps) simp

text \<open>
  As long as everything left of the range is smaller and everything right of it is larger than the item,
  the search finds the item or the only place where it can go.
\<close>

definition below :: "'a::linorder \<Rightarrow> 'a list \<Rightarrow> nat \<Rightarrow> bool" where
  "below x xs l \<longleftrightarrow> (\<forall>y \<in> set (take l xs). y < x)"

definition above :: "'a::linorder \<Rightarrow> 'a list \<Rightarrow> nat \<Rightarrow> bool" where
  "above x xs r \<longleftrightarrow> (\<forall>y \<in> set (drop r xs). x < y)"

lemma below_Suc:
  assumes "ascending xs" "m < length xs" "xs ! m < x"
  shows "below x xs (m + 1)"
proof -
  have "\<forall>y \<in> set (take m xs). y < xs ! m"
    using assms(1) id_take_nth_drop [OF assms(2)] by (metis list.set_intros(1) sorted_wrt_append)
  then show ?thesis using assms(2,3) by (auto simp: below_def take_Suc_conv_app_nth)
qed

lemma above_nth:
  assumes "ascending xs" "m < length xs" "x < xs ! m"
  shows "above x xs m"
proof -
  have "ascending (drop m xs)" using assms(1) by (rule sorted_wrt_drop)
  with assms(2,3) show ?thesis by (auto simp: above_def Cons_nth_drop_Suc [symmetric])
qed

lemma search_range_correct:
  assumes "ascending xs" "l \<le> r" "r \<le> length xs" "below x xs l" "above x xs r"
  shows "case search_range x xs l r of
     Inl i \<Rightarrow> i \<le> length xs \<and> below x xs i \<and> above x xs i
   | Inr i \<Rightarrow> i < length xs \<and> xs ! i = x"
  using assms
proof (induction "r - l" arbitrary: l r rule: less_induct)
  case less
  show ?case
  proof (cases "l < r")
    case False
    with less.prems show ?thesis by (simp add: search_range_empty)
  next
    case True
    define m where "m = l + (r - l) div 2"
    have m: "l \<le> m" "m < r" "m < length xs" using True less.prems(3) unfolding m_def by auto
    note steps = search_range_steps [OF True m_def, where xs = xs and x = x]
    consider "xs ! m < x" | "x < xs ! m" | "xs ! m = x" by (meson linorder_cases)
    then show ?thesis
    proof cases
      case 1
      then have "below x xs (m + 1)" by (rule below_Suc [OF less.prems(1) m(3)])
      then show ?thesis using less.hyps [of r "m + 1"] less.prems m by (simp add: steps(1) [OF 1])
    next
      case 2
      then have "above x xs m" by (rule above_nth [OF less.prems(1) m(3)])
      then show ?thesis using less.hyps [of m l] less.prems m by (simp add: steps(2) [OF 2])
    next
      case 3
      then show ?thesis using m(3) by (simp add: steps(3))
    qed
  qed
qed

lemma binary_search_cases:
  assumes "ascending xs"
  obtains (found) as bs where "xs = as @ x # bs" "binary_search x xs = Inr (length as)"
  | (missing) as bs where "xs = as @ bs" "binary_search x xs = Inl (length as)"
      "\<forall>y \<in> set as. y < x" "\<forall>y \<in> set bs. x < y"
proof -
  have c: "case binary_search x xs of
     Inl i \<Rightarrow> i \<le> length xs \<and> below x xs i \<and> above x xs i
   | Inr i \<Rightarrow> i < length xs \<and> xs ! i = x"
    unfolding binary_search_def
    by (rule search_range_correct [OF assms]) (simp_all add: below_def above_def)
  show thesis
  proof (cases "binary_search x xs")
    case (Inr i)
    with c have i: "i < length xs" "xs ! i = x" by auto
    then have "xs = take i xs @ x # drop (Suc i) xs" using id_take_nth_drop by metis
    moreover have "binary_search x xs = Inr (length (take i xs))" using Inr i(1) by simp
    ultimately show ?thesis by (rule found)
  next
    case (Inl i)
    with c have "i \<le> length xs" "below x xs i" "above x xs i" by auto
    with Inl show ?thesis using missing [of "take i xs" "drop i xs"] by (simp add: below_def above_def)
  qed
qed

lemma binary_search_is_ok:
  assumes "ascending xs"
  shows "is_ok (binary_search x xs) \<longleftrightarrow> x \<in> set xs"
  using assms
proof (cases rule: binary_search_cases [where x = x])
  case (found as bs)
  then show ?thesis by (simp add: is_ok_def)
next
  case (missing as bs)
  then show ?thesis by (auto simp: is_ok_def)
qed

lemma add_item_ascending:
  assumes "ascending xs"
  shows "ascending (add_item x xs) \<and> set (add_item x xs) = insert x (set xs)"
  using assms
proof (cases rule: binary_search_cases [where x = x])
  case (found as bs)
  with assms show ?thesis by (auto simp: add_item_def)
next
  case (missing as bs)
  with assms show ?thesis by (auto simp: add_item_def vec_insert_def sorted_wrt_append)
qed

lemma rm_item_ascending:
  assumes "ascending xs"
  shows "ascending (rm_item x xs) \<and> set (rm_item x xs) = set xs - {x}"
  using assms
proof (cases rule: binary_search_cases [where x = x])
  case (found as bs)
  with assms show ?thesis by (auto simp: rm_item_def vec_remove_def sorted_wrt_append)
next
  case (missing as bs)
  with assms show ?thesis by (auto simp: rm_item_def)
qed

section \<open>The interface\<close>

text \<open>
  What a client may rely on: the value is a finite set, membership is decided by \<open>member\<close>, and an
  item is moved from one set to another by removing it here and adding it there.
\<close>

locale item_set =
  fixes add :: "'e \<Rightarrow> 's \<Rightarrow> 's"
    and rm :: "'e \<Rightarrow> 's \<Rightarrow> 's"
    and member :: "'e \<Rightarrow> 's \<Rightarrow> bool"
    and elems :: "'s \<Rightarrow> 'e set"
    and ok :: "'s \<Rightarrow> bool"
  assumes add_ok: "ok s \<Longrightarrow> ok (add x s) \<and> elems (add x s) = insert x (elems s)"
    and rm_ok: "ok s \<Longrightarrow> ok (rm x s) \<and> elems (rm x s) = elems s - {x}"
    and member_ok: "ok s \<Longrightarrow> member x s \<longleftrightarrow> x \<in> elems s"
begin

lemma add_all: "ok s \<Longrightarrow> ok (fold add xs s) \<and> elems (fold add xs s) = elems s \<union> set xs"
  by (induction xs arbitrary: s) (auto simp: add_ok)

text \<open>Moving an item keeps two sets disjoint and their union the same.\<close>

lemma move_disjoint:
  assumes "ok s" "ok t" "elems s \<inter> elems t = {}" "x \<in> elems s"
  shows "elems (rm x s) \<inter> elems (add x t) = {}"
    and "elems (rm x s) \<union> elems (add x t) = elems s \<union> elems t"
  using assms by (auto simp: add_ok rm_ok)

lemma rm_add: "ok s \<Longrightarrow> x \<notin> elems s \<Longrightarrow> elems (rm x (add x s)) = elems s"
  by (simp add: add_ok rm_ok)

end

interpretation il: item_set add_item rm_item "\<lambda>x xs. is_ok (binary_search x xs)" set ascending
  by unfold_locales (simp_all add: add_item_ascending rm_item_ascending binary_search_is_ok)

text \<open>On ascending lists the set determines the list, so that adding is sorted insertion and removing a filter.\<close>

lemma ascending_unique: "ascending xs \<Longrightarrow> ascending ys \<Longrightarrow> set xs = set ys \<Longrightarrow> xs = ys"
  by (simp add: strict_sorted_iff sorted_distinct_set_unique)

lemma rm_add_item: "ascending xs \<Longrightarrow> x \<notin> set xs \<Longrightarrow> rm_item x (add_item x xs) = xs"
  by (rule ascending_unique) (simp_all add: il.add_ok il.rm_ok il.rm_add)

text \<open>
  C25: On a strictly ascending vector the binary-search operations of \<open>ItemList\<close> compute the reference
  set operations: \<open>add_item\<close> yields the sorted list of the set with the item, \<open>rm_item\<close> yields the list
  with the item filtered out, and \<open>expand_to_order\<close> yields the sorted list of the union, whatever the
  order and the repetitions of the new items.
\<close>
theorem item_list_equivalence:
  assumes "ascending xs"
  shows "add_item x xs = sorted_list_of_set (insert x (set xs)) \<and>
    rm_item x xs = filter (\<lambda>y. y \<noteq> x) xs \<and>
    expand_to_order xs ys = sorted_list_of_set (set xs \<union> set ys) \<and>
    (is_ok (binary_search x xs) \<longleftrightarrow> x \<in> set xs)"
proof (intro conjI)
  show "add_item x xs = sorted_list_of_set (insert x (set xs))"
    using assms
    by (intro ascending_unique) (simp_all add: il.add_ok del: sorted_list_of_set_insert_remove)
  show "rm_item x xs = filter (\<lambda>y. y \<noteq> x) xs"
    using assms by (intro ascending_unique) (auto simp: il.rm_ok sorted_wrt_filter)
  show "expand_to_order xs ys = sorted_list_of_set (set xs \<union> set ys)"
    using assms unfolding expand_to_order_def
    by (intro ascending_unique) (simp_all add: il.add_all)
  show "is_ok (binary_search x xs) \<longleftrightarrow> x \<in> set xs"
    using assms by (rule il.member_ok)
qed

theorem item_list_equivalence_witness:
  "ascending [2, 5, 9 :: nat] \<and> add_item 7 [2, 5, 9 :: nat] = [2, 5, 7, 9] \<and>
   expand_to_order [2, 5, 9] [7, 4, 7 :: nat] = [2, 4, 5, 7, 9] \<and>
   rm_item 7 [2, 5, 9 :: nat] = [2, 5, 9] \<and> \<not> is_ok (binary_search 7 [2, 5, 9 :: nat])"
proof -
  have asc: "ascending [2, 5, 9 :: nat]" by simp
  then show ?thesis
    using item_list_equivalence [OF asc, of 7 "[7, 4, 7]"] by (simp add: insert_Diff_if)
qed

text \<open>The definitions, to evaluate the operations on concrete lists.\<close>

lemmas list_defs = add_item_def rm_item_def binary_search_def search_range.simps is_ok_def vec_insert_def
  vec_remove_def

end
