(* ===== verification/Machine_Types.thy ===== *)
theory Machine_Types
  imports Item_List "HOL-Library.List_Lexorder"
begin

text \<open>
  The data the machine pallets share, from \<open>pallets/support/src\<close>: machine descriptions and their status
  (\<open>machine_type.rs\<close>, \<open>machine_info.rs\<close>), the reasons of a slash (\<open>verify_slash.rs\<close>), the lists of
  machines by state (\<open>live_machine.rs\<close>), rental orders and the allocation of GPUs (\<open>rental_type.rs\<close>).
  Machine ids are byte vectors in their lexicographic order; a \<open>H256\<close> is the number it encodes.
\<close>

type_synonym machine_id = bytes
type_synonym era_index = nat
type_synonym slash_id = nat
type_synonym rent_order_id = nat
type_synonym h256 = nat

section \<open>Times\<close>

definition ONE_MINUTE :: nat where "ONE_MINUTE = 10"
definition SEVEN_MINUTES :: nat where "SEVEN_MINUTES = 7 * ONE_MINUTE"
definition HALF_HOUR :: nat where "HALF_HOUR = 30 * ONE_MINUTE"
definition ONE_HOUR :: nat where "ONE_HOUR = 60 * ONE_MINUTE"
definition FOUR_HOURS :: nat where "FOUR_HOURS = 4 * ONE_HOUR"
definition ONE_DAY :: nat where "ONE_DAY = 24 * ONE_HOUR"
definition TWO_DAYS :: nat where "TWO_DAYS = 2 * ONE_DAY"
definition FIVE_DAYS :: nat where "FIVE_DAYS = 5 * ONE_DAY"
definition TEN_DAYS :: nat where "TEN_DAYS = 10 * ONE_DAY"

lemmas time_defs = ONE_MINUTE_def SEVEN_MINUTES_def HALF_HOUR_def ONE_HOUR_def FOUR_HOURS_def ONE_DAY_def
  TWO_DAYS_def FIVE_DAYS_def TEN_DAYS_def

section \<open>Machines\<close>

datatype longitude = East nat | West nat
datatype latitude = South nat | North nat

record committee_upload_info =
  upload_machine_id :: machine_id
  gpu_type :: bytes
  upload_gpu_num :: nat
  cuda_core :: nat
  gpu_mem :: nat
  upload_calc_point :: nat
  sys_disk :: nat
  data_disk :: nat
  cpu_type :: bytes
  cpu_core_num :: nat
  upload_cpu_rate :: nat
  mem_num :: nat
  rand_str :: bytes
  is_support :: bool

definition default_upload :: committee_upload_info where
  "default_upload =
     \<lparr>upload_machine_id = [], gpu_type = [], upload_gpu_num = 0, cuda_core = 0, gpu_mem = 0,
      upload_calc_point = 0, sys_disk = 0, data_disk = 0, cpu_type = [], cpu_core_num = 0,
      upload_cpu_rate = 0, mem_num = 0, rand_str = [], is_support = False\<rparr>"

text \<open>\<open>to_string\<close> of an unsigned integer, as bytes, and the hashed form of an upload.\<close>

fun dec_bytes :: "nat \<Rightarrow> bytes" where
  "dec_bytes n = (if n < 10 then [of_nat (48 + n)] else dec_bytes (n div 10) @ [of_nat (48 + n mod 10)])"

declare dec_bytes.simps [simp del]

definition join_str :: "nat list \<Rightarrow> bytes" where
  "join_str ns = concat (map dec_bytes ns)"

definition upload_raw_info :: "committee_upload_info \<Rightarrow> bytes" where
  "upload_raw_info i =
     upload_machine_id i @ gpu_type i @
     join_str [upload_gpu_num i, cuda_core i, gpu_mem i, upload_calc_point i, sys_disk i, data_disk i] @
     cpu_type i @ join_str [cpu_core_num i, upload_cpu_rate i, mem_num i] @
     rand_str i @ (if is_support i then [49] else [48])"

definition upload_hash :: "(bytes \<Rightarrow> bytes) \<Rightarrow> committee_upload_info \<Rightarrow> bytes" where
  "upload_hash blake2_128 i = blake2_128 (upload_raw_info i)"

record staker_customize_info =
  server_room :: h256
  upload_net :: nat
  download_net :: nat
  longitude_field :: longitude
  latitude_field :: latitude
  telecom_operators :: "bytes list"
  is_bare_machine :: bool

definition default_customize :: staker_customize_info where
  "default_customize =
     \<lparr>server_room = 0, upload_net = 0, download_net = 0, longitude_field = East 0, latitude_field = North 0,
      telecom_operators = [], is_bare_machine = False\<rparr>"

datatype op_slash_reason =
    RentedReportOffline block_number
  | OnlineReportOffline block_number
  | RentedInaccessible block_number
  | RentedHardwareMalfunction block_number
  | RentedHardwareCounterfeit block_number
  | OnlineRentFailed block_number
  | CommitteeRefusedOnline
  | CommitteeRefusedMutHardware
  | ReonlineShouldReward

datatype machine_status =
    AddingCustomizeInfo
  | DistributingOrder
  | CommitteeVerifying
  | CommitteeRefused block_number
  | WaitingFulfill
  | Online
  | StakerReportOffline block_number machine_status
  | ReporterReportOffline op_slash_reason machine_status account "account list"
  | Creating
  | Rented
  | Exit

record machine_info_detail =
  committee_upload_info :: committee_upload_info
  staker_customize_info :: staker_customize_info

record machine_info =
  controller :: account
  machine_stash :: account
  renters :: "account list"
  last_machine_restake :: block_number
  bonding_height :: block_number
  online_height :: block_number
  last_online_height :: block_number
  init_stake_per_gpu :: balance
  stake_amount :: balance
  machine_status :: machine_status
  total_rented_duration :: block_number
  total_rented_times :: nat
  total_rent_fee :: balance
  total_burn_fee :: balance
  machine_info_detail :: machine_info_detail
  reward_committee :: "account list"
  reward_deadline :: era_index

definition mi_change_rent_fee :: "balance \<Rightarrow> balance \<Rightarrow> machine_info \<Rightarrow> machine_info" where
  "mi_change_rent_fee fee_to_destroy fee_to_stash i =
     i\<lparr>total_burn_fee := saturating_add 128 (total_burn_fee i) fee_to_destroy,
       total_rent_fee := saturating_add 128 (total_rent_fee i) fee_to_stash\<rparr>"

definition mi_new_bonding :: "account \<Rightarrow> account \<Rightarrow> block_number \<Rightarrow> balance \<Rightarrow> machine_info" where
  "mi_new_bonding ctrl stash now stake =
     \<lparr>controller = ctrl, machine_stash = stash, renters = [], last_machine_restake = 0, bonding_height = now,
      online_height = 0, last_online_height = 0, init_stake_per_gpu = stake, stake_amount = stake,
      machine_status = AddingCustomizeInfo, total_rented_duration = 0, total_rented_times = 0,
      total_rent_fee = 0, total_burn_fee = 0,
      machine_info_detail = \<lparr>committee_upload_info = default_upload, staker_customize_info = default_customize\<rparr>,
      reward_committee = [], reward_deadline = 0\<rparr>"

datatype online_err =
    ClaimRewardFailed_err
  | NotAllowedChangeMachineInfo_err
  | NotMachineController_err
  | CalcStakeAmountFailed_err
  | TelecomIsNull_err

fun server_room_status :: "machine_status \<Rightarrow> bool" where
  "server_room_status AddingCustomizeInfo = True"
| "server_room_status DistributingOrder = True"
| "server_room_status CommitteeVerifying = True"
| "server_room_status (CommitteeRefused _) = True"
| "server_room_status WaitingFulfill = True"
| "server_room_status (StakerReportOffline _ _) = True"
| "server_room_status _ = False"

definition can_add_server_room :: "machine_info \<Rightarrow> account \<Rightarrow> online_err option" where
  "can_add_server_room i who =
     (if \<not> server_room_status (machine_status i) then Some NotAllowedChangeMachineInfo_err
      else if controller i \<noteq> who then Some NotMachineController_err else None)"

definition set_customize :: "staker_customize_info \<Rightarrow> machine_info \<Rightarrow> machine_info" where
  "set_customize room i =
     i\<lparr>machine_info_detail := (machine_info_detail i)\<lparr>staker_customize_info := room\<rparr>\<rparr>"

definition add_server_room_info :: "staker_customize_info \<Rightarrow> machine_info \<Rightarrow> machine_info" where
  "add_server_room_info room i =
     (let i1 = set_customize room i
      in if machine_status i1 = AddingCustomizeInfo then i1\<lparr>machine_status := DistributingOrder\<rparr> else i1)"

definition can_update_server_room_info :: "machine_info \<Rightarrow> account \<Rightarrow> online_err option" where
  "can_update_server_room_info i who =
     (if telecom_operators (staker_customize_info (machine_info_detail i)) = [] then Some TelecomIsNull_err
      else if controller i \<noteq> who then Some NotMachineController_err else None)"

definition update_server_room_info :: "staker_customize_info \<Rightarrow> machine_info \<Rightarrow> machine_info" where
  "update_server_room_info room i = set_customize room i"

definition update_rent_fee :: "balance \<Rightarrow> balance \<Rightarrow> machine_info \<Rightarrow> machine_info" where
  "update_rent_fee rent_fee burn_fee i =
     i\<lparr>total_rent_fee := saturating_add 128 (total_rent_fee i) rent_fee,
       total_burn_fee := saturating_add 128 (total_burn_fee i) burn_fee\<rparr>"

definition mi_longitude :: "machine_info \<Rightarrow> longitude" where
  "mi_longitude i = longitude_field (staker_customize_info (machine_info_detail i))"

definition mi_latitude :: "machine_info \<Rightarrow> latitude" where
  "mi_latitude i = latitude_field (staker_customize_info (machine_info_detail i))"

definition is_controller :: "machine_info \<Rightarrow> account \<Rightarrow> bool" where
  "is_controller i who \<longleftrightarrow> controller i = who"

definition mi_is_online :: "machine_info \<Rightarrow> bool" where
  "mi_is_online i \<longleftrightarrow> machine_status i = Online"

definition gpu_num :: "machine_info \<Rightarrow> nat" where
  "gpu_num i = upload_gpu_num (committee_upload_info (machine_info_detail i))"

definition calc_point :: "machine_info \<Rightarrow> nat" where
  "calc_point i = upload_calc_point (committee_upload_info (machine_info_detail i))"

definition cpu_rate :: "machine_info \<Rightarrow> nat" where
  "cpu_rate i = upload_cpu_rate (committee_upload_info (machine_info_detail i))"

definition gpu_type_and_mem :: "machine_info \<Rightarrow> bytes \<times> nat" where
  "gpu_type_and_mem i =
     (gpu_type (committee_upload_info (machine_info_detail i)),
      mem_num (committee_upload_info (machine_info_detail i)))"

section \<open>Machines by state\<close>

record live_machine =
  bonding_machine :: "machine_id list"
  confirmed_machine :: "machine_id list"
  booked_machine :: "machine_id list"
  online_machine :: "machine_id list"
  fulfilling_machine :: "machine_id list"
  refused_machine :: "machine_id list"
  rented_machine :: "machine_id list"
  offline_machine :: "machine_id list"
  refused_mut_hardware_machine :: "machine_id list"

definition default_live :: live_machine where
  "default_live =
     \<lparr>bonding_machine = [], confirmed_machine = [], booked_machine = [], online_machine = [],
      fulfilling_machine = [], refused_machine = [], rented_machine = [], offline_machine = [],
      refused_mut_hardware_machine = []\<rparr>"

definition on_bonding :: "machine_id \<Rightarrow> live_machine \<Rightarrow> live_machine" where
  "on_bonding m l = l\<lparr>bonding_machine := add_item m (bonding_machine l)\<rparr>"

definition on_add_server_room :: "machine_id \<Rightarrow> live_machine \<Rightarrow> live_machine" where
  "on_add_server_room m l =
     (if is_ok (binary_search m (bonding_machine l))
      then l\<lparr>bonding_machine := rm_item m (bonding_machine l),
             confirmed_machine := add_item m (confirmed_machine l)\<rparr>
      else l)"

definition on_offline_change_hardware :: "machine_id \<Rightarrow> live_machine \<Rightarrow> live_machine" where
  "on_offline_change_hardware m l =
     l\<lparr>online_machine := rm_item m (online_machine l), bonding_machine := add_item m (bonding_machine l)\<rparr>"

definition on_offline :: "machine_id \<Rightarrow> live_machine \<Rightarrow> live_machine" where
  "on_offline m l =
     l\<lparr>online_machine := rm_item m (online_machine l), rented_machine := rm_item m (rented_machine l),
       offline_machine := add_item m (offline_machine l)\<rparr>"

definition on_exit :: "machine_id \<Rightarrow> live_machine \<Rightarrow> live_machine" where
  "on_exit m l = l\<lparr>online_machine := rm_item m (online_machine l)\<rparr>"

section \<open>Slashes of a machine\<close>

record op_pending_slash_info =
  slash_who :: account
  slash_machine_id :: machine_id
  slash_time :: block_number
  slash_amount :: balance
  slash_exec_time :: block_number
  reporter :: "account option"
  slash_renters :: "account list"
  reward_to_committee :: "account list option"
  slash_reason :: op_slash_reason

record op_pending_slash_review_info =
  applicant :: account
  staked_amount :: balance
  apply_time :: block_number
  expire_time :: block_number
  reason :: bytes

section \<open>The record of a stash account\<close>

record stash_machine =
  total_machine :: "machine_id list"
  stash_online_machine :: "machine_id list"
  stash_calc_points :: nat
  stash_gpu_num :: nat
  stash_rented_gpu :: nat
  total_earned_reward :: balance
  total_claimed_reward :: balance
  can_claim_reward :: balance
  stash_rent_fee :: balance
  stash_burn_fee :: balance

definition default_stash_machine :: stash_machine where
  "default_stash_machine =
     \<lparr>total_machine = [], stash_online_machine = [], stash_calc_points = 0, stash_gpu_num = 0,
      stash_rented_gpu = 0, total_earned_reward = 0, total_claimed_reward = 0, can_claim_reward = 0,
      stash_rent_fee = 0, stash_burn_fee = 0\<rparr>"

definition sm_new_bonding :: "machine_id \<Rightarrow> stash_machine \<Rightarrow> stash_machine" where
  "sm_new_bonding m sm = sm\<lparr>total_machine := add_item m (total_machine sm)\<rparr>"

definition claim_reward :: "stash_machine \<Rightarrow> (balance \<times> stash_machine) option" where
  "claim_reward sm =
     (let can_claim = can_claim_reward sm in
      case checked_add 128 (total_claimed_reward sm) can_claim of
        None \<Rightarrow> None
      | Some claimed \<Rightarrow> Some (can_claim, sm\<lparr>can_claim_reward := 0, total_claimed_reward := claimed\<rparr>))"

definition sm_change_rent_fee :: "balance \<Rightarrow> balance \<Rightarrow> stash_machine \<Rightarrow> stash_machine" where
  "sm_change_rent_fee fee_to_destroy fee_to_stash sm =
     sm\<lparr>stash_burn_fee := saturating_add 128 (stash_burn_fee sm) fee_to_destroy,
        stash_rent_fee := saturating_add 128 (stash_rent_fee sm) fee_to_stash\<rparr>"

section \<open>Rental orders\<close>

datatype rent_status = WaitingVerifying | Renting | RentExpired

record rent_order_detail =
  order_machine_id :: machine_id
  renter :: account
  rent_start :: block_number
  confirm_rent_time :: block_number
  rent_end :: block_number
  order_stake_amount :: balance
  rent_status :: rent_status
  order_gpu_num :: nat
  gpu_index :: "nat list"

definition new_rent_order ::
    "machine_id \<Rightarrow> account \<Rightarrow> block_number \<Rightarrow> block_number \<Rightarrow> balance \<Rightarrow> nat \<Rightarrow> nat list \<Rightarrow> rent_order_detail" where
  "new_rent_order m who start fin stake num gpus =
     \<lparr>order_machine_id = m, renter = who, rent_start = start, confirm_rent_time = 0, rent_end = fin,
      order_stake_amount = stake, rent_status = WaitingVerifying, order_gpu_num = num, gpu_index = gpus\<rparr>"

definition confirm_order :: "block_number \<Rightarrow> rent_order_detail \<Rightarrow> rent_order_detail" where
  "confirm_order now r = r\<lparr>confirm_rent_time := now, rent_status := Renting\<rparr>"

record machine_gpu_order =
  rent_order :: "rent_order_id list"
  used_gpu :: "nat list"

definition default_gpu_order :: machine_gpu_order where
  "default_gpu_order = \<lparr>rent_order = [], used_gpu = []\<rparr>"

text \<open>The loop over the GPU numbers: it stops as soon as enough are found.\<close>

fun rentable_loop :: "nat \<Rightarrow> nat list \<Rightarrow> nat list \<Rightarrow> nat list \<Rightarrow> nat list \<times> nat list" where
  "rentable_loop need [] out used = (out, used)"
| "rentable_loop need (i # is) out used =
     (if length out = need then (out, used)
      else if \<not> is_ok (binary_search i used) then rentable_loop need is (out @ [i]) (add_item i used)
      else rentable_loop need is out used)"

definition gen_rentable_gpu :: "nat \<Rightarrow> nat \<Rightarrow> machine_gpu_order \<Rightarrow> nat list \<times> machine_gpu_order" where
  "gen_rentable_gpu need cap g =
     (case rentable_loop need [0..<cap] [] (used_gpu g) of (out, used) \<Rightarrow> (out, g\<lparr>used_gpu := used\<rparr>))"

definition clean_expired_order :: "rent_order_id \<Rightarrow> nat list \<Rightarrow> machine_gpu_order \<Rightarrow> machine_gpu_order" where
  "clean_expired_order oid gpus g =
     g\<lparr>rent_order := rm_item oid (rent_order g), used_gpu := fold rm_item gpus (used_gpu g)\<rparr>"

record rented_order_detail =
  rented_rent_id :: rent_order_id
  rented_start :: block_number
  rented_end :: block_number

section \<open>Allocation of GPUs\<close>

text \<open>
  The loop takes the free numbers in order: after the ones already collected, as many of the free ones as
  are still needed.
\<close>

lemma rentable_loop_eq:
  assumes "ascending used" "distinct is" "length out \<le> need"
  shows "\<exists>used'. rentable_loop need is out used =
      (out @ take (need - length out) (filter (\<lambda>i. i \<notin> set used) is), used') \<and>
    ascending used' \<and> set used' = set used \<union> set (take (need - length out) (filter (\<lambda>i. i \<notin> set used) is))"
  using assms
proof (induction "is" arbitrary: out used)
  case Nil
  then show ?case by simp
next
  case (Cons i "is")
  show ?case
  proof (cases "length out = need \<or> i \<in> set used")
    case True
    then show ?thesis using Cons.IH [of used out] Cons.prems by (auto simp: il.member_ok)
  next
    case False
    have f: "filter (\<lambda>j. j \<noteq> i \<and> j \<notin> set used) is = filter (\<lambda>j. j \<notin> set used) is"
      using Cons.prems(2) by (auto intro: filter_cong)
    obtain k where k: "need - length out = Suc k" using False Cons.prems(3) by (cases "need - length out") auto
    then have k': "need - length (out @ [i]) = k" by simp
    obtain used' where u: "rentable_loop need is (out @ [i]) (add_item i used) =
        ((out @ [i]) @ take k (filter (\<lambda>j. j \<notin> set used) is), used')" "ascending used'"
        "set used' = insert i (set used) \<union> set (take k (filter (\<lambda>j. j \<notin> set used) is))"
      using Cons.IH [of "add_item i used" "out @ [i]"] Cons.prems False k'
      by (auto simp: il.add_ok f)
    then show ?thesis using False Cons.prems(1) k by (auto simp: il.member_ok)
  qed
qed

definition free_gpus :: "nat \<Rightarrow> machine_gpu_order \<Rightarrow> nat list" where
  "free_gpus cap g = filter (\<lambda>i. i \<notin> set (used_gpu g)) [0..<cap]"

lemma gen_rentable_gpu_eq:
  assumes "ascending (used_gpu g)" "gen_rentable_gpu need cap g = (out, g')"
  shows "out = take need (free_gpus cap g)" "ascending (used_gpu g')"
    "set (used_gpu g') = set (used_gpu g) \<union> set out" "rent_order g' = rent_order g"
  using rentable_loop_eq [OF assms(1), of "[0..<cap]" "[]" need] assms(2)
  by (auto simp: gen_rentable_gpu_def free_gpus_def)

lemma gen_rentable_gpu_fresh:
  assumes "ascending (used_gpu g)" "gen_rentable_gpu need cap g = (out, g')"
  shows "distinct out" "set out \<subseteq> {..<cap} - set (used_gpu g)"
proof -
  have "distinct (free_gpus cap g)" by (simp add: free_gpus_def)
  then show "distinct out" by (simp add: gen_rentable_gpu_eq(1) [OF assms])
  have "set out \<subseteq> set (free_gpus cap g)" unfolding gen_rentable_gpu_eq(1) [OF assms] by (rule set_take_subset)
  then show "set out \<subseteq> {..<cap} - set (used_gpu g)" by (auto simp: free_gpus_def)
qed

lemma rm_items: "ascending xs \<Longrightarrow> ascending (fold rm_item ys xs) \<and> set (fold rm_item ys xs) = set xs - set ys"
  by (induction ys arbitrary: xs) (auto simp: il.rm_ok)

section \<open>What a committed hash says\<close>

lemma dec_bytes_digit: "n < 10 \<Longrightarrow> dec_bytes n = [of_nat (48 + n)]"
  by (simp add: dec_bytes.simps)

lemma dec_bytes_snoc: "0 < m \<Longrightarrow> d < 10 \<Longrightarrow> dec_bytes (10 * m + d) = dec_bytes m @ dec_bytes d"
  by (subst dec_bytes.simps) (simp add: dec_bytes_digit)

lemma dec_bytes_append: "0 < d \<Longrightarrow> dec_bytes (d * 10 ^ length (dec_bytes k) + k) = dec_bytes d @ dec_bytes k"
proof (induction k rule: less_induct)
  case (less k)
  show ?case
  proof (cases "k < 10")
    case True
    then show ?thesis using less.prems dec_bytes_snoc [of d k] by (simp add: dec_bytes_digit mult.commute)
  next
    case False
    let ?q = "k div 10" and ?r = "k mod 10"
    have k: "dec_bytes k = dec_bytes ?q @ dec_bytes ?r" using dec_bytes_snoc [of ?q ?r] False by simp
    have n: "d * 10 ^ length (dec_bytes k) + k = 10 * (d * 10 ^ length (dec_bytes ?q) + ?q) + ?r"
      by (simp add: k dec_bytes_digit algebra_simps)
    have "0 < d * 10 ^ length (dec_bytes ?q) + ?q" using less.prems by simp
    then have "dec_bytes (d * 10 ^ length (dec_bytes k) + k) =
        dec_bytes (d * 10 ^ length (dec_bytes ?q) + ?q) @ dec_bytes ?r"
      unfolding n by (rule dec_bytes_snoc) simp
    also have "\<dots> = dec_bytes d @ dec_bytes k" using less.IH [of ?q] less.prems False by (simp add: k)
    finally show ?thesis .
  qed
qed

text \<open>
  The hash a committee commits to does not fix what it revealed: the numbers are hashed as decimals with
  nothing between them. Whatever the hash function, the hash of a machine with calculation points \<open>10 m + d\<close>
  and system disk \<open>k\<close> is also the hash of one with the points \<open>m\<close> and the digit \<open>d\<close> moved to the front of
  the disk size, everything else equal; and a digit can be moved from the memory size to the random string.
\<close>

lemma mt_upload_hash_not_binding:
  assumes "0 < m" "0 < d" "d < 10"
  shows "upload_hash h (i\<lparr>upload_calc_point := 10 * m + d, sys_disk := k\<rparr>) =
      upload_hash h (i\<lparr>upload_calc_point := m, sys_disk := d * 10 ^ length (dec_bytes k) + k\<rparr>) \<and>
    upload_hash h (i\<lparr>mem_num := 10 * m + d, rand_str := r\<rparr>) =
      upload_hash h (i\<lparr>mem_num := m, rand_str := dec_bytes d @ r\<rparr>) \<and>
    i\<lparr>upload_calc_point := 10 * m + d, sys_disk := k\<rparr> \<noteq>
      i\<lparr>upload_calc_point := m, sys_disk := d * 10 ^ length (dec_bytes k) + k\<rparr>"
proof -
  have "upload_calc_point (i\<lparr>upload_calc_point := 10 * m + d, sys_disk := k\<rparr>) \<noteq>
      upload_calc_point (i\<lparr>upload_calc_point := m, sys_disk := d * 10 ^ length (dec_bytes k) + k\<rparr>)"
    using assms by simp
  then have "i\<lparr>upload_calc_point := 10 * m + d, sys_disk := k\<rparr> \<noteq>
      i\<lparr>upload_calc_point := m, sys_disk := d * 10 ^ length (dec_bytes k) + k\<rparr>" by metis
  then show ?thesis using dec_bytes_snoc [OF assms(1,3)] dec_bytes_append [OF assms(2)]
    by (simp add: upload_hash_def upload_raw_info_def join_str_def)
qed

lemma mt_upload_hash_not_binding_witness:
  "upload_hash (\<lambda>x. x) (default_upload\<lparr>upload_calc_point := 68, sys_disk := 500\<rparr>) =
     upload_hash (\<lambda>x. x) (default_upload\<lparr>upload_calc_point := 6, sys_disk := 8500\<rparr>)"
  using mt_upload_hash_not_binding [where m = 6 and d = 8 and h = "\<lambda>x. x" and i = default_upload and k = 500] by (simp add: dec_bytes.simps)

end
