(* ===== verification/Online_Grades.thy ===== *)
theory Online_Grades
  imports Machine_Types Currency "HOL-Library.Multiset"
begin

text \<open>
  How machines earn grades, from \<open>pallets/online-profile/src/types\<close>: the grades of one era
  (\<open>EraStashPoints\<close> and \<open>MachineGradeStatus\<close> of \<open>machine_reward.rs\<close>), the window of recent rewards, and the
  statistics of \<open>basic.rs\<close>. The grades of an era are maintained incrementally; \<open>points_of\<close> computes them
  from the set of machines that are online, and the updates are shown to implement it.
\<close>



section \<open>System statistics\<close>

record sys_info_detail =
  total_gpu_num :: nat
  total_rented_gpu :: nat
  total_staker :: nat
  total_calc_points :: nat
  total_stake :: balance
  sys_rent_fee :: balance
  sys_burn_fee :: balance

definition default_sys_info :: sys_info_detail where
  "default_sys_info =
     \<lparr>total_gpu_num = 0, total_rented_gpu = 0, total_staker = 0, total_calc_points = 0, total_stake = 0,
      sys_rent_fee = 0, sys_burn_fee = 0\<rparr>"

definition on_stake_changed :: "balance \<Rightarrow> bool \<Rightarrow> sys_info_detail \<Rightarrow> sys_info_detail" where
  "on_stake_changed amount is_add i =
     (if is_add then i\<lparr>total_stake := saturating_add 128 (total_stake i) amount\<rparr>
      else i\<lparr>total_stake := saturating_sub (total_stake i) amount\<rparr>)"

definition si_change_rent_fee :: "balance \<Rightarrow> balance \<Rightarrow> sys_info_detail \<Rightarrow> sys_info_detail" where
  "si_change_rent_fee fee_to_destroy fee_to_stash i =
     i\<lparr>sys_burn_fee := saturating_add 128 (sys_burn_fee i) fee_to_destroy,
       sys_rent_fee := saturating_add 128 (sys_rent_fee i) fee_to_stash\<rparr>"

record pos_info =
  online_gpu :: nat
  offline_gpu :: nat
  rented_gpu :: nat
  online_gpu_calc_points :: nat

definition default_pos_info :: pos_info where
  "default_pos_info = \<lparr>online_gpu = 0, offline_gpu = 0, rented_gpu = 0, online_gpu_calc_points = 0\<rparr>"

definition pos_on_rent_changed :: "bool \<Rightarrow> nat \<Rightarrow> pos_info \<Rightarrow> pos_info" where
  "pos_on_rent_changed is_rented gpus p =
     (if is_rented then p\<lparr>rented_gpu := saturating_add 64 (rented_gpu p) gpus\<rparr>
      else p\<lparr>rented_gpu := saturating_sub (rented_gpu p) gpus\<rparr>)"

definition pos_on_online_changed :: "bool \<Rightarrow> nat \<Rightarrow> nat \<Rightarrow> pos_info \<Rightarrow> pos_info" where
  "pos_on_online_changed is_online gpus point p =
     (if is_online
      then p\<lparr>online_gpu := saturating_add 64 (online_gpu p) gpus,
             online_gpu_calc_points := saturating_add 64 (online_gpu_calc_points p) point\<rparr>
      else p\<lparr>online_gpu := saturating_sub (online_gpu p) gpus,
             online_gpu_calc_points := saturating_sub (online_gpu_calc_points p) point,
             offline_gpu := saturating_add 64 (offline_gpu p) gpus\<rparr>)"

definition pos_on_machine_exit :: "nat \<Rightarrow> nat \<Rightarrow> pos_info \<Rightarrow> pos_info \<times> bool" where
  "pos_on_machine_exit gpus point p =
     (let p1 = p\<lparr>online_gpu := saturating_sub (online_gpu p) gpus,
                 online_gpu_calc_points := saturating_sub (online_gpu_calc_points p) point\<rparr>
      in (p1, p1 = default_pos_info))"

section \<open>Recent rewards\<close>

record machine_recent_reward_info =
  recent_stash :: account
  recent_machine_reward :: "balance list"
  recent_reward_sum :: balance
  reward_committee_deadline :: era_index
  recent_reward_committee :: "account list"

definition add_new_reward :: "balance \<Rightarrow> machine_recent_reward_info \<Rightarrow> machine_recent_reward_info" where
  "add_new_reward amount i =
     (let rs = recent_machine_reward i;
          (reduce, rs1) = (if length rs = 150 then (hd rs, tl rs @ [amount]) else (0, rs @ [amount]))
      in i\<lparr>recent_machine_reward := rs1,
           recent_reward_sum := saturating_sub (saturating_add 128 (recent_reward_sum i) amount) reduce\<rparr>)"

section \<open>Grades of an era\<close>

record stash_machine_statistics =
  online_gpu_num :: nat
  inflation :: nat
  machine_total_calc_point :: nat
  rent_extra_grade :: nat

definition default_statistics :: stash_machine_statistics where
  "default_statistics = \<lparr>online_gpu_num = 0, inflation = 0, machine_total_calc_point = 0, rent_extra_grade = 0\<rparr>"

definition total_grades :: "perthing_ops \<Rightarrow> stash_machine_statistics \<Rightarrow> nat option" where
  "total_grades P st =
     Option.bind
       (checked_add 64 (pmul P PERBILL (inflation st) (machine_total_calc_point st)) (machine_total_calc_point st))
       (\<lambda>g. checked_add 64 g (rent_extra_grade st))"

record era_stash_points =
  points_total :: nat
  staker_statistic :: "account \<rightharpoonup> stash_machine_statistics"

definition default_points :: era_stash_points where
  "default_points = \<lparr>points_total = 0, staker_statistic = Map.empty\<rparr>"

definition statistic_or_default :: "era_stash_points \<Rightarrow> account \<Rightarrow> stash_machine_statistics" where
  "statistic_or_default e stash =
     (case staker_statistic e stash of None \<Rightarrow> default_statistics | Some st \<Rightarrow> st)"

definition unwrap_or_zero :: "nat option \<Rightarrow> nat" where
  "unwrap_or_zero x = (case x of None \<Rightarrow> 0 | Some n \<Rightarrow> n)"

definition on_online_changed ::
    "perthing_ops \<Rightarrow> account \<Rightarrow> nat \<Rightarrow> nat \<Rightarrow> bool \<Rightarrow> era_stash_points \<Rightarrow> era_stash_points" where
  "on_online_changed P stash gpus grade is_online e =
     (let st = statistic_or_default e stash;
          pre_grade = unwrap_or_zero (total_grades P st);
          gpu = (if is_online then saturating_add 64 (online_gpu_num st) gpus
                 else saturating_sub (online_gpu_num st) gpus);
          st1 = st\<lparr>online_gpu_num := gpu, inflation := from_rational P PERBILL (min gpu 1000) 10000,
                   machine_total_calc_point :=
                     (if is_online then saturating_add 64 (machine_total_calc_point st) grade
                      else saturating_sub (machine_total_calc_point st) grade)\<rparr>;
          new_grade = unwrap_or_zero (total_grades P st1)
      in e\<lparr>points_total := saturating_sub (saturating_add 64 (points_total e) new_grade) pre_grade,
           staker_statistic := (if online_gpu_num st1 = 0 then (staker_statistic e)(stash := None)
                                else (staker_statistic e)(stash \<mapsto> st1))\<rparr>)"

definition grade_on_rent :: "perthing_ops \<Rightarrow> nat \<Rightarrow> nat" where
  "grade_on_rent P grade = pmul P PERBILL (from_rational P PERBILL 30 100) grade"

definition on_rent_changed ::
    "perthing_ops \<Rightarrow> account \<Rightarrow> nat \<Rightarrow> bool \<Rightarrow> era_stash_points \<Rightarrow> era_stash_points" where
  "on_rent_changed P stash grade rented e =
     (let st = statistic_or_default e stash;
          g = grade_on_rent P grade
      in e\<lparr>points_total :=
             (if rented then saturating_add 64 (points_total e) g else saturating_sub (points_total e) g),
           staker_statistic := (staker_statistic e)(stash \<mapsto> st\<lparr>rent_extra_grade :=
             (if rented then saturating_add 64 (rent_extra_grade st) g
              else saturating_sub (rent_extra_grade st) g)\<rparr>)\<rparr>)"

record machine_grade_status =
  basic_grade :: nat
  is_rented :: bool

definition machine_actual_grade :: "perthing_ops \<Rightarrow> nat \<Rightarrow> machine_grade_status \<Rightarrow> nat" where
  "machine_actual_grade P infl g =
     (let extra = (if is_rented g then grade_on_rent P (basic_grade g) else 0);
          inflation_extra = pmul P PERBILL infl (basic_grade g)
      in saturating_add 64 (saturating_add 64 (basic_grade g) extra) inflation_extra)"

section \<open>The grades of a fleet\<close>

text \<open>
  The specification: the machines that are online, as a multiset, and the grades computed from it. Every
  stash account with a machine has the sum of its machines' points, raised by the inflation of its number of
  GPUs, and 30 percent more for each rented machine.
\<close>

record graded_machine =
  gm_stash :: account
  gm_gpus :: nat
  gm_points :: nat
  gm_rented :: bool

definition fleet_sum :: "(graded_machine \<Rightarrow> nat) \<Rightarrow> account \<Rightarrow> graded_machine multiset \<Rightarrow> nat" where
  "fleet_sum f a M = (\<Sum>g\<in>#filter_mset (\<lambda>g. gm_stash g = a) M. f g)"

definition rent_points :: "perthing_ops \<Rightarrow> graded_machine \<Rightarrow> nat" where
  "rent_points P g = (if gm_rented g then grade_on_rent P (gm_points g) else 0)"

definition stat_of :: "perthing_ops \<Rightarrow> graded_machine multiset \<Rightarrow> account \<Rightarrow> stash_machine_statistics" where
  "stat_of P M a =
     \<lparr>online_gpu_num = fleet_sum gm_gpus a M,
      inflation = from_rational P PERBILL (min (fleet_sum gm_gpus a M) 1000) 10000,
      machine_total_calc_point = fleet_sum gm_points a M, rent_extra_grade = fleet_sum (rent_points P) a M\<rparr>"

definition grade_of :: "perthing_ops \<Rightarrow> graded_machine multiset \<Rightarrow> account \<Rightarrow> nat" where
  "grade_of P M a =
     pmul P PERBILL (inflation (stat_of P M a)) (fleet_sum gm_points a M) + fleet_sum gm_points a M +
     fleet_sum (rent_points P) a M"

definition points_of :: "perthing_ops \<Rightarrow> graded_machine multiset \<Rightarrow> era_stash_points" where
  "points_of P M =
     \<lparr>points_total = (\<Sum>a\<in>gm_stash ` set_mset M. grade_of P M a),
      staker_statistic = (\<lambda>a. if a \<in> gm_stash ` set_mset M then Some (stat_of P M a) else None)\<rparr>"

text \<open>All the sums fit in a \<open>u64\<close> twice over, and every machine has a GPU.\<close>

definition fleet_ok :: "perthing_ops \<Rightarrow> graded_machine multiset \<Rightarrow> bool" where
  "fleet_ok P M \<longleftrightarrow> 2 * points_total (points_of P M) < 2 ^ 64 \<and> (\<Sum>g\<in>#M. gm_gpus g) < 2 ^ 64 \<and>
     (\<forall>g\<in>#M. 0 < gm_gpus g)"

lemma fleet_sum_simps [simp]:
  "fleet_sum f a {#} = 0"
  "fleet_sum f a (add_mset g M) = (if gm_stash g = a then f g else 0) + fleet_sum f a M"
  by (simp_all add: fleet_sum_def)

lemma fleet_sum_none: "a \<notin> gm_stash ` set_mset M \<Longrightarrow> fleet_sum f a M = 0"
  by (induction M) auto

lemma fleet_sum_le: "fleet_sum f a M \<le> (\<Sum>g\<in>#M. f g)"
  by (induction M) auto

lemma fleet_gpus_pos:
  "\<forall>g\<in>#M. 0 < gm_gpus g \<Longrightarrow> fleet_sum gm_gpus a M = 0 \<longleftrightarrow> a \<notin> gm_stash ` set_mset M"
  by (induction M) auto

lemma fleet_okD:
  assumes "fleet_ok P M"
  shows "2 * points_total (points_of P M) < 2 ^ 64" "fleet_sum gm_gpus a M < 2 ^ 64"
    "fleet_sum gm_gpus a M = 0 \<longleftrightarrow> a \<notin> gm_stash ` set_mset M"
  using assms fleet_sum_le [of gm_gpus a M] fleet_gpus_pos [of M a] unfolding fleet_ok_def
  by (auto intro: le_less_trans)

context perthing
begin

lemma pmul_zero [simp]: "p \<le> PERBILL \<Longrightarrow> pmul P PERBILL p 0 = 0"
  using pmul_le [of PERBILL p 0] by (simp add: PERBILL_def)

lemma grade_of_none: "a \<notin> gm_stash ` set_mset M \<Longrightarrow> grade_of P M a = 0"
  by (simp add: grade_of_def fleet_sum_none stat_of_def from_rational_le)

lemma points_total_over:
  "finite S \<Longrightarrow> gm_stash ` set_mset M \<subseteq> S \<Longrightarrow> points_total (points_of P M) = (\<Sum>a\<in>S. grade_of P M a)"
  unfolding points_of_def by (simp, rule sum.mono_neutral_left) (auto intro: grade_of_none)

lemma grade_le_total: "grade_of P M a \<le> points_total (points_of P M)"
proof -
  let ?S = "insert a (gm_stash ` set_mset M)"
  have "grade_of P M a \<le> (\<Sum>a\<in>?S. grade_of P M a)" by (rule member_le_sum) auto
  then show ?thesis by (subst points_total_over [of ?S M]) auto
qed

text \<open>Fleets that differ in the machines of one stash account only.\<close>

lemma points_total_change:
  assumes "\<And>b. b \<noteq> a \<Longrightarrow> grade_of P M b = grade_of P N b"
    "gm_stash ` set_mset M \<subseteq> insert a (gm_stash ` set_mset N)"
  shows "points_total (points_of P M) + grade_of P N a = points_total (points_of P N) + grade_of P M a"
proof -
  let ?S = "insert a (gm_stash ` set_mset N)"
  have "points_total (points_of P M) = (\<Sum>b\<in>?S. grade_of P M b)" using assms(2) by (intro points_total_over) auto
  also have "\<dots> = grade_of P M a + (\<Sum>b\<in>?S - {a}. grade_of P M b)" by (rule sum.remove) auto
  also have "(\<Sum>b\<in>?S - {a}. grade_of P M b) = (\<Sum>b\<in>?S - {a}. grade_of P N b)"
    by (rule sum.cong) (auto simp: assms(1))
  finally have "points_total (points_of P M) = grade_of P M a + (\<Sum>b\<in>?S - {a}. grade_of P N b)" .
  moreover have "points_total (points_of P N) = (\<Sum>b\<in>?S. grade_of P N b)" by (intro points_total_over) auto
  moreover have "(\<Sum>b\<in>?S. grade_of P N b) = grade_of P N a + (\<Sum>b\<in>?S - {a}. grade_of P N b)"
    by (rule sum.remove) auto
  ultimately show ?thesis by simp
qed

lemma total_grades_stat: "grade_of P M a < 2 ^ 64 \<Longrightarrow> total_grades P (stat_of P M a) = Some (grade_of P M a)"
  unfolding total_grades_def grade_of_def by (auto simp: stat_of_def int_ops)

lemma statistic_points_of: "statistic_or_default (points_of P M) a = stat_of P M a"
  using from_rational_law [of 10000 PERBILL 0]
  by (auto simp: statistic_or_default_def points_of_def stat_of_def default_statistics_def fleet_sum_none PERBILL_def)

lemma fleet_grade_less: "fleet_ok P M \<Longrightarrow> grade_of P M a < 2 ^ 64"
  using grade_le_total [of M a] fleet_okD(1) [of P M] by linarith

lemmas fleet_grade = total_grades_stat [OF fleet_grade_less]

lemma stat_of_other: "gm_stash g \<noteq> a \<Longrightarrow> stat_of P (add_mset g M) a = stat_of P M a"
  by (simp add: stat_of_def)

lemma grade_of_other: "gm_stash g \<noteq> a \<Longrightarrow> grade_of P (add_mset g M) a = grade_of P M a"
  by (simp add: grade_of_def stat_of_other)

lemma fleet_points_less:
  assumes "fleet_ok P M"
  shows "fleet_sum gm_points a M < 2 ^ 64" "fleet_sum (rent_points P) a M < 2 ^ 64"
  using fleet_grade_less [OF assms, of a] by (auto simp: grade_of_def)

lemma fleet_total_change:
  assumes "\<And>b. b \<noteq> a \<Longrightarrow> grade_of P M b = grade_of P N b" "fleet_ok P M" "fleet_ok P N"
    "gm_stash ` set_mset M \<subseteq> insert a (gm_stash ` set_mset N)"
  shows "saturating_sub (saturating_add 64 (points_total (points_of P M)) (grade_of P N a)) (grade_of P M a) =
    points_total (points_of P N)"
proof -
  have "points_total (points_of P M) + grade_of P N a < 2 ^ 64"
    using grade_le_total [of N a] fleet_okD(1) [OF assms(2)] fleet_okD(1) [OF assms(3)] by linarith
  then show ?thesis using points_total_change [OF assms(1,4)]
    by (simp add: saturating_add_exact saturating_sub_def)
qed

lemma come_online:
  assumes "fleet_ok P M" "fleet_ok P (add_mset g M)" "\<not> gm_rented g"
  shows "on_online_changed P (gm_stash g) (gm_gpus g) (gm_points g) True (points_of P M) =
    points_of P (add_mset g M)"
proof -
  let ?a = "gm_stash g" and ?N = "add_mset g M"
  note e = statistic_points_of
  have n: "saturating_add 64 (online_gpu_num (stat_of P M ?a)) (gm_gpus g) = fleet_sum gm_gpus ?a ?N"
    "saturating_add 64 (machine_total_calc_point (stat_of P M ?a)) (gm_points g) = fleet_sum gm_points ?a ?N"
    using fleet_okD(2) [OF assms(2), of ?a] fleet_points_less [OF assms(2), of ?a]
    by (simp_all add: stat_of_def saturating_add_exact add.commute)
  have st: "(stat_of P M ?a)\<lparr>online_gpu_num := fleet_sum gm_gpus ?a ?N,
      inflation := from_rational P PERBILL (min (fleet_sum gm_gpus ?a ?N) 1000) 10000,
      machine_total_calc_point := fleet_sum gm_points ?a ?N\<rparr> = stat_of P ?N ?a"
    using assms(3) by (simp add: stat_of_def rent_points_def)
  have pos: "online_gpu_num (stat_of P ?N ?a) \<noteq> 0" using fleet_okD(3) [OF assms(2), of ?a] by (simp add: stat_of_def)
  have t: "saturating_sub (saturating_add 64 (points_total (points_of P M)) (grade_of P ?N ?a)) (grade_of P M ?a) =
      points_total (points_of P ?N)"
    by (rule fleet_total_change) (auto simp: grade_of_other assms(1,2))
  show ?thesis unfolding on_online_changed_def Let_def if_True e n st
    by (simp add: fleet_grade assms unwrap_or_zero_def t pos del: fleet_sum_simps)
      (auto simp: points_of_def fun_eq_iff stat_of_other)
qed

lemma go_offline:
  assumes "fleet_ok P M" "fleet_ok P (add_mset g M)" "\<not> gm_rented g"
  shows "on_online_changed P (gm_stash g) (gm_gpus g) (gm_points g) False (points_of P (add_mset g M)) =
    points_of P M"
proof -
  let ?a = "gm_stash g" and ?N = "add_mset g M"
  note e = statistic_points_of
  have n: "saturating_sub (online_gpu_num (stat_of P ?N ?a)) (gm_gpus g) = fleet_sum gm_gpus ?a M"
    "saturating_sub (machine_total_calc_point (stat_of P ?N ?a)) (gm_points g) = fleet_sum gm_points ?a M"
    by (simp_all add: stat_of_def saturating_sub_def)
  have st: "(stat_of P ?N ?a)\<lparr>online_gpu_num := fleet_sum gm_gpus ?a M,
      inflation := from_rational P PERBILL (min (fleet_sum gm_gpus ?a M) 1000) 10000,
      machine_total_calc_point := fleet_sum gm_points ?a M\<rparr> = stat_of P M ?a"
    using assms(3) by (simp add: stat_of_def rent_points_def)
  have pos: "online_gpu_num (stat_of P M ?a) = 0 \<longleftrightarrow> ?a \<notin> gm_stash ` set_mset M"
    using fleet_okD(3) [OF assms(1), of ?a] by (simp add: stat_of_def)
  have t: "saturating_sub (saturating_add 64 (points_total (points_of P ?N)) (grade_of P M ?a)) (grade_of P ?N ?a) =
      points_total (points_of P M)"
    by (rule fleet_total_change) (auto simp: grade_of_other assms(1,2))
  show ?thesis unfolding on_online_changed_def Let_def if_False e n st
    by (simp add: fleet_grade assms unwrap_or_zero_def t pos del: fleet_sum_simps)
      (auto simp: points_of_def fun_eq_iff stat_of_other)
qed

lemma rent_changed:
  assumes "fleet_ok P (add_mset g M)" "fleet_ok P (add_mset (g\<lparr>gm_rented := b\<rparr>) M)" "gm_rented g = (\<not> b)"
  shows "on_rent_changed P (gm_stash g) (gm_points g) b (points_of P (add_mset g M)) =
    points_of P (add_mset (g\<lparr>gm_rented := b\<rparr>) M)"
proof -
  let ?a = "gm_stash g" and ?M = "add_mset g M" and ?N = "add_mset (g\<lparr>gm_rented := b\<rparr>) M"
  let ?x = "grade_on_rent P (gm_points g)"
  note e = statistic_points_of
  have gr: "if b then grade_of P ?N ?a = grade_of P ?M ?a + ?x else grade_of P ?M ?a = grade_of P ?N ?a + ?x"
    using assms(3) by (auto simp: grade_of_def stat_of_def rent_points_def)
  have r: "if b then fleet_sum (rent_points P) ?a ?N = fleet_sum (rent_points P) ?a ?M + ?x
      else fleet_sum (rent_points P) ?a ?M = fleet_sum (rent_points P) ?a ?N + ?x"
    using assms(3) by (auto simp: rent_points_def)
  have t: "points_total (points_of P ?M) + grade_of P ?N ?a = points_total (points_of P ?N) + grade_of P ?M ?a"
    by (rule points_total_change) (auto simp: grade_of_other)
  have total: "(if b then saturating_add 64 (points_total (points_of P ?M)) ?x
      else saturating_sub (points_total (points_of P ?M)) ?x) = points_total (points_of P ?N)"
    using t gr fleet_okD(1) [OF assms(2)] by (auto simp: saturating_add_exact saturating_sub_def split: if_splits)
  have extra: "(if b then saturating_add 64 (rent_extra_grade (stat_of P ?M ?a)) ?x
      else saturating_sub (rent_extra_grade (stat_of P ?M ?a)) ?x) = fleet_sum (rent_points P) ?a ?N"
    using r fleet_points_less(2) [OF assms(2), of ?a]
    by (cases b) (simp_all add: stat_of_def saturating_add_exact saturating_sub_def)
  have st: "(stat_of P ?M ?a)\<lparr>rent_extra_grade := fleet_sum (rent_points P) ?a ?N\<rparr> = stat_of P ?N ?a"
    by (simp add: stat_of_def)
  show ?thesis unfolding on_rent_changed_def Let_def e total extra st
    by (auto simp: points_of_def fun_eq_iff stat_of_other)
qed

end

text \<open>
  C5: The incremental grades are the specified ones. For every implementation of the fixed-point fractions
  that meets its documentation, and every fleet whose sums fit: updating the points of an era for a machine
  that comes online, goes offline, is rented or is given back yields exactly the points computed from scratch
  from the new fleet: the total, every account's statistics, and which accounts have any.
\<close>

theorem og_grades_refine:
  assumes "perthing P" "\<not> gm_rented g" "fleet_ok P M" "fleet_ok P (add_mset g M)"
    "fleet_ok P (add_mset (g\<lparr>gm_rented := True\<rparr>) M)"
  shows "on_online_changed P (gm_stash g) (gm_gpus g) (gm_points g) True (points_of P M) =
      points_of P (add_mset g M) \<and>
    on_online_changed P (gm_stash g) (gm_gpus g) (gm_points g) False (points_of P (add_mset g M)) =
      points_of P M \<and>
    on_rent_changed P (gm_stash g) (gm_points g) True (points_of P (add_mset g M)) =
      points_of P (add_mset (g\<lparr>gm_rented := True\<rparr>) M) \<and>
    on_rent_changed P (gm_stash g) (gm_points g) False (points_of P (add_mset (g\<lparr>gm_rented := True\<rparr>) M)) =
      points_of P (add_mset g M)"
proof -
  have g: "g\<lparr>gm_rented := True\<rparr>\<lparr>gm_rented := False\<rparr> = g" using assms(2) by simp
  show ?thesis
    using perthing.come_online [OF assms(1,3,4,2)] perthing.go_offline [OF assms(1,3,4,2)]
      perthing.rent_changed [OF assms(1,4,5)] assms(2)
      perthing.rent_changed [OF assms(1,5), of False, unfolded g] assms(4) by simp
qed

theorem og_grades_refine_witness:
  "on_online_changed perthing_ops_ref 4 8 1000 True
     (points_of perthing_ops_ref {#\<lparr>gm_stash = 4, gm_gpus = 2, gm_points = 300, gm_rented = True\<rparr>#}) =
   points_of perthing_ops_ref
     {#\<lparr>gm_stash = 4, gm_gpus = 8, gm_points = 1000, gm_rented = False\<rparr>,
       \<lparr>gm_stash = 4, gm_gpus = 2, gm_points = 300, gm_rented = True\<rparr>#} \<and>
   points_total (points_of perthing_ops_ref
     {#\<lparr>gm_stash = 4, gm_gpus = 8, gm_points = 1000, gm_rented = False\<rparr>,
       \<lparr>gm_stash = 4, gm_gpus = 2, gm_points = 300, gm_rented = True\<rparr>#}) = 1391"
proof -
  let ?g = "\<lparr>gm_stash = 4, gm_gpus = 8, gm_points = 1000, gm_rented = False\<rparr>"
  let ?M = "{#\<lparr>gm_stash = 4, gm_gpus = 2, gm_points = 300, gm_rented = True\<rparr>#}"
  note d = fleet_ok_def points_of_def grade_of_def stat_of_def rent_points_def grade_on_rent_def
    perthing_ops_ref_sel PERBILL_def
  have ok: "fleet_ok perthing_ops_ref ?M" "fleet_ok perthing_ops_ref (add_mset ?g ?M)"
    "fleet_ok perthing_ops_ref (add_mset (?g\<lparr>gm_rented := True\<rparr>) ?M)"
    by (simp_all add: d)
  show ?thesis using og_grades_refine [OF perthing_ref.perthing_axioms _ ok] by (simp add: d)
qed

text \<open>The window of recent rewards holds at most 150 of them, and its sum is kept exactly.\<close>

lemma add_new_reward_sum:
  assumes "recent_reward_sum i = sum_list (recent_machine_reward i)" "length (recent_machine_reward i) \<le> 150"
    "recent_reward_sum i + amount < 2 ^ 128"
  shows "recent_reward_sum (add_new_reward amount i) = sum_list (recent_machine_reward (add_new_reward amount i))"
    "length (recent_machine_reward (add_new_reward amount i)) \<le> 150"
proof -
  let ?rs = "recent_machine_reward i"
  have e: "saturating_add 128 (recent_reward_sum i) amount = sum_list ?rs + amount"
    using assms(1,3) by (simp only: saturating_add_exact)
  show "recent_reward_sum (add_new_reward amount i) = sum_list (recent_machine_reward (add_new_reward amount i))"
    by (cases ?rs) (auto simp: add_new_reward_def e saturating_sub_def Let_def)
  show "length (recent_machine_reward (add_new_reward amount i)) \<le> 150"
    using assms(2) by (simp add: add_new_reward_def Let_def)
qed

end
