(* ===== verification/Generic_Func.thy ===== *)
theory Generic_Func
  imports Escrow
begin

text \<open>
  The pallet \<open>pallets/generic-func/src\<close>: the fixed transaction fee, burning DBC, the nonce behind the
  pallet's random numbers, and the \<open>GNOps\<close> trait (\<open>traits.rs\<close>) through which other pallets slash
  reserved balances and share the slash among reporters and committees. The locale \<open>generic_func\<close> is what
  its clients rely on.
\<close>

section \<open>State and parameters\<close>

text \<open>
  Operations of \<open>Currency\<close> that only this pallet uses, the handlers \<open>FixedTxFee\<close> and \<open>Slash\<close> of a
  withdrawn amount (the treasury in the runtime), \<open>RandomnessSource\<close> and the random number generator.
\<close>

datatype gf_error = BadOrigin | FreeBalanceNotEnough | UnknownFixedTxFee

datatype gf_event =
    DonateToTreasury account balance
  | TxFeeToTreasury account balance
  | DestroyDBC account balance

record 'w gf_config =
  gf_Currency :: "'w currency_ops"
  gf_Perthing :: perthing_ops
  gf_can_slash :: "'w \<Rightarrow> account \<Rightarrow> balance \<Rightarrow> bool"
  gf_slash :: "account \<Rightarrow> balance \<Rightarrow> 'w \<Rightarrow> 'w \<times> balance"
  gf_make_free_balance_be :: "account \<Rightarrow> balance \<Rightarrow> 'w \<Rightarrow> 'w"
  gf_burn :: "balance \<Rightarrow> 'w \<Rightarrow> 'w"
  gf_FixedTxFee :: "balance \<Rightarrow> 'w \<Rightarrow> 'w"
  gf_Slash :: "balance \<Rightarrow> 'w \<Rightarrow> 'w"
  gf_random :: "'w \<Rightarrow> bytes \<Rightarrow> nat"
  gf_next_u32 :: "nat \<Rightarrow> nat"

record 'w gf_state =
  gf_world :: 'w
  RandNonce :: nat
  FixedTxFee :: "balance option"
  DestroyHook :: "(account \<times> block_number) option"
  TotalDestroy :: "account \<Rightarrow> balance"
  gf_events :: "gf_event list"

definition gf_deposit_event :: "gf_event \<Rightarrow> 'w gf_state \<Rightarrow> 'w gf_state" where
  "gf_deposit_event e s = s\<lparr>gf_events := gf_events s @ [e]\<rparr>"

section \<open>Random numbers\<close>

definition update_nonce :: "'w gf_state \<Rightarrow> bytes \<times> 'w gf_state" where
  "update_nonce s =
     (let nonce = RandNonce s;
          nonce = (if nonce = 2 ^ 64 - 1 then 0 else nonce + 1)
      in (le_bytes 8 nonce, s\<lparr>RandNonce := nonce\<rparr>))"

text \<open>The remainder by zero panics: \<open>None\<close>.\<close>

definition pick_u32 :: "nat \<Rightarrow> nat \<Rightarrow> nat option" where
  "pick_u32 r bound = (if bound = 0 then None else Some (r mod bound))"

definition random_u32 :: "'w gf_config \<Rightarrow> nat \<Rightarrow> 'w gf_state \<Rightarrow> (nat \<times> 'w gf_state) option" where
  "random_u32 T bound s =
     (let (subject, s1) = update_nonce s;
          random_seed = gf_random T (gf_world s1) subject
      in map_option (\<lambda>r. (r, s1)) (pick_u32 (gf_next_u32 T random_seed) bound))"

definition random_server_room :: "'w gf_config \<Rightarrow> 'w gf_state \<Rightarrow> nat \<times> 'w gf_state" where
  "random_server_room T s = (let (subject, s1) = update_nonce s in (gf_random T (gf_world s1) subject, s1))"

section \<open>Fees and burning\<close>

definition slash_to_fee :: "'w gf_config \<Rightarrow> account \<Rightarrow> balance \<Rightarrow> 'w gf_state \<Rightarrow> 'w gf_state" where
  "slash_to_fee T who v s =
     (let (w, imbalance) = gf_slash T who v (gf_world s) in s\<lparr>gf_world := gf_FixedTxFee T imbalance w\<rparr>)"

definition pay_fixed_tx_fee :: "'w gf_config \<Rightarrow> account \<Rightarrow> 'w gf_state \<Rightarrow> 'w gf_state option" where
  "pay_fixed_tx_fee T who s =
     (case FixedTxFee s of
        None \<Rightarrow> None
      | Some fixed_tx_fee \<Rightarrow>
          if \<not> gf_can_slash T (gf_world s) who fixed_tx_fee then None
          else Some (gf_deposit_event (TxFeeToTreasury who fixed_tx_fee) (slash_to_fee T who fixed_tx_fee s)))"

definition do_destroy_dbc ::
    "'w gf_config \<Rightarrow> account \<Rightarrow> balance \<Rightarrow> 'w gf_state \<Rightarrow> gf_error + 'w gf_state" where
  "do_destroy_dbc T who burn_amount s =
     (let free = free_balance (gf_Currency T) (gf_world s) who in
      case FixedTxFee s of
        None \<Rightarrow> Inl UnknownFixedTxFee
      | Some fixed_tx_fee \<Rightarrow>
          if free \<le> fixed_tx_fee then Inr s
          else let max_burn_amount = saturating_sub free fixed_tx_fee;
                   burn_amount = (if burn_amount < max_burn_amount then burn_amount else max_burn_amount);
                   w = gf_make_free_balance_be T who (saturating_sub free burn_amount) (gf_world s)
               in Inr (gf_deposit_event (DestroyDBC who burn_amount)
                    (s\<lparr>gf_world := gf_burn T burn_amount w,
                       TotalDestroy := (TotalDestroy s)
                         (who := saturating_add 128 (TotalDestroy s who) burn_amount)\<rparr>)))"

definition auto_destroy :: "'w gf_config \<Rightarrow> account \<Rightarrow> 'w gf_state \<Rightarrow> 'w gf_state" where
  "auto_destroy T who s =
     (case do_destroy_dbc T who (free_balance (gf_Currency T) (gf_world s) who) s of
        Inl e \<Rightarrow> s
      | Inr s' \<Rightarrow> s')"

definition gf_on_initialize :: "'w gf_config \<Rightarrow> block_number \<Rightarrow> 'w gf_state \<Rightarrow> 'w gf_state" where
  "gf_on_initialize T block_number s =
     (case DestroyHook s of
        None \<Rightarrow> s
      | Some (who, frequency) \<Rightarrow>
          if frequency = 0 then s
          else if block_number mod frequency = 0 then auto_destroy T who s else s)"

section \<open>Dispatchables\<close>

definition set_fixed_tx_fee :: "origin \<Rightarrow> balance \<Rightarrow> 'w gf_state \<Rightarrow> gf_error + 'w gf_state" where
  "set_fixed_tx_fee orig tx_fee s =
     (if \<not> ensure_root orig then Inl BadOrigin else Inr (s\<lparr>FixedTxFee := Some tx_fee\<rparr>))"

definition deposit_into_treasury ::
    "'w gf_config \<Rightarrow> origin \<Rightarrow> balance \<Rightarrow> 'w gf_state \<Rightarrow> gf_error + 'w gf_state" where
  "deposit_into_treasury T orig amount s =
     (case ensure_signed orig of
        None \<Rightarrow> Inl BadOrigin
      | Some who \<Rightarrow>
          if \<not> gf_can_slash T (gf_world s) who amount then Inl FreeBalanceNotEnough
          else Inr (gf_deposit_event (DonateToTreasury who amount) (slash_to_fee T who amount s)))"

definition set_auto_destroy ::
    "origin \<Rightarrow> account \<Rightarrow> block_number \<Rightarrow> 'w gf_state \<Rightarrow> gf_error + 'w gf_state" where
  "set_auto_destroy orig who frequency s =
     (if \<not> ensure_root orig then Inl BadOrigin
      else if frequency = 0 then Inr (s\<lparr>DestroyHook := None\<rparr>)
      else Inr (s\<lparr>DestroyHook := Some (who, frequency)\<rparr>))"

definition destroy_free_dbc ::
    "'w gf_config \<Rightarrow> origin \<Rightarrow> balance \<Rightarrow> 'w gf_state \<Rightarrow> gf_error + 'w gf_state" where
  "destroy_free_dbc T orig amount s =
     (case ensure_signed orig of None \<Rightarrow> Inl BadOrigin | Some who \<Rightarrow> do_destroy_dbc T who amount s)"

definition force_destroy_free_dbc ::
    "'w gf_config \<Rightarrow> origin \<Rightarrow> account \<Rightarrow> balance \<Rightarrow> 'w gf_state \<Rightarrow> gf_error + 'w gf_state" where
  "force_destroy_free_dbc T orig who amount s =
     (if \<not> ensure_root orig then Inl BadOrigin else do_destroy_dbc T who amount s)"

section \<open>\<open>GNOps\<close>\<close>

text \<open>
  A failed repatriation is ignored. The functions return the
  world and whether the Rust function returns \<open>Ok\<close>.
\<close>

definition repatriate_ignored :: "'w currency_ops \<Rightarrow> account \<Rightarrow> account \<Rightarrow> balance \<Rightarrow> 'w \<Rightarrow> 'w" where
  "repatriate_ignored C a b v w =
     (case repatriate_reserved C a b v w of None \<Rightarrow> w | Some (w', _) \<Rightarrow> w')"

fun reward_loop ::
    "'w currency_ops \<Rightarrow> account \<Rightarrow> balance \<Rightarrow> account list \<Rightarrow> balance \<Rightarrow> 'w \<Rightarrow> 'w \<times> balance option" where
  "reward_loop C a reward_each_get [] left_reward w = (w, Some left_reward)"
| "reward_loop C a reward_each_get (c # cs) left_reward w =
     (if left_reward \<le> reserved_balance C w a
      then if reward_each_get \<le> left_reward
        then let w1 = repatriate_ignored C a c reward_each_get w in
          case checked_sub left_reward reward_each_get of
            None \<Rightarrow> (w1, None)
          | Some l \<Rightarrow> reward_loop C a reward_each_get cs l w1
        else reward_loop C a reward_each_get cs 0 (repatriate_ignored C a c left_reward w)
      else reward_loop C a reward_each_get cs left_reward w)"

definition slash_to_treasury :: "'w gf_config \<Rightarrow> account \<Rightarrow> balance \<Rightarrow> 'w \<Rightarrow> 'w" where
  "slash_to_treasury T a v w =
     (let (w1, missing) = slash_reserved (gf_Currency T) a v w in gf_Slash T (v - missing) w1)"

fun slash_all_to_treasury :: "'w gf_config \<Rightarrow> account list \<Rightarrow> balance \<Rightarrow> 'w \<Rightarrow> 'w" where
  "slash_all_to_treasury T [] each_slash w = w"
| "slash_all_to_treasury T (a # as) each_slash w =
     slash_all_to_treasury T as each_slash
       (if each_slash \<le> reserved_balance (gf_Currency T) w a then slash_to_treasury T a each_slash w else w)"

fun slash_all_and_reward :: "'w gf_config \<Rightarrow> account list \<Rightarrow> balance \<Rightarrow> account list \<Rightarrow> 'w \<Rightarrow> 'w \<times> bool" where
  "slash_all_and_reward T [] each_slash reward_who w = (w, True)"
| "slash_all_and_reward T (a # as) each_slash reward_who w =
     (let reward_each_get =
            pmul (gf_Perthing T) PERBILL (from_rational (gf_Perthing T) PERBILL 1 (length reward_who)) each_slash
      in case reward_loop (gf_Currency T) a reward_each_get reward_who each_slash w of
           (w1, None) \<Rightarrow> (w1, False)
         | (w1, Some left_reward) \<Rightarrow>
             slash_all_and_reward T as each_slash reward_who
               (if 0 < left_reward then slash_to_treasury T a left_reward w1 else w1))"

definition slash_and_reward ::
    "'w gf_config \<Rightarrow> account list \<Rightarrow> balance \<Rightarrow> account list \<Rightarrow> 'w \<Rightarrow> 'w \<times> bool" where
  "slash_and_reward T slash_who each_slash reward_who w =
     (if slash_who = [] \<or> each_slash = 0 then (w, True)
      else if reward_who = [] then (slash_all_to_treasury T slash_who each_slash w, True)
      else slash_all_and_reward T slash_who each_slash reward_who w)"

text \<open>The same on the pallet's own state.\<close>

definition gf_slash_and_reward ::
    "'w gf_config \<Rightarrow> account list \<Rightarrow> balance \<Rightarrow> account list \<Rightarrow> 'w gf_state \<Rightarrow> 'w gf_state \<times> bool" where
  "gf_slash_and_reward T slash_who each_slash reward_who s =
     (let (w, ok) = slash_and_reward T slash_who each_slash reward_who (gf_world s) in (s\<lparr>gf_world := w\<rparr>, ok))"

datatype gf_call =
    SetFixedTxFee balance
  | DepositIntoTreasury balance
  | SetAutoDestroy account block_number
  | DestroyFreeDbc balance
  | ForceDestroyFreeDbc account balance

fun gf_dispatch :: "'w gf_config \<Rightarrow> origin \<Rightarrow> gf_call \<Rightarrow> 'w gf_state \<Rightarrow> gf_error + 'w gf_state" where
  "gf_dispatch T orig (SetFixedTxFee v) s = set_fixed_tx_fee orig v s"
| "gf_dispatch T orig (DepositIntoTreasury v) s = deposit_into_treasury T orig v s"
| "gf_dispatch T orig (SetAutoDestroy a n) s = set_auto_destroy orig a n s"
| "gf_dispatch T orig (DestroyFreeDbc v) s = destroy_free_dbc T orig v s"
| "gf_dispatch T orig (ForceDestroyFreeDbc a v) s = force_destroy_free_dbc T orig a v s"

section \<open>What its clients rely on\<close>

text \<open>
  A client pallet sees three operations on its world: paying the fee never touches a reserved balance,
  nor does drawing a server room id, and a slash lowers the reserves of the listed accounts only, each by
  at most the amount per occurrence in the list.
\<close>

locale generic_func =
  fixes C :: "'w currency_ops" and pay :: "account \<Rightarrow> 'w \<Rightarrow> 'w option" and room :: "'w \<Rightarrow> nat \<times> 'w"
    and slash_reward :: "account list \<Rightarrow> balance \<Rightarrow> account list \<Rightarrow> 'w \<Rightarrow> 'w \<times> bool"
  assumes pay_reserved: "pay a w = Some w' \<Longrightarrow> reserved_balance C w' = reserved_balance C w"
    and room_reserved: "reserved_balance C (snd (room w)) = reserved_balance C w"
    and slash_reward_upper: "reserved_balance C (fst (slash_reward as v rs w)) b \<le> reserved_balance C w b"
    and slash_reward_lower: "reserved_balance C w b \<le>
      reserved_balance C (fst (slash_reward as v rs w)) b + count_list as b * v"
begin

lemma slash_reward_others:
  "b \<notin> set as \<Longrightarrow> reserved_balance C (fst (slash_reward as v rs w)) b = reserved_balance C w b"
  using slash_reward_upper [of as v rs w b] slash_reward_lower [of w b as v rs]
  by (simp add: count_list_0_iff)

end

text \<open>
  The documented behaviour of what the pallet itself uses: \<open>can_slash\<close> asks whether the free balance
  covers the amount, \<open>slash\<close> then takes at most the amount out of it, \<open>make_free_balance_be\<close> sets the
  free balance, \<open>burn\<close> only lowers the total issuance, and the two handlers put what they get into the
  account \<open>tr\<close> of the treasury.
\<close>

locale gf_host = reservable_currency "gf_Currency T" + perthing "gf_Perthing T"
  for T :: "'w gf_config" +
  fixes tr :: account
  assumes can_slash_law: "gf_can_slash T w a v \<longleftrightarrow> v \<le> free_balance (gf_Currency T) w a"
    and slash_law: "gf_slash T a v w = (w', u) \<Longrightarrow> v \<le> free_balance (gf_Currency T) w a \<Longrightarrow>
      u \<le> v \<and> reserved_balance (gf_Currency T) w' = reserved_balance (gf_Currency T) w \<and>
      free_balance (gf_Currency T) w' =
        (free_balance (gf_Currency T) w)(a := free_balance (gf_Currency T) w a - u)"
    and make_free_law:
      "reserved_balance (gf_Currency T) (gf_make_free_balance_be T a v w) = reserved_balance (gf_Currency T) w \<and>
       free_balance (gf_Currency T) (gf_make_free_balance_be T a v w) = (free_balance (gf_Currency T) w)(a := v)"
    and burn_law: "reserved_balance (gf_Currency T) (gf_burn T v w) = reserved_balance (gf_Currency T) w \<and>
      free_balance (gf_Currency T) (gf_burn T v w) = free_balance (gf_Currency T) w"
    and fee_handler_law:
      "reserved_balance (gf_Currency T) (gf_FixedTxFee T v w) = reserved_balance (gf_Currency T) w \<and>
       free_balance (gf_Currency T) (gf_FixedTxFee T v w) =
         (free_balance (gf_Currency T) w)(tr := free_balance (gf_Currency T) w tr + v)"
    and slash_handler_law:
      "reserved_balance (gf_Currency T) (gf_Slash T v w) = reserved_balance (gf_Currency T) w \<and>
       free_balance (gf_Currency T) (gf_Slash T v w) =
         (free_balance (gf_Currency T) w)(tr := free_balance (gf_Currency T) w tr + v)"
begin

abbreviation "res \<equiv> reserved_balance (gf_Currency T)"
abbreviation "fre \<equiv> free_balance (gf_Currency T)"

lemma repatriate_ignored_res:
  "res (repatriate_ignored (gf_Currency T) a c v w) b \<le> res w b \<and>
   res w b \<le> res (repatriate_ignored (gf_Currency T) a c v w) b + (if b = a then v else 0)"
  by (auto simp: repatriate_ignored_def repatriate_reserved_reserved split: option.split)

lemma reward_loop_res:
  assumes "reward_loop (gf_Currency T) a e cs l w = (w', r)"
  shows "res w' b \<le> res w b \<and> (b \<noteq> a \<longrightarrow> res w' b = res w b) \<and>
    (case r of None \<Rightarrow> res w b \<le> res w' b + l | Some l' \<Rightarrow> l' \<le> l \<and> res w b + l' \<le> res w' b + l)"
  using assms
proof (induction cs arbitrary: l w)
  case Nil
  then show ?case by auto
next
  case (Cons c cs)
  let ?x = "min e l" and ?w1 = "repatriate_ignored (gf_Currency T) a c (min e l) w"
  show ?case
  proof (cases "l \<le> res w a")
    case True
    then have "reward_loop (gf_Currency T) a e cs (l - ?x) ?w1 = (w', r)"
      using Cons.prems by (auto simp: int_ops min_def split: if_splits)
    from Cons.IH [OF this] repatriate_ignored_res [of a c ?x w b] show ?thesis
      by (cases "b = a") (auto split: option.splits)
  next
    case False
    then show ?thesis using Cons.IH [of l w] Cons.prems by simp
  qed
qed

lemma slash_to_treasury_res:
  "res (slash_to_treasury T a v w) b = res w b - (if b = a then v else 0)"
  by (cases "slash_reserved (gf_Currency T) a v w")
    (use slash_reserved_reserved [of a v w b] in \<open>simp add: slash_to_treasury_def slash_handler_law\<close>)

lemma slash_all_to_treasury_res:
  "res (slash_all_to_treasury T as v w) b \<le> res w b \<and>
   res w b \<le> res (slash_all_to_treasury T as v w) b + count_list as b * v"
proof (induction as arbitrary: w)
  case Nil
  then show ?case by simp
next
  case (Cons a as)
  let ?w1 = "if v \<le> res w a then slash_to_treasury T a v w else w"
  have "res ?w1 b \<le> res w b \<and> res w b \<le> res ?w1 b + (if a = b then v else 0)"
    by (simp add: slash_to_treasury_res)
  with Cons.IH [of ?w1] show ?case by (cases "a = b") auto
qed

lemma slash_all_and_reward_res:
  "res (fst (slash_all_and_reward T as v rs w)) b \<le> res w b \<and>
   res w b \<le> res (fst (slash_all_and_reward T as v rs w)) b + count_list as b * v"
proof (induction as arbitrary: w)
  case Nil
  then show ?case by simp
next
  case (Cons a as)
  let ?e = "pmul (gf_Perthing T) PERBILL (from_rational (gf_Perthing T) PERBILL 1 (length rs)) v"
  obtain w1 r where l: "reward_loop (gf_Currency T) a ?e rs v w = (w1, r)" by force
  note lr = reward_loop_res [OF l, of b]
  show ?case
  proof (cases r)
    case None
    then show ?thesis using l lr by (cases "a = b") auto
  next
    case (Some left)
    let ?w2 = "if 0 < left then slash_to_treasury T a left w1 else w1"
    have "res ?w2 b \<le> res w b \<and> res w b \<le> res ?w2 b + (if a = b then v else 0)"
      using lr Some by (auto simp: slash_to_treasury_res)
    with Cons.IH [of ?w2] Some l show ?thesis by (cases "a = b") auto
  qed
qed

lemma slash_and_reward_res:
  "res (fst (slash_and_reward T as v rs w)) b \<le> res w b \<and>
   res w b \<le> res (fst (slash_and_reward T as v rs w)) b + count_list as b * v"
  by (simp add: slash_and_reward_def slash_all_to_treasury_res slash_all_and_reward_res)

lemma slash_to_fee_res:
  "v \<le> fre (gf_world s) a \<Longrightarrow> res (gf_world (slash_to_fee T a v s)) = res (gf_world s)"
  by (auto simp: slash_to_fee_def fee_handler_law slash_law split: prod.split)

end

sublocale gf_host \<subseteq> generic_func "lift_currency gf_world (\<lambda>w. gf_world_update (\<lambda>_. w)) (gf_Currency T)"
  "pay_fixed_tx_fee T" "random_server_room T" "gf_slash_and_reward T"
proof unfold_locales
  fix a :: account and s s' :: "'w gf_state" and as rs :: "account list" and v b :: nat
  show "pay_fixed_tx_fee T a s = Some s' \<Longrightarrow>
    reserved_balance (lift_currency gf_world (\<lambda>w. gf_world_update (\<lambda>_. w)) (gf_Currency T)) s' =
    reserved_balance (lift_currency gf_world (\<lambda>w. gf_world_update (\<lambda>_. w)) (gf_Currency T)) s"
    by (auto simp: pay_fixed_tx_fee_def gf_deposit_event_def can_slash_law slash_to_fee_res
        split: option.splits if_splits)
qed (use slash_and_reward_res in \<open>auto simp: random_server_room_def update_nonce_def gf_slash_and_reward_def
    Let_def split_beta\<close>)

section \<open>Over the ledger\<close>

definition ledger_take :: "account \<Rightarrow> balance \<Rightarrow> ledger \<Rightarrow> ledger \<times> balance" where
  "ledger_take a v l =
     (let u = min v (ledger_free l a) in (l\<lparr>ledger_free := (ledger_free l)(a := ledger_free l a - u)\<rparr>, u))"

text \<open>Account 99 is the treasury.\<close>

definition gf_ledger :: "ledger gf_config" where
  "gf_ledger =
     \<lparr>gf_Currency = ledger_ops, gf_Perthing = perthing_ops_ref,
      gf_can_slash = (\<lambda>l a v. v \<le> ledger_free l a), gf_slash = ledger_take,
      gf_make_free_balance_be = (\<lambda>a v l. l\<lparr>ledger_free := (ledger_free l)(a := v)\<rparr>),
      gf_burn = (\<lambda>v l. l), gf_FixedTxFee = ledger_deposit 99, gf_Slash = ledger_deposit 99,
      gf_random = (\<lambda>l subject. length subject), gf_next_u32 = (\<lambda>seed. seed)\<rparr>"

lemma gf_ledger_sel:
  "gf_Currency gf_ledger = ledger_ops" "gf_Perthing gf_ledger = perthing_ops_ref"
  "gf_can_slash gf_ledger l a v \<longleftrightarrow> v \<le> ledger_free l a" "gf_slash gf_ledger = ledger_take"
  "gf_make_free_balance_be gf_ledger a v l = l\<lparr>ledger_free := (ledger_free l)(a := v)\<rparr>"
  "gf_burn gf_ledger v l = l" "gf_FixedTxFee gf_ledger = ledger_deposit 99" "gf_Slash gf_ledger = ledger_deposit 99"
  by (simp_all add: gf_ledger_def)

interpretation gfl: gf_host gf_ledger 99
proof (intro gf_host.intro gf_host_axioms.intro)
  show "reservable_currency (gf_Currency gf_ledger)"
    by (simp add: gf_ledger_sel ledger.reservable_currency_axioms)
  show "perthing (gf_Perthing gf_ledger)" by (simp add: gf_ledger_sel perthing_ref.perthing_axioms)
qed (auto simp: gf_ledger_sel ledger_ops_sel ledger_take_def ledger_deposit_def Let_def)

section \<open>Where a slash goes\<close>

text \<open>
  The specification of the shares: everyone rewarded gets \<open>e\<close> in turn as long as it lasts.
\<close>

fun reward_shares :: "balance \<Rightarrow> account list \<Rightarrow> balance \<Rightarrow> (account \<times> balance) list" where
  "reward_shares e [] v = []"
| "reward_shares e (c # cs) v = (c, min e v) # reward_shares e cs (v - min e v)"

definition received :: "account \<Rightarrow> (account \<times> balance) list \<Rightarrow> balance" where
  "received c ps = sum_list (map snd (filter (\<lambda>p. fst p = c) ps))"

definition paid_out :: "(account \<times> balance) list \<Rightarrow> balance" where
  "paid_out ps = sum_list (map snd ps)"

lemma received_simps [simp]:
  "received c [] = 0" "received c ((a, x) # ps) = (if a = c then x else 0) + received c ps"
  "paid_out [] = 0" "paid_out ((a, x) # ps) = x + paid_out ps"
  by (simp_all add: received_def paid_out_def)

lemma paid_out_le: "paid_out (reward_shares e cs v) \<le> v"
proof (induction cs arbitrary: v)
  case (Cons c cs)
  from Cons.IH [of "v - min e v"] show ?case by simp
qed simp

context gf_host
begin

lemma repatriate_ignored_all:
  assumes "repatriate_reserved (gf_Currency T) a c v w \<noteq> None" "v \<le> res w a"
  shows "res (repatriate_ignored (gf_Currency T) a c v w) = (res w)(a := res w a - v)"
    "fre (repatriate_ignored (gf_Currency T) a c v w) = (fre w)(c := fre w c + v)"
  using assms by (auto simp: repatriate_ignored_def repatriate_reserved_reserved repatriate_reserved_free
      fun_eq_iff split: option.splits)

lemma reward_loop_all:
  assumes ok: "\<And>c u w. repatriate_reserved (gf_Currency T) a c u w \<noteq> None" and "l \<le> res w a"
  shows "\<exists>w'. reward_loop (gf_Currency T) a e cs l w = (w', Some (l - paid_out (reward_shares e cs l))) \<and>
    res w' = (res w)(a := res w a - paid_out (reward_shares e cs l)) \<and>
    (\<forall>c. fre w' c = fre w c + received c (reward_shares e cs l))"
  using assms(2)
proof (induction cs arbitrary: l w)
  case Nil
  then show ?case by simp
next
  case (Cons c cs)
  let ?x = "min e l" and ?w1 = "repatriate_ignored (gf_Currency T) a c (min e l) w"
  let ?ps = "reward_shares e cs (l - min e l)"
  have st: "reward_loop (gf_Currency T) a e (c # cs) l w = reward_loop (gf_Currency T) a e cs (l - ?x) ?w1"
    using Cons.prems by (auto simp: int_ops min_def)
  have x: "?x \<le> res w a" using Cons.prems by simp
  note w1 = repatriate_ignored_all [OF ok x, of c]
  have "l - ?x \<le> res ?w1 a" using Cons.prems by (simp add: w1)
  from Cons.IH [OF this] obtain w' where
    "reward_loop (gf_Currency T) a e cs (l - ?x) ?w1 = (w', Some (l - ?x - paid_out ?ps))"
    "res w' = (res ?w1)(a := res ?w1 a - paid_out ?ps)" "\<forall>c. fre w' c = fre ?w1 c + received c ?ps"
    by blast
  then show ?case unfolding st reward_shares.simps received_simps
    by (intro exI [of _ w']) (auto simp: w1 fun_eq_iff)
qed

lemma slash_to_treasury_fre:
  "v \<le> res w a \<Longrightarrow> fre (slash_to_treasury T a v w) c = fre w c + (if c = tr then v else 0)"
  by (cases "slash_reserved (gf_Currency T) a v w")
    (auto simp: slash_to_treasury_def slash_handler_law dest!: slash_reserved_law)

lemma slash_one_all:
  assumes ok: "\<And>c u w. repatriate_reserved (gf_Currency T) a c u w \<noteq> None" and v: "0 < v" "v \<le> res w a"
    and rs: "rs \<noteq> []"
    and ps: "ps = reward_shares
      (pmul (gf_Perthing T) PERBILL (from_rational (gf_Perthing T) PERBILL 1 (length rs)) v) rs v"
    and run: "slash_and_reward T [a] v rs w = (w', b)"
  shows "b \<and> res w' = (res w)(a := res w a - v) \<and>
    (\<forall>c. fre w' c = fre w c + received c ps + (if c = tr then v - paid_out ps else 0))"
proof -
  let ?e = "pmul (gf_Perthing T) PERBILL (from_rational (gf_Perthing T) PERBILL 1 (length rs)) v"
  have le: "paid_out ps \<le> v" by (simp add: ps paid_out_le)
  obtain w1 where w1: "reward_loop (gf_Currency T) a ?e rs v w = (w1, Some (v - paid_out ps))"
    "res w1 = (res w)(a := res w a - paid_out ps)" "\<forall>c. fre w1 c = fre w c + received c ps"
    using reward_loop_all [OF ok v(2), of ?e rs] ps by blast
  have w': "w' = (if 0 < v - paid_out ps then slash_to_treasury T a (v - paid_out ps) w1 else w1)" and "b"
    using run v(1) rs w1(1) by (auto simp: slash_and_reward_def)
  moreover have "v - paid_out ps \<le> res w1 a" using v(2) w1(2) by simp
  ultimately show ?thesis using w1(2,3) le v(2)
    by (auto simp: slash_to_treasury_res slash_to_treasury_fre fun_eq_iff)
qed

end


definition gf_demo :: ledger where
  "gf_demo = \<lparr>ledger_free = (\<lambda>_. 10), ledger_reserved = (\<lambda>_. 100)\<rparr>"


text \<open>
  What burning does: the amount destroyed is recorded, the account keeps at least the fixed fee, and no
  reserve changes.
\<close>

lemma do_destroy_dbc_Inr:
  assumes "gf_host T tr" "do_destroy_dbc T who amount s = Inr s'" "FixedTxFee s = Some fee"
  defines "f \<equiv> free_balance (gf_Currency T) (gf_world s) who"
  shows "free_balance (gf_Currency T) (gf_world s') =
      (free_balance (gf_Currency T) (gf_world s))(who := f - min amount (f - fee))"
    "reserved_balance (gf_Currency T) (gf_world s') = reserved_balance (gf_Currency T) (gf_world s)"
    "TotalDestroy s' who = (if f \<le> fee then TotalDestroy s who
      else saturating_add 128 (TotalDestroy s who) (min amount (f - fee)))"
  using assms(2,3) gf_host.make_free_law [OF assms(1)] gf_host.burn_law [OF assms(1)]
  by (auto simp: do_destroy_dbc_def f_def gf_deposit_event_def Let_def saturating_sub_def min_def
      fun_eq_iff split: if_splits)

end
