(* ===== verification/Support_Utils.thy ===== *)
theory Support_Utils
  imports DBC_Prelude
begin

text \<open>
  The conversions of \<open>pallets/support/src/utils.rs\<close>: the account of an SS58 address, the public key written
  as a hexadecimal machine id, and the check of a signature made with it. The base-58 decoder and sr25519 are
  parameters. Slicing a string off a character boundary panics, which is the outcome \<open>Panics\<close>.
\<close>

datatype 'a outcome = Panics | Fails | Returns 'a

section \<open>Addresses\<close>

text \<open>The decoder writes into a buffer of 35 bytes and fails on anything longer.\<close>

definition get_accountid32 :: "(bytes \<Rightarrow> bytes option) \<Rightarrow> bytes \<Rightarrow> bytes option" where
  "get_accountid32 bs58_decode addr =
     (case bs58_decode addr of
        None \<Rightarrow> None
      | Some data \<Rightarrow>
          if length data \<noteq> 35 then None
          else if \<not> unat (data ! 0) \<le> 63 then None
          else Some (take 32 (drop 1 data)))"

section \<open>Hexadecimal strings\<close>

text \<open>\<open>str::from_utf8\<close>.\<close>

definition is_cont :: "8 word \<Rightarrow> bool" where
  "is_cont b \<longleftrightarrow> 128 \<le> unat b \<and> unat b \<le> 191"

definition between :: "nat \<Rightarrow> 8 word \<Rightarrow> nat \<Rightarrow> bool" where
  "between lo b hi \<longleftrightarrow> lo \<le> unat b \<and> unat b \<le> hi"

fun utf8_valid :: "bytes \<Rightarrow> bool" where
  "utf8_valid [] = True"
| "utf8_valid (a # bs) =
     (if unat a < 128 then utf8_valid bs
      else case bs of
        [] \<Rightarrow> False
      | b # cs \<Rightarrow>
          if between 194 a 223 then is_cont b \<and> utf8_valid cs
          else case cs of
            [] \<Rightarrow> False
          | c # ds \<Rightarrow>
              if between 224 a 239
              then (if unat a = 224 then between 160 b 191 else if unat a = 237 then between 128 b 159 else is_cont b) \<and>
                is_cont c \<and> utf8_valid ds
              else case ds of
                [] \<Rightarrow> False
              | d # es \<Rightarrow>
                  between 240 a 244 \<and>
                  (if unat a = 240 then between 144 b 191 else if unat a = 244 then between 128 b 143 else is_cont b) \<and>
                  is_cont c \<and> is_cont d \<and> utf8_valid es)"

text \<open>\<open>u8::from_str_radix\<close> of two characters: digits of either case, and a leading plus sign.\<close>

definition hex_digit :: "8 word \<Rightarrow> nat option" where
  "hex_digit b =
     (let n = unat b in
      if 48 \<le> n \<and> n \<le> 57 then Some (n - 48)
      else if 97 \<le> n \<and> n \<le> 102 then Some (n - 87)
      else if 65 \<le> n \<and> n \<le> 70 then Some (n - 55)
      else None)"

definition from_str_radix16 :: "8 word \<Rightarrow> 8 word \<Rightarrow> 8 word option" where
  "from_str_radix16 a b =
     (case hex_digit b of
        None \<Rightarrow> None
      | Some l \<Rightarrow> if unat a = 43 then Some (of_nat l)
          else map_option (\<lambda>h. of_nat (16 * h + l)) (hex_digit a))"

text \<open>
  The pairs \<open>pubkey_str[i..i + 2]\<close> for \<open>i = 0, 2, \<dots>\<close>, collected until the first error. A pair beyond the
  end of the string, or one that ends inside a character, panics.
\<close>

fun hex_pairs :: "bytes \<Rightarrow> bytes outcome" where
  "hex_pairs [] = Returns []"
| "hex_pairs [a] = Panics"
| "hex_pairs (a # b # cs) =
     (if cs \<noteq> [] \<and> is_cont (hd cs) then Panics
      else case from_str_radix16 a b of
        None \<Rightarrow> Fails
      | Some v \<Rightarrow> (case hex_pairs cs of Returns vs \<Rightarrow> Returns (v # vs) | Panics \<Rightarrow> Panics | Fails \<Rightarrow> Fails))"

definition pubkey_of :: "bytes \<Rightarrow> bytes outcome" where
  "pubkey_of account =
     (if \<not> utf8_valid account then Fails
      else case hex_pairs account of
        Returns key \<Rightarrow> if length key = 32 then Returns key else Fails
      | Panics \<Rightarrow> Panics
      | Fails \<Rightarrow> Fails)"

definition verify_sig :: "(bytes \<Rightarrow> bytes \<Rightarrow> bytes \<Rightarrow> bool) \<Rightarrow> bytes \<Rightarrow> bytes \<Rightarrow> bytes \<Rightarrow> unit outcome" where
  "verify_sig sr25519_verify msg sig account =
     (if length sig \<noteq> 64 then Fails
      else case pubkey_of account of
        Returns key \<Rightarrow> if sr25519_verify sig msg key then Returns () else Fails
      | Panics \<Rightarrow> Panics
      | Fails \<Rightarrow> Fails)"

definition get_hash :: "(bytes \<Rightarrow> bytes) \<Rightarrow> bytes list \<Rightarrow> bytes" where
  "get_hash blake2_128 raw_str = blake2_128 (concat raw_str)"

section \<open>Machine ids and keys\<close>

text \<open>The canonical spelling of a key: two lower-case digits a byte.\<close>

definition hex_char :: "nat \<Rightarrow> 8 word" where
  "hex_char n = of_nat (if n < 10 then 48 + n else 87 + n)"

definition hex_encode :: "bytes \<Rightarrow> bytes" where
  "hex_encode key = concat (map (\<lambda>b. [hex_char (unat b div 16), hex_char (unat b mod 16)]) key)"

lemma unat_hex_char: "n < 16 \<Longrightarrow> unat (hex_char n) = (if n < 10 then 48 + n else 87 + n)"
  by (simp add: hex_char_def unat_of_nat)

lemma hex_digit_char: "n < 16 \<Longrightarrow> hex_digit (hex_char n) = Some n"
  by (auto simp: hex_digit_def unat_hex_char)

lemma hex_char_ascii: "n < 16 \<Longrightarrow> unat (hex_char n) < 128 \<and> unat (hex_char n) \<noteq> 43 \<and> \<not> is_cont (hex_char n)"
  by (auto simp: unat_hex_char is_cont_def)

lemma unat_byte: "unat (b :: 8 word) div 16 < 16" "unat (b :: 8 word) mod 16 < 16"
proof -
  have "unat b < 256" using unsigned_less [of b] by simp
  then show "unat b div 16 < 16" "unat b mod 16 < 16" by auto
qed

lemma byte_of_halves: "16 * word_of_nat (unat b div 16) + word_of_nat (unat b mod 16) = (b :: 8 word)"
proof -
  have "(word_of_nat (16 * (unat b div 16) + unat b mod 16) :: 8 word) = b" by (simp only: mult_div_mod_eq) simp
  then show ?thesis by (simp only: of_nat_add of_nat_mult of_nat_numeral)
qed

lemma from_str_radix16_encode: "from_str_radix16 (hex_char (unat b div 16)) (hex_char (unat b mod 16)) = Some b"
  using unat_byte [of b] by (simp add: from_str_radix16_def hex_digit_char hex_char_ascii byte_of_halves)

lemma hex_encode_simps [simp]:
  "hex_encode [] = []"
  "hex_encode (b # key) = hex_char (unat b div 16) # hex_char (unat b mod 16) # hex_encode key"
  by (simp_all add: hex_encode_def)

lemma length_hex_encode: "length (hex_encode key) = 2 * length key"
  by (induction key) simp_all

lemma hex_pairs_encode: "hex_pairs (hex_encode key) = Returns key"
proof (induction key)
  case (Cons b key)
  have "hex_encode key \<noteq> [] \<Longrightarrow> \<not> is_cont (hd (hex_encode key))"
    by (cases key) (auto simp: hex_char_ascii unat_byte)
  with Cons.IH show ?case by (auto simp: from_str_radix16_encode)
qed simp

lemma utf8_valid_encode: "utf8_valid (hex_encode key)"
  by (induction key) (auto simp: hex_char_ascii unat_byte)

lemma pubkey_of_encode: "length key = 32 \<Longrightarrow> pubkey_of (hex_encode key) = Returns key"
  by (simp add: pubkey_of_def utf8_valid_encode hex_pairs_encode)

text \<open>The other spelling, with upper-case digits.\<close>

definition hex_char_upper :: "nat \<Rightarrow> 8 word" where
  "hex_char_upper n = of_nat (if n < 10 then 48 + n else 55 + n)"

definition hex_encode_upper :: "bytes \<Rightarrow> bytes" where
  "hex_encode_upper key = concat (map (\<lambda>b. [hex_char_upper (unat b div 16), hex_char_upper (unat b mod 16)]) key)"

lemma unat_hex_char_upper: "n < 16 \<Longrightarrow> unat (hex_char_upper n) = (if n < 10 then 48 + n else 55 + n)"
  by (simp add: hex_char_upper_def unat_of_nat)

lemma hex_char_upper_ascii:
  "n < 16 \<Longrightarrow> unat (hex_char_upper n) < 128 \<and> unat (hex_char_upper n) \<noteq> 43 \<and> \<not> is_cont (hex_char_upper n) \<and>
    hex_digit (hex_char_upper n) = Some n"
  by (auto simp: unat_hex_char_upper is_cont_def hex_digit_def)

lemma hex_char_case: "n < 16 \<Longrightarrow> hex_char n = hex_char_upper n \<longleftrightarrow> n < 10"
  using unat_hex_char [of n] unat_hex_char_upper [of n] by (auto simp: hex_char_def hex_char_upper_def)

lemma hex_encode_upper_simps [simp]:
  "hex_encode_upper [] = []"
  "hex_encode_upper (b # key) =
    hex_char_upper (unat b div 16) # hex_char_upper (unat b mod 16) # hex_encode_upper key"
  by (simp_all add: hex_encode_upper_def)

lemma hex_pairs_encode_upper: "hex_pairs (hex_encode_upper key) = Returns key"
proof (induction key)
  case (Cons b key)
  have "hex_encode_upper key \<noteq> [] \<Longrightarrow> \<not> is_cont (hd (hex_encode_upper key))"
    by (cases key) (auto simp: hex_char_upper_ascii unat_byte)
  with Cons.IH show ?case
    by (auto simp: from_str_radix16_def hex_char_upper_ascii unat_byte byte_of_halves)
qed simp

lemma utf8_valid_encode_upper: "utf8_valid (hex_encode_upper key)"
  by (induction key) (auto simp: hex_char_upper_ascii unat_byte)

lemma hex_encode_case:
  "hex_encode key = hex_encode_upper key \<longleftrightarrow> list_all (\<lambda>b. unat b div 16 < 10 \<and> unat b mod 16 < 10) key"
  by (induction key) (auto simp: hex_char_case unat_byte)

text \<open>
  C40: The key a machine id stands for. Every 32-byte public key is read back from its lower-case hexadecimal
  spelling. It is read from the upper-case spelling as well, a different machine id as soon as one digit is a
  letter, so that a signature by one key is accepted for two machine ids; and a 64-byte id with a character
  of three bytes at its start makes the check panic whenever the signature has the right length.
\<close>

theorem su_machine_id_keys:
  assumes "length key = 32" "length sig = 64"
  shows "pubkey_of (hex_encode key) = Returns key \<and>
    verify_sig vf msg sig (hex_encode_upper key) = verify_sig vf msg sig (hex_encode key) \<and>
    (hex_encode key = hex_encode_upper key \<longleftrightarrow> list_all (\<lambda>b. unat b div 16 < 10 \<and> unat b mod 16 < 10) key) \<and>
    length (226 # 130 # 172 # replicate 61 48 :: bytes) = 64 \<and>
    verify_sig vf msg sig (226 # 130 # 172 # replicate 61 48) = Panics"
proof -
  have u: "utf8_valid (replicate n 48)" for n by (induction n) simp_all
  have "pubkey_of (226 # 130 # 172 # replicate 61 48) = Panics"
    using u by (simp add: pubkey_of_def between_def is_cont_def)
  moreover have "pubkey_of (hex_encode_upper key) = Returns key"
    using assms(1) by (simp add: pubkey_of_def utf8_valid_encode_upper hex_pairs_encode_upper)
  ultimately show ?thesis using assms
    by (simp add: verify_sig_def pubkey_of_encode hex_encode_case)
qed

theorem su_machine_id_keys_witness:
  "pubkey_of (hex_encode (replicate 32 171)) = Returns (replicate 32 171) \<and>
   hex_encode (replicate 32 171) \<noteq> hex_encode_upper (replicate 32 171) \<and>
   verify_sig (\<lambda>_ _ _. True) [] (replicate 64 0) (hex_encode_upper (replicate 32 171)) = Returns ()"
  using su_machine_id_keys [of "replicate 32 171" "replicate 64 0" "\<lambda>_ _ _. True" "[]"]
  by (simp add: verify_sig_def list_all_iff)

end
