(* ===== verification/Online_Profile.thy ===== *)
theory Online_Profile
  imports Online_Grades Generic_Func Dbc_Price Support_Utils
begin

text \<open>
  The pallet \<open>pallets/online-profile/src\<close>: the machines, their stakes, grades, rewards and slashes. The
  storage is the record \<open>op_state\<close>; what the pallet calls (currency, price, fees, the committee pallet's
  \<open>add_reward\<close>, \<open>GNOps::slash_and_reward\<close>, the signature check and the order in which storage is iterated)
  are parameters of \<open>op_config\<close> over an opaque world. The traits \<open>OCOps\<close>, \<open>RTOps\<close> and \<open>MTOps\<close>
  through which the committee, rental and maintenance pallets drive machines are defined as in \<open>traits.rs\<close>.
  Functions that return \<open>Result<(), ()>\<close> and whose error is always propagated return \<open>None\<close> for it.
\<close>

section \<open>State\<close>

datatype op_error =
    BadOrigin | BadSignature | MachineIdExist | BalanceNotEnough | NotMachineController | PayTxFeeFailed
  | ClaimRewardFailed | ConvertMachineIdToWalletFailed | NoStashBond | AlreadyController | NoStashAccount
  | BadMsgLen | NotAllowedChangeMachineInfo | MachineStashNotEqualControllerStash | CalcStakeAmountFailed
  | SigMachineIdNotEqualBondedMachineId | TelecomIsNull | MachineStatusNotAllowed | ServerRoomNotFound
  | NotMachineStash | TooFastToReStake | NoStakeToReduce | ReduceStakeFailed | GetReonlineStakeFailed
  | SlashIdNotExist | TimeNotAllowed | ExpiredSlash | Unknown | ClaimThenFulfillFailed | NotAuthorized
  | Panicked

datatype op_event =
    BondMachine account machine_id balance
  | ControllerStashBonded account account
  | MachineOfflineToMutHardware machine_id balance balance
  | StakeAdded account balance
  | StakeReduced account balance
  | ServerRoomGenerated account h256
  | MachineInfoAdded machine_id
  | MachineInfoUpdated machine_id
  | ClaimReward account balance
  | ControllerReportOffline machine_id
  | ControllerReportOnline machine_id
  | SlashCanceled slash_id account balance
  | MachineRestaked machine_id balance balance
  | MachineExit machine_id
  | ApplySlashReview slash_id
  | SlashExecuted account machine_id balance
  | StashResetController account account account
  | MachineAddStake machine_id balance balance
  | AddSlash machine_id slash_id

definition REWARD_DURATION :: nat where "REWARD_DURATION = 365 * 2"
definition REBOND_FREQUENCY :: nat where "REBOND_FREQUENCY = 365 * ONE_DAY"

record user_mut_hardware_stake_info =
  verify_fee :: balance
  offline_slash :: balance
  offline_time :: block_number
  need_fulfilling :: bool

definition default_hardware_stake :: user_mut_hardware_stake_info where
  "default_hardware_stake = \<lparr>verify_fee = 0, offline_slash = 0, offline_time = 0, need_fulfilling = False\<rparr>"

record phase_reward_info_detail =
  online_reward_start_era :: era_index
  first_phase_duration :: era_index
  galaxy_on_era :: era_index
  phase_0_reward_per_era :: balance
  phase_1_reward_per_era :: balance
  phase_2_reward_per_era :: balance

definition default_phase_reward :: phase_reward_info_detail where
  "default_phase_reward =
     \<lparr>online_reward_start_era = 0, first_phase_duration = 0, galaxy_on_era = 0, phase_0_reward_per_era = 0,
      phase_1_reward_per_era = 0, phase_2_reward_per_era = 0\<rparr>"

record online_stake_params_info =
  online_stake_per_gpu :: balance
  online_stake_usd_limit :: nat
  reonline_stake :: nat
  slash_review_stake :: balance

record standard_gpu_point_price =
  gpu_point :: nat
  gpu_price :: nat

record all_machine_id_snap_detail =
  all_machine_id :: "machine_id list"
  snap_len :: nat

record 'w op_config =
  op_Currency :: "'w currency_ops"
  op_Perthing :: perthing_ops
  op_DbcPrice :: "'w dbc_price_ops"
  op_add_reward :: "account \<Rightarrow> balance \<Rightarrow> 'w \<Rightarrow> 'w"
  op_SlashAndReward :: "account list \<Rightarrow> balance \<Rightarrow> account list \<Rightarrow> 'w \<Rightarrow> 'w \<times> bool"
  op_pay_fixed_tx_fee :: "account \<Rightarrow> 'w \<Rightarrow> 'w option"
  op_random_server_room :: "'w \<Rightarrow> h256 \<times> 'w"
  op_CancelSlashOrigin :: "origin \<Rightarrow> bool"
  op_bs58_decode :: "bytes \<Rightarrow> bytes option"
  op_account_of :: "bytes \<Rightarrow> account"
  op_sr25519_verify :: "bytes \<Rightarrow> bytes \<Rightarrow> bytes \<Rightarrow> bool"
  op_stash_iter :: "(account \<rightharpoonup> stash_machine) \<Rightarrow> account list"

record 'w op_state =
  op_world :: 'w
  OnlineStakeParams :: "online_stake_params_info option"
  StandardGPUPointPrice :: "standard_gpu_point_price option"
  UserMutHardwareStake :: "account \<Rightarrow> machine_id \<rightharpoonup> user_mut_hardware_stake_info"
  RentFeeDestroyPercent :: nat
  SysInfo :: sys_info_detail
  PosGPUInfo :: "longitude \<Rightarrow> latitude \<Rightarrow> pos_info"
  StashController :: "account \<rightharpoonup> account"
  ControllerStash :: "account \<rightharpoonup> account"
  MachinesInfo :: "machine_id \<rightharpoonup> machine_info"
  MachineRentedGPU :: "machine_id \<Rightarrow> nat"
  StashMachines :: "account \<rightharpoonup> stash_machine"
  StashServerRooms :: "account \<Rightarrow> h256 list"
  ControllerMachines :: "account \<Rightarrow> machine_id list"
  LiveMachines :: live_machine
  CurrentEra :: era_index
  ErasStashPoints :: "era_index \<Rightarrow> era_stash_points"
  ErasMachinePoints :: "era_index \<Rightarrow> machine_id \<rightharpoonup> machine_grade_status"
  PhaseRewardInfo :: "phase_reward_info_detail option"
  EraReward :: "era_index \<Rightarrow> balance"
  ErasMachineReward :: "era_index \<Rightarrow> machine_id \<Rightarrow> balance"
  ErasMachineReleasedReward :: "era_index \<Rightarrow> machine_id \<Rightarrow> balance"
  ErasStashReward :: "era_index \<Rightarrow> account \<Rightarrow> balance"
  ErasStashReleasedReward :: "era_index \<Rightarrow> account \<Rightarrow> balance"
  MachineRecentReward :: "machine_id \<rightharpoonup> machine_recent_reward_info"
  AllMachineIdSnap :: all_machine_id_snap_detail
  StashStake :: "account \<Rightarrow> balance"
  NextSlashId :: slash_id
  PendingSlash :: "slash_id \<rightharpoonup> op_pending_slash_info"
  PendingSlashReview :: "slash_id \<rightharpoonup> op_pending_slash_review_info"
  PendingSlashReviewChecking :: "block_number \<rightharpoonup> slash_id list"
  RentedFinished :: "machine_id \<rightharpoonup> account"
  PendingExecSlash :: "block_number \<Rightarrow> slash_id list"
  MaxSlashExeced :: "machine_id \<Rightarrow> block_number"
  OfflineMachine2renters :: "machine_id \<Rightarrow> account list"
  Machine2PendingSlashIds :: "machine_id \<Rightarrow> slash_id list"
  AuthorizedForceExitAccounts :: "account list"
  op_events :: "op_event list"

definition op_deposit_event :: "op_event \<Rightarrow> 'w op_state \<Rightarrow> 'w op_state" where
  "op_deposit_event e s = s\<lparr>op_events := op_events s @ [e]\<rparr>"

definition stash_machines :: "'w op_state \<Rightarrow> account \<Rightarrow> stash_machine" where
  "stash_machines s a = (case StashMachines s a of None \<Rightarrow> default_stash_machine | Some m \<Rightarrow> m)"

definition put_machine :: "machine_id \<Rightarrow> machine_info \<Rightarrow> 'w op_state \<Rightarrow> 'w op_state" where
  "put_machine m i s = s\<lparr>MachinesInfo := (MachinesInfo s)(m \<mapsto> i)\<rparr>"

section \<open>Stakes and statistics\<close>

definition change_stake :: "'w op_config \<Rightarrow> account \<Rightarrow> balance \<Rightarrow> bool \<Rightarrow> 'w op_state \<Rightarrow> 'w op_state option" where
  "change_stake T who amount is_add s =
     (if is_add
      then case checked_add 128 (StashStake s who) amount of
          None \<Rightarrow> None
        | Some stash_stake \<Rightarrow>
            if \<not> can_reserve (op_Currency T) (op_world s) who amount then None
            else (case reserve (op_Currency T) who amount (op_world s) of
                None \<Rightarrow> None
              | Some w \<Rightarrow> Some (op_deposit_event (StakeAdded who amount)
                  (s\<lparr>op_world := w, SysInfo := on_stake_changed amount is_add (SysInfo s),
                     StashStake := (StashStake s)(who := stash_stake)\<rparr>)))
      else case checked_sub (StashStake s who) amount of
          None \<Rightarrow> None
        | Some stash_stake \<Rightarrow>
            Some (op_deposit_event (StakeReduced who amount)
              (s\<lparr>op_world := fst (unreserve (op_Currency T) who amount (op_world s)),
                 SysInfo := on_stake_changed amount is_add (SysInfo s),
                 StashStake := (StashStake s)(who := stash_stake)\<rparr>)))"

definition update_region :: "machine_info \<Rightarrow> (pos_info \<Rightarrow> pos_info) \<Rightarrow> 'w op_state \<Rightarrow> 'w op_state" where
  "update_region i f s =
     s\<lparr>PosGPUInfo := (PosGPUInfo s)(mi_longitude i :=
        (PosGPUInfo s (mi_longitude i))(mi_latitude i := f (PosGPUInfo s (mi_longitude i) (mi_latitude i))))\<rparr>"

definition update_region_on_online_changed :: "machine_info \<Rightarrow> bool \<Rightarrow> 'w op_state \<Rightarrow> 'w op_state" where
  "update_region_on_online_changed i is_online s =
     update_region i (pos_on_online_changed is_online (gpu_num i) (calc_point i)) s"

definition update_region_on_exit :: "machine_info \<Rightarrow> 'w op_state \<Rightarrow> 'w op_state" where
  "update_region_on_exit i s =
     update_region i
       (\<lambda>p. case pos_on_machine_exit (gpu_num i) (calc_point i) p of
          (p1, is_empty) \<Rightarrow> if is_empty then default_pos_info else p1) s"

definition update_region_on_rent_changed :: "machine_info \<Rightarrow> bool \<Rightarrow> 'w op_state \<Rightarrow> 'w op_state" where
  "update_region_on_rent_changed i rented s = update_region i (pos_on_rent_changed rented (gpu_num i)) s"

definition get_stash_grades :: "'w op_config \<Rightarrow> era_index \<Rightarrow> account \<Rightarrow> 'w op_state \<Rightarrow> nat" where
  "get_stash_grades T era stash s =
     (case staker_statistic (ErasStashPoints s era) stash of
        None \<Rightarrow> 0
      | Some st \<Rightarrow> unwrap_or_zero (total_grades (op_Perthing T) st))"

definition adjust_rent_fee_destroy_percent ::
    "'w op_config \<Rightarrow> nat \<Rightarrow> era_index \<Rightarrow> 'w op_state \<Rightarrow> 'w op_state" where
  "adjust_rent_fee_destroy_percent T gpus current_era s =
     (let s1 = (if gpus = 5000
                then let p = (case PhaseRewardInfo s of None \<Rightarrow> default_phase_reward | Some p \<Rightarrow> p)
                     in if galaxy_on_era p = 0
                        then s\<lparr>PhaseRewardInfo := Some (p\<lparr>galaxy_on_era := current_era\<rparr>)\<rparr> else s
                else s);
          destroy_percent = from_percent (op_Perthing T)
            (if gpus \<le> 4999 then 30 else if gpus \<le> 9999 then 70 else 100)
      in if RentFeeDestroyPercent s1 < destroy_percent
         then s1\<lparr>RentFeeDestroyPercent := destroy_percent\<rparr> else s1)"

definition next_era :: "'w op_state \<Rightarrow> era_index" where
  "next_era s = wrapping_add 32 (CurrentEra s) 1"

text \<open>The two totals that follow the grade of the machine's stash account.\<close>

definition move_points :: "nat \<Rightarrow> nat \<Rightarrow> nat \<Rightarrow> nat" where
  "move_points p new_grade pre_grade = saturating_sub (saturating_add 64 p new_grade) pre_grade"

definition update_snap_on_online_changed ::
    "'w op_config \<Rightarrow> machine_id \<Rightarrow> bool \<Rightarrow> 'w op_state \<Rightarrow> 'w op_state option" where
  "update_snap_on_online_changed T m is_online s =
     (case MachinesInfo s m of
        None \<Rightarrow> None
      | Some i \<Rightarrow>
          let P = op_Perthing T; stash = machine_stash i;
              cur = CurrentEra s; nxt = next_era s;
              stash_machine = stash_machines s stash;
              sys_info = SysInfo s;
              pre_stash_grade = get_stash_grades T nxt stash s;
              current_era_is_online = (ErasMachinePoints s cur m \<noteq> None);
              next_stash_snap = on_online_changed P stash (gpu_num i) (calc_point i) is_online (ErasStashPoints s nxt);
              was_online = (\<not> is_online \<and> current_era_is_online);
              next_machine_snap =
                (if is_online
                 then (ErasMachinePoints s nxt)(m \<mapsto> \<lparr>basic_grade = calc_point i, is_rented = False\<rparr>)
                 else if current_era_is_online then (ErasMachinePoints s nxt)(m := None)
                 else ErasMachinePoints s nxt);
              cur_stash_snap =
                (if was_online
                 then on_online_changed P stash (gpu_num i) (calc_point i) is_online (ErasStashPoints s cur)
                 else ErasStashPoints s cur);
              cur_machine_snap =
                (if was_online then (ErasMachinePoints s cur)(m := None) else ErasMachinePoints s cur);
              s1 = s\<lparr>ErasStashPoints := (ErasStashPoints s)(nxt := next_stash_snap),
                     ErasMachinePoints := (ErasMachinePoints s)(nxt := next_machine_snap)\<rparr>;
              s2 = (if is_online then s1
                    else s1\<lparr>ErasStashPoints := (ErasStashPoints s1)(cur := cur_stash_snap),
                            ErasMachinePoints := (ErasMachinePoints s1)(cur := cur_machine_snap)\<rparr>);
              gpus = (if is_online then saturating_add 64 (total_gpu_num sys_info) (gpu_num i)
                      else saturating_sub (total_gpu_num sys_info) (gpu_num i));
              new_stash_grade = get_stash_grades T nxt stash s2;
              stash_machine1 =
                stash_machine\<lparr>
                  stash_online_machine :=
                    (if is_online then add_item m (stash_online_machine stash_machine)
                     else rm_item m (stash_online_machine stash_machine)),
                  stash_gpu_num :=
                    (if is_online then saturating_add 64 (stash_gpu_num stash_machine) (gpu_num i)
                     else saturating_sub (stash_gpu_num stash_machine) (gpu_num i)),
                  stash_calc_points := move_points (stash_calc_points stash_machine) new_stash_grade pre_stash_grade\<rparr>;
              s3 = adjust_rent_fee_destroy_percent T gpus cur s2;
              sys_info1 =
                sys_info\<lparr>
                  total_gpu_num := gpus,
                  total_calc_points := move_points (total_calc_points sys_info) new_stash_grade pre_stash_grade,
                  total_staker :=
                    (if is_online \<and> length (stash_online_machine stash_machine1) = 1
                     then saturating_add 64 (total_staker sys_info) 1
                     else if \<not> is_online \<and> stash_online_machine stash_machine1 = []
                     then saturating_sub (total_staker sys_info) 1
                     else total_staker sys_info)\<rparr>
          in Some (s3\<lparr>SysInfo := sys_info1, StashMachines := (StashMachines s3)(stash \<mapsto> stash_machine1)\<rparr>))"

definition update_snap_on_rent_changed ::
    "'w op_config \<Rightarrow> machine_id \<Rightarrow> bool \<Rightarrow> 'w op_state \<Rightarrow> 'w op_state option" where
  "update_snap_on_rent_changed T m rented s =
     (case MachinesInfo s m of
        None \<Rightarrow> None
      | Some i \<Rightarrow>
          let P = op_Perthing T; stash = machine_stash i;
              cur = CurrentEra s; nxt = next_era s;
              stash_machine = stash_machines s stash;
              sys_info = SysInfo s;
              current_era_is_rented =
                (case ErasMachinePoints s cur m of None \<Rightarrow> False | Some g \<Rightarrow> is_rented g);
              pre_stash_grade = get_stash_grades T nxt stash s;
              status = \<lparr>basic_grade = calc_point i, is_rented = rented\<rparr>;
              next_stash_snap = on_rent_changed P stash (calc_point i) rented (ErasStashPoints s nxt);
              cur_stash_snap =
                (if current_era_is_rented
                 then on_rent_changed P stash (calc_point i) rented (ErasStashPoints s cur)
                 else ErasStashPoints s cur);
              s1 = s\<lparr>ErasStashPoints := (ErasStashPoints s)(nxt := next_stash_snap),
                     ErasMachinePoints := (ErasMachinePoints s)(nxt := (ErasMachinePoints s nxt)(m \<mapsto> status))\<rparr>;
              s2 = (if rented then s1
                    else s1\<lparr>ErasStashPoints := (ErasStashPoints s1)(cur := cur_stash_snap),
                            ErasMachinePoints := (ErasMachinePoints s1)
                              (cur := (ErasMachinePoints s cur)(m \<mapsto> status))\<rparr>);
              new_stash_grade = get_stash_grades T nxt stash s2;
              stash_machine1 =
                stash_machine\<lparr>
                  stash_rented_gpu :=
                    (if rented then saturating_add 64 (stash_rented_gpu stash_machine) (gpu_num i)
                     else saturating_sub (stash_rented_gpu stash_machine) (gpu_num i)),
                  stash_calc_points := move_points (stash_calc_points stash_machine) new_stash_grade pre_stash_grade\<rparr>;
              sys_info1 =
                sys_info\<lparr>
                  total_rented_gpu :=
                    (if rented then saturating_add 64 (total_rented_gpu sys_info) (gpu_num i)
                     else saturating_sub (total_rented_gpu sys_info) (gpu_num i)),
                  total_calc_points := move_points (total_calc_points sys_info) new_stash_grade pre_stash_grade\<rparr>
          in Some (s2\<lparr>SysInfo := sys_info1, StashMachines := (StashMachines s2)(stash \<mapsto> stash_machine1)\<rparr>))"

definition stake_per_gpu :: "'w op_config \<Rightarrow> 'w op_state \<Rightarrow> balance option" where
  "stake_per_gpu T s =
     Option.bind (OnlineStakeParams s) (\<lambda>p.
       map_option (min (online_stake_per_gpu p))
         (amount_by_value (op_DbcPrice T) (op_world s) (online_stake_usd_limit p)))"

definition stake_per_gpu_v2 :: "'w op_config \<Rightarrow> 'w op_state \<Rightarrow> balance option" where
  "stake_per_gpu_v2 T s =
     map_option (\<lambda>p. pmul (op_Perthing T) PERBILL (from_rational (op_Perthing T) PERBILL 1000 100000)
       (online_stake_per_gpu p)) (OnlineStakeParams s)"

definition cal_mut_hardware_stake :: "'w op_config \<Rightarrow> 'w op_state \<Rightarrow> balance option" where
  "cal_mut_hardware_stake T s =
     Option.bind (OnlineStakeParams s) (\<lambda>p. amount_by_value (op_DbcPrice T) (op_world s) (reonline_stake p))"

text \<open>
  One caller ignores the error, so the state reached before it is returned along with whether it ended in \<open>Ok\<close>.
\<close>

fun fulfill_loop ::
    "'w op_config \<Rightarrow> machine_id list \<Rightarrow> balance \<Rightarrow> 'w op_state \<Rightarrow> 'w op_state \<times> bool" where
  "fulfill_loop T [] amount_left s = (s, True)"
| "fulfill_loop T (m # ms) amount_left s =
     (case MachinesInfo s m of
        None \<Rightarrow> fulfill_loop T ms amount_left s
      | Some i \<Rightarrow>
          (case Option.bind (stake_per_gpu T s) (\<lambda>per. checked_mul 128 per (gpu_num i)) of
             None \<Rightarrow> (s, False)
           | Some stake_need \<Rightarrow>
               if stake_need \<le> stake_amount i then fulfill_loop T ms amount_left s
               else let extra_need = stake_need - stake_amount i in
                 if extra_need \<le> amount_left
                 then (case change_stake T (machine_stash i) extra_need True s of
                     None \<Rightarrow> (s, False)
                   | Some s1 \<Rightarrow> fulfill_loop T ms (saturating_sub amount_left extra_need)
                       (op_deposit_event (MachineAddStake m (stake_amount i) extra_need)
                         (put_machine m (i\<lparr>stake_amount := stake_need\<rparr>) s1)))
                 else (case change_stake T (machine_stash i) amount_left True s of
                     None \<Rightarrow> (s, False)
                   | Some s1 \<Rightarrow>
                       (op_deposit_event (MachineAddStake m (stake_amount i) amount_left)
                         (put_machine m (i\<lparr>stake_amount := saturating_add 128 (stake_amount i) amount_left\<rparr>) s1),
                        True))))"

definition fulfill_machine_stake ::
    "'w op_config \<Rightarrow> account \<Rightarrow> balance \<Rightarrow> 'w op_state \<Rightarrow> 'w op_state \<times> bool" where
  "fulfill_machine_stake T stash amount s =
     fulfill_loop T (stash_online_machine (stash_machines s stash)) amount s"

definition add_offline_machine_to_renters :: "machine_id \<Rightarrow> account list \<Rightarrow> 'w op_state \<Rightarrow> 'w op_state" where
  "add_offline_machine_to_renters m rs s = s\<lparr>OfflineMachine2renters := (OfflineMachine2renters s)(m := rs)\<rparr>"

section \<open>Slashes\<close>

fun slash_percent :: "op_slash_reason \<Rightarrow> block_number \<Rightarrow> nat" where
  "slash_percent (RentedReportOffline _) d =
     (if d < SEVEN_MINUTES then 2 else if d < TWO_DAYS then 4 else if d < FIVE_DAYS then 30 else 50)"
| "slash_percent (OnlineReportOffline _) d =
     (if d < SEVEN_MINUTES then 2 else if d < TWO_DAYS then 4 else if d < TEN_DAYS then 30 else 80)"
| "slash_percent (RentedInaccessible _) d =
     (if d < SEVEN_MINUTES then 4 else if d < TWO_DAYS then 8 else if d < FIVE_DAYS then 60 else 100)"
| "slash_percent (RentedHardwareMalfunction _) d =
     (if d < FOUR_HOURS then 6 else if d < ONE_DAY then 12 else if d < TWO_DAYS then 16
      else if d < FIVE_DAYS then 60 else 100)"
| "slash_percent (RentedHardwareCounterfeit _) d =
     (if d < FOUR_HOURS then 12 else if d < ONE_DAY then 24 else if d < TWO_DAYS then 32
      else if d < FIVE_DAYS then 60 else 100)"
| "slash_percent (OnlineRentFailed _) d =
     (if d < FOUR_HOURS then 6 else if d < ONE_DAY then 12 else if d < TWO_DAYS then 16
      else if d < FIVE_DAYS then 60 else 100)"
| "slash_percent _ d = 0"

fun reach_max_slash :: "op_slash_reason \<Rightarrow> nat \<Rightarrow> bool" where
  "reach_max_slash (RentedReportOffline _) d \<longleftrightarrow> 5 * ONE_DAY < d"
| "reach_max_slash (OnlineReportOffline _) d \<longleftrightarrow> 10 * ONE_DAY < d"
| "reach_max_slash (RentedInaccessible _) d \<longleftrightarrow> 5 * ONE_DAY < d"
| "reach_max_slash (RentedHardwareMalfunction _) d \<longleftrightarrow> 5 * ONE_DAY < d"
| "reach_max_slash (RentedHardwareCounterfeit _) d \<longleftrightarrow> 5 * ONE_DAY < d"
| "reach_max_slash (OnlineRentFailed _) d \<longleftrightarrow> 5 * ONE_DAY < d"
| "reach_max_slash _ d \<longleftrightarrow> False"

definition get_new_slash_id :: "'w op_state \<Rightarrow> slash_id \<times> 'w op_state" where
  "get_new_slash_id s =
     (let slash_id = NextSlashId s
      in (slash_id, s\<lparr>NextSlashId := (if slash_id = 2 ^ 64 - 1 then 0 else slash_id + 1)\<rparr>))"

definition op_slash_and_reward ::
    "'w op_config \<Rightarrow> account \<Rightarrow> balance \<Rightarrow> account list \<Rightarrow> 'w op_state \<Rightarrow> 'w op_state" where
  "op_slash_and_reward T who amount reward_to s =
     s\<lparr>op_world := fst (op_SlashAndReward T [who] amount reward_to (op_world s)),
       StashStake := (StashStake s)(who := saturating_sub (StashStake s who) amount),
       SysInfo := (SysInfo s)\<lparr>total_stake := saturating_sub (total_stake (SysInfo s)) amount\<rparr>\<rparr>"

text \<open>The status is changed on a copy of the machine that is then dropped.\<close>

definition try_to_change_machine_status_to_fulfill ::
    "'w op_config \<Rightarrow> account \<Rightarrow> machine_info \<Rightarrow> 'w op_state \<Rightarrow> machine_info option" where
  "try_to_change_machine_status_to_fulfill T who i s =
     (case Option.bind (stake_per_gpu T s) (\<lambda>per. checked_mul 128 per (gpu_num i)) of
        None \<Rightarrow> None
      | Some stake_need \<Rightarrow>
          Some (if StashStake s who < stake_need then i\<lparr>machine_status := WaitingFulfill\<rparr> else i))"

definition do_slash_deposit ::
    "'w op_config \<Rightarrow> op_pending_slash_info \<Rightarrow> 'w op_state \<Rightarrow> 'w op_state \<times> bool" where
  "do_slash_deposit T info s =
     (let P = op_Perthing T; amount = slash_amount info; who = slash_who info in
      case MachinesInfo s (slash_machine_id info) of
        None \<Rightarrow> (s, False)
      | Some i \<Rightarrow>
          if reserved_balance (op_Currency T) (op_world s) (machine_stash i) < amount then (s, True)
          else
            let reward_reporter = (if slash_renters info \<noteq> [] then pmul P PERBILL (from_rational P PERBILL 10 100) amount else 0);
                reward_committee =
                  (if reward_to_committee info \<noteq> None then pmul P PERBILL (from_rational P PERBILL 20 100) amount else 0);
                slash_to_treasury = saturating_sub (saturating_sub amount reward_reporter) reward_committee;
                s1 = (if 0 < reward_reporter \<and> slash_renters info \<noteq> []
                      then op_slash_and_reward T who reward_reporter (slash_renters info) s else s);
                s2 = (case reward_to_committee info of
                        Some committee \<Rightarrow>
                          if 0 < reward_committee then op_slash_and_reward T who reward_committee committee s1 else s1
                      | None \<Rightarrow> s1);
                s3 = op_slash_and_reward T who slash_to_treasury [] s2
            in (s3, try_to_change_machine_status_to_fulfill T who i s3 \<noteq> None))"

fun exec_pending_loop :: "'w op_config \<Rightarrow> slash_id list \<Rightarrow> 'w op_state \<Rightarrow> 'w op_state" where
  "exec_pending_loop T [] s = s"
| "exec_pending_loop T (slash_id # ids) s =
     (case PendingSlash s slash_id of
        None \<Rightarrow> exec_pending_loop T ids s
      | Some info \<Rightarrow>
          let s1 = (if slash_reason info \<in> {CommitteeRefusedOnline, CommitteeRefusedMutHardware}
                    then op_slash_and_reward T (slash_who info) (slash_amount info)
                      (case reward_to_committee info of None \<Rightarrow> [] | Some committee \<Rightarrow> committee) s
                    else fst (do_slash_deposit T info s));
              s2 = op_deposit_event (SlashExecuted (slash_who info) (slash_machine_id info) (slash_amount info)) s1
          in exec_pending_loop T ids (s2\<lparr>PendingSlash := (PendingSlash s2)(slash_id := None)\<rparr>))"

definition exec_pending_slash :: "'w op_config \<Rightarrow> block_number \<Rightarrow> 'w op_state \<Rightarrow> 'w op_state" where
  "exec_pending_slash T now s = exec_pending_loop T (PendingExecSlash s now) s"

fun check_pending_loop :: "'w op_config \<Rightarrow> slash_id list \<Rightarrow> 'w op_state \<Rightarrow> 'w op_state \<times> bool" where
  "check_pending_loop T [] s = (s, True)"
| "check_pending_loop T (slash_id # ids) s =
     (case PendingSlashReview s slash_id of
        None \<Rightarrow> (s, False)
      | Some review \<Rightarrow>
          (case ControllerStash s (applicant review) of
             None \<Rightarrow> (s, False)
           | Some stash \<Rightarrow>
               let s1 = op_slash_and_reward T stash (staked_amount review) [] s
               in check_pending_loop T ids (s1\<lparr>PendingSlashReview := (PendingSlashReview s1)(slash_id := None)\<rparr>)))"

definition check_pending_slash :: "'w op_config \<Rightarrow> block_number \<Rightarrow> 'w op_state \<Rightarrow> 'w op_state" where
  "check_pending_slash T now s =
     (case PendingSlashReviewChecking s now of
        None \<Rightarrow> s
      | Some ids \<Rightarrow>
          (case check_pending_loop T ids s of
             (s1, False) \<Rightarrow> s1
           | (s1, True) \<Rightarrow> s1\<lparr>PendingSlashReviewChecking := (PendingSlashReviewChecking s1)(now := None)\<rparr>))"

definition new_offline_slash ::
    "'w op_config \<Rightarrow> block_number \<Rightarrow> nat \<Rightarrow> machine_id \<Rightarrow> account option \<Rightarrow> account list \<Rightarrow>
     account list option \<Rightarrow> op_slash_reason \<Rightarrow> 'w op_state \<Rightarrow> op_pending_slash_info option" where
  "new_offline_slash T now percent m rep rs committee why s =
     (case MachinesInfo s m of
        None \<Rightarrow> None
      | Some i \<Rightarrow> Some
          \<lparr>slash_who = machine_stash i, slash_machine_id = m, slash_time = now,
           slash_amount = pmul (op_Perthing T) PERBILL (from_rational (op_Perthing T) PERBILL percent 100) (stake_amount i),
           slash_exec_time = wrapping_add 32 now TWO_DAYS, reporter = rep, slash_renters = rs,
           reward_to_committee = committee, slash_reason = why\<rparr>)"

definition slash_parties ::
    "op_slash_reason \<Rightarrow> block_number \<Rightarrow> account option \<Rightarrow> account list \<Rightarrow> account list option \<Rightarrow>
     account option \<times> account list \<times> account list option" where
  "slash_parties why duration rep rs committee =
     (case why of
        RentedReportOffline _ \<Rightarrow> (if duration \<le> TWO_DAYS then None else rep, rs, None)
      | OnlineReportOffline _ \<Rightarrow> (None, [], None)
      | RentedInaccessible _ \<Rightarrow> (if duration \<le> TWO_DAYS then None else rep, rs, committee)
      | RentedHardwareMalfunction _ \<Rightarrow> (rep, rs, committee)
      | RentedHardwareCounterfeit _ \<Rightarrow> (rep, rs, committee)
      | OnlineRentFailed _ \<Rightarrow> (rep, rs, committee)
      | _ \<Rightarrow> (None, [], None))"

definition new_slash_when_offline ::
    "'w op_config \<Rightarrow> block_number \<Rightarrow> machine_id \<Rightarrow> op_slash_reason \<Rightarrow> account option \<Rightarrow> account list \<Rightarrow>
     account list option \<Rightarrow> block_number \<Rightarrow> 'w op_state \<Rightarrow> op_pending_slash_info option" where
  "new_slash_when_offline T now m why rep rs committee duration s =
     (let percent = slash_percent why duration;
          (rep1, rs1, committee1) = slash_parties why duration rep rs committee
      in new_offline_slash T now percent m rep1 rs1 committee1 why s)"

section \<open>Rewards\<close>

definition current_era_reward :: "'w op_state \<Rightarrow> balance option" where
  "current_era_reward s =
     (let current_era = CurrentEra s in
      case PhaseRewardInfo s of
        None \<Rightarrow> None
      | Some p \<Rightarrow>
          if current_era < online_reward_start_era p then None
          else let era_duration = saturating_sub current_era (online_reward_start_era p);
                   era_reward = (if era_duration < first_phase_duration p then phase_0_reward_per_era p
                                 else if era_duration < first_phase_duration p + 1825 then phase_1_reward_per_era p
                                 else phase_2_reward_per_era p)
               in if galaxy_on_era p \<noteq> 0 \<and> current_era < galaxy_on_era p + 60
                  then checked_mul 128 era_reward 2 else Some era_reward)"

definition update_snap_for_new_era :: "'w op_state \<Rightarrow> 'w op_state" where
  "update_snap_for_new_era s =
     (let current_era = wrapping_add 32 (CurrentEra s) 1;
          s1 = s\<lparr>CurrentEra := current_era\<rparr>;
          s2 = s1\<lparr>EraReward := (EraReward s1)(current_era := unwrap_or_zero (current_era_reward s1))\<rparr>
      in if current_era = 1
         then s2\<lparr>ErasStashPoints := (ErasStashPoints s2)(0 := default_points, 1 := default_points, 2 := default_points),
                 ErasMachinePoints := (ErasMachinePoints s2)(0 := Map.empty, 1 := Map.empty, 2 := Map.empty)\<rparr>
         else s2\<lparr>ErasStashPoints := (ErasStashPoints s2)
                   (wrapping_add 32 current_era 1 := ErasStashPoints s2 current_era),
                 ErasMachinePoints := (ErasMachinePoints s2)
                   (wrapping_add 32 current_era 1 := ErasMachinePoints s2 current_era)\<rparr>)"

definition calc_machine_total_reward ::
    "'w op_config \<Rightarrow> machine_id \<Rightarrow> account \<Rightarrow> balance \<Rightarrow> (machine_id \<rightharpoonup> machine_grade_status) \<Rightarrow>
     era_stash_points \<Rightarrow> balance" where
  "calc_machine_total_reward T m stash era_total_reward era_machine_points era_stash_points =
     (let P = op_Perthing T;
          grade = (case (era_machine_points m, staker_statistic era_stash_points stash) of
                     (Some g, Some st) \<Rightarrow> machine_actual_grade P (inflation st) g
                   | _ \<Rightarrow> 0)
      in if points_total era_stash_points = 0 then 0
         else pmul P PERBILL (from_rational P PERBILL grade (points_total era_stash_points)) era_total_reward)"

fun reward_committees :: "'w op_config \<Rightarrow> account list \<Rightarrow> balance \<Rightarrow> 'w \<Rightarrow> 'w" where
  "reward_committees T [] each w = w"
| "reward_committees T (c # cs) each w = reward_committees T cs each (op_add_reward T c each w)"

definition per :: "'w op_config \<Rightarrow> nat \<Rightarrow> nat \<Rightarrow> balance \<Rightarrow> balance" where
  "per T p q v = pmul (op_Perthing T) PERBILL (from_rational (op_Perthing T) PERBILL p q) v"

definition released_of :: "'w op_config \<Rightarrow> machine_recent_reward_info \<Rightarrow> balance" where
  "released_of T info =
     (let latest = (if recent_machine_reward info \<noteq> [] then last (recent_machine_reward info) else 0)
      in wrapping_add 128 (per T 49 200 latest) (per T 1 200 (recent_reward_sum info)))"

definition actual_reward_of ::
    "'w op_config \<Rightarrow> era_index \<Rightarrow> era_index \<Rightarrow> balance \<Rightarrow> balance" where
  "actual_reward_of T release_era deadline machine_total_reward =
     (if deadline < release_era then machine_total_reward
      else if saturating_sub deadline 150 < release_era
      then wrapping_sub 128 machine_total_reward
        (wrapping_mul 128 (per T 1 100 (per T 1 200 machine_total_reward)) (saturating_sub deadline release_era))
      else per T 99 100 machine_total_reward)"

definition distribute_reward_to_machine ::
    "'w op_config \<Rightarrow> machine_id \<Rightarrow> era_index \<Rightarrow> balance \<Rightarrow> (machine_id \<rightharpoonup> machine_grade_status) \<Rightarrow>
     era_stash_points \<Rightarrow> 'w op_state \<Rightarrow> 'w op_state" where
  "distribute_reward_to_machine T m release_era era_total_reward era_machine_points era_stash_points s =
     (case MachineRecentReward s m of
        None \<Rightarrow> s
      | Some info0 \<Rightarrow>
          let stash = recent_stash info0;
              stash_machine = stash_machines s stash;
              machine_total_reward =
                calc_machine_total_reward T m stash era_total_reward era_machine_points era_stash_points;
              info = add_new_reward machine_total_reward info0
          in if recent_reward_sum info = 0 then s\<lparr>MachineRecentReward := (MachineRecentReward s)(m \<mapsto> info)\<rparr>
             else
               let released_reward = released_of T info;
                   deadline = reward_committee_deadline info;
                   reward_to_stash =
                     (if deadline < release_era then released_reward else per T 99 100 released_reward);
                   to_committee =
                     (if deadline < release_era then 0 else saturating_sub released_reward reward_to_stash);
                   committee_each_get = per T 1 (length (recent_reward_committee info)) to_committee;
                   actual = actual_reward_of T release_era deadline machine_total_reward;
                   stash_machine1 =
                     stash_machine\<lparr>
                       can_claim_reward := saturating_add 128 (can_claim_reward stash_machine) reward_to_stash,
                       total_earned_reward := saturating_add 128 (total_earned_reward stash_machine) actual\<rparr>
               in s\<lparr>op_world := reward_committees T (recent_reward_committee info) committee_each_get (op_world s),
                    ErasMachineReward := (ErasMachineReward s)(release_era :=
                      (ErasMachineReward s release_era)(m := actual)),
                    ErasStashReward := (ErasStashReward s)(release_era :=
                      (ErasStashReward s release_era)
                        (stash := saturating_add 128 (ErasStashReward s release_era stash) actual)),
                    ErasMachineReleasedReward := (ErasMachineReleasedReward s)(release_era :=
                      (ErasMachineReleasedReward s release_era)
                        (m := saturating_add 128 (ErasMachineReleasedReward s release_era m) reward_to_stash)),
                    ErasStashReleasedReward := (ErasStashReleasedReward s)(release_era :=
                      (ErasStashReleasedReward s release_era)
                        (stash := saturating_add 128 (ErasStashReleasedReward s release_era stash) reward_to_stash)),
                    StashMachines := (StashMachines s)(stash \<mapsto> stash_machine1),
                    MachineRecentReward := (MachineRecentReward s)(m \<mapsto> info)\<rparr>)"

definition get_all_stash :: "'w op_config \<Rightarrow> 'w op_state \<Rightarrow> account list" where
  "get_all_stash T s = op_stash_iter T (StashMachines s)"

text \<open>The loop of the distribution: at most \<open>n\<close> machines are taken from the front of the queue.\<close>

fun distribute_loop ::
    "'w op_config \<Rightarrow> era_index \<Rightarrow> balance \<Rightarrow> (machine_id \<rightharpoonup> machine_grade_status) \<Rightarrow> era_stash_points \<Rightarrow>
     nat \<Rightarrow> machine_id list \<Rightarrow> 'w op_state \<Rightarrow> machine_id list \<times> 'w op_state" where
  "distribute_loop T era tot mp sp 0 queue s = (queue, s)"
| "distribute_loop T era tot mp sp (Suc n) [] s = ([], s)"
| "distribute_loop T era tot mp sp (Suc n) (m # queue) s =
     distribute_loop T era tot mp sp n queue (distribute_reward_to_machine T m era tot mp sp s)"

definition backup_and_reward :: "'w op_config \<Rightarrow> block_number \<Rightarrow> 'w op_state \<Rightarrow> 'w op_state" where
  "backup_and_reward T now s =
     (let block_offset = now mod ONE_DAY in
      if block_offset = 2
      then let all_machine = concat (map (\<lambda>a. total_machine (stash_machines s a)) (get_all_stash T s))
           in s\<lparr>AllMachineIdSnap := \<lparr>all_machine_id = all_machine, snap_len = length all_machine\<rparr>\<rparr>
      else if 3 \<le> block_offset \<and> block_offset \<le> 62
      then let snap = AllMachineIdSnap s;
               release_num = snap_len snap div 60;
               release_era = saturating_sub (CurrentEra s) 1;
               (queue, s1) = distribute_loop T release_era (EraReward s release_era)
                 (ErasMachinePoints s release_era) (ErasStashPoints s release_era)
                 (release_num + 1) (all_machine_id snap) s
           in s1\<lparr>AllMachineIdSnap := snap\<lparr>all_machine_id := queue\<rparr>\<rparr>
      else s)"

definition op_on_initialize :: "'w op_config \<Rightarrow> block_number \<Rightarrow> 'w op_state \<Rightarrow> 'w op_state" where
  "op_on_initialize T now s =
     (let s1 = backup_and_reward T now s;
          s2 = (if now mod ONE_DAY = 1 then update_snap_for_new_era s1 else s1)
      in check_pending_slash T now (exec_pending_slash T now s2))"

section \<open>Changes of a machine\<close>

definition machine_offline ::
    "'w op_config \<Rightarrow> machine_id \<Rightarrow> machine_status \<Rightarrow> 'w op_state \<Rightarrow> 'w op_state option" where
  "machine_offline T m status s =
     (case MachinesInfo s m of
        None \<Rightarrow> None
      | Some i \<Rightarrow>
          let s1 = s\<lparr>LiveMachines := on_offline m (LiveMachines s)\<rparr> in
          case (if machine_status i = Rented
                then update_snap_on_rent_changed T m False (update_region_on_rent_changed i False s1)
                else Some s1) of
            None \<Rightarrow> None
          | Some s2 \<Rightarrow>
              map_option (put_machine m (i\<lparr>machine_status := status\<rparr>))
                (update_snap_on_online_changed T m False (update_region_on_online_changed i False s2)))"

definition do_machine_exit ::
    "'w op_config \<Rightarrow> machine_id \<Rightarrow> machine_info \<Rightarrow> 'w op_state \<Rightarrow> op_error + 'w op_state" where
  "do_machine_exit T m i s =
     (case change_stake T (machine_stash i) (stake_amount i) False s of
        None \<Rightarrow> Inl ReduceStakeFailed
      | Some s1 \<Rightarrow>
          (case update_snap_on_online_changed T m False (update_region_on_exit i s1) of
             None \<Rightarrow> Inl Unknown
           | Some s2 \<Rightarrow>
               Inr (op_deposit_event (MachineExit m)
                 (s2\<lparr>LiveMachines := on_exit m (LiveMachines s2),
                     ControllerMachines := (ControllerMachines s2)
                       (controller i := rm_item m (ControllerMachines s2 (controller i))),
                     MachinesInfo := (MachinesInfo s2)(m := None)\<rparr>))))"

definition do_cancel_slash :: "'w op_config \<Rightarrow> slash_id \<Rightarrow> 'w op_state \<Rightarrow> op_error + 'w op_state" where
  "do_cancel_slash T slash_id s =
     (case PendingSlash s slash_id of
        None \<Rightarrow> Inl SlashIdNotExist
      | Some info \<Rightarrow>
          (case PendingSlashReview s slash_id of
             None \<Rightarrow> Inl Unknown
           | Some review \<Rightarrow>
               (case change_stake T (slash_who info) (slash_amount info) False s of
                  None \<Rightarrow> Inl ReduceStakeFailed
                | Some s1 \<Rightarrow>
                    (case change_stake T (slash_who info) (staked_amount review) False s1 of
                       None \<Rightarrow> Inl ReduceStakeFailed
                     | Some s2 \<Rightarrow>
                         let at = slash_exec_time info;
                             checking = (case PendingSlashReviewChecking s2 at of None \<Rightarrow> [] | Some ids \<Rightarrow> ids)
                         in Inr (op_deposit_event (SlashCanceled slash_id (slash_who info) (slash_amount info))
                              (s2\<lparr>PendingSlashReviewChecking :=
                                    (PendingSlashReviewChecking s2)(at \<mapsto> rm_item slash_id checking),
                                  PendingExecSlash := (PendingExecSlash s2)
                                    (at := rm_item slash_id (PendingExecSlash s2 at)),
                                  PendingSlash := (PendingSlash s2)(slash_id := None),
                                  PendingSlashReview := (PendingSlashReview s2)(slash_id := None)\<rparr>))))))"

section \<open>\<open>OCOps\<close>\<close>

definition move_machine ::
    "machine_id \<Rightarrow> machine_status \<Rightarrow> (live_machine \<Rightarrow> live_machine) \<Rightarrow> 'w op_state \<Rightarrow> 'w op_state option" where
  "move_machine m status f s =
     (case MachinesInfo s m of
        None \<Rightarrow> None
      | Some i \<Rightarrow> Some ((put_machine m (i\<lparr>machine_status := status\<rparr>) s)\<lparr>LiveMachines := f (LiveMachines s)\<rparr>))"

definition booked_machine_op :: "machine_id \<Rightarrow> 'w op_state \<Rightarrow> 'w op_state option" where
  "booked_machine_op m s =
     move_machine m CommitteeVerifying
       (\<lambda>l. l\<lparr>confirmed_machine := rm_item m (confirmed_machine l), booked_machine := add_item m (booked_machine l)\<rparr>) s"

definition revert_booked_machine :: "machine_id \<Rightarrow> 'w op_state \<Rightarrow> 'w op_state option" where
  "revert_booked_machine m s =
     move_machine m DistributingOrder
       (\<lambda>l. l\<lparr>booked_machine := rm_item m (booked_machine l), confirmed_machine := add_item m (confirmed_machine l)\<rparr>) s"

definition hardware_stake :: "'w op_state \<Rightarrow> account \<Rightarrow> machine_id \<Rightarrow> user_mut_hardware_stake_info" where
  "hardware_stake s a m = (case UserMutHardwareStake s a m of None \<Rightarrow> default_hardware_stake | Some u \<Rightarrow> u)"

definition put_hardware_stake ::
    "account \<Rightarrow> machine_id \<Rightarrow> user_mut_hardware_stake_info option \<Rightarrow> 'w op_state \<Rightarrow> 'w op_state" where
  "put_hardware_stake a m u s =
     s\<lparr>UserMutHardwareStake := (UserMutHardwareStake s)(a := (UserMutHardwareStake s a)(m := u))\<rparr>"

definition new_recent_reward :: "machine_info \<Rightarrow> machine_recent_reward_info" where
  "new_recent_reward i =
     \<lparr>recent_stash = machine_stash i, recent_machine_reward = [], recent_reward_sum = 0,
      reward_committee_deadline = reward_deadline i, recent_reward_committee = reward_committee i\<rparr>"

definition confirm_machine ::
    "'w op_config \<Rightarrow> block_number \<Rightarrow> account list \<Rightarrow> committee_upload_info \<Rightarrow> 'w op_state \<Rightarrow> 'w op_state option" where
  "confirm_machine T now verify_committee hardware s =
     (let m = upload_machine_id hardware in
      case MachinesInfo s m of
        None \<Rightarrow> None
      | Some i0 \<Rightarrow>
          let stash = machine_stash i0;
              is_reonline = (UserMutHardwareStake s stash m \<noteq> None);
              stake0 = hardware_stake s stash m;
              s1 = (if is_reonline
                    then op_slash_and_reward T stash (offline_slash stake0) []
                      (op_slash_and_reward T stash (verify_fee stake0) verify_committee s)
                    else s);
              stake1 = (if is_reonline then stake0\<lparr>verify_fee := 0, offline_slash := 0\<rparr> else stake0);
              i1 = (if is_reonline then i0 else i0\<lparr>reward_committee := verify_committee\<rparr>);
              i2 = i1\<lparr>machine_info_detail := (machine_info_detail i1)\<lparr>committee_upload_info := hardware\<rparr>\<rparr>;
              live = (LiveMachines s)\<lparr>booked_machine := rm_item m (booked_machine (LiveMachines s))\<rparr>;
              stake_need = saturating_mul 128 (init_stake_per_gpu i2) (upload_gpu_num hardware);
              staked = (if stake_amount i2 < stake_need
                        then change_stake T stash (saturating_sub stake_need (stake_amount i2)) True s1 else Some s1)
          in (case staked of
                None \<Rightarrow>
                  Some ((put_machine m (i2\<lparr>machine_status := WaitingFulfill\<rparr>)
                    (put_hardware_stake stash m (Some (stake1\<lparr>need_fulfilling := True\<rparr>)) s1))
                    \<lparr>LiveMachines := live\<lparr>fulfilling_machine := add_item m (fulfilling_machine live)\<rparr>\<rparr>)
              | Some s2 \<Rightarrow>
                  let live1 = live\<lparr>online_machine := add_item m (online_machine live)\<rparr>;
                      i3 = i2\<lparr>stake_amount := stake_need, machine_status := Online, last_online_height := now,
                              last_machine_restake := now\<rparr>;
                      i4 = (if is_reonline then i3
                            else i3\<lparr>online_height := now,
                                    reward_deadline := wrapping_add 32 (CurrentEra s) REWARD_DURATION\<rparr>);
                      s3 = (if is_reonline then put_hardware_stake stash m None s2
                            else s2\<lparr>MachineRecentReward := (MachineRecentReward s2)(m \<mapsto> new_recent_reward i4)\<rparr>);
                      s4 = (put_machine m i4 s3)\<lparr>LiveMachines := live1\<rparr>;
                      s5 = update_region_on_online_changed i4 True s4
                  in Some (case update_snap_on_online_changed T m True s5 of None \<Rightarrow> s5 | Some s6 \<Rightarrow> s6)))"

definition refuse_machine ::
    "'w op_config \<Rightarrow> account list \<Rightarrow> machine_id \<Rightarrow> 'w op_state \<Rightarrow> (account \<times> balance) option \<times> 'w op_state" where
  "refuse_machine T verify_committee m s =
     (case MachinesInfo s m of
        None \<Rightarrow> (None, s)
      | Some i \<Rightarrow>
          let stash = machine_stash i; live = LiveMachines s in
          if UserMutHardwareStake s stash m \<noteq> None
          then let stake = hardware_stake s stash m;
                   s1 = s\<lparr>LiveMachines := live\<lparr>booked_machine := rm_item m (booked_machine live),
                                              bonding_machine := add_item m (bonding_machine live)\<rparr>\<rparr>;
                   s2 = op_slash_and_reward T stash (verify_fee stake) verify_committee s1
               in (None, put_hardware_stake stash m (Some (stake\<lparr>verify_fee := 0\<rparr>)) s2)
          else let slash = per T 5 100 (stake_amount i) in
            (case checked_sub (stake_amount i) slash of
               None \<Rightarrow> (None, s)
             | Some left_stake \<Rightarrow>
                 let s1 = (case change_stake T stash left_stake False s of None \<Rightarrow> s | Some s1 \<Rightarrow> s1);
                     sm = stash_machines s1 stash
                 in (Some (stash, slash),
                     s1\<lparr>StashMachines := (StashMachines s1)(stash \<mapsto> sm\<lparr>total_machine := rm_item m (total_machine sm)\<rparr>),
                        ControllerMachines := (ControllerMachines s1)
                          (controller i := rm_item m (ControllerMachines s1 (controller i))),
                        LiveMachines := live\<lparr>booked_machine := rm_item m (booked_machine live),
                                             refused_machine := add_item m (refused_machine live)\<rparr>,
                        MachinesInfo := (MachinesInfo s1)(m := None)\<rparr>)))"

definition change_staked_balance :: "'w op_config \<Rightarrow> account \<Rightarrow> balance \<Rightarrow> bool \<Rightarrow> 'w op_state \<Rightarrow> 'w op_state option" where
  "change_staked_balance T stash amount is_add s = change_stake T stash amount is_add s"

text \<open>\<open>OCOps::exec_slash\<close> and \<open>MTOps::mt_rm_stash_total_stake\<close> have the same body.\<close>

definition exec_slash_stake :: "account \<Rightarrow> balance \<Rightarrow> 'w op_state \<Rightarrow> 'w op_state option" where
  "exec_slash_stake stash amount s =
     (case (checked_sub (total_stake (SysInfo s)) amount, checked_sub (StashStake s stash) amount) of
        (Some ts, Some stash_stake) \<Rightarrow>
          Some (s\<lparr>StashStake := (StashStake s)(stash := stash_stake), SysInfo := (SysInfo s)\<lparr>total_stake := ts\<rparr>\<rparr>)
      | _ \<Rightarrow> None)"

definition mt_rm_stash_total_stake :: "account \<Rightarrow> balance \<Rightarrow> 'w op_state \<Rightarrow> 'w op_state option" where
  "mt_rm_stash_total_stake stash amount s = exec_slash_stake stash amount s"

definition mt_machine_offline ::
    "'w op_config \<Rightarrow> account \<Rightarrow> account list \<Rightarrow> machine_id \<Rightarrow> op_slash_reason \<Rightarrow> 'w op_state \<Rightarrow> 'w op_state option" where
  "mt_machine_offline T rep committee m fault s =
     (case MachinesInfo s m of
        None \<Rightarrow> None
      | Some i \<Rightarrow> machine_offline T m (ReporterReportOffline fault (machine_status i) rep committee) s)"

definition mt_change_staked_balance :: "'w op_config \<Rightarrow> account \<Rightarrow> balance \<Rightarrow> bool \<Rightarrow> 'w op_state \<Rightarrow> 'w op_state option" where
  "mt_change_staked_balance T stash amount is_add s = change_stake T stash amount is_add s"

section \<open>\<open>RTOps\<close>\<close>

definition get_machine_price :: "nat \<Rightarrow> nat \<Rightarrow> nat \<Rightarrow> 'w op_state \<Rightarrow> nat option" where
  "get_machine_price machine_point need_gpu total_gpu s =
     (if total_gpu = 0 then None
      else Option.bind (StandardGPUPointPrice s) (\<lambda>std.
        Option.bind (checked_mul 64 (gpu_price std) machine_point) (\<lambda>a.
        Option.bind (checked_mul 64 a 10000) (\<lambda>b.
        Option.bind (checked_div b (gpu_point std)) (\<lambda>c.
        Option.bind (checked_mul 64 c need_gpu) (\<lambda>d.
        Option.bind (checked_div d total_gpu) (\<lambda>e. checked_div e 10000)))))))"

definition change_machine_status_on_rent_start :: "machine_id \<Rightarrow> nat \<Rightarrow> 'w op_state \<Rightarrow> 'w op_state option" where
  "change_machine_status_on_rent_start m gpus s =
     (case MachinesInfo s m of
        None \<Rightarrow> None
      | Some i \<Rightarrow>
          let s1 = put_machine m (i\<lparr>machine_status := Rented\<rparr>) s
          in Some (s1\<lparr>MachineRentedGPU := (MachineRentedGPU s1)
               (m := saturating_add 32 (MachineRentedGPU s1 m) gpus)\<rparr>))"

definition change_machine_status_on_confirmed ::
    "'w op_config \<Rightarrow> machine_id \<Rightarrow> account \<Rightarrow> 'w op_state \<Rightarrow> 'w op_state option" where
  "change_machine_status_on_confirmed T m who s =
     (case MachinesInfo s m of
        None \<Rightarrow> None
      | Some i0 \<Rightarrow>
          let live = LiveMachines s;
              i = i0\<lparr>renters := add_item who (renters i0),
                     total_rented_times := wrapping_add 64 (total_rented_times i0) 1\<rparr>
          in map_option (put_machine m i)
               (if \<not> is_ok (binary_search m (rented_machine live))
                then map_option
                  (\<lambda>s1. update_region_on_rent_changed i True
                    (s1\<lparr>LiveMachines := live\<lparr>online_machine := rm_item m (online_machine live),
                                            rented_machine := add_item m (rented_machine live)\<rparr>\<rparr>))
                  (update_snap_on_rent_changed T m True s)
                else Some s))"

fun is_offline_status :: "machine_status \<Rightarrow> bool" where
  "is_offline_status (ReporterReportOffline _ _ _ _) = True"
| "is_offline_status (StakerReportOffline _ _) = True"
| "is_offline_status _ = False"

definition change_machine_status_on_rent_end ::
    "'w op_config \<Rightarrow> block_number \<Rightarrow> machine_id \<Rightarrow> nat \<Rightarrow> block_number \<Rightarrow> bool \<Rightarrow> bool \<Rightarrow> account \<Rightarrow>
     'w op_state \<Rightarrow> 'w op_state option" where
  "change_machine_status_on_rent_end T now m rented_gpus rent_duration is_machine_last is_renter_last who s =
     (case MachinesInfo s m of
        None \<Rightarrow> None
      | Some i0 \<Rightarrow>
          let live = LiveMachines s;
              rented = saturating_sub (MachineRentedGPU s m) rented_gpus
          in if gpu_num i0 = 0 then Some s
             else
               let i1 = i0\<lparr>total_rented_duration :=
                      wrapping_add 32 (total_rented_duration i0) (per T rented_gpus (gpu_num i0) rent_duration)\<rparr>;
                   i2 = (if is_renter_last then i1\<lparr>renters := rm_item who (renters i1)\<rparr> else i1);
                   finish = (\<lambda>(i, l, t). (put_machine m i t)\<lparr>LiveMachines := l,
                     MachineRentedGPU := (MachineRentedGPU t)(m := rented)\<rparr>)
               in map_option finish
                    (if is_offline_status (machine_status i2)
                     then Some (i2, live, s\<lparr>RentedFinished := (RentedFinished s)(m \<mapsto> who)\<rparr>)
                     else if machine_status i2 = Rented \<and> is_machine_last
                     then let i3 = i2\<lparr>last_online_height := now, machine_status := Online\<rparr>;
                              live1 = live\<lparr>rented_machine := rm_item m (rented_machine live),
                                           online_machine := add_item m (online_machine live)\<rparr>
                          in map_option (\<lambda>t. (i3, live1, update_region_on_rent_changed i3 False t))
                               (update_snap_on_rent_changed T m False s)
                     else Some (i2, live, s)))"

definition change_machine_status_on_confirm_expired :: "machine_id \<Rightarrow> nat \<Rightarrow> 'w op_state \<Rightarrow> 'w op_state option" where
  "change_machine_status_on_confirm_expired m gpus s =
     (let rented = saturating_sub (MachineRentedGPU s m) gpus in
      map_option (\<lambda>s1. s1\<lparr>MachineRentedGPU := (MachineRentedGPU s1)(m := rented)\<rparr>)
        (if rented = 0
         then (case MachinesInfo s m of
                 None \<Rightarrow> None
               | Some i \<Rightarrow> Some (put_machine m (i\<lparr>machine_status := Online\<rparr>) s))
         else Some s))"

definition change_machine_rent_fee ::
    "'w op_config \<Rightarrow> account \<Rightarrow> machine_id \<Rightarrow> balance \<Rightarrow> balance \<Rightarrow> 'w op_state \<Rightarrow> 'w op_state \<times> bool" where
  "change_machine_rent_fee T stash m fee_to_destroy fee_to_stash s =
     (case fulfill_machine_stake T stash fee_to_stash s of
        (s1, False) \<Rightarrow> (s1, False)
      | (s1, True) \<Rightarrow>
          (case MachinesInfo s1 m of
             None \<Rightarrow> (s1, False)
           | Some i \<Rightarrow>
               let sm = stash_machines s1 (machine_stash i)
               in (put_machine m (mi_change_rent_fee fee_to_destroy fee_to_stash i)
                     (s1\<lparr>SysInfo := si_change_rent_fee fee_to_destroy fee_to_stash (SysInfo s1),
                         StashMachines := (StashMachines s1)
                           (machine_stash i \<mapsto> sm_change_rent_fee fee_to_destroy fee_to_stash sm)\<rparr>),
                   True)))"

definition reset_machine_renters :: "machine_id \<Rightarrow> account list \<Rightarrow> 'w op_state \<Rightarrow> 'w op_state option" where
  "reset_machine_renters m rs s =
     (case MachinesInfo s m of
        None \<Rightarrow> None
      | Some i \<Rightarrow> Some (put_machine m (i\<lparr>renters := rs\<rparr>) s))"

section \<open>Dispatchables\<close>

definition set_reward_info :: "origin \<Rightarrow> phase_reward_info_detail \<Rightarrow> 'w op_state \<Rightarrow> op_error + 'w op_state" where
  "set_reward_info orig info s =
     (if \<not> ensure_root orig then Inl BadOrigin else Inr (s\<lparr>PhaseRewardInfo := Some info\<rparr>))"

definition set_online_stake_params :: "origin \<Rightarrow> online_stake_params_info \<Rightarrow> 'w op_state \<Rightarrow> op_error + 'w op_state" where
  "set_online_stake_params orig params s =
     (if \<not> ensure_root orig then Inl BadOrigin else Inr (s\<lparr>OnlineStakeParams := Some params\<rparr>))"

definition set_standard_gpu_point_price :: "origin \<Rightarrow> standard_gpu_point_price \<Rightarrow> 'w op_state \<Rightarrow> op_error + 'w op_state" where
  "set_standard_gpu_point_price orig point_price s =
     (if \<not> ensure_root orig then Inl BadOrigin else Inr (s\<lparr>StandardGPUPointPrice := Some point_price\<rparr>))"

definition set_rentfee_destroy_percent :: "origin \<Rightarrow> nat \<Rightarrow> 'w op_state \<Rightarrow> op_error + 'w op_state" where
  "set_rentfee_destroy_percent orig percent s =
     (if \<not> ensure_root orig then Inl BadOrigin else Inr (s\<lparr>RentFeeDestroyPercent := percent\<rparr>))"

definition set_controller :: "origin \<Rightarrow> account \<Rightarrow> 'w op_state \<Rightarrow> op_error + 'w op_state" where
  "set_controller orig ctrl s =
     (case ensure_signed orig of
        None \<Rightarrow> Inl BadOrigin
      | Some stash \<Rightarrow>
          if ControllerStash s ctrl \<noteq> None then Inl AlreadyController
          else if StashController s stash \<noteq> None then Inl AlreadyController
          else Inr (op_deposit_event (ControllerStashBonded ctrl stash)
            (s\<lparr>StashController := (StashController s)(stash \<mapsto> ctrl),
               ControllerStash := (ControllerStash s)(ctrl \<mapsto> stash)\<rparr>)))"

fun reset_controllers :: "account \<Rightarrow> machine_id list \<Rightarrow> (machine_id \<rightharpoonup> machine_info) \<Rightarrow> (machine_id \<rightharpoonup> machine_info) option" where
  "reset_controllers ctrl [] ms = Some ms"
| "reset_controllers ctrl (m # ids) ms =
     (case ms m of
        None \<Rightarrow> None
      | Some i \<Rightarrow> reset_controllers ctrl ids (ms(m \<mapsto> i\<lparr>controller := ctrl\<rparr>)))"

definition stash_reset_controller :: "origin \<Rightarrow> account \<Rightarrow> 'w op_state \<Rightarrow> op_error + 'w op_state" where
  "stash_reset_controller orig new_ctrl s =
     (case ensure_signed orig of
        None \<Rightarrow> Inl BadOrigin
      | Some stash \<Rightarrow>
          if ControllerStash s new_ctrl \<noteq> None then Inl AlreadyController
          else case StashController s stash of
            None \<Rightarrow> Inl Unknown
          | Some pre \<Rightarrow>
              let ids = ControllerMachines s pre in
              case reset_controllers new_ctrl ids (MachinesInfo s) of
                None \<Rightarrow> Inl Unknown
              | Some ms \<Rightarrow>
                  Inr (op_deposit_event (StashResetController stash pre new_ctrl)
                    (s\<lparr>MachinesInfo := ms,
                       ControllerMachines := (ControllerMachines s)(pre := [], new_ctrl := ids),
                       StashController := (StashController s)(stash \<mapsto> new_ctrl),
                       ControllerStash := (ControllerStash s)(pre := None, new_ctrl \<mapsto> stash)\<rparr>)))"

definition offline_machine_change_hardware_info ::
    "'w op_config \<Rightarrow> block_number \<Rightarrow> origin \<Rightarrow> machine_id \<Rightarrow> 'w op_state \<Rightarrow> op_error + 'w op_state" where
  "offline_machine_change_hardware_info T now orig m s =
     (case ensure_signed orig of
        None \<Rightarrow> Inl BadOrigin
      | Some ctrl \<Rightarrow>
          (case MachinesInfo s m of
             None \<Rightarrow> Inl Unknown
           | Some i0 \<Rightarrow>
               if \<not> is_controller i0 ctrl then Inl NotMachineController
               else if \<not> mi_is_online i0 then Inl MachineStatusNotAllowed
               else
                 let i = i0\<lparr>machine_status := StakerReportOffline now Online\<rparr>; stash = machine_stash i in
                 case cal_mut_hardware_stake T s of
                   None \<Rightarrow> Inl GetReonlineStakeFailed
                 | Some fee \<Rightarrow>
                     let slash = per T 4 100 (stake_amount i) in
                     case change_stake T stash (saturating_add 128 fee slash) True s of
                       None \<Rightarrow> Inl BalanceNotEnough
                     | Some s1 \<Rightarrow>
                         let s2 = put_hardware_stake stash m
                               (Some \<lparr>verify_fee = fee, offline_slash = slash, offline_time = now, need_fulfilling = False\<rparr>) s1
                         in case update_snap_on_online_changed T m False (update_region_on_online_changed i False s2) of
                              None \<Rightarrow> Inl Unknown
                            | Some s3 \<Rightarrow>
                                Inr (op_deposit_event (MachineOfflineToMutHardware m fee slash)
                                  (put_machine m i
                                    (s3\<lparr>LiveMachines := on_offline_change_hardware m (LiveMachines s3)\<rparr>)))))"

definition get_account_from_str :: "'w op_config \<Rightarrow> bytes \<Rightarrow> account option" where
  "get_account_from_str T addr = map_option (op_account_of T) (get_accountid32 (op_bs58_decode T) addr)"

definition check_bonding_msg ::
    "'w op_config \<Rightarrow> account \<Rightarrow> machine_id \<Rightarrow> bytes \<Rightarrow> bytes \<Rightarrow> op_error option" where
  "check_bonding_msg T stash m msg sig =
     (if length msg \<noteq> 112 then Some BadMsgLen
      else if m \<noteq> take 64 msg then Some SigMachineIdNotEqualBondedMachineId
      else case get_account_from_str T (drop 64 msg) of
        None \<Rightarrow> Some ConvertMachineIdToWalletFailed
      | Some sig_stash_account \<Rightarrow>
          if sig_stash_account \<noteq> stash then Some MachineStashNotEqualControllerStash
          else (case verify_sig (op_sr25519_verify T) msg sig m of
              Returns _ \<Rightarrow> None
            | Fails \<Rightarrow> Some BadSignature
            | Panics \<Rightarrow> Some Panicked))"

definition bond_machine ::
    "'w op_config \<Rightarrow> block_number \<Rightarrow> origin \<Rightarrow> machine_id \<Rightarrow> bytes \<Rightarrow> bytes \<Rightarrow> 'w op_state \<Rightarrow> op_error + 'w op_state" where
  "bond_machine T now orig m msg sig s =
     (case ensure_signed orig of
        None \<Rightarrow> Inl BadOrigin
      | Some ctrl \<Rightarrow>
          (case ControllerStash s ctrl of
             None \<Rightarrow> Inl NoStashBond
           | Some stash \<Rightarrow>
               if MachinesInfo s m \<noteq> None then Inl MachineIdExist
               else if is_ok (binary_search m (total_machine (stash_machines s stash))) then Inl MachineIdExist
               else case check_bonding_msg T stash m msg sig of
                 Some e \<Rightarrow> Inl e
               | None \<Rightarrow>
                   (case stake_per_gpu_v2 T s of
                      None \<Rightarrow> Inl CalcStakeAmountFailed
                    | Some stake \<Rightarrow>
                        (case op_pay_fixed_tx_fee T ctrl (op_world s) of
                           None \<Rightarrow> Inl PayTxFeeFailed
                         | Some w \<Rightarrow>
                             (case change_stake T stash stake True (s\<lparr>op_world := w\<rparr>) of
                                None \<Rightarrow> Inl BalanceNotEnough
                              | Some s1 \<Rightarrow>
                                  Inr (op_deposit_event (BondMachine ctrl m stake)
                                    (put_machine m (mi_new_bonding ctrl stash now stake)
                                      (s1\<lparr>StashMachines := (StashMachines s1)
                                            (stash \<mapsto> sm_new_bonding m (stash_machines s1 stash)),
                                          LiveMachines := on_bonding m (LiveMachines s1),
                                          ControllerMachines := (ControllerMachines s1)
                                            (ctrl := add_item m (ControllerMachines s1 ctrl))\<rparr>))))))))"

definition gen_server_room :: "'w op_config \<Rightarrow> origin \<Rightarrow> 'w op_state \<Rightarrow> op_error + 'w op_state" where
  "gen_server_room T orig s =
     (case ensure_signed orig of
        None \<Rightarrow> Inl BadOrigin
      | Some ctrl \<Rightarrow>
          (case ControllerStash s ctrl of
             None \<Rightarrow> Inl NoStashBond
           | Some stash \<Rightarrow>
               (case op_pay_fixed_tx_fee T ctrl (op_world s) of
                  None \<Rightarrow> Inl PayTxFeeFailed
                | Some w \<Rightarrow>
                    let (room, w1) = op_random_server_room T w
                    in Inr (op_deposit_event (ServerRoomGenerated ctrl room)
                         (s\<lparr>op_world := w1,
                            StashServerRooms := (StashServerRooms s)
                              (stash := add_item room (StashServerRooms s stash))\<rparr>)))))"

fun op_error_of :: "online_err \<Rightarrow> op_error" where
  "op_error_of ClaimRewardFailed_err = ClaimRewardFailed"
| "op_error_of NotMachineController_err = NotMachineController"
| "op_error_of CalcStakeAmountFailed_err = CalcStakeAmountFailed"
| "op_error_of TelecomIsNull_err = TelecomIsNull"
| "op_error_of NotAllowedChangeMachineInfo_err = NotAllowedChangeMachineInfo"

definition op_add_machine_info ::
    "'w op_config \<Rightarrow> origin \<Rightarrow> machine_id \<Rightarrow> staker_customize_info \<Rightarrow> 'w op_state \<Rightarrow> op_error + 'w op_state" where
  "op_add_machine_info T orig m room s =
     (case ensure_signed orig of
        None \<Rightarrow> Inl BadOrigin
      | Some ctrl \<Rightarrow>
          (case MachinesInfo s m of
             None \<Rightarrow> Inl Unknown
           | Some i \<Rightarrow>
               let stash = machine_stash i in
               case can_add_server_room i ctrl of
                 Some e \<Rightarrow> Inl (op_error_of e)
               | None \<Rightarrow>
                   if telecom_operators room = [] then Inl TelecomIsNull
                   else if \<not> is_ok (binary_search (server_room room) (StashServerRooms s stash)) then Inl ServerRoomNotFound
                   else
                     let restaked =
                       (case UserMutHardwareStake s stash m of
                          Some stake \<Rightarrow>
                            if verify_fee stake = 0
                            then (case cal_mut_hardware_stake T s of
                                None \<Rightarrow> Inl GetReonlineStakeFailed
                              | Some fee \<Rightarrow>
                                  (case change_stake T stash fee True s of
                                     None \<Rightarrow> Inl BalanceNotEnough
                                   | Some s1 \<Rightarrow> Inr (put_hardware_stake stash m (Some (stake\<lparr>verify_fee := fee\<rparr>)) s1)))
                            else Inr s
                        | None \<Rightarrow> Inr s)
                     in case restaked of
                          Inl e \<Rightarrow> Inl e
                        | Inr s2 \<Rightarrow>
                            Inr (op_deposit_event (MachineInfoAdded m)
                              (put_machine m (add_server_room_info room i)
                                (s2\<lparr>LiveMachines := on_add_server_room m (LiveMachines s2)\<rparr>)))))"

definition fulfill_machine ::
    "'w op_config \<Rightarrow> block_number \<Rightarrow> origin \<Rightarrow> machine_id \<Rightarrow> 'w op_state \<Rightarrow> op_error + 'w op_state" where
  "fulfill_machine T now orig m s =
     (case ensure_signed orig of
        None \<Rightarrow> Inl BadOrigin
      | Some ctrl \<Rightarrow>
          (case MachinesInfo s m of
             None \<Rightarrow> Inl Unknown
           | Some i0 \<Rightarrow>
               let live = LiveMachines s; stash = machine_stash i0 in
               if \<not> is_controller i0 ctrl then Inl NotMachineController
               else if \<not> is_ok (binary_search m (fulfilling_machine live)) then Inl MachineStatusNotAllowed
               else case checked_mul 128 (init_stake_per_gpu i0) (gpu_num i0) of
                 None \<Rightarrow> Inl CalcStakeAmountFailed
               | Some stake_need \<Rightarrow>
                   (case (if stake_amount i0 < stake_need
                          then map_option (\<lambda>t. (i0\<lparr>stake_amount := stake_need\<rparr>, t))
                            (change_stake T stash (saturating_sub stake_need (stake_amount i0)) True s)
                          else Some (i0, s)) of
                      None \<Rightarrow> Inl BalanceNotEnough
                    | Some (i1, s1) \<Rightarrow>
                        let s2 = put_hardware_stake stash m None s1;
                            i2 = i1\<lparr>machine_status := Online, online_height := now,
                                    reward_deadline := wrapping_add 32 (CurrentEra s) REWARD_DURATION\<rparr>;
                            s3 = s2\<lparr>MachineRecentReward := (MachineRecentReward s2)(m \<mapsto> new_recent_reward i2)\<rparr>;
                            i3 = i2\<lparr>last_online_height := now, last_machine_restake := now\<rparr>
                        in (case update_snap_on_online_changed T m True (update_region_on_online_changed i3 True s3) of
                              None \<Rightarrow> Inl Unknown
                            | Some s4 \<Rightarrow>
                                Inr (put_machine m i3
                                  (s4\<lparr>LiveMachines := live\<lparr>fulfilling_machine := rm_item m (fulfilling_machine live),
                                                          online_machine := add_item m (online_machine live)\<rparr>\<rparr>))))))"

definition op_claim_rewards :: "'w op_config \<Rightarrow> origin \<Rightarrow> 'w op_state \<Rightarrow> op_error + 'w op_state" where
  "op_claim_rewards T orig s =
     (case ensure_signed orig of
        None \<Rightarrow> Inl BadOrigin
      | Some ctrl \<Rightarrow>
          (case ControllerStash s ctrl of
             None \<Rightarrow> Inl NoStashAccount
           | Some stash \<Rightarrow>
               (case StashMachines s stash of
                  None \<Rightarrow> Inl NotMachineController
                | Some sm \<Rightarrow>
                    (case claim_reward sm of
                       None \<Rightarrow> Inl ClaimRewardFailed
                     | Some (can_claim, sm1) \<Rightarrow>
                         (case deposit_into_existing (op_Currency T) stash can_claim (op_world s) of
                            None \<Rightarrow> Inl ClaimRewardFailed
                          | Some w \<Rightarrow>
                              (case fulfill_machine_stake T stash can_claim (s\<lparr>op_world := w\<rparr>) of
                                 (_, False) \<Rightarrow> Inl ClaimThenFulfillFailed
                               | (s1, True) \<Rightarrow>
                                   let s2 = op_deposit_event (ClaimReward stash can_claim) s1
                                   in Inr (s2\<lparr>StashMachines := (StashMachines s2)(stash \<mapsto> sm1)\<rparr>)))))))"

definition controller_report_offline ::
    "'w op_config \<Rightarrow> block_number \<Rightarrow> origin \<Rightarrow> machine_id \<Rightarrow> 'w op_state \<Rightarrow> op_error + 'w op_state" where
  "controller_report_offline T now orig m s =
     (case ensure_signed orig of
        None \<Rightarrow> Inl BadOrigin
      | Some ctrl \<Rightarrow>
          (case MachinesInfo s m of
             None \<Rightarrow> Inl Unknown
           | Some i \<Rightarrow>
               if \<not> is_controller i ctrl then Inl NotMachineController
               else if machine_status i \<notin> {Online, Rented} then Inl MachineStatusNotAllowed
               else case machine_offline T m (StakerReportOffline now (machine_status i)) s of
                 None \<Rightarrow> Inl Unknown
               | Some s1 \<Rightarrow> Inr (op_deposit_event (ControllerReportOffline m) s1)))"

text \<open>When a machine went offline, and the slash for it, of the statuses from which it can come back.\<close>

fun report_time :: "op_slash_reason \<Rightarrow> block_number option" where
  "report_time (RentedInaccessible t) = Some t"
| "report_time (RentedHardwareMalfunction t) = Some t"
| "report_time (RentedHardwareCounterfeit t) = Some t"
| "report_time (OnlineRentFailed t) = Some t"
| "report_time _ = None"

fun offline_time_of :: "machine_status \<Rightarrow> block_number option" where
  "offline_time_of (StakerReportOffline t _) = Some t"
| "offline_time_of (ReporterReportOffline why _ _ _) = report_time why"
| "offline_time_of _ = None"

fun status_before_offline :: "machine_status \<Rightarrow> machine_status" where
  "status_before_offline (StakerReportOffline _ st) = st"
| "status_before_offline (ReporterReportOffline _ st _ _) = st"
| "status_before_offline st = st"

fun is_staker_offline :: "machine_status \<Rightarrow> bool" where
  "is_staker_offline (StakerReportOffline _ _) = True"
| "is_staker_offline _ = False"

fun slash_on_online ::
    "'w op_config \<Rightarrow> block_number \<Rightarrow> machine_id \<Rightarrow> machine_info \<Rightarrow> block_number \<Rightarrow> machine_status \<Rightarrow>
     'w op_state \<Rightarrow> op_pending_slash_info option" where
  "slash_on_online T now m i duration (StakerReportOffline t st) s =
     (if st = Online
      then new_slash_when_offline T now m (OnlineReportOffline t) None [] None duration s
      else new_slash_when_offline T now m (RentedReportOffline t) None (renters i) None duration s)"
| "slash_on_online T now m i duration (ReporterReportOffline why _ rep committee) s =
     new_slash_when_offline T now m why (Some rep) (OfflineMachine2renters s m) (Some committee) duration s"
| "slash_on_online T now m i duration _ s = None"

text \<open>The slash is waived if the maximal one was executed meanwhile, or after a year with ten idle days.\<close>

definition waived_slash ::
    "block_number \<Rightarrow> machine_id \<Rightarrow> machine_info \<Rightarrow> block_number \<Rightarrow> 'w op_state \<Rightarrow> bool" where
  "waived_slash now m i off_time s \<longleftrightarrow>
     (case machine_status i of
        ReporterReportOffline why _ _ _ \<Rightarrow>
          reach_max_slash why (saturating_sub now off_time) \<and>
          off_time < MaxSlashExeced s m \<and> MaxSlashExeced s m < now
      | StakerReportOffline _ _ \<Rightarrow>
          online_height i \<le> now \<and> 365 * ONE_DAY < saturating_sub now (online_height i) \<and>
          last_online_height i \<le> off_time \<and> 10 * ONE_DAY \<le> saturating_sub off_time (last_online_height i)
      | _ \<Rightarrow> False)"

definition add_pending_slash :: "machine_id \<Rightarrow> op_pending_slash_info \<Rightarrow> 'w op_state \<Rightarrow> 'w op_state" where
  "add_pending_slash m info s =
     (let (slash_id, s1) = get_new_slash_id s; at = slash_exec_time info
      in op_deposit_event (AddSlash m slash_id)
           (s1\<lparr>PendingExecSlash := (PendingExecSlash s1)(at := add_item slash_id (PendingExecSlash s1 at)),
               PendingSlash := (PendingSlash s1)(slash_id \<mapsto> info),
               Machine2PendingSlashIds := (Machine2PendingSlashIds s1)
                 (m := add_item slash_id (Machine2PendingSlashIds s1 m))\<rparr>))"

definition back_online ::
    "'w op_config \<Rightarrow> machine_id \<Rightarrow> machine_info \<Rightarrow> live_machine \<Rightarrow> 'w op_state \<Rightarrow> op_error + 'w op_state" where
  "back_online T m i live0 s =
     (let live = live0\<lparr>offline_machine := rm_item m (offline_machine live0)\<rparr> in
      case update_snap_on_online_changed T m True s of
        None \<Rightarrow> Inl Unknown
      | Some s1 \<Rightarrow>
          let s2 = update_region_on_online_changed i True s1 in
          case (if machine_status i = Rented
                then map_option (\<lambda>t. (live\<lparr>rented_machine := add_item m (rented_machine live)\<rparr>,
                    update_region_on_rent_changed i True t)) (update_snap_on_rent_changed T m True s2)
                else Some (live\<lparr>online_machine := add_item m (online_machine live)\<rparr>, s2)) of
            None \<Rightarrow> Inl Unknown
          | Some (live1, s3) \<Rightarrow>
              Inr (op_deposit_event (ControllerReportOnline m)
                (put_machine m i (s3\<lparr>RentedFinished := (RentedFinished s3)(m := None), LiveMachines := live1\<rparr>))))"

definition controller_report_online ::
    "'w op_config \<Rightarrow> block_number \<Rightarrow> origin \<Rightarrow> machine_id \<Rightarrow> 'w op_state \<Rightarrow> op_error + 'w op_state" where
  "controller_report_online T now orig m s =
     (case ensure_signed orig of
        None \<Rightarrow> Inl BadOrigin
      | Some ctrl \<Rightarrow>
          (case MachinesInfo s m of
             None \<Rightarrow> Inl Unknown
           | Some i \<Rightarrow>
               if \<not> is_controller i ctrl then Inl NotMachineController
               else case offline_time_of (machine_status i) of
                 None \<Rightarrow> Inl MachineStatusNotAllowed
               | Some off_time \<Rightarrow>
                   let before = status_before_offline (machine_status i) in
                   if is_staker_offline (machine_status i) \<and> before \<notin> {Online, Rented} then Inr s
                   else case slash_on_online T now m i (saturating_sub now off_time) (machine_status i) s of
                     None \<Rightarrow> Inl Unknown
                   | Some info0 \<Rightarrow>
                       let info = (if waived_slash now m i off_time s then info0\<lparr>slash_amount := 0\<rparr> else info0);
                           i1 = i\<lparr>last_online_height := now,
                                  machine_status := (if RentedFinished s m \<noteq> None then Online else before)\<rparr>
                       in (case (if slash_amount info \<noteq> 0
                                 then map_option (add_pending_slash m info)
                                   (change_stake T (machine_stash i) (slash_amount info) True s)
                                 else Some s) of
                             None \<Rightarrow> Inl BalanceNotEnough
                           | Some s1 \<Rightarrow> back_online T m i1 (LiveMachines s) s1)))"

definition op_machine_exit ::
    "'w op_config \<Rightarrow> block_number \<Rightarrow> origin \<Rightarrow> machine_id \<Rightarrow> 'w op_state \<Rightarrow> op_error + 'w op_state" where
  "op_machine_exit T now orig m s =
     (case ensure_signed orig of
        None \<Rightarrow> Inl BadOrigin
      | Some ctrl \<Rightarrow>
          (case MachinesInfo s m of
             None \<Rightarrow> Inl Unknown
           | Some i \<Rightarrow>
               if \<not> is_controller i ctrl then Inl NotMachineController
               else if \<not> mi_is_online i then Inl MachineStatusNotAllowed
               else if \<not> reward_deadline i \<le> wrapping_add 32 (CurrentEra s) 365 then Inl TimeNotAllowed
               else if \<not> 10 * ONE_DAY \<le> saturating_sub now (last_online_height i) then Inl TimeNotAllowed
               else do_machine_exit T m i s))"

definition restake_online_machine ::
    "'w op_config \<Rightarrow> block_number \<Rightarrow> origin \<Rightarrow> machine_id \<Rightarrow> 'w op_state \<Rightarrow> op_error + 'w op_state" where
  "restake_online_machine T now orig m s =
     (case ensure_signed orig of
        None \<Rightarrow> Inl BadOrigin
      | Some ctrl \<Rightarrow>
          (case MachinesInfo s m of
             None \<Rightarrow> Inl Unknown
           | Some i \<Rightarrow>
               if \<not> is_controller i ctrl then Inl NotMachineController
               else if \<not> REBOND_FREQUENCY \<le> saturating_sub now (last_machine_restake i) then Inl TooFastToReStake
               else case stake_per_gpu T s of
                 None \<Rightarrow> Inl CalcStakeAmountFailed
               | Some per_gpu \<Rightarrow>
                   (case checked_mul 128 per_gpu (gpu_num i) of
                      None \<Rightarrow> Inl CalcStakeAmountFailed
                    | Some stake_need \<Rightarrow>
                        if \<not> stake_need < stake_amount i then Inl NoStakeToReduce
                        else case checked_sub (stake_amount i) stake_need of
                          None \<Rightarrow> Inl ReduceStakeFailed
                        | Some extra_stake \<Rightarrow>
                            (case change_stake T (machine_stash i) extra_stake False s of
                               None \<Rightarrow> Inl ReduceStakeFailed
                             | Some s1 \<Rightarrow>
                                 Inr (op_deposit_event (MachineRestaked m (stake_amount i) stake_need)
                                   (put_machine m (i\<lparr>stake_amount := stake_need, last_machine_restake := now,
                                                     init_stake_per_gpu := per_gpu\<rparr>) s1))))))"

definition op_apply_slash_review ::
    "'w op_config \<Rightarrow> block_number \<Rightarrow> origin \<Rightarrow> slash_id \<Rightarrow> bytes \<Rightarrow> 'w op_state \<Rightarrow> op_error + 'w op_state" where
  "op_apply_slash_review T now orig slash_id why s =
     (case ensure_signed orig of
        None \<Rightarrow> Inl BadOrigin
      | Some ctrl \<Rightarrow>
          (case PendingSlash s slash_id of
             None \<Rightarrow> Inl Unknown
           | Some info \<Rightarrow>
               (case MachinesInfo s (slash_machine_id info) of
                  None \<Rightarrow> Inl Unknown
                | Some i \<Rightarrow>
                    (case OnlineStakeParams s of
                       None \<Rightarrow> Inl GetReonlineStakeFailed
                     | Some params \<Rightarrow>
                         if controller i \<noteq> ctrl then Inl NotMachineController
                         else if \<not> now < slash_exec_time info then Inl ExpiredSlash
                         else case change_stake T (machine_stash i) (slash_review_stake params) True s of
                           None \<Rightarrow> Inl BalanceNotEnough
                         | Some s1 \<Rightarrow>
                             let at = slash_exec_time info;
                                 checking = (case PendingSlashReviewChecking s1 at of None \<Rightarrow> [] | Some ids \<Rightarrow> ids)
                             in Inr (op_deposit_event (ApplySlashReview slash_id)
                                  (s1\<lparr>PendingSlashReview := (PendingSlashReview s1)(slash_id \<mapsto>
                                        \<lparr>applicant = ctrl, staked_amount = slash_review_stake params, apply_time = now,
                                         expire_time = at, reason = why\<rparr>),
                                      PendingSlashReviewChecking := (PendingSlashReviewChecking s1)
                                        (at \<mapsto> add_item slash_id checking)\<rparr>))))))"

definition op_cancel_slash :: "'w op_config \<Rightarrow> origin \<Rightarrow> slash_id \<Rightarrow> 'w op_state \<Rightarrow> op_error + 'w op_state" where
  "op_cancel_slash T orig slash_id s =
     (if \<not> op_CancelSlashOrigin T orig then Inl BadOrigin else do_cancel_slash T slash_id s)"

definition op_exec_slash ::
    "'w op_config \<Rightarrow> block_number \<Rightarrow> origin \<Rightarrow> machine_id \<Rightarrow> 'w op_state \<Rightarrow> op_error + 'w op_state" where
  "op_exec_slash T now orig m s =
     (if ensure_signed orig = None then Inl BadOrigin
      else case MachinesInfo s m of
        None \<Rightarrow> Inl Unknown
      | Some i \<Rightarrow>
          (case machine_status i of
             ReporterReportOffline why _ rep committee \<Rightarrow>
               (case report_time why of
                  None \<Rightarrow> Inl MachineStatusNotAllowed
                | Some t \<Rightarrow>
                    let duration = saturating_sub now t in
                    if \<not> reach_max_slash why duration then Inl MachineStatusNotAllowed
                    else if t < MaxSlashExeced s m \<and> MaxSlashExeced s m < now then Inl MachineStatusNotAllowed
                    else case new_slash_when_offline T now m why (Some rep) (OfflineMachine2renters s m)
                        (Some committee) duration s of
                      None \<Rightarrow> Inl Unknown
                    | Some info \<Rightarrow>
                        let s1 = (if slash_amount info \<noteq> 0 then add_pending_slash m info s else s)
                        in Inr (s1\<lparr>MaxSlashExeced := (MaxSlashExeced s1)(m := now)\<rparr>))
           | _ \<Rightarrow> Inl MachineStatusNotAllowed))"

definition update_machine_info ::
    "origin \<Rightarrow> machine_id \<Rightarrow> staker_customize_info \<Rightarrow> 'w op_state \<Rightarrow> op_error + 'w op_state" where
  "update_machine_info orig m room s =
     (case ensure_signed orig of
        None \<Rightarrow> Inl BadOrigin
      | Some ctrl \<Rightarrow>
          (case MachinesInfo s m of
             None \<Rightarrow> Inl Unknown
           | Some i \<Rightarrow>
               (case can_update_server_room_info i ctrl of
                  Some e \<Rightarrow> Inl (op_error_of e)
                | None \<Rightarrow>
                    if telecom_operators room = [] then Inl TelecomIsNull
                    else if \<not> is_ok (binary_search (server_room room) (StashServerRooms s (machine_stash i)))
                    then Inl ServerRoomNotFound
                    else Inr (op_deposit_event (MachineInfoUpdated m)
                      (put_machine m (add_server_room_info room i) s)))))"

fun force_exit_loop :: "'w op_config \<Rightarrow> machine_id list \<Rightarrow> 'w op_state \<Rightarrow> op_error + 'w op_state" where
  "force_exit_loop T [] s = Inr s"
| "force_exit_loop T (m # ms) s =
     (case MachinesInfo s m of
        None \<Rightarrow> Inl Unknown
      | Some i \<Rightarrow>
          (case do_machine_exit T m i s of Inl e \<Rightarrow> Inl e | Inr s1 \<Rightarrow> force_exit_loop T ms s1))"

definition force_machine_exit ::
    "'w op_config \<Rightarrow> origin \<Rightarrow> machine_id list \<Rightarrow> 'w op_state \<Rightarrow> op_error + 'w op_state" where
  "force_machine_exit T orig ms s =
     (case ensure_signed orig of
        None \<Rightarrow> Inl BadOrigin
      | Some signer \<Rightarrow>
          if signer \<notin> set (AuthorizedForceExitAccounts s) then Inl NotAuthorized
          else force_exit_loop T ms s)"

definition update_authorized_force_exit_accounts ::
    "origin \<Rightarrow> account list \<Rightarrow> 'w op_state \<Rightarrow> op_error + 'w op_state" where
  "update_authorized_force_exit_accounts orig accounts s =
     (if \<not> ensure_root orig then Inl BadOrigin else Inr (s\<lparr>AuthorizedForceExitAccounts := accounts\<rparr>))"

datatype op_call =
    SetRewardInfo phase_reward_info_detail
  | SetOnlineStakeParams online_stake_params_info
  | SetStandardGpuPointPrice standard_gpu_point_price
  | SetRentfeeDestroyPercent nat
  | SetController account
  | StashResetControllerCall account
  | OfflineMachineChangeHardwareInfo machine_id
  | BondMachineCall machine_id bytes bytes
  | GenServerRoom
  | AddMachineInfo machine_id staker_customize_info
  | FulfillMachine machine_id
  | ClaimRewards
  | ControllerReportOfflineCall machine_id
  | ControllerReportOnlineCall machine_id
  | MachineExitCall machine_id
  | RestakeOnlineMachine machine_id
  | ApplySlashReviewCall slash_id bytes
  | CancelSlash slash_id
  | ExecSlash machine_id
  | UpdateMachineInfo machine_id staker_customize_info
  | ForceMachineExit "machine_id list"
  | UpdateAuthorizedForceExitAccounts "account list"

fun op_dispatch ::
    "'w op_config \<Rightarrow> block_number \<Rightarrow> origin \<Rightarrow> op_call \<Rightarrow> 'w op_state \<Rightarrow> op_error + 'w op_state" where
  "op_dispatch T now orig (SetRewardInfo x) s = set_reward_info orig x s"
| "op_dispatch T now orig (SetOnlineStakeParams x) s = set_online_stake_params orig x s"
| "op_dispatch T now orig (SetStandardGpuPointPrice x) s = set_standard_gpu_point_price orig x s"
| "op_dispatch T now orig (SetRentfeeDestroyPercent x) s = set_rentfee_destroy_percent orig x s"
| "op_dispatch T now orig (SetController x) s = set_controller orig x s"
| "op_dispatch T now orig (StashResetControllerCall x) s = stash_reset_controller orig x s"
| "op_dispatch T now orig (OfflineMachineChangeHardwareInfo m) s = offline_machine_change_hardware_info T now orig m s"
| "op_dispatch T now orig (BondMachineCall m msg sig) s = bond_machine T now orig m msg sig s"
| "op_dispatch T now orig GenServerRoom s = gen_server_room T orig s"
| "op_dispatch T now orig (AddMachineInfo m x) s = op_add_machine_info T orig m x s"
| "op_dispatch T now orig (FulfillMachine m) s = fulfill_machine T now orig m s"
| "op_dispatch T now orig ClaimRewards s = op_claim_rewards T orig s"
| "op_dispatch T now orig (ControllerReportOfflineCall m) s = controller_report_offline T now orig m s"
| "op_dispatch T now orig (ControllerReportOnlineCall m) s = controller_report_online T now orig m s"
| "op_dispatch T now orig (MachineExitCall m) s = op_machine_exit T now orig m s"
| "op_dispatch T now orig (RestakeOnlineMachine m) s = restake_online_machine T now orig m s"
| "op_dispatch T now orig (ApplySlashReviewCall n x) s = op_apply_slash_review T now orig n x s"
| "op_dispatch T now orig (CancelSlash n) s = op_cancel_slash T orig n s"
| "op_dispatch T now orig (ExecSlash m) s = op_exec_slash T now orig m s"
| "op_dispatch T now orig (UpdateMachineInfo m x) s = update_machine_info orig m x s"
| "op_dispatch T now orig (ForceMachineExit ms) s = force_machine_exit T orig ms s"
| "op_dispatch T now orig (UpdateAuthorizedForceExitAccounts xs) s = update_authorized_force_exit_accounts orig xs s"

section \<open>Stakes are backed\<close>

text \<open>
  What the pallet relies on: the laws of the currency and of \<open>Generic_Func\<close>, and that rewarding a committee
  member does not touch reserves.
\<close>

locale op_host = reservable_currency "op_Currency T" +
  generic_func "op_Currency T" "op_pay_fixed_tx_fee T" "op_random_server_room T" "op_SlashAndReward T"
  for T :: "'w op_config" +
  assumes add_reward_reserved:
    "reserved_balance (op_Currency T) (op_add_reward T c v w) = reserved_balance (op_Currency T) w"

definition op_reserved :: "'w op_config \<Rightarrow> 'w op_state \<Rightarrow> account \<Rightarrow> balance" where
  "op_reserved T s = reserved_balance (op_Currency T) (op_world s)"

abbreviation op_backed :: "'w op_config \<Rightarrow> 'w op_state \<Rightarrow> bool" where
  "op_backed T \<equiv> backed StashStake (op_reserved T)"

text \<open>Operations that move neither stakes nor money.\<close>

definition same_money :: "'w op_state \<Rightarrow> 'w op_state \<Rightarrow> bool" where
  "same_money s s' \<longleftrightarrow> op_world s' = op_world s \<and> StashStake s' = StashStake s"

lemma same_money_backed: "same_money s s' \<Longrightarrow> op_backed T s' = op_backed T s"
  by (simp add: same_money_def backed_def op_reserved_def)

lemma op_backed_simps [simp]:
  "op_backed T (put_machine m i s) = op_backed T s"
  "op_backed T (op_deposit_event e s) = op_backed T s"
  "op_backed T (update_region i f s) = op_backed T s"
  "op_backed T (update_region_on_online_changed i b s) = op_backed T s"
  "op_backed T (update_region_on_rent_changed i b s) = op_backed T s"
  "op_backed T (update_region_on_exit i s) = op_backed T s"
  "op_backed T (put_hardware_stake a m u s) = op_backed T s"
  "op_backed T (add_pending_slash m info s) = op_backed T s"
  "op_backed T (adjust_rent_fee_destroy_percent T' g era s) = op_backed T s"
  "op_backed T (update_snap_for_new_era s) = op_backed T s"
  by (rule same_money_backed;
      auto simp: same_money_def put_machine_def op_deposit_event_def update_region_def
        update_region_on_online_changed_def update_region_on_rent_changed_def update_region_on_exit_def
        put_hardware_stake_def add_pending_slash_def get_new_slash_id_def adjust_rent_fee_destroy_percent_def
        update_snap_for_new_era_def Let_def split: option.split)+

lemma op_backed_updates [simp]:
  "op_backed T (s\<lparr>LiveMachines := x1\<rparr>) = op_backed T s" "op_backed T (s\<lparr>MachinesInfo := x2\<rparr>) = op_backed T s"
  "op_backed T (s\<lparr>StashMachines := x3\<rparr>) = op_backed T s" "op_backed T (s\<lparr>ControllerMachines := x4\<rparr>) = op_backed T s"
  "op_backed T (s\<lparr>PendingSlash := x5\<rparr>) = op_backed T s" "op_backed T (s\<lparr>PendingSlashReview := x6\<rparr>) = op_backed T s"
  "op_backed T (s\<lparr>PendingSlashReviewChecking := x7\<rparr>) = op_backed T s"
  "op_backed T (s\<lparr>PendingExecSlash := x8\<rparr>) = op_backed T s" "op_backed T (s\<lparr>MachineRecentReward := x9\<rparr>) = op_backed T s"
  "op_backed T (s\<lparr>RentedFinished := y1\<rparr>) = op_backed T s" "op_backed T (s\<lparr>MachineRentedGPU := y2\<rparr>) = op_backed T s"
  "op_backed T (s\<lparr>SysInfo := y3\<rparr>) = op_backed T s" "op_backed T (s\<lparr>AllMachineIdSnap := y4\<rparr>) = op_backed T s"
  "op_backed T (s\<lparr>MaxSlashExeced := y5\<rparr>) = op_backed T s" "op_backed T (s\<lparr>StashServerRooms := y6\<rparr>) = op_backed T s"
  "op_backed T (s\<lparr>ErasStashPoints := y7\<rparr>) = op_backed T s" "op_backed T (s\<lparr>ErasMachinePoints := y8\<rparr>) = op_backed T s"
  "op_backed T (s\<lparr>StashController := y9\<rparr>) = op_backed T s" "op_backed T (s\<lparr>ControllerStash := z1\<rparr>) = op_backed T s"
  "op_backed T (s\<lparr>PhaseRewardInfo := z2\<rparr>) = op_backed T s" "op_backed T (s\<lparr>OnlineStakeParams := z3\<rparr>) = op_backed T s"
  "op_backed T (s\<lparr>StandardGPUPointPrice := z4\<rparr>) = op_backed T s" "op_backed T (s\<lparr>RentFeeDestroyPercent := z5\<rparr>) = op_backed T s"
  "op_backed T (s\<lparr>AuthorizedForceExitAccounts := z6\<rparr>) = op_backed T s"
  "op_backed T (s\<lparr>OfflineMachine2renters := z7\<rparr>) = op_backed T s"
  by (rule same_money_backed; simp add: same_money_def)+

lemma update_snap_on_online_changed_backed:
  assumes "update_snap_on_online_changed T' m b s = Some s'"
  shows "op_backed T s' = op_backed T s"
  using assms unfolding update_snap_on_online_changed_def Let_def
  by (cases b) (auto split: option.splits)

lemma update_snap_on_rent_changed_backed:
  assumes "update_snap_on_rent_changed T' m b s = Some s'"
  shows "op_backed T s' = op_backed T s"
  using assms unfolding update_snap_on_rent_changed_def Let_def
  by (cases b) (auto split: option.splits)

lemmas snap_backed = update_snap_on_online_changed_backed [THEN iffD2] update_snap_on_rent_changed_backed [THEN iffD2]

context op_host
begin

lemma change_stake_backed:
  assumes "change_stake T who v b s = Some s'" "op_backed T s"
  shows "op_backed T s'"
proof (cases b)
  case True
  then obtain w where "reserve (op_Currency T) who v (op_world s) = Some w"
    "op_world s' = w" "StashStake s' = (StashStake s)(who := StashStake s who + v)"
    using assms(1) by (auto simp: change_stake_def op_deposit_event_def checked_Some split: option.splits if_splits)
  with assms(2) show ?thesis by (auto simp: backed_def op_reserved_def reserve_reserved)
next
  case False
  then have "op_world s' = fst (unreserve (op_Currency T) who v (op_world s))"
    "StashStake s' = (StashStake s)(who := StashStake s who - v)"
    using assms(1) by (auto simp: change_stake_def op_deposit_event_def checked_Some split: option.splits)
  with assms(2) show ?thesis by (auto simp: backed_def op_reserved_def unreserve_reserved diff_le_mono)
qed

lemma op_slash_and_reward_backed:
  assumes "op_backed T s"
  shows "op_backed T (op_slash_and_reward T who v rs s)"
  unfolding backed_def
proof
  fix a
  show "StashStake (op_slash_and_reward T who v rs s) a \<le> op_reserved T (op_slash_and_reward T who v rs s) a"
    using backedD [OF assms, of a] slash_reward_lower [of "op_world s" a "[who]" v rs]
    by (auto simp: op_slash_and_reward_def op_reserved_def saturating_sub_def split: if_splits)
qed

lemma world_backed:
  assumes "reserved_balance (op_Currency T) w = reserved_balance (op_Currency T) (op_world s)"
  shows "op_backed T (s\<lparr>op_world := w\<rparr>) = op_backed T s"
  by (simp add: backed_def op_reserved_def assms)

lemma fulfill_loop_backed: "fulfill_loop T ms v s = (s', b) \<Longrightarrow> op_backed T s \<Longrightarrow> op_backed T s'"
  by (induction ms arbitrary: v s)
    (auto simp: Let_def split: option.splits if_splits dest!: change_stake_backed)

lemma change_machine_rent_fee_backed:
  assumes "change_machine_rent_fee T a m v1 v2 s = (s', b)" "op_backed T s"
  shows "op_backed T s'"
  using assms by (auto simp: change_machine_rent_fee_def fulfill_machine_stake_def Let_def
      split: option.splits prod.splits bool.splits dest!: fulfill_loop_backed)

lemma do_slash_deposit_backed: "op_backed T s \<Longrightarrow> op_backed T (fst (do_slash_deposit T info s))"
  by (auto simp: do_slash_deposit_def Let_def op_slash_and_reward_backed split: option.split)

lemma exec_pending_loop_backed: "op_backed T s \<Longrightarrow> op_backed T (exec_pending_loop T ids s)"
  by (induction ids arbitrary: s)
    (auto simp: Let_def op_slash_and_reward_backed do_slash_deposit_backed split: option.split)

lemma check_pending_loop_backed: "op_backed T s \<Longrightarrow> op_backed T (fst (check_pending_loop T ids s))"
  by (induction ids arbitrary: s) (auto simp: Let_def op_slash_and_reward_backed split: option.split)

lemma check_pending_slash_backed: "op_backed T s \<Longrightarrow> op_backed T (check_pending_slash T now s)"
  using check_pending_loop_backed [of s "the (PendingSlashReviewChecking s now)"]
  by (auto simp: check_pending_slash_def split: option.splits prod.splits bool.splits)

lemma reward_committees_reserved:
  "reserved_balance (op_Currency T) (reward_committees T cs v w) = reserved_balance (op_Currency T) w"
  by (induction cs arbitrary: w) (simp_all add: add_reward_reserved)

lemma distribute_reward_backed:
  "op_backed T (distribute_reward_to_machine T m era v mp sp s) = op_backed T s"
  by (auto simp: distribute_reward_to_machine_def Let_def backed_def op_reserved_def reward_committees_reserved
      split: option.split)

lemma distribute_loop_backed:
  "op_backed T (snd (distribute_loop T era v mp sp n queue s)) = op_backed T s"
proof (induction queue arbitrary: n s)
  case Nil
  show ?case by (cases n) simp_all
next
  case (Cons m queue)
  then show ?case by (cases n) (simp_all add: distribute_reward_backed)
qed

lemma backup_and_reward_backed: "op_backed T (backup_and_reward T now s) = op_backed T s"
  by (simp add: backup_and_reward_def Let_def distribute_loop_backed split_beta)

lemma on_initialize_backed: "op_backed T s \<Longrightarrow> op_backed T (op_on_initialize T now s)"
  by (simp add: op_on_initialize_def Let_def check_pending_slash_backed exec_pending_slash_def
      exec_pending_loop_backed backup_and_reward_backed)

lemma machine_offline_backed: "machine_offline T m st s = Some s' \<Longrightarrow> op_backed T s \<Longrightarrow> op_backed T s'"
  by (auto simp: machine_offline_def Let_def split: option.splits if_splits dest!: snap_backed)

end

context op_host
begin

lemma do_machine_exit_backed: "do_machine_exit T m i s = Inr s' \<Longrightarrow> op_backed T s \<Longrightarrow> op_backed T s'"
  by (auto simp: do_machine_exit_def split: option.splits dest!: change_stake_backed snap_backed)

lemma force_exit_loop_backed: "force_exit_loop T ms s = Inr s' \<Longrightarrow> op_backed T s \<Longrightarrow> op_backed T s'"
  by (induction ms arbitrary: s) (auto split: option.splits sum.splits dest: do_machine_exit_backed)

lemma do_cancel_slash_backed: "do_cancel_slash T n s = Inr s' \<Longrightarrow> op_backed T s \<Longrightarrow> op_backed T s'"
  by (auto simp: do_cancel_slash_def Let_def split: option.splits dest!: change_stake_backed)

lemma back_online_backed: "back_online T m i live s = Inr s' \<Longrightarrow> op_backed T s \<Longrightarrow> op_backed T s'"
  by (auto simp: back_online_def Let_def split: option.splits if_splits dest!: snap_backed)

lemma controller_report_online_backed:
  assumes "controller_report_online T now orig m s = Inr s'" "op_backed T s"
  shows "op_backed T s'"
  using assms by (auto simp: controller_report_online_def Let_def split: option.splits if_splits
      dest!: back_online_backed change_stake_backed)

lemma bond_machine_backed:
  assumes "bond_machine T now orig m msg sig s = Inr s'" "op_backed T s"
  shows "op_backed T s'"
  using assms by (auto simp: bond_machine_def world_backed pay_reserved split: option.splits if_splits
      dest!: change_stake_backed)

lemma gen_server_room_backed:
  assumes "gen_server_room T orig s = Inr s'" "op_backed T s"
  shows "op_backed T s'"
proof -
  obtain ctrl w where "op_pay_fixed_tx_fee T ctrl (op_world s) = Some w"
    "op_world s' = snd (op_random_server_room T w)" "StashStake s' = StashStake s"
    using assms(1) by (auto simp: gen_server_room_def op_deposit_event_def split_beta split: option.splits)
  then have "op_reserved T s' = op_reserved T s" by (simp add: op_reserved_def room_reserved pay_reserved)
  with \<open>StashStake s' = StashStake s\<close> assms(2) show ?thesis by (simp add: backed_def)
qed

lemma claim_rewards_backed:
  assumes "op_claim_rewards T orig s = Inr s'" "op_backed T s"
  shows "op_backed T s'"
  using assms by (auto simp: op_claim_rewards_def fulfill_machine_stake_def world_backed Let_def
      deposit_into_existing_law split: option.splits prod.splits bool.splits dest!: fulfill_loop_backed)

lemma op_dispatch_backed:
  assumes "op_dispatch T now orig c s = Inr s'" "op_backed T s"
  shows "op_backed T s'"
proof (cases c)
  case (OfflineMachineChangeHardwareInfo m)
  with assms show ?thesis by (auto simp: offline_machine_change_hardware_info_def Let_def
        split: option.splits if_splits dest!: change_stake_backed snap_backed)
next
  case (AddMachineInfo m x)
  with assms show ?thesis by (auto simp: op_add_machine_info_def Let_def split: option.splits if_splits sum.splits
        dest!: change_stake_backed)
next
  case (FulfillMachine m)
  with assms show ?thesis by (auto simp: fulfill_machine_def Let_def split: option.splits if_splits
        dest!: change_stake_backed snap_backed)
next
  case (RestakeOnlineMachine m)
  with assms show ?thesis by (auto simp: restake_online_machine_def split: option.splits if_splits
        dest!: change_stake_backed)
next
  case (ApplySlashReviewCall n x)
  with assms show ?thesis by (auto simp: op_apply_slash_review_def Let_def split: option.splits if_splits
        dest!: change_stake_backed)
next
  case (ExecSlash m)
  with assms show ?thesis by (auto simp: op_exec_slash_def Let_def split: option.splits if_splits
        machine_status.splits)
next
  case (BondMachineCall m msg sig)
  with assms show ?thesis by (auto intro: bond_machine_backed)
next
  case GenServerRoom
  with assms show ?thesis by (auto intro: gen_server_room_backed)
next
  case ClaimRewards
  with assms show ?thesis by (auto intro: claim_rewards_backed)
next
  case (ControllerReportOnlineCall m)
  with assms show ?thesis by (auto intro: controller_report_online_backed)
next
  case (ForceMachineExit ms)
  with assms show ?thesis by (auto simp: force_machine_exit_def split: option.splits if_splits
        dest: force_exit_loop_backed)
qed (use assms in \<open>auto simp: set_reward_info_def set_online_stake_params_def set_standard_gpu_point_price_def
    set_rentfee_destroy_percent_def set_controller_def stash_reset_controller_def Let_def
    controller_report_offline_def op_machine_exit_def op_cancel_slash_def update_machine_info_def
    update_authorized_force_exit_accounts_def split: option.splits if_splits
    dest!: machine_offline_backed do_machine_exit_backed do_cancel_slash_backed\<close>)

end

section \<open>Runs of the pallet\<close>

text \<open>What the committee, maintenance and rental pallets do to machines, one rule for each trait function.\<close>

inductive op_trait_step :: "'w op_config \<Rightarrow> 'w op_state \<Rightarrow> 'w op_state \<Rightarrow> bool" for T where
  trait_booked: "booked_machine_op m s = Some s' \<Longrightarrow> op_trait_step T s s'"
| trait_reverted: "revert_booked_machine m s = Some s' \<Longrightarrow> op_trait_step T s s'"
| trait_confirmed: "confirm_machine T now cs hw s = Some s' \<Longrightarrow> op_trait_step T s s'"
| trait_refused: "refuse_machine T cs m s = (r, s') \<Longrightarrow> op_trait_step T s s'"
| trait_staked: "change_staked_balance T a v b s = Some s' \<Longrightarrow> op_trait_step T s s'"
| trait_slashed: "exec_slash_stake a v s = Some s' \<Longrightarrow> op_trait_step T s s'"
| trait_reported: "mt_machine_offline T rep cs m why s = Some s' \<Longrightarrow> op_trait_step T s s'"
| trait_mt_staked: "mt_change_staked_balance T a v b s = Some s' \<Longrightarrow> op_trait_step T s s'"
| trait_mt_slashed: "mt_rm_stash_total_stake a v s = Some s' \<Longrightarrow> op_trait_step T s s'"
| trait_rent_start: "change_machine_status_on_rent_start m n s = Some s' \<Longrightarrow> op_trait_step T s s'"
| trait_rent_confirmed: "change_machine_status_on_confirmed T m a s = Some s' \<Longrightarrow> op_trait_step T s s'"
| trait_rent_end: "change_machine_status_on_rent_end T now m n d b1 b2 a s = Some s' \<Longrightarrow> op_trait_step T s s'"
| trait_rent_expired: "change_machine_status_on_confirm_expired m n s = Some s' \<Longrightarrow> op_trait_step T s s'"
| trait_rent_fee: "change_machine_rent_fee T a m v1 v2 s = (s', ok) \<Longrightarrow> op_trait_step T s s'"
| trait_renters: "reset_machine_renters m as s = Some s' \<Longrightarrow> op_trait_step T s s'"
| trait_offline_renters: "op_trait_step T s (add_offline_machine_to_renters m as s)"

inductive op_step :: "'w op_config \<Rightarrow> 'w op_state \<Rightarrow> 'w op_state \<Rightarrow> bool" for T where
  step_call: "op_dispatch T now orig c s = Inr s' \<Longrightarrow> op_step T s s'"
| step_hook: "op_step T s (op_on_initialize T now s)"
| step_trait: "op_trait_step T s s' \<Longrightarrow> op_step T s s'"

context op_host
begin

lemma confirm_machine_backed:
  assumes "confirm_machine T now cs hw s = Some s'" "op_backed T s"
  shows "op_backed T s'"
  using assms by (auto simp: confirm_machine_def Let_def op_slash_and_reward_backed split: option.splits if_splits
      dest!: change_stake_backed snap_backed)

lemma refuse_machine_backed:
  assumes "refuse_machine T cs m s = (r, s')" "op_backed T s"
  shows "op_backed T s'"
  using assms by (auto simp: refuse_machine_def Let_def op_slash_and_reward_backed split: option.splits if_splits
      dest!: change_stake_backed)

lemma exec_slash_stake_backed:
  assumes "exec_slash_stake a v s = Some s'" "op_backed T s"
  shows "op_backed T s'"
  unfolding backed_def
proof
  fix b
  have "op_world s' = op_world s" "StashStake s' b \<le> StashStake s b"
    using assms(1) by (auto simp: exec_slash_stake_def checked_Some split: option.splits)
  then show "StashStake s' b \<le> op_reserved T s' b" using backedD [OF assms(2), of b]
    by (simp add: op_reserved_def)
qed

lemma op_trait_step_backed:
  assumes "op_trait_step T s s'" "op_backed T s"
  shows "op_backed T s'"
  using assms
proof cases
  case (trait_confirmed now cs hw)
  then show ?thesis using assms(2) confirm_machine_backed by blast
next
  case (trait_refused cs m r)
  then show ?thesis using assms(2) refuse_machine_backed by blast
next
  case (trait_slashed a v)
  then show ?thesis using assms(2) exec_slash_stake_backed by blast
next
  case (trait_mt_slashed a v)
  then show ?thesis using assms(2) exec_slash_stake_backed unfolding mt_rm_stash_total_stake_def by blast
next
  case (trait_rent_fee a m v1 v2 ok)
  then show ?thesis using assms(2) change_machine_rent_fee_backed by blast
next
  case (trait_rent_end now m n d b1 b2 a)
  then show ?thesis using assms(2)
    by (auto simp: change_machine_status_on_rent_end_def Let_def split: option.splits if_splits
        dest!: snap_backed)
qed (auto simp: booked_machine_op_def revert_booked_machine_def move_machine_def change_staked_balance_def
    mt_change_staked_balance_def mt_machine_offline_def change_machine_status_on_rent_start_def
    change_machine_status_on_confirmed_def change_machine_status_on_confirm_expired_def reset_machine_renters_def
    add_offline_machine_to_renters_def Let_def split: option.splits if_splits
    dest!: change_stake_backed machine_offline_backed snap_backed)

end

sublocale op_host \<subseteq> op_safe: safe_pallet "op_step T" "\<lambda>_. True" StashStake "op_reserved T"
proof
  fix s s'
  show "op_step T s s' \<Longrightarrow> True \<Longrightarrow> op_backed T s \<Longrightarrow> True" by simp
  assume "op_step T s s'" "op_backed T s"
  then show "op_backed T s'"
    by cases (blast intro: op_dispatch_backed on_initialize_backed op_trait_step_backed)+
qed

section \<open>Well-formed storage\<close>

text \<open>
  The vectors that are searched by bisection are strictly ascending, and \<open>StashController\<close> and
  \<open>ControllerStash\<close> are inverse to each other.
\<close>

definition live_ok :: "live_machine \<Rightarrow> bool" where
  "live_ok l \<longleftrightarrow> ascending (bonding_machine l) \<and> ascending (confirmed_machine l) \<and> ascending (booked_machine l) \<and>
     ascending (online_machine l) \<and> ascending (fulfilling_machine l) \<and> ascending (refused_machine l) \<and>
     ascending (rented_machine l) \<and> ascending (offline_machine l)"

definition stash_ok :: "stash_machine \<Rightarrow> bool" where
  "stash_ok sm \<longleftrightarrow> ascending (total_machine sm) \<and> ascending (stash_online_machine sm)"

definition stash_map_ok :: "(account \<rightharpoonup> stash_machine) \<Rightarrow> bool" where
  "stash_map_ok f \<longleftrightarrow> (\<forall>a sm. f a = Some sm \<longrightarrow> stash_ok sm)"

definition lists_ok :: "('a \<Rightarrow> 'b::linorder list) \<Rightarrow> bool" where
  "lists_ok f \<longleftrightarrow> (\<forall>a. ascending (f a))"

definition inverse_maps :: "(account \<rightharpoonup> account) \<Rightarrow> (account \<rightharpoonup> account) \<Rightarrow> bool" where
  "inverse_maps f g \<longleftrightarrow> (\<forall>a b. f a = Some b \<longleftrightarrow> g b = Some a)"

definition op_wf :: "'w op_state \<Rightarrow> bool" where
  "op_wf s \<longleftrightarrow> inverse_maps (StashController s) (ControllerStash s) \<and> live_ok (LiveMachines s) \<and>
     stash_map_ok (StashMachines s) \<and> lists_ok (ControllerMachines s) \<and> lists_ok (StashServerRooms s) \<and>
     lists_ok (PendingExecSlash s)"

lemma lists_ok_upd [simp]: "lists_ok f \<Longrightarrow> ascending xs \<Longrightarrow> lists_ok (f(a := xs))"
  by (simp add: lists_ok_def)

lemma lists_ok_at [simp]: "lists_ok f \<Longrightarrow> ascending (f a)"
  by (simp add: lists_ok_def)

lemma stash_map_ok_upd [simp]: "stash_map_ok f \<Longrightarrow> stash_ok sm \<Longrightarrow> stash_map_ok (f(a \<mapsto> sm))"
  by (auto simp: stash_map_ok_def)

lemma ascending_add [simp]: "ascending xs \<Longrightarrow> ascending (add_item (x::'a::linorder) xs)"
  by (simp add: il.add_ok)

lemma ascending_rm [simp]: "ascending xs \<Longrightarrow> ascending (rm_item (x::'a::linorder) xs)"
  by (simp add: il.rm_ok)

lemma op_wfD:
  assumes "op_wf s"
  shows "live_ok (LiveMachines s)" "stash_map_ok (StashMachines s)" "lists_ok (ControllerMachines s)"
    "lists_ok (StashServerRooms s)" "lists_ok (PendingExecSlash s)" "stash_ok (stash_machines s a)"
  using assms by (auto simp: op_wf_def stash_map_ok_def stash_machines_def stash_ok_def default_stash_machine_def
      split: option.split)

lemma op_wf_update [simp]:
  "op_wf s \<Longrightarrow> live_ok l \<Longrightarrow> op_wf (s\<lparr>LiveMachines := l\<rparr>)"
  "op_wf s \<Longrightarrow> stash_map_ok f \<Longrightarrow> op_wf (s\<lparr>StashMachines := f\<rparr>)"
  "op_wf s \<Longrightarrow> lists_ok g \<Longrightarrow> op_wf (s\<lparr>ControllerMachines := g\<rparr>)"
  "op_wf s \<Longrightarrow> lists_ok h \<Longrightarrow> op_wf (s\<lparr>StashServerRooms := h\<rparr>)"
  "op_wf s \<Longrightarrow> lists_ok k \<Longrightarrow> op_wf (s\<lparr>PendingExecSlash := k\<rparr>)"
  by (simp_all add: op_wf_def)

text \<open>States that agree on these parts.\<close>

definition same_lists :: "'w op_state \<Rightarrow> 'w op_state \<Rightarrow> bool" where
  "same_lists s s' \<longleftrightarrow> StashController s' = StashController s \<and> ControllerStash s' = ControllerStash s \<and>
     LiveMachines s' = LiveMachines s \<and> StashMachines s' = StashMachines s \<and>
     ControllerMachines s' = ControllerMachines s \<and> StashServerRooms s' = StashServerRooms s \<and>
     PendingExecSlash s' = PendingExecSlash s"

lemma same_lists_wf: "same_lists s s' \<Longrightarrow> op_wf s' = op_wf s"
  by (simp add: same_lists_def op_wf_def)

lemma op_wf_simps [simp]:
  "op_wf (put_machine m i s) = op_wf s"
  "op_wf (op_deposit_event e s) = op_wf s"
  "op_wf (update_region i f s) = op_wf s"
  "op_wf (update_region_on_online_changed i b s) = op_wf s"
  "op_wf (update_region_on_rent_changed i b s) = op_wf s"
  "op_wf (update_region_on_exit i s) = op_wf s"
  "op_wf (put_hardware_stake a m u s) = op_wf s"
  "op_wf (adjust_rent_fee_destroy_percent T' g era s) = op_wf s"
  "op_wf (update_snap_for_new_era s) = op_wf s"
  "op_wf (op_slash_and_reward T' a v rs s) = op_wf s"
  by (rule same_lists_wf;
      auto simp: same_lists_def put_machine_def op_deposit_event_def update_region_def
        update_region_on_online_changed_def update_region_on_rent_changed_def update_region_on_exit_def
        put_hardware_stake_def adjust_rent_fee_destroy_percent_def op_slash_and_reward_def
        update_snap_for_new_era_def Let_def split: option.split)+

lemma op_wf_updates [simp]:
  "op_wf (s\<lparr>op_world := x1\<rparr>) = op_wf s" "op_wf (s\<lparr>MachinesInfo := x2\<rparr>) = op_wf s"
  "op_wf (s\<lparr>StashStake := x3\<rparr>) = op_wf s"
  "op_wf (s\<lparr>PendingSlash := x5\<rparr>) = op_wf s" "op_wf (s\<lparr>PendingSlashReview := x6\<rparr>) = op_wf s"
  "op_wf (s\<lparr>PendingSlashReviewChecking := x7\<rparr>) = op_wf s"
  "op_wf (s\<lparr>MachineRecentReward := x9\<rparr>) = op_wf s"
  "op_wf (s\<lparr>RentedFinished := y1\<rparr>) = op_wf s" "op_wf (s\<lparr>MachineRentedGPU := y2\<rparr>) = op_wf s"
  "op_wf (s\<lparr>SysInfo := y3\<rparr>) = op_wf s" "op_wf (s\<lparr>AllMachineIdSnap := y4\<rparr>) = op_wf s"
  "op_wf (s\<lparr>MaxSlashExeced := y5\<rparr>) = op_wf s" "op_wf (s\<lparr>Machine2PendingSlashIds := y6\<rparr>) = op_wf s"
  "op_wf (s\<lparr>ErasStashPoints := y7\<rparr>) = op_wf s" "op_wf (s\<lparr>ErasMachinePoints := y8\<rparr>) = op_wf s"
  "op_wf (s\<lparr>PhaseRewardInfo := z2\<rparr>) = op_wf s" "op_wf (s\<lparr>OnlineStakeParams := z3\<rparr>) = op_wf s"
  "op_wf (s\<lparr>StandardGPUPointPrice := z4\<rparr>) = op_wf s" "op_wf (s\<lparr>RentFeeDestroyPercent := z5\<rparr>) = op_wf s"
  "op_wf (s\<lparr>AuthorizedForceExitAccounts := z6\<rparr>) = op_wf s" "op_wf (s\<lparr>OfflineMachine2renters := z7\<rparr>) = op_wf s"
  "op_wf (s\<lparr>ErasMachineReward := z8\<rparr>) = op_wf s" "op_wf (s\<lparr>ErasStashReward := z9\<rparr>) = op_wf s"
  "op_wf (s\<lparr>ErasMachineReleasedReward := u1\<rparr>) = op_wf s" "op_wf (s\<lparr>ErasStashReleasedReward := u2\<rparr>) = op_wf s"
  "op_wf (s\<lparr>NextSlashId := u3\<rparr>) = op_wf s" "op_wf (s\<lparr>EraReward := u4\<rparr>) = op_wf s" "op_wf (s\<lparr>CurrentEra := u5\<rparr>) = op_wf s"
  by (rule same_lists_wf; simp add: same_lists_def)+

text \<open>The list operations on the parts.\<close>

lemma live_ok_ops [simp]:
  "live_ok l \<Longrightarrow> live_ok (on_bonding m l)" "live_ok l \<Longrightarrow> live_ok (on_add_server_room m l)"
  "live_ok l \<Longrightarrow> live_ok (on_offline_change_hardware m l)" "live_ok l \<Longrightarrow> live_ok (on_offline m l)"
  "live_ok l \<Longrightarrow> live_ok (on_exit m l)"
  by (simp_all add: live_ok_def on_bonding_def on_add_server_room_def on_offline_change_hardware_def on_offline_def
      on_exit_def)

lemma live_ok_updates [simp]:
  "live_ok l \<Longrightarrow> ascending xs \<Longrightarrow> live_ok (l\<lparr>bonding_machine := xs\<rparr>)"
  "live_ok l \<Longrightarrow> ascending xs \<Longrightarrow> live_ok (l\<lparr>confirmed_machine := xs\<rparr>)"
  "live_ok l \<Longrightarrow> ascending xs \<Longrightarrow> live_ok (l\<lparr>booked_machine := xs\<rparr>)"
  "live_ok l \<Longrightarrow> ascending xs \<Longrightarrow> live_ok (l\<lparr>online_machine := xs\<rparr>)"
  "live_ok l \<Longrightarrow> ascending xs \<Longrightarrow> live_ok (l\<lparr>fulfilling_machine := xs\<rparr>)"
  "live_ok l \<Longrightarrow> ascending xs \<Longrightarrow> live_ok (l\<lparr>refused_machine := xs\<rparr>)"
  "live_ok l \<Longrightarrow> ascending xs \<Longrightarrow> live_ok (l\<lparr>rented_machine := xs\<rparr>)"
  "live_ok l \<Longrightarrow> ascending xs \<Longrightarrow> live_ok (l\<lparr>offline_machine := xs\<rparr>)"
  by (simp_all add: live_ok_def)

lemma live_okD [simp]:
  assumes "live_ok l"
  shows "ascending (bonding_machine l)" "ascending (confirmed_machine l)" "ascending (booked_machine l)"
    "ascending (online_machine l)" "ascending (fulfilling_machine l)" "ascending (refused_machine l)"
    "ascending (rented_machine l)" "ascending (offline_machine l)"
  using assms by (simp_all add: live_ok_def)

lemma stash_ok_updates [simp]:
  "stash_ok sm \<Longrightarrow> ascending xs \<Longrightarrow> stash_ok (sm\<lparr>stash_online_machine := xs\<rparr>)"
  "stash_ok sm \<Longrightarrow> ascending xs \<Longrightarrow> stash_ok (sm\<lparr>total_machine := xs\<rparr>)"
  "stash_ok (sm\<lparr>stash_calc_points := n1\<rparr>) = stash_ok sm" "stash_ok (sm\<lparr>stash_gpu_num := n2\<rparr>) = stash_ok sm"
  "stash_ok (sm\<lparr>stash_rented_gpu := n3\<rparr>) = stash_ok sm" "stash_ok (sm\<lparr>total_earned_reward := n4\<rparr>) = stash_ok sm"
  "stash_ok (sm\<lparr>total_claimed_reward := n5\<rparr>) = stash_ok sm" "stash_ok (sm\<lparr>can_claim_reward := n6\<rparr>) = stash_ok sm"
  "stash_ok (sm\<lparr>stash_rent_fee := n7\<rparr>) = stash_ok sm" "stash_ok (sm\<lparr>stash_burn_fee := n8\<rparr>) = stash_ok sm"
  by (simp_all add: stash_ok_def)

lemma stash_okD [simp]:
  "stash_ok sm \<Longrightarrow> ascending (total_machine sm)" "stash_ok sm \<Longrightarrow> ascending (stash_online_machine sm)"
  by (simp_all add: stash_ok_def)

declare op_wfD [simp]

lemma change_stake_wf: "change_stake T who v b s = Some s' \<Longrightarrow> op_wf s' = op_wf s"
  by (auto simp: change_stake_def split: option.splits if_splits)

lemma update_snap_on_online_changed_wf:
  assumes "update_snap_on_online_changed T m b s = Some s'" "op_wf s"
  shows "op_wf s'"
proof -
  have "StashMachines (adjust_rent_fee_destroy_percent T g era t) = StashMachines t" for g era t
    by (auto simp: adjust_rent_fee_destroy_percent_def Let_def split: option.split)
  with assms show ?thesis unfolding update_snap_on_online_changed_def Let_def
    by (cases b) (auto split: option.splits)
qed

lemma update_snap_on_rent_changed_wf:
  assumes "update_snap_on_rent_changed T m b s = Some s'" "op_wf s"
  shows "op_wf s'"
  using assms unfolding update_snap_on_rent_changed_def Let_def by (cases b) (auto split: option.splits)

lemmas wf_ops = change_stake_wf [THEN iffD2] update_snap_on_online_changed_wf update_snap_on_rent_changed_wf

lemma fulfill_loop_wf: "fulfill_loop T ms v s = (s', b) \<Longrightarrow> op_wf s \<Longrightarrow> op_wf s'"
  by (induction ms arbitrary: v s) (auto simp: Let_def split: option.splits if_splits dest!: wf_ops)

lemma add_pending_slash_wf: "op_wf s \<Longrightarrow> op_wf (add_pending_slash m info s)"
  by (simp add: add_pending_slash_def get_new_slash_id_def Let_def)

lemma do_slash_deposit_wf: "op_wf s \<Longrightarrow> op_wf (fst (do_slash_deposit T info s))"
  by (auto simp: do_slash_deposit_def Let_def split: option.split)

lemma exec_pending_loop_wf: "op_wf s \<Longrightarrow> op_wf (exec_pending_loop T ids s)"
  by (induction ids arbitrary: s) (auto simp: Let_def do_slash_deposit_wf split: option.split)

lemma check_pending_loop_wf: "op_wf s \<Longrightarrow> op_wf (fst (check_pending_loop T ids s))"
  by (induction ids arbitrary: s) (auto simp: Let_def split: option.split)

lemma check_pending_slash_wf: "op_wf s \<Longrightarrow> op_wf (check_pending_slash T now s)"
  using check_pending_loop_wf [of s T "the (PendingSlashReviewChecking s now)"]
  by (auto simp: check_pending_slash_def split: option.splits prod.splits bool.splits)

lemma distribute_reward_wf: "op_wf s \<Longrightarrow> op_wf (distribute_reward_to_machine T m era v mp sp s)"
  by (auto simp: distribute_reward_to_machine_def Let_def split: option.split)

lemma distribute_loop_wf: "op_wf s \<Longrightarrow> op_wf (snd (distribute_loop T era v mp sp n queue s))"
proof (induction queue arbitrary: n s)
  case Nil
  then show ?case by (cases n) simp_all
next
  case (Cons m queue)
  then show ?case by (cases n) (simp_all add: distribute_reward_wf)
qed

lemma on_initialize_wf: "op_wf s \<Longrightarrow> op_wf (op_on_initialize T now s)"
  by (simp add: op_on_initialize_def backup_and_reward_def Let_def check_pending_slash_wf exec_pending_slash_def
      exec_pending_loop_wf distribute_loop_wf split_beta)

lemma machine_offline_wf: "machine_offline T m st s = Some s' \<Longrightarrow> op_wf s \<Longrightarrow> op_wf s'"
  by (auto simp: machine_offline_def Let_def split: option.splits if_splits dest!: wf_ops)

lemma do_machine_exit_wf: "do_machine_exit T m i s = Inr s' \<Longrightarrow> op_wf s \<Longrightarrow> op_wf s'"
  by (auto simp: do_machine_exit_def split: option.splits dest!: wf_ops)

lemma force_exit_loop_wf: "force_exit_loop T ms s = Inr s' \<Longrightarrow> op_wf s \<Longrightarrow> op_wf s'"
  by (induction ms arbitrary: s) (auto split: option.splits sum.splits dest: do_machine_exit_wf)

lemma do_cancel_slash_wf: "do_cancel_slash T n s = Inr s' \<Longrightarrow> op_wf s \<Longrightarrow> op_wf s'"
  by (auto simp: do_cancel_slash_def Let_def split: option.splits dest!: wf_ops)

lemma back_online_wf: "back_online T m i live s = Inr s' \<Longrightarrow> live_ok live \<Longrightarrow> op_wf s \<Longrightarrow> op_wf s'"
  by (auto simp: back_online_def Let_def split: option.splits if_splits dest!: wf_ops)

lemma controller_report_online_wf:
  assumes "controller_report_online T now orig m s = Inr s'" "op_wf s"
  shows "op_wf s'"
  using assms by (auto simp: controller_report_online_def Let_def add_pending_slash_wf split: option.splits if_splits
      dest!: back_online_wf wf_ops)

lemma bond_machine_wf:
  assumes "bond_machine T now orig m msg sig s = Inr s'" "op_wf s"
  shows "op_wf s'"
  using assms by (auto simp: bond_machine_def sm_new_bonding_def split: option.splits if_splits dest!: wf_ops)

lemma claim_reward_ok: "claim_reward sm = Some (v, sm') \<Longrightarrow> stash_ok sm' = stash_ok sm"
  by (auto simp: claim_reward_def Let_def split: option.splits)

lemma stash_map_okD: "stash_map_ok f \<Longrightarrow> f a = Some sm \<Longrightarrow> stash_ok sm"
  by (auto simp: stash_map_ok_def)

lemma claim_rewards_wf:
  assumes "op_claim_rewards T orig s = Inr s'" "op_wf s"
  shows "op_wf s'"
  using assms stash_map_okD [OF op_wfD(2) [OF assms(2)]]
  by (auto simp: op_claim_rewards_def fulfill_machine_stake_def Let_def claim_reward_ok
      split: option.splits prod.splits bool.splits dest!: fulfill_loop_wf)

lemma inverse_maps_insert:
  assumes "inverse_maps f g" "f a = None" "g b = None"
  shows "inverse_maps (f(a \<mapsto> b)) (g(b \<mapsto> a))"
  using assms unfolding inverse_maps_def fun_upd_apply by (metis option.distinct(1) option.inject)

lemma set_controller_wf:
  assumes "set_controller orig ctrl s = Inr s'" "op_wf s"
  shows "op_wf s'"
proof -
  obtain a where s': "s' = op_deposit_event (ControllerStashBonded ctrl a)
      (s\<lparr>StashController := (StashController s)(a \<mapsto> ctrl), ControllerStash := (ControllerStash s)(ctrl \<mapsto> a)\<rparr>)"
    and none: "StashController s a = None" "ControllerStash s ctrl = None"
    using assms(1) by (auto simp: set_controller_def split: option.splits if_splits)
  with inverse_maps_insert [of "StashController s" "ControllerStash s" a ctrl] assms(2) show ?thesis by (simp add: op_wf_def op_deposit_event_def del: op_wfD)
qed

lemma inverse_maps_move:
  assumes "inverse_maps f g" "f a = Some p" "g c = None"
  shows "inverse_maps (f(a \<mapsto> c)) (g(p := None, c \<mapsto> a))"
  using assms unfolding inverse_maps_def fun_upd_apply by (metis option.distinct(1) option.inject)

lemma stash_reset_controller_wf:
  assumes "stash_reset_controller orig c s = Inr s'" "op_wf s"
  shows "op_wf s'"
proof -
  obtain a p ms where s': "s' = op_deposit_event (StashResetController a p c)
      (s\<lparr>MachinesInfo := ms, ControllerMachines := (ControllerMachines s)(p := [], c := ControllerMachines s p),
         StashController := (StashController s)(a \<mapsto> c), ControllerStash := (ControllerStash s)(p := None, c \<mapsto> a)\<rparr>)"
    and pre: "StashController s a = Some p" "ControllerStash s c = None"
    using assms(1) by (auto simp: stash_reset_controller_def Let_def split: option.splits if_splits)
  with inverse_maps_move [of "StashController s" "ControllerStash s" a p c] assms(2) show ?thesis
    by (auto simp: op_wf_def op_deposit_event_def lists_ok_def simp del: op_wfD)
qed

lemma op_dispatch_wf:
  assumes "op_dispatch T now orig c s = Inr s'" "op_wf s"
  shows "op_wf s'"
proof (cases c)
  case (OfflineMachineChangeHardwareInfo m)
  with assms show ?thesis by (auto simp: offline_machine_change_hardware_info_def Let_def
        split: option.splits if_splits dest!: wf_ops)
next
  case (AddMachineInfo m x)
  with assms show ?thesis by (auto simp: op_add_machine_info_def Let_def split: option.splits if_splits sum.splits
        dest!: wf_ops)
next
  case (FulfillMachine m)
  with assms show ?thesis by (auto simp: fulfill_machine_def Let_def split: option.splits if_splits dest!: wf_ops)
next
  case (RestakeOnlineMachine m)
  with assms show ?thesis by (auto simp: restake_online_machine_def split: option.splits if_splits dest!: wf_ops)
next
  case (ApplySlashReviewCall n x)
  with assms show ?thesis by (auto simp: op_apply_slash_review_def Let_def split: option.splits if_splits
        dest!: wf_ops)
next
  case (ExecSlash m)
  with assms show ?thesis by (auto simp: op_exec_slash_def Let_def add_pending_slash_wf split: option.splits if_splits
        machine_status.splits)
next
  case (SetController x)
  with assms show ?thesis by (auto intro: set_controller_wf)
next
  case (StashResetControllerCall x)
  with assms show ?thesis by (auto intro: stash_reset_controller_wf)
next
  case (BondMachineCall m msg sig)
  with assms show ?thesis by (auto intro: bond_machine_wf)
next
  case ClaimRewards
  with assms show ?thesis by (auto intro: claim_rewards_wf)
next
  case (ControllerReportOnlineCall m)
  with assms show ?thesis by (auto intro: controller_report_online_wf)
next
  case (ForceMachineExit ms)
  with assms show ?thesis by (auto simp: force_machine_exit_def split: option.splits if_splits
        dest: force_exit_loop_wf)
qed (use assms in \<open>auto simp: set_reward_info_def set_online_stake_params_def set_standard_gpu_point_price_def
    set_rentfee_destroy_percent_def Let_def gen_server_room_def split_beta
    controller_report_offline_def op_machine_exit_def op_cancel_slash_def update_machine_info_def
    update_authorized_force_exit_accounts_def split: option.splits if_splits
    dest!: machine_offline_wf do_machine_exit_wf do_cancel_slash_wf\<close>)

lemma op_trait_step_wf:
  assumes "op_trait_step T s s'" "op_wf s"
  shows "op_wf s'"
  using assms
proof cases
  case (trait_confirmed now cs hw)
  then show ?thesis using assms(2)
    by (auto simp: confirm_machine_def Let_def split: option.splits if_splits dest!: wf_ops)
next
  case (trait_refused cs m r)
  then show ?thesis using assms(2)
    by (auto simp: refuse_machine_def Let_def split: option.splits if_splits dest!: wf_ops)
next
  case (trait_rent_fee a m v1 v2)
  then show ?thesis using assms(2)
    by (auto simp: change_machine_rent_fee_def fulfill_machine_stake_def sm_change_rent_fee_def Let_def
        split: option.splits prod.splits bool.splits dest!: fulfill_loop_wf)
next
  case (trait_rent_end now m n d b1 b2 a)
  then show ?thesis using assms(2)
    by (auto simp: change_machine_status_on_rent_end_def Let_def split: option.splits if_splits dest!: wf_ops)
qed (auto simp: booked_machine_op_def revert_booked_machine_def move_machine_def change_staked_balance_def
    mt_change_staked_balance_def mt_machine_offline_def change_machine_status_on_rent_start_def
    mt_rm_stash_total_stake_def exec_slash_stake_def
    change_machine_status_on_confirmed_def change_machine_status_on_confirm_expired_def reset_machine_renters_def
    add_offline_machine_to_renters_def Let_def split: option.splits if_splits
    dest!: wf_ops machine_offline_wf)

lemma op_step_wf: "op_step T s s' \<Longrightarrow> op_wf s \<Longrightarrow> op_wf s'"
  by (induction rule: op_step.induct) (blast intro: op_dispatch_wf on_initialize_wf op_trait_step_wf)+

lemma op_run_wf: "(op_step T)\<^sup>*\<^sup>* s s' \<Longrightarrow> op_wf s \<Longrightarrow> op_wf s'"
  by (induction rule: rtranclp_induct) (blast intro: op_step_wf)+

section \<open>Distribution of rewards\<close>

lemma distribute_reward_frame [simp]:
  "CurrentEra (distribute_reward_to_machine T m era v mp sp s) = CurrentEra s"
  "EraReward (distribute_reward_to_machine T m era v mp sp s) = EraReward s"
  "ErasMachinePoints (distribute_reward_to_machine T m era v mp sp s) = ErasMachinePoints s"
  "ErasStashPoints (distribute_reward_to_machine T m era v mp sp s) = ErasStashPoints s"
  "AllMachineIdSnap (distribute_reward_to_machine T m era v mp sp s) = AllMachineIdSnap s"
  by (auto simp: distribute_reward_to_machine_def Let_def split: option.split)

lemma distribute_reward_snap:
  "distribute_reward_to_machine T m era v mp sp (s\<lparr>AllMachineIdSnap := x\<rparr>) =
    (distribute_reward_to_machine T m era v mp sp s)\<lparr>AllMachineIdSnap := x\<rparr>"
  by (auto simp: distribute_reward_to_machine_def Let_def stash_machines_def split: option.split)

definition distribute_all ::
    "'w op_config \<Rightarrow> era_index \<Rightarrow> balance \<Rightarrow> (machine_id \<rightharpoonup> machine_grade_status) \<Rightarrow> era_stash_points \<Rightarrow>
     machine_id list \<Rightarrow> 'w op_state \<Rightarrow> 'w op_state" where
  "distribute_all T era v mp sp ms s = fold (\<lambda>m. distribute_reward_to_machine T m era v mp sp) ms s"

lemma distribute_all_frame [simp]:
  "CurrentEra (distribute_all T era v mp sp ms s) = CurrentEra s"
  "EraReward (distribute_all T era v mp sp ms s) = EraReward s"
  "ErasMachinePoints (distribute_all T era v mp sp ms s) = ErasMachinePoints s"
  "ErasStashPoints (distribute_all T era v mp sp ms s) = ErasStashPoints s"
  "AllMachineIdSnap (distribute_all T era v mp sp ms s) = AllMachineIdSnap s"
  by (induction ms arbitrary: s) (simp_all add: distribute_all_def)

lemma distribute_all_snap:
  "distribute_all T era v mp sp ms (s\<lparr>AllMachineIdSnap := x\<rparr>) =
    (distribute_all T era v mp sp ms s)\<lparr>AllMachineIdSnap := x\<rparr>"
  by (induction ms arbitrary: s) (simp_all add: distribute_all_def distribute_reward_snap)

lemma distribute_all_append:
  "distribute_all T era v mp sp (xs @ ys) s = distribute_all T era v mp sp ys (distribute_all T era v mp sp xs s)"
  by (simp add: distribute_all_def)

lemma distribute_loop_eq:
  "distribute_loop T era v mp sp n queue s = (drop n queue, distribute_all T era v mp sp (take n queue) s)"
proof (induction queue arbitrary: n s)
  case Nil
  show ?case by (cases n) (simp_all add: distribute_all_def)
next
  case (Cons m queue)
  then show ?case by (cases n) (simp_all add: distribute_all_def)
qed

text \<open>One block of the distribution, from a snapshot of which \<open>xs\<close> is done and \<open>ys\<close> is left.\<close>

definition rewarding :: "'w op_config \<Rightarrow> machine_id list \<Rightarrow> machine_id list \<Rightarrow> nat \<Rightarrow> 'w op_state \<Rightarrow> 'w op_state" where
  "rewarding T xs ys n s =
     (let era = saturating_sub (CurrentEra s) 1
      in (distribute_all T era (EraReward s era) (ErasMachinePoints s era) (ErasStashPoints s era) xs s)
           \<lparr>AllMachineIdSnap := \<lparr>all_machine_id = ys, snap_len = n\<rparr>\<rparr>)"

lemma rewarding_block:
  assumes "3 \<le> now mod ONE_DAY" "now mod ONE_DAY \<le> 62"
  shows "backup_and_reward T now (rewarding T xs ys n s) =
    rewarding T (xs @ take (n div 60 + 1) ys) (drop (n div 60 + 1) ys) n s"
  using assms
  by (simp add: backup_and_reward_def rewarding_def Let_def distribute_loop_eq distribute_all_snap
      distribute_all_append)

lemma rewarding_blocks:
  assumes "\<forall>now\<in>set bs. 3 \<le> now mod ONE_DAY \<and> now mod ONE_DAY \<le> 62"
  shows "fold (backup_and_reward T) bs (rewarding T xs ys n s) =
    rewarding T (xs @ take (length bs * (n div 60 + 1)) ys) (drop (length bs * (n div 60 + 1)) ys) n s"
  using assms
proof (induction bs arbitrary: xs ys)
  case (Cons b bs)
  define k where "k = n div 60 + 1"
  have t: "(xs @ take k ys) @ take (length bs * k) (drop k ys) = xs @ take (length (b # bs) * k) ys"
    using take_add [of k "length bs * k" ys] by (simp add: add.commute)
  have d: "drop (length bs * k) (drop k ys) = drop (length (b # bs) * k) ys" by (simp add: add.commute)
  have "backup_and_reward T b (rewarding T xs ys n s) = rewarding T (xs @ take k ys) (drop k ys) n s"
    unfolding k_def using Cons.prems by (intro rewarding_block) auto
  then show ?case using Cons.IH [of "xs @ take k ys" "drop k ys"] Cons.prems t d
    by (simp only: fold_Cons o_apply k_def [symmetric]) simp
qed simp

lemma day_offset: "i < ONE_DAY \<Longrightarrow> (d * ONE_DAY + i) mod ONE_DAY = i"
  by simp

definition all_bonded :: "'w op_config \<Rightarrow> 'w op_state \<Rightarrow> machine_id list" where
  "all_bonded T s = concat (map (\<lambda>a. total_machine (stash_machines s a)) (get_all_stash T s))"

lemma rewarding_day:
  "fold (backup_and_reward T) (map (\<lambda>i. d * ONE_DAY + i) [2..<63]) s =
    rewarding T (all_bonded T s) [] (length (all_bonded T s)) s"
proof -
  let ?ms = "all_bonded T s" and ?n = "length (all_bonded T s)"
  let ?bs = "map (\<lambda>i. d * ONE_DAY + i) [3..<63]"
  have one: "backup_and_reward T (d * ONE_DAY + 2) s = rewarding T [] ?ms ?n s"
    using day_offset [of 2 d]
    by (simp add: backup_and_reward_def rewarding_def Let_def all_bonded_def distribute_all_def time_defs)
  have in_day: "\<forall>now\<in>set ?bs. 3 \<le> now mod ONE_DAY \<and> now mod ONE_DAY \<le> 62"
    by (auto simp: time_defs)
  have l: "length ?bs = 60" by simp
  have "?n \<le> 60 * (?n div 60 + 1)" by presburger
  then have len: "take (length ?bs * (?n div 60 + 1)) ?ms = ?ms" "drop (length ?bs * (?n div 60 + 1)) ?ms = []"
    unfolding l by (rule take_all, rule drop_all)
  have split: "map (\<lambda>i. d * ONE_DAY + i) [2..<63] = (d * ONE_DAY + 2) # ?bs" by (simp add: upt_conv_Cons)
  show ?thesis unfolding split fold_Cons o_apply one rewarding_blocks [OF in_day] len by simp
qed

lemma length_add_new_reward:
  "length (recent_machine_reward (add_new_reward v info)) =
    (if length (recent_machine_reward info) = 150 then 150 else Suc (length (recent_machine_reward info)))"
  by (simp add: add_new_reward_def Let_def)

lemma distribute_reward_window:
  "map_option recent_machine_reward (MachineRecentReward (distribute_reward_to_machine T m era v mp sp s) m') =
    map_option (\<lambda>info. recent_machine_reward
      (if m' = m then add_new_reward (calc_machine_total_reward T m (recent_stash info) v mp sp) info else info))
      (MachineRecentReward s m')"
  by (cases "m' = m"; cases "MachineRecentReward s m") (auto simp: distribute_reward_to_machine_def Let_def)

lemma distribute_all_window:
  assumes "map_option (\<lambda>i. length (recent_machine_reward i)) (MachineRecentReward s m) = Some n"
    "n + count_list ms m \<le> 150"
  shows "map_option (\<lambda>i. length (recent_machine_reward i)) (MachineRecentReward (distribute_all T era v mp sp ms s) m) =
    Some (n + count_list ms m)"
  using assms
proof (induction ms arbitrary: n s)
  case Nil
  then show ?case by (simp add: distribute_all_def)
next
  case (Cons m' ms)
  let ?s = "distribute_reward_to_machine T m' era v mp sp s"
  have "map_option (\<lambda>i. length (recent_machine_reward i)) (MachineRecentReward ?s m) =
      Some (n + (if m' = m then 1 else 0))"
    using Cons.prems arg_cong [OF distribute_reward_window [of T m' era v mp sp s m], of "map_option length"]
    by (auto simp: option.map_comp o_def length_add_new_reward split: if_splits)
  from Cons.IH [OF this] Cons.prems show ?case by (auto simp: distribute_all_def split: if_splits)
qed

text \<open>
  C12: What a day of rewards does. Run over the blocks of one day, the hook that snapshots the machines and pays
  them out in up to sixty batches has exactly the effect of paying, in order, every entry of the machine lists
  of all stash accounts once, with the era's reward and grades, and leaves nothing in the queue.
\<close>

theorem op_batches_pay_everyone:
  "fold (backup_and_reward T) (map (\<lambda>i. d * ONE_DAY + i) [2..<63]) s =
    (let era = saturating_sub (CurrentEra s) 1
     in (fold (\<lambda>m. distribute_reward_to_machine T m era (EraReward s era) (ErasMachinePoints s era) (ErasStashPoints s era))
           (all_bonded T s) s)
          \<lparr>AllMachineIdSnap := \<lparr>all_machine_id = [], snap_len = length (all_bonded T s)\<rparr>\<rparr>)"
  unfolding rewarding_day by (simp add: rewarding_def distribute_all_def)

text \<open>
  A machine is paid once for every stash account that lists it. Over the blocks of one day the window of
  recent rewards of a machine grows by as many entries as stash accounts list it; an account keeps listing a
  machine after it left, so a machine that was bonded again by another account is paid twice in every era.
\<close>

lemma op_paid_per_listing:
  assumes "MachineRecentReward s m = Some info"
    "length (recent_machine_reward info) + count_list (all_bonded T s) m \<le> 150"
  shows "\<exists>info'. MachineRecentReward
      (fold (backup_and_reward T) (map (\<lambda>i. d * ONE_DAY + i) [2..<63]) s) m = Some info' \<and>
    length (recent_machine_reward info') = length (recent_machine_reward info) + count_list (all_bonded T s) m"
  using distribute_all_window [of s m "length (recent_machine_reward info)" "all_bonded T s"] assms
  unfolding rewarding_day by (simp add: rewarding_def Let_def map_option_eq_Some)

section \<open>Repeated slashes\<close>

lemma new_slash_when_offline_cong:
  "MachinesInfo s' = MachinesInfo s \<Longrightarrow>
    new_slash_when_offline T now m why rep rs committee duration s' =
    new_slash_when_offline T now m why rep rs committee duration s"
  by (simp add: new_slash_when_offline_def new_offline_slash_def)

lemma add_pending_slash_sel [simp]:
  "MachinesInfo (add_pending_slash m info s) = MachinesInfo s"
  "OfflineMachine2renters (add_pending_slash m info s) = OfflineMachine2renters s"
  "PendingSlash (add_pending_slash m info s) = (PendingSlash s)(NextSlashId s \<mapsto> info)"
  "NextSlashId (add_pending_slash m info s) = (if NextSlashId s = 2 ^ 64 - 1 then 0 else NextSlashId s + 1)"
  by (simp_all add: add_pending_slash_def get_new_slash_id_def op_deposit_event_def Let_def)

lemma op_exec_slash_Inr:
  assumes "op_exec_slash T now orig m s = Inr s'"
  shows "\<exists>i why st rep committee t info. MachinesInfo s m = Some i \<and>
    machine_status i = ReporterReportOffline why st rep committee \<and> report_time why = Some t \<and>
    reach_max_slash why (saturating_sub now t) \<and>
    new_slash_when_offline T now m why (Some rep) (OfflineMachine2renters s m) (Some committee)
      (saturating_sub now t) s = Some info \<and>
    s' = (let s1 = (if slash_amount info \<noteq> 0 then add_pending_slash m info s else s)
      in s1\<lparr>MaxSlashExeced := (MaxSlashExeced s1)(m := now)\<rparr>)"
  using assms by (auto simp: op_exec_slash_def Let_def split: option.splits if_splits machine_status.splits)

text \<open>
  The maximal slash can be ordered again and again within a block. Whenever ordering it succeeds, anyone can
  order it once more in the same block: the call succeeds and, if the first one added a pending slash, adds
  another one with the same amount.
\<close>

lemma op_exec_slash_repeats:
  assumes "op_exec_slash T now (Signed a) m s = Inr s1"
  shows "\<exists>s2. op_exec_slash T now (Signed b) m s1 = Inr s2 \<and>
    (NextSlashId s1 \<noteq> NextSlashId s \<longrightarrow>
      PendingSlash s2 (NextSlashId s) \<noteq> None \<and>
      PendingSlash s2 (NextSlashId s1) = PendingSlash s2 (NextSlashId s) \<and> NextSlashId s2 \<noteq> NextSlashId s1)"
proof -
  obtain i why st rep committee t info where i: "MachinesInfo s m = Some i"
    "machine_status i = ReporterReportOffline why st rep committee" "report_time why = Some t"
    "reach_max_slash why (saturating_sub now t)"
    and info: "new_slash_when_offline T now m why (Some rep) (OfflineMachine2renters s m) (Some committee)
      (saturating_sub now t) s = Some info"
    and s1: "s1 = (let s1 = (if slash_amount info \<noteq> 0 then add_pending_slash m info s else s)
      in s1\<lparr>MaxSlashExeced := (MaxSlashExeced s1)(m := now)\<rparr>)"
    using op_exec_slash_Inr [OF assms] by blast
  have "MachinesInfo s1 = MachinesInfo s" "OfflineMachine2renters s1 = OfflineMachine2renters s"
    "MaxSlashExeced s1 m = now"
    by (simp_all add: s1 Let_def)
  then have "op_exec_slash T now (Signed b) m s1 =
      Inr (let s2 = (if slash_amount info \<noteq> 0 then add_pending_slash m info s1 else s1)
        in s2\<lparr>MaxSlashExeced := (MaxSlashExeced s2)(m := now)\<rparr>)"
    using i info new_slash_when_offline_cong [of s1 s] by (simp add: op_exec_slash_def Let_def)
  then show ?thesis by (auto simp: s1 Let_def)
qed

section \<open>A run over the ledger\<close>

definition op_init :: "'w \<Rightarrow> 'w op_state" where
  "op_init w =
     \<lparr>op_world = w, OnlineStakeParams = None, StandardGPUPointPrice = None, UserMutHardwareStake = (\<lambda>_. Map.empty),
      RentFeeDestroyPercent = 300000000, SysInfo = default_sys_info, PosGPUInfo = (\<lambda>_ _. default_pos_info),
      StashController = Map.empty, ControllerStash = Map.empty, MachinesInfo = Map.empty,
      MachineRentedGPU = (\<lambda>_. 0), StashMachines = Map.empty, StashServerRooms = (\<lambda>_. []),
      ControllerMachines = (\<lambda>_. []), LiveMachines = default_live, CurrentEra = 0,
      ErasStashPoints = (\<lambda>_. default_points), ErasMachinePoints = (\<lambda>_. Map.empty), PhaseRewardInfo = None,
      EraReward = (\<lambda>_. 0), ErasMachineReward = (\<lambda>_ _. 0), ErasMachineReleasedReward = (\<lambda>_ _. 0),
      ErasStashReward = (\<lambda>_ _. 0), ErasStashReleasedReward = (\<lambda>_ _. 0), MachineRecentReward = Map.empty,
      AllMachineIdSnap = \<lparr>all_machine_id = [], snap_len = 0\<rparr>, StashStake = (\<lambda>_. 0), NextSlashId = 0,
      PendingSlash = Map.empty, PendingSlashReview = Map.empty, PendingSlashReviewChecking = Map.empty,
      RentedFinished = Map.empty, PendingExecSlash = (\<lambda>_. []), MaxSlashExeced = (\<lambda>_. 0),
      OfflineMachine2renters = (\<lambda>_. []), Machine2PendingSlashIds = (\<lambda>_. []),
      AuthorizedForceExitAccounts = [], op_events = []\<rparr>"

definition gf_currency :: "'w gf_config \<Rightarrow> 'w gf_state currency_ops" where
  "gf_currency G = lift_currency gf_world (\<lambda>w. gf_world_update (\<lambda>_. w)) (gf_Currency G)"

definition op_ledger :: "ledger gf_state op_config" where
  "op_ledger =
     \<lparr>op_Currency = gf_currency gf_ledger, op_Perthing = perthing_ops_ref,
      op_DbcPrice = \<lparr>price_of = (\<lambda>_. Some 1000), amount_by_value = (\<lambda>_ v. Some (v * 10))\<rparr>,
      op_add_reward = (\<lambda>c v w. w), op_SlashAndReward = gf_slash_and_reward gf_ledger,
      op_pay_fixed_tx_fee = pay_fixed_tx_fee gf_ledger, op_random_server_room = random_server_room gf_ledger,
      op_CancelSlashOrigin = ensure_root, op_bs58_decode = (\<lambda>b. Some (take 35 b)),
      op_account_of = (\<lambda>b. unat (hd b)), op_sr25519_verify = (\<lambda>_ _ _. True),
      op_stash_iter = (\<lambda>f. filter (\<lambda>a. f a \<noteq> None) [0..<100])\<rparr>"

lemma op_ledger_sel:
  "op_Currency op_ledger = gf_currency gf_ledger" "op_Perthing op_ledger = perthing_ops_ref"
  "op_pay_fixed_tx_fee op_ledger = pay_fixed_tx_fee gf_ledger"
  "op_random_server_room op_ledger = random_server_room gf_ledger"
  "op_SlashAndReward op_ledger = gf_slash_and_reward gf_ledger" "op_add_reward op_ledger c v w = w"
  "amount_by_value (op_DbcPrice op_ledger) x v = Some (v * 10)" "op_bs58_decode op_ledger b = Some (take 35 b)"
  "op_account_of op_ledger b = unat (hd b)" "op_sr25519_verify op_ledger z1 z2 z3 = True"
  "op_stash_iter op_ledger f = filter (\<lambda>a. f a \<noteq> None) [0..<100]"
  by (simp_all add: op_ledger_def)

interpretation opl: op_host op_ledger
proof (intro op_host.intro op_host_axioms.intro)
  show "reservable_currency (op_Currency op_ledger)"
    unfolding op_ledger_sel gf_currency_def
    by (rule lift_reservable_currency) (simp_all add: gf_ledger_sel ledger.reservable_currency_axioms)
  show "generic_func (op_Currency op_ledger) (op_pay_fixed_tx_fee op_ledger) (op_random_server_room op_ledger)
      (op_SlashAndReward op_ledger)"
    unfolding op_ledger_sel gf_currency_def by (rule gfl.generic_func_axioms)
qed (simp add: op_ledger_sel)

text \<open>Account 6 controls the stash account 5 and bonds a machine.\<close>

definition op_demo_world :: "ledger gf_state" where
  "op_demo_world =
     \<lparr>gf_world = \<lparr>ledger_free = (\<lambda>_. 5000), ledger_reserved = (\<lambda>_. 0)\<rparr>, RandNonce = 0, FixedTxFee = Some 10,
      DestroyHook = None, TotalDestroy = (\<lambda>_. 0), gf_events = []\<rparr>"

definition op_demo_machine :: machine_id where
  "op_demo_machine = hex_encode (replicate 32 0)"

definition op_demo0 :: "ledger gf_state op_state" where
  "op_demo0 =
     (op_init op_demo_world)\<lparr>OnlineStakeParams :=
        Some \<lparr>online_stake_per_gpu = 100000, online_stake_usd_limit = 30000, reonline_stake = 5, slash_review_stake = 50\<rparr>,
      StashController := [5 \<mapsto> 6], ControllerStash := [6 \<mapsto> 5]\<rparr>"

definition op_demo_bond :: op_call where
  "op_demo_bond = BondMachineCall op_demo_machine (op_demo_machine @ replicate 48 5) (replicate 64 0)"

definition op_demo1 :: "ledger gf_state op_state" where
  "op_demo1 = (case op_dispatch op_ledger 1 (Signed 6) op_demo_bond op_demo0 of Inr s \<Rightarrow> s | Inl _ \<Rightarrow> op_demo0)"

lemma pubkey_of_demo: "pubkey_of op_demo_machine = Returns (replicate 32 0)"
  unfolding op_demo_machine_def by (rule pubkey_of_encode) simp

lemma length_demo: "length op_demo_machine = 64"
  by (simp add: op_demo_machine_def length_hex_encode)

lemma check_bonding_msg_demo:
  "check_bonding_msg op_ledger 5 op_demo_machine (op_demo_machine @ replicate 48 5) (replicate 64 0) = None"
  by (simp add: check_bonding_msg_def length_demo get_account_from_str_def get_accountid32_def op_ledger_sel
      verify_sig_def pubkey_of_demo)

lemma op_demo_step: "op_dispatch op_ledger 1 (Signed 6) op_demo_bond op_demo0 = Inr op_demo1"
  "StashStake op_demo1 5 = 1000" "StashStake op_demo0 5 = 0" "LiveMachines op_demo1 = on_bonding op_demo_machine default_live"
  by (simp_all add: op_demo1_def op_demo_bond_def bond_machine_def op_demo0_def op_init_def check_bonding_msg_demo
      stake_per_gpu_v2_def op_ledger_sel perthing_ops_ref_sel PERBILL_def pay_fixed_tx_fee_def op_demo_world_def
      gf_ledger_sel slash_to_fee_def ledger_take_def ledger_deposit_def gf_deposit_event_def
      change_stake_def gf_currency_def lift_currency_sel ledger_defs int_ops op_deposit_event_def put_machine_def
      stash_machines_def default_stash_machine_def list_defs Let_def)

context op_host
begin

lemma op_run_backed: "(op_step T)\<^sup>*\<^sup>* s s' \<Longrightarrow> op_backed T s \<Longrightarrow> op_backed T s'"
  using op_safe.run_backed by simp

end





text \<open>A machine listed by the accounts 5 and 7, and one that was reported more than five days ago.\<close>

definition op_demo_twice :: "ledger gf_state op_state" where
  "op_demo_twice =
     (op_init op_demo_world)\<lparr>CurrentEra := 2,
        StashMachines := [5 \<mapsto> default_stash_machine\<lparr>total_machine := [[1]]\<rparr>,
                          7 \<mapsto> default_stash_machine\<lparr>total_machine := [[1]]\<rparr>],
        MachineRecentReward := [[1] \<mapsto>
          \<lparr>recent_stash = 7, recent_machine_reward = [], recent_reward_sum = 0, reward_committee_deadline = 0,
           recent_reward_committee = []\<rparr>]\<rparr>"

lemma op_paid_per_listing_witness:
  "\<exists>info. MachineRecentReward
      (fold (backup_and_reward op_ledger) (map (\<lambda>i. 1 * ONE_DAY + i) [2..<63]) op_demo_twice) [1] = Some info \<and>
    length (recent_machine_reward info) = 2"
proof -
  let ?i = "\<lparr>recent_stash = 7, recent_machine_reward = [], recent_reward_sum = 0, reward_committee_deadline = 0,
    recent_reward_committee = []\<rparr> :: machine_recent_reward_info"
  have sel: "MachineRecentReward op_demo_twice [1] = Some ?i" by (simp add: op_demo_twice_def)
  have filt: "filter (\<lambda>a. StashMachines op_demo_twice a \<noteq> None) [0..<100] = [5, 7]"
  proof -
    have "StashMachines op_demo_twice a \<noteq> None \<longleftrightarrow> a = 5 \<or> a = 7" for a by (simp add: op_demo_twice_def)
    then show ?thesis by (simp add: upt_rec)
  qed
  have bonded: "all_bonded op_ledger op_demo_twice = [[1], [1]]"
    unfolding all_bonded_def get_all_stash_def op_ledger_sel filt by (simp add: stash_machines_def op_demo_twice_def)
  have two: "length (recent_machine_reward ?i) + count_list (all_bonded op_ledger op_demo_twice) [1] = 2"
    by (simp add: bonded)
  show ?thesis using op_paid_per_listing [OF sel, of op_ledger 1] unfolding two by simp
qed

definition op_demo_reported :: "ledger gf_state op_state" where
  "op_demo_reported =
     (op_init op_demo_world)\<lparr>MachinesInfo :=
        [[1] \<mapsto> (mi_new_bonding 6 5 0 1000)\<lparr>machine_status := ReporterReportOffline (RentedInaccessible 0) Rented 8 [9]\<rparr>]\<rparr>"

lemma op_exec_slash_repeats_witness:
  "\<exists>s1 s2. op_exec_slash op_ledger 80000 (Signed 4) [1] op_demo_reported = Inr s1 \<and>
    op_exec_slash op_ledger 80000 (Signed 4) [1] s1 = Inr s2 \<and>
    PendingSlash s2 1 = PendingSlash s2 0 \<and> PendingSlash s2 0 \<noteq> None"
proof -
  obtain s1 where s1: "op_exec_slash op_ledger 80000 (Signed 4) [1] op_demo_reported = Inr s1"
    and n: "NextSlashId s1 = 1" "NextSlashId op_demo_reported = 0"
    by (simp add: op_exec_slash_def op_demo_reported_def op_init_def mi_new_bonding_def saturating_sub_def time_defs
        new_slash_when_offline_def new_offline_slash_def slash_parties_def op_ledger_sel perthing_ops_ref_sel
        PERBILL_def Let_def)
  obtain s2 where "op_exec_slash op_ledger 80000 (Signed 4) [1] s1 = Inr s2"
    "PendingSlash s2 (NextSlashId op_demo_reported) \<noteq> None"
    "PendingSlash s2 (NextSlashId s1) = PendingSlash s2 (NextSlashId op_demo_reported)"
    using op_exec_slash_repeats [OF s1, of 4] n by auto
  with s1 n show ?thesis by auto
qed

end
