(* ===== verification/Rent_Machine.thy ===== *)
theory Rent_Machine
  imports Online_Profile
begin

text \<open>
  The \<open>rent-machine\<close> pallet (\<open>pallets/rent-machine/src/lib.rs\<close>): renting GPUs of a registered machine,
  confirming and prolonging a rent, and closing orders when they expire. It holds the machine registry
  (\<open>Online_Profile\<close>) as part of its state and calls it through \<open>RTOps\<close>. The lemmas show that the indices
  over the orders agree with the orders along every run, hence that no GPU is rented out twice, that orders
  end when they are due, that the deposits recorded are those of the open orders, and that every call returns
  as long as fewer than \<open>2\<^sup>6\<^sup>4 - 1\<close> steps have been made.
\<close>

section \<open>State\<close>

definition WAITING_CONFIRMING_DELAY :: nat where "WAITING_CONFIRMING_DELAY = 15 * ONE_MINUTE"

datatype rm_error =
    BadOrigin | AccountAlreadyExist | MachineNotRentable | Overflow | InsufficientValue | ExpiredConfirm
  | NoOrderExist | StatusNotAllowed | UnlockToPayFeeFailed | UndefinedRentPot | PayTxFeeFailed
  | GetMachinePriceFailed | OnlyHalfHourAllowed | GPUNotEnough | NotMachineRenter | Unknown | ReletTooShort
  | NotMachineOwner | SignVerifiedFailed | MachineNotRented | MachineNotFound | MoreThanOneRenter
  | TransferFailed | Other rm_error

datatype rm_event =
    PayTxFee account balance
  | ConfirmRent rent_order_id account machine_id nat block_number balance
  | Rent rent_order_id account machine_id nat block_number balance
  | Relet rent_order_id account machine_id nat block_number balance
  | SetEvmAddress nat account

record 'w rm_state =
  rm_profile :: "'w op_state"
  UserOrder :: "account \<Rightarrow> rent_order_id list"
  MachineRentOrder :: "machine_id \<Rightarrow> machine_gpu_order"
  MachineRenterRentedOrders :: "machine_id \<Rightarrow> account \<Rightarrow> rented_order_detail list"
  NextRentId :: rent_order_id
  RentInfo :: "rent_order_id \<rightharpoonup> rent_order_detail"
  ConfirmingOrder :: "block_number \<rightharpoonup> rent_order_id list"
  RentEnding :: "block_number \<rightharpoonup> rent_order_id list"
  UserTotalStake :: "account \<Rightarrow> balance"
  RentFeePot :: "account option"
  MaximumRentalDuration :: era_index
  EvmAddress2Account :: "nat \<rightharpoonup> account"
  rm_events :: "rm_event list"

definition rm_deposit_event :: "rm_event \<Rightarrow> 'w rm_state \<Rightarrow> 'w rm_state" where
  "rm_deposit_event e s = s\<lparr>rm_events := rm_events s @ [e]\<rparr>"

definition rm_world :: "'w rm_state \<Rightarrow> 'w" where
  "rm_world s = op_world (rm_profile s)"

definition put_world :: "'w \<Rightarrow> 'w rm_state \<Rightarrow> 'w rm_state" where
  "put_world w s = s\<lparr>rm_profile := (rm_profile s)\<lparr>op_world := w\<rparr>\<rparr>"

text \<open>
  A list in a map from blocks to orders. Reading a missing list gives the empty one; a list that becomes empty
  is removed.
\<close>

definition orders_at :: "(block_number \<rightharpoonup> rent_order_id list) \<Rightarrow> block_number \<Rightarrow> rent_order_id list" where
  "orders_at f b = (case f b of None \<Rightarrow> [] | Some ids \<Rightarrow> ids)"

definition add_order_at ::
    "block_number \<Rightarrow> rent_order_id \<Rightarrow> (block_number \<rightharpoonup> rent_order_id list) \<Rightarrow> (block_number \<rightharpoonup> rent_order_id list)" where
  "add_order_at b rid f = f(b \<mapsto> add_item rid (orders_at f b))"

definition rm_order_at ::
    "block_number \<Rightarrow> rent_order_id \<Rightarrow> (block_number \<rightharpoonup> rent_order_id list) \<Rightarrow> (block_number \<rightharpoonup> rent_order_id list)" where
  "rm_order_at b rid f =
     (let rest = rm_item rid (orders_at f b) in if rest = [] then f(b := None) else f(b \<mapsto> rest))"

section \<open>Helpers of the dispatchables\<close>

definition change_renter_total_stake ::
    "'w op_config \<Rightarrow> account \<Rightarrow> balance \<Rightarrow> bool \<Rightarrow> 'w rm_state \<Rightarrow> 'w rm_state option" where
  "change_renter_total_stake T who amount is_add s =
     (let current_stake = UserTotalStake s who;
          put = (\<lambda>w v. (put_world w s)\<lparr>UserTotalStake := (UserTotalStake s)(who := v)\<rparr>)
      in if is_add
         then if \<not> can_reserve (op_Currency T) (rm_world s) who amount then None
              else Option.bind (reserve (op_Currency T) who amount (rm_world s)) (\<lambda>w.
                map_option (put w) (checked_add 128 current_stake amount))
         else if current_stake < amount then None
              else map_option (put (fst (unreserve (op_Currency T) who amount (rm_world s))))
                (checked_sub current_stake amount))"

text \<open>
  The loop computes the same candidate in every round, so it ends in the first round or never. Not to end is
  the value \<open>None\<close>.
\<close>

partial_function (option) new_rent_id_loop :: "rent_order_id \<Rightarrow> (rent_order_id \<rightharpoonup> rent_order_detail) \<Rightarrow> rent_order_id option" where
  "new_rent_id_loop rid info =
     (let new_rent_id = (if rid = 2 ^ 64 - 1 then 0 else rid + 1)
      in if info new_rent_id = None then Some new_rent_id else new_rent_id_loop rid info)"

definition get_new_rent_id :: "'w rm_state \<Rightarrow> (rent_order_id \<times> 'w rm_state) option" where
  "get_new_rent_id s =
     map_option (\<lambda>new_rent_id. (NextRentId s, s\<lparr>NextRentId := new_rent_id\<rparr>))
       (new_rent_id_loop (NextRentId s) (RentInfo s))"

definition pay_rent_fee ::
    "'w op_config \<Rightarrow> account \<Rightarrow> machine_id \<Rightarrow> account \<Rightarrow> balance \<Rightarrow> 'w rm_state \<Rightarrow> rm_error + 'w rm_state" where
  "pay_rent_fee T who m stash fee s =
     (case RentFeePot s of
        None \<Rightarrow> Inl UndefinedRentPot
      | Some pot \<Rightarrow>
          let fee_to_destroy = pmul (op_Perthing T) PERBILL (RentFeeDestroyPercent (rm_profile s)) fee in
          (case checked_sub fee fee_to_destroy of
             None \<Rightarrow> Inl Overflow
           | Some fee_to_stash \<Rightarrow>
               (case Option.bind (transfer (op_Currency T) who stash fee_to_stash KeepAlive (rm_world s))
                    (transfer (op_Currency T) who pot fee_to_destroy KeepAlive) of
                  None \<Rightarrow> Inl TransferFailed
                | Some w \<Rightarrow>
                    let s1 = put_world w s
                    in Inr (s1\<lparr>rm_profile :=
                         fst (change_machine_rent_fee T stash m fee_to_destroy fee_to_stash (rm_profile s1))\<rparr>))))"

definition rent_fee_value :: "nat \<Rightarrow> nat \<Rightarrow> nat \<Rightarrow> block_number \<Rightarrow> 'w op_state \<Rightarrow> rm_error + nat" where
  "rent_fee_value point need total_gpu duration p =
     (case get_machine_price point need total_gpu p of
        None \<Rightarrow> Inl GetMachinePriceFailed
      | Some price \<Rightarrow>
          (case Option.bind (checked_mul 64 price duration) (\<lambda>v. checked_div v ONE_DAY) of
             None \<Rightarrow> Inl Overflow
           | Some v \<Rightarrow> Inr v))"

definition dbc_rent_fee ::
    "'w op_config \<Rightarrow> nat \<Rightarrow> nat \<Rightarrow> nat \<Rightarrow> block_number \<Rightarrow> 'w op_state \<Rightarrow> rm_error + balance" where
  "dbc_rent_fee T point need total_gpu duration p =
     (case rent_fee_value point need total_gpu duration p of
        Inl e \<Rightarrow> Inl e
      | Inr v \<Rightarrow>
          (case amount_by_value (op_DbcPrice T) (op_world p) v of
             None \<Rightarrow> Inl Overflow
           | Some fee \<Rightarrow> Inr fee))"

section \<open>Opening and closing an order\<close>

definition confirm_at :: "rent_order_detail \<Rightarrow> block_number" where
  "confirm_at r = wrapping_add 32 (rent_start r) WAITING_CONFIRMING_DELAY"

definition open_order :: "rent_order_id \<Rightarrow> rent_order_detail \<Rightarrow> machine_gpu_order \<Rightarrow> 'w rm_state \<Rightarrow> 'w rm_state" where
  "open_order rid r g s =
     s\<lparr>RentInfo := (RentInfo s)(rid \<mapsto> r),
       UserOrder := (UserOrder s)(renter r := add_item rid (UserOrder s (renter r))),
       RentEnding := add_order_at (rent_end r) rid (RentEnding s),
       ConfirmingOrder := add_order_at (confirm_at r) rid (ConfirmingOrder s),
       MachineRentOrder := (MachineRentOrder s)(order_machine_id r := g\<lparr>rent_order := add_item rid (rent_order g)\<rparr>)\<rparr>"

definition return_stake :: "'w op_config \<Rightarrow> rent_order_detail \<Rightarrow> 'w rm_state \<Rightarrow> 'w rm_state" where
  "return_stake T r s =
     (if order_stake_amount r = 0 then s
      else case change_renter_total_stake T (renter r) (order_stake_amount r) False s of
          None \<Rightarrow> s
        | Some s' \<Rightarrow> s')"

definition close_order :: "'w op_config \<Rightarrow> rent_order_id \<Rightarrow> rent_order_detail \<Rightarrow> block_number \<Rightarrow> 'w rm_state \<Rightarrow> 'w rm_state" where
  "close_order T rid r ending s0 =
     (let s = return_stake T r s0
      in s\<lparr>UserOrder := (UserOrder s)(renter r := rm_item rid (UserOrder s (renter r))),
           RentEnding := rm_order_at ending rid (RentEnding s),
           MachineRentOrder := (MachineRentOrder s)(order_machine_id r :=
             clean_expired_order rid (gpu_index r) (MachineRentOrder s (order_machine_id r))),
           RentInfo := (RentInfo s)(rid := None)\<rparr>)"

section \<open>Block hook\<close>

fun starting_loop :: "'w op_config \<Rightarrow> block_number \<Rightarrow> rent_order_id list \<Rightarrow> 'w rm_state \<Rightarrow> 'w rm_state" where
  "starting_loop T now [] s = s"
| "starting_loop T now (rid # rids) s =
     (case RentInfo s rid of
        None \<Rightarrow> s
      | Some r \<Rightarrow>
          let s1 = close_order T rid r (rent_end r) s;
              s2 = s1\<lparr>ConfirmingOrder := rm_order_at now rid (ConfirmingOrder s1)\<rparr>
          in case change_machine_status_on_confirm_expired (order_machine_id r) (order_gpu_num r) (rm_profile s2) of
               None \<Rightarrow> s2
             | Some p \<Rightarrow> starting_loop T now rids (s2\<lparr>rm_profile := p\<rparr>))"

definition check_machine_starting_status :: "'w op_config \<Rightarrow> block_number \<Rightarrow> 'w rm_state \<Rightarrow> 'w rm_state" where
  "check_machine_starting_status T now s = starting_loop T now (orders_at (ConfirmingOrder s) now) s"

definition is_last_rent :: "machine_id \<Rightarrow> account \<Rightarrow> 'w rm_state \<Rightarrow> (bool \<times> bool) option" where
  "is_last_rent m who s =
     (let infos = map (RentInfo s) (rent_order (MachineRentOrder s m)) in
      if None \<in> set infos then None
      else Some (length (filter (\<lambda>r. rent_status r = Renting) (map the infos)) < 2,
                 length (filter (\<lambda>r. renter r = who) (map the infos)) < 2))"

fun finished_loop :: "'w op_config \<Rightarrow> block_number \<Rightarrow> rent_order_id list \<Rightarrow> 'w rm_state \<Rightarrow> 'w rm_state" where
  "finished_loop T now [] s = s"
| "finished_loop T now (rid # rids) s =
     (case RentInfo s rid of
        None \<Rightarrow> s
      | Some r \<Rightarrow>
          (case is_last_rent (order_machine_id r) (renter r) s of
             None \<Rightarrow> s
           | Some (machine_last, renter_last) \<Rightarrow>
               let duration = saturating_sub (rent_end r) (rent_start r);
                   p = (case change_machine_status_on_rent_end T now (order_machine_id r) (order_gpu_num r) duration
                            machine_last renter_last (renter r) (rm_profile s) of
                          None \<Rightarrow> rm_profile s
                        | Some p \<Rightarrow> p)
               in finished_loop T now rids (close_order T rid r now (s\<lparr>rm_profile := p\<rparr>))))"

definition check_if_rent_finished :: "'w op_config \<Rightarrow> block_number \<Rightarrow> 'w rm_state \<Rightarrow> 'w rm_state" where
  "check_if_rent_finished T now s = finished_loop T now (orders_at (RentEnding s) now) s"

definition rm_on_finalize :: "'w op_config \<Rightarrow> block_number \<Rightarrow> 'w rm_state \<Rightarrow> 'w rm_state" where
  "rm_on_finalize T now s = check_if_rent_finished T now (check_machine_starting_status T now s)"

section \<open>Dispatchables\<close>

definition set_rent_fee_pot :: "origin \<Rightarrow> account \<Rightarrow> 'w rm_state \<Rightarrow> rm_error + 'w rm_state" where
  "set_rent_fee_pot orig pot s = (if \<not> ensure_root orig then Inl BadOrigin else Inr (s\<lparr>RentFeePot := Some pot\<rparr>))"

definition rent_machine_by_block ::
    "'w op_config \<Rightarrow> block_number \<Rightarrow> account \<Rightarrow> machine_id \<Rightarrow> nat \<Rightarrow> block_number \<Rightarrow> 'w rm_state \<Rightarrow>
     (rm_error + 'w rm_state) option" where
  "rent_machine_by_block T now who m rent_gpu_num duration0 s =
     (case MachinesInfo (rm_profile s) m of
        None \<Rightarrow> Some (Inl Unknown)
      | Some i \<Rightarrow>
          if gpu_num i = 0 \<or> duration0 = 0 then Some (Inr s)
          else if gpu_num i < wrapping_add 32 rent_gpu_num (MachineRentedGPU (rm_profile s) m)
          then Some (Inl GPUNotEnough)
          else if duration0 mod HALF_HOUR \<noteq> 0 then Some (Inl OnlyHalfHourAllowed)
          else if machine_status i \<noteq> Online \<and> machine_status i \<noteq> Rented then Some (Inl MachineNotRentable)
          else
            let duration = min duration0 (saturating_mul 32 (MaximumRentalDuration s) ONE_DAY) in
            (case op_pay_fixed_tx_fee T who (rm_world s) of
               None \<Rightarrow> Some (Inl PayTxFeeFailed)
             | Some w \<Rightarrow>
                 let s1 = put_world w s in
                 (case dbc_rent_fee T (calc_point i) rent_gpu_num (gpu_num i) duration (rm_profile s1) of
                    Inl e \<Rightarrow> Some (Inl e)
                  | Inr rent_fee \<Rightarrow>
                 (case checked_add 32 duration now of
                    None \<Rightarrow> Some (Inl Overflow)
                  | Some end_at \<Rightarrow>
                 (case change_renter_total_stake T who rent_fee True s1 of
                    None \<Rightarrow> Some (Inl InsufficientValue)
                  | Some s2 \<Rightarrow>
                 (case get_new_rent_id s2 of
                    None \<Rightarrow> None
                  | Some (rid, s3) \<Rightarrow>
                 (case gen_rentable_gpu rent_gpu_num (gpu_num i) (MachineRentOrder s3 m) of
                    (gpus, g) \<Rightarrow>
                 (case change_machine_status_on_rent_start m rent_gpu_num (rm_profile s3) of
                    None \<Rightarrow> Some (Inl Unknown)
                  | Some p \<Rightarrow>
                      Some (Inr (rm_deposit_event (Rent rid who m rent_gpu_num duration rent_fee)
                        (open_order rid (new_rent_order m who now end_at rent_fee rent_gpu_num gpus) g
                          (s3\<lparr>rm_profile := p\<rparr>))))))))))))"

definition rent_machine ::
    "'w op_config \<Rightarrow> block_number \<Rightarrow> origin \<Rightarrow> machine_id \<Rightarrow> nat \<Rightarrow> block_number \<Rightarrow> 'w rm_state \<Rightarrow>
     (rm_error + 'w rm_state) option" where
  "rent_machine T now orig m rent_gpu_num duration s =
     (case ensure_signed orig of
        None \<Rightarrow> Some (Inl BadOrigin)
      | Some who \<Rightarrow> rent_machine_by_block T now who m rent_gpu_num duration s)"

definition push_rented :: "machine_id \<Rightarrow> account \<Rightarrow> rent_order_id \<Rightarrow> rent_order_detail \<Rightarrow> 'w rm_state \<Rightarrow> 'w rm_state" where
  "push_rented m who rid r s =
     s\<lparr>MachineRenterRentedOrders := (MachineRenterRentedOrders s)(m := (MachineRenterRentedOrders s m)(who :=
         MachineRenterRentedOrders s m who @
           [\<lparr>rented_rent_id = rid, rented_start = rent_start r, rented_end = rent_end r\<rparr>]))\<rparr>"

definition confirm_rent ::
    "'w op_config \<Rightarrow> block_number \<Rightarrow> origin \<Rightarrow> rent_order_id \<Rightarrow> 'w rm_state \<Rightarrow> rm_error + 'w rm_state" where
  "confirm_rent T now orig rid s =
     (case ensure_signed orig of
        None \<Rightarrow> Inl BadOrigin
      | Some who \<Rightarrow>
     (case RentInfo s rid of
        None \<Rightarrow> Inl Unknown
      | Some r \<Rightarrow>
          if renter r \<noteq> who \<or> rent_status r \<noteq> WaitingVerifying then Inl NoOrderExist
          else
     (case checked_sub now (rent_start r) of
        None \<Rightarrow> Inl Overflow
      | Some waited \<Rightarrow>
          if WAITING_CONFIRMING_DELAY < waited then Inl ExpiredConfirm
          else
     (case MachinesInfo (rm_profile s) (order_machine_id r) of
        None \<Rightarrow> Inl Unknown
      | Some i \<Rightarrow>
          if machine_status i \<noteq> Rented then Inl StatusNotAllowed
          else
     (case change_renter_total_stake T who (order_stake_amount r) False s of
        None \<Rightarrow> Inl UnlockToPayFeeFailed
      | Some s1 \<Rightarrow>
     (case pay_rent_fee T who (order_machine_id r) (machine_stash i) (order_stake_amount r) s1 of
        Inl e \<Rightarrow> Inl e
      | Inr s2 \<Rightarrow>
          let r1 = (confirm_order now r)\<lparr>order_stake_amount := 0\<rparr> in
     (case change_machine_status_on_confirmed T (order_machine_id r) who (rm_profile s2) of
        None \<Rightarrow> Inl Unknown
      | Some p \<Rightarrow>
          Inr (rm_deposit_event
            (ConfirmRent rid who (order_machine_id r) (order_gpu_num r)
              (saturating_sub (rent_end r) (rent_start r)) (order_stake_amount r))
            (push_rented (order_machine_id r) who rid r1
              (s2\<lparr>rm_profile := p, ConfirmingOrder := rm_order_at (confirm_at r) rid (ConfirmingOrder s2),
                  RentInfo := (RentInfo s2)(rid \<mapsto> r1)\<rparr>))))))))))"

definition relet_machine_by_block ::
    "'w op_config \<Rightarrow> block_number \<Rightarrow> account \<Rightarrow> rent_order_id \<Rightarrow> block_number \<Rightarrow> 'w rm_state \<Rightarrow> rm_error + 'w rm_state" where
  "relet_machine_by_block T now who rid duration s =
     (case RentInfo s rid of
        None \<Rightarrow> Inl Unknown
      | Some r \<Rightarrow>
          if duration < 10 * ONE_MINUTE then Inl ReletTooShort
          else if renter r \<noteq> who then Inl NotMachineRenter
          else if rent_status r \<noteq> Renting then Inl NoOrderExist
          else
     (case MachinesInfo (rm_profile s) (order_machine_id r) of
        None \<Rightarrow> Inl Unknown
      | Some i \<Rightarrow>
     (case checked_add 32 now (60 * ONE_DAY) of
        None \<Rightarrow> Inl Overflow
      | Some max_rent_end \<Rightarrow>
          let wanted_rent_end = wrapping_add 32 (rent_end r) duration;
              add_duration = (if wanted_rent_end \<le> max_rent_end then duration
                else saturating_sub max_rent_end (rent_end r))
          in if add_duration = 0 then Inr s
             else
     (case dbc_rent_fee T (calc_point i) (order_gpu_num r) (gpu_num i) add_duration (rm_profile s) of
        Inl e \<Rightarrow> Inl e
      | Inr rent_fee \<Rightarrow>
          if \<not> rent_fee < free_balance (op_Currency T) (rm_world s) who then Inl InsufficientValue
          else
     (case pay_rent_fee T who (order_machine_id r) (machine_stash i) rent_fee s of
        Inl e \<Rightarrow> Inl e
      | Inr s1 \<Rightarrow>
     (case checked_add 32 (rent_end r) add_duration of
        None \<Rightarrow> Inl Overflow
      | Some end_at \<Rightarrow>
          let r1 = r\<lparr>rent_end := end_at\<rparr> in
          Inr (rm_deposit_event (Relet rid who (order_machine_id r) (order_gpu_num r) add_duration rent_fee)
            ((push_rented (order_machine_id r) who rid r1
              (s1\<lparr>RentEnding := add_order_at end_at rid (rm_order_at (rent_end r) rid (RentEnding s1))\<rparr>))
             \<lparr>RentInfo := (RentInfo s1)(rid \<mapsto> r1)\<rparr>))))))))"

definition relet_machine ::
    "'w op_config \<Rightarrow> block_number \<Rightarrow> origin \<Rightarrow> rent_order_id \<Rightarrow> block_number \<Rightarrow> 'w rm_state \<Rightarrow> rm_error + 'w rm_state" where
  "relet_machine T now orig rid duration s =
     (case ensure_signed orig of
        None \<Rightarrow> Inl BadOrigin
      | Some who \<Rightarrow> relet_machine_by_block T now who rid duration s)"

definition bond_evm_address :: "origin \<Rightarrow> machine_id \<Rightarrow> nat \<Rightarrow> 'w rm_state \<Rightarrow> rm_error + 'w rm_state" where
  "bond_evm_address orig m evm s =
     (case ensure_signed orig of
        None \<Rightarrow> Inl BadOrigin
      | Some who \<Rightarrow>
          (case MachinesInfo (rm_profile s) m of
             None \<Rightarrow> Inl (Other MachineNotFound)
           | Some i \<Rightarrow>
               if controller i \<noteq> who \<and> machine_stash i \<noteq> who then Inl NotMachineOwner
               else Inr (rm_deposit_event (SetEvmAddress evm who)
                 (s\<lparr>EvmAddress2Account := (EvmAddress2Account s)(evm \<mapsto> who)\<rparr>))))"

datatype rm_call =
    SetRentFeePot account
  | RentMachineCall machine_id nat block_number
  | ConfirmRentCall rent_order_id
  | ReletMachine rent_order_id block_number
  | BondEvmAddress machine_id nat

fun rm_dispatch ::
    "'w op_config \<Rightarrow> block_number \<Rightarrow> origin \<Rightarrow> rm_call \<Rightarrow> 'w rm_state \<Rightarrow> (rm_error + 'w rm_state) option" where
  "rm_dispatch T now orig (SetRentFeePot pot) s = Some (set_rent_fee_pot orig pot s)"
| "rm_dispatch T now orig (RentMachineCall m num duration) s = rent_machine T now orig m num duration s"
| "rm_dispatch T now orig (ConfirmRentCall rid) s = Some (confirm_rent T now orig rid s)"
| "rm_dispatch T now orig (ReletMachine rid duration) s = Some (relet_machine T now orig rid duration s)"
| "rm_dispatch T now orig (BondEvmAddress m evm) s = Some (bond_evm_address orig m evm s)"

section \<open>Queries\<close>

definition get_rent_ids :: "machine_id \<Rightarrow> account \<Rightarrow> 'w rm_state \<Rightarrow> rent_order_id list" where
  "get_rent_ids m who s =
     filter (\<lambda>rid. case RentInfo s rid of
         None \<Rightarrow> False
       | Some r \<Rightarrow> renter r = who \<and> rent_status r = Renting) (rent_order (MachineRentOrder s m))"

definition get_rent_id_of_renting_dbc_machine_by_owner :: "machine_id \<Rightarrow> 'w rm_state \<Rightarrow> rent_order_id option" where
  "get_rent_id_of_renting_dbc_machine_by_owner m s =
     (case (MachinesInfo (rm_profile s) m, rent_order (MachineRentOrder s m)) of
        (Some i, [rid]) \<Rightarrow>
          (case RentInfo s rid of
             None \<Rightarrow> None
           | Some r \<Rightarrow> if rent_status r = Renting \<and> renter r = controller i then Some rid else None)
      | _ \<Rightarrow> None)"

definition get_machine_calc_point :: "machine_id \<Rightarrow> 'w rm_state \<Rightarrow> nat" where
  "get_machine_calc_point m s = (case MachinesInfo (rm_profile s) m of None \<Rightarrow> 0 | Some i \<Rightarrow> calc_point i)"

definition get_machine_cpu_rate :: "machine_id \<Rightarrow> 'w rm_state \<Rightarrow> nat" where
  "get_machine_cpu_rate m s = (case MachinesInfo (rm_profile s) m of None \<Rightarrow> 0 | Some i \<Rightarrow> cpu_rate i)"

definition get_machine_gpu_type_and_mem :: "machine_id \<Rightarrow> 'w rm_state \<Rightarrow> bytes \<times> nat" where
  "get_machine_gpu_type_and_mem m s =
     (case MachinesInfo (rm_profile s) m of None \<Rightarrow> ([], 0) | Some i \<Rightarrow> gpu_type_and_mem i)"

definition get_machine_gpu_num :: "machine_id \<Rightarrow> 'w rm_state \<Rightarrow> nat" where
  "get_machine_gpu_num m s = (case MachinesInfo (rm_profile s) m of None \<Rightarrow> 0 | Some i \<Rightarrow> gpu_num i)"

definition get_rent_end_at :: "machine_id \<Rightarrow> rent_order_id \<Rightarrow> 'w rm_state \<Rightarrow> rm_error + block_number" where
  "get_rent_end_at m rid s =
     (case MachinesInfo (rm_profile s) m of
        None \<Rightarrow> Inl MachineNotFound
      | Some i \<Rightarrow>
          (case RentInfo s rid of
             None \<Rightarrow> Inl MachineNotRented
           | Some r \<Rightarrow>
               if order_machine_id r \<noteq> m then Inl NotMachineRenter
               else if renter r \<noteq> controller i \<and> renter r \<noteq> machine_stash i then Inl NotMachineRenter
               else Inr (rent_end r)))"

definition is_machine_owner :: "machine_id \<Rightarrow> nat \<Rightarrow> 'w rm_state \<Rightarrow> rm_error + bool" where
  "is_machine_owner m evm s =
     (case EvmAddress2Account s evm of
        None \<Rightarrow> Inl NotMachineOwner
      | Some a \<Rightarrow>
          (case MachinesInfo (rm_profile s) m of
             None \<Rightarrow> Inl MachineNotFound
           | Some i \<Rightarrow> Inr (controller i = a \<or> machine_stash i = a)))"

definition get_usdt_machine_rent_fee ::
    "machine_id \<Rightarrow> block_number \<Rightarrow> nat \<Rightarrow> 'w rm_state \<Rightarrow> rm_error + nat" where
  "get_usdt_machine_rent_fee m duration num s =
     (case MachinesInfo (rm_profile s) m of
        None \<Rightarrow> Inl Unknown
      | Some i \<Rightarrow> rent_fee_value (calc_point i) num (gpu_num i) duration (rm_profile s))"

definition dlc_fee_of :: "rm_error + nat \<Rightarrow> rm_error + nat" where
  "dlc_fee_of val =
     (case val of
        Inl e \<Rightarrow> Inl e
      | Inr v \<Rightarrow>
          (case get_dlc_amount_by_value v of
             None \<Rightarrow> Inl Overflow
           | Some fee \<Rightarrow> Inr (saturated_into 64 fee)))"

definition get_dlc_machine_rent_fee ::
    "'w op_config \<Rightarrow> machine_id \<Rightarrow> block_number \<Rightarrow> nat \<Rightarrow> 'w rm_state \<Rightarrow> rm_error + nat" where
  "get_dlc_machine_rent_fee T m duration num s =
     (case MachinesInfo (rm_profile s) m of
        None \<Rightarrow> Inl Unknown
      | Some i \<Rightarrow>
          dlc_fee_of (map_sum id (\<lambda>v. wrapping_add 64 (per T 25 100 v) v)
            (rent_fee_value (calc_point i) num (gpu_num i) duration (rm_profile s))))"

definition get_dlc_rent_fee_by_calc_point ::
    "nat \<Rightarrow> block_number \<Rightarrow> nat \<Rightarrow> nat \<Rightarrow> 'w rm_state \<Rightarrow> rm_error + nat" where
  "get_dlc_rent_fee_by_calc_point point duration num total_gpu s =
     dlc_fee_of (rent_fee_value point num total_gpu duration (rm_profile s))"

definition get_dbc_machine_rent_fee ::
    "'w op_config \<Rightarrow> machine_id \<Rightarrow> block_number \<Rightarrow> nat \<Rightarrow> 'w rm_state \<Rightarrow> rm_error + nat" where
  "get_dbc_machine_rent_fee T m duration num s =
     (case MachinesInfo (rm_profile s) m of
        None \<Rightarrow> Inl Unknown
      | Some i \<Rightarrow>
          map_sum id (saturated_into 64)
            (dbc_rent_fee T (calc_point i) num (gpu_num i) duration (rm_profile s)))"

section \<open>Runs\<close>

text \<open>Calls, the block hook, and whatever the machine registry does in between.\<close>

inductive rm_step :: "'w op_config \<Rightarrow> 'w rm_state \<Rightarrow> 'w rm_state \<Rightarrow> bool" for T where
  rent_call: "rm_dispatch T now orig c s = Some (Inr s') \<Longrightarrow> rm_step T s s'"
| rent_hook: "rm_step T s (rm_on_finalize T now s)"
| rent_profile: "op_step T (rm_profile s) p \<Longrightarrow> rm_step T s (s\<lparr>rm_profile := p\<rparr>)"

section \<open>A fresh order number\<close>

definition next_id :: "rent_order_id \<Rightarrow> rent_order_id" where
  "next_id rid = (if rid = 2 ^ 64 - 1 then 0 else rid + 1)"

lemma new_rent_id_loop_Some: "new_rent_id_loop rid info = Some n \<Longrightarrow> n = next_id rid \<and> info (next_id rid) = None"
proof (erule new_rent_id_loop.raw_induct [where P = "\<lambda>rid info n. n = next_id rid \<and> info (next_id rid) = None", rotated])
  fix f :: "rent_order_id \<Rightarrow> (rent_order_id \<rightharpoonup> rent_order_detail) \<Rightarrow> rent_order_id option" and rid info n
  assume IH: "\<And>rid info n. f rid info = Some n \<Longrightarrow> n = next_id rid \<and> info (next_id rid) = None"
    and r: "(let k = if rid = 2 ^ 64 - 1 then 0 else rid + 1 in if info k = None then Some k else f rid info) = Some n"
  have "(if info (next_id rid) = None then Some (next_id rid) else f rid info) = Some n"
    using r unfolding next_id_def [symmetric] Let_def .
  then show "n = next_id rid \<and> info (next_id rid) = None" using IH [of rid info n] by (auto split: if_splits)
qed

text \<open>The loop ends if and only if the successor is free.\<close>

lemma new_rent_id_loop_eq:
  "new_rent_id_loop rid info = (if info (next_id rid) = None then Some (next_id rid) else None)"
proof (cases "info (next_id rid) = None")
  case True
  then show ?thesis by (subst new_rent_id_loop.simps) (auto simp: next_id_def Let_def)
next
  case False
  then show ?thesis using new_rent_id_loop_Some [of rid info] by (cases "new_rent_id_loop rid info") auto
qed

lemma get_new_rent_id_eq:
  "get_new_rent_id s =
    (if RentInfo s (next_id (NextRentId s)) = None
     then Some (NextRentId s, s\<lparr>NextRentId := next_id (NextRentId s)\<rparr>) else None)"
  by (simp add: get_new_rent_id_def new_rent_id_loop_eq)

section \<open>Indices over the orders\<close>

text \<open>A list is an index of the orders with a property: it has exactly their numbers, in order.\<close>

definition index_of ::
    "(rent_order_id \<rightharpoonup> rent_order_detail) \<Rightarrow> (rent_order_detail \<Rightarrow> bool) \<Rightarrow> rent_order_id list \<Rightarrow> bool" where
  "index_of info P ids \<longleftrightarrow> ascending ids \<and> set ids = {rid. \<exists>r. info rid = Some r \<and> P r}"

lemma index_of_empty: "index_of Map.empty P []"
  by (simp add: index_of_def)

lemma index_of_insert:
  "index_of info P ids \<Longrightarrow> info rid = None \<Longrightarrow>
    index_of (info(rid \<mapsto> r)) P (if P r then add_item rid ids else ids)"
  by (auto simp: index_of_def il.add_ok)

lemma index_of_remove:
  "index_of info P ids \<Longrightarrow> info rid = Some r \<Longrightarrow>
    index_of (info(rid := None)) P (if P r then rm_item rid ids else ids)"
  by (auto simp: index_of_def il.rm_ok)

lemma index_of_update:
  "index_of info P ids \<Longrightarrow> info rid = Some r \<Longrightarrow> P r' = P r \<Longrightarrow> index_of (info(rid \<mapsto> r')) P ids"
  by (auto simp: index_of_def)

lemma index_of_mem: "index_of info P ids \<Longrightarrow> rid \<in> set ids \<longleftrightarrow> (\<exists>r. info rid = Some r \<and> P r)"
  by (simp add: index_of_def)

lemma orders_at_upd:
  "orders_at (add_order_at b rid f) b' = (if b' = b then add_item rid (orders_at f b) else orders_at f b')"
  "orders_at (rm_order_at b rid f) b' = (if b' = b then rm_item rid (orders_at f b) else orders_at f b')"
  by (simp_all add: orders_at_def add_order_at_def rm_order_at_def Let_def)

section \<open>The invariant\<close>

text \<open>
  The next number is free; the orders of each renter, of each machine and of each final block are indexed; the
  used GPUs of a machine are those of its orders, which share none; and the deposit of a renter is the sum of
  the deposits of the open orders.
\<close>

definition gpus_disjoint :: "(rent_order_id \<rightharpoonup> rent_order_detail) \<Rightarrow> bool" where
  "gpus_disjoint info \<longleftrightarrow> (\<forall>rid r rid' r'. info rid = Some r \<longrightarrow> info rid' = Some r' \<longrightarrow> rid \<noteq> rid' \<longrightarrow>
     order_machine_id r = order_machine_id r' \<longrightarrow> set (gpu_index r) \<inter> set (gpu_index r') = {})"

definition gpus_of :: "(rent_order_id \<rightharpoonup> rent_order_detail) \<Rightarrow> machine_id \<Rightarrow> nat set" where
  "gpus_of info m = {g. \<exists>rid r. info rid = Some r \<and> order_machine_id r = m \<and> g \<in> set (gpu_index r)}"

definition stake_of :: "(rent_order_id \<rightharpoonup> rent_order_detail) \<Rightarrow> rent_order_id \<Rightarrow> balance" where
  "stake_of info rid = (case info rid of None \<Rightarrow> 0 | Some r \<Rightarrow> order_stake_amount r)"

definition rm_ok :: "'w rm_state \<Rightarrow> bool" where
  "rm_ok s \<longleftrightarrow> RentInfo s (NextRentId s) = None \<and>
     (\<forall>a. index_of (RentInfo s) (\<lambda>r. renter r = a) (UserOrder s a)) \<and>
     (\<forall>m. index_of (RentInfo s) (\<lambda>r. order_machine_id r = m) (rent_order (MachineRentOrder s m))) \<and>
     (\<forall>b. index_of (RentInfo s) (\<lambda>r. rent_end r = b) (orders_at (RentEnding s) b)) \<and>
     gpus_disjoint (RentInfo s) \<and>
     (\<forall>m. ascending (used_gpu (MachineRentOrder s m)) \<and>
       set (used_gpu (MachineRentOrder s m)) = gpus_of (RentInfo s) m) \<and>
     (\<forall>a. UserTotalStake s a = sum (stake_of (RentInfo s)) (set (UserOrder s a)))"

lemma rm_okD:
  assumes "rm_ok s"
  shows "RentInfo s (NextRentId s) = None"
    "index_of (RentInfo s) (\<lambda>r. renter r = a) (UserOrder s a)"
    "index_of (RentInfo s) (\<lambda>r. order_machine_id r = m) (rent_order (MachineRentOrder s m))"
    "index_of (RentInfo s) (\<lambda>r. rent_end r = b) (orders_at (RentEnding s) b)"
    "gpus_disjoint (RentInfo s)" "ascending (used_gpu (MachineRentOrder s m))"
    "set (used_gpu (MachineRentOrder s m)) = gpus_of (RentInfo s) m"
    "UserTotalStake s a = sum (stake_of (RentInfo s)) (set (UserOrder s a))"
  using assms by (simp_all add: rm_ok_def)

lemma rm_ok_cong:
  assumes "RentInfo s' = RentInfo s" "NextRentId s' = NextRentId s" "UserOrder s' = UserOrder s"
    "MachineRentOrder s' = MachineRentOrder s" "RentEnding s' = RentEnding s" "UserTotalStake s' = UserTotalStake s"
  shows "rm_ok s' = rm_ok s"
  by (simp add: rm_ok_def assms)

lemma rm_ok_updates [simp]:
  "rm_ok (s\<lparr>rm_profile := p\<rparr>) = rm_ok s" "rm_ok (s\<lparr>ConfirmingOrder := c\<rparr>) = rm_ok s"
  "rm_ok (s\<lparr>RentFeePot := f\<rparr>) = rm_ok s" "rm_ok (s\<lparr>EvmAddress2Account := e\<rparr>) = rm_ok s"
  "rm_ok (rm_deposit_event ev s) = rm_ok s" "rm_ok (put_world w s) = rm_ok s"
  "rm_ok (push_rented m a rid r s) = rm_ok s"
  by (rule rm_ok_cong; simp add: rm_deposit_event_def put_world_def push_rented_def)+

lemma gpus_of_upd:
  assumes "info rid = None"
  shows "gpus_of (info(rid \<mapsto> r)) m = gpus_of info m \<union> (if order_machine_id r = m then set (gpu_index r) else {})"
  using assms by (auto simp: gpus_of_def) (metis option.distinct(1))+

lemma gpus_of_remove:
  assumes "info rid = Some r" "gpus_disjoint info"
  shows "gpus_of (info(rid := None)) m = gpus_of info m - (if order_machine_id r = m then set (gpu_index r) else {})"
proof -
  have "g \<notin> set (gpu_index r)"
    if "info rid' = Some r'" "rid' \<noteq> rid" "order_machine_id r' = order_machine_id r" "g \<in> set (gpu_index r')" for g rid' r'
    using assms that unfolding gpus_disjoint_def by blast
  then show ?thesis using assms(1) by (auto simp: gpus_of_def) (metis option.sel)+
qed

lemma gpus_disjoint_insert:
  assumes "gpus_disjoint info" "info rid = None" "set (gpu_index r) \<inter> gpus_of info (order_machine_id r) = {}"
  shows "gpus_disjoint (info(rid \<mapsto> r))"
proof -
  have "set (gpu_index r) \<inter> set (gpu_index r') = {}"
    if "info rid' = Some r'" "order_machine_id r' = order_machine_id r" for rid' r'
    using assms(3) that by (auto simp: gpus_of_def)
  then show ?thesis using assms(1,2) unfolding gpus_disjoint_def by (auto; blast)
qed

lemma gpus_disjoint_remove: "gpus_disjoint info \<Longrightarrow> gpus_disjoint (info(rid := None))"
  unfolding gpus_disjoint_def by auto

lemma stake_of_upd: "stake_of (info(rid := v)) = (stake_of info)(rid := stake_of (\<lambda>_. v) rid)"
  by (auto simp: stake_of_def fun_eq_iff)

section \<open>Preservation\<close>

lemma stake_le_total:
  assumes "rm_ok s" "RentInfo s rid = Some r"
  shows "rid \<in> set (UserOrder s (renter r))" "order_stake_amount r \<le> UserTotalStake s (renter r)"
proof -
  show m: "rid \<in> set (UserOrder s (renter r))"
    using rm_okD(2) [OF assms(1), of "renter r"] assms(2) by (simp add: index_of_mem)
  have "stake_of (RentInfo s) rid \<le> sum (stake_of (RentInfo s)) (set (UserOrder s (renter r)))"
    by (rule member_le_sum) (use m in simp_all)
  then show "order_stake_amount r \<le> UserTotalStake s (renter r)"
    using assms by (simp add: rm_okD(8) stake_of_def)
qed

lemma change_renter_total_stake_add:
  assumes "change_renter_total_stake T who v True s = Some s'"
  obtains w where "reserve (op_Currency T) who v (rm_world s) = Some w"
    "s' = (put_world w s)\<lparr>UserTotalStake := (UserTotalStake s)(who := UserTotalStake s who + v)\<rparr>"
  using assms by (auto simp: change_renter_total_stake_def Let_def checked_Some bind_eq_Some_conv split: if_splits)

lemma change_renter_total_stake_sub:
  "change_renter_total_stake T who v False s =
    (if UserTotalStake s who < v then None
     else Some ((put_world (fst (unreserve (op_Currency T) who v (rm_world s))) s)
       \<lparr>UserTotalStake := (UserTotalStake s)(who := UserTotalStake s who - v)\<rparr>))"
  by (simp add: change_renter_total_stake_def Let_def int_ops)

lemma return_stake_eq:
  assumes "order_stake_amount r \<le> UserTotalStake s (renter r)"
  obtains w where "return_stake T r s = (put_world w s)
      \<lparr>UserTotalStake := (UserTotalStake s)(renter r := UserTotalStake s (renter r) - order_stake_amount r)\<rparr>"
proof (cases "order_stake_amount r = 0")
  case True
  then have "return_stake T r s = (put_world (rm_world s) s)
      \<lparr>UserTotalStake := (UserTotalStake s)(renter r := UserTotalStake s (renter r) - order_stake_amount r)\<rparr>"
    by (simp add: return_stake_def put_world_def rm_world_def)
  then show ?thesis by (rule that)
next
  case False
  then show ?thesis using assms that by (simp add: return_stake_def change_renter_total_stake_sub)
qed

lemma close_order_fields:
  assumes "rm_ok s" "RentInfo s rid = Some r"
  shows "RentInfo (close_order T rid r b s) = (RentInfo s)(rid := None)"
    "NextRentId (close_order T rid r b s) = NextRentId s"
    "UserOrder (close_order T rid r b s) = (UserOrder s)(renter r := rm_item rid (UserOrder s (renter r)))"
    "RentEnding (close_order T rid r b s) = rm_order_at b rid (RentEnding s)"
    "MachineRentOrder (close_order T rid r b s) = (MachineRentOrder s)(order_machine_id r :=
       clean_expired_order rid (gpu_index r) (MachineRentOrder s (order_machine_id r)))"
    "UserTotalStake (close_order T rid r b s) =
       (UserTotalStake s)(renter r := UserTotalStake s (renter r) - order_stake_amount r)"
  by (rule return_stake_eq [OF stake_le_total(2) [OF assms], of T];
      simp add: close_order_def Let_def put_world_def)+

lemma index_of_del:
  assumes "index_of info (\<lambda>r. f r = k) (idx k)" "info rid = Some r"
  shows "index_of (info(rid := None)) (\<lambda>r. f r = k) ((idx(f r := rm_item rid (idx (f r)))) k)"
  using index_of_remove [OF assms] by (auto simp: fun_upd_def)

lemma index_of_add:
  assumes "index_of info (\<lambda>r. f r = k) (idx k)" "info rid = None"
  shows "index_of (info(rid \<mapsto> r)) (\<lambda>r. f r = k) ((idx(f r := add_item rid (idx (f r)))) k)"
  using index_of_insert [OF assms, of r] by (auto simp: fun_upd_def)

lemma close_order_ok:
  assumes ok: "rm_ok s" and r: "RentInfo s rid = Some r" "b = rent_end r"
  shows "rm_ok (close_order T rid r b s)"
  unfolding rm_ok_def close_order_fields [OF ok r(1)]
proof (intro conjI allI)
  note D = rm_okD [OF ok]
  show "((RentInfo s)(rid := None)) (NextRentId s) = None" using D(1) by simp
  show "index_of ((RentInfo s)(rid := None)) (\<lambda>r. renter r = a)
      (((UserOrder s)(renter r := rm_item rid (UserOrder s (renter r)))) a)" for a
    by (rule index_of_del) (use D(2) r in auto)
  show "index_of ((RentInfo s)(rid := None)) (\<lambda>r. order_machine_id r = m)
      (rent_order (((MachineRentOrder s)(order_machine_id r :=
         clean_expired_order rid (gpu_index r) (MachineRentOrder s (order_machine_id r)))) m))" for m
    using index_of_del [of "RentInfo s" order_machine_id m "\<lambda>m. rent_order (MachineRentOrder s m)", OF D(3) r(1)]
    by (auto simp: clean_expired_order_def)
  show "index_of ((RentInfo s)(rid := None)) (\<lambda>r. rent_end r = e) (orders_at (rm_order_at b rid (RentEnding s)) e)" for e
    using index_of_del [of "RentInfo s" rent_end e "orders_at (RentEnding s)", OF D(4) r(1)]
    by (auto simp: orders_at_upd r(2))
  show "gpus_disjoint ((RentInfo s)(rid := None))" by (rule gpus_disjoint_remove [OF D(5)])
  show "ascending (used_gpu (((MachineRentOrder s)(order_machine_id r :=
      clean_expired_order rid (gpu_index r) (MachineRentOrder s (order_machine_id r)))) m))" for m
    using D(6) by (simp add: clean_expired_order_def rm_items)
  show "set (used_gpu (((MachineRentOrder s)(order_machine_id r :=
      clean_expired_order rid (gpu_index r) (MachineRentOrder s (order_machine_id r)))) m)) =
    gpus_of ((RentInfo s)(rid := None)) m" for m
    using D(6,7) by (simp add: clean_expired_order_def rm_items gpus_of_remove [OF r(1) D(5)])
  show "((UserTotalStake s)(renter r := UserTotalStake s (renter r) - order_stake_amount r)) a =
    sum (stake_of ((RentInfo s)(rid := None)))
      (set (((UserOrder s)(renter r := rm_item rid (UserOrder s (renter r)))) a))" for a
  proof -
    have asc: "ascending (UserOrder s a)" for a using D(2) [of a] by (simp add: index_of_def)
    have out: "sum (stake_of ((RentInfo s)(rid := None))) A = sum (stake_of (RentInfo s)) A" if "rid \<notin> A" for A
      by (rule sum.cong) (use that in \<open>auto simp: stake_of_upd\<close>)
    have "rid \<notin> set (UserOrder s a)" if "a \<noteq> renter r" using D(2) [of a] r(1) that by (auto simp: index_of_mem)
    moreover have "stake_of (RentInfo s) rid = order_stake_amount r" using r(1) by (simp add: stake_of_def)
    ultimately show ?thesis using stake_le_total(1) [OF ok r(1)] D(8)
      by (auto simp: il.rm_ok [OF asc] out sum_diff1_nat)
  qed
qed

lemma next_id_neq: "next_id rid \<noteq> rid"
  by (simp add: next_id_def)

lemma new_rent_order_sel [simp]:
  "renter (new_rent_order m who now e fee num gpus) = who" "order_machine_id (new_rent_order m who now e fee num gpus) = m"
  "rent_end (new_rent_order m who now e fee num gpus) = e" "gpu_index (new_rent_order m who now e fee num gpus) = gpus"
  "order_stake_amount (new_rent_order m who now e fee num gpus) = fee"
  by (simp_all add: new_rent_order_def)

lemma open_order_ok:
  assumes ok: "rm_ok s" and free: "RentInfo s (next_id (NextRentId s)) = None"
    and g: "gen_rentable_gpu num cap (MachineRentOrder s m) = (gpus, g)"
  shows "rm_ok (open_order (NextRentId s) (new_rent_order m who now e fee num gpus) g
    (s\<lparr>UserTotalStake := (UserTotalStake s)(who := UserTotalStake s who + fee),
       NextRentId := next_id (NextRentId s), rm_profile := p\<rparr>))"
    (is "rm_ok (open_order ?rid ?r g _)")
proof -
  note D = rm_okD [OF ok]
  note gen = gen_rentable_gpu_eq [OF D(6) g] gen_rentable_gpu_fresh [OF D(6) g]
  let ?info = "(RentInfo s)(?rid \<mapsto> ?r)"
  have users: "index_of ?info (\<lambda>r. renter r = a) (((UserOrder s)(who := add_item ?rid (UserOrder s who))) a)" for a
    using index_of_add [of "RentInfo s" renter a "UserOrder s", OF D(2,1), of ?r] by simp
  have machines: "index_of ?info (\<lambda>r. order_machine_id r = m') (rent_order (((MachineRentOrder s)
      (m := g\<lparr>rent_order := add_item ?rid (rent_order g)\<rparr>)) m'))" for m'
    using index_of_add [of "RentInfo s" order_machine_id m' "\<lambda>m. rent_order (MachineRentOrder s m)", OF D(3,1), of ?r]
    by (auto simp: gen(4))
  have ends: "index_of ?info (\<lambda>r. rent_end r = b) (orders_at (add_order_at e ?rid (RentEnding s)) b)" for b
    using index_of_add [of "RentInfo s" rent_end b "orders_at (RentEnding s)", OF D(4,1), of ?r]
    by (auto simp: orders_at_upd)
  have disj: "gpus_disjoint ?info"
    by (rule gpus_disjoint_insert) (use D gen(6) in auto)
  have used: "ascending (used_gpu (((MachineRentOrder s)(m := g\<lparr>rent_order := xs\<rparr>)) m')) \<and>
      set (used_gpu (((MachineRentOrder s)(m := g\<lparr>rent_order := xs\<rparr>)) m')) = gpus_of ?info m'" for m' xs
    using gen(2,3) D(6,7) by (simp add: gpus_of_upd [of "RentInfo s", OF D(1)])
  have stakes: "((UserTotalStake s)(who := UserTotalStake s who + fee)) a =
      sum (stake_of ?info) (set (((UserOrder s)(who := add_item ?rid (UserOrder s who))) a))" for a
  proof -
    have asc: "ascending (UserOrder s a)" for a using D(2) [of a] by (simp add: index_of_def)
    have new: "?rid \<notin> set (UserOrder s a)" for a using D(2) [of a] D(1) by (simp add: index_of_mem)
    have "sum (stake_of ?info) (set (UserOrder s a)) = sum (stake_of (RentInfo s)) (set (UserOrder s a))" for a
      by (rule sum.cong) (use new in \<open>auto simp: stake_of_upd\<close>)
    moreover have "stake_of ?info ?rid = fee" by (simp add: stake_of_def)
    ultimately show ?thesis using D(8) new by (simp add: il.add_ok [OF asc])
  qed
  show ?thesis
    using users machines ends disj used stakes free next_id_neq by (simp add: rm_ok_def open_order_def)
qed

text \<open>Changing an order without changing its renter, machine and GPUs.\<close>

lemma update_order_ok:
  assumes ok: "rm_ok s" and r: "RentInfo s rid = Some r"
    and same: "renter r' = renter r" "order_machine_id r' = order_machine_id r" "gpu_index r' = gpu_index r"
    and less: "order_stake_amount r' \<le> order_stake_amount r"
    and ends: "\<And>b. index_of ((RentInfo s)(rid \<mapsto> r')) (\<lambda>r. rent_end r = b) (orders_at f b)"
  shows "rm_ok (s\<lparr>RentInfo := (RentInfo s)(rid \<mapsto> r'), RentEnding := f, UserTotalStake := (UserTotalStake s)
    (renter r := UserTotalStake s (renter r) - (order_stake_amount r - order_stake_amount r'))\<rparr>)"
proof -
  note D = rm_okD [OF ok]
  let ?info = "(RentInfo s)(rid \<mapsto> r')"
  have "index_of ?info (\<lambda>r. renter r = a) (UserOrder s a)" for a
    by (rule index_of_update [OF D(2) r]) (simp add: same)
  moreover have "index_of ?info (\<lambda>r. order_machine_id r = m) (rent_order (MachineRentOrder s m))" for m
    by (rule index_of_update [OF D(3) r]) (simp add: same)
  moreover have "gpus_disjoint ?info"
    using D(5) r same unfolding gpus_disjoint_def by (simp add: fun_upd_def)
  moreover have "gpus_of ?info = gpus_of (RentInfo s)"
    using r same unfolding gpus_of_def by (auto simp: fun_eq_iff) (metis option.inject)+
  moreover have "((UserTotalStake s)
      (renter r := UserTotalStake s (renter r) - (order_stake_amount r - order_stake_amount r'))) a =
      sum (stake_of ?info) (set (UserOrder s a))" for a
  proof (cases "a = renter r")
    case True
    let ?A = "set (UserOrder s a)"
    have "rid \<in> ?A" using stake_le_total(1) [OF ok r] True by simp
    then have "sum f ?A = f rid + sum f (?A - {rid})" for f :: "rent_order_id \<Rightarrow> nat"
      by (simp add: sum.remove)
    moreover have "sum (stake_of ?info) (?A - {rid}) = sum (stake_of (RentInfo s)) (?A - {rid})"
      by (rule sum.cong) (auto simp: stake_of_upd)
    moreover have "stake_of (RentInfo s) rid = order_stake_amount r" "stake_of ?info rid = order_stake_amount r'"
      using r by (simp_all add: stake_of_def)
    ultimately show ?thesis using True D(8) [of a] less by simp
  next
    case False
    then have "rid \<notin> set (UserOrder s a)" using D(2) [of a] r by (auto simp: index_of_mem)
    then have "sum (stake_of ?info) (set (UserOrder s a)) = sum (stake_of (RentInfo s)) (set (UserOrder s a))"
      by (intro sum.cong) (auto simp: stake_of_upd)
    then show ?thesis using False D(8) by simp
  qed
  moreover have "?info (NextRentId s) = None" using D(1) r by auto
  ultimately show ?thesis using ends D(6,7) by (simp add: rm_ok_def)
qed

section \<open>What a successful call did\<close>

lemma put_world_sel [simp]:
  "rm_profile (put_world w s) = (rm_profile s)\<lparr>op_world := w\<rparr>" "rm_world (put_world w s) = w"
  "RentInfo (put_world w s) = RentInfo s" "NextRentId (put_world w s) = NextRentId s"
  "UserOrder (put_world w s) = UserOrder s" "MachineRentOrder (put_world w s) = MachineRentOrder s"
  "RentEnding (put_world w s) = RentEnding s" "ConfirmingOrder (put_world w s) = ConfirmingOrder s"
  "UserTotalStake (put_world w s) = UserTotalStake s" "RentFeePot (put_world w s) = RentFeePot s"
  by (simp_all add: put_world_def rm_world_def)

lemma rent_machine_by_block_Inr:
  assumes "rent_machine_by_block T now who m num duration s = Some (Inr s')" "s' \<noteq> s"
  obtains i w0 w1 fee fin gpus g p ev where "MachinesInfo (rm_profile s) m = Some i"
    "op_pay_fixed_tx_fee T who (rm_world s) = Some w0" "reserve (op_Currency T) who fee w0 = Some w1"
    "RentInfo s (next_id (NextRentId s)) = None"
    "gen_rentable_gpu num (gpu_num i) (MachineRentOrder s m) = (gpus, g)"
    "change_machine_status_on_rent_start m num ((rm_profile s)\<lparr>op_world := w1\<rparr>) = Some p"
    "s' = rm_deposit_event ev (open_order (NextRentId s) (new_rent_order m who now fin fee num gpus) g
       (s\<lparr>UserTotalStake := (UserTotalStake s)(who := UserTotalStake s who + fee),
          NextRentId := next_id (NextRentId s), rm_profile := p\<rparr>))"
proof -
  obtain i w0 fee fin s2 gpus g p ev where st: "MachinesInfo (rm_profile s) m = Some i"
    "op_pay_fixed_tx_fee T who (rm_world s) = Some w0" "change_renter_total_stake T who fee True (put_world w0 s) = Some s2"
    "RentInfo s2 (next_id (NextRentId s2)) = None" "gen_rentable_gpu num (gpu_num i) (MachineRentOrder s2 m) = (gpus, g)"
    "change_machine_status_on_rent_start m num (rm_profile s2) = Some p"
    "s' = rm_deposit_event ev (open_order (NextRentId s2) (new_rent_order m who now fin fee num gpus) g
       (s2\<lparr>NextRentId := next_id (NextRentId s2), rm_profile := p\<rparr>))"
    using assms unfolding rent_machine_by_block_def Let_def
    by (auto simp: get_new_rent_id_eq split: option.splits if_splits sum.splits prod.splits)
  obtain w1 where w1: "reserve (op_Currency T) who fee w0 = Some w1"
    and s2: "s2 = (put_world w1 (put_world w0 s))\<lparr>UserTotalStake := (UserTotalStake s)(who := UserTotalStake s who + fee)\<rparr>"
    using st(3) by (auto elim!: change_renter_total_stake_add)
  show ?thesis by (rule that [where fin = fin and ev = ev, OF st(1,2) w1]) (use st(4-7) in \<open>simp_all add: s2 put_world_def\<close>)
qed

lemma pay_rent_fee_Inr:
  assumes "pay_rent_fee T who m stash fee s = Inr s'"
  obtains pot d w1 w2 where "RentFeePot s = Some pot"
    "d = pmul (op_Perthing T) PERBILL (RentFeeDestroyPercent (rm_profile s)) fee" "d \<le> fee"
    "transfer (op_Currency T) who stash (fee - d) KeepAlive (rm_world s) = Some w1"
    "transfer (op_Currency T) who pot d KeepAlive w1 = Some w2"
    "s' = s\<lparr>rm_profile := fst (change_machine_rent_fee T stash m d (fee - d) ((rm_profile s)\<lparr>op_world := w2\<rparr>))\<rparr>"
  using assms unfolding pay_rent_fee_def Let_def
  by (auto simp: checked_Some bind_eq_Some_conv put_world_def split: option.splits)

lemma confirm_rent_Inr:
  assumes "confirm_rent T now orig rid s = Inr s'"
  obtains who r i s1 s2 p c ev where "ensure_signed orig = Some who" "RentInfo s rid = Some r" "renter r = who"
    "rent_status r = WaitingVerifying" "now \<le> rent_start r + WAITING_CONFIRMING_DELAY"
    "MachinesInfo (rm_profile s) (order_machine_id r) = Some i" "machine_status i = Rented"
    "order_stake_amount r \<le> UserTotalStake s who"
    "s1 = (put_world (fst (unreserve (op_Currency T) who (order_stake_amount r) (rm_world s))) s)
       \<lparr>UserTotalStake := (UserTotalStake s)(who := UserTotalStake s who - order_stake_amount r)\<rparr>"
    "pay_rent_fee T who (order_machine_id r) (machine_stash i) (order_stake_amount r) s1 = Inr s2"
    "change_machine_status_on_confirmed T (order_machine_id r) who (rm_profile s2) = Some p"
    "s' = rm_deposit_event ev (push_rented (order_machine_id r) who rid ((confirm_order now r)\<lparr>order_stake_amount := 0\<rparr>)
       (s2\<lparr>rm_profile := p, ConfirmingOrder := c,
           RentInfo := (RentInfo s2)(rid \<mapsto> (confirm_order now r)\<lparr>order_stake_amount := 0\<rparr>)\<rparr>))"
  using assms unfolding confirm_rent_def Let_def
  by (auto simp: checked_Some change_renter_total_stake_sub
      split: option.splits if_splits sum.splits)

lemma relet_machine_by_block_Inr:
  assumes "relet_machine_by_block T now who rid duration s = Inr s'" "s' \<noteq> s"
  obtains r i fee s1 d ev where "RentInfo s rid = Some r" "renter r = who" "rent_status r = Renting"
    "MachinesInfo (rm_profile s) (order_machine_id r) = Some i" "0 < d"
    "pay_rent_fee T who (order_machine_id r) (machine_stash i) fee s = Inr s1"
    "s' = rm_deposit_event ev ((push_rented (order_machine_id r) who rid (r\<lparr>rent_end := rent_end r + d\<rparr>)
        (s1\<lparr>RentEnding := add_order_at (rent_end r + d) rid (rm_order_at (rent_end r) rid (RentEnding s1))\<rparr>))
       \<lparr>RentInfo := (RentInfo s1)(rid \<mapsto> r\<lparr>rent_end := rent_end r + d\<rparr>)\<rparr>)"
  using assms unfolding relet_machine_by_block_def Let_def
  by (auto simp: checked_Some split: option.splits sum.splits if_splits)

section \<open>The invariant along runs\<close>

lemma rent_machine_by_block_ok:
  assumes "rent_machine_by_block T now who m num duration s = Some (Inr s')" "rm_ok s"
  shows "rm_ok s'"
proof (cases "s' = s")
  case False
  show ?thesis
    by (rule rent_machine_by_block_Inr [OF assms(1) False]) (use assms(2) in \<open>simp add: open_order_ok\<close>)
qed (use assms in simp)

lemma pay_rent_fee_frame:
  assumes "pay_rent_fee T who m stash fee s = Inr s'"
  shows "s' = s\<lparr>rm_profile := rm_profile s'\<rparr>"
  using assms by (auto elim!: pay_rent_fee_Inr)

lemma pay_rent_fee_same:
  assumes "pay_rent_fee T who m stash fee s = Inr s'"
  shows "RentInfo s' = RentInfo s \<and> NextRentId s' = NextRentId s \<and> UserOrder s' = UserOrder s \<and>
    MachineRentOrder s' = MachineRentOrder s \<and> RentEnding s' = RentEnding s \<and> UserTotalStake s' = UserTotalStake s"
  by (subst (1 2 3 4 5 6) pay_rent_fee_frame [OF assms]) simp

lemma confirm_rent_ok:
  assumes "confirm_rent T now orig rid s = Inr s'" "rm_ok s"
  shows "rm_ok s'"
  using assms(1)
proof (rule confirm_rent_Inr)
  fix who r i s1 s2 p c ev
  let ?r = "(confirm_order now r)\<lparr>order_stake_amount := 0\<rparr>"
  assume r: "RentInfo s rid = Some r" "renter r = who"
    and s1: "s1 = (put_world (fst (unreserve (op_Currency T) who (order_stake_amount r) (rm_world s))) s)
       \<lparr>UserTotalStake := (UserTotalStake s)(who := UserTotalStake s who - order_stake_amount r)\<rparr>"
    and pay: "pay_rent_fee T who (order_machine_id r) (machine_stash i) (order_stake_amount r) s1 = Inr s2"
    and s': "s' = rm_deposit_event ev (push_rented (order_machine_id r) who rid ?r
       (s2\<lparr>rm_profile := p, ConfirmingOrder := c, RentInfo := (RentInfo s2)(rid \<mapsto> ?r)\<rparr>))"
  have s2: "RentInfo s2 = RentInfo s" "NextRentId s2 = NextRentId s" "UserOrder s2 = UserOrder s"
      "MachineRentOrder s2 = MachineRentOrder s" "RentEnding s2 = RentEnding s"
      "UserTotalStake s2 = (UserTotalStake s)(who := UserTotalStake s who - order_stake_amount r)"
    using pay_rent_fee_same [OF pay] by (simp_all add: s1)
  have "rm_ok (s\<lparr>RentInfo := (RentInfo s)(rid \<mapsto> ?r), RentEnding := RentEnding s, UserTotalStake := (UserTotalStake s)
      (renter r := UserTotalStake s (renter r) - (order_stake_amount r - order_stake_amount ?r))\<rparr>)"
    by (rule update_order_ok [OF assms(2) r(1)], simp_all add: confirm_order_def)
      (rule index_of_update [OF rm_okD(4) [OF assms(2)] r(1)], simp)
  then have "rm_ok (s2\<lparr>rm_profile := p, ConfirmingOrder := c, RentInfo := (RentInfo s2)(rid \<mapsto> ?r)\<rparr>)"
    by (rule iffD1 [OF rm_ok_cong, rotated -1]) (simp_all add: s2 r(2))
  then show "rm_ok s'" by (simp add: s')
qed

lemma relet_machine_by_block_ok:
  assumes "relet_machine_by_block T now who rid duration s = Inr s'" "rm_ok s"
  shows "rm_ok s'"
proof (cases "s' = s")
  case False
  show ?thesis
    using assms(1) False
  proof (rule relet_machine_by_block_Inr)
    fix r :: rent_order_detail and i fee s1 d ev
    let ?r = "r\<lparr>rent_end := rent_end r + d\<rparr>"
    assume r: "RentInfo s rid = Some r" and pay: "pay_rent_fee T who (order_machine_id r) (machine_stash i) fee s = Inr s1"
      and s': "s' = rm_deposit_event ev ((push_rented (order_machine_id r) who rid ?r
          (s1\<lparr>RentEnding := add_order_at (rent_end r + d) rid (rm_order_at (rent_end r) rid (RentEnding s1))\<rparr>))
         \<lparr>RentInfo := (RentInfo s1)(rid \<mapsto> ?r)\<rparr>)"
    have s1: "RentInfo s1 = RentInfo s" "NextRentId s1 = NextRentId s" "UserOrder s1 = UserOrder s"
        "MachineRentOrder s1 = MachineRentOrder s" "RentEnding s1 = RentEnding s" "UserTotalStake s1 = UserTotalStake s"
      using pay_rent_fee_same [OF pay] by simp_all
    let ?ends = "rm_order_at (rent_end r) rid (RentEnding s)"
    have "index_of ((RentInfo s)(rid := None)) (\<lambda>r. rent_end r = b) (orders_at ?ends b)" for b
      using index_of_del [of "RentInfo s" rent_end b "orders_at (RentEnding s)", OF rm_okD(4) [OF assms(2)] r]
      by (auto simp: orders_at_upd)
    then have "index_of (((RentInfo s)(rid := None))(rid \<mapsto> ?r)) (\<lambda>r. rent_end r = b)
        (((orders_at ?ends)(rent_end ?r := add_item rid (orders_at ?ends (rent_end ?r)))) b)" for b
      by (rule index_of_add) simp
    then have ends: "index_of ((RentInfo s)(rid \<mapsto> ?r)) (\<lambda>r. rent_end r = b)
        (orders_at (add_order_at (rent_end r + d) rid ?ends) b)" for b
      by (simp add: orders_at_upd(1) fun_upd_apply)
    have "rm_ok (s\<lparr>RentInfo := (RentInfo s)(rid \<mapsto> ?r),
        RentEnding := add_order_at (rent_end r + d) rid (rm_order_at (rent_end r) rid (RentEnding s)),
        UserTotalStake := (UserTotalStake s)
          (renter r := UserTotalStake s (renter r) - (order_stake_amount r - order_stake_amount ?r))\<rparr>)"
      by (rule update_order_ok [OF assms(2) r _ _ _ _ ends]) simp_all
    then show "rm_ok s'" by (rule iffD1 [OF rm_ok_cong, rotated -1]) (simp_all add: s' s1 rm_deposit_event_def push_rented_def)
  qed
qed (use assms in simp)

lemma rm_dispatch_ok:
  assumes "rm_dispatch T now orig c s = Some (Inr s')" "rm_ok s"
  shows "rm_ok s'"
  using assms by (cases c) (auto simp: set_rent_fee_pot_def rent_machine_def relet_machine_def bond_evm_address_def
      split: option.splits if_splits dest: rent_machine_by_block_ok confirm_rent_ok relet_machine_by_block_ok)

lemma starting_loop_ok: "rm_ok s \<Longrightarrow> rm_ok (starting_loop T now ids s)"
  by (induction ids arbitrary: s) (auto simp: Let_def close_order_ok split: option.split)

lemma is_last_rent_Some: "rm_ok s \<Longrightarrow> \<exists>x. is_last_rent m a s = Some x"
  using rm_okD(3) [of s m] by (auto simp: is_last_rent_def Let_def index_of_def)

lemma finished_loop_ok:
  assumes "rm_ok s" "distinct ids" "\<forall>rid\<in>set ids. \<exists>r. RentInfo s rid = Some r \<and> rent_end r = now"
  shows "rm_ok (finished_loop T now ids s) \<and>
    RentInfo (finished_loop T now ids s) = (\<lambda>rid. if rid \<in> set ids then None else RentInfo s rid)"
  using assms
proof (induction ids arbitrary: s)
  case (Cons rid ids)
  obtain r where r: "RentInfo s rid = Some r" "rent_end r = now" using Cons.prems(3) by auto
  obtain x y where x: "is_last_rent (order_machine_id r) (renter r) s = Some (x, y)"
    using is_last_rent_Some [OF Cons.prems(1)] by (metis surj_pair)
  obtain p where fl: "finished_loop T now (rid # ids) s =
      finished_loop T now ids (close_order T rid r now (s\<lparr>rm_profile := p\<rparr>))"
    using that by (simp add: r x Let_def)
  let ?s = "close_order T rid r now (s\<lparr>rm_profile := p\<rparr>)"
  have ok: "rm_ok ?s" by (rule close_order_ok) (use Cons.prems(1) r in simp_all)
  have info: "RentInfo ?s = (RentInfo s)(rid := None)"
    using close_order_fields(1) [of "s\<lparr>rm_profile := p\<rparr>" rid r] Cons.prems(1) r by simp
  have rest: "\<forall>rid\<in>set ids. \<exists>r. RentInfo ?s rid = Some r \<and> rent_end r = now"
    using Cons.prems(2,3) by (auto simp: info)
  show ?case unfolding fl using Cons.IH [OF ok _ rest] Cons.prems(2) by (auto simp: info)
qed simp

lemma check_if_rent_finished_ok:
  assumes "rm_ok s"
  shows "rm_ok (check_if_rent_finished T now s)"
    "RentInfo (check_if_rent_finished T now s) rid = Some r \<longleftrightarrow> RentInfo s rid = Some r \<and> rent_end r \<noteq> now"
proof -
  have ids: "distinct (orders_at (RentEnding s) now)"
    "\<forall>rid\<in>set (orders_at (RentEnding s) now). \<exists>r. RentInfo s rid = Some r \<and> rent_end r = now"
    using rm_okD(4) [OF assms, of now] by (auto simp: index_of_def strict_sorted_iff)
  show "rm_ok (check_if_rent_finished T now s)"
    unfolding check_if_rent_finished_def using finished_loop_ok [OF assms ids] by simp
  show "RentInfo (check_if_rent_finished T now s) rid = Some r \<longleftrightarrow> RentInfo s rid = Some r \<and> rent_end r \<noteq> now"
    unfolding check_if_rent_finished_def using finished_loop_ok [OF assms ids]
      rm_okD(4) [OF assms, of now] by (auto simp: index_of_mem)
qed

lemma on_finalize_ok: "rm_ok s \<Longrightarrow> rm_ok (rm_on_finalize T now s)"
  by (simp add: rm_on_finalize_def check_machine_starting_status_def starting_loop_ok check_if_rent_finished_ok)

lemma rm_step_ok: "rm_step T s s' \<Longrightarrow> rm_ok s \<Longrightarrow> rm_ok s'"
  by (induction rule: rm_step.induct) (auto intro: rm_dispatch_ok on_finalize_ok)

lemma rm_run_ok: "(rm_step T)\<^sup>*\<^sup>* s s' \<Longrightarrow> rm_ok s \<Longrightarrow> rm_ok s'"
  by (induction rule: rtranclp_induct) (auto intro: rm_step_ok)

section \<open>Order numbers along runs\<close>

lemma return_stake_frame:
  "RentInfo (return_stake T r s) = RentInfo s" "NextRentId (return_stake T r s) = NextRentId s"
  "ConfirmingOrder (return_stake T r s) = ConfirmingOrder s"
  by (auto simp: return_stake_def change_renter_total_stake_sub)

lemma close_order_frame:
  "RentInfo (close_order T rid r b s) = (RentInfo s)(rid := None)" "NextRentId (close_order T rid r b s) = NextRentId s"
  "ConfirmingOrder (close_order T rid r b s) = ConfirmingOrder s"
  by (simp_all add: close_order_def Let_def return_stake_frame)

lemma starting_loop_Cons:
  obtains "starting_loop T now (rid # ids) s = s"
  | r c where "RentInfo s rid = Some r" "starting_loop T now (rid # ids) s =
      (close_order T rid r (rent_end r) s)\<lparr>ConfirmingOrder := c\<rparr>"
  | r c p where "RentInfo s rid = Some r"
    "change_machine_status_on_confirm_expired (order_machine_id r) (order_gpu_num r)
      (rm_profile (close_order T rid r (rent_end r) s)) = Some p"
    "starting_loop T now (rid # ids) s =
      starting_loop T now ids ((close_order T rid r (rent_end r) s)\<lparr>ConfirmingOrder := c, rm_profile := p\<rparr>)"
  by (cases "RentInfo s rid"; cases "change_machine_status_on_confirm_expired
        (order_machine_id (the (RentInfo s rid))) (order_gpu_num (the (RentInfo s rid)))
        (rm_profile (close_order T rid (the (RentInfo s rid)) (rent_end (the (RentInfo s rid))) s))")
    (auto simp: Let_def)

lemma starting_loop_next: "NextRentId (starting_loop T now ids s) = NextRentId s"
proof (induction ids arbitrary: s)
  case (Cons rid ids)
  show ?case by (rule starting_loop_Cons [of T now rid ids s]) (simp_all add: Cons.IH close_order_frame)
qed simp

lemma starting_loop_info: "RentInfo (starting_loop T now ids s) rid = Some r \<Longrightarrow> RentInfo s rid = Some r"
proof (induction ids arbitrary: s)
  case (Cons k ids)
  show ?case
    by (rule starting_loop_Cons [of T now k ids s])
      (use Cons.prems in \<open>auto simp: close_order_frame split: if_splits dest: Cons.IH\<close>)
qed simp

lemma starting_loop_other: "rid \<notin> set ids \<Longrightarrow> RentInfo (starting_loop T now ids s) rid = RentInfo s rid"
proof (induction ids arbitrary: s)
  case (Cons k ids)
  show ?case
    by (rule starting_loop_Cons [of T now k ids s]) (use Cons in \<open>auto simp: close_order_frame\<close>)
qed simp

lemma finished_loop_Cons:
  obtains "finished_loop T now (rid # ids) s = s"
  | r p where "RentInfo s rid = Some r"
    "finished_loop T now (rid # ids) s = finished_loop T now ids (close_order T rid r now (s\<lparr>rm_profile := p\<rparr>))"
  by (cases "RentInfo s rid"; cases "is_last_rent (order_machine_id (the (RentInfo s rid))) (renter (the (RentInfo s rid))) s")
    (auto simp: Let_def)

lemma finished_loop_next: "NextRentId (finished_loop T now ids s) = NextRentId s"
proof (induction ids arbitrary: s)
  case (Cons rid ids)
  show ?case by (rule finished_loop_Cons [of T now rid ids s]) (simp_all add: Cons.IH close_order_frame)
qed simp

lemma finished_loop_info: "RentInfo (finished_loop T now ids s) rid = Some r \<Longrightarrow> RentInfo s rid = Some r"
proof (induction ids arbitrary: s)
  case (Cons k ids)
  show ?case
    by (rule finished_loop_Cons [of T now k ids s])
      (use Cons.prems in \<open>auto simp: close_order_frame split: if_splits dest: Cons.IH\<close>)
qed simp

lemma on_finalize_next: "NextRentId (rm_on_finalize T now s) = NextRentId s"
  by (simp add: rm_on_finalize_def check_if_rent_finished_def check_machine_starting_status_def finished_loop_next
      starting_loop_next)

lemma on_finalize_info: "RentInfo (rm_on_finalize T now s) rid = Some r \<Longrightarrow> RentInfo s rid = Some r"
  unfolding rm_on_finalize_def check_if_rent_finished_def check_machine_starting_status_def
  by (blast dest: finished_loop_info starting_loop_info)

text \<open>As long as the counter has not wrapped around, all numbers in use are below it.\<close>

definition ids_below :: "'w rm_state \<Rightarrow> bool" where
  "ids_below s \<longleftrightarrow> (\<forall>rid. RentInfo s rid \<noteq> None \<longrightarrow> rid < NextRentId s)"

lemma rm_dispatch_ids:
  assumes "rm_dispatch T now orig c s = Some (Inr s')" "ids_below s" "NextRentId s < 2 ^ 64 - 1"
  shows "ids_below s' \<and> NextRentId s' \<le> Suc (NextRentId s)"
proof (cases c)
  case (RentMachineCall m num d)
  then obtain who where call: "rent_machine_by_block T now who m num d s = Some (Inr s')"
    using assms(1) by (auto simp: rent_machine_def split: option.splits)
  show ?thesis
  proof (cases "s' = s")
    case False
    show ?thesis
      by (rule rent_machine_by_block_Inr [OF call False])
        (use assms(2,3) in \<open>auto simp: ids_below_def rm_deposit_event_def open_order_def next_id_def less_Suc_eq\<close>)
  qed (use assms(2) in simp)
next
  case (ConfirmRentCall rid)
  then have call: "confirm_rent T now orig rid s = Inr s'" using assms(1) by simp
  show ?thesis
    by (rule confirm_rent_Inr [OF call])
      (use assms(2) in \<open>auto simp: ids_below_def rm_deposit_event_def push_rented_def dest!: pay_rent_fee_same\<close>)
next
  case (ReletMachine rid d)
  then obtain who where call: "relet_machine_by_block T now who rid d s = Inr s'"
    using assms(1) by (auto simp: relet_machine_def split: option.splits)
  show ?thesis
  proof (cases "s' = s")
    case False
    show ?thesis
      by (rule relet_machine_by_block_Inr [OF call False])
        (use assms(2) in \<open>auto simp: ids_below_def rm_deposit_event_def push_rented_def dest!: pay_rent_fee_same\<close>)
  qed (use assms(2) in simp)
qed (use assms in \<open>auto simp: set_rent_fee_pot_def bond_evm_address_def ids_below_def rm_deposit_event_def split: if_splits option.splits\<close>)

lemma rm_step_ids:
  assumes "rm_step T s s'" "ids_below s" "NextRentId s < 2 ^ 64 - 1"
  shows "ids_below s' \<and> NextRentId s' \<le> Suc (NextRentId s)"
  using assms
proof cases
  case (rent_call now orig c)
  then show ?thesis using assms(2,3) by (rule rm_dispatch_ids)
next
  case (rent_hook now)
  then show ?thesis using assms(2) on_finalize_info [of T now s] by (fastforce simp: ids_below_def on_finalize_next)
qed (auto simp: ids_below_def)

lemma rm_run_ids:
  "(rm_step T ^^ n) s s' \<Longrightarrow> ids_below s \<Longrightarrow> NextRentId s + n < 2 ^ 64 \<Longrightarrow>
    ids_below s' \<and> NextRentId s' \<le> NextRentId s + n"
proof (induction n arbitrary: s')
  case (Suc n)
  then obtain t where t: "(rm_step T ^^ n) s t" "rm_step T t s'" by auto
  with Suc have "ids_below t \<and> NextRentId t \<le> NextRentId s + n" by simp
  with rm_step_ids [OF t(2)] Suc.prems show ?case by simp
qed simp

lemma rm_dispatch_returns:
  assumes "ids_below s" "NextRentId s < 2 ^ 64 - 1"
  shows "rm_dispatch T now orig c s \<noteq> None"
proof -
  have "RentInfo s (next_id (NextRentId s)) = None" using assms by (force simp: ids_below_def next_id_def)
  then have "rent_machine_by_block T now who m num d s \<noteq> None" for who m num d
    unfolding rent_machine_by_block_def Let_def
    by (auto simp: get_new_rent_id_eq split: option.splits sum.splits prod.splits elim!: change_renter_total_stake_add)
  then show ?thesis by (cases c) (auto simp: rent_machine_def split: option.splits)
qed

section \<open>Deposits\<close>

definition rm_reserved :: "'w op_config \<Rightarrow> 'w rm_state \<Rightarrow> account \<Rightarrow> balance" where
  "rm_reserved T s = reserved_balance (op_Currency T) (rm_world s)"

definition rm_locked :: "'w rm_state \<Rightarrow> account \<Rightarrow> balance" where
  "rm_locked s a = StashStake (rm_profile s) a + UserTotalStake s a"

text \<open>Reserves and stakes of the machine registry, and of both pallets, move together.\<close>

definition op_exact :: "'w op_config \<Rightarrow> 'w op_state \<Rightarrow> 'w op_state \<Rightarrow> bool" where
  "op_exact T s s' \<longleftrightarrow> (\<forall>a. op_reserved T s' a + StashStake s a = op_reserved T s a + StashStake s' a)"

definition rm_exact :: "'w op_config \<Rightarrow> 'w rm_state \<Rightarrow> 'w rm_state \<Rightarrow> bool" where
  "rm_exact T s s' \<longleftrightarrow> (\<forall>a. rm_reserved T s' a + rm_locked s a = rm_reserved T s a + rm_locked s' a)"

lemma exact_chain: "r' + l = r + l' \<Longrightarrow> r'' + l' = r' + l'' \<Longrightarrow> r'' + l = r + l''" for r :: nat
  by linarith

lemma op_exact_trans: "op_exact T s t \<Longrightarrow> op_exact T t u \<Longrightarrow> op_exact T s u"
  unfolding op_exact_def using exact_chain by blast

lemma rm_exact_trans: "rm_exact T s t \<Longrightarrow> rm_exact T t u \<Longrightarrow> rm_exact T s u"
  unfolding rm_exact_def using exact_chain by blast

lemma rm_exact_backed:
  assumes "rm_exact T s s'" "backed rm_locked (rm_reserved T) s"
  shows "backed rm_locked (rm_reserved T) s'"
  unfolding backed_def
proof
  fix a
  have "rm_reserved T s' a + rm_locked s a = rm_reserved T s a + rm_locked s' a" using assms(1) by (simp add: rm_exact_def)
  then show "rm_locked s' a \<le> rm_reserved T s' a" using backedD [OF assms(2), of a] by linarith
qed

lemma same_money_exact: "same_money s s' \<Longrightarrow> op_exact T s s'"
  by (simp add: same_money_def op_exact_def op_reserved_def)

lemma same_money_simps [simp]:
  "same_money s (put_machine m i s')= same_money s s'" "same_money s (op_deposit_event e s') = same_money s s'"
  "same_money s (update_region_on_rent_changed i b s') = same_money s s'"
  "same_money s (adjust_rent_fee_destroy_percent T' g era s') = same_money s s'" "same_money s s"
  by (auto simp: same_money_def put_machine_def op_deposit_event_def update_region_def
      update_region_on_rent_changed_def adjust_rent_fee_destroy_percent_def Let_def split: option.split)

lemma same_money_updates [simp]:
  "same_money s (s'\<lparr>LiveMachines := x1\<rparr>) = same_money s s'" "same_money s (s'\<lparr>MachinesInfo := x2\<rparr>) = same_money s s'"
  "same_money s (s'\<lparr>RentedFinished := y1\<rparr>) = same_money s s'" "same_money s (s'\<lparr>MachineRentedGPU := y2\<rparr>) = same_money s s'"
  "same_money s (s'\<lparr>SysInfo := y3\<rparr>) = same_money s s'" "same_money s (s'\<lparr>StashMachines := x3\<rparr>) = same_money s s'"
  "same_money s (s'\<lparr>ErasStashPoints := y7\<rparr>) = same_money s s'" "same_money s (s'\<lparr>ErasMachinePoints := y8\<rparr>) = same_money s s'"
  by (simp_all add: same_money_def)

lemma update_snap_on_rent_changed_money: "update_snap_on_rent_changed T m b s = Some s' \<Longrightarrow> same_money s s'"
  unfolding update_snap_on_rent_changed_def Let_def by (cases b) (auto split: option.splits)

lemma rent_status_money:
  "change_machine_status_on_rent_start m n s = Some s' \<Longrightarrow> same_money s s'"
  "change_machine_status_on_confirmed T m a s = Some s' \<Longrightarrow> same_money s s'"
  "change_machine_status_on_rent_end T now m n d b1 b2 a s = Some s' \<Longrightarrow> same_money s s'"
  "change_machine_status_on_confirm_expired m n s = Some s' \<Longrightarrow> same_money s s'"
  by (auto simp: change_machine_status_on_rent_start_def change_machine_status_on_confirmed_def
      change_machine_status_on_rent_end_def change_machine_status_on_confirm_expired_def Let_def
      split: option.splits if_splits dest!: update_snap_on_rent_changed_money)

context op_host
begin

lemma change_stake_exact:
  assumes "change_stake T who v True s = Some s'"
  shows "op_exact T s s'"
proof -
  obtain w where "reserve (op_Currency T) who v (op_world s) = Some w"
    "op_world s' = w" "StashStake s' = (StashStake s)(who := StashStake s who + v)"
    using assms by (auto simp: change_stake_def op_deposit_event_def checked_Some split: option.splits if_splits)
  then show ?thesis by (auto simp: op_exact_def op_reserved_def reserve_reserved)
qed

lemma fulfill_loop_exact: "fulfill_loop T ms v s = (s', b) \<Longrightarrow> op_exact T s s'"
proof (induction ms arbitrary: v s)
  case Nil
  then show ?case by (auto intro: same_money_exact)
next
  case (Cons m ms)
  have step: "op_exact T s (op_deposit_event e (put_machine m i s1))" if "change_stake T who x True s = Some s1" for e i s1 who x
    by (rule op_exact_trans [OF change_stake_exact [OF that]]) (simp add: same_money_exact)
  show ?case using Cons.prems
    by (auto simp: Let_def same_money_exact split: option.splits if_splits
        intro: step Cons.IH op_exact_trans [OF step Cons.IH])
qed

lemma change_machine_rent_fee_exact: "op_exact T s (fst (change_machine_rent_fee T a m d f s))"
proof (cases "fulfill_machine_stake T a f s")
  case (Pair s1 b)
  then have ex: "op_exact T s s1" unfolding fulfill_machine_stake_def by (rule fulfill_loop_exact)
  have "same_money s1 (fst (change_machine_rent_fee T a m d f s))"
    by (cases b) (auto simp: change_machine_rent_fee_def Pair Let_def split: option.split)
  then show ?thesis using ex by (blast intro: op_exact_trans same_money_exact)
qed

end

text \<open>Only the registry and the deposits matter.\<close>

lemma rm_exact_cong:
  assumes "rm_profile t = rm_profile s'" "UserTotalStake t = UserTotalStake s'"
  shows "rm_exact T s t = rm_exact T s s'"
  by (simp add: rm_exact_def rm_reserved_def rm_locked_def rm_world_def assms)

lemma rm_exact_simps [simp]:
  "rm_exact T s s" "rm_exact T s (rm_deposit_event e s') = rm_exact T s s'"
  "rm_exact T s (push_rented m a rid r s') = rm_exact T s s'" "rm_exact T s (open_order rid r' g s') = rm_exact T s s'"
  "rm_exact T s (s'\<lparr>RentInfo := x1\<rparr>) = rm_exact T s s'" "rm_exact T s (s'\<lparr>RentEnding := x2\<rparr>) = rm_exact T s s'"
  "rm_exact T s (s'\<lparr>ConfirmingOrder := x3\<rparr>) = rm_exact T s s'" "rm_exact T s (s'\<lparr>RentFeePot := x4\<rparr>) = rm_exact T s s'"
  "rm_exact T s (s'\<lparr>EvmAddress2Account := x5\<rparr>) = rm_exact T s s'"
  by (simp_all add: rm_exact_def rm_deposit_event_def push_rented_def open_order_def
      rm_reserved_def rm_locked_def rm_world_def)

lemma rm_exact_profile: "op_exact T (rm_profile s) p \<Longrightarrow> rm_exact T s (s\<lparr>rm_profile := p\<rparr>)"
  by (auto simp: rm_exact_def op_exact_def rm_reserved_def op_reserved_def rm_locked_def rm_world_def add.assoc [symmetric])

lemma finished_loop_step:
  obtains "finished_loop T now (rid # ids) s = s"
  | r p where "same_money (rm_profile s) p"
    "finished_loop T now (rid # ids) s = finished_loop T now ids (close_order T rid r now (s\<lparr>rm_profile := p\<rparr>))"
proof (cases "RentInfo s rid")
  case (Some r)
  show ?thesis
  proof (cases "is_last_rent (order_machine_id r) (renter r) s")
    case None
    then show ?thesis using that(1) Some by simp
  next
    case (Some x)
    obtain x1 x2 where x: "x = (x1, x2)" by (cases x)
    let ?p = "case change_machine_status_on_rent_end T now (order_machine_id r) (order_gpu_num r)
        (saturating_sub (rent_end r) (rent_start r)) x1 x2 (renter r) (rm_profile s) of
        None \<Rightarrow> rm_profile s | Some p \<Rightarrow> p"
    have "same_money (rm_profile s) ?p" by (auto split: option.split dest: rent_status_money(3))
    moreover have "finished_loop T now (rid # ids) s = finished_loop T now ids (close_order T rid r now (s\<lparr>rm_profile := ?p\<rparr>))"
      using \<open>RentInfo s rid = Some r\<close> Some x by (simp add: Let_def)
    ultimately show ?thesis by (rule that(2))
  qed
qed (use that(1) in simp)

context op_host
begin

lemma unlock_exact:
  assumes "backed rm_locked (rm_reserved T) s" "v \<le> UserTotalStake s who"
  shows "rm_exact T s ((put_world (fst (unreserve (op_Currency T) who v (rm_world s))) s)
    \<lparr>UserTotalStake := (UserTotalStake s)(who := UserTotalStake s who - v)\<rparr>)"
proof -
  have "v \<le> reserved_balance (op_Currency T) (rm_world s) who"
    using backedD [OF assms(1), of who] assms(2) by (simp add: rm_locked_def rm_reserved_def)
  then show ?thesis using assms(2)
    by (auto simp: rm_exact_def rm_reserved_def rm_locked_def rm_world_def put_world_def unreserve_reserved)
qed

lemma close_order_exact:
  assumes "backed rm_locked (rm_reserved T) s"
  shows "rm_exact T s (close_order T rid r b s)"
proof -
  have "rm_exact T s (return_stake T r s)"
    using assms by (auto simp: return_stake_def change_renter_total_stake_sub unlock_exact split: option.split)
  then show ?thesis by (subst rm_exact_cong [of _ "return_stake T r s"]) (simp_all add: close_order_def Let_def)
qed

lemma starting_loop_exact: "backed rm_locked (rm_reserved T) s \<Longrightarrow> rm_exact T s (starting_loop T now ids s)"
proof (induction ids arbitrary: s)
  case (Cons rid ids)
  show ?case
  proof (rule starting_loop_Cons [of T now rid ids s])
    fix r c p
    let ?s1 = "(close_order T rid r (rent_end r) s)\<lparr>ConfirmingOrder := c\<rparr>"
    assume p: "change_machine_status_on_confirm_expired (order_machine_id r) (order_gpu_num r)
        (rm_profile (close_order T rid r (rent_end r) s)) = Some p"
      and eq: "starting_loop T now (rid # ids) s =
        starting_loop T now ids ((close_order T rid r (rent_end r) s)\<lparr>ConfirmingOrder := c, rm_profile := p\<rparr>)"
    have "rm_exact T ?s1 (?s1\<lparr>rm_profile := p\<rparr>)"
      by (rule rm_exact_profile) (use rent_status_money(4) [OF p] in \<open>simp add: same_money_exact\<close>)
    then have ex: "rm_exact T s (?s1\<lparr>rm_profile := p\<rparr>)"
      by (rule rm_exact_trans [rotated]) (simp add: close_order_exact [OF Cons.prems])
    from Cons.IH [OF rm_exact_backed [OF ex Cons.prems]] show ?thesis
      unfolding eq by (rule rm_exact_trans [OF ex])
  qed (simp_all add: close_order_exact [OF Cons.prems])
qed simp

lemma finished_loop_exact: "backed rm_locked (rm_reserved T) s \<Longrightarrow> rm_exact T s (finished_loop T now ids s)"
proof (induction ids arbitrary: s)
  case (Cons rid ids)
  show ?case
  proof (rule finished_loop_step [of T now rid ids s])
    fix r p
    assume p: "same_money (rm_profile s) p"
      and eq: "finished_loop T now (rid # ids) s = finished_loop T now ids (close_order T rid r now (s\<lparr>rm_profile := p\<rparr>))"
    have ex: "rm_exact T s (s\<lparr>rm_profile := p\<rparr>)" by (intro rm_exact_profile same_money_exact p)
    have "rm_exact T (s\<lparr>rm_profile := p\<rparr>) (close_order T rid r now (s\<lparr>rm_profile := p\<rparr>))"
      by (rule close_order_exact [OF rm_exact_backed [OF ex Cons.prems]])
    with ex have ex': "rm_exact T s (close_order T rid r now (s\<lparr>rm_profile := p\<rparr>))" by (rule rm_exact_trans)
    from Cons.IH [OF rm_exact_backed [OF ex' Cons.prems]] show ?thesis
      unfolding eq by (rule rm_exact_trans [OF ex'])
  qed simp
qed simp

lemma on_finalize_exact:
  assumes "backed rm_locked (rm_reserved T) s"
  shows "rm_exact T s (rm_on_finalize T now s)"
proof -
  have ex: "rm_exact T s (check_machine_starting_status T now s)"
    unfolding check_machine_starting_status_def by (rule starting_loop_exact [OF assms])
  from finished_loop_exact [OF rm_exact_backed [OF ex assms]] show ?thesis
    unfolding rm_on_finalize_def check_if_rent_finished_def by (rule rm_exact_trans [OF ex])
qed

lemma pay_rent_fee_exact:
  assumes "pay_rent_fee T who m stash fee s = Inr s'"
  shows "rm_exact T s s'"
  using assms
proof (rule pay_rent_fee_Inr)
  fix pot d w1 w2
  let ?p = "(rm_profile s)\<lparr>op_world := w2\<rparr>"
  assume "transfer (op_Currency T) who stash (fee - d) KeepAlive (rm_world s) = Some w1"
    "transfer (op_Currency T) who pot d KeepAlive w1 = Some w2"
  then have "op_exact T (rm_profile s) ?p"
    by (auto simp: op_exact_def op_reserved_def rm_world_def dest!: transfer_law)
  then have "op_exact T (rm_profile s) (fst (change_machine_rent_fee T stash m d (fee - d) ?p))"
    using change_machine_rent_fee_exact by (rule op_exact_trans)
  then show "rm_exact T s s'"
    if "s' = s\<lparr>rm_profile := fst (change_machine_rent_fee T stash m d (fee - d) ?p)\<rparr>"
    unfolding that by (rule rm_exact_profile)
qed

lemma rent_machine_by_block_exact:
  assumes "rent_machine_by_block T now who m num duration s = Some (Inr s')"
  shows "rm_exact T s s'"
proof (cases "s' = s")
  case False
  show ?thesis
    using assms False
  proof (rule rent_machine_by_block_Inr)
    fix i w0 w1 fee fin gpus g p ev
    assume w: "op_pay_fixed_tx_fee T who (rm_world s) = Some w0" "reserve (op_Currency T) who fee w0 = Some w1"
      and p: "change_machine_status_on_rent_start m num ((rm_profile s)\<lparr>op_world := w1\<rparr>) = Some p"
      and s': "s' = rm_deposit_event ev (open_order (NextRentId s) (new_rent_order m who now fin fee num gpus) g
       (s\<lparr>UserTotalStake := (UserTotalStake s)(who := UserTotalStake s who + fee),
          NextRentId := next_id (NextRentId s), rm_profile := p\<rparr>))"
    have "op_world p = w1" "StashStake p = StashStake (rm_profile s)"
      using rent_status_money(1) [OF p] by (simp_all add: same_money_def)
    then show "rm_exact T s s'" using pay_reserved [OF w(1)]
      by (auto simp: s' rm_exact_def rm_reserved_def rm_locked_def rm_world_def reserve_reserved [OF w(2)]
          rm_deposit_event_def open_order_def)
  qed
qed simp

lemma confirm_rent_exact:
  assumes "confirm_rent T now orig rid s = Inr s'" "backed rm_locked (rm_reserved T) s"
  shows "rm_exact T s s'"
  using assms(1)
proof (rule confirm_rent_Inr)
  fix who r i s1 s2 p c ev
  let ?r = "(confirm_order now r)\<lparr>order_stake_amount := 0\<rparr>"
  assume le: "order_stake_amount r \<le> UserTotalStake s who"
    and s1: "s1 = (put_world (fst (unreserve (op_Currency T) who (order_stake_amount r) (rm_world s))) s)
       \<lparr>UserTotalStake := (UserTotalStake s)(who := UserTotalStake s who - order_stake_amount r)\<rparr>"
    and pay: "pay_rent_fee T who (order_machine_id r) (machine_stash i) (order_stake_amount r) s1 = Inr s2"
    and p: "change_machine_status_on_confirmed T (order_machine_id r) who (rm_profile s2) = Some p"
    and s': "s' = rm_deposit_event ev (push_rented (order_machine_id r) who rid ?r
       (s2\<lparr>rm_profile := p, ConfirmingOrder := c, RentInfo := (RentInfo s2)(rid \<mapsto> ?r)\<rparr>))"
  have "rm_exact T s s1" unfolding s1 by (rule unlock_exact [OF assms(2) le])
  then have "rm_exact T s s2" using pay_rent_fee_exact [OF pay] by (rule rm_exact_trans)
  moreover have "rm_exact T s2 (s2\<lparr>rm_profile := p\<rparr>)"
    by (intro rm_exact_profile same_money_exact rent_status_money(2) [OF p])
  ultimately show "rm_exact T s s'" unfolding s' by (simp add: rm_exact_trans)
qed

lemma relet_machine_by_block_exact:
  assumes "relet_machine_by_block T now who rid duration s = Inr s'"
  shows "rm_exact T s s'"
proof (cases "s' = s")
  case False
  show ?thesis
    by (rule relet_machine_by_block_Inr [OF assms False]) (simp add: pay_rent_fee_exact)
qed simp

lemma rm_dispatch_exact:
  assumes "rm_dispatch T now orig c s = Some (Inr s')" "backed rm_locked (rm_reserved T) s"
  shows "rm_exact T s s'"
  using assms by (cases c) (auto simp: set_rent_fee_pot_def rent_machine_def relet_machine_def bond_evm_address_def
      split: option.splits if_splits
      dest: rent_machine_by_block_exact confirm_rent_exact relet_machine_by_block_exact)

end

text \<open>The steps the pallet makes itself.\<close>

inductive rm_own_step :: "'w op_config \<Rightarrow> 'w rm_state \<Rightarrow> 'w rm_state \<Rightarrow> bool" for T where
  own_call: "rm_dispatch T now orig c s = Some (Inr s') \<Longrightarrow> rm_own_step T s s'"
| own_hook: "rm_own_step T s (rm_on_finalize T now s)"

sublocale op_host \<subseteq> rm_escrow: escrow_pallet "rm_own_step T" "\<lambda>_. True" rm_locked "rm_reserved T"
proof
  fix s s' a
  assume "rm_own_step T s s'" "backed rm_locked (rm_reserved T) s"
  then have "rm_exact T s s'" by cases (simp_all add: rm_dispatch_exact on_finalize_exact)
  then show "rm_reserved T s' a + rm_locked s a = rm_reserved T s a + rm_locked s' a" by (simp add: rm_exact_def)
qed simp

section \<open>Where the fee goes\<close>

definition balance_of :: "'w op_config \<Rightarrow> 'w op_state \<Rightarrow> account \<Rightarrow> balance" where
  "balance_of T s a = free_balance (op_Currency T) (op_world s) a + reserved_balance (op_Currency T) (op_world s) a"

lemma same_money_balance: "same_money s s' \<Longrightarrow> balance_of T s' = balance_of T s"
  by (simp add: same_money_def balance_of_def fun_eq_iff)

context op_host
begin

lemma change_stake_balance:
  assumes "change_stake T who v True s = Some s'"
  shows "balance_of T s' = balance_of T s"
proof -
  obtain w where "reserve (op_Currency T) who v (op_world s) = Some w" "op_world s' = w"
    using assms by (auto simp: change_stake_def op_deposit_event_def split: option.splits if_splits)
  then show ?thesis by (auto simp: balance_of_def fun_eq_iff dest!: reserve_law)
qed

lemma fulfill_loop_balance: "fulfill_loop T ms v s = (s', b) \<Longrightarrow> balance_of T s' = balance_of T s"
proof (induction ms arbitrary: v s)
  case (Cons m ms)
  have "balance_of T (op_deposit_event e (put_machine m i s1)) = balance_of T s" if "change_stake T who x True s = Some s1" for e i s1 who x
    using change_stake_balance [OF that] by (simp add: balance_of_def fun_eq_iff op_deposit_event_def put_machine_def)
  with Cons.prems show ?case by (auto simp: Let_def split: option.splits if_splits dest!: Cons.IH)
qed simp

lemma change_machine_rent_fee_balance: "balance_of T (fst (change_machine_rent_fee T a m d f s)) = balance_of T s"
proof (cases "fulfill_machine_stake T a f s")
  case (Pair s1 b)
  then have "balance_of T s1 = balance_of T s" unfolding fulfill_machine_stake_def by (rule fulfill_loop_balance)
  moreover have "same_money s1 (fst (change_machine_rent_fee T a m d f s))"
    by (cases b) (auto simp: change_machine_rent_fee_def Pair Let_def split: option.split)
  ultimately show ?thesis by (simp add: same_money_balance)
qed

lemma transfer_balance:
  assumes "transfer (op_Currency T) a b v e (op_world s) = Some w"
  shows "balance_of T (s\<lparr>op_world := w\<rparr>) x + (if x = a then v else 0) = balance_of T s x + (if x = b then v else 0)"
  using transfer_law [OF assms] by (auto simp: balance_of_def Let_def)

lemma pay_rent_fee_balance:
  assumes "pay_rent_fee T who m stash fee s = Inr s'" "RentFeePot s = Some pot"
    "d = pmul (op_Perthing T) PERBILL (RentFeeDestroyPercent (rm_profile s)) fee"
  shows "balance_of T (rm_profile s') x + (if x = who then fee else 0) =
    balance_of T (rm_profile s) x + (if x = stash then fee - d else 0) + (if x = pot then d else 0)"
  using assms(1)
proof (rule pay_rent_fee_Inr)
  fix pot' d' w1 w2
  assume *: "RentFeePot s = Some pot'" "d' = pmul (op_Perthing T) PERBILL (RentFeeDestroyPercent (rm_profile s)) fee"
      "d' \<le> fee"
    and t1: "transfer (op_Currency T) who stash (fee - d') KeepAlive (rm_world s) = Some w1"
    and t2: "transfer (op_Currency T) who pot' d' KeepAlive w1 = Some w2"
    and s': "s' = s\<lparr>rm_profile := fst (change_machine_rent_fee T stash m d' (fee - d') ((rm_profile s)\<lparr>op_world := w2\<rparr>))\<rparr>"
  have "d' = d" "pot' = pot" using * assms(2,3) by simp_all
  note t1 = transfer_balance [of who stash "fee - d'" KeepAlive "rm_profile s", folded rm_world_def, OF t1, of x]
  note t2 = transfer_balance [of who pot' d' KeepAlive "(rm_profile s)\<lparr>op_world := w1\<rparr>" w2 x]
  show ?thesis using t1 t2 \<open>transfer (op_Currency T) who pot' d' KeepAlive w1 = Some w2\<close> *(3)
    unfolding s' \<open>d' = d\<close> \<open>pot' = pot\<close> by (simp add: change_machine_rent_fee_balance split: if_splits)
qed

lemma confirm_rent_balance:
  assumes "confirm_rent T now (Signed who) rid s = Inr s'" "RentInfo s rid = Some r"
    "MachinesInfo (rm_profile s) (order_machine_id r) = Some i" "RentFeePot s = Some pot"
    "d = pmul (op_Perthing T) PERBILL (RentFeeDestroyPercent (rm_profile s)) (order_stake_amount r)"
  shows "balance_of T (rm_profile s') x + (if x = who then order_stake_amount r else 0) =
      balance_of T (rm_profile s) x + (if x = machine_stash i then order_stake_amount r - d else 0) +
      (if x = pot then d else 0) \<and>
    RentInfo s' rid = Some (r\<lparr>confirm_rent_time := now, rent_status := Renting, order_stake_amount := 0\<rparr>) \<and>
    UserTotalStake s' who + order_stake_amount r = UserTotalStake s who"
  using assms(1)
proof (rule confirm_rent_Inr)
  fix who' r' i' s1 s2 p c ev
  let ?r = "(confirm_order now r')\<lparr>order_stake_amount := 0\<rparr>"
  assume *: "ensure_signed (Signed who) = Some who'" "RentInfo s rid = Some r'"
      "MachinesInfo (rm_profile s) (order_machine_id r') = Some i'"
    and le: "order_stake_amount r' \<le> UserTotalStake s who'"
    and s1: "s1 = (put_world (fst (unreserve (op_Currency T) who' (order_stake_amount r') (rm_world s))) s)
       \<lparr>UserTotalStake := (UserTotalStake s)(who' := UserTotalStake s who' - order_stake_amount r')\<rparr>"
    and pay: "pay_rent_fee T who' (order_machine_id r') (machine_stash i') (order_stake_amount r') s1 = Inr s2"
    and p: "change_machine_status_on_confirmed T (order_machine_id r') who' (rm_profile s2) = Some p"
    and s': "s' = rm_deposit_event ev (push_rented (order_machine_id r') who' rid ?r
       (s2\<lparr>rm_profile := p, ConfirmingOrder := c, RentInfo := (RentInfo s2)(rid \<mapsto> ?r)\<rparr>))"
  have eq: "who' = who" "r' = r" "i' = i" using * assms(2,3) by auto
  have d: "RentFeePot s1 = Some pot"
    "d = pmul (op_Perthing T) PERBILL (RentFeeDestroyPercent (rm_profile s1)) (order_stake_amount r)"
    using assms(4,5) by (simp_all add: s1)
  have "balance_of T (rm_profile s1) x = balance_of T (rm_profile s) x"
    using unreserve_total [of who "order_stake_amount r" "op_world (rm_profile s)" x]
    by (simp add: s1 eq balance_of_def rm_world_def)
  then have "balance_of T (rm_profile s2) x + (if x = who then order_stake_amount r else 0) =
      balance_of T (rm_profile s) x + (if x = machine_stash i then order_stake_amount r - d else 0) +
      (if x = pot then d else 0)"
    using pay_rent_fee_balance [OF pay [unfolded eq] d, of x] by simp
  moreover have "rm_profile s' = p" by (simp add: s' rm_deposit_event_def push_rented_def)
  moreover have "UserTotalStake s' who + order_stake_amount r = UserTotalStake s who"
    using pay_rent_fee_same [OF pay] le by (simp add: s' s1 eq rm_deposit_event_def push_rented_def)
  ultimately show ?thesis using same_money_balance [OF rent_status_money(2) [OF p], of T]
    by (simp add: s' eq rm_deposit_event_def push_rented_def confirm_order_def)
qed

end

section \<open>Properties\<close>

definition rm_init :: "'w op_state \<Rightarrow> 'w rm_state" where
  "rm_init p =
     \<lparr>rm_profile = p, UserOrder = (\<lambda>_. []), MachineRentOrder = (\<lambda>_. default_gpu_order),
      MachineRenterRentedOrders = (\<lambda>_ _. []), NextRentId = 0, RentInfo = Map.empty, ConfirmingOrder = Map.empty,
      RentEnding = Map.empty, UserTotalStake = (\<lambda>_. 0), RentFeePot = None, MaximumRentalDuration = 60,
      EvmAddress2Account = Map.empty, rm_events = []\<rparr>"

lemma rm_init_ok: "rm_ok (rm_init p)" "ids_below (rm_init p)"
  by (simp_all add: rm_ok_def rm_init_def index_of_empty orders_at_def default_gpu_order_def gpus_disjoint_def
      gpus_of_def ids_below_def)

lemma rm_own_step_step: "rm_own_step T s s' \<Longrightarrow> rm_step T s s'"
  by (induction rule: rm_own_step.induct) (auto intro: rm_step.intros)

lemma rm_own_run_ok: "(rm_own_step T)\<^sup>*\<^sup>* s s' \<Longrightarrow> rm_ok s \<Longrightarrow> rm_ok s'"
  using rtranclp_mono [of "rm_own_step T" "rm_step T"] rm_run_ok [of T s s'] rm_own_step_step [of T] by blast

context op_host
begin

lemma rm_own_run_exact:
  "(rm_own_step T)\<^sup>*\<^sup>* s s' \<Longrightarrow> backed rm_locked (rm_reserved T) s \<Longrightarrow>
    rm_reserved T s' a + rm_locked s a = rm_reserved T s a + rm_locked s' a"
  using rm_escrow.run_exact by simp

end

text \<open>
  C1: No GPU is rented out twice. From the first block on, along every run of calls, block hooks and changes of
  the machine registry, two open orders of one machine have no GPU in common, and the GPUs of every order are
  marked as used.
\<close>

theorem rm_gpus_exclusive:
  assumes "(rm_step T)\<^sup>*\<^sup>* (rm_init p) s" "RentInfo s rid = Some r" "RentInfo s rid' = Some r'" "rid \<noteq> rid'"
    "order_machine_id r = order_machine_id r'"
  shows "set (gpu_index r) \<inter> set (gpu_index r') = {} \<and>
    set (gpu_index r) \<union> set (gpu_index r') \<subseteq> set (used_gpu (MachineRentOrder s (order_machine_id r)))"
proof -
  have ok: "rm_ok s" by (rule rm_run_ok [OF assms(1) rm_init_ok(1)])
  have "set (gpu_index r) \<inter> set (gpu_index r') = {}"
    using rm_okD(5) [OF ok] assms(2-5) unfolding gpus_disjoint_def by blast
  then show ?thesis using assms(2-5) by (auto simp: rm_okD(7) [OF ok] gpus_of_def)
qed

text \<open>
  C10: Every call returns. Looking for a fresh order number is a loop that, once the successor of the counter is
  taken, never ends; but in a run from the first block this cannot happen within the first \<open>2\<^sup>6\<^sup>4 - 2\<close> steps,
  whatever the calls and however the machine registry changes in between.
\<close>

theorem rm_calls_return:
  assumes "(rm_step T ^^ n) (rm_init p) s" "n < 2 ^ 64 - 1"
  shows "rm_dispatch T now orig c s \<noteq> None"
proof -
  have "ids_below s \<and> NextRentId s \<le> n"
    using rm_run_ids [OF assms(1) rm_init_ok(2)] assms(2) by (simp add: rm_init_def)
  then show ?thesis using assms(2) by (simp add: rm_dispatch_returns)
qed


text \<open>
  C7: Deposits are exact. Along every run of the pallet's own calls and hooks, for every currency and fee
  implementation with their documented behaviour, the reserved balance of each account grows by exactly what the
  machine registry additionally has staked for it and the deposits of its open orders, neither more nor less.
\<close>

theorem rm_deposits_exact:
  assumes "op_host T" "(rm_own_step T)\<^sup>*\<^sup>* (rm_init p) s"
    "\<forall>a. StashStake p a \<le> reserved_balance (op_Currency T) (op_world p) a"
  shows "reserved_balance (op_Currency T) (rm_world s) a + StashStake p a =
    reserved_balance (op_Currency T) (op_world p) a + StashStake (rm_profile s) a +
    (\<Sum>rid\<in>set (UserOrder s a). stake_of (RentInfo s) rid)"
proof -
  have "rm_ok s" by (rule rm_own_run_ok [OF assms(2) rm_init_ok(1)])
  then have "UserTotalStake s a = (\<Sum>rid\<in>set (UserOrder s a). stake_of (RentInfo s) rid)" by (rule rm_okD(8))
  moreover have "backed rm_locked (rm_reserved T) (rm_init p)"
    using assms(3) by (simp add: backed_def rm_locked_def rm_reserved_def rm_world_def rm_init_def)
  ultimately show ?thesis using op_host.rm_own_run_exact [OF assms(1,2), of a]
    by (simp add: rm_locked_def rm_reserved_def rm_world_def rm_init_def)
qed

text \<open>
  C14: Confirming a rent pays for it once. The deposit of the order leaves the renter; the part to destroy goes
  to the pot and the rest to the stash account of the machine, also where these accounts coincide; no other
  balance changes, even though part of the fee may at once be reserved as stake. The order is then running
  without a deposit.
\<close>

theorem rm_confirm_pays:
  assumes "op_host T" "confirm_rent T now (Signed who) rid s = Inr s'" "RentInfo s rid = Some r"
    "MachinesInfo (rm_profile s) (order_machine_id r) = Some i" "RentFeePot s = Some pot"
    "d = pmul (op_Perthing T) PERBILL (RentFeeDestroyPercent (rm_profile s)) (order_stake_amount r)"
  shows "balance_of T (rm_profile s') x + (if x = who then order_stake_amount r else 0) =
      balance_of T (rm_profile s) x + (if x = machine_stash i then order_stake_amount r - d else 0) +
      (if x = pot then d else 0) \<and>
    RentInfo s' rid = Some (r\<lparr>confirm_rent_time := now, rent_status := Renting, order_stake_amount := 0\<rparr>) \<and>
    UserTotalStake s' who + order_stake_amount r = UserTotalStake s who"
  by (rule op_host.confirm_rent_balance [OF assms])

section \<open>A run over the ledger\<close>

text \<open>
  A machine with four GPUs of stash account 5; account 7 rents two of its GPUs for half an hour, then account 8
  rents two.
\<close>

definition rm_demo_info :: machine_info where
  "rm_demo_info = (mi_new_bonding 6 5 0 1000)\<lparr>machine_status := Online,
     machine_info_detail := \<lparr>committee_upload_info = default_upload\<lparr>upload_gpu_num := 4, upload_calc_point := 100\<rparr>,
       staker_customize_info = default_customize\<rparr>\<rparr>"

definition rm_demo_profile :: "ledger gf_state op_state" where
  "rm_demo_profile = (op_init op_demo_world)\<lparr>MachinesInfo := [[1] \<mapsto> rm_demo_info],
     StandardGPUPointPrice := Some \<lparr>gpu_point = 100, gpu_price = 9600\<rparr>\<rparr>"

definition rm_demo0 :: "ledger gf_state rm_state" where "rm_demo0 = rm_init rm_demo_profile"

definition rm_demo_do :: "block_number \<Rightarrow> origin \<Rightarrow> rm_call \<Rightarrow> ledger gf_state rm_state \<Rightarrow> ledger gf_state rm_state" where
  "rm_demo_do now orig c s = (case rm_dispatch op_ledger now orig c s of Some (Inr s') \<Rightarrow> s' | _ \<Rightarrow> s)"

definition rm_demo1 :: "ledger gf_state rm_state" where
  "rm_demo1 = rm_demo_do 1 Root (SetRentFeePot 9) rm_demo0"
definition rm_demo2 :: "ledger gf_state rm_state" where
  "rm_demo2 = rm_demo_do 1 (Signed 7) (RentMachineCall [1] 2 300) rm_demo1"
definition rm_demo3 :: "ledger gf_state rm_state" where
  "rm_demo3 = rm_demo_do 2 (Signed 8) (RentMachineCall [1] 2 300) rm_demo2"

lemma rm_demo1_step: "rm_dispatch op_ledger 1 Root (SetRentFeePot 9) rm_demo0 = Some (Inr rm_demo1)"
  "rm_demo1 = rm_demo0\<lparr>RentFeePot := Some 9\<rparr>"
  by (simp_all add: rm_demo1_def rm_demo_do_def set_rent_fee_pot_def origin_ops)

lemmas rm_rent_defs = rent_machine_def rent_machine_by_block_def rm_demo0_def rm_init_def rm_demo_profile_def op_init_def
  rm_demo_info_def mi_new_bonding_def gpu_num_def calc_point_def default_upload_def time_defs op_ledger_sel pay_fixed_tx_fee_def
  op_demo_world_def gf_ledger_sel slash_to_fee_def ledger_take_def ledger_deposit_def gf_deposit_event_def
  gf_currency_def lift_currency_sel ledger_defs int_ops dbc_rent_fee_def rent_fee_value_def get_machine_price_def
  change_renter_total_stake_def rm_world_def put_world_def get_new_rent_id_eq next_id_def
  gen_rentable_gpu_def default_gpu_order_def list_defs change_machine_status_on_rent_start_def put_machine_def Let_def

lemma rm_demo2_step: "rm_dispatch op_ledger 1 (Signed 7) (RentMachineCall [1] 2 300) rm_demo1 = Some (Inr rm_demo2)"
  "RentInfo rm_demo2 0 = Some (new_rent_order [1] 7 1 301 1000 2 [0, 1])"
  by (simp_all add: rm_demo2_def rm_demo_do_def rm_demo1_step rm_rent_defs open_order_def rm_deposit_event_def upt_rec)

lemmas rm_demo2_eval = rm_demo2_def rm_demo_do_def rm_demo1_step rm_rent_defs open_order_def rm_deposit_event_def upt_rec

lemma rm_demo3_step: "rm_dispatch op_ledger 2 (Signed 8) (RentMachineCall [1] 2 300) rm_demo2 = Some (Inr rm_demo3)"
  "RentInfo rm_demo3 0 = Some (new_rent_order [1] 7 1 301 1000 2 [0, 1])"
  "RentInfo rm_demo3 1 = Some (new_rent_order [1] 8 2 302 1000 2 [2, 3])"
  by (simp_all add: rm_demo3_def rm_demo2_eval add_order_at_def orders_at_def confirm_at_def WAITING_CONFIRMING_DELAY_def)
    (simp add: eval_nat_numeral)

lemma rm_demo_run: "rm_own_step op_ledger rm_demo0 rm_demo1" "rm_own_step op_ledger rm_demo1 rm_demo2"
  "rm_own_step op_ledger rm_demo2 rm_demo3"
  by (rule own_call; rule rm_demo1_step(1) rm_demo2_step(1) rm_demo3_step(1))+

lemma rm_demo_reach: "(rm_own_step op_ledger)\<^sup>*\<^sup>* (rm_init rm_demo_profile) rm_demo3"
  using rm_demo_run unfolding rm_demo0_def
  by (meson converse_rtranclp_into_rtranclp rtranclp.rtrancl_refl)

lemma rm_demo_reach_step: "(rm_step op_ledger)\<^sup>*\<^sup>* (rm_init rm_demo_profile) rm_demo3"
  using rm_demo_reach rtranclp_mono [of "rm_own_step op_ledger" "rm_step op_ledger"] rm_own_step_step by blast

theorem rm_gpus_exclusive_witness:
  "\<exists>r r'. RentInfo rm_demo3 0 = Some r \<and> RentInfo rm_demo3 1 = Some r' \<and> gpu_index r = [0, 1] \<and>
    set (gpu_index r) \<inter> set (gpu_index r') = {}"
proof -
  have "set (gpu_index (new_rent_order [1] 7 1 301 1000 2 [0, 1])) \<inter>
      set (gpu_index (new_rent_order [1] 8 2 302 1000 2 [2, 3])) = {}"
    using rm_gpus_exclusive [OF rm_demo_reach_step rm_demo3_step(2,3)] by simp
  then show ?thesis using rm_demo3_step(2,3) new_rent_order_sel(4) by blast
qed

theorem rm_calls_return_witness: "rm_dispatch op_ledger 3 (Signed 8) (RentMachineCall [1] 1 300) rm_demo3 \<noteq> None"
proof -
  have "(rm_step op_ledger ^^ 3) (rm_init rm_demo_profile) rm_demo3"
    using rm_demo_run [THEN rm_own_step_step] by (auto simp: numeral_3_eq_3 rm_demo0_def)
  then show ?thesis by (rule rm_calls_return) simp
qed


theorem rm_deposits_exact_witness:
  "UserOrder rm_demo3 7 = [0] \<and> reserved_balance (op_Currency op_ledger) (rm_world rm_demo3) 7 = 1000"
proof -
  have u: "UserOrder rm_demo3 7 = [0]" "StashStake (rm_profile rm_demo3) 7 = 0"
    by (simp_all add: rm_demo3_def rm_demo2_eval add_order_at_def orders_at_def confirm_at_def WAITING_CONFIRMING_DELAY_def)
  have z: "StashStake rm_demo_profile a = 0" "reserved_balance (op_Currency op_ledger) (op_world rm_demo_profile) a = 0" for a
    by (simp_all add: rm_demo_profile_def op_init_def op_demo_world_def op_ledger_sel gf_currency_def lift_currency_sel gf_ledger_sel ledger_defs)
  show ?thesis
    using rm_deposits_exact [OF opl.op_host_axioms rm_demo_reach, of 7] u z by (simp add: stake_of_def rm_demo3_step)
qed

lemma change_machine_status_on_confirmed_ok:
  "MachinesInfo p m \<noteq> None \<Longrightarrow> \<exists>p'. change_machine_status_on_confirmed T m a p = Some p'"
  by (auto simp: change_machine_status_on_confirmed_def update_snap_on_rent_changed_def Let_def)

theorem rm_confirm_pays_witness:
  "\<exists>s'. confirm_rent op_ledger 5 (Signed 7) 0 rm_demo2 = Inr s' \<and>
    balance_of op_ledger (rm_profile s') 7 + 1000 = balance_of op_ledger (rm_profile rm_demo2) 7 \<and>
    balance_of op_ledger (rm_profile s') 5 = balance_of op_ledger (rm_profile rm_demo2) 5 + 700 \<and>
    balance_of op_ledger (rm_profile s') 9 = balance_of op_ledger (rm_profile rm_demo2) 9 + 300"
proof -
  have i: "MachinesInfo (rm_profile rm_demo2) [1] = Some (rm_demo_info\<lparr>machine_status := Rented\<rparr>)"
    "RentFeePot rm_demo2 = Some 9" "RentFeeDestroyPercent (rm_profile rm_demo2) = 300000000"
    "UserTotalStake rm_demo2 7 = 1000" "StashMachines (rm_profile rm_demo2) = Map.empty"
    "ledger_free (gf_world (op_world (rm_profile rm_demo2))) 7 = 3990"
    "ledger_reserved (gf_world (op_world (rm_profile rm_demo2))) 7 = 1000"
    by (simp_all add: rm_demo2_eval)
  define s1 where "s1 = (put_world (fst (unreserve (op_Currency op_ledger) 7 1000 (rm_world rm_demo2))) rm_demo2)
    \<lparr>UserTotalStake := (UserTotalStake rm_demo2)(7 := 0)\<rparr>"
  have s1: "change_renter_total_stake op_ledger 7 1000 False rm_demo2 = Some s1"
    by (simp add: change_renter_total_stake_sub s1_def i)
  obtain w where w: "Option.bind (transfer (op_Currency op_ledger) 7 5 700 KeepAlive (rm_world s1))
      (transfer (op_Currency op_ledger) 7 9 300 KeepAlive) = Some w"
    by (simp add: s1_def rm_world_def put_world_def op_ledger_sel gf_currency_def lift_currency_sel gf_ledger_sel ledger_defs i)
  define p where "p = fst (change_machine_rent_fee op_ledger 5 [1] 300 700 ((rm_profile rm_demo2)\<lparr>op_world := w\<rparr>))"
  have pay: "pay_rent_fee op_ledger 7 [1] 5 1000 s1 = Inr (s1\<lparr>rm_profile := p\<rparr>)"
    using w by (simp add: pay_rent_fee_def p_def i op_ledger_sel(2) perthing_ops_ref_sel PERBILL_def checked_sub_def
        s1_def put_world_def)
  have "MachinesInfo p [1] \<noteq> None"
    by (simp add: p_def change_machine_rent_fee_def fulfill_machine_stake_def stash_machines_def default_stash_machine_def
        i(1,5) Let_def put_machine_def)
  then obtain p' where p': "change_machine_status_on_confirmed op_ledger [1] 7 p = Some p'"
    using change_machine_status_on_confirmed_ok by blast
  obtain s' where s': "confirm_rent op_ledger 5 (Signed 7) 0 rm_demo2 = Inr s'"
    by (simp add: confirm_rent_def rm_demo2_step(2) new_rent_order_def checked_sub_def WAITING_CONFIRMING_DELAY_def
        time_defs i(1) rm_demo_info_def mi_new_bonding_def origin_ops s1 pay p' Let_def)
  note pays = rm_confirm_pays [OF opl.op_host_axioms s' rm_demo2_step(2) _ i(2) refl, of "rm_demo_info\<lparr>machine_status := Rented\<rparr>"]
  show ?thesis using pays [of 7] pays [of 5] pays [of 9] s' i
    by (auto simp: op_ledger_sel perthing_ops_ref_sel PERBILL_def rm_demo_info_def mi_new_bonding_def)
qed

end
