(* ===== verification/Committee.thy ===== *)
theory Committee
  imports Item_List Escrow
begin

text \<open>
  The pallet \<open>pallets/committee\<close> (\<open>lib.rs\<close>, \<open>types.rs\<close>, \<open>traits.rs\<close>): the members who verify machines,
  their stake, and the four sorted lists that record who may be given work. Other pallets reach it
  through the trait \<open>ManageCommittee\<close>. \<open>change_committee_stake\<close> of \<open>pallets/online-committee/src/utils.rs\<close>
  is included because it is the sequence of trait calls by which a stake is slashed.
\<close>

section \<open>Data\<close>

record committee_list =
  normal :: "account list"
  chill_list :: "account list"
  waiting_box_pubkey :: "account list"
  fulfilling_list :: "account list"

record committee_stake_params =
  stake_baseline :: balance
  stake_per_order_param :: balance
  min_free_stake_percent :: nat

record committee_stake =
  box_pubkey :: bytes
  staked_amount :: balance
  used_stake :: balance
  can_claim_reward :: balance
  claimed_reward :: balance

datatype cm_error =
    BadOrigin
  | PubkeyNotSet
  | NotCommittee
  | AccountAlreadyExist
  | NotInChillList
  | JobNotDone
  | NoRewardCanClaim
  | ClaimRewardFailed
  | GetStakeParamsFailed
  | NothingToClaim
  | StakeForCommitteeFailed
  | BalanceNotEnough
  | StakeNotEnough
  | StatusNotAllowed
  | NotInNormalList
  | StatusNotFeat
  | ChangeReservedFailed

datatype cm_event =
    PayTxFee account balance
  | CommitteeAdded account
  | CommitteeFulfill balance
  | ChillEvent account
  | CommitteeExit account
  | UndoChillEvent account
  | ExitFromCandidacy account
  | CommitteeSetBoxPubkey account bytes
  | StakeAdded account balance
  | StakeReduced account balance
  | ClaimRewardEvent account balance

record 'w cm_config =
  cm_Currency :: "'w currency_ops"
  cm_Perthing :: perthing_ops

record 'w cm_state =
  CommitteeV :: committee_list
  CommitteeStakeParams :: "committee_stake_params option"
  CommitteeStake :: "account \<Rightarrow> committee_stake"
  cm_events :: "cm_event list"
  cm_world :: 'w

definition cm_deposit_event :: "cm_event \<Rightarrow> 'w cm_state \<Rightarrow> 'w cm_state" where
  "cm_deposit_event e s = s\<lparr>cm_events := cm_events s @ [e]\<rparr>"

text \<open>\<open>Default\<close> of the three storage structures.\<close>

definition default_list :: committee_list where
  "default_list = \<lparr>normal = [], chill_list = [], waiting_box_pubkey = [], fulfilling_list = []\<rparr>"

definition default_params :: committee_stake_params where
  "default_params = \<lparr>stake_baseline = 0, stake_per_order_param = 0, min_free_stake_percent = 0\<rparr>"

definition default_stake :: committee_stake where
  "default_stake =
     \<lparr>box_pubkey = replicate 32 0, staked_amount = 0, used_stake = 0, can_claim_reward = 0,
      claimed_reward = 0\<rparr>"

section \<open>The lists\<close>

definition is_normal :: "committee_list \<Rightarrow> account \<Rightarrow> bool" where
  "is_normal l who = is_ok (binary_search who (normal l))"

definition is_chill :: "committee_list \<Rightarrow> account \<Rightarrow> bool" where
  "is_chill l who = is_ok (binary_search who (chill_list l))"

definition is_waiting_puk :: "committee_list \<Rightarrow> account \<Rightarrow> bool" where
  "is_waiting_puk l who = is_ok (binary_search who (waiting_box_pubkey l))"

definition is_fulfilling :: "committee_list \<Rightarrow> account \<Rightarrow> bool" where
  "is_fulfilling l who = is_ok (binary_search who (fulfilling_list l))"

definition is_committee :: "committee_list \<Rightarrow> account \<Rightarrow> bool" where
  "is_committee l who = (is_normal l who \<or> is_chill l who \<or> is_waiting_puk l who \<or> is_fulfilling l who)"

section \<open>Stake and status\<close>

text \<open>The free stake a member needs, for given parameters.\<close>

definition free_stake_enough :: "'w cm_config \<Rightarrow> committee_stake_params \<Rightarrow> committee_stake \<Rightarrow> bool" where
  "free_stake_enough T p st \<longleftrightarrow>
     staked_amount st \<ge> stake_baseline p \<and>
     saturating_sub (staked_amount st) (used_stake st) \<ge>
       pmul (cm_Perthing T) 1000000000 (min_free_stake_percent p) (staked_amount st)"

definition checked_change :: "bool \<Rightarrow> balance \<Rightarrow> balance \<Rightarrow> balance option" where
  "checked_change is_add v amount = (if is_add then checked_add 128 v amount else checked_sub v amount)"

text \<open>\<open>Result<(), ()>\<close> is an option: \<open>None\<close> is the error, and nothing is written before an error is returned.\<close>

definition check_stake_health :: "'w cm_config \<Rightarrow> account \<Rightarrow> balance \<Rightarrow> bool \<Rightarrow> 'w cm_state \<Rightarrow> bool" where
  "check_stake_health T who amount is_add s =
     (case CommitteeStakeParams s of None \<Rightarrow> False
      | Some p \<Rightarrow>
      (case checked_change is_add (staked_amount (CommitteeStake s who)) amount of None \<Rightarrow> False
       | Some v \<Rightarrow> free_stake_enough T p ((CommitteeStake s who)\<lparr>staked_amount := v\<rparr>)))"

definition do_change_reserved ::
    "'w cm_config \<Rightarrow> account \<Rightarrow> balance \<Rightarrow> bool \<Rightarrow> bool \<Rightarrow> 'w cm_state \<Rightarrow> 'w cm_state option" where
  "do_change_reserved T who amount is_add change_reserve s =
     (case checked_change is_add (staked_amount (CommitteeStake s who)) amount of None \<Rightarrow> None
      | Some v \<Rightarrow>
      (case (if change_reserve
             then if is_add
                  then if \<not> can_reserve (cm_Currency T) (cm_world s) who amount then None
                       else reserve (cm_Currency T) who amount (cm_world s)
                  else Some (fst (unreserve (cm_Currency T) who amount (cm_world s)))
             else Some (cm_world s)) of None \<Rightarrow> None
       | Some w \<Rightarrow>
           Some (s\<lparr>cm_world := w,
             CommitteeStake := (CommitteeStake s)(who := (CommitteeStake s who)\<lparr>staked_amount := v\<rparr>)\<rparr>)))"

text \<open>The new lists, and whether they changed.\<close>

definition do_change_status_when_stake_changed ::
    "'w cm_config \<Rightarrow> 'w cm_state \<Rightarrow> account \<Rightarrow> committee_list \<Rightarrow> committee_stake \<Rightarrow> committee_list \<times> bool" where
  "do_change_status_when_stake_changed T s who l st =
     (let p = (case CommitteeStakeParams s of None \<Rightarrow> default_params | Some p \<Rightarrow> p);
          is_free_stake_enough = free_stake_enough T p st
      in if is_free_stake_enough \<and> is_fulfilling l who
         then (l\<lparr>fulfilling_list := rm_item who (fulfilling_list l), normal := add_item who (normal l)\<rparr>, True)
         else if \<not> is_free_stake_enough \<and> is_normal l who
         then (l\<lparr>normal := rm_item who (normal l), fulfilling_list := add_item who (fulfilling_list l)\<rparr>, True)
         else (l, False))"

definition do_change_used_stake ::
    "'w cm_config \<Rightarrow> account \<Rightarrow> balance \<Rightarrow> bool \<Rightarrow> 'w cm_state \<Rightarrow> 'w cm_state option" where
  "do_change_used_stake T who amount is_add s =
     (case checked_change is_add (used_stake (CommitteeStake s who)) amount of None \<Rightarrow> None
      | Some v \<Rightarrow>
          let st = (CommitteeStake s who)\<lparr>used_stake := v\<rparr>;
              r = do_change_status_when_stake_changed T s who (CommitteeV s) st;
              s1 = (if snd r then s\<lparr>CommitteeV := fst r\<rparr> else s)
          in Some (s1\<lparr>CommitteeStake := (CommitteeStake s1)(who := st)\<rparr>))"

section \<open>Dispatchables\<close>

definition set_committee_stake_params ::
    "origin \<Rightarrow> committee_stake_params \<Rightarrow> 'w cm_state \<Rightarrow> cm_error + 'w cm_state" where
  "set_committee_stake_params orig p s =
     (if \<not> ensure_root orig then Inl BadOrigin else Inr (s\<lparr>CommitteeStakeParams := Some p\<rparr>))"

definition add_committee :: "origin \<Rightarrow> account \<Rightarrow> 'w cm_state \<Rightarrow> cm_error + 'w cm_state" where
  "add_committee orig member s =
     (if \<not> ensure_root orig then Inl BadOrigin
      else
        let l = CommitteeV s in
        if is_committee l member then Inl AccountAlreadyExist
        else Inr (cm_deposit_event (CommitteeAdded member)
          (s\<lparr>CommitteeV := l\<lparr>waiting_box_pubkey := add_item member (waiting_box_pubkey l)\<rparr>\<rparr>)))"

definition committee_set_box_pubkey ::
    "'w cm_config \<Rightarrow> origin \<Rightarrow> bytes \<Rightarrow> 'w cm_state \<Rightarrow> cm_error + 'w cm_state" where
  "committee_set_box_pubkey T orig key s =
     (case ensure_signed orig of None \<Rightarrow> Inl BadOrigin
      | Some who \<Rightarrow>
      (case CommitteeStakeParams s of None \<Rightarrow> Inl GetStakeParamsFailed
       | Some p \<Rightarrow>
      let l = CommitteeV s in
      (case (if is_waiting_puk l who
             then if \<not> check_stake_health T who (stake_baseline p) True s then Inl BalanceNotEnough
                  else (case do_change_reserved T who (stake_baseline p) True True s of
                    None \<Rightarrow> Inl BalanceNotEnough
                  | Some s1 \<Rightarrow>
                      Inr (s1\<lparr>CommitteeV :=
                        l\<lparr>waiting_box_pubkey := rm_item who (waiting_box_pubkey l),
                          normal := add_item who (normal l)\<rparr>\<rparr>))
             else if \<not> is_normal l who then Inl StatusNotAllowed
             else Inr s) of
         Inl e \<Rightarrow> Inl e
       | Inr s2 \<Rightarrow>
           Inr (cm_deposit_event (CommitteeSetBoxPubkey who key)
             (cm_deposit_event (StakeAdded who (stake_baseline p))
               (s2\<lparr>CommitteeStake :=
                 (CommitteeStake s2)(who := (CommitteeStake s2 who)\<lparr>box_pubkey := key\<rparr>)\<rparr>))))))"

definition committee_add_stake ::
    "'w cm_config \<Rightarrow> origin \<Rightarrow> balance \<Rightarrow> 'w cm_state \<Rightarrow> cm_error + 'w cm_state" where
  "committee_add_stake T orig amount s =
     (case ensure_signed orig of None \<Rightarrow> Inl BadOrigin
      | Some who \<Rightarrow>
      let l = CommitteeV s in
      if \<not> is_committee l who then Inl NotCommittee
      else if \<not> check_stake_health T who amount True s then Inl BalanceNotEnough
      else (case do_change_reserved T who amount True True s of None \<Rightarrow> Inl BalanceNotEnough
      | Some s1 \<Rightarrow>
          Inr (cm_deposit_event (StakeAdded who amount)
            (if is_fulfilling l who
             then s1\<lparr>CommitteeV :=
               l\<lparr>fulfilling_list := rm_item who (fulfilling_list l), normal := add_item who (normal l)\<rparr>\<rparr>
             else s1))))"

definition committee_reduce_stake ::
    "'w cm_config \<Rightarrow> origin \<Rightarrow> balance \<Rightarrow> 'w cm_state \<Rightarrow> cm_error + 'w cm_state" where
  "committee_reduce_stake T orig amount s =
     (case ensure_signed orig of None \<Rightarrow> Inl BadOrigin
      | Some who \<Rightarrow>
      if \<not> is_normal (CommitteeV s) who then Inl NotInNormalList
      else if \<not> check_stake_health T who amount False s then Inl BalanceNotEnough
      else (case do_change_reserved T who amount False True s of None \<Rightarrow> Inl ChangeReservedFailed
      | Some s1 \<Rightarrow> Inr (cm_deposit_event (StakeReduced who amount) s1)))"

definition claim_reward :: "'w cm_config \<Rightarrow> origin \<Rightarrow> 'w cm_state \<Rightarrow> cm_error + 'w cm_state" where
  "claim_reward T orig s =
     (case ensure_signed orig of None \<Rightarrow> Inl BadOrigin
      | Some who \<Rightarrow>
      let st = CommitteeStake s who; amount = can_claim_reward st in
      if \<not> amount \<noteq> 0 then Inl NothingToClaim
      else (case deposit_into_existing (cm_Currency T) who amount (cm_world s) of
        None \<Rightarrow> Inl ClaimRewardFailed
      | Some w \<Rightarrow>
          Inr (cm_deposit_event (ClaimRewardEvent who amount)
            (s\<lparr>cm_world := w,
               CommitteeStake := (CommitteeStake s)
                 (who := st\<lparr>claimed_reward := wrapping_add 128 (claimed_reward st) amount,
                            can_claim_reward := 0\<rparr>)\<rparr>))))"

definition chill :: "origin \<Rightarrow> 'w cm_state \<Rightarrow> cm_error + 'w cm_state" where
  "chill orig s =
     (case ensure_signed orig of None \<Rightarrow> Inl BadOrigin
      | Some who \<Rightarrow>
      let l = CommitteeV s in
      if \<not> is_committee l who then Inl NotCommittee
      else if is_chill l who then Inr s
      else if is_waiting_puk l who then Inl PubkeyNotSet
      else Inr (cm_deposit_event (ChillEvent who)
        (s\<lparr>CommitteeV :=
          l\<lparr>normal := rm_item who (normal l), fulfilling_list := rm_item who (fulfilling_list l),
            chill_list := add_item who (chill_list l)\<rparr>\<rparr>)))"

definition undo_chill :: "'w cm_config \<Rightarrow> origin \<Rightarrow> 'w cm_state \<Rightarrow> cm_error + 'w cm_state" where
  "undo_chill T orig s =
     (case ensure_signed orig of None \<Rightarrow> Inl BadOrigin
      | Some who \<Rightarrow>
      let l = CommitteeV s in
      if \<not> is_chill l who then Inl NotInChillList
      else
        let l1 = l\<lparr>chill_list := rm_item who (chill_list l), normal := add_item who (normal l)\<rparr>;
            r = do_change_status_when_stake_changed T s who l1 (CommitteeStake s who)
        in Inr (cm_deposit_event (UndoChillEvent who) (s\<lparr>CommitteeV := fst r\<rparr>)))"

definition exit_committee :: "'w cm_config \<Rightarrow> origin \<Rightarrow> 'w cm_state \<Rightarrow> cm_error + 'w cm_state" where
  "exit_committee T orig s =
     (case ensure_signed orig of None \<Rightarrow> Inl BadOrigin
      | Some who \<Rightarrow>
      let st = CommitteeStake s who; l = CommitteeV s in
      if \<not> used_stake st = 0 then Inl JobNotDone
      else if \<not> is_chill l who then Inl StatusNotFeat
      else Inr (cm_deposit_event (ExitFromCandidacy who)
        (s\<lparr>cm_world := fst (unreserve (cm_Currency T) who (staked_amount st) (cm_world s)),
           CommitteeStake := (CommitteeStake s)(who := st\<lparr>staked_amount := 0\<rparr>),
           CommitteeV := l\<lparr>chill_list := rm_item who (chill_list l)\<rparr>\<rparr>)))"

section \<open>The trait the other pallets call\<close>

definition is_valid_committee :: "'w cm_state \<Rightarrow> account \<Rightarrow> bool" where
  "is_valid_committee s who = is_normal (CommitteeV s) who"

definition available_committee :: "'w cm_state \<Rightarrow> account list option" where
  "available_committee s = (if normal (CommitteeV s) \<noteq> [] then Some (normal (CommitteeV s)) else None)"

definition change_used_stake ::
    "'w cm_config \<Rightarrow> account \<Rightarrow> balance \<Rightarrow> bool \<Rightarrow> 'w cm_state \<Rightarrow> 'w cm_state option" where
  "change_used_stake T who amount is_add s = do_change_used_stake T who amount is_add s"

definition change_total_stake ::
    "'w cm_config \<Rightarrow> account \<Rightarrow> balance \<Rightarrow> bool \<Rightarrow> bool \<Rightarrow> 'w cm_state \<Rightarrow> 'w cm_state option" where
  "change_total_stake T who amount is_add change_reserve s =
     do_change_reserved T who amount is_add change_reserve s"

definition stake_per_order :: "'w cm_state \<Rightarrow> balance option" where
  "stake_per_order s = map_option stake_per_order_param (CommitteeStakeParams s)"

definition add_reward :: "account \<Rightarrow> balance \<Rightarrow> 'w cm_state \<Rightarrow> 'w cm_state" where
  "add_reward who reward s =
     s\<lparr>CommitteeStake := (CommitteeStake s)
       (who := (CommitteeStake s who)\<lparr>can_claim_reward :=
          saturating_add 128 (can_claim_reward (CommitteeStake s who)) reward\<rparr>)\<rparr>"

text \<open>
  How the verification pallets release or slash the stake of a list of members. The loop stops at the
  first error, and what it has written until then stays: the result is the state and whether all went well.
\<close>

fun change_committee_stake ::
    "'w cm_config \<Rightarrow> account list \<Rightarrow> balance \<Rightarrow> bool \<Rightarrow> 'w cm_state \<Rightarrow> 'w cm_state \<times> bool" where
  "change_committee_stake T [] amount is_slash s = (s, True)"
| "change_committee_stake T (who # cs) amount is_slash s =
     (case (if is_slash then change_total_stake T who amount False False s else Some s) of None \<Rightarrow> (s, False)
      | Some s1 \<Rightarrow>
      (case change_used_stake T who amount False s1 of None \<Rightarrow> (s1, False)
       | Some s2 \<Rightarrow> change_committee_stake T cs amount is_slash s2))"

section \<open>Runs\<close>

datatype cm_call =
    SetCommitteeStakeParams committee_stake_params
  | AddCommittee account
  | SetBoxPubkey bytes
  | AddStake balance
  | ReduceStake balance
  | ClaimReward
  | Chill
  | UndoChill
  | ExitCommittee

fun cm_dispatch :: "'w cm_config \<Rightarrow> origin \<Rightarrow> cm_call \<Rightarrow> 'w cm_state \<Rightarrow> cm_error + 'w cm_state" where
  "cm_dispatch T orig (SetCommitteeStakeParams p) s = set_committee_stake_params orig p s"
| "cm_dispatch T orig (AddCommittee a) s = add_committee orig a s"
| "cm_dispatch T orig (SetBoxPubkey k) s = committee_set_box_pubkey T orig k s"
| "cm_dispatch T orig (AddStake v) s = committee_add_stake T orig v s"
| "cm_dispatch T orig (ReduceStake v) s = committee_reduce_stake T orig v s"
| "cm_dispatch T orig ClaimReward s = claim_reward T orig s"
| "cm_dispatch T orig Chill s = chill orig s"
| "cm_dispatch T orig UndoChill s = undo_chill T orig s"
| "cm_dispatch T orig ExitCommittee s = exit_committee T orig s"

fun cm_run :: "'w cm_config \<Rightarrow> (origin \<times> cm_call) list \<Rightarrow> 'w cm_state \<Rightarrow> cm_error + 'w cm_state" where
  "cm_run T [] s = Inr s"
| "cm_run T ((orig, c) # cs) s = (case cm_dispatch T orig c s of Inl e \<Rightarrow> Inl e | Inr s' \<Rightarrow> cm_run T cs s')"

definition cm_init :: "'w \<Rightarrow> 'w cm_state" where
  "cm_init w =
     \<lparr>CommitteeV = default_list, CommitteeStakeParams = None, CommitteeStake = (\<lambda>_. default_stake),
      cm_events = [], cm_world = w\<rparr>"

text \<open>
  A step is a successful dispatchable, a call of the trait in one of the shapes in which the other
  pallets use it, the slash of reserve that no stake record accounts for any more (the pallets first
  lower \<open>staked_amount\<close> and take the money out of the reserve when the slash is executed), or an outside
  change of the ledger that takes nothing out of a reserve.
\<close>

inductive cm_step :: "'w cm_config \<Rightarrow> 'w cm_state \<Rightarrow> 'w cm_state \<Rightarrow> bool" for T where
  call: "cm_dispatch T orig c s = Inr s' \<Longrightarrow> cm_step T s s'"
| used: "change_used_stake T who v is_add s = Some s' \<Longrightarrow> cm_step T s s'"
| total: "change_total_stake T who v is_add change_reserve s = Some s' \<Longrightarrow>
    is_add \<longrightarrow> change_reserve \<Longrightarrow> cm_step T s s'"
| release: "change_committee_stake T cs v is_slash s = (s', ok) \<Longrightarrow> cm_step T s s'"
| reward: "cm_step T s (add_reward who v s)"
| deferred_slash: "staked_amount (CommitteeStake s who) + v \<le> reserved_balance (cm_Currency T) (cm_world s) who \<Longrightarrow>
    cm_step T s (s\<lparr>cm_world := fst (slash_reserved (cm_Currency T) who v (cm_world s))\<rparr>)"
| environment: "(\<And>a. reserved_balance (cm_Currency T) (cm_world s) a \<le> reserved_balance (cm_Currency T) w a) \<Longrightarrow>
    cm_step T s (s\<lparr>cm_world := w\<rparr>)"

text \<open>
  The steps of a period in which the parameters stay as they are: everything but the change of the
  parameters and a bare change of the total stake, which is always followed by a change of the used
  stake of the same member (\<open>review\<close>, \<open>release\<close>).
\<close>

inductive cm_work_step :: "'w cm_config \<Rightarrow> 'w cm_state \<Rightarrow> 'w cm_state \<Rightarrow> bool" for T where
  call: "cm_dispatch T orig c s = Inr s' \<Longrightarrow> \<forall>p. c \<noteq> SetCommitteeStakeParams p \<Longrightarrow> cm_work_step T s s'"
| used: "change_used_stake T who v is_add s = Some s' \<Longrightarrow> cm_work_step T s s'"
| review: "change_total_stake T who v is_add True s = Some s1 \<Longrightarrow> change_used_stake T who v is_add s1 = Some s' \<Longrightarrow>
    cm_work_step T s s'"
| release: "change_committee_stake T cs v is_slash s = (s', True) \<Longrightarrow> cm_work_step T s s'"
| reward: "cm_work_step T s (add_reward who v s)"
| ledger: "cm_work_step T s (s\<lparr>cm_world := w\<rparr>)"

section \<open>The lists as one role per member\<close>

datatype role = Normal | Chilled | WaitingPubkey | Fulfilling

definition role_of :: "committee_list \<Rightarrow> account \<Rightarrow> role option" where
  "role_of l a =
     (if a \<in> set (normal l) then Some Normal
      else if a \<in> set (chill_list l) then Some Chilled
      else if a \<in> set (waiting_box_pubkey l) then Some WaitingPubkey
      else if a \<in> set (fulfilling_list l) then Some Fulfilling
      else None)"

definition roles_ok :: "committee_list \<Rightarrow> bool" where
  "roles_ok l \<longleftrightarrow>
     ascending (normal l) \<and> ascending (chill_list l) \<and> ascending (waiting_box_pubkey l) \<and>
     ascending (fulfilling_list l) \<and>
     (\<forall>a \<in> set (normal l). a \<notin> set (chill_list l) \<union> set (waiting_box_pubkey l) \<union> set (fulfilling_list l)) \<and>
     (\<forall>a \<in> set (chill_list l). a \<notin> set (waiting_box_pubkey l) \<union> set (fulfilling_list l)) \<and>
     set (waiting_box_pubkey l) \<inter> set (fulfilling_list l) = {}"

lemma roles_okD:
  assumes "roles_ok l"
  shows "ascending (normal l)" "ascending (chill_list l)" "ascending (waiting_box_pubkey l)"
    "ascending (fulfilling_list l)"
    "a \<in> set (normal l) \<longleftrightarrow> role_of l a = Some Normal"
    "a \<in> set (chill_list l) \<longleftrightarrow> role_of l a = Some Chilled"
    "a \<in> set (waiting_box_pubkey l) \<longleftrightarrow> role_of l a = Some WaitingPubkey"
    "a \<in> set (fulfilling_list l) \<longleftrightarrow> role_of l a = Some Fulfilling"
  using assms unfolding roles_ok_def role_of_def by auto

lemma is_role:
  assumes "roles_ok l"
  shows "is_normal l a \<longleftrightarrow> role_of l a = Some Normal"
    "is_chill l a \<longleftrightarrow> role_of l a = Some Chilled"
    "is_waiting_puk l a \<longleftrightarrow> role_of l a = Some WaitingPubkey"
    "is_fulfilling l a \<longleftrightarrow> role_of l a = Some Fulfilling"
    "is_committee l a \<longleftrightarrow> role_of l a \<noteq> None"
proof -
  note d = roles_okD [OF assms]
  show n: "is_normal l a \<longleftrightarrow> role_of l a = Some Normal"
    and c: "is_chill l a \<longleftrightarrow> role_of l a = Some Chilled"
    and p: "is_waiting_puk l a \<longleftrightarrow> role_of l a = Some WaitingPubkey"
    and f: "is_fulfilling l a \<longleftrightarrow> role_of l a = Some Fulfilling"
    by (simp_all add: is_normal_def is_chill_def is_waiting_puk_def is_fulfilling_def il.member_ok d)
  show "is_committee l a \<longleftrightarrow> role_of l a \<noteq> None"
    unfolding is_committee_def n c p f by (metis not_Some_eq role.exhaust option.discI)
qed

text \<open>
  The six moves of an item between the lists. Each changes the role of one member only and keeps the
  lists disjoint.
\<close>

lemma role_moves:
  assumes "roles_ok l"
  shows "role_of l a = None \<Longrightarrow> l' = l\<lparr>waiting_box_pubkey := add_item a (waiting_box_pubkey l)\<rparr> \<Longrightarrow>
      roles_ok l' \<and> role_of l' = (role_of l)(a \<mapsto> WaitingPubkey)"
    and "role_of l a = Some WaitingPubkey \<Longrightarrow>
      l' = l\<lparr>waiting_box_pubkey := rm_item a (waiting_box_pubkey l), normal := add_item a (normal l)\<rparr> \<Longrightarrow>
      roles_ok l' \<and> role_of l' = (role_of l)(a \<mapsto> Normal)"
    and "role_of l a = Some Fulfilling \<Longrightarrow>
      l' = l\<lparr>fulfilling_list := rm_item a (fulfilling_list l), normal := add_item a (normal l)\<rparr> \<Longrightarrow>
      roles_ok l' \<and> role_of l' = (role_of l)(a \<mapsto> Normal)"
    and "role_of l a = Some Normal \<Longrightarrow>
      l' = l\<lparr>normal := rm_item a (normal l), fulfilling_list := add_item a (fulfilling_list l)\<rparr> \<Longrightarrow>
      roles_ok l' \<and> role_of l' = (role_of l)(a \<mapsto> Fulfilling)"
    and "role_of l a = Some Normal \<or> role_of l a = Some Fulfilling \<Longrightarrow>
      l' = l\<lparr>normal := rm_item a (normal l), fulfilling_list := rm_item a (fulfilling_list l),
        chill_list := add_item a (chill_list l)\<rparr> \<Longrightarrow>
      roles_ok l' \<and> role_of l' = (role_of l)(a \<mapsto> Chilled)"
    and "role_of l a = Some Chilled \<Longrightarrow>
      l' = l\<lparr>chill_list := rm_item a (chill_list l), normal := add_item a (normal l)\<rparr> \<Longrightarrow>
      roles_ok l' \<and> role_of l' = (role_of l)(a \<mapsto> Normal)"
    and "role_of l a = Some Chilled \<Longrightarrow> l' = l\<lparr>chill_list := rm_item a (chill_list l)\<rparr> \<Longrightarrow>
      roles_ok l' \<and> role_of l' = (role_of l)(a := None)"
  using assms
  by (auto simp: roles_ok_def role_of_def fun_eq_iff il.add_ok il.rm_ok split: if_splits)

section \<open>The role machine\<close>

text \<open>
  The contract of the dispatchables, on roles alone: the role after a call as a function of the role of
  the account concerned before it (\<open>None\<close>: the call is refused), where \<open>healthy\<close> says whether its free
  stake is enough.
\<close>

fun role_next :: "cm_call \<Rightarrow> bool \<Rightarrow> role option \<Rightarrow> role option option" where
  "role_next (AddCommittee _) healthy r = (if r = None then Some (Some WaitingPubkey) else None)"
| "role_next (SetBoxPubkey _) healthy r =
     (if r = Some WaitingPubkey \<or> r = Some Normal then Some (Some Normal) else None)"
| "role_next (AddStake _) healthy r =
     (if r = None then None else if r = Some Fulfilling then Some (Some Normal) else Some r)"
| "role_next (ReduceStake _) healthy r = (if r = Some Normal then Some r else None)"
| "role_next Chill healthy r =
     (if r = None \<or> r = Some WaitingPubkey then None else Some (Some Chilled))"
| "role_next UndoChill healthy r =
     (if r = Some Chilled then Some (Some (if healthy then Normal else Fulfilling)) else None)"
| "role_next ExitCommittee healthy r = (if r = Some Chilled then Some None else None)"
| "role_next ClaimReward healthy r = Some r"
| "role_next (SetCommitteeStakeParams _) healthy r = Some r"

definition cm_subject :: "origin \<Rightarrow> cm_call \<Rightarrow> account" where
  "cm_subject orig c =
     (case c of AddCommittee a \<Rightarrow> a
      | _ \<Rightarrow> (case orig of Signed a \<Rightarrow> a | _ \<Rightarrow> 0))"

definition cm_params :: "'w cm_state \<Rightarrow> committee_stake_params" where
  "cm_params s = (case CommitteeStakeParams s of None \<Rightarrow> default_params | Some p \<Rightarrow> p)"

abbreviation healthy :: "'w cm_config \<Rightarrow> 'w cm_state \<Rightarrow> account \<Rightarrow> bool" where
  "healthy T s a \<equiv> free_stake_enough T (cm_params s) (CommitteeStake s a)"

abbreviation roles :: "'w cm_state \<Rightarrow> account \<Rightarrow> role option" where
  "roles s \<equiv> role_of (CommitteeV s)"

definition restatus :: "bool \<Rightarrow> role option \<Rightarrow> role option" where
  "restatus h r =
     (if r = Some Normal \<or> r = Some Fulfilling then Some (if h then Normal else Fulfilling) else r)"

lemma cm_event_frame [simp]:
  "CommitteeV (cm_deposit_event e s) = CommitteeV s" "CommitteeStake (cm_deposit_event e s) = CommitteeStake s"
  "CommitteeStakeParams (cm_deposit_event e s) = CommitteeStakeParams s"
  "cm_world (cm_deposit_event e s) = cm_world s"
  by (simp_all add: cm_deposit_event_def)

lemma cm_params_frame [simp]:
  "cm_params (cm_deposit_event e s) = cm_params s" "cm_params (CommitteeV_update f s) = cm_params s"
  "cm_params (CommitteeStake_update g s) = cm_params s" "cm_params (cm_world_update h s) = cm_params s"
  by (simp_all add: cm_params_def)

lemma status_change:
  assumes "roles_ok l" "do_change_status_when_stake_changed T s a l st = r"
  shows "roles_ok (fst r)"
    "role_of (fst r) = (role_of l)(a := restatus (free_stake_enough T (cm_params s) st) (role_of l a))"
    "\<not> snd r \<Longrightarrow> fst r = l"
proof -
  let ?h = "free_stake_enough T (cm_params s) st"
  have r: "r =
     (if ?h \<and> role_of l a = Some Fulfilling
      then (l\<lparr>fulfilling_list := rm_item a (fulfilling_list l), normal := add_item a (normal l)\<rparr>, True)
      else if \<not> ?h \<and> role_of l a = Some Normal
      then (l\<lparr>normal := rm_item a (normal l), fulfilling_list := add_item a (fulfilling_list l)\<rparr>, True)
      else (l, False))"
    unfolding assms(2) [symmetric] do_change_status_when_stake_changed_def Let_def is_role [OF assms(1)]
      cm_params_def by (rule refl)
  show "roles_ok (fst r)"
    "role_of (fst r) = (role_of l)(a := restatus ?h (role_of l a))"
    using role_moves(3,4) [OF assms(1) _ refl, of a] assms(1) unfolding r restatus_def by auto
  show "\<not> snd r \<Longrightarrow> fst r = l" unfolding r by (auto split: if_splits)
qed

lemma change_used_Some:
  assumes "change_used_stake T a v is_add s = Some s'" "roles_ok (CommitteeV s)"
  obtains u where "checked_change is_add (used_stake (CommitteeStake s a)) v = Some u"
    "CommitteeStake s' = (CommitteeStake s)(a := (CommitteeStake s a)\<lparr>used_stake := u\<rparr>)"
    "roles_ok (CommitteeV s')" "roles s' = (roles s)(a := restatus (healthy T s' a) (roles s a))"
    "cm_world s' = cm_world s" "CommitteeStakeParams s' = CommitteeStakeParams s"
proof -
  from assms(1) obtain u where u: "checked_change is_add (used_stake (CommitteeStake s a)) v = Some u"
    unfolding change_used_stake_def do_change_used_stake_def by (auto split: option.splits)
  define st where "st = (CommitteeStake s a)\<lparr>used_stake := u\<rparr>"
  define r where "r = do_change_status_when_stake_changed T s a (CommitteeV s) st"
  note r = status_change [OF assms(2) r_def [symmetric]]
  have "s' = s\<lparr>CommitteeV := fst r, CommitteeStake := (CommitteeStake s)(a := st)\<rparr>"
    using assms(1) u r(3) unfolding change_used_stake_def do_change_used_stake_def
    by (auto simp: Let_def st_def [symmetric] r_def [symmetric])
  with u r(1,2) show ?thesis by (intro that [OF u]) (simp_all add: st_def)
qed

lemma change_reserved_Some:
  assumes "do_change_reserved T a v is_add change_reserve s = Some s'"
  obtains u where "checked_change is_add (staked_amount (CommitteeStake s a)) v = Some u"
    "CommitteeStake s' = (CommitteeStake s)(a := (CommitteeStake s a)\<lparr>staked_amount := u\<rparr>)"
    "CommitteeV s' = CommitteeV s" "CommitteeStakeParams s' = CommitteeStakeParams s"
    "if change_reserve
     then if is_add then reserve (cm_Currency T) a v (cm_world s) = Some (cm_world s')
          else cm_world s' = fst (unreserve (cm_Currency T) a v (cm_world s))
     else cm_world s' = cm_world s"
  using assms unfolding do_change_reserved_def by (auto split: option.splits if_splits)

lemma check_health:
  assumes "check_stake_health T a v is_add s" "checked_change is_add (staked_amount (CommitteeStake s a)) v = Some u"
  shows "free_stake_enough T (cm_params s) ((CommitteeStake s a)\<lparr>staked_amount := u\<rparr>)"
  using assms unfolding check_stake_health_def cm_params_def by (auto split: option.splits)

section \<open>Effect of a call\<close>

abbreviation cm_reserved :: "'w cm_config \<Rightarrow> 'w cm_state \<Rightarrow> account \<Rightarrow> balance" where
  "cm_reserved T s \<equiv> reserved_balance (cm_Currency T) (cm_world s)"

abbreviation cm_staked :: "'w cm_state \<Rightarrow> account \<Rightarrow> balance" where
  "cm_staked s a \<equiv> staked_amount (CommitteeStake s a)"

text \<open>
  What every dispatchable but the change of the parameters does: it concerns one account only, gives it a
  role, keeps its stake covered by its reserve, and lets it into the working list only with enough free
  stake.
\<close>

definition cm_effect :: "'w cm_config \<Rightarrow> 'w cm_state \<Rightarrow> 'w cm_state \<Rightarrow> account \<Rightarrow> role option \<Rightarrow> bool" where
  "cm_effect T s s' who r \<longleftrightarrow>
     roles_ok (CommitteeV s') \<and> roles s' = (roles s)(who := r) \<and>
     CommitteeStakeParams s' = CommitteeStakeParams s \<and>
     (\<forall>a. a \<noteq> who \<longrightarrow> CommitteeStake s' a = CommitteeStake s a \<and> cm_reserved T s' a = cm_reserved T s a) \<and>
     (r = Some Normal \<longrightarrow> healthy T s' who \<or>
        roles s who = Some Normal \<and> cm_staked s' who = cm_staked s who \<and>
        used_stake (CommitteeStake s' who) = used_stake (CommitteeStake s who)) \<and>
     (cm_staked s who \<le> cm_reserved T s who \<longrightarrow> cm_staked s' who \<le> cm_reserved T s' who)"

lemma cm_params_cong: "CommitteeStakeParams s' = CommitteeStakeParams s \<Longrightarrow> cm_params s' = cm_params s"
  by (simp add: cm_params_def)

text \<open>Changing stake and reserve together, in a state whose lists are then put into place.\<close>

lemma reserved_effect:
  assumes c: "reservable_currency (cm_Currency T)"
    and ch: "do_change_reserved T who v is_add True s = Some s1" and h: "check_stake_health T who v is_add s"
    and s': "CommitteeStakeParams s' = CommitteeStakeParams s1" "cm_world s' = cm_world s1"
      "\<And>a. a \<noteq> who \<Longrightarrow> CommitteeStake s' a = CommitteeStake s1 a"
      "cm_staked s' who = cm_staked s1 who"
      "used_stake (CommitteeStake s' who) = used_stake (CommitteeStake s1 who)"
    and "roles_ok (CommitteeV s')" "roles s' = (roles s)(who := r)"
  shows "cm_effect T s s' who r"
proof -
  from ch obtain u where u: "checked_change is_add (cm_staked s who) v = Some u"
    "CommitteeStake s1 = (CommitteeStake s)(who := (CommitteeStake s who)\<lparr>staked_amount := u\<rparr>)"
    "CommitteeStakeParams s1 = CommitteeStakeParams s"
    "if is_add then reserve (cm_Currency T) who v (cm_world s) = Some (cm_world s1)
     else cm_world s1 = fst (unreserve (cm_Currency T) who v (cm_world s))"
    by (elim change_reserved_Some) (simp split: if_splits)
  have res: "cm_reserved T s' a = (if a = who then
      (if is_add then cm_reserved T s a + v else cm_reserved T s a - v) else cm_reserved T s a)" for a
    using u(4) s'(2) reservable_currency.reserve_reserved [OF c] reservable_currency.unreserve_reserved [OF c]
    by (simp split: if_splits)
  have st: "cm_staked s' who = u" "used_stake (CommitteeStake s' who) = used_stake (CommitteeStake s who)"
    using s'(4,5) u(2) by simp_all
  have "healthy T s' who"
    using check_health [OF h u(1)] st cm_params_cong [of s' s] s'(1) u(3) by (simp add: free_stake_enough_def)
  moreover have "u \<le> cm_reserved T s' who" if "cm_staked s who \<le> cm_reserved T s who"
    using that u(1) by (auto simp: res checked_change_def checked_Some split: if_splits)
  ultimately show ?thesis
    using assms(9,10) s'(1,3) u(2,3) st unfolding cm_effect_def by (simp add: res)
qed

text \<open>A call that moves no money and changes neither stake nor used stake.\<close>

lemma list_effect:
  assumes "CommitteeStakeParams s' = CommitteeStakeParams s" "cm_reserved T s' = cm_reserved T s"
    "\<And>a. a \<noteq> who \<Longrightarrow> CommitteeStake s' a = CommitteeStake s a"
    "cm_staked s' who = cm_staked s who"
    "used_stake (CommitteeStake s' who) = used_stake (CommitteeStake s who)"
    "roles_ok (CommitteeV s')" "roles s' = (roles s)(who := r)"
    "r = Some Normal \<Longrightarrow> healthy T s' who \<or> roles s who = Some Normal"
  shows "cm_effect T s s' who r"
  using assms unfolding cm_effect_def by auto

lemma set_box_effect:
  assumes "committee_set_box_pubkey T (Signed who) k s = Inr s'" "roles_ok (CommitteeV s)"
    "reservable_currency (cm_Currency T)"
  shows "(roles s who = Some WaitingPubkey \<or> roles s who = Some Normal) \<and> cm_effect T s s' who (Some Normal)"
proof (cases "roles s who = Some WaitingPubkey")
  case True
  with assms(1,2) obtain p s1 where p: "CommitteeStakeParams s = Some p"
    "check_stake_health T who (stake_baseline p) True s"
    "do_change_reserved T who (stake_baseline p) True True s = Some s1"
    "s' = cm_deposit_event (CommitteeSetBoxPubkey who k) (cm_deposit_event (StakeAdded who (stake_baseline p))
      (s1\<lparr>CommitteeV := (CommitteeV s)\<lparr>waiting_box_pubkey := rm_item who (waiting_box_pubkey (CommitteeV s)),
            normal := add_item who (normal (CommitteeV s))\<rparr>,
          CommitteeStake := (CommitteeStake s1)(who := (CommitteeStake s1 who)\<lparr>box_pubkey := k\<rparr>)\<rparr>))"
    by (auto simp: committee_set_box_pubkey_def Let_def is_role split: option.splits if_splits)
  have "cm_effect T s s' who (Some Normal)"
    by (rule reserved_effect [OF assms(3) p(3,2)]) (simp_all add: p(4) role_moves(2) [OF assms(2) True refl])
  with True show ?thesis by simp
next
  case False
  with assms(1,2) obtain p where "CommitteeStakeParams s = Some p" and p: "roles s who = Some Normal"
    "s' = cm_deposit_event (CommitteeSetBoxPubkey who k) (cm_deposit_event (StakeAdded who (stake_baseline p))
      (s\<lparr>CommitteeStake := (CommitteeStake s)(who := (CommitteeStake s who)\<lparr>box_pubkey := k\<rparr>)\<rparr>))"
    by (auto simp: committee_set_box_pubkey_def Let_def is_role split: option.splits if_splits)
  have "cm_effect T s s' who (Some Normal)"
    by (rule list_effect) (use p(1) assms(2) in \<open>auto simp: p(2)\<close>)
  with p(1) show ?thesis by simp
qed

lemma add_stake_effect:
  assumes "committee_add_stake T (Signed who) v s = Inr s'" "roles_ok (CommitteeV s)"
    "reservable_currency (cm_Currency T)"
  shows "roles s who \<noteq> None \<and>
    cm_effect T s s' who (if roles s who = Some Fulfilling then Some Normal else roles s who)"
proof -
  from assms(1,2) obtain s1 where p: "check_stake_health T who v True s"
    "do_change_reserved T who v True True s = Some s1" "roles s who \<noteq> None"
    "s' = cm_deposit_event (StakeAdded who v)
      (if roles s who = Some Fulfilling
       then s1\<lparr>CommitteeV := (CommitteeV s)\<lparr>fulfilling_list := rm_item who (fulfilling_list (CommitteeV s)),
         normal := add_item who (normal (CommitteeV s))\<rparr>\<rparr>
       else s1)"
    by (auto simp: committee_add_stake_def Let_def is_role split: option.splits if_splits)
  from p(2) have "CommitteeV s1 = CommitteeV s" by (elim change_reserved_Some) simp
  then have "cm_effect T s s' who (if roles s who = Some Fulfilling then Some Normal else roles s who)"
    by (intro reserved_effect [OF assms(3) p(2,1)])
      (use role_moves(3) [OF assms(2) _ refl, of who] assms(2) in \<open>auto simp: p(4)\<close>)
  with p(3) show ?thesis by simp
qed

lemma reduce_stake_effect:
  assumes "committee_reduce_stake T (Signed who) v s = Inr s'" "roles_ok (CommitteeV s)"
    "reservable_currency (cm_Currency T)"
  shows "roles s who = Some Normal \<and> cm_effect T s s' who (Some Normal)"
proof -
  from assms(1,2) obtain s1 where p: "check_stake_health T who v False s"
    "do_change_reserved T who v False True s = Some s1" "roles s who = Some Normal"
    "s' = cm_deposit_event (StakeReduced who v) s1"
    by (auto simp: committee_reduce_stake_def Let_def is_role split: option.splits if_splits)
  from p(2) have "CommitteeV s1 = CommitteeV s" by (elim change_reserved_Some) simp
  then have "cm_effect T s s' who (Some Normal)"
    by (intro reserved_effect [OF assms(3) p(2,1)]) (use p(3) assms(2) in \<open>auto simp: p(4)\<close>)
  with p(3) show ?thesis by simp
qed

lemma add_committee_effect:
  assumes "add_committee orig who s = Inr s'" "roles_ok (CommitteeV s)"
  shows "orig = Root \<and> roles s who = None \<and> cm_effect T s s' who (Some WaitingPubkey)"
proof -
  from assms have p: "orig = Root" "roles s who = None"
    "s' = cm_deposit_event (CommitteeAdded who) (s\<lparr>CommitteeV :=
      (CommitteeV s)\<lparr>waiting_box_pubkey := add_item who (waiting_box_pubkey (CommitteeV s))\<rparr>\<rparr>)"
    by (auto simp: add_committee_def ensure_root_def Let_def is_role split: if_splits)
  have "cm_effect T s s' who (Some WaitingPubkey)"
    by (rule list_effect) (use role_moves(1) [OF assms(2) p(2) refl] in \<open>auto simp: p(3)\<close>)
  with p show ?thesis by simp
qed

lemma cm_claim_effect:
  assumes "claim_reward T (Signed who) s = Inr s'" "roles_ok (CommitteeV s)"
    "reservable_currency (cm_Currency T)"
  shows "cm_effect T s s' who (roles s who)"
proof -
  from assms(1) obtain w where p:
    "deposit_into_existing (cm_Currency T) who (can_claim_reward (CommitteeStake s who)) (cm_world s) = Some w"
    "cm_world s' = w" "CommitteeV s' = CommitteeV s" "CommitteeStakeParams s' = CommitteeStakeParams s"
    "\<And>a. a \<noteq> who \<Longrightarrow> CommitteeStake s' a = CommitteeStake s a" "cm_staked s' who = cm_staked s who"
    "used_stake (CommitteeStake s' who) = used_stake (CommitteeStake s who)"
    by (auto simp: claim_reward_def Let_def split: option.splits if_splits)
  show ?thesis
    by (rule list_effect)
      (use p reservable_currency.deposit_into_existing_law [OF assms(3) p(1)] assms(2) in auto)
qed

lemma chill_effect:
  assumes "chill (Signed who) s = Inr s'" "roles_ok (CommitteeV s)"
  shows "roles s who \<noteq> None \<and> roles s who \<noteq> Some WaitingPubkey \<and> cm_effect T s s' who (Some Chilled)"
proof (cases "roles s who = Some Chilled")
  case True
  then have "s' = s" using assms by (simp add: chill_def is_role Let_def split: if_splits)
  moreover have "cm_effect T s s who (Some Chilled)"
    by (rule list_effect) (use True assms(2) in auto)
  ultimately show ?thesis using True by simp
next
  case False
  with assms have p: "roles s who \<noteq> None" "roles s who \<noteq> Some WaitingPubkey"
    "s' = cm_deposit_event (ChillEvent who) (s\<lparr>CommitteeV := (CommitteeV s)\<lparr>
      normal := rm_item who (normal (CommitteeV s)), fulfilling_list := rm_item who (fulfilling_list (CommitteeV s)),
      chill_list := add_item who (chill_list (CommitteeV s))\<rparr>\<rparr>)"
    by (auto simp: chill_def is_role Let_def split: if_splits)
  from p(1,2) False have r: "roles s who = Some Normal \<or> roles s who = Some Fulfilling"
    by (cases "the (roles s who)") auto
  have "cm_effect T s s' who (Some Chilled)"
    by (rule list_effect) (use role_moves(5) [OF assms(2) r refl] in \<open>auto simp: p(3)\<close>)
  with p show ?thesis by simp
qed

lemma undo_chill_effect:
  assumes "undo_chill T (Signed who) s = Inr s'" "roles_ok (CommitteeV s)"
  shows "roles s who = Some Chilled \<and>
    cm_effect T s s' who (Some (if healthy T s who then Normal else Fulfilling))"
proof -
  define l where "l = (CommitteeV s)\<lparr>chill_list := rm_item who (chill_list (CommitteeV s)),
    normal := add_item who (normal (CommitteeV s))\<rparr>"
  define r where "r = do_change_status_when_stake_changed T s who l (CommitteeStake s who)"
  from assms have p: "roles s who = Some Chilled"
    "s' = cm_deposit_event (UndoChillEvent who) (s\<lparr>CommitteeV := fst r\<rparr>)"
    unfolding undo_chill_def r_def l_def by (auto simp: is_role Let_def split: if_splits)
  have l: "roles_ok l" "role_of l = (roles s)(who \<mapsto> Normal)"
    using role_moves(6) [OF assms(2) p(1) l_def] by simp_all
  have "cm_effect T s s' who (Some (if healthy T s who then Normal else Fulfilling))"
    by (rule list_effect)
      (use status_change [OF l(1) r_def [symmetric]] l(2) in \<open>auto simp: p(2) restatus_def split: if_splits\<close>)
  with p show ?thesis by simp
qed

lemma exit_effect:
  assumes "exit_committee T (Signed who) s = Inr s'" "roles_ok (CommitteeV s)"
    "reservable_currency (cm_Currency T)"
  shows "roles s who = Some Chilled \<and> cm_effect T s s' who None"
proof -
  from assms have p: "roles s who = Some Chilled"
    "s' = cm_deposit_event (ExitFromCandidacy who)
      (s\<lparr>cm_world := fst (unreserve (cm_Currency T) who (cm_staked s who) (cm_world s)),
         CommitteeStake := (CommitteeStake s)(who := (CommitteeStake s who)\<lparr>staked_amount := 0\<rparr>),
         CommitteeV := (CommitteeV s)\<lparr>chill_list := rm_item who (chill_list (CommitteeV s))\<rparr>\<rparr>)"
    by (auto simp: exit_committee_def is_role Let_def split: if_splits)
  have "cm_effect T s s' who None"
    using role_moves(7) [OF assms(2) p(1) refl] unfolding cm_effect_def
    by (simp add: p(2) reservable_currency.unreserve_reserved [OF assms(3)])
  with p show ?thesis by simp
qed

lemma cm_signed:
  assumes "cm_dispatch T orig c s = Inr s'" "\<forall>p. c \<noteq> SetCommitteeStakeParams p" "\<forall>a. c \<noteq> AddCommittee a"
  obtains who where "orig = Signed who" "cm_subject orig c = who"
  using assms
  by (cases c; cases orig)
    (auto simp: cm_subject_def committee_set_box_pubkey_def committee_add_stake_def committee_reduce_stake_def
      claim_reward_def chill_def undo_chill_def exit_committee_def)

lemma cm_dispatch_effect:
  assumes "cm_dispatch T orig c s = Inr s'" "roles_ok (CommitteeV s)" "reservable_currency (cm_Currency T)"
    "\<forall>p. c \<noteq> SetCommitteeStakeParams p"
  shows "\<exists>r. role_next c (healthy T s (cm_subject orig c)) (roles s (cm_subject orig c)) = Some r \<and>
    cm_effect T s s' (cm_subject orig c) r"
proof (cases "\<exists>a. c = AddCommittee a")
  case True
  then obtain a where c: "c = AddCommittee a" by blast
  with assms(1) have "add_committee orig a s = Inr s'" by simp
  from add_committee_effect [OF this assms(2), of T] show ?thesis by (simp add: c cm_subject_def)
next
  case False
  then obtain who where o: "orig = Signed who" and su: "cm_subject orig c = who"
    using cm_signed [OF assms(1,4)] by blast
  note e = assms(1) [unfolded o] and r = assms(2) and C = assms(3)
  have "\<exists>r. role_next c (healthy T s who) (roles s who) = Some r \<and> cm_effect T s s' who r"
  proof (cases c)
    case (SetBoxPubkey k)
    with e show ?thesis using set_box_effect [OF _ r C, of who k s'] by auto
  next
    case (AddStake v)
    with e show ?thesis using add_stake_effect [OF _ r C, of who v s'] by auto
  next
    case (ReduceStake v)
    with e show ?thesis using reduce_stake_effect [OF _ r C, of who v s'] by auto
  next
    case ClaimReward
    with e show ?thesis using cm_claim_effect [OF _ r C, of who s'] by auto
  next
    case Chill
    with e show ?thesis using chill_effect [OF _ r, of who s' T] by auto
  next
    case UndoChill
    with e show ?thesis using undo_chill_effect [OF _ r, of T who s'] by auto
  next
    case ExitCommittee
    with e show ?thesis using exit_effect [OF _ r C, of who s'] by auto
  qed (use assms(4) False in auto)
  then show ?thesis by (simp add: su)
qed

lemma used_effect:
  assumes "change_used_stake T who v is_add s = Some s'" "roles_ok (CommitteeV s)"
  shows "cm_effect T s s' who (restatus (healthy T s' who) (roles s who))"
  using assms
  by (elim change_used_Some) (auto simp: cm_effect_def restatus_def)

text \<open>The total stake changes without a look at the lists.\<close>

lemma total_frame:
  assumes "change_total_stake T who v is_add change_reserve s = Some s'"
  shows "CommitteeV s' = CommitteeV s" "CommitteeStakeParams s' = CommitteeStakeParams s"
    "a \<noteq> who \<Longrightarrow> CommitteeStake s' a = CommitteeStake s a"
  using assms unfolding change_total_stake_def by (auto elim: change_reserved_Some)

lemma total_backed:
  assumes "reservable_currency (cm_Currency T)" "change_total_stake T who v is_add change_reserve s = Some s'"
    "is_add \<longrightarrow> change_reserve" "\<And>a. cm_staked s a \<le> cm_reserved T s a"
  shows "cm_staked s' a \<le> cm_reserved T s' a"
  using assms(2) unfolding change_total_stake_def
proof (elim change_reserved_Some)
  fix u
  assume u: "checked_change is_add (cm_staked s who) v = Some u"
    "CommitteeStake s' = (CommitteeStake s)(who := (CommitteeStake s who)\<lparr>staked_amount := u\<rparr>)"
    "if change_reserve then if is_add then reserve (cm_Currency T) who v (cm_world s) = Some (cm_world s')
       else cm_world s' = fst (unreserve (cm_Currency T) who v (cm_world s))
     else cm_world s' = cm_world s"
  have "cm_reserved T s' a = (if a = who \<and> change_reserve then
      (if is_add then cm_reserved T s a + v else cm_reserved T s a - v) else cm_reserved T s a)"
    using u(3) reservable_currency.reserve_reserved [OF assms(1)]
      reservable_currency.unreserve_reserved [OF assms(1)] by (simp split: if_splits)
  with u(1,2) assms(3) assms(4) [of a] show ?thesis
    by (auto simp: checked_change_def checked_Some split: if_splits)
qed

section \<open>Runs keep the roles apart and the stakes backed\<close>

abbreviation cm_ok :: "'w cm_config \<Rightarrow> 'w cm_state \<Rightarrow> bool" where
  "cm_ok T s \<equiv> reservable_currency (cm_Currency T) \<and> roles_ok (CommitteeV s)"

lemma effect_backed:
  assumes "cm_effect T s s' who r" "backed cm_staked (cm_reserved T) s"
  shows "roles_ok (CommitteeV s') \<and> backed cm_staked (cm_reserved T) s'"
  using assms unfolding cm_effect_def backed_def by metis

lemma release_backed:
  assumes "change_committee_stake T cs v is_slash s = (s', ok)" "cm_ok T s" "backed cm_staked (cm_reserved T) s"
  shows "roles_ok (CommitteeV s') \<and> backed cm_staked (cm_reserved T) s'"
  using assms
proof (induction cs arbitrary: s)
  case Nil
  then show ?case by simp
next
  case (Cons who cs)
  define t where "t = (if is_slash then change_total_stake T who v False False s else Some s)"
  show ?case
  proof (cases t)
    case None
    with Cons.prems show ?thesis by (simp add: t_def [symmetric])
  next
    case (Some s1)
    then have s1: "cm_ok T s1" "backed cm_staked (cm_reserved T) s1"
      using Cons.prems(2,3) total_frame(1) [of T who v False False s s1]
        total_backed [of T who v False False s s1]
      unfolding t_def backed_def by (auto split: if_splits)
    show ?thesis
    proof (cases "change_used_stake T who v False s1")
      case None
      with Some s1 Cons.prems(1) show ?thesis by (auto simp: t_def [symmetric])
    next
      case (Some s2)
      have s2: "roles_ok (CommitteeV s2) \<and> backed cm_staked (cm_reserved T) s2"
        using effect_backed [OF used_effect [OF Some] s1(2)] s1(1) by simp
      from Some \<open>t = Some s1\<close> Cons.prems(1) have "change_committee_stake T cs v is_slash s2 = (s', ok)"
        by (simp add: t_def [symmetric])
      from Cons.IH [OF this] s2 Cons.prems(2) show ?thesis by simp
    qed
  qed
qed

lemma cm_step_safe:
  assumes "cm_step T s s'" "cm_ok T s" "backed cm_staked (cm_reserved T) s"
  shows "roles_ok (CommitteeV s') \<and> backed cm_staked (cm_reserved T) s'"
  using assms
proof (induction rule: cm_step.induct)
  case (call orig c s s')
  show ?case
  proof (cases "\<exists>p. c = SetCommitteeStakeParams p")
    case True
    with call show ?thesis by (auto simp: set_committee_stake_params_def backed_def split: if_splits)
  next
    case False
    with call cm_dispatch_effect [of T orig c s s'] obtain r where "cm_effect T s s' (cm_subject orig c) r"
      by blast
    from effect_backed [OF this call.prems(2)] show ?thesis .
  qed
next
  case (used who v is_add s s')
  then show ?case using effect_backed [OF used_effect [OF used.hyps]] by simp
next
  case (total who v is_add change_reserve s s')
  then show ?case
    using total_frame(1) [OF total.hyps(1)] total_backed [OF _ total.hyps] by (simp add: backed_def)
next
  case (release cs v is_slash s s' ok)
  then show ?case by (rule release_backed)
next
  case (reward s who v)
  then show ?case by (simp add: add_reward_def backed_def)
next
  case (deferred_slash s who v)
  then show ?case
    by (auto simp: backed_def reservable_currency.slash_reserved_reserved)
next
  case (environment s w)
  then show ?case by (auto simp: backed_def intro: order_trans)
qed

interpretation cme: safe_pallet "cm_step T" "cm_ok T" cm_staked "cm_reserved T"
proof unfold_locales
  fix s s'
  assume st: "cm_step T s s'" "cm_ok T s" "backed cm_staked (cm_reserved T) s"
  from cm_step_safe [OF st] st(2) show "cm_ok T s'" "backed cm_staked (cm_reserved T) s'" by simp_all
qed

lemma cm_reachable:
  assumes "reservable_currency (cm_Currency T)" "(cm_step T)\<^sup>*\<^sup>* (cm_init w) s"
  shows "roles_ok (CommitteeV s)" "cm_staked s a \<le> cm_reserved T s a"
proof -
  have "cm_ok T (cm_init w)" "backed cm_staked (cm_reserved T) (cm_init w)"
    using assms(1) by (simp_all add: cm_init_def backed_def roles_ok_def default_list_def default_stake_def)
  from cme.run_backed [OF assms(2) this] show "roles_ok (CommitteeV s)" "cm_staked s a \<le> cm_reserved T s a"
    by (simp_all add: backed_def)
qed

section \<open>Who is given work\<close>

definition workers_healthy :: "'w cm_config \<Rightarrow> 'w cm_state \<Rightarrow> bool" where
  "workers_healthy T s \<longleftrightarrow> (\<forall>a. roles s a = Some Normal \<longrightarrow> healthy T s a)"

lemma effect_healthy:
  assumes "cm_effect T s s' who r" "workers_healthy T s"
  shows "roles_ok (CommitteeV s') \<and> workers_healthy T s'"
proof -
  have "healthy T s' a" if "roles s' a = Some Normal" for a
    using assms that cm_params_cong [of s' s] unfolding cm_effect_def workers_healthy_def free_stake_enough_def
    by (cases "a = who") auto
  with assms(1) show ?thesis unfolding cm_effect_def workers_healthy_def by blast
qed

text \<open>A change of the total stake followed by one of the used stake of the same member.\<close>

lemma total_used_healthy:
  assumes "change_total_stake T who v is_add b s = Some s1" "change_used_stake T who v d s1 = Some s'"
    "roles_ok (CommitteeV s)" "workers_healthy T s"
  shows "roles_ok (CommitteeV s') \<and> workers_healthy T s'"
proof -
  note f = total_frame [OF assms(1)]
  obtain u where u: "CommitteeStake s' = (CommitteeStake s1)(who := (CommitteeStake s1 who)\<lparr>used_stake := u\<rparr>)"
    "roles_ok (CommitteeV s')" "roles s' = (roles s1)(who := restatus (healthy T s' who) (roles s1 who))"
    "CommitteeStakeParams s' = CommitteeStakeParams s1"
    using change_used_Some [OF assms(2)] assms(3) f(1) by auto
  have "healthy T s' a" if "roles s' a = Some Normal" for a
  proof (cases "a = who")
    case True
    with that u(3) show ?thesis by (auto simp: restatus_def split: if_splits)
  next
    case False
    with that u f assms(4) cm_params_cong [of s' s] show ?thesis by (simp add: workers_healthy_def)
  qed
  with u(2) show ?thesis by (simp add: workers_healthy_def)
qed

lemma release_healthy:
  assumes "change_committee_stake T cs v is_slash s = (s', True)" "roles_ok (CommitteeV s)" "workers_healthy T s"
  shows "roles_ok (CommitteeV s') \<and> workers_healthy T s'"
  using assms
proof (induction cs arbitrary: s)
  case Nil
  then show ?case by simp
next
  case (Cons who cs)
  from Cons.prems(1) obtain s1 s2 where
    t: "(if is_slash then change_total_stake T who v False False s else Some s) = Some s1"
    and s2: "change_used_stake T who v False s1 = Some s2"
    and r: "change_committee_stake T cs v is_slash s2 = (s', True)"
    by (auto split: option.splits)
  have "roles_ok (CommitteeV s2) \<and> workers_healthy T s2"
    using t s2 Cons.prems(2,3) effect_healthy [OF used_effect [OF s2]] total_used_healthy [OF _ s2]
    by (cases is_slash) auto
  with Cons.IH [OF r] show ?case by blast
qed

lemma cm_work_step_healthy:
  assumes "cm_work_step T s s'" "cm_ok T s" "workers_healthy T s"
  shows "cm_ok T s' \<and> workers_healthy T s'"
  using assms
proof (induction rule: cm_work_step.induct)
  case (call orig c s s')
  then obtain r where "cm_effect T s s' (cm_subject orig c) r" using cm_dispatch_effect [of T orig c s s'] by blast
  from effect_healthy [OF this] call.prems show ?case by simp
next
  case (used who v is_add s s')
  then show ?case using effect_healthy [OF used_effect [OF used.hyps]] by simp
next
  case (review who v is_add s s1 s')
  then show ?case using total_used_healthy [OF review.hyps] by simp
next
  case (release cs v is_slash s s')
  then show ?case using release_healthy [OF release.hyps] by simp
next
  case (reward s who v)
  then show ?case by (simp add: add_reward_def workers_healthy_def free_stake_enough_def)
next
  case (ledger s w)
  then show ?case by (simp add: workers_healthy_def)
qed

lemma cm_work_run_healthy:
  assumes "(cm_work_step T)\<^sup>*\<^sup>* s s'" "cm_ok T s" "workers_healthy T s"
  shows "cm_ok T s' \<and> workers_healthy T s'"
  using assms
proof (induction rule: rtranclp_induct)
  case (step t u)
  then show ?case using cm_work_step_healthy [OF step.hyps(2)] by simp
qed simp

section \<open>A sample run\<close>

definition cm_demo :: "ledger cm_config" where
  "cm_demo = \<lparr>cm_Currency = ledger_ops, cm_Perthing = perthing_ops_ref\<rparr>"

definition cm_demo_start :: "ledger cm_state" where
  "cm_demo_start = cm_init \<lparr>ledger_free = (\<lambda>_. 50000), ledger_reserved = (\<lambda>_. 0)\<rparr>"

definition cm_demo_params :: committee_stake_params where
  "cm_demo_params =
     \<lparr>stake_baseline = 20000, stake_per_order_param = 1000, min_free_stake_percent = 400000000\<rparr>"

text \<open>Two members join, one of them stakes and sets its key, and stops taking work.\<close>

definition cm_demo_calls :: "(origin \<times> cm_call) list" where
  "cm_demo_calls =
     [(Root, SetCommitteeStakeParams cm_demo_params), (Root, AddCommittee 5), (Root, AddCommittee 3),
      (Signed 5, SetBoxPubkey [])]"

lemmas cm_defs = set_committee_stake_params_def add_committee_def committee_set_box_pubkey_def chill_def
  undo_chill_def exit_committee_def check_stake_health_def do_change_reserved_def free_stake_enough_def
  checked_change_def do_change_status_when_stake_changed_def is_committee_def is_normal_def is_chill_def
  is_waiting_puk_def is_fulfilling_def cm_deposit_event_def

lemmas cm_demo_defs = cm_demo_def cm_demo_start_def cm_demo_params_def cm_demo_calls_def cm_init_def
  default_list_def default_stake_def default_params_def

lemma cm_run_steps: "cm_run T cs s = Inr s' \<Longrightarrow> (cm_step T)\<^sup>*\<^sup>* s s'"
proof (induction cs arbitrary: s)
  case Nil
  then show ?case by simp
next
  case (Cons c cs)
  then obtain s1 where "cm_dispatch T (fst c) (snd c) s = Inr s1" "cm_run T cs s1 = Inr s'"
    by (cases c) (auto split: sum.splits)
  then show ?case using Cons.IH by (meson cm_step.call converse_rtranclp_into_rtranclp)
qed

definition cm_demo_end :: "ledger cm_state" where
  "cm_demo_end =
     \<lparr>CommitteeV = \<lparr>normal = [5], chill_list = [], waiting_box_pubkey = [3], fulfilling_list = []\<rparr>,
      CommitteeStakeParams = Some cm_demo_params,
      CommitteeStake = (\<lambda>_. default_stake)(5 := default_stake\<lparr>staked_amount := 20000, box_pubkey := []\<rparr>),
      cm_events = [CommitteeAdded 5, CommitteeAdded 3, StakeAdded 5 20000, CommitteeSetBoxPubkey 5 []],
      cm_world = \<lparr>ledger_free = (\<lambda>_. 50000)(5 := 30000), ledger_reserved = (\<lambda>_. 0)(5 := 20000)\<rparr>\<rparr>"

lemma cm_demo_run: "cm_run cm_demo cm_demo_calls cm_demo_start = Inr cm_demo_end"
  unfolding cm_demo_end_def
  by (simp add: cm_demo_defs cm_defs list_defs ledger_defs perthing_ops_ref_sel int_ops ensure_root_def
      cong: let_weak_cong)

lemma cm_demo_reach: "(cm_step cm_demo)\<^sup>*\<^sup>* cm_demo_start cm_demo_end"
  by (rule cm_run_steps [OF cm_demo_run])

lemma cm_demo_currency: "reservable_currency (cm_Currency cm_demo)"
  by (simp add: cm_demo_def ledger.reservable_currency_axioms)

section \<open>Properties\<close>

text \<open>
  C18: The four sorted lists of the committee pallet implement one role per account. In every reachable
  state, a dispatchable that succeeds changes the role of one account only, the one it is about, and
  exactly as the role machine \<open>role_next\<close> says; the four lists stay strictly ascending and disjoint.
\<close>
theorem cm_roles_refine:
  assumes "reservable_currency (cm_Currency T)" "(cm_step T)\<^sup>*\<^sup>* (cm_init w) s"
    "cm_dispatch T orig c s = Inr s'"
  shows "roles_ok (CommitteeV s') \<and>
    (\<exists>r. role_next c (free_stake_enough T (cm_params s) (CommitteeStake s (cm_subject orig c)))
           (role_of (CommitteeV s) (cm_subject orig c)) = Some r \<and>
         role_of (CommitteeV s') = (role_of (CommitteeV s))(cm_subject orig c := r))"
proof -
  note r = cm_reachable(1) [OF assms(1,2)]
  show ?thesis
  proof (cases "\<exists>p. c = SetCommitteeStakeParams p")
    case True
    with r assms(3) show ?thesis by (auto simp: set_committee_stake_params_def split: if_splits)
  next
    case False
    with cm_dispatch_effect [OF assms(3) r assms(1)] show ?thesis unfolding cm_effect_def by blast
  qed
qed

theorem cm_roles_refine_witness:
  "\<exists>s' r. cm_dispatch cm_demo (Signed 5) Chill cm_demo_end = Inr s' \<and> roles_ok (CommitteeV s') \<and>
     role_next Chill (free_stake_enough cm_demo (cm_params cm_demo_end)
       (CommitteeStake cm_demo_end (cm_subject (Signed 5) Chill)))
       (role_of (CommitteeV cm_demo_end) (cm_subject (Signed 5) Chill)) = Some r \<and>
     role_of (CommitteeV s') = (role_of (CommitteeV cm_demo_end))(cm_subject (Signed 5) Chill := r)"
proof -
  have "\<exists>s'. cm_dispatch cm_demo (Signed 5) Chill cm_demo_end = Inr s'"
    unfolding cm_demo_end_def by (simp add: cm_defs list_defs)
  then obtain s' where "cm_dispatch cm_demo (Signed 5) Chill cm_demo_end = Inr s'" by blast
  with cm_roles_refine [OF cm_demo_currency cm_demo_reach [unfolded cm_demo_start_def] this] show ?thesis by blast
qed




lemma cm_demo_roles: "role_of (CommitteeV cm_demo_end) = Map.empty(3 \<mapsto> WaitingPubkey, 5 \<mapsto> Normal)"
  by (simp add: cm_demo_end_def role_of_def fun_eq_iff)

lemma cm_demo_healthy: "workers_healthy cm_demo cm_demo_end"
  unfolding workers_healthy_def cm_demo_roles
  by (simp add: cm_demo_end_def cm_params_def free_stake_enough_def cm_demo_params_def cm_demo_def
      perthing_ops_ref_sel default_stake_def saturating_sub_def)


text \<open>
  Leaving the committee pays out the whole stake. In a reachable state, \<open>exit_committee\<close> succeeds only
  for a chilled member without open orders; it moves exactly the recorded stake from the member's reserve
  to the free balance, changes no other account's balances, clears the stake, and the member has no role
  afterwards, so that a second exit is refused.
\<close>
lemma cm_exit_pays_out:
  assumes "reservable_currency (cm_Currency T)" "(cm_step T)\<^sup>*\<^sup>* (cm_init w) s"
    "exit_committee T (Signed who) s = Inr s'"
  shows "used_stake (CommitteeStake s who) = 0 \<and> role_of (CommitteeV s) who = Some Chilled \<and>
    free_balance (cm_Currency T) (cm_world s') = (free_balance (cm_Currency T) (cm_world s))
      (who := free_balance (cm_Currency T) (cm_world s) who + staked_amount (CommitteeStake s who)) \<and>
    reserved_balance (cm_Currency T) (cm_world s') = (reserved_balance (cm_Currency T) (cm_world s))
      (who := reserved_balance (cm_Currency T) (cm_world s) who - staked_amount (CommitteeStake s who)) \<and>
    staked_amount (CommitteeStake s' who) = 0 \<and> role_of (CommitteeV s') who = None \<and>
    exit_committee T (Signed who) s' = Inl StatusNotFeat"
proof -
  note r = cm_reachable [OF assms(1,2)]
  have e: "role_of (CommitteeV s) who = Some Chilled" "cm_effect T s s' who None"
    using exit_effect [OF assms(3) r(1) assms(1)] by simp_all
  have u: "used_stake (CommitteeStake s who) = 0"
    and w: "cm_world s' = fst (unreserve (cm_Currency T) who (cm_staked s who) (cm_world s))"
    and st: "CommitteeStake s' who = (CommitteeStake s who)\<lparr>staked_amount := 0\<rparr>"
    using assms(3) by (auto simp: exit_committee_def Let_def split: if_splits)
  have n: "role_of (CommitteeV s') who = None" "roles_ok (CommitteeV s')"
    using e(2) by (simp_all add: cm_effect_def)
  then have "exit_committee T (Signed who) s' = Inl StatusNotFeat"
    using u st by (simp add: exit_committee_def Let_def is_role)
  with u e(1) st n(1) show ?thesis
    using r(2) [of who] unfolding w fun_eq_iff
    by (simp add: reservable_currency.unreserve_free [OF assms(1)]
        reservable_currency.unreserve_reserved [OF assms(1)] min_def)
qed

lemma cm_exit_pays_out_witness:
  "\<exists>s s'. chill (Signed 5) cm_demo_end = Inr s \<and> exit_committee cm_demo (Signed 5) s = Inr s' \<and>
     staked_amount (CommitteeStake s 5) = 20000 \<and>
     free_balance (cm_Currency cm_demo) (cm_world s') 5 = 50000 \<and> role_of (CommitteeV s') 5 = None \<and>
     exit_committee cm_demo (Signed 5) s' = Inl StatusNotFeat"
proof -
  have "\<exists>s s'. chill (Signed 5) cm_demo_end = Inr s \<and> exit_committee cm_demo (Signed 5) s = Inr s' \<and>
      cm_staked s 5 = 20000 \<and> cm_world s = cm_world cm_demo_end"
    unfolding cm_demo_end_def by (simp add: cm_defs list_defs cm_demo_defs)
  then obtain s s' where s: "chill (Signed 5) cm_demo_end = Inr s" "exit_committee cm_demo (Signed 5) s = Inr s'"
    "cm_staked s 5 = 20000" "cm_world s = cm_world cm_demo_end" by blast
  have "cm_step cm_demo cm_demo_end s"
    by (rule cm_step.call [where orig = "Signed 5" and c = Chill]) (simp add: s(1))
  with cm_demo_reach have "(cm_step cm_demo)\<^sup>*\<^sup>* cm_demo_start s" by (rule rtranclp.rtrancl_into_rtrancl)
  from cm_exit_pays_out [OF cm_demo_currency this [unfolded cm_demo_start_def] s(2)]
  have "free_balance (cm_Currency cm_demo) (cm_world s') 5 = 50000" "role_of (CommitteeV s') 5 = None"
    "exit_committee cm_demo (Signed 5) s' = Inl StatusNotFeat"
    by (simp_all add: s(3,4)) (simp add: cm_demo_end_def cm_demo_def ledger_defs)
  with s show ?thesis by blast
qed

end
