(* ===== verification/Chain_Ledger.thy ===== *)
theory Chain_Ledger
  imports Online_Profile Committee
begin

text \<open>
  The pallets on one ledger, for the witnesses of the pallets of the committee: generic-func and the pallet
  committee on the balances, online-profile on the committee.
\<close>

section \<open>The configuration\<close>

definition over_cm :: "('w \<Rightarrow> 'a \<times> 'w) \<Rightarrow> 'w cm_state \<Rightarrow> 'a \<times> 'w cm_state" where
  "over_cm f s = (let (a, w) = f (cm_world s) in (a, s\<lparr>cm_world := w\<rparr>))"

definition cm_slash_and_reward ::
    "account list \<Rightarrow> balance \<Rightarrow> account list \<Rightarrow> ledger gf_state cm_state \<Rightarrow> ledger gf_state cm_state \<times> bool" where
  "cm_slash_and_reward who v reward s =
     (let (w, ok) = gf_slash_and_reward gf_ledger who v reward (cm_world s) in (s\<lparr>cm_world := w\<rparr>, ok))"

definition chain_op :: "ledger gf_state cm_state op_config" where
  "chain_op =
     \<lparr>op_Currency = lift_currency cm_world (\<lambda>w. cm_world_update (\<lambda>_. w)) (gf_currency gf_ledger),
      op_Perthing = perthing_ops_ref,
      op_DbcPrice = \<lparr>price_of = (\<lambda>_. Some 1000), amount_by_value = (\<lambda>_ v. Some (v * 10))\<rparr>,
      op_add_reward = add_reward, op_SlashAndReward = cm_slash_and_reward,
      op_pay_fixed_tx_fee = (\<lambda>a s. map_option (\<lambda>w. s\<lparr>cm_world := w\<rparr>) (pay_fixed_tx_fee gf_ledger a (cm_world s))),
      op_random_server_room = over_cm (random_server_room gf_ledger),
      op_CancelSlashOrigin = ensure_root, op_bs58_decode = (\<lambda>b. Some (take 35 b)),
      op_account_of = (\<lambda>b. unat (hd b)), op_sr25519_verify = (\<lambda>_ _ _. True),
      op_stash_iter = (\<lambda>f. filter (\<lambda>a. f a \<noteq> None) [0..<100])\<rparr>"

definition chain_cm :: "ledger gf_state cm_config" where
  "chain_cm = \<lparr>cm_Currency = gf_currency gf_ledger, cm_Perthing = perthing_ops_ref\<rparr>"

lemma chain_sel:
  "op_Currency chain_op = lift_currency cm_world (\<lambda>w. cm_world_update (\<lambda>_. w)) (gf_currency gf_ledger)"
  "op_Perthing chain_op = perthing_ops_ref" "op_SlashAndReward chain_op = cm_slash_and_reward"
  "op_add_reward chain_op = add_reward"
  "op_pay_fixed_tx_fee chain_op = (\<lambda>a s. map_option (\<lambda>w. s\<lparr>cm_world := w\<rparr>) (pay_fixed_tx_fee gf_ledger a (cm_world s)))"
  "cm_Currency chain_cm = gf_currency gf_ledger" "cm_Perthing chain_cm = perthing_ops_ref"
  by (simp_all add: chain_op_def chain_cm_def)

section \<open>Its slashes\<close>

lemma reward_loop_Some: "reward_loop C a e cs l w \<noteq> (w1, None)"
  by (induction cs arbitrary: l w) (auto simp: Let_def checked_sub_def)

lemma slash_all_and_reward_ok: "snd (slash_all_and_reward G as v reward w)"
  by (induction as arbitrary: w) (auto simp: Let_def reward_loop_Some split: prod.splits option.splits)

lemma cm_slash_and_reward_ok: "snd (cm_slash_and_reward who v reward s)"
  by (simp add: cm_slash_and_reward_def gf_slash_and_reward_def slash_and_reward_def slash_all_and_reward_ok split_beta Let_def)

section \<open>A committee\<close>

text \<open>The members 2, 3 and 4 are available, each with a stake of 1000.\<close>

definition demo_committee :: "ledger gf_state cm_state" where
  "demo_committee =
     (cm_init \<lparr>gf_world = \<lparr>ledger_free = (\<lambda>_. 5000), ledger_reserved = (\<lambda>_. 1000)\<rparr>, RandNonce = 0, FixedTxFee = Some 10,
        DestroyHook = None, TotalDestroy = (\<lambda>_. 0), gf_events = []\<rparr>)
       \<lparr>CommitteeV := default_list\<lparr>normal := [2, 3, 4]\<rparr>,
        CommitteeStakeParams := Some \<lparr>stake_baseline = 500, stake_per_order_param = 100, min_free_stake_percent = 0\<rparr>,
        CommitteeStake := (\<lambda>_. default_stake\<lparr>committee_stake.staked_amount := 1000\<rparr>)\<rparr>"

end
