(* ===== verification/Verify_Online.thy ===== *)
theory Verify_Online
  imports Machine_Types
begin

text \<open>
  The data with which committees verify a machine (\<open>pallets/support/src/verify_online.rs\<close>,
  \<open>verify_committee_slash.rs\<close>) and how their submissions are summarised (\<open>OnlineCommitteeSummary\<close> of
  \<open>pallets/support/src/utils.rs\<close>). The property says that the summary is the strict majority vote.
\<close>

section \<open>Data\<close>

definition SUBMIT_RAW_START :: nat where "SUBMIT_RAW_START = 36 * ONE_HOUR"
definition SUBMIT_RAW_END :: nat where "SUBMIT_RAW_END = 48 * ONE_HOUR"
definition SUBMIT_HASH_END :: nat where "SUBMIT_HASH_END = 36 * ONE_HOUR"

lemmas submit_times = SUBMIT_RAW_START_def SUBMIT_RAW_END_def SUBMIT_HASH_END_def time_defs

datatype verify_err =
    NotInBookList_err | TimeNotAllow_err | AlreadySubmitHash_err | AlreadySubmitRaw_err | NotSubmitHash_err
  | Overflow_err

datatype verify_result = Confirmed | Refused | NoConsensus

record summary =
  valid_vote :: "account list"
  invalid_vote :: "account list"
  unruly :: "account list"
  summary_info :: "committee_upload_info option"
  verify_result :: verify_result

definition default_summary :: summary where
  "default_summary = \<lparr>valid_vote = [], invalid_vote = [], unruly = [], summary_info = None, verify_result = Confirmed\<rparr>"

definition should_slash_committee :: "summary \<Rightarrow> bool" where
  "should_slash_committee s =
     (if unruly s \<noteq> [] then True
      else case verify_result s of
          NoConsensus \<Rightarrow> False
        | _ \<Rightarrow> invalid_vote s \<noteq> [])"

datatype oc_book_result_type = OnlineSucceed | OnlineRefused | BookNoConsensus

definition into_book_result :: "summary \<Rightarrow> oc_book_result_type" where
  "into_book_result s =
     (case verify_result s of Confirmed \<Rightarrow> OnlineSucceed | Refused \<Rightarrow> OnlineRefused | NoConsensus \<Rightarrow> BookNoConsensus)"

definition is_refused :: "summary \<Rightarrow> bool" where
  "is_refused s \<longleftrightarrow> verify_result s = Refused"

datatype oc_verify_status = SubmittingHash | SubmittingRaw | Summarizing | Finished

datatype oc_machine_status = Booked | Hashed | OpsConfirmed

section \<open>What one committee did for a machine\<close>

record oc_committee_ops =
  staked_dbc :: balance
  verify_time :: "block_number list"
  confirm_hash :: bytes
  hash_time :: block_number
  confirm_time :: block_number
  ops_status :: oc_machine_status
  ops_info :: committee_upload_info

definition default_ops :: oc_committee_ops where
  "default_ops =
     \<lparr>staked_dbc = 0, verify_time = [], confirm_hash = replicate 16 0, hash_time = 0, confirm_time = 0,
      ops_status = Booked, ops_info = default_upload\<rparr>"

definition ops_submit_hash :: "block_number \<Rightarrow> bytes \<Rightarrow> oc_committee_ops \<Rightarrow> oc_committee_ops" where
  "ops_submit_hash time hash ops = ops\<lparr>ops_status := Hashed, confirm_hash := hash, hash_time := time\<rparr>"

definition ops_submit_raw :: "block_number \<Rightarrow> committee_upload_info \<Rightarrow> oc_committee_ops \<Rightarrow> oc_committee_ops" where
  "ops_submit_raw time i ops =
     ops\<lparr>confirm_time := time, ops_status := OpsConfirmed, ops_info := i\<lparr>rand_str := []\<rparr>\<rparr>"

section \<open>The machines of a committee\<close>

record oc_committee_machine_list =
  cm_booked_machine :: "machine_id list"
  cm_hashed_machine :: "machine_id list"
  cm_confirmed_machine :: "machine_id list"
  cm_online_machine :: "machine_id list"

definition default_committee_machine :: oc_committee_machine_list where
  "default_committee_machine =
     \<lparr>cm_booked_machine = [], cm_hashed_machine = [], cm_confirmed_machine = [], cm_online_machine = []\<rparr>"

definition cml_submit_hash :: "machine_id \<Rightarrow> oc_committee_machine_list \<Rightarrow> oc_committee_machine_list" where
  "cml_submit_hash m l =
     l\<lparr>cm_booked_machine := rm_item m (cm_booked_machine l), cm_hashed_machine := add_item m (cm_hashed_machine l)\<rparr>"

definition cml_submit_raw :: "machine_id \<Rightarrow> oc_committee_machine_list \<Rightarrow> verify_err + oc_committee_machine_list" where
  "cml_submit_raw m l =
     (if \<not> is_ok (binary_search m (cm_hashed_machine l)) then Inl NotSubmitHash_err
      else if is_ok (binary_search m (cm_confirmed_machine l)) then Inl AlreadySubmitRaw_err
      else Inr (l\<lparr>cm_hashed_machine := rm_item m (cm_hashed_machine l),
                  cm_confirmed_machine := add_item m (cm_confirmed_machine l)\<rparr>))"

definition cml_revert_book :: "machine_id \<Rightarrow> oc_committee_machine_list \<Rightarrow> oc_committee_machine_list" where
  "cml_revert_book m l =
     l\<lparr>cm_booked_machine := rm_item m (cm_booked_machine l), cm_hashed_machine := rm_item m (cm_hashed_machine l),
       cm_confirmed_machine := rm_item m (cm_confirmed_machine l)\<rparr>"

definition online_cleanup :: "machine_id \<Rightarrow> oc_committee_machine_list \<Rightarrow> oc_committee_machine_list" where
  "online_cleanup m l =
     l\<lparr>cm_booked_machine := rm_item m (cm_booked_machine l), cm_hashed_machine := rm_item m (cm_hashed_machine l),
       cm_confirmed_machine := rm_item m (cm_confirmed_machine l)\<rparr>"

section \<open>The committees of a machine\<close>

record oc_machine_committee_list =
  book_time :: block_number
  booked_committee :: "account list"
  hashed_committee :: "account list"
  confirm_start_time :: block_number
  confirmed_committee :: "account list"
  onlined_committee :: "account list"
  oc_status :: oc_verify_status

definition default_machine_committee :: oc_machine_committee_list where
  "default_machine_committee =
     \<lparr>book_time = 0, booked_committee = [], hashed_committee = [], confirm_start_time = 0, confirmed_committee = [],
      onlined_committee = [], oc_status = SubmittingHash\<rparr>"

definition submit_hash_end :: "block_number \<Rightarrow> oc_machine_committee_list \<Rightarrow> bool" where
  "submit_hash_end now c \<longleftrightarrow> wrapping_add 32 (book_time c) SUBMIT_HASH_END \<le> now"

definition submit_raw_end :: "block_number \<Rightarrow> oc_machine_committee_list \<Rightarrow> bool" where
  "submit_raw_end now c \<longleftrightarrow> wrapping_add 32 (book_time c) SUBMIT_RAW_END \<le> now"

definition mcl_submit_hash :: "account \<Rightarrow> oc_machine_committee_list \<Rightarrow> verify_err + oc_machine_committee_list" where
  "mcl_submit_hash who c =
     (if \<not> is_ok (binary_search who (booked_committee c)) then Inl NotInBookList_err
      else if is_ok (binary_search who (hashed_committee c)) then Inl AlreadySubmitHash_err
      else let c1 = c\<lparr>hashed_committee := add_item who (hashed_committee c)\<rparr>
           in Inr (if length (booked_committee c1) = length (hashed_committee c1)
                   then c1\<lparr>oc_status := SubmittingRaw\<rparr> else c1))"

definition can_submit_raw :: "block_number \<Rightarrow> oc_machine_committee_list \<Rightarrow> bool" where
  "can_submit_raw now c \<longleftrightarrow> oc_status c = SubmittingHash \<and> wrapping_add 32 (book_time c) SUBMIT_RAW_START \<le> now"

definition mcl_submit_raw ::
    "block_number \<Rightarrow> account \<Rightarrow> oc_machine_committee_list \<Rightarrow> verify_err + oc_machine_committee_list" where
  "mcl_submit_raw time who c =
     (if oc_status c \<noteq> SubmittingRaw \<and>
         (time < confirm_start_time c \<or> wrapping_add 32 (book_time c) SUBMIT_RAW_END < time)
      then Inl TimeNotAllow_err
      else if \<not> is_ok (binary_search who (hashed_committee c)) then Inl NotSubmitHash_err
      else let c1 = c\<lparr>confirmed_committee := add_item who (confirmed_committee c)\<rparr>
           in Inr (if length (confirmed_committee c1) = length (hashed_committee c1)
                   then c1\<lparr>oc_status := Summarizing\<rparr> else c1))"

definition can_summary :: "block_number \<Rightarrow> oc_machine_committee_list \<Rightarrow> bool" where
  "can_summary now c \<longleftrightarrow>
     oc_status c = Summarizing \<or>
     oc_status c = SubmittingRaw \<and> wrapping_add 32 (book_time c) SUBMIT_RAW_END \<le> now"

fun unruly_loop :: "account list \<Rightarrow> account list \<Rightarrow> account list \<Rightarrow> account list" where
  "unruly_loop confirmed [] out = out"
| "unruly_loop confirmed (a # as) out =
     unruly_loop confirmed as (if \<not> is_ok (binary_search a confirmed) then add_item a out else out)"

definition summary_unruly :: "oc_machine_committee_list \<Rightarrow> account list" where
  "summary_unruly c = unruly_loop (confirmed_committee c) (booked_committee c) []"

definition after_summary :: "summary \<Rightarrow> oc_machine_committee_list \<Rightarrow> oc_machine_committee_list" where
  "after_summary s c =
     (case verify_result s of
        Confirmed \<Rightarrow> c\<lparr>oc_status := Finished, onlined_committee := valid_vote s\<rparr>
      | NoConsensus \<Rightarrow> c
      | Refused \<Rightarrow> c\<lparr>oc_status := Finished\<rparr>)"

record verify_sequence =
  seq_who :: account
  seq_index :: "nat list"

section \<open>The summary\<close>

text \<open>A submission against the machine counts as nothing but that.\<close>

definition normal_info :: "committee_upload_info \<Rightarrow> committee_upload_info" where
  "normal_info i = (if is_support i then i else default_upload\<lparr>is_support := False\<rparr>)"

text \<open>
  The least submission is the greatest one when all are equal, and the set of submissions has as many elements
  as their list when they are pairwise different.
\<close>

definition summary_confirmation :: "oc_machine_committee_list \<Rightarrow> committee_upload_info list \<Rightarrow> summary" where
  "summary_confirmation c committee_submit_info =
     (let submit_info = map normal_info committee_submit_info;
          confirmed = confirmed_committee c;
          s = default_summary\<lparr>unruly := summary_unruly c\<rparr>
      in if confirmed = [] then s\<lparr>verify_result := NoConsensus\<rparr>
         else if list_all (\<lambda>i. i = hd submit_info) submit_info
         then let i = submit_info ! 0 in
           if is_support i then s\<lparr>summary_info := Some i, valid_vote := confirmed, verify_result := Confirmed\<rparr>
           else s\<lparr>valid_vote := confirmed, verify_result := Refused\<rparr>
         else if distinct submit_info
         then s\<lparr>invalid_vote := confirmed, verify_result := NoConsensus\<rparr>
         else
           let (valid_1, valid_2, invalid) =
                 (if submit_info ! 0 = submit_info ! 1 then (0, 1, 2)
                  else if submit_info ! 0 = submit_info ! 2 then (0, 2, 1)
                  else (1, 2, 0));
               s1 = s\<lparr>invalid_vote := [confirmed ! invalid]\<rparr>
           in if is_support (submit_info ! valid_1)
              then s1\<lparr>summary_info := Some (submit_info ! valid_1), valid_vote := [confirmed ! valid_1, confirmed ! valid_2],
                      verify_result := Confirmed\<rparr>
              else s1\<lparr>valid_vote := expand_to_order [] [confirmed ! valid_1, confirmed ! valid_2],
                      verify_result := Refused\<rparr>)"

section \<open>Slashes of committees\<close>

datatype oc_slash_result = Pending | Canceled | Executed

record oc_pending_slash_info =
  ocs_machine_id :: machine_id
  ocs_machine_stash :: "account option"
  stash_slash_amount :: balance
  inconsistent_committee :: "account list"
  unruly_committee :: "account list"
  ocs_reward_committee :: "account list"
  ocs_committee_stake :: balance
  ocs_slash_time :: block_number
  ocs_slash_exec_time :: block_number
  book_result :: oc_book_result_type
  slash_result :: oc_slash_result

definition applicant_is_stash :: "account \<Rightarrow> oc_pending_slash_info \<Rightarrow> bool" where
  "applicant_is_stash stash i \<longleftrightarrow>
     ocs_machine_stash i \<noteq> None \<and> book_result i = OnlineRefused \<and> ocs_machine_stash i = Some stash"

definition applicant_is_committee :: "account \<Rightarrow> oc_pending_slash_info \<Rightarrow> bool" where
  "applicant_is_committee who i = is_ok (binary_search who (inconsistent_committee i))"

section \<open>The summary is the majority vote\<close>

lemma unruly_loop_ok:
  "ascending confirmed \<Longrightarrow> ascending out \<Longrightarrow>
   ascending (unruly_loop confirmed as out) \<and> set (unruly_loop confirmed as out) = set out \<union> (set as - set confirmed)"
proof (induction as arbitrary: out)
  case (Cons a as)
  then show ?case using Cons.IH [of "add_item a out"] Cons.IH [of out]
    by (auto simp: il.add_ok il.member_ok)
qed simp

lemma summary_unruly_filter:
  assumes "ascending (booked_committee c)" "ascending (confirmed_committee c)"
  shows "summary_unruly c = filter (\<lambda>a. a \<notin> set (confirmed_committee c)) (booked_committee c)"
  by (rule ascending_unique)
    (use assms unruly_loop_ok [of "confirmed_committee c" "[]" "booked_committee c"] in
      \<open>auto simp: summary_unruly_def sorted_wrt_filter\<close>)

text \<open>The value that more than half of a list agree on.\<close>

definition strict_majority :: "'a list \<Rightarrow> 'a option" where
  "strict_majority xs = find (\<lambda>v. length xs < 2 * count_list xs v) xs"

lemma strict_majority_iff:
  "strict_majority xs = Some v \<longleftrightarrow> length xs < 2 * count_list xs v"
proof
  assume "length xs < 2 * count_list xs v"
  then have v: "v \<in> set xs" by (metis count_list_0_iff mult_0_right not_less_zero)
  have unique: "w = v" if "length xs < 2 * count_list xs w" for w
  proof (rule ccontr)
    assume "w \<noteq> v"
    have "count_list xs w + count_list xs v \<le> length xs" using \<open>w \<noteq> v\<close> by (induction xs) auto
    with that \<open>length xs < 2 * count_list xs v\<close> show False by simp
  qed
  show "strict_majority xs = Some v"
  proof (cases "strict_majority xs")
    case None
    then show ?thesis using v \<open>length xs < 2 * count_list xs v\<close> by (auto simp: strict_majority_def find_None_iff)
  next
    case (Some w)
    then show ?thesis using unique by (auto simp: strict_majority_def find_Some_iff)
  qed
qed (auto simp: strict_majority_def find_Some_iff)

lemma upto_three:
  assumes "length xs \<le> 3"
  obtains "xs = []" | a where "xs = [a]" | a b where "xs = [a, b]" | a b d where "xs = [a, b, d]"
proof -
  have "length xs = 0 \<or> length xs = 1 \<or> length xs = 2 \<or> length xs = 3" using assms by linarith
  then show ?thesis using that by (auto simp: length_Suc_conv eval_nat_numeral)
qed

lemma same_length_upto_three:
  assumes "length xs \<le> 3" "length ys = length xs"
  obtains "xs = []" "ys = []" | a x where "xs = [a]" "ys = [x]" | a b x y where "xs = [a, b]" "ys = [x, y]"
    | a b d x y z where "xs = [a, b, d]" "ys = [x, y, z]"
  using assms by (cases rule: upto_three [of xs]) (auto simp: length_Suc_conv)

lemma add_item_pair: "a < b \<Longrightarrow> add_item b (add_item a []) = [a, b]" for a b :: "'a::linorder"
  by (rule ascending_unique) (auto simp: il.add_ok)

text \<open>
  C6: The summary of the revealed submissions is the vote of the strict majority. Take up to three committees
  that revealed, with one submission each, where submissions against the machine count as equal. If more than
  half of them submitted \<open>v\<close>, the valid votes are exactly those who submitted \<open>v\<close>, the invalid votes are all
  others, and the machine is confirmed with \<open>v\<close> or refused, as \<open>v\<close> says. Otherwise there is no consensus and
  every vote is invalid. In every case, the unruly members are those who were booked and did not reveal.
\<close>
theorem vo_summary_is_majority:
  assumes "ascending (booked_committee c)" "ascending (confirmed_committee c)"
    and "length (confirmed_committee c) \<le> 3" "length infos = length (confirmed_committee c)"
  shows "summary_confirmation c infos =
    (let votes = map normal_info infos;
         voters = (\<lambda>P. map fst (filter (\<lambda>(a, w). P w) (zip (confirmed_committee c) votes)))
     in \<lparr>valid_vote = (case strict_majority votes of None \<Rightarrow> [] | Some v \<Rightarrow> voters (\<lambda>w. w = v)),
         invalid_vote = (case strict_majority votes of None \<Rightarrow> voters (\<lambda>w. True) | Some v \<Rightarrow> voters (\<lambda>w. w \<noteq> v)),
         unruly = filter (\<lambda>a. a \<notin> set (confirmed_committee c)) (booked_committee c),
         summary_info = (case strict_majority votes of None \<Rightarrow> None | Some v \<Rightarrow> if is_support v then Some v else None),
         verify_result = (case strict_majority votes of None \<Rightarrow> NoConsensus
           | Some v \<Rightarrow> if is_support v then Confirmed else Refused)\<rparr>)"
proof -
  define votes where "votes = map normal_info infos"
  have len: "length votes = length (confirmed_committee c)" using assms(4) by (simp add: votes_def)
  show ?thesis
    using summary_unruly_filter [OF assms(1,2)] assms(2)
    unfolding summary_confirmation_def votes_def [symmetric] Let_def
    by (cases rule: same_length_upto_three [OF assms(3) len])
      (auto simp: default_summary_def strict_majority_def expand_to_order_def add_item_pair)
qed

theorem vo_summary_is_majority_witness:
  "summary_confirmation
     (default_machine_committee\<lparr>booked_committee := [2, 3, 4], confirmed_committee := [2, 3, 4]\<rparr>)
     [default_upload\<lparr>is_support := True\<rparr>, default_upload, default_upload\<lparr>mem_num := 7\<rparr>] =
   \<lparr>valid_vote = [3, 4], invalid_vote = [2], unruly = [], summary_info = None, verify_result = Refused\<rparr>"
  using vo_summary_is_majority [of
    "default_machine_committee\<lparr>booked_committee := [2, 3, 4], confirmed_committee := [2, 3, 4]\<rparr>"
    "[default_upload\<lparr>is_support := True\<rparr>, default_upload, default_upload\<lparr>mem_num := 7\<rparr>]"]
  by (simp add: default_machine_committee_def default_upload_def normal_info_def strict_majority_def)

end
