(* ===== verification/Online_Committee.thy ===== *)
theory Online_Committee
  imports Chain_Ledger Verify_Online
begin

text \<open>
  The pallet \<open>pallets/online-committee\<close> (\<open>lib.rs\<close>, \<open>slash.rs\<close>, \<open>types.rs\<close>, \<open>utils.rs\<close>): machines that wait for
  verification are given to three members of the committee, who commit to a hash and then reveal what they
  found; the hook of a block summarises the votes, hands the machine on, and executes the slashes. The model
  is composed of the models of online-profile and of the pallet committee. The properties say what a counted
  vote is, who is drawn, and where the code departs from the protocol it describes.
\<close>

section \<open>Data\<close>

definition DISTRIBUTION :: nat where "DISTRIBUTION = 9"

datatype oc_error =
    BadOrigin | NotInBookList | AlreadySubmitHash | NotAllHashSubmited | TimeNotAllow | NotSubmitHash | AlreadySubmitRaw
  | InfoNotFeatHash | DuplicateHash | GetStakeAmountFailed | AlreadyApplied | NotSlashed | BalanceNotEnough
  | NotPendingReviewSlash | ExpiredApply | Overflow | Unknown

datatype oc_event =
    AddConfirmHash account bytes | AddConfirmRaw account machine_id | MachineDistributed machine_id account

fun from_verify_err :: "verify_err \<Rightarrow> oc_error" where
  "from_verify_err NotInBookList_err = NotInBookList"
| "from_verify_err TimeNotAllow_err = TimeNotAllow"
| "from_verify_err AlreadySubmitHash_err = AlreadySubmitHash"
| "from_verify_err AlreadySubmitRaw_err = AlreadySubmitRaw"
| "from_verify_err NotSubmitHash_err = NotSubmitHash"
| "from_verify_err Overflow_err = Overflow"

record oc_pending_slash_review_info =
  ocr_applicant :: account
  ocr_staked_amount :: balance
  ocr_apply_time :: block_number
  ocr_expire_time :: block_number
  ocr_reason :: bytes

text \<open>
  The pallet works on the state of online-profile, whose world is the state of the pallet committee:
  \<open>OCOps\<close> is implemented by the former and \<open>ManageCommittee\<close> by the latter. \<open>SlashAndReward\<close> and
  \<open>random_u32\<close> are provided by generic-func, \<open>blake2_128\<close> by the framework, and \<open>oc_review_iter\<close> is the order
  in which the storage map of reviews is iterated.
\<close>

record 'w oc_config =
  oc_op :: "'w cm_state op_config"
  oc_cm :: "'w cm_config"
  oc_SlashAndReward :: "account list \<Rightarrow> balance \<Rightarrow> account list \<Rightarrow> 'w cm_state \<Rightarrow> 'w cm_state \<times> bool"
  oc_random_u32 :: "nat \<Rightarrow> 'w cm_state \<Rightarrow> nat \<times> 'w cm_state"
  oc_CancelSlashOrigin :: "origin \<Rightarrow> bool"
  oc_blake2_128 :: "bytes \<Rightarrow> bytes"
  oc_review_iter :: "(slash_id \<rightharpoonup> oc_pending_slash_review_info) \<Rightarrow> slash_id list"

record 'w oc_state =
  oc_profile :: "'w cm_state op_state"
  CommitteeMachine :: "account \<Rightarrow> oc_committee_machine_list"
  MachineCommittee :: "machine_id \<rightharpoonup> oc_machine_committee_list"
  MachineSubmitedHash :: "machine_id \<Rightarrow> bytes list"
  CommitteeOps :: "account \<Rightarrow> machine_id \<Rightarrow> oc_committee_ops"
  oc_NextSlashId :: slash_id
  oc_PendingSlash :: "slash_id \<rightharpoonup> oc_pending_slash_info"
  oc_PendingSlashReview :: "slash_id \<rightharpoonup> oc_pending_slash_review_info"
  UnhandledSlash :: "slash_id list"
  oc_events :: "oc_event list"

definition oc_deposit_event :: "oc_event \<Rightarrow> 'w oc_state \<Rightarrow> 'w oc_state" where
  "oc_deposit_event e s = s\<lparr>oc_events := oc_events s @ [e]\<rparr>"

definition machine_committee :: "'w oc_state \<Rightarrow> machine_id \<Rightarrow> oc_machine_committee_list" where
  "machine_committee s m = (case MachineCommittee s m of None \<Rightarrow> default_machine_committee | Some c \<Rightarrow> c)"

definition put_machine_committee :: "machine_id \<Rightarrow> oc_machine_committee_list \<Rightarrow> 'w oc_state \<Rightarrow> 'w oc_state" where
  "put_machine_committee m c s = s\<lparr>MachineCommittee := (MachineCommittee s)(m \<mapsto> c)\<rparr>"

definition put_committee_machine :: "account \<Rightarrow> oc_committee_machine_list \<Rightarrow> 'w oc_state \<Rightarrow> 'w oc_state" where
  "put_committee_machine a l s = s\<lparr>CommitteeMachine := (CommitteeMachine s)(a := l)\<rparr>"

definition put_ops :: "account \<Rightarrow> machine_id \<Rightarrow> oc_committee_ops \<Rightarrow> 'w oc_state \<Rightarrow> 'w oc_state" where
  "put_ops a m ops s = s\<lparr>CommitteeOps := (CommitteeOps s)(a := (CommitteeOps s a)(m := ops))\<rparr>"

section \<open>The other pallets\<close>

abbreviation oc_committee :: "'w oc_state \<Rightarrow> 'w cm_state" where
  "oc_committee s \<equiv> op_world (oc_profile s)"

definition put_committee :: "'w cm_state \<Rightarrow> 'w oc_state \<Rightarrow> 'w oc_state" where
  "put_committee c s = s\<lparr>oc_profile := (oc_profile s)\<lparr>op_world := c\<rparr>\<rparr>"

definition change_committee_used_stake ::
    "'w oc_config \<Rightarrow> account \<Rightarrow> balance \<Rightarrow> bool \<Rightarrow> 'w oc_state \<Rightarrow> 'w oc_state option" where
  "change_committee_used_stake T who amount is_add s =
     map_option (\<lambda>c. put_committee c s) (change_used_stake (oc_cm T) who amount is_add (oc_committee s))"

definition change_committee_total_stake ::
    "'w oc_config \<Rightarrow> account \<Rightarrow> balance \<Rightarrow> bool \<Rightarrow> bool \<Rightarrow> 'w oc_state \<Rightarrow> 'w oc_state option" where
  "change_committee_total_stake T who amount is_add change_reserve s =
     map_option (\<lambda>c. put_committee c s) (change_total_stake (oc_cm T) who amount is_add change_reserve (oc_committee s))"

definition oc_change_committee_stake ::
    "'w oc_config \<Rightarrow> account list \<Rightarrow> balance \<Rightarrow> bool \<Rightarrow> 'w oc_state \<Rightarrow> 'w oc_state \<times> bool" where
  "oc_change_committee_stake T cs amount is_slash s =
     (let r = change_committee_stake (oc_cm T) cs amount is_slash (oc_committee s)
      in (put_committee (fst r) s, snd r))"

definition oc_slash_and_reward ::
    "'w oc_config \<Rightarrow> account list \<Rightarrow> balance \<Rightarrow> account list \<Rightarrow> 'w oc_state \<Rightarrow> 'w oc_state \<times> bool" where
  "oc_slash_and_reward T who amount reward_who s =
     (let r = oc_SlashAndReward T who amount reward_who (oc_committee s)
      in (put_committee (fst r) s, snd r))"

definition on_profile ::
    "('w cm_state op_state \<Rightarrow> 'w cm_state op_state option) \<Rightarrow> 'w oc_state \<Rightarrow> 'w oc_state option" where
  "on_profile f s = map_option (\<lambda>p. s\<lparr>oc_profile := p\<rparr>) (f (oc_profile s))"

section \<open>Dispatchables\<close>

definition submit_confirm_hash ::
    "block_number \<Rightarrow> origin \<Rightarrow> machine_id \<Rightarrow> bytes \<Rightarrow> 'w oc_state \<Rightarrow> oc_error + 'w oc_state" where
  "submit_confirm_hash now orig m hash s =
     (case ensure_signed orig of None \<Rightarrow> Inl BadOrigin
      | Some who \<Rightarrow>
          if is_ok (binary_search hash (MachineSubmitedHash s m)) then Inl DuplicateHash
          else (case mcl_submit_hash who (machine_committee s m) of
              Inl e \<Rightarrow> Inl (from_verify_err e)
            | Inr c \<Rightarrow>
                Inr (oc_deposit_event (AddConfirmHash who hash)
                  (put_ops who m (ops_submit_hash now hash (CommitteeOps s who m))
                    (put_committee_machine who (cml_submit_hash m (CommitteeMachine s who))
                      (put_machine_committee m c
                        (s\<lparr>MachineSubmitedHash :=
                          (MachineSubmitedHash s)(m := add_item hash (MachineSubmitedHash s m))\<rparr>)))))))"

definition submit_confirm_raw ::
    "'w oc_config \<Rightarrow> block_number \<Rightarrow> origin \<Rightarrow> committee_upload_info \<Rightarrow> 'w oc_state \<Rightarrow> oc_error + 'w oc_state" where
  "submit_confirm_raw T now orig detail s =
     (case ensure_signed orig of None \<Rightarrow> Inl BadOrigin
      | Some who \<Rightarrow>
          let m = upload_machine_id detail; ops = CommitteeOps s who m in
          if upload_hash (oc_blake2_128 T) detail \<noteq> confirm_hash ops then Inl InfoNotFeatHash
          else (case cml_submit_raw m (CommitteeMachine s who) of
              Inl e \<Rightarrow> Inl (from_verify_err e)
            | Inr l \<Rightarrow>
                (case mcl_submit_raw now who (machine_committee s m) of
                   Inl e \<Rightarrow> Inl (from_verify_err e)
                 | Inr c \<Rightarrow>
                     Inr (oc_deposit_event (AddConfirmRaw who m)
                       (put_ops who m (ops_submit_raw now detail ops)
                         (put_machine_committee m c (put_committee_machine who l s)))))))"

definition apply_slash_review ::
    "'w oc_config \<Rightarrow> block_number \<Rightarrow> origin \<Rightarrow> slash_id \<Rightarrow> bytes \<Rightarrow> 'w oc_state \<Rightarrow> oc_error + 'w oc_state" where
  "apply_slash_review T now orig slash_id rsn s =
     (case ensure_signed orig of None \<Rightarrow> Inl BadOrigin
      | Some who \<Rightarrow>
      (case oc_PendingSlash s slash_id of None \<Rightarrow> Inl Unknown
       | Some slash \<Rightarrow>
      (case stake_per_order (oc_committee s) of None \<Rightarrow> Inl GetStakeAmountFailed
       | Some stake \<Rightarrow>
          if oc_PendingSlashReview s slash_id \<noteq> None then Inl AlreadyApplied
          else if \<not> now < ocs_slash_exec_time slash then Inl TimeNotAllow
          else (case ControllerStash (oc_profile s) who of None \<Rightarrow> Inl Unknown
          | Some controller_stash \<Rightarrow>
              let is_slashed_stash = applicant_is_stash controller_stash slash;
                  is_slashed_committee = applicant_is_committee who slash in
              if \<not> (is_slashed_stash \<or> is_slashed_committee) then Inl NotSlashed
              else
                let slashed = (if is_slashed_stash then controller_stash else who) in
                if \<not> can_reserve (op_Currency (oc_op T)) (oc_committee s) slashed stake then Inl BalanceNotEnough
                else
                  (case (if is_slashed_stash
                         then case on_profile (change_staked_balance (oc_op T) slashed stake True) s of
                                None \<Rightarrow> Inl BalanceNotEnough | Some s1 \<Rightarrow> Inr s1
                         else case change_committee_total_stake T slashed stake True True s of
                                None \<Rightarrow> Inl Overflow
                              | Some s1 \<Rightarrow>
                                  (case change_committee_used_stake T slashed stake True s1 of
                                     None \<Rightarrow> Inl Overflow | Some s2 \<Rightarrow> Inr s2)) of
                     Inl e \<Rightarrow> Inl e
                   | Inr s1 \<Rightarrow>
                       Inr (s1\<lparr>oc_PendingSlashReview := (oc_PendingSlashReview s1)(slash_id \<mapsto>
                         \<lparr>ocr_applicant = slashed, ocr_staked_amount = stake, ocr_apply_time = now,
                          ocr_expire_time = ocs_slash_exec_time slash, ocr_reason = rsn\<rparr>)\<rparr>))))))"

fun slash_both :: "'w oc_config \<Rightarrow> balance \<Rightarrow> account list \<Rightarrow> 'w oc_state \<Rightarrow> 'w oc_state" where
  "slash_both T amount [] s = s"
| "slash_both T amount (a # as) s =
     slash_both T amount as
       (ignoring (change_committee_used_stake T a amount False)
         (ignoring (change_committee_total_stake T a amount False False) s))"

fun release_used :: "'w oc_config \<Rightarrow> balance \<Rightarrow> account list \<Rightarrow> 'w oc_state \<Rightarrow> 'w oc_state" where
  "release_used T amount [] s = s"
| "release_used T amount (a # as) s =
     release_used T amount as (ignoring (change_committee_used_stake T a amount False) s)"

definition return_review_stake ::
    "'w oc_config \<Rightarrow> bool \<Rightarrow> account \<Rightarrow> balance \<Rightarrow> balance \<Rightarrow> 'w oc_state \<Rightarrow> 'w oc_state" where
  "return_review_stake T is_stash who order_stake staked s =
     (if is_stash then ignoring (on_profile (change_staked_balance (oc_op T) who order_stake False)) s
      else ignoring (change_committee_used_stake T who order_stake False)
        (ignoring (change_committee_total_stake T who order_stake False True)
          (put_committee (fst (unreserve (op_Currency (oc_op T)) who staked (oc_committee s))) s)))"

definition oc_do_cancel_slash ::
    "'w oc_config \<Rightarrow> block_number \<Rightarrow> slash_id \<Rightarrow> 'w oc_state \<Rightarrow> oc_error + 'w oc_state" where
  "oc_do_cancel_slash T now slash_id s =
     (case oc_PendingSlash s slash_id of None \<Rightarrow> Inl Unknown
      | Some slash \<Rightarrow>
      (case oc_PendingSlashReview s slash_id of None \<Rightarrow> Inl Unknown
       | Some review \<Rightarrow>
      (case stake_per_order (oc_committee s) of None \<Rightarrow> Inl GetStakeAmountFailed
       | Some order_stake \<Rightarrow>
          if \<not> now < ocr_expire_time review then Inl ExpiredApply
          else
            let refused = (book_result slash = OnlineRefused);
                is_stash = (refused \<and> ocs_machine_stash slash = Some (ocr_applicant review));
                s1 = return_review_stake T is_stash (ocr_applicant review) order_stake (ocr_staked_amount review) s;
                should_slash = expand_to_order (ocs_reward_committee slash) (unruly_committee slash);
                should_reward = (case ocs_machine_stash slash of
                    Some stash \<Rightarrow> if refused then add_item stash (inconsistent_committee slash)
                      else inconsistent_committee slash
                  | None \<Rightarrow> inconsistent_committee slash);
                s2 = fst (oc_slash_and_reward T should_slash order_stake should_reward s1);
                s3 = (if is_stash
                      then ignoring (on_profile (change_staked_balance (oc_op T) (ocr_applicant review)
                             (stash_slash_amount slash) False)) s2
                      else s2);
                s4 = release_used T order_stake should_reward (slash_both T order_stake should_slash s3)
            in Inr (s4\<lparr>UnhandledSlash := rm_item slash_id (UnhandledSlash s4),
                       oc_PendingSlash := (oc_PendingSlash s4)(slash_id \<mapsto> slash\<lparr>slash_result := Canceled\<rparr>),
                       oc_PendingSlashReview := (oc_PendingSlashReview s4)(slash_id := None)\<rparr>))))"

definition oc_cancel_slash ::
    "'w oc_config \<Rightarrow> block_number \<Rightarrow> origin \<Rightarrow> slash_id \<Rightarrow> 'w oc_state \<Rightarrow> oc_error + 'w oc_state" where
  "oc_cancel_slash T now orig slash_id s =
     (if \<not> oc_CancelSlashOrigin T orig then Inl BadOrigin
      else if oc_PendingSlashReview s slash_id = None then Inl NotPendingReviewSlash
      else oc_do_cancel_slash T now slash_id s)"
section \<open>Giving machines to committees\<close>

text \<open>
  Three members, drawn without replacement; the \<open>i\<close>-th gets the slots \<open>i\<close>, \<open>i + 3\<close> and \<open>i + 6\<close> of the nine.
  The draws are below the number of members left, which is never zero here.
\<close>

fun draw_committee ::
    "'w oc_config \<Rightarrow> nat list \<Rightarrow> account list \<Rightarrow> 'w cm_state \<Rightarrow> verify_sequence list \<times> 'w cm_state" where
  "draw_committee T [] committee w = ([], w)"
| "draw_committee T (i # is) committee w =
     (let (lucky, w1) = oc_random_u32 T (length committee) w;
          (rest, w2) = draw_committee T is (vec_remove lucky committee) w1
      in (\<lparr>seq_who = committee ! lucky, seq_index = filter (\<lambda>x. (x - i) mod 3 = 0) [i..<DISTRIBUTION]\<rparr> # rest, w2))"

definition get_work_index :: "'w oc_config \<Rightarrow> 'w oc_state \<Rightarrow> verify_sequence list option \<times> 'w oc_state" where
  "get_work_index T s =
     (case available_committee (oc_committee s) of
        None \<Rightarrow> (None, s)
      | Some committee \<Rightarrow>
          if length committee < 3 then (None, s)
          else let (vs, w) = draw_committee T [0, 1, 2] committee (oc_committee s) in (Some vs, put_committee w s))"

definition write_booking ::
    "machine_id \<Rightarrow> block_number \<Rightarrow> block_number \<Rightarrow> balance \<Rightarrow> verify_sequence \<Rightarrow> 'w oc_state \<Rightarrow> 'w oc_state" where
  "write_booking m confirm_start now stake_need work s =
     (let who = seq_who work; c = machine_committee s m; l = CommitteeMachine s who in
      oc_deposit_event (MachineDistributed m who)
        (put_ops who m
          ((CommitteeOps s who m)\<lparr>staked_dbc := stake_need,
             verify_time := map (\<lambda>x. wrapping_add 32 now (x * SUBMIT_RAW_START div DISTRIBUTION)) (seq_index work),
             ops_status := Booked\<rparr>)
          (put_committee_machine who (l\<lparr>cm_booked_machine := add_item m (cm_booked_machine l)\<rparr>)
            (put_machine_committee m
              (c\<lparr>booked_committee := add_item who (booked_committee c), book_time := now,
                 confirm_start_time := confirm_start\<rparr>) s))))"

definition book_one ::
    "'w oc_config \<Rightarrow> machine_id \<Rightarrow> block_number \<Rightarrow> block_number \<Rightarrow> verify_sequence \<Rightarrow> 'w oc_state \<Rightarrow> 'w oc_state option" where
  "book_one T m confirm_start now work s =
     (case stake_per_order (oc_committee s) of None \<Rightarrow> None
      | Some stake_need \<Rightarrow>
          map_option (write_booking m confirm_start now stake_need work)
            (change_committee_used_stake T (seq_who work) stake_need True s))"

fun book_loop ::
    "'w oc_config \<Rightarrow> machine_id \<Rightarrow> block_number \<Rightarrow> block_number \<Rightarrow> verify_sequence list \<Rightarrow> 'w oc_state \<Rightarrow> 'w oc_state" where
  "book_loop T m confirm_start now [] s = s"
| "book_loop T m confirm_start now (work # works) s =
     book_loop T m confirm_start now works (ignoring (book_one T m confirm_start now work) s)"

definition distribute_one :: "'w oc_config \<Rightarrow> block_number \<Rightarrow> machine_id \<Rightarrow> 'w oc_state \<Rightarrow> 'w oc_state" where
  "distribute_one T now m s =
     (let s1 = s\<lparr>MachineCommittee := (MachineCommittee s)(m := None)\<rparr> in
      case get_work_index T s1 of
        (None, s2) \<Rightarrow> s2
      | (Some works, s2) \<Rightarrow>
          ignoring (on_profile (booked_machine_op m))
            (book_loop T m (wrapping_add 32 now SUBMIT_RAW_START) now works s2))"

definition distribute_machines :: "'w oc_config \<Rightarrow> block_number \<Rightarrow> 'w oc_state \<Rightarrow> 'w oc_state" where
  "distribute_machines T now s = fold (distribute_one T now) (confirmed_machine (LiveMachines (oc_profile s))) s"

section \<open>The summary of a machine\<close>

definition oc_get_new_slash_id :: "'w oc_state \<Rightarrow> slash_id \<times> 'w oc_state" where
  "oc_get_new_slash_id s =
     (let n = oc_NextSlashId s in (n, s\<lparr>oc_NextSlashId := (if n = 2 ^ 64 - 1 then 0 else n + 1)\<rparr>))"

definition add_summary_slash ::
    "machine_id \<Rightarrow> account option \<Rightarrow> balance \<Rightarrow> summary \<Rightarrow> balance \<Rightarrow> block_number \<Rightarrow> 'w oc_state \<Rightarrow> 'w oc_state" where
  "add_summary_slash m stash amount sm stake now s =
     (let (slash_id, s1) = oc_get_new_slash_id s in
      s1\<lparr>oc_PendingSlash := (oc_PendingSlash s1)(slash_id \<mapsto>
           \<lparr>ocs_machine_id = m, ocs_machine_stash = stash, stash_slash_amount = amount,
            inconsistent_committee = invalid_vote sm, unruly_committee = unruly sm,
            ocs_reward_committee = valid_vote sm, ocs_committee_stake = stake, ocs_slash_time = now,
            ocs_slash_exec_time = wrapping_add 32 now TWO_DAYS, book_result = into_book_result sm,
            slash_result = Pending\<rparr>),
         UnhandledSlash := add_item slash_id (UnhandledSlash s1)\<rparr>)"

fun revert_loop :: "machine_id \<Rightarrow> account list \<Rightarrow> 'w oc_state \<Rightarrow> 'w oc_state" where
  "revert_loop m [] s = s"
| "revert_loop m (a # as) s =
     revert_loop m as (put_committee_machine a (cml_revert_book m (CommitteeMachine s a)) (put_ops a m default_ops s))"

definition revert_book :: "machine_id \<Rightarrow> 'w oc_state \<Rightarrow> 'w oc_state" where
  "revert_book m s =
     (let s1 = revert_loop m (booked_committee (machine_committee s m)) s
      in s1\<lparr>MachineCommittee := (MachineCommittee s1)(m := None)\<rparr>)"

fun online_loop :: "machine_id \<Rightarrow> account list \<Rightarrow> 'w oc_state \<Rightarrow> 'w oc_state" where
  "online_loop m [] s = s"
| "online_loop m (a # as) s =
     (let l = CommitteeMachine s a in
      online_loop m as (put_committee_machine a (l\<lparr>cm_online_machine := add_item m (cm_online_machine l)\<rparr>) s))"

fun cleanup_loop :: "machine_id \<Rightarrow> account list \<Rightarrow> 'w oc_state \<Rightarrow> 'w oc_state" where
  "cleanup_loop m [] s = s"
| "cleanup_loop m (a # as) s =
     (let s1 = (put_ops a m default_ops s)\<lparr>MachineSubmitedHash := (MachineSubmitedHash s)(m := [])\<rparr>
      in cleanup_loop m as (put_committee_machine a (online_cleanup m (CommitteeMachine s1 a)) s1))"

text \<open>What happens to the machine; \<open>False\<close> is the early return with an error.\<close>

definition settle_machine ::
    "'w oc_config \<Rightarrow> machine_id \<Rightarrow> block_number \<Rightarrow> balance \<Rightarrow> summary \<Rightarrow> 'w oc_state \<Rightarrow> 'w oc_state \<times> bool" where
  "settle_machine T m now stake sm s =
     (case verify_result sm of
        Confirmed \<Rightarrow>
          (case on_profile (confirm_machine (oc_op T) now (valid_vote sm) (the (summary_info sm))) s of
             None \<Rightarrow> (s, False)
           | Some s1 \<Rightarrow> (online_loop m (valid_vote sm) s1, True))
      | Refused \<Rightarrow> (s, True)
      | NoConsensus \<Rightarrow>
          let s1 = revert_book m s in
          (case on_profile (revert_booked_machine m) s1 of
             None \<Rightarrow> (s1, False)
           | Some s2 \<Rightarrow> (release_used T stake (invalid_vote sm) s2, True)))"

definition refuse_if_refused ::
    "'w oc_config \<Rightarrow> machine_id \<Rightarrow> summary \<Rightarrow> 'w oc_state \<Rightarrow> (account \<times> balance) option \<times> 'w oc_state" where
  "refuse_if_refused T m sm s =
     (if verify_result sm = Refused
      then let (r, p) = refuse_machine (oc_op T) (valid_vote sm) m (oc_profile s) in (r, s\<lparr>oc_profile := p\<rparr>)
      else (None, s))"

definition close_record ::
    "'w oc_config \<Rightarrow> machine_id \<Rightarrow> block_number \<Rightarrow> balance \<Rightarrow> summary \<Rightarrow> (account \<times> balance) option \<Rightarrow>
       oc_machine_committee_list \<Rightarrow> 'w oc_state \<Rightarrow> 'w oc_state" where
  "close_record T m now stake sm stash_slash c s =
     (let s1 = (if stash_slash \<noteq> None \<or> should_slash_committee sm
                then let (stash, slash) = (case stash_slash of Some (a, v) \<Rightarrow> (Some a, v) | None \<Rightarrow> (None, 0))
                     in add_summary_slash m stash slash sm stake now s
                else release_used T stake (valid_vote sm) s);
          s2 = put_machine_committee m (after_summary sm (machine_committee s1 m)) s1
      in cleanup_loop m (booked_committee c) s2)"

definition summary_raw ::
    "'w oc_config \<Rightarrow> block_number \<Rightarrow> balance \<Rightarrow> machine_id \<Rightarrow> 'w oc_state \<Rightarrow> 'w oc_state" where
  "summary_raw T now stake m s =
     (let c = machine_committee s m in
      if can_submit_raw now c then put_machine_committee m (c\<lparr>oc_status := SubmittingRaw\<rparr>) s
      else if \<not> can_summary now c then s
      else
        let sm = summary_confirmation c (map (\<lambda>a. ops_info (CommitteeOps s a m)) (confirmed_committee c));
            (stash_slash, s1) = refuse_if_refused T m sm s;
            (s2, ok) = settle_machine T m now stake sm s1
        in if \<not> ok then s2 else close_record T m now stake sm stash_slash c s2)"

definition statistic_result :: "'w oc_config \<Rightarrow> block_number \<Rightarrow> 'w oc_state \<Rightarrow> 'w oc_state" where
  "statistic_result T now s =
     (let stake = (case stake_per_order (oc_committee s) of None \<Rightarrow> 0 | Some v \<Rightarrow> v)
      in fold (summary_raw T now stake) (booked_machine (LiveMachines (oc_profile s))) s)"

section \<open>Executing slashes\<close>

text \<open>The part of a lost review that depends on who applied.\<close>

definition slash_applicant ::
    "'w oc_config \<Rightarrow> oc_pending_slash_info \<Rightarrow> oc_pending_slash_review_info \<Rightarrow> 'w oc_state \<Rightarrow> 'w oc_state \<times> bool" where
  "slash_applicant T slash review s =
     (case ocs_machine_stash slash of
        Some stash \<Rightarrow>
          if book_result slash = OnlineRefused \<and> stash = ocr_applicant review
          then case on_profile (exec_slash_stake stash (ocr_staked_amount review)) s of
                 None \<Rightarrow> (s, False)
               | Some s1 \<Rightarrow> oc_slash_and_reward T [stash] (stash_slash_amount slash) (ocs_reward_committee slash) s1
          else (s, True)
      | None \<Rightarrow> oc_change_committee_stake T [ocr_applicant review] (ocr_staked_amount review) True s)"

definition do_a_pending_review :: "'w oc_config \<Rightarrow> block_number \<Rightarrow> slash_id \<Rightarrow> 'w oc_state \<Rightarrow> 'w oc_state" where
  "do_a_pending_review T now slash_id s =
     (case (oc_PendingSlashReview s slash_id, oc_PendingSlash s slash_id) of
        (Some review, Some slash) \<Rightarrow>
          if ocr_expire_time review < now then s
          else
            let (s1, ok) = slash_applicant T slash review s in
            if \<not> ok then s1
            else let (s2, ok2) = oc_slash_and_reward T [ocr_applicant review] (ocr_staked_amount review) [] s1 in
            if \<not> ok2 then s2
            else s2\<lparr>oc_PendingSlashReview := (oc_PendingSlashReview s2)(slash_id := None)\<rparr>
      | _ \<Rightarrow> s)"

definition check_and_exec_pending_review :: "'w oc_config \<Rightarrow> block_number \<Rightarrow> 'w oc_state \<Rightarrow> 'w oc_state" where
  "check_and_exec_pending_review T now s =
     fold (do_a_pending_review T now) (oc_review_iter T (oc_PendingSlashReview s)) s"

text \<open>Who loses the stake of the order, and whose stake is released.\<close>

definition slashed_committee :: "oc_pending_slash_info \<Rightarrow> account list" where
  "slashed_committee i =
     (if stash_slash_amount i \<noteq> 0 then unruly_committee i @ inconsistent_committee i
      else if ocs_reward_committee i = [] then unruly_committee i
      else unruly_committee i @ inconsistent_committee i)"

definition release_committee :: "oc_pending_slash_info \<Rightarrow> account list" where
  "release_committee i =
     (if stash_slash_amount i \<noteq> 0 then ocs_reward_committee i
      else if ocs_reward_committee i = [] then inconsistent_committee i
      else ocs_reward_committee i)"

definition slash_stash_of :: "'w oc_config \<Rightarrow> oc_pending_slash_info \<Rightarrow> 'w oc_state \<Rightarrow> 'w oc_state \<times> bool" where
  "slash_stash_of T i s =
     (if stash_slash_amount i \<noteq> 0
      then case ocs_machine_stash i of
          None \<Rightarrow> (s, True)
        | Some stash \<Rightarrow>
            (case on_profile (exec_slash_stake stash (stash_slash_amount i)) s of
               None \<Rightarrow> (s, False)
             | Some s1 \<Rightarrow> oc_slash_and_reward T [stash] (stash_slash_amount i) (ocs_reward_committee i) s1)
      else (s, True))"

definition do_a_slash ::
    "'w oc_config \<Rightarrow> block_number \<Rightarrow> slash_id \<Rightarrow> slash_id list \<times> 'w oc_state \<Rightarrow> slash_id list \<times> 'w oc_state" where
  "do_a_slash T now slash_id ps =
     (let (pending, s) = ps in
      case oc_PendingSlash s slash_id of None \<Rightarrow> (pending, s)
      | Some slash \<Rightarrow>
          if now < ocs_slash_exec_time slash then (pending, s)
          else
            let (s1, ok1) = slash_stash_of T slash s in
            if \<not> ok1 then (pending, s1)
            else let (s2, ok2) = oc_change_committee_stake T (slashed_committee slash) (ocs_committee_stake slash) True s1 in
            if \<not> ok2 then (pending, s2)
            else let (s3, ok3) = oc_change_committee_stake T (release_committee slash) (ocs_committee_stake slash) False s2 in
            if \<not> ok3 then (pending, s3)
            else let (s4, ok4) = oc_slash_and_reward T (slashed_committee slash) (ocs_committee_stake slash) [] s3 in
            if \<not> ok4 then (pending, s4)
            else (rm_item slash_id pending,
                  s4\<lparr>oc_PendingSlash := (oc_PendingSlash s4)(slash_id \<mapsto> slash\<lparr>slash_result := Executed\<rparr>)\<rparr>))"

definition check_and_exec_pending_slash :: "'w oc_config \<Rightarrow> block_number \<Rightarrow> 'w oc_state \<Rightarrow> 'w oc_state" where
  "check_and_exec_pending_slash T now s =
     (let (pending, s1) = fold (do_a_slash T now) (UnhandledSlash s) (UnhandledSlash s, s)
      in s1\<lparr>UnhandledSlash := pending\<rparr>)"

section \<open>Hooks and calls\<close>

definition oc_on_initialize :: "'w oc_config \<Rightarrow> block_number \<Rightarrow> 'w oc_state \<Rightarrow> 'w oc_state" where
  "oc_on_initialize T now s = check_and_exec_pending_slash T now (check_and_exec_pending_review T now s)"

definition oc_on_finalize :: "'w oc_config \<Rightarrow> block_number \<Rightarrow> 'w oc_state \<Rightarrow> 'w oc_state" where
  "oc_on_finalize T now s = distribute_machines T now (statistic_result T now s)"

datatype oc_call =
    SubmitConfirmHash machine_id bytes | SubmitConfirmRaw committee_upload_info | ApplySlashReview slash_id bytes
  | CancelSlash slash_id

fun oc_dispatch ::
    "'w oc_config \<Rightarrow> block_number \<Rightarrow> origin \<Rightarrow> oc_call \<Rightarrow> 'w oc_state \<Rightarrow> oc_error + 'w oc_state" where
  "oc_dispatch T now orig (SubmitConfirmHash m h) s = submit_confirm_hash now orig m h s"
| "oc_dispatch T now orig (SubmitConfirmRaw i) s = submit_confirm_raw T now orig i s"
| "oc_dispatch T now orig (ApplySlashReview n r) s = apply_slash_review T now orig n r s"
| "oc_dispatch T now orig (CancelSlash n) s = oc_cancel_slash T now orig n s"

section \<open>What the votes rest on\<close>

text \<open>The storage the votes are in; the operations on money and on machines leave it as it is.\<close>

definition votes_of ::
    "'w oc_state \<Rightarrow> (machine_id \<rightharpoonup> oc_machine_committee_list) \<times> (machine_id \<Rightarrow> bytes list) \<times>
       (account \<Rightarrow> machine_id \<Rightarrow> oc_committee_ops) \<times> (account \<Rightarrow> machine_id list)" where
  "votes_of s =
     (MachineCommittee s, MachineSubmitedHash s, CommitteeOps s, \<lambda>a. cm_hashed_machine (CommitteeMachine s a))"

lemma votes_of_updates [simp]:
  "votes_of (put_committee c s) = votes_of s"
  "cm_hashed_machine l = cm_hashed_machine (CommitteeMachine s a) \<Longrightarrow> votes_of (put_committee_machine a l s) = votes_of s"
  "votes_of (oc_deposit_event e s) = votes_of s"
  "votes_of (s\<lparr>oc_profile := p\<rparr>) = votes_of s"
  "votes_of (s\<lparr>oc_PendingSlash := ps\<rparr>) = votes_of s"
  "votes_of (s\<lparr>oc_PendingSlashReview := pr\<rparr>) = votes_of s"
  "votes_of (s\<lparr>UnhandledSlash := us\<rparr>) = votes_of s"
  "votes_of (s\<lparr>oc_NextSlashId := n\<rparr>) = votes_of s"
  by (simp_all add: votes_of_def put_committee_def put_committee_machine_def oc_deposit_event_def fun_eq_iff)

lemma votes_of_Some:
  "change_committee_used_stake T who v is_add s = Some s' \<Longrightarrow> votes_of s' = votes_of s"
  "change_committee_total_stake T who v is_add cr s = Some s' \<Longrightarrow> votes_of s' = votes_of s"
  "on_profile f s = Some s' \<Longrightarrow> votes_of s' = votes_of s"
  by (auto simp: change_committee_used_stake_def change_committee_total_stake_def on_profile_def)

lemma votes_of_ignoring [simp]:
  "votes_of (ignoring (change_committee_used_stake T who v is_add) s) = votes_of s"
  "votes_of (ignoring (change_committee_total_stake T who v is_add cr) s) = votes_of s"
  "votes_of (ignoring (on_profile f) s) = votes_of s"
  by (auto simp: ignoring_def split: option.splits dest: votes_of_Some)

lemma votes_of_pair:
  "oc_change_committee_stake T cs v is_slash s = (s', ok) \<Longrightarrow> votes_of s' = votes_of s"
  "oc_slash_and_reward T who v reward s = (s', ok) \<Longrightarrow> votes_of s' = votes_of s"
  by (auto simp: oc_change_committee_stake_def oc_slash_and_reward_def Let_def)

lemma votes_of_fst [simp]: "votes_of (fst (oc_slash_and_reward T who v reward s)) = votes_of s"
  by (simp add: oc_slash_and_reward_def Let_def)

lemma votes_of_stash: "slash_stash_of T i s = (s', ok) \<Longrightarrow> votes_of s' = votes_of s"
  by (auto simp: slash_stash_of_def split: option.splits if_splits dest!: votes_of_Some votes_of_pair)

lemma votes_of_applicant: "slash_applicant T i r s = (s', ok) \<Longrightarrow> votes_of s' = votes_of s"
  by (auto simp: slash_applicant_def split: option.splits if_splits dest!: votes_of_Some votes_of_pair)

lemma votes_of_loops [simp]:
  "votes_of (slash_both T v as s) = votes_of s"
  "votes_of (release_used T v as s) = votes_of s"
  "votes_of (online_loop m as s) = votes_of s"
  by (induction as arbitrary: s) (simp_all add: Let_def)

lemma votes_of_return [simp]: "votes_of (return_review_stake T b who v w s) = votes_of s"
  by (simp add: return_review_stake_def)

lemma votes_of_review [simp]: "votes_of (do_a_pending_review T now n s) = votes_of s"
  by (auto simp: do_a_pending_review_def Let_def split: option.splits prod.splits
    dest!: votes_of_applicant votes_of_pair)

lemma votes_of_slash: "do_a_slash T now n (ps, s) = (ps', s') \<Longrightarrow> votes_of s' = votes_of s"
  by (auto simp: do_a_slash_def Let_def split: option.splits prod.splits if_splits
    dest!: votes_of_stash votes_of_pair)

lemma votes_of_slashes: "votes_of (snd (fold (do_a_slash T now) ns (ps, s))) = votes_of s"
proof (induction ns arbitrary: ps s)
  case (Cons n ns)
  obtain ps1 s1 where "do_a_slash T now n (ps, s) = (ps1, s1)" by (cases "do_a_slash T now n (ps, s)")
  with Cons.IH [of ps1 s1] show ?case by (simp add: votes_of_slash)
qed simp

lemma votes_of_on_initialize [simp]: "votes_of (oc_on_initialize T now s) = votes_of s"
proof -
  have "votes_of (fold (do_a_pending_review T now) ns s) = votes_of s" for ns
    by (induction ns arbitrary: s) simp_all
  then show ?thesis
    using votes_of_slashes [of T now]
    by (simp add: oc_on_initialize_def check_and_exec_pending_slash_def check_and_exec_pending_review_def
      split_beta Let_def)
qed

lemma votes_of_apply: "apply_slash_review T now orig n r s = Inr s' \<Longrightarrow> votes_of s' = votes_of s"
  by (auto simp: apply_slash_review_def Let_def split: option.splits if_splits dest!: votes_of_Some)

lemma votes_of_cancel: "oc_cancel_slash T now orig n s = Inr s' \<Longrightarrow> votes_of s' = votes_of s"
  by (auto simp: oc_cancel_slash_def oc_do_cancel_slash_def Let_def split: option.splits if_splits
    dest!: votes_of_Some)

section \<open>Counted votes were committed to\<close>

text \<open>
  The invariant of one machine, with a bound on how many members it was given to. A member's operation counts
  once it left the status \<open>Booked\<close>; \<open>waits a\<close> says that the machine is listed with \<open>a\<close> as hashed.
\<close>

definition votes_ok ::
    "(bytes \<Rightarrow> bytes) \<Rightarrow> nat \<Rightarrow> machine_id \<Rightarrow> oc_machine_committee_list \<Rightarrow> bytes list \<Rightarrow> (account \<Rightarrow> oc_committee_ops) \<Rightarrow>
       (account \<Rightarrow> bool) \<Rightarrow> bool"
where
  "votes_ok h n m c hashes ops waits \<longleftrightarrow>
     ascending (booked_committee c) \<and> ascending (hashed_committee c) \<and> ascending (confirmed_committee c) \<and>
     length (booked_committee c) \<le> n \<and>
     set (confirmed_committee c) \<subseteq> set (hashed_committee c) \<and> set (hashed_committee c) \<subseteq> set (booked_committee c) \<and>
     ascending hashes \<and>
     inj_on (\<lambda>a. confirm_hash (ops a)) {a \<in> set (booked_committee c). ops_status (ops a) \<noteq> Booked} \<and>
     (\<forall>a\<in>set (hashed_committee c). waits a \<longrightarrow> ops_status (ops a) \<noteq> Booked) \<and>
     (\<forall>a\<in>set (booked_committee c).
        (ops_status (ops a) \<noteq> Booked \<longrightarrow> confirm_hash (ops a) \<in> set hashes) \<and>
        (ops_status (ops a) = OpsConfirmed \<longrightarrow>
           upload_machine_id (ops_info (ops a)) = m \<and>
           (\<exists>r. upload_hash h ((ops_info (ops a))\<lparr>rand_str := r\<rparr>) = confirm_hash (ops a))))"

abbreviation oc_waits :: "'w oc_state \<Rightarrow> machine_id \<Rightarrow> account \<Rightarrow> bool" where
  "oc_waits s m a \<equiv> m \<in> set (cm_hashed_machine (CommitteeMachine s a))"

definition oc_votes_ok :: "'w oc_config \<Rightarrow> nat \<Rightarrow> machine_id \<Rightarrow> 'w oc_state \<Rightarrow> bool" where
  "oc_votes_ok T n m s \<longleftrightarrow>
     (\<forall>a. ascending (cm_hashed_machine (CommitteeMachine s a))) \<and>
     votes_ok (oc_blake2_128 T) n m (machine_committee s m) (MachineSubmitedHash s m) (\<lambda>a. CommitteeOps s a m)
       (oc_waits s m)"

lemma oc_votes_ok_cong: "votes_of s' = votes_of s \<Longrightarrow> oc_votes_ok T n m s' = oc_votes_ok T n m s"
  by (simp add: votes_of_def oc_votes_ok_def machine_committee_def fun_eq_iff)

lemma machine_committee_put [simp]:
  "machine_committee (put_machine_committee m c s) m' = (if m' = m then c else machine_committee s m')"
  "machine_committee (put_committee_machine a l s) = machine_committee s"
  "machine_committee (put_ops a m ops s) = machine_committee s"
  "machine_committee (oc_deposit_event e s) = machine_committee s"
  "machine_committee (s\<lparr>MachineSubmitedHash := hs\<rparr>) = machine_committee s"
  by (auto simp: machine_committee_def put_machine_committee_def put_committee_machine_def put_ops_def
    oc_deposit_event_def fun_eq_iff)

lemma submitted_put [simp]:
  "MachineSubmitedHash (put_machine_committee m c s) = MachineSubmitedHash s"
  "MachineSubmitedHash (put_committee_machine a l s) = MachineSubmitedHash s"
  "MachineSubmitedHash (put_ops a m ops s) = MachineSubmitedHash s"
  "MachineSubmitedHash (oc_deposit_event e s) = MachineSubmitedHash s"
  by (auto simp: put_machine_committee_def put_committee_machine_def put_ops_def oc_deposit_event_def)

lemma ops_put [simp]:
  "CommitteeOps (put_machine_committee m c s) = CommitteeOps s"
  "CommitteeOps (put_committee_machine a l s) = CommitteeOps s"
  "CommitteeOps (put_ops a m ops s) b m' = (if b = a \<and> m' = m then ops else CommitteeOps s b m')"
  "CommitteeOps (oc_deposit_event e s) = CommitteeOps s"
  by (auto simp: put_machine_committee_def put_committee_machine_def put_ops_def oc_deposit_event_def)

lemma committee_machine_put [simp]:
  "CommitteeMachine (put_machine_committee m c s) = CommitteeMachine s"
  "CommitteeMachine (put_committee_machine a l s) b = (if b = a then l else CommitteeMachine s b)"
  "CommitteeMachine (put_ops a m ops s) = CommitteeMachine s"
  "CommitteeMachine (oc_deposit_event e s) = CommitteeMachine s"
  by (auto simp: put_machine_committee_def put_committee_machine_def put_ops_def oc_deposit_event_def)

subsection \<open>The transitions of the records\<close>

lemma votes_ok_submit_hash:
  assumes "votes_ok h n m c hashes ops waits" "mcl_submit_hash who c = Inr c'" "\<not> is_ok (binary_search hash hashes)"
    and "\<And>a. a \<noteq> who \<Longrightarrow> ops' a = ops a" "ops' who = ops_submit_hash now hash (ops who)"
    and "\<And>a. a \<noteq> who \<Longrightarrow> waits' a = waits a"
  shows "votes_ok h n m c' (add_item hash hashes) ops' waits'"
proof -
  have w: "ascending (booked_committee c)" "ascending (hashed_committee c)" "ascending hashes"
    using assms(1) by (simp_all add: votes_ok_def)
  have fresh: "hash \<notin> set hashes" using assms(3) w by (simp add: il.member_ok)
  have c': "booked_committee c' = booked_committee c" "hashed_committee c' = add_item who (hashed_committee c)"
      "confirmed_committee c' = confirmed_committee c" and who: "who \<in> set (booked_committee c)"
    using assms(2) w by (auto simp: mcl_submit_hash_def Let_def il.member_ok split: if_splits)
  have ops': "ops' = (\<lambda>a. if a = who then ops_submit_hash now hash (ops a) else ops a)"
    using assms(4,5) by auto
  show ?thesis
    using assms(1,6) fresh who w unfolding votes_ok_def c' ops' inj_on_def
    by (auto simp: il.add_ok ops_submit_hash_def)
qed

lemma votes_ok_submit_raw:
  assumes "votes_ok h n m c hashes ops waits" "mcl_submit_raw now who c = Inr c'"
    and "upload_hash h i = confirm_hash (ops who)" "waits who" "m = upload_machine_id i"
    and "\<And>a. a \<noteq> who \<Longrightarrow> ops' a = ops a" "ops' who = ops_submit_raw now i (ops who)"
    and "\<And>a. a \<noteq> who \<Longrightarrow> waits' a = waits a"
  shows "votes_ok h n m c' hashes ops' waits'"
proof -
  have w: "ascending (hashed_committee c)" "ascending (confirmed_committee c)"
    using assms(1) by (simp_all add: votes_ok_def)
  have c': "booked_committee c' = booked_committee c" "hashed_committee c' = hashed_committee c"
      "confirmed_committee c' = add_item who (confirmed_committee c)" and who: "who \<in> set (hashed_committee c)"
    using assms(2) w by (auto simp: mcl_submit_raw_def Let_def il.member_ok split: if_splits)
  have revealed: "\<exists>r. upload_hash h (i\<lparr>rand_str := r\<rparr>) = confirm_hash (ops who)"
    using assms(3) by (intro exI [of _ "rand_str i"]) simp
  have status: "ops_status (ops who) \<noteq> Booked" using assms(1,4) who by (simp add: votes_ok_def)
  have ops': "ops' = (\<lambda>a. if a = who then ops_submit_raw now i (ops a) else ops a)"
    using assms(6,7) by auto
  show ?thesis
    using assms(1,8) status revealed who w unfolding votes_ok_def c' ops' assms(5) inj_on_def
    by (auto simp: il.add_ok ops_submit_raw_def)
qed

lemma votes_ok_book:
  assumes "votes_ok h n m c hashes ops waits" "hashed_committee c = []" "confirmed_committee c = []"
    and "booked_committee c' = add_item who (booked_committee c)" "hashed_committee c' = []" "confirmed_committee c' = []"
    and "\<And>a. a \<noteq> who \<Longrightarrow> ops' a = ops a" "ops_status (ops' who) = Booked"
  shows "votes_ok h (Suc n) m c' hashes ops' waits'"
proof -
  have w: "ascending (booked_committee c)" using assms(1) by (simp add: votes_ok_def)
  have len: "length (add_item who (booked_committee c)) \<le> Suc (length (booked_committee c))"
    by (auto simp: add_item_def vec_insert_def split: sum.splits)
  define o' where "o' = ops' who"
  have ops': "ops' = (\<lambda>a. if a = who then o' else ops a)" and o': "ops_status o' = Booked"
    using assms(7,8) by (auto simp: o'_def)
  show ?thesis
    using assms(1) o' len w unfolding votes_ok_def assms(4-6) ops' inj_on_def
    by (auto simp: il.add_ok)
qed

lemma votes_ok_blank:
  assumes "votes_ok h n m c hashes ops waits"
    and "booked_committee c' = booked_committee c" "hashed_committee c' = hashed_committee c"
      "confirmed_committee c' = confirmed_committee c"
    and "\<And>a. a \<in> set (booked_committee c) \<Longrightarrow> ops_status (ops' a) = Booked \<and> \<not> waits' a" "ascending hashes'"
  shows "votes_ok h n m c' hashes' ops' waits'"
  using assms unfolding votes_ok_def assms(2-4) inj_on_def by auto

lemma votes_ok_empty:
  assumes "booked_committee c = []" "hashed_committee c = []" "confirmed_committee c = []" "ascending hashes"
  shows "votes_ok h n m c hashes ops waits"
  using assms by (simp add: votes_ok_def)

subsection \<open>The operations\<close>

lemma submit_confirm_hash_ok:
  assumes "submit_confirm_hash now orig m' hash s = Inr s'" "oc_votes_ok T n m s"
  shows "oc_votes_ok T n m s'"
proof -
  obtain who c where c: "mcl_submit_hash who (machine_committee s m') = Inr c"
      "\<not> is_ok (binary_search hash (MachineSubmitedHash s m'))"
    and s': "s' = oc_deposit_event (AddConfirmHash who hash)
      (put_ops who m' (ops_submit_hash now hash (CommitteeOps s who m'))
        (put_committee_machine who (cml_submit_hash m' (CommitteeMachine s who))
          (put_machine_committee m' c
            (s\<lparr>MachineSubmitedHash := (MachineSubmitedHash s)(m' := add_item hash (MachineSubmitedHash s m'))\<rparr>))))"
    using assms(1) by (auto simp: submit_confirm_hash_def split: option.splits if_splits sum.splits)
  have asc: "\<forall>a. ascending (cm_hashed_machine (CommitteeMachine s' a))"
    using assms(2) by (auto simp: s' oc_votes_ok_def cml_submit_hash_def il.add_ok)
  show ?thesis
  proof (cases "m = m'")
    case True
    then show ?thesis
      using assms(2) asc c unfolding oc_votes_ok_def
      by (auto simp: s' intro!: votes_ok_submit_hash [where who = who and now = now])
  next
    case False
    then have "oc_waits s' m a = oc_waits s m a" for a
      using assms(2) by (auto simp: s' oc_votes_ok_def cml_submit_hash_def il.add_ok)
    then show ?thesis using assms(2) asc False by (simp add: oc_votes_ok_def s')
  qed
qed

lemma submit_confirm_raw_ok:
  assumes "submit_confirm_raw T now orig i s = Inr s'" "oc_votes_ok T n m s"
  shows "oc_votes_ok T n m s'"
proof -
  let ?m = "upload_machine_id i"
  obtain who c l where c: "mcl_submit_raw now who (machine_committee s ?m) = Inr c"
      "cml_submit_raw ?m (CommitteeMachine s who) = Inr l"
      "upload_hash (oc_blake2_128 T) i = confirm_hash (CommitteeOps s who ?m)"
    and s': "s' = oc_deposit_event (AddConfirmRaw who ?m)
      (put_ops who ?m (ops_submit_raw now i (CommitteeOps s who ?m))
        (put_machine_committee ?m c (put_committee_machine who l s)))"
    using assms(1) by (auto simp: submit_confirm_raw_def Let_def split: option.splits if_splits sum.splits)
  have asc0: "ascending (cm_hashed_machine (CommitteeMachine s a))" for a using assms(2) by (simp add: oc_votes_ok_def)
  have waits: "oc_waits s ?m who" and l: "cm_hashed_machine l = rm_item ?m (cm_hashed_machine (CommitteeMachine s who))"
    using c(2) asc0 by (auto simp: cml_submit_raw_def il.member_ok split: if_splits)
  have asc: "ascending (cm_hashed_machine (CommitteeMachine s' a))" for a using asc0 by (simp add: s' l il.rm_ok)
  show ?thesis
  proof (cases "m = ?m")
    case True
    have ok: "votes_ok (oc_blake2_128 T) n ?m (machine_committee s ?m) (MachineSubmitedHash s ?m)
        (\<lambda>a. CommitteeOps s a ?m) (oc_waits s ?m)"
      using assms(2) True by (simp add: oc_votes_ok_def)
    have "votes_ok (oc_blake2_128 T) n ?m c (MachineSubmitedHash s ?m) (\<lambda>a. CommitteeOps s' a ?m) (oc_waits s' ?m)"
      by (rule votes_ok_submit_raw [OF ok c(1) c(3) waits refl]) (simp_all add: s')
    then show ?thesis using True asc by (simp add: oc_votes_ok_def s')
  next
    case False
    then have "oc_waits s' m a = oc_waits s m a" for a using asc0 by (auto simp: s' l il.rm_ok)
    then show ?thesis using assms(2) asc False by (simp add: oc_votes_ok_def s')
  qed
qed

text \<open>What the invariant of one machine reads.\<close>

definition votes_at ::
    "machine_id \<Rightarrow> 'w oc_state \<Rightarrow> oc_machine_committee_list \<times> bytes list \<times> (account \<Rightarrow> oc_committee_ops) \<times> (account \<Rightarrow> bool)"
where
  "votes_at m s = (machine_committee s m, MachineSubmitedHash s m, \<lambda>a. CommitteeOps s a m, oc_waits s m)"

abbreviation hashed_ascending :: "'w oc_state \<Rightarrow> bool" where
  "hashed_ascending s \<equiv> \<forall>a. ascending (cm_hashed_machine (CommitteeMachine s a))"

lemma votes_of_at:
  assumes "votes_of s' = votes_of s"
  shows "votes_at m s' = votes_at m s" "hashed_ascending s' = hashed_ascending s"
  using assms by (simp_all add: votes_of_def votes_at_def machine_committee_def fun_eq_iff)

lemma oc_votes_ok_at:
  assumes "votes_at m s' = votes_at m s" "hashed_ascending s \<Longrightarrow> hashed_ascending s'" "oc_votes_ok T n m s"
  shows "oc_votes_ok T n m s'"
  using assms by (simp add: oc_votes_ok_def votes_at_def)

abbreviation unhashed :: "machine_id \<Rightarrow> 'w oc_state \<Rightarrow> bool" where
  "unhashed m s \<equiv> hashed_committee (machine_committee s m) = [] \<and> confirmed_committee (machine_committee s m) = []"

subsubsection \<open>Distribution\<close>

lemma book_one_Some:
  assumes "book_one T m cs now work s = Some s'"
  obtains s1 stake where "votes_of s1 = votes_of s" "s' = write_booking m cs now stake work s1"
  using assms by (auto simp: book_one_def split: option.splits dest: votes_of_Some)

lemma write_booking_other:
  assumes "m' \<noteq> m"
  shows "votes_at m' (write_booking m cs now stake work s) = votes_at m' s"
    "hashed_ascending (write_booking m cs now stake work s) = hashed_ascending s"
  using assms by (auto simp: write_booking_def Let_def votes_at_def fun_eq_iff)

lemma book_one_other:
  assumes "book_one T m cs now work s = Some s'" "m' \<noteq> m"
  shows "votes_at m' s' = votes_at m' s \<and> hashed_ascending s' = hashed_ascending s"
proof (rule book_one_Some [OF assms(1)])
  fix s1 stake
  assume "votes_of s1 = votes_of s" "s' = write_booking m cs now stake work s1"
  then show ?thesis using votes_of_at [of s1 s] by (simp add: write_booking_other [OF assms(2)])
qed

lemma book_one_ok:
  assumes "book_one T m cs now work s = Some s'" "oc_votes_ok T n m s" "unhashed m s"
  shows "oc_votes_ok T (Suc n) m s' \<and> unhashed m s'"
proof (rule book_one_Some [OF assms(1)])
  fix s1 stake
  assume s1: "votes_of s1 = votes_of s" and s': "s' = write_booking m cs now stake work s1"
  have ok: "oc_votes_ok T n m s1" "unhashed m s1"
    using oc_votes_ok_cong [OF s1] votes_of_at [OF s1] assms(2,3) by (auto simp: votes_at_def)
  have asc: "hashed_ascending s'" using ok by (auto simp: s' oc_votes_ok_def write_booking_def Let_def)
  have "votes_ok (oc_blake2_128 T) (Suc n) m (machine_committee s' m) (MachineSubmitedHash s1 m)
      (\<lambda>a. CommitteeOps s' a m) (oc_waits s' m)"
    by (rule votes_ok_book [OF conjunct2 [OF ok(1) [unfolded oc_votes_ok_def]], where who = "seq_who work"])
      (use ok(2) in \<open>simp_all add: s' write_booking_def Let_def\<close>)
  then show ?thesis using asc ok(2) by (simp add: oc_votes_ok_def s' write_booking_def Let_def)
qed

lemma book_loop_other:
  "m' \<noteq> m \<Longrightarrow> votes_at m' (book_loop T m cs now works s) = votes_at m' s \<and>
     hashed_ascending (book_loop T m cs now works s) = hashed_ascending s"
proof (induction works arbitrary: s)
  case (Cons work works)
  then show ?case
    using Cons.IH [of s] book_one_other [of T m cs now work s]
    by (cases "book_one T m cs now work s") (auto simp: ignoring_def)
qed simp

lemma book_loop_ok:
  "oc_votes_ok T n m s \<Longrightarrow> unhashed m s \<Longrightarrow> oc_votes_ok T (n + length works) m (book_loop T m cs now works s)"
proof (induction works arbitrary: s n)
  case (Cons work works)
  show ?case
  proof (cases "book_one T m cs now work s")
    case None
    then show ?thesis using Cons.IH [of n s] Cons.prems by (auto simp: ignoring_def oc_votes_ok_def votes_ok_def)
  next
    case (Some s1)
    then show ?thesis using Cons.IH [of "Suc n" s1] book_one_ok [OF Some Cons.prems] by (simp add: ignoring_def)
  qed
qed simp

lemma draw_committee_length: "length (fst (draw_committee T is cs w)) = length is"
  by (induction "is" arbitrary: cs w) (auto simp: split_beta Let_def)

lemma get_work_index_Some:
  assumes "get_work_index T s = (r, s')"
  shows "votes_of s' = votes_of s" "r = Some works \<Longrightarrow> length works = 3"
  using assms draw_committee_length [of T "[0, 1, 2]"]
  by (auto simp: get_work_index_def split_beta Let_def split: option.splits if_splits)

lemma distribute_one_ok:
  assumes "oc_votes_ok T 3 m' s"
  shows "oc_votes_ok T 3 m' (distribute_one T now m s)"
proof -
  define s1 where "s1 = s\<lparr>MachineCommittee := (MachineCommittee s)(m := None)\<rparr>"
  obtain r s2 where g: "get_work_index T s1 = (r, s2)" by (cases "get_work_index T s1")
  have s2: "votes_of s2 = votes_of s1" using get_work_index_Some [OF g] by simp
  have s1_ok: "oc_votes_ok T 3 m' s1" and blank: "oc_votes_ok T 0 m s1 \<and> unhashed m s1" if "m' = m"
    using assms that by (simp_all add: s1_def oc_votes_ok_def machine_committee_def default_machine_committee_def votes_ok_def)
  have other: "oc_votes_ok T 3 m' s1" if "m' \<noteq> m"
    using assms that by (simp add: s1_def oc_votes_ok_def machine_committee_def)
  show ?thesis
  proof (cases r)
    case None
    then have "distribute_one T now m s = s2" using g by (simp add: distribute_one_def s1_def [symmetric])
    then show ?thesis using s1_ok other oc_votes_ok_cong [OF s2] by (cases "m' = m") simp_all
  next
    case (Some works)
    define s3 where "s3 = book_loop T m (wrapping_add 32 now SUBMIT_RAW_START) now works s2"
    have eq: "distribute_one T now m s = ignoring (on_profile (booked_machine_op m)) s3"
      using g Some unfolding s3_def by (simp add: distribute_one_def s1_def [symmetric])
    have "oc_votes_ok T 3 m' s3"
    proof (cases "m' = m")
      case True
      then show ?thesis
        using blank book_loop_ok [of T 0 m s2 works] oc_votes_ok_cong [OF s2] votes_of_at [OF s2]
          get_work_index_Some(2) [OF g Some]
        by (auto simp: s3_def votes_at_def)
    next
      case False
      then have "votes_at m' s3 = votes_at m' s2" "hashed_ascending s3 = hashed_ascending s2"
        using book_loop_other [of m' m T "wrapping_add 32 now SUBMIT_RAW_START" now works s2] by (simp_all add: s3_def)
      moreover have "oc_votes_ok T 3 m' s2" using other [OF False] oc_votes_ok_cong [OF s2] by simp
      ultimately show ?thesis using oc_votes_ok_at [of m' s3 s2] by blast
    qed
    then show ?thesis unfolding eq using oc_votes_ok_cong [OF votes_of_ignoring(3)] by blast
  qed
qed

subsubsection \<open>The summary\<close>

text \<open>What the cleaning loops leave of a machine.\<close>

abbreviation cleaned :: "machine_id \<Rightarrow> 'w oc_state \<Rightarrow> account \<Rightarrow> bool" where
  "cleaned m s a \<equiv> CommitteeOps s a m = default_ops \<and> \<not> oc_waits s m a"

lemma revert_loop_ok:
  "hashed_ascending s \<Longrightarrow>
     hashed_ascending (revert_loop m as s) \<and>
     MachineCommittee (revert_loop m as s) = MachineCommittee s \<and>
     MachineSubmitedHash (revert_loop m as s) = MachineSubmitedHash s \<and>
     (m' \<noteq> m \<longrightarrow> votes_at m' (revert_loop m as s) = votes_at m' s)"
proof (induction as arbitrary: s)
  case (Cons a as)
  define s1 where "s1 = put_committee_machine a (cml_revert_book m (CommitteeMachine s a)) (put_ops a m default_ops s)"
  have asc: "hashed_ascending s1" using Cons.prems by (auto simp: s1_def cml_revert_book_def il.rm_ok)
  have "MachineCommittee s1 = MachineCommittee s" "MachineSubmitedHash s1 = MachineSubmitedHash s"
    "m' \<noteq> m \<longrightarrow> votes_at m' s1 = votes_at m' s"
    using Cons.prems
    by (auto simp: s1_def cml_revert_book_def il.rm_ok votes_at_def fun_eq_iff put_committee_machine_def put_ops_def
      machine_committee_def)
  then show ?case using Cons.IH [OF asc] by (simp add: s1_def [symmetric])
qed simp

lemma cleanup_loop_ok:
  "hashed_ascending s \<Longrightarrow>
     hashed_ascending (cleanup_loop m as s) \<and>
     MachineCommittee (cleanup_loop m as s) = MachineCommittee s \<and>
     (ascending (MachineSubmitedHash s m) \<longrightarrow> ascending (MachineSubmitedHash (cleanup_loop m as s) m)) \<and>
     (m' \<noteq> m \<longrightarrow> votes_at m' (cleanup_loop m as s) = votes_at m' s) \<and>
     (\<forall>a. a \<in> set as \<or> cleaned m s a \<longrightarrow> cleaned m (cleanup_loop m as s) a)"
proof (induction as arbitrary: s)
  case (Cons a as)
  define s1 where "s1 = (put_ops a m default_ops s)\<lparr>MachineSubmitedHash := (MachineSubmitedHash s)(m := [])\<rparr>"
  define s2 where "s2 = put_committee_machine a (online_cleanup m (CommitteeMachine s1 a)) s1"
  have asc: "hashed_ascending s2"
    using Cons.prems by (auto simp: s2_def s1_def online_cleanup_def il.rm_ok put_ops_def)
  have s2: "MachineCommittee s2 = MachineCommittee s" "MachineSubmitedHash s2 m = []" "cleaned m s2 a"
    "m' \<noteq> m \<longrightarrow> votes_at m' s2 = votes_at m' s" "\<forall>b. cleaned m s b \<longrightarrow> cleaned m s2 b"
    using Cons.prems
    by (auto simp: s2_def s1_def online_cleanup_def il.rm_ok votes_at_def fun_eq_iff put_committee_machine_def put_ops_def
      machine_committee_def)
  have eq: "cleanup_loop m (a # as) s = cleanup_loop m as s2" by (simp add: s2_def s1_def Let_def)
  show ?case using Cons.IH [OF asc] s2 unfolding eq by auto
qed simp

lemma revert_book_ok:
  assumes "hashed_ascending s"
  shows "hashed_ascending (revert_book m s)" "m' \<noteq> m \<Longrightarrow> votes_at m' (revert_book m s) = votes_at m' s"
    "machine_committee (revert_book m s) m = default_machine_committee"
    "MachineSubmitedHash (revert_book m s) = MachineSubmitedHash s"
  using revert_loop_ok [OF assms, of m "booked_committee (machine_committee s m)" m']
  by (auto simp: revert_book_def Let_def votes_at_def machine_committee_def)

text \<open>After the machine is handed on, its record is as it was, or blank.\<close>

lemma settle_machine_ok:
  assumes "settle_machine T m now stake sm s = (s', ok)" "hashed_ascending s"
  shows "hashed_ascending s' \<and> MachineSubmitedHash s' = MachineSubmitedHash s \<and>
    (m' \<noteq> m \<longrightarrow> votes_at m' s' = votes_at m' s) \<and>
    (votes_of s' = votes_of s \<or> machine_committee s' m = default_machine_committee)"
proof (cases "verify_result sm")
  case Confirmed
  then have "votes_of s' = votes_of s"
    using assms(1) by (auto simp: settle_machine_def split: option.splits dest: votes_of_Some)
  then show ?thesis using assms(2) votes_of_at [of s' s] by (auto simp: votes_of_def)
next
  case Refused
  then show ?thesis using assms by (simp add: settle_machine_def)
next
  case NoConsensus
  then have s': "votes_of s' = votes_of (revert_book m s)"
    using assms(1) by (auto simp: settle_machine_def Let_def split: option.splits dest: votes_of_Some)
  then have "MachineSubmitedHash s' = MachineSubmitedHash (revert_book m s)"
    "machine_committee s' m = machine_committee (revert_book m s) m"
    by (simp_all add: votes_of_def machine_committee_def)
  then show ?thesis using revert_book_ok [OF assms(2), of m] revert_book_ok(2) [OF assms(2), of m' m] votes_of_at [OF s'] by simp
qed

lemma after_summary_lists [simp]:
  "booked_committee (after_summary sm c) = booked_committee c"
  "hashed_committee (after_summary sm c) = hashed_committee c"
  "confirmed_committee (after_summary sm c) = confirmed_committee c"
  by (simp_all add: after_summary_def split: verify_result.splits)

text \<open>The last steps of the summary: the record is closed and everyone who was booked is cleaned.\<close>

lemma close_record_ok:
  assumes ok: "oc_votes_ok T n m' s" and asc: "hashed_ascending s2"
    and hashes: "MachineSubmitedHash s2 = MachineSubmitedHash s"
    and other: "m' \<noteq> m \<Longrightarrow> votes_at m' s2 = votes_at m' s"
    and same: "votes_of s2 = votes_of s \<or> machine_committee s2 m = default_machine_committee"
  shows "oc_votes_ok T n m' (cleanup_loop m (booked_committee (machine_committee s m))
    (put_machine_committee m (after_summary sm (machine_committee s2 m)) s2))"
proof -
  define s3 where "s3 = put_machine_committee m (after_summary sm (machine_committee s2 m)) s2"
  define s4 where "s4 = cleanup_loop m (booked_committee (machine_committee s m)) s3"
  have asc3: "hashed_ascending s3" using asc by (simp add: s3_def)
  note c = cleanup_loop_ok [OF asc3, of m "booked_committee (machine_committee s m)" m', folded s4_def]
  have "oc_votes_ok T n m' s4"
  proof (cases "m' = m")
    case False
    then have "votes_at m' s3 = votes_at m' s2" by (simp add: s3_def votes_at_def)
    then have "votes_at m' s4 = votes_at m' s" using c other False by simp
    then show ?thesis using oc_votes_ok_at [OF _ _ ok] c by blast
  next
    case True
    have mc: "machine_committee s4 m = after_summary sm (machine_committee s2 m)"
      using c by (simp add: machine_committee_def s3_def put_machine_committee_def)
    have hs: "ascending (MachineSubmitedHash s4 m)"
      using c ok hashes True by (simp add: oc_votes_ok_def votes_ok_def s3_def)
    show ?thesis
      using same
    proof
      assume "machine_committee s2 m = default_machine_committee"
      then show ?thesis using c hs True
        by (auto simp: oc_votes_ok_def mc default_machine_committee_def intro!: votes_ok_empty)
    next
      assume "votes_of s2 = votes_of s"
      then have s2: "machine_committee s2 m = machine_committee s m" by (simp add: votes_of_def machine_committee_def)
      have blank: "ops_status (CommitteeOps s4 a m) = Booked \<and> \<not> oc_waits s4 m a"
        if "a \<in> set (booked_committee (machine_committee s m))" for a
        using c that by (simp add: default_ops_def)
      have "votes_ok (oc_blake2_128 T) n m (machine_committee s4 m) (MachineSubmitedHash s4 m)
          (\<lambda>a. CommitteeOps s4 a m) (oc_waits s4 m)"
        by (rule votes_ok_blank [OF conjunct2 [OF ok [unfolded oc_votes_ok_def True]]])
          (use blank hs True s2 mc in simp_all)
      then show ?thesis using c True by (simp add: oc_votes_ok_def)
    qed
  qed
  then show ?thesis by (simp add: s4_def s3_def)
qed

lemma summary_raw_ok:
  assumes "oc_votes_ok T n m' s"
  shows "oc_votes_ok T n m' (summary_raw T now stake m s)"
proof -
  let ?c = "machine_committee s m"
  consider "can_submit_raw now ?c" | "\<not> can_submit_raw now ?c" "\<not> can_summary now ?c"
    | "\<not> can_submit_raw now ?c" "can_summary now ?c" by blast
  then show ?thesis
  proof cases
    case 1
    then show ?thesis using assms by (cases "m' = m") (auto simp: summary_raw_def Let_def oc_votes_ok_def votes_ok_def)
  next
    case 2
    then show ?thesis using assms by (simp add: summary_raw_def Let_def)
  next
    case 3
    define sm where "sm = summary_confirmation ?c (map (\<lambda>a. ops_info (CommitteeOps s a m)) (confirmed_committee ?c))"
    obtain r s1 where r: "refuse_if_refused T m sm s = (r, s1)" by (cases "refuse_if_refused T m sm s")
    obtain s2 ok where st: "settle_machine T m now stake sm s1 = (s2, ok)" by (cases "settle_machine T m now stake sm s1")
    have s1: "votes_of s1 = votes_of s" using r by (auto simp: refuse_if_refused_def split_beta split: if_splits)
    have asc1: "hashed_ascending s1" using assms votes_of_at(2) [OF s1] by (simp add: oc_votes_ok_def)
    have hs: "MachineSubmitedHash s1 = MachineSubmitedHash s" using s1 by (simp add: votes_of_def)
    note s2 = settle_machine_ok [OF st asc1, of m'] votes_of_at(1) [OF s1, of m'] s1 hs
    have eq: "summary_raw T now stake m s = (if \<not> ok then s2 else close_record T m now stake sm r ?c s2)"
      using 3 r st by (simp add: summary_raw_def Let_def sm_def)
    show ?thesis
    proof (cases ok)
      case True
      obtain s3 where s3: "votes_of s3 = votes_of s2" and eq3: "close_record T m now stake sm r ?c s2 =
          cleanup_loop m (booked_committee ?c) (put_machine_committee m (after_summary sm (machine_committee s3 m)) s3)"
        by (rule that [OF _ close_record_def [unfolded Let_def]])
          (simp add: add_summary_slash_def oc_get_new_slash_id_def Let_def split_beta)
      have at3: "votes_at m' s3 = votes_at m' s2" "hashed_ascending s3 = hashed_ascending s2"
        "MachineSubmitedHash s3 = MachineSubmitedHash s2" "machine_committee s3 m = machine_committee s2 m"
        using votes_of_at [OF s3] s3 by (simp_all add: votes_of_def machine_committee_def)
      have "oc_votes_ok T n m' (cleanup_loop m (booked_committee ?c)
          (put_machine_committee m (after_summary sm (machine_committee s3 m)) s3))"
        by (rule close_record_ok [OF assms]) (use s2 s3 at3 in auto)
      then show ?thesis using True eq eq3 by simp
    next
      case False
      have "oc_votes_ok T n m' s2"
      proof (cases "m' = m \<and> machine_committee s2 m = default_machine_committee")
        case True
        then show ?thesis using assms s2
          by (auto simp: oc_votes_ok_def default_machine_committee_def votes_ok_def)
      next
        case False
        then have "votes_at m' s2 = votes_at m' s" using s2 votes_of_at(1) [of s2 s1 m'] by auto
        then show ?thesis using oc_votes_ok_at [OF _ _ assms, of s2] s2 by blast
      qed
      then show ?thesis using False eq by simp
    qed
  qed
qed

section \<open>Runs\<close>

definition oc_init :: "'w cm_state op_state \<Rightarrow> 'w oc_state" where
  "oc_init p =
     \<lparr>oc_profile = p, CommitteeMachine = (\<lambda>_. default_committee_machine), MachineCommittee = Map.empty,
      MachineSubmitedHash = (\<lambda>_. []), CommitteeOps = (\<lambda>_ _. default_ops), oc_NextSlashId = 0,
      oc_PendingSlash = Map.empty, oc_PendingSlashReview = Map.empty, UnhandledSlash = [], oc_events = []\<rparr>"

text \<open>
  A step is a successful call, one of the two hooks, or anything that other pallets do to the state of
  online-profile, of the committee and of the balances.
\<close>

inductive oc_step :: "'w oc_config \<Rightarrow> 'w oc_state \<Rightarrow> 'w oc_state \<Rightarrow> bool" for T where
  called: "oc_dispatch T now orig c s = Inr s' \<Longrightarrow> oc_step T s s'"
| initialized: "oc_step T s (oc_on_initialize T now s)"
| finalized: "oc_step T s (oc_on_finalize T now s)"
| others: "oc_step T s (s\<lparr>oc_profile := p\<rparr>)"

inductive_cases oc_stepE: "oc_step T s s'"

lemma fold_votes_ok:
  assumes "\<And>x s. oc_votes_ok T n m s \<Longrightarrow> oc_votes_ok T n m (f x s)" "oc_votes_ok T n m s"
  shows "oc_votes_ok T n m (fold f xs s)"
  using assms(2) by (induction xs arbitrary: s) (simp_all add: assms(1))

lemma oc_on_finalize_ok: "oc_votes_ok T 3 m s \<Longrightarrow> oc_votes_ok T 3 m (oc_on_finalize T now s)"
  by (simp add: oc_on_finalize_def distribute_machines_def statistic_result_def Let_def fold_votes_ok
    distribute_one_ok summary_raw_ok)

lemma oc_dispatch_ok:
  assumes "oc_dispatch T now orig c s = Inr s'" "oc_votes_ok T n m s"
  shows "oc_votes_ok T n m s'"
proof (cases c)
  case (SubmitConfirmHash m' h)
  with assms show ?thesis by (auto intro: submit_confirm_hash_ok)
next
  case (SubmitConfirmRaw i)
  with assms show ?thesis by (auto intro: submit_confirm_raw_ok)
next
  case (ApplySlashReview k r)
  with assms show ?thesis using oc_votes_ok_cong [OF votes_of_apply] by fastforce
next
  case (CancelSlash k)
  with assms show ?thesis using oc_votes_ok_cong [OF votes_of_cancel] by fastforce
qed

lemma oc_step_ok: "oc_step T s s' \<Longrightarrow> oc_votes_ok T 3 m s \<Longrightarrow> oc_votes_ok T 3 m s'"
proof (erule oc_stepE)
  show "oc_votes_ok T 3 m s'" if "oc_votes_ok T 3 m s" "s' = oc_on_initialize T now s" for now
    using that oc_votes_ok_cong [OF votes_of_on_initialize] by blast
  show "oc_votes_ok T 3 m s'" if "oc_votes_ok T 3 m s" "s' = s\<lparr>oc_profile := p\<rparr>" for p
    using that oc_votes_ok_cong [OF votes_of_updates(4)] by blast
qed (simp_all add: oc_dispatch_ok oc_on_finalize_ok)

lemma oc_run_ok: "(oc_step T)\<^sup>*\<^sup>* s s' \<Longrightarrow> oc_votes_ok T 3 m s \<Longrightarrow> oc_votes_ok T 3 m s'"
  by (induction rule: rtranclp_induct) (simp_all add: oc_step_ok)

lemma oc_init_ok: "oc_votes_ok T n m (oc_init p)"
  by (simp add: oc_votes_ok_def oc_init_def machine_committee_def default_committee_machine_def
    default_machine_committee_def votes_ok_def)

text \<open>
  C2: Votes are committed to before they are revealed. Along every run from genesis, a machine is with at most
  three members; who revealed had committed, and who committed had been given the machine. The record of a
  revealed vote is about this machine and hashes, with some random string, to what its author committed to.
  No two members of one machine have committed to the same hash.
\<close>
theorem oc_votes_committed:
  fixes m
  assumes "(oc_step T)\<^sup>*\<^sup>* (oc_init p) s"
  defines "c \<equiv> machine_committee s m"
  shows "length (booked_committee c) \<le> 3 \<and>
    set (confirmed_committee c) \<subseteq> set (hashed_committee c) \<and> set (hashed_committee c) \<subseteq> set (booked_committee c) \<and>
    (\<forall>a\<in>set (booked_committee c). ops_status (CommitteeOps s a m) = OpsConfirmed \<longrightarrow>
       upload_machine_id (ops_info (CommitteeOps s a m)) = m \<and>
       (\<exists>r. upload_hash (oc_blake2_128 T) ((ops_info (CommitteeOps s a m))\<lparr>rand_str := r\<rparr>) =
          confirm_hash (CommitteeOps s a m))) \<and>
    (\<forall>a\<in>set (booked_committee c). \<forall>b\<in>set (booked_committee c).
       a \<noteq> b \<longrightarrow> ops_status (CommitteeOps s a m) \<noteq> Booked \<longrightarrow> ops_status (CommitteeOps s b m) \<noteq> Booked \<longrightarrow>
       confirm_hash (CommitteeOps s a m) \<noteq> confirm_hash (CommitteeOps s b m))"
  using oc_run_ok [OF assms(1) oc_init_ok, of m]
  unfolding oc_votes_ok_def votes_ok_def c_def inj_on_def by auto

section \<open>Who is drawn\<close>

lemma draw_committee_distinct:
  assumes "\<And>n w. 0 < n \<Longrightarrow> fst (oc_random_u32 T n w) < n"
  shows "distinct cs \<Longrightarrow> length is \<le> length cs \<Longrightarrow>
    distinct (map seq_who (fst (draw_committee T is cs w))) \<and> set (map seq_who (fst (draw_committee T is cs w))) \<subseteq> set cs"
proof (induction "is" arbitrary: cs w)
  case (Cons i "is")
  obtain r w1 where r: "oc_random_u32 T (length cs) w = (r, w1)" by (cases "oc_random_u32 T (length cs) w")
  have lt: "r < length cs" using assms [of "length cs" w] Cons.prems(2) r by (cases cs) auto
  obtain xs y ys where cs: "cs = xs @ y # ys" "length xs = r" using id_take_nth_drop [OF lt] lt by fastforce
  have parts: "vec_remove r cs = xs @ ys" "cs ! r = y" using cs by (auto simp: vec_remove_def)
  have "distinct (xs @ ys)" "length is \<le> length (xs @ ys)" using Cons.prems cs by auto
  moreover have "map seq_who (fst (draw_committee T (i # is) cs w)) =
      y # map seq_who (fst (draw_committee T is (xs @ ys) w1))"
    by (simp add: r parts split_beta Let_def)
  ultimately show ?case using Cons.IH [of "xs @ ys" w1] Cons.prems(1) cs(1) by auto
qed simp

lemma draw_committee_index:
  "map seq_index (fst (draw_committee T is cs w)) = map (\<lambda>i. filter (\<lambda>x. (x - i) mod 3 = 0) [i..<DISTRIBUTION]) is"
  by (induction "is" arbitrary: cs w) (auto simp: split_beta Let_def)

text \<open>
  C15: Whom a machine is given to. A machine is given out exactly when three members are available, and then to
  three different ones of them. Between them they get each of the nine slots of the 36 hours once: the first
  the slots 0, 3 and 6, the second 1, 4 and 7, the third 2, 5 and 8.
\<close>
theorem oc_work_is_shared:
  assumes "\<And>n w. 0 < n \<Longrightarrow> fst (oc_random_u32 T n w) < n"
    and "ascending (normal (CommitteeV (oc_committee s)))" "get_work_index T s = (r, s')"
  shows "(r = None \<longleftrightarrow> length (normal (CommitteeV (oc_committee s))) < 3) \<and>
    (\<forall>works. r = Some works \<longrightarrow>
       map seq_index works = [[0, 3, 6], [1, 4, 7], [2, 5, 8]] \<and> distinct (map seq_who works) \<and>
       set (map seq_who works) \<subseteq> set (normal (CommitteeV (oc_committee s))))"
proof -
  let ?cs = "normal (CommitteeV (oc_committee s))"
  have dist: "distinct ?cs" using assms(2) by (simp add: strict_sorted_iff)
  have index: "map seq_index (fst (draw_committee T [0, 1, 2] ?cs w)) = [[0, 3, 6], [1, 4, 7], [2, 5, 8]]" for w
    unfolding draw_committee_index by (simp add: DISTRIBUTION_def upt_rec)
  show ?thesis
  proof (cases "length ?cs < 3")
    case True
    then show ?thesis using assms(3) by (auto simp: get_work_index_def available_committee_def split: if_splits)
  next
    case False
    then have "r = Some (fst (draw_committee T [0, 1, 2] ?cs (oc_committee s)))"
      using assms(3) by (auto simp: get_work_index_def available_committee_def split_beta Let_def split: if_splits)
    then show ?thesis
      using False index draw_committee_distinct [OF assms(1) dist, of "[0, 1, 2]" "oc_committee s"] by simp
  qed
qed

section \<open>Departures from the protocol\<close>

subsection \<open>A vote can be copied\<close>

text \<open>
  C36: Committing is open to the end. A member who was given a machine and has not committed can take over what
  another member has revealed: at any block while reveals are accepted, committing to that submission with a
  new random string and revealing it both succeed, and the copied vote is counted like the others.
\<close>
theorem oc_vote_can_be_copied:
  fixes m and T :: "'w oc_config" and s :: "'w oc_state"
  defines "h \<equiv> oc_blake2_128 T" and "c \<equiv> machine_committee s m"
  assumes "a \<in> set (confirmed_committee c)" "upload_machine_id (ops_info (CommitteeOps s a m)) = m"
    and "who \<in> set (booked_committee c)" "who \<notin> set (hashed_committee c)" "oc_status c = SubmittingRaw"
    and "ascending (booked_committee c)" "ascending (hashed_committee c)" "ascending (confirmed_committee c)"
    and "ascending (MachineSubmitedHash s m)" "ascending (cm_hashed_machine (CommitteeMachine s who))"
      "ascending (cm_confirmed_machine (CommitteeMachine s who))" "m \<notin> set (cm_confirmed_machine (CommitteeMachine s who))"
    and "copy = (ops_info (CommitteeOps s a m))\<lparr>rand_str := r\<rparr>" "upload_hash h copy \<notin> set (MachineSubmitedHash s m)"
  shows "\<exists>s1 s2. submit_confirm_hash now (Signed who) m (upload_hash h copy) s = Inr s1 \<and>
    submit_confirm_raw T now (Signed who) copy s1 = Inr s2 \<and> who \<in> set (confirmed_committee (machine_committee s2 m)) \<and>
    ops_info (CommitteeOps s2 who m) = (ops_info (CommitteeOps s a m))\<lparr>rand_str := []\<rparr>"
proof -
  define c1 where "c1 = c\<lparr>hashed_committee := add_item who (hashed_committee c)\<rparr>"
  have "mcl_submit_hash who c = Inr (c1\<lparr>oc_status := SubmittingRaw\<rparr>)"
    using assms by (simp add: mcl_submit_hash_def Let_def il.member_ok c1_def)
  then obtain s1 where s1: "submit_confirm_hash now (Signed who) m (upload_hash h copy) s = Inr s1"
      "machine_committee s1 m = c1\<lparr>oc_status := SubmittingRaw\<rparr>" "confirm_hash (CommitteeOps s1 who m) = upload_hash h copy"
      "CommitteeMachine s1 who = cml_submit_hash m (CommitteeMachine s who)"
    using assms by (auto simp: submit_confirm_hash_def il.member_ok ensure_signed_def ops_submit_hash_def)
  have m: "upload_machine_id copy = m" using assms by simp
  have l: "\<exists>l. cml_submit_raw m (CommitteeMachine s1 who) = Inr l"
    using assms by (simp add: cml_submit_raw_def s1(4) cml_submit_hash_def il.member_ok il.add_ok)
  have mc: "\<exists>c2. mcl_submit_raw now who (machine_committee s1 m) = Inr c2 \<and> who \<in> set (confirmed_committee c2)"
    using assms by (simp add: mcl_submit_raw_def s1(2) c1_def il.member_ok il.add_ok Let_def)
  from l mc obtain s2 where "submit_confirm_raw T now (Signed who) copy s1 = Inr s2"
      "who \<in> set (confirmed_committee (machine_committee s2 m))" "ops_info (CommitteeOps s2 who m) = copy\<lparr>rand_str := []\<rparr>"
    using s1(3) m by (auto simp: submit_confirm_raw_def Let_def h_def c_def ensure_signed_def ops_submit_raw_def)
  then show ?thesis using s1(1) assms by auto
qed

subsection \<open>A lost quorum is never settled\<close>

text \<open>
  What a slash looks like after a vote without consensus in which one member did not reveal: nobody is rewarded,
  the member \<open>u\<close> is to lose the stake of the order and \<open>x\<close> is to get it released.
\<close>

definition no_consensus_slash :: "oc_pending_slash_info \<Rightarrow> account \<Rightarrow> account \<Rightarrow> bool" where
  "no_consensus_slash i u x \<longleftrightarrow>
     stash_slash_amount i = 0 \<and> ocs_reward_committee i = [] \<and> unruly_committee i = [u] \<and> inconsistent_committee i = [x]"

lemma change_used_fails: "used_stake (CommitteeStake w x) < v \<Longrightarrow> change_used_stake C x v False w = None"
  by (simp add: change_used_stake_def do_change_used_stake_def checked_change_def checked_sub_def)

abbreviation staked_of :: "'w oc_state \<Rightarrow> account \<Rightarrow> balance" where
  "staked_of s u \<equiv> committee_stake.staked_amount (CommitteeStake (oc_committee s) u)"

lemma change_used_frame:
  assumes "change_used_stake C u v is_add w = Some w'"
  shows "committee_stake.staked_amount (CommitteeStake w' a) = committee_stake.staked_amount (CommitteeStake w a)"
    "a \<noteq> u \<Longrightarrow> used_stake (CommitteeStake w' a) = used_stake (CommitteeStake w a)" "cm_world w' = cm_world w"
  using assms by (auto simp: change_used_stake_def do_change_used_stake_def Let_def split: option.splits)

lemma slash_round:
  fixes T :: "'w oc_config"
  assumes "UnhandledSlash s = [n]" "oc_PendingSlash s n = Some i" "no_consensus_slash i u x" "u \<noteq> x"
    and "ocs_slash_exec_time i \<le> now" "used_stake (CommitteeStake (oc_committee s) x) < ocs_committee_stake i"
    and "ocs_committee_stake i \<le> staked_of s u"
  defines "s' \<equiv> check_and_exec_pending_slash T now s"
  shows "staked_of s' u = staked_of s u - ocs_committee_stake i \<and> cm_world (oc_committee s') = cm_world (oc_committee s) \<and>
    UnhandledSlash s' = [n] \<and> oc_PendingSlash s' = oc_PendingSlash s \<and>
    used_stake (CommitteeStake (oc_committee s') x) = used_stake (CommitteeStake (oc_committee s) x)"
proof -
  let ?v = "ocs_committee_stake i" and ?w = "oc_committee s"
  have lists: "slashed_committee i = [u]" "release_committee i = [x]"
    using assms(3) by (simp_all add: no_consensus_slash_def slashed_committee_def release_committee_def)
  have stash: "slash_stash_of T i s = (s, True)" using assms(3) by (simp add: slash_stash_of_def no_consensus_slash_def)
  define w1 where "w1 = ?w\<lparr>CommitteeStake := (CommitteeStake ?w)
    (u := (CommitteeStake ?w u)\<lparr>committee_stake.staked_amount := staked_of s u - ?v\<rparr>)\<rparr>"
  have t: "change_total_stake (oc_cm T) u ?v False False ?w = Some w1"
    using assms(7) by (simp add: change_total_stake_def do_change_reserved_def checked_change_def checked_sub_def w1_def)
  have w1: "used_stake (CommitteeStake w1 x) = used_stake (CommitteeStake ?w x)" "cm_world w1 = cm_world ?w"
    "committee_stake.staked_amount (CommitteeStake w1 u) = staked_of s u - ?v" using assms(4) by (simp_all add: w1_def)
  obtain w' where s': "s' = (put_committee w' s)\<lparr>UnhandledSlash := [n]\<rparr>"
    and w': "used_stake (CommitteeStake w' x) = used_stake (CommitteeStake ?w x)" "cm_world w' = cm_world ?w"
      "committee_stake.staked_amount (CommitteeStake w' u) = staked_of s u - ?v"
  proof (cases "change_used_stake (oc_cm T) u ?v False w1")
    case None
    then have "s' = (put_committee w1 s)\<lparr>UnhandledSlash := [n]\<rparr>"
      using assms(1,2,5) stash lists t
      by (simp add: s'_def check_and_exec_pending_slash_def do_a_slash_def oc_change_committee_stake_def Let_def)
    then show ?thesis using w1 that by blast
  next
    case (Some w2)
    note frame = change_used_frame [OF Some]
    have f: "change_used_stake (oc_cm T) x ?v False w2 = None"
      using frame(2) [of x] w1(1) assms(4,6) by (simp add: change_used_fails)
    have "s' = (put_committee w2 s)\<lparr>UnhandledSlash := [n]\<rparr>"
      using assms(1,2,5) stash lists t f Some
      by (simp add: s'_def check_and_exec_pending_slash_def do_a_slash_def oc_change_committee_stake_def Let_def
        put_committee_def)
    then show ?thesis using w1 frame assms(4) that by auto
  qed
  then show ?thesis using assms(1) by (simp add: put_committee_def)
qed


subsection \<open>A review lasts to the end of its block\<close>

lemma review_frame_Some:
  "change_committee_used_stake T who v is_add s = Some s' \<Longrightarrow> oc_PendingSlashReview s' = oc_PendingSlashReview s"
  "change_committee_total_stake T who v is_add cr s = Some s' \<Longrightarrow> oc_PendingSlashReview s' = oc_PendingSlashReview s"
  "on_profile f s = Some s' \<Longrightarrow> oc_PendingSlashReview s' = oc_PendingSlashReview s"
  by (auto simp: change_committee_used_stake_def change_committee_total_stake_def on_profile_def put_committee_def)

lemma review_frame_pair:
  "oc_change_committee_stake T cs v is_slash s = (s', ok) \<Longrightarrow> oc_PendingSlashReview s' = oc_PendingSlashReview s"
  "oc_slash_and_reward T who v reward s = (s', ok) \<Longrightarrow> oc_PendingSlashReview s' = oc_PendingSlashReview s"
  by (auto simp: oc_change_committee_stake_def oc_slash_and_reward_def Let_def put_committee_def)

lemma review_frame_stash: "slash_stash_of T i s = (s', ok) \<Longrightarrow> oc_PendingSlashReview s' = oc_PendingSlashReview s"
  by (auto simp: slash_stash_of_def split: option.splits if_splits dest!: review_frame_Some review_frame_pair)

lemma review_frame_slash: "do_a_slash T now n (ps, s) = (ps', s') \<Longrightarrow> oc_PendingSlashReview s' = oc_PendingSlashReview s"
  by (auto simp: do_a_slash_def Let_def split: option.splits prod.splits if_splits
    dest!: review_frame_stash review_frame_pair)

lemma review_frame_slashes: "oc_PendingSlashReview (snd (fold (do_a_slash T now) ns (ps, s))) = oc_PendingSlashReview s"
proof (induction ns arbitrary: ps s)
  case (Cons n ns)
  obtain ps1 s1 where "do_a_slash T now n (ps, s) = (ps1, s1)" by (cases "do_a_slash T now n (ps, s)")
  with Cons.IH [of ps1 s1] show ?case by (simp add: review_frame_slash)
qed simp

lemma change_stake_then_slash:
  assumes "change_stake P a v True p = Some p'"
  shows "\<exists>p''. exec_slash_stake a v p' = Some p''"
  using assms by (auto simp: change_stake_def exec_slash_stake_def op_deposit_event_def on_stake_changed_def int_ops
    split: option.splits if_splits)

lemma raised_stake_then_slash:
  assumes "change_total_stake C a v True True w = Some w1" "change_used_stake C a v True w1 = Some w2"
  shows "snd (change_committee_stake C [a] v True w2)"
proof -
  have "v \<le> committee_stake.staked_amount (CommitteeStake w1 a)"
    using assms(1) by (auto simp: change_total_stake_def do_change_reserved_def checked_change_def checked_Some
      split: option.splits if_splits)
  then have staked: "v \<le> committee_stake.staked_amount (CommitteeStake w2 a)" using change_used_frame(1) [OF assms(2)] by simp
  have used: "v \<le> used_stake (CommitteeStake w2 a)"
    using assms(2) by (auto simp: change_used_stake_def do_change_used_stake_def checked_change_def checked_Some Let_def
      split: option.splits if_splits)
  show ?thesis
    using staked used
    by (auto simp: change_total_stake_def do_change_reserved_def checked_change_def checked_sub_def change_used_stake_def
      do_change_used_stake_def Let_def split: option.splits)
qed

text \<open>
  A review can only be granted in the block it is filed in. The hook punishes the applicant of a review that
  has not expired, although it should do so only once the review has expired. So whoever files a review (with no
  other review pending) has lost the extra stake, and the review itself, with the hook of the next block: from
  then on a cancellation of the slash is refused.
\<close>
lemma oc_review_lost_next_block:
  fixes now
  assumes "\<And>who v reward w. snd (oc_SlashAndReward T who v reward w)"
    and "\<And>f. finite (dom f) \<Longrightarrow> distinct (oc_review_iter T f) \<and> set (oc_review_iter T f) = dom f"
    and "oc_PendingSlashReview s = Map.empty" "apply_slash_review T now (Signed who) n rsn s = Inr s1"
    and "oc_PendingSlash s n = Some slash" "ocs_machine_stash slash \<noteq> Some who"
    and "s2 = oc_on_initialize T (now + 1) s1" "oc_CancelSlashOrigin T orig"
  shows "oc_PendingSlashReview s1 n \<noteq> None \<and> oc_PendingSlashReview s2 n = None \<and>
    oc_cancel_slash T now' orig n s2 = Inl NotPendingReviewSlash"
proof -
  obtain slashed stake sa where
    before: "now < ocs_slash_exec_time slash"
    and paid: "applicant_is_stash slashed slash \<and>
        on_profile (change_staked_balance (oc_op T) slashed stake True) s = Some sa \<or>
      slashed = who \<and> (\<exists>sb. change_committee_total_stake T who stake True True s = Some sb \<and>
        change_committee_used_stake T who stake True sb = Some sa)"
    and s1: "s1 = sa\<lparr>oc_PendingSlashReview := (oc_PendingSlashReview sa)(n \<mapsto>
      \<lparr>ocr_applicant = slashed, ocr_staked_amount = stake, ocr_apply_time = now,
       ocr_expire_time = ocs_slash_exec_time slash, ocr_reason = rsn\<rparr>)\<rparr>"
    using assms(4,5)
    by (auto simp: apply_slash_review_def Let_def ensure_signed_def stake_per_order_def split: option.splits if_splits)
  define review where "review = \<lparr>ocr_applicant = slashed, ocr_staked_amount = stake, ocr_apply_time = now,
    ocr_expire_time = ocs_slash_exec_time slash, ocr_reason = rsn\<rparr>"
  have sa: "oc_PendingSlashReview sa = Map.empty" "oc_PendingSlash sa = oc_PendingSlash s"
    using paid assms(3) by (auto simp: change_committee_used_stake_def change_committee_total_stake_def on_profile_def
      put_committee_def)
  have r1: "oc_PendingSlashReview s1 = [n \<mapsto> review]" and p1: "oc_PendingSlash s1 n = Some slash"
    using sa assms(5) by (simp_all add: s1 review_def)
  have iter: "oc_review_iter T (oc_PendingSlashReview s1) = [n]"
    using assms(2) [of "[n \<mapsto> review]"] unfolding r1
    by (cases "oc_review_iter T [n \<mapsto> review]") (auto simp: subset_singleton_iff)
  have ok: "snd (slash_applicant T slash review s1)"
  proof (cases "applicant_is_stash slashed slash")
    case True
    then have stash: "ocs_machine_stash slash = Some slashed" "book_result slash = OnlineRefused"
      by (auto simp: applicant_is_stash_def)
    then have "change_stake (oc_op T) slashed stake True (oc_profile s) = Some (oc_profile s1)"
      using paid assms(6) by (auto simp: on_profile_def change_staked_balance_def s1)
    then obtain p where "exec_slash_stake slashed stake (oc_profile s1) = Some p" using change_stake_then_slash by blast
    then show ?thesis using assms(1) stash
      by (simp add: slash_applicant_def on_profile_def review_def oc_slash_and_reward_def Let_def)
  next
    case False
    then obtain w1 where "change_total_stake (oc_cm T) who stake True True (oc_committee s) = Some w1"
        "change_used_stake (oc_cm T) who stake True w1 = Some (oc_committee s1)" "slashed = who"
      using paid by (auto simp: change_committee_used_stake_def change_committee_total_stake_def put_committee_def s1)
    note raised_stake_then_slash [OF this(1,2)] \<open>slashed = who\<close>
    then show ?thesis using assms(6)
      by (auto simp: slash_applicant_def oc_change_committee_stake_def review_def Let_def
        simp del: change_committee_stake.simps split: option.splits)
  qed
  have "oc_PendingSlashReview (do_a_pending_review T (now + 1) n s1) n = None"
    using ok assms(1) before r1 p1
    by (simp add: do_a_pending_review_def review_def oc_slash_and_reward_def put_committee_def Let_def split_beta)
  then have "oc_PendingSlashReview s2 n = None"
    unfolding assms(7) oc_on_initialize_def check_and_exec_pending_review_def check_and_exec_pending_slash_def iter
    by (simp add: split_beta Let_def review_frame_slashes)
  then show ?thesis using r1 assms(8) by (simp add: oc_cancel_slash_def)
qed

section \<open>A concrete chain\<close>

text \<open>
  The pallets on one ledger: generic-func and the committee on the balances, online-profile on the committee.
\<close>

definition cm_random_u32 :: "nat \<Rightarrow> ledger gf_state cm_state \<Rightarrow> nat \<times> ledger gf_state cm_state" where
  "cm_random_u32 n = over_cm (\<lambda>w. case random_u32 gf_ledger n w of Some r \<Rightarrow> r | None \<Rightarrow> (0, w))"

definition oc_ledger :: "ledger gf_state oc_config" where
  "oc_ledger =
     \<lparr>oc_op = chain_op, oc_cm = chain_cm,
      oc_SlashAndReward = cm_slash_and_reward, oc_random_u32 = cm_random_u32, oc_CancelSlashOrigin = ensure_root,
      oc_blake2_128 = (\<lambda>b. take 2 (rev b)), oc_review_iter = (\<lambda>f. sorted_list_of_set (dom f))\<rparr>"

lemma oc_ledger_sel:
  "op_Currency (oc_op oc_ledger) = lift_currency cm_world (\<lambda>w. cm_world_update (\<lambda>_. w)) (gf_currency gf_ledger)"
  "op_Perthing (oc_op oc_ledger) = perthing_ops_ref" "op_SlashAndReward (oc_op oc_ledger) = cm_slash_and_reward"
  "op_add_reward (oc_op oc_ledger) = add_reward"
  "cm_Currency (oc_cm oc_ledger) = gf_currency gf_ledger" "cm_Perthing (oc_cm oc_ledger) = perthing_ops_ref"
  "oc_SlashAndReward oc_ledger = cm_slash_and_reward" "oc_random_u32 oc_ledger = cm_random_u32"
  "oc_CancelSlashOrigin oc_ledger = ensure_root" "oc_blake2_128 oc_ledger b = take 2 (rev b)"
  "oc_review_iter oc_ledger f = sorted_list_of_set (dom f)"
  by (simp_all add: oc_ledger_def chain_sel)

lemma cm_random_u32_less: "0 < n \<Longrightarrow> fst (cm_random_u32 n w) < n"
  by (simp add: cm_random_u32_def over_cm_def random_u32_def pick_u32_def split_beta Let_def)

text \<open>The members 2, 3 and 4 are available, and the machine \<open>[9]\<close> waits.\<close>

definition oc_demo0 :: "ledger gf_state oc_state" where
  "oc_demo0 = oc_init ((op_init demo_committee)
     \<lparr>LiveMachines := default_live\<lparr>confirmed_machine := [[9]]\<rparr>, MachinesInfo := [[9] \<mapsto> mi_new_bonding 6 5 0 100]\<rparr>)"

definition oc_demo1 :: "ledger gf_state oc_state" where
  "oc_demo1 = oc_on_finalize oc_ledger 10 oc_demo0"

lemmas oc_eval = ignoring_def oc_ledger_sel Let_def ensure_signed_def list_defs int_ops submit_times machine_committee_def
  put_machine_committee_def put_committee_machine_def put_ops_def oc_deposit_event_def put_committee_def on_profile_def
  default_machine_committee_def default_committee_machine_def default_ops_def

lemma oc_demo0_sel:
  "LiveMachines (oc_profile oc_demo0) = default_live\<lparr>confirmed_machine := [[9]]\<rparr>"
  "oc_committee oc_demo0 = demo_committee" "MachineCommittee oc_demo0 = Map.empty"
  by (simp_all add: oc_demo0_def oc_init_def op_init_def)

lemma oc_demo_statistic: "statistic_result oc_ledger 10 oc_demo0 = oc_demo0"
  by (simp add: statistic_result_def oc_demo0_sel default_live_def)

lemma oc_demo_works:
  "get_work_index oc_ledger oc_demo0 =
     (Some [\<lparr>seq_who = 4, seq_index = [0, 3, 6]\<rparr>, \<lparr>seq_who = 2, seq_index = [1, 4, 7]\<rparr>, \<lparr>seq_who = 3, seq_index = [2, 5, 8]\<rparr>],
      put_committee (demo_committee\<lparr>cm_world := (cm_world demo_committee)\<lparr>RandNonce := 3\<rparr>\<rparr>) oc_demo0)"
  by (simp add: get_work_index_def available_committee_def oc_demo0_sel demo_committee_def cm_init_def default_list_def
    oc_ledger_sel cm_random_u32_def over_cm_def random_u32_def update_nonce_def gf_ledger_def pick_u32_def vec_remove_def
    Let_def DISTRIBUTION_def upt_rec flip: numeral_2_eq_2 numeral_3_eq_3)

lemma oc_demo1_eq:
  "oc_demo1 = ignoring (on_profile (booked_machine_op [9]))
     (book_loop oc_ledger [9] 21610 10
       [\<lparr>seq_who = 4, seq_index = [0, 3, 6]\<rparr>, \<lparr>seq_who = 2, seq_index = [1, 4, 7]\<rparr>, \<lparr>seq_who = 3, seq_index = [2, 5, 8]\<rparr>]
       (put_committee (demo_committee\<lparr>cm_world := (cm_world demo_committee)\<lparr>RandNonce := 3\<rparr>\<rparr>) oc_demo0))"
proof -
  have "oc_demo0\<lparr>MachineCommittee := (MachineCommittee oc_demo0)([9] := None)\<rparr> = oc_demo0"
    by (simp add: oc_demo0_def oc_init_def)
  then have "distribute_one oc_ledger 10 [9] oc_demo0 = ignoring (on_profile (booked_machine_op [9]))
      (book_loop oc_ledger [9] (wrapping_add 32 10 SUBMIT_RAW_START) 10
         (the (fst (get_work_index oc_ledger oc_demo0))) (snd (get_work_index oc_ledger oc_demo0)))"
    unfolding distribute_one_def Let_def by (simp only: oc_demo_works prod.case option.case fst_conv snd_conv option.sel)
  moreover have "wrapping_add 32 10 SUBMIT_RAW_START = 21610" by (simp add: wrapping_add_def submit_times)
  ultimately show ?thesis
    by (simp add: oc_demo1_def oc_on_finalize_def oc_demo_statistic distribute_machines_def oc_demo0_sel oc_demo_works
      del: book_loop.simps)
qed

lemma oc_demo1_sel:
  "MachineCommittee oc_demo1 [9] =
     Some (default_machine_committee\<lparr>book_time := 10, booked_committee := [2, 3, 4], confirm_start_time := 21610\<rparr>)"
  "MachineSubmitedHash oc_demo1 [9] = []"
  "CommitteeMachine oc_demo1 2 = default_committee_machine\<lparr>cm_booked_machine := [[9]]\<rparr>"
  unfolding oc_demo1_eq
  by (simp_all add: book_one_def write_booking_def change_committee_used_stake_def change_used_stake_def
    do_change_used_stake_def do_change_status_when_stake_changed_def free_stake_enough_def checked_change_def
    stake_per_order_def oc_eval oc_demo0_def oc_init_def demo_committee_def cm_init_def op_init_def default_stake_def
    is_fulfilling_def is_normal_def default_list_def perthing_ops_ref_sel booked_machine_op_def move_machine_def)

definition oc_demo_info :: committee_upload_info where
  "oc_demo_info = default_upload\<lparr>upload_machine_id := [9], rand_str := [7], is_support := True\<rparr>"

lemma oc_demo_hash: "upload_hash (oc_blake2_128 oc_ledger) oc_demo_info = [49, 7]"
  by (simp add: upload_hash_def oc_ledger_sel upload_raw_info_def join_str_def oc_demo_info_def default_upload_def)

theorem oc_votes_committed_witness:
  "\<exists>s. (oc_step oc_ledger)\<^sup>*\<^sup>* oc_demo0 s \<and> 2 \<in> set (confirmed_committee (machine_committee s [9])) \<and>
     (\<exists>r. upload_hash (oc_blake2_128 oc_ledger) ((ops_info (CommitteeOps s 2 [9]))\<lparr>rand_str := r\<rparr>) = [49, 7])"
proof -
  have mc: "machine_committee oc_demo1 [9] =
      default_machine_committee\<lparr>book_time := 10, booked_committee := [2, 3, 4], confirm_start_time := 21610\<rparr>"
    by (simp add: machine_committee_def oc_demo1_sel)
  have m: "upload_machine_id oc_demo_info = [9]" by (simp add: oc_demo_info_def)
  obtain s2 where s2: "submit_confirm_hash 20 (Signed 2) [9] [49, 7] oc_demo1 = Inr s2"
      "confirm_hash (CommitteeOps s2 2 [9]) = [49, 7]"
      "machine_committee s2 [9] = default_machine_committee\<lparr>book_time := 10, booked_committee := [2, 3, 4],
        confirm_start_time := 21610, hashed_committee := [2]\<rparr>"
      "CommitteeMachine s2 2 = default_committee_machine\<lparr>cm_hashed_machine := [[9]]\<rparr>"
    by (simp add: submit_confirm_hash_def oc_demo1_sel ensure_signed_def mc mcl_submit_hash_def
      cml_submit_hash_def ops_submit_hash_def list_defs default_machine_committee_def default_committee_machine_def)
  obtain s3 where s3: "submit_confirm_raw oc_ledger 22000 (Signed 2) oc_demo_info s2 = Inr s3"
      "ops_status (CommitteeOps s3 2 [9]) = OpsConfirmed" "confirm_hash (CommitteeOps s3 2 [9]) = [49, 7]"
      "booked_committee (machine_committee s3 [9]) = [2, 3, 4]" "confirmed_committee (machine_committee s3 [9]) = [2]"
    by (simp add: submit_confirm_raw_def ensure_signed_def mcl_submit_raw_def cml_submit_raw_def ops_submit_raw_def
      list_defs Let_def int_ops submit_times default_machine_committee_def default_committee_machine_def
      s2(2-4) m oc_demo_hash)
  have "oc_step oc_ledger oc_demo0 oc_demo1" unfolding oc_demo1_def by (rule oc_step.finalized)
  moreover have "oc_step oc_ledger oc_demo1 s2"
    by (rule oc_step.called [where c = "SubmitConfirmHash [9] [49, 7]" and now = 20 and orig = "Signed 2"])
      (simp add: s2(1))
  moreover have "oc_step oc_ledger s2 s3"
    by (rule oc_step.called [where c = "SubmitConfirmRaw oc_demo_info" and now = 22000 and orig = "Signed 2"])
      (simp add: s3(1))
  ultimately have run: "(oc_step oc_ledger)\<^sup>*\<^sup>* oc_demo0 s3" by (meson r_into_rtranclp rtranclp_trans)
  then show ?thesis using oc_votes_committed [of oc_ledger _ s3 "[9]"] s3 unfolding oc_demo0_def by auto
qed

theorem oc_work_is_shared_witness:
  "map seq_index (the (fst (get_work_index oc_ledger oc_demo0))) = [[0, 3, 6], [1, 4, 7], [2, 5, 8]]"
  using oc_work_is_shared [of oc_ledger oc_demo0 "fst (get_work_index oc_ledger oc_demo0)"
    "snd (get_work_index oc_ledger oc_demo0)"] cm_random_u32_less
  by (auto simp: oc_ledger_sel oc_demo0_sel demo_committee_def default_list_def)

text \<open>Member 2 has revealed, member 3 has committed, and member 4 copies the submission of 2.\<close>

definition oc_demo_voting :: "ledger gf_state oc_state" where
  "oc_demo_voting = oc_demo0
     \<lparr>MachineCommittee := [[9] \<mapsto> default_machine_committee\<lparr>booked_committee := [2, 3, 4], hashed_committee := [2, 3],
        confirmed_committee := [2], oc_status := SubmittingRaw\<rparr>],
      MachineSubmitedHash := (\<lambda>_. [[49, 6], [49, 7]]),
      CommitteeOps := (\<lambda>a m. if a = 2 then default_ops\<lparr>ops_status := OpsConfirmed, ops_info := oc_demo_info\<lparr>rand_str := []\<rparr>\<rparr>
        else default_ops)\<rparr>"

theorem oc_vote_can_be_copied_witness:
  "\<exists>s1 s2. submit_confirm_hash 30000 (Signed 4) [9] [49, 8] oc_demo_voting = Inr s1 \<and>
     submit_confirm_raw oc_ledger 30000 (Signed 4) (oc_demo_info\<lparr>rand_str := [8]\<rparr>) s1 = Inr s2 \<and>
     4 \<in> set (confirmed_committee (machine_committee s2 [9])) \<and>
     ops_info (CommitteeOps s2 4 [9]) = oc_demo_info\<lparr>rand_str := []\<rparr>"
proof -
  have h: "upload_hash (oc_blake2_128 oc_ledger) (oc_demo_info\<lparr>rand_str := [8]\<rparr>) = [49, 8]"
    by (simp add: upload_hash_def oc_ledger_sel upload_raw_info_def join_str_def oc_demo_info_def default_upload_def)
  have i: "ops_info (CommitteeOps oc_demo_voting 2 [9]) = oc_demo_info\<lparr>rand_str := []\<rparr>"
    by (simp add: oc_demo_voting_def)
  show ?thesis
    using oc_vote_can_be_copied [of 2 oc_demo_voting "[9]" 4 "oc_demo_info\<lparr>rand_str := [8]\<rparr>" "[8]" oc_ledger 30000] h i
    by (simp add: oc_demo_voting_def machine_committee_def oc_demo0_def oc_init_def default_committee_machine_def)
      (simp add: oc_demo_info_def)
qed

text \<open>Slashes that are due from block 5: one without consensus, one in which member 3 was outvoted.\<close>

definition oc_demo_slash :: oc_pending_slash_info where
  "oc_demo_slash =
     \<lparr>ocs_machine_id = [9], ocs_machine_stash = None, stash_slash_amount = 0, inconsistent_committee = [3],
      unruly_committee = [4], ocs_reward_committee = [], ocs_committee_stake = 100, ocs_slash_time = 0,
      ocs_slash_exec_time = 5, book_result = BookNoConsensus, slash_result = Pending\<rparr>"

definition oc_demo_due :: "ledger gf_state oc_state" where
  "oc_demo_due = oc_demo0\<lparr>oc_PendingSlash := [0 \<mapsto> oc_demo_slash], UnhandledSlash := [0]\<rparr>"


definition oc_demo_outvoted :: "ledger gf_state oc_state" where
  "oc_demo_outvoted = oc_demo0
     \<lparr>oc_profile := (oc_profile oc_demo0)\<lparr>ControllerStash := [3 \<mapsto> 5]\<rparr>,
      oc_PendingSlash := [0 \<mapsto> oc_demo_slash\<lparr>unruly_committee := [], ocs_reward_committee := [2, 4], book_result := OnlineSucceed\<rparr>],
      UnhandledSlash := [0]\<rparr>"

lemma oc_review_lost_next_block_witness:
  "\<exists>s1. apply_slash_review oc_ledger 1 (Signed 3) 0 [] oc_demo_outvoted = Inr s1 \<and>
     oc_cancel_slash oc_ledger 3 Root 0 (oc_on_initialize oc_ledger 2 s1) = Inl NotPendingReviewSlash"
proof -
  obtain s1 where s1: "apply_slash_review oc_ledger 1 (Signed 3) 0 [] oc_demo_outvoted = Inr s1"
    by (simp add: apply_slash_review_def oc_demo_outvoted_def oc_demo_slash_def oc_demo0_def oc_init_def op_init_def
      demo_committee_def stake_per_order_def applicant_is_stash_def applicant_is_committee_def oc_eval
      lift_currency_sel gf_currency_def gf_ledger_sel ledger_defs change_committee_total_stake_def change_total_stake_def
      do_change_reserved_def checked_change_def default_stake_def change_committee_used_stake_def change_used_stake_def
      do_change_used_stake_def cm_init_def)
  have "oc_cancel_slash oc_ledger 3 Root 0 (oc_on_initialize oc_ledger (1 + 1) s1) = Inl NotPendingReviewSlash"
    by (rule conjunct2 [OF conjunct2 [OF oc_review_lost_next_block [OF _ _ _ s1 _ _ refl, where slash = "oc_demo_slash
      \<lparr>unruly_committee := [], ocs_reward_committee := [2, 4], book_result := OnlineSucceed\<rparr>"]]])
      (simp_all add: oc_ledger_sel cm_slash_and_reward_ok oc_demo_outvoted_def oc_demo_slash_def oc_demo0_def oc_init_def
        ensure_root_def)
  then show ?thesis using s1 by (metis one_add_one)
qed

end
