(* ===== verification/Report_Types.thy ===== *)
theory Report_Types
  imports Machine_Types
begin

text \<open>
  The data with which faults of machines are reported and judged (\<open>pallets/support/src/report/\<close>): the report
  itself, the lists of live reports, what a member of the committee did for a report, the record of a reporter
  and the result of a report, each with its operations. The lemmas say that the operations keep a report
  well-formed: who has a vote had committed to it, who committed had booked, at most three do.
\<close>

section \<open>Data\<close>

type_synonym report_id = nat

definition FIVE_MINUTES :: nat where "FIVE_MINUTES = 5 * ONE_MINUTE"
definition THREE_HOURS :: nat where "THREE_HOURS = 3 * ONE_HOUR"

lemmas report_times = FIVE_MINUTES_def THREE_HOURS_def time_defs

datatype report_err =
    OrderNotAllowBook_err | AlreadyBooked_err | NotNeedEncryptedInfo_err | NotOrderReporter_err
  | OrderStatusNotFeat_err | NotOrderCommittee_err | NotInBookedList_err | NotProperCommittee_err

text \<open>The last three carry the hash the reporter committed to and a public key.\<close>

datatype machine_fault_type =
    FaultInaccessible machine_id rent_order_id
  | FaultHardwareMalfunction bytes bytes
  | FaultHardwareCounterfeit bytes bytes
  | FaultRentFailed bytes bytes

fun fault_hash :: "machine_fault_type \<Rightarrow> bytes option" where
  "fault_hash (FaultHardwareMalfunction h k) = Some h"
| "fault_hash (FaultHardwareCounterfeit h k) = Some h"
| "fault_hash (FaultRentFailed h k) = Some h"
| "fault_hash (FaultInaccessible m r) = None"

definition is_inaccessible :: "machine_fault_type \<Rightarrow> bool" where
  "is_inaccessible f = (case f of FaultInaccessible m r \<Rightarrow> True | _ \<Rightarrow> False)"

fun into_op_err :: "machine_fault_type \<Rightarrow> block_number \<Rightarrow> op_slash_reason" where
  "into_op_err (FaultInaccessible m r) t = RentedInaccessible t"
| "into_op_err (FaultHardwareMalfunction h k) t = RentedHardwareMalfunction t"
| "into_op_err (FaultHardwareCounterfeit h k) t = RentedHardwareCounterfeit t"
| "into_op_err (FaultRentFailed h k) t = OnlineRentFailed t"

datatype report_status_type = Reported | WaitingBook | Verifying | SubmittingRaw | CommitteeConfirmed

record reporter_stake_params_info =
  reporter_stake_baseline :: balance
  stake_per_report :: balance
  reporter_min_free_percent :: nat

section \<open>A report\<close>

record report_info_detail =
  ri_reporter :: account
  ri_report_time :: block_number
  ri_reporter_stake :: balance
  first_book_time :: block_number
  ri_machine_id :: machine_id
  ri_rent_order_id :: rent_order_id
  err_info :: bytes
  verifying_committee :: "account option"
  ri_booked :: "account list"
  encrypted_info_committee :: "account list"
  ri_hashed :: "account list"
  confirm_start :: block_number
  ri_confirmed :: "account list"
  support_committee :: "account list"
  against_committee :: "account list"
  report_status :: report_status_type
  fault_type :: machine_fault_type

definition ri_new :: "account \<Rightarrow> block_number \<Rightarrow> machine_fault_type \<Rightarrow> balance \<Rightarrow> report_info_detail" where
  "ri_new who time fault stake =
     (let i = \<lparr>ri_reporter = who, ri_report_time = time, ri_reporter_stake = stake, first_book_time = 0,
               ri_machine_id = [], ri_rent_order_id = 0, err_info = [], verifying_committee = None, ri_booked = [],
               encrypted_info_committee = [], ri_hashed = [], confirm_start = 0, ri_confirmed = [],
               support_committee = [], against_committee = [], report_status = Reported, fault_type = fault\<rparr>
      in case fault of
           FaultInaccessible m r \<Rightarrow> i\<lparr>ri_machine_id := m, ri_rent_order_id := r\<rparr>
         | _ \<Rightarrow> i)"

definition can_book :: "account \<Rightarrow> report_info_detail \<Rightarrow> report_err option" where
  "can_book who i =
     (if ri_report_time i = 0 then Some OrderNotAllowBook_err
      else if \<not> (report_status i = Reported \<or> report_status i = WaitingBook) then Some OrderNotAllowBook_err
      else if \<not> length (ri_booked i) < 3 then Some OrderNotAllowBook_err
      else if is_ok (binary_search who (ri_booked i)) then Some AlreadyBooked_err
      else None)"

definition can_submit_encrypted_info :: "account \<Rightarrow> account \<Rightarrow> report_info_detail \<Rightarrow> report_err option" where
  "can_submit_encrypted_info from_who to_who i =
     (if is_inaccessible (fault_type i) then Some NotNeedEncryptedInfo_err
      else if ri_reporter i \<noteq> from_who then Some NotOrderReporter_err
      else if report_status i \<noteq> Verifying then Some OrderStatusNotFeat_err
      else if \<not> is_ok (binary_search to_who (ri_booked i)) then Some NotOrderCommittee_err
      else None)"

definition ri_can_submit_hash :: "report_info_detail \<Rightarrow> report_err option" where
  "ri_can_submit_hash i =
     (if is_inaccessible (fault_type i)
      then if report_status i = WaitingBook \<or> report_status i = Verifying then None else Some OrderStatusNotFeat_err
      else if report_status i = Verifying then None else Some OrderStatusNotFeat_err)"

definition ri_can_submit_raw :: "account \<Rightarrow> report_info_detail \<Rightarrow> report_err option" where
  "ri_can_submit_raw who i =
     (if report_status i \<noteq> SubmittingRaw then Some OrderStatusNotFeat_err
      else if \<not> is_ok (binary_search who (ri_hashed i)) then Some NotProperCommittee_err
      else None)"

definition get_reporter_hash :: "report_info_detail \<Rightarrow> report_err + bytes" where
  "get_reporter_hash i = (case fault_hash (fault_type i) of None \<Rightarrow> Inl OrderStatusNotFeat_err | Some h \<Rightarrow> Inr h)"

definition can_submit_inaccessible_raw :: "account \<Rightarrow> report_info_detail \<Rightarrow> report_err option" where
  "can_submit_inaccessible_raw who i =
     (if report_status i \<noteq> SubmittingRaw then Some OrderStatusNotFeat_err
      else if \<not> is_inaccessible (fault_type i) then Some OrderStatusNotFeat_err
      else if \<not> is_ok (binary_search who (ri_hashed i)) then Some NotProperCommittee_err
      else None)"

definition can_summary_fault :: "report_info_detail \<Rightarrow> bool" where
  "can_summary_fault i \<longleftrightarrow> \<not> (first_book_time i = 0 \<or> is_inaccessible (fault_type i))"

definition ri_can_summary :: "block_number \<Rightarrow> report_info_detail \<Rightarrow> bool" where
  "ri_can_summary now i =
     (if first_book_time i = 0 then False
      else if is_inaccessible (fault_type i) then False
      else if saturating_sub now (first_book_time i) < FOUR_HOURS \<and> length (ri_hashed i) \<noteq> length (ri_confirmed i)
      then False
      else True)"

datatype report_confirm_status =
    ConfirmedBy "account list" "account list" bytes
  | RefusedBy "account list" "account list"
  | NoConsensusReached

definition ri_summary :: "report_info_detail \<Rightarrow> report_confirm_status" where
  "ri_summary i =
     (if ri_confirmed i = [] then NoConsensusReached
      else if length (against_committee i) \<le> length (support_committee i)
      then ConfirmedBy (support_committee i) (against_committee i) (err_info i)
      else RefusedBy (support_committee i) (against_committee i))"

definition is_confirmed_committee :: "account \<Rightarrow> report_info_detail \<Rightarrow> bool" where
  "is_confirmed_committee who i = is_ok (binary_search who (ri_confirmed i))"

definition ri_book_report :: "account \<Rightarrow> block_number \<Rightarrow> report_info_detail \<Rightarrow> report_info_detail" where
  "ri_book_report who now i0 =
     (let i1 = i0\<lparr>ri_booked := add_item who (ri_booked i0)\<rparr>;
          i2 = (if report_status i1 = Reported
                then i1\<lparr>first_book_time := now,
                        confirm_start := (if is_inaccessible (fault_type i1) then wrapping_add 32 now FIVE_MINUTES
                                          else wrapping_add 32 now THREE_HOURS)\<rparr>
                else i1)
      in if is_inaccessible (fault_type i2)
         then i2\<lparr>report_status := (if length (ri_booked i2) = 3 then Verifying else WaitingBook)\<rparr>
         else i2\<lparr>verifying_committee := Some who, report_status := Verifying\<rparr>)"

definition ri_add_hash :: "account \<Rightarrow> report_info_detail \<Rightarrow> report_info_detail" where
  "ri_add_hash who i0 =
     (let i = i0\<lparr>ri_hashed := add_item who (ri_hashed i0), verifying_committee := None\<rparr>
      in if length (ri_hashed i) = 3 then i\<lparr>report_status := SubmittingRaw\<rparr>
         else if \<not> is_inaccessible (fault_type i) then i\<lparr>report_status := WaitingBook\<rparr>
         else i)"

definition ri_add_raw :: "account \<Rightarrow> bool \<Rightarrow> machine_id option \<Rightarrow> bytes \<Rightarrow> report_info_detail \<Rightarrow> report_info_detail" where
  "ri_add_raw who support m err_reason i0 =
     (let i1 = i0\<lparr>ri_confirmed := add_item who (ri_confirmed i0)\<rparr>;
          i2 = (if support then i1\<lparr>support_committee := add_item who (support_committee i1)\<rparr>
                else i1\<lparr>against_committee := add_item who (against_committee i1)\<rparr>)
      in case m of
           None \<Rightarrow> i2
         | Some m \<Rightarrow> i2\<lparr>err_info := err_reason, ri_machine_id := m\<rparr>)"

definition can_summary_inaccessible :: "block_number \<Rightarrow> report_info_detail \<Rightarrow> bool" where
  "can_summary_inaccessible now i =
     (if first_book_time i = 0 then False
      else if \<not> is_inaccessible (fault_type i) then False
      else if report_status i = Reported \<or> report_status i = CommitteeConfirmed then False
      else if report_status i = SubmittingRaw \<and> saturating_sub now (first_book_time i) < 10 * ONE_MINUTE
      then \<not> length (ri_confirmed i) < length (ri_hashed i) \<and> length (ri_hashed i) \<noteq> 0
      else True)"

definition clean_not_submit_hash_committee :: "account \<Rightarrow> report_info_detail \<Rightarrow> report_info_detail" where
  "clean_not_submit_hash_committee who i0 =
     (let i = i0\<lparr>verifying_committee := None, ri_booked := rm_item who (ri_booked i0),
                 encrypted_info_committee := rm_item who (encrypted_info_committee i0)\<rparr>
      in if ri_booked i = [] then i\<lparr>first_book_time := 0, confirm_start := 0, report_status := Reported\<rparr>
         else i\<lparr>report_status := WaitingBook\<rparr>)"

definition clean_not_submit_raw_committee :: "account \<Rightarrow> report_info_detail \<Rightarrow> report_info_detail" where
  "clean_not_submit_raw_committee who i =
     i\<lparr>verifying_committee := None, ri_booked := rm_item who (ri_booked i),
       encrypted_info_committee := rm_item who (encrypted_info_committee i)\<rparr>"

section \<open>The live reports\<close>

record live_report_list =
  bookable_report :: "report_id list"
  verifying_report :: "report_id list"
  waiting_raw_report :: "report_id list"
  finished_report :: "report_id list"

definition default_live_report :: live_report_list where
  "default_live_report = \<lparr>bookable_report = [], verifying_report = [], waiting_raw_report = [], finished_report = []\<rparr>"

definition lr_new_report :: "report_id \<Rightarrow> live_report_list \<Rightarrow> live_report_list" where
  "lr_new_report n l = l\<lparr>bookable_report := add_item n (bookable_report l)\<rparr>"

definition lr_cancel_report :: "report_id \<Rightarrow> live_report_list \<Rightarrow> live_report_list" where
  "lr_cancel_report n l = l\<lparr>bookable_report := rm_item n (bookable_report l)\<rparr>"

definition lr_book_report :: "report_id \<Rightarrow> machine_fault_type \<Rightarrow> nat \<Rightarrow> live_report_list \<Rightarrow> live_report_list" where
  "lr_book_report n fault booked_count l =
     (if booked_count = 3 \<or> \<not> is_inaccessible fault
      then l\<lparr>bookable_report := rm_item n (bookable_report l), verifying_report := add_item n (verifying_report l)\<rparr>
      else l)"

definition lr_submit_hash :: "report_id \<Rightarrow> machine_fault_type \<Rightarrow> nat \<Rightarrow> live_report_list \<Rightarrow> live_report_list" where
  "lr_submit_hash n fault hashed_count l =
     (if hashed_count = 3
      then l\<lparr>verifying_report := rm_item n (verifying_report l), waiting_raw_report := add_item n (waiting_raw_report l)\<rparr>
      else if \<not> is_inaccessible fault
      then l\<lparr>verifying_report := rm_item n (verifying_report l), bookable_report := add_item n (bookable_report l)\<rparr>
      else l)"

definition time_to_submit_raw :: "report_id \<Rightarrow> live_report_list \<Rightarrow> live_report_list" where
  "time_to_submit_raw n l =
     l\<lparr>bookable_report := rm_item n (bookable_report l), verifying_report := rm_item n (verifying_report l),
       waiting_raw_report := add_item n (waiting_raw_report l)\<rparr>"

definition clean_unfinished_report :: "report_id \<Rightarrow> live_report_list \<Rightarrow> live_report_list" where
  "clean_unfinished_report n l =
     l\<lparr>bookable_report := rm_item n (bookable_report l), verifying_report := rm_item n (verifying_report l),
       waiting_raw_report := rm_item n (waiting_raw_report l)\<rparr>"

definition lr_get_verify_result :: "report_id \<Rightarrow> report_confirm_status \<Rightarrow> live_report_list \<Rightarrow> live_report_list" where
  "lr_get_verify_result n r l =
     (case r of
        NoConsensusReached \<Rightarrow> l\<lparr>waiting_raw_report := rm_item n (waiting_raw_report l)\<rparr>
      | _ \<Rightarrow> l\<lparr>waiting_raw_report := rm_item n (waiting_raw_report l), finished_report := add_item n (finished_report l)\<rparr>)"

definition clean_not_submit_hash_report :: "report_id \<Rightarrow> live_report_list \<Rightarrow> live_report_list" where
  "clean_not_submit_hash_report n l =
     l\<lparr>verifying_report := rm_item n (verifying_report l), bookable_report := add_item n (bookable_report l)\<rparr>"

section \<open>The orders of a member\<close>

record committee_order_list =
  booked_report :: "report_id list"
  hashed_report :: "report_id list"
  confirmed_report :: "report_id list"
  co_finished_report :: "report_id list"

definition default_committee_order :: committee_order_list where
  "default_committee_order = \<lparr>booked_report = [], hashed_report = [], confirmed_report = [], co_finished_report = []\<rparr>"

definition clean_unfinished_order :: "report_id \<Rightarrow> committee_order_list \<Rightarrow> committee_order_list" where
  "clean_unfinished_order n l =
     l\<lparr>booked_report := rm_item n (booked_report l), hashed_report := rm_item n (hashed_report l),
       confirmed_report := rm_item n (confirmed_report l)\<rparr>"

definition co_can_submit_hash :: "report_id \<Rightarrow> committee_order_list \<Rightarrow> report_err option" where
  "co_can_submit_hash n l = (if is_ok (binary_search n (booked_report l)) then None else Some NotInBookedList_err)"

definition co_add_hash :: "report_id \<Rightarrow> committee_order_list \<Rightarrow> committee_order_list" where
  "co_add_hash n l = l\<lparr>booked_report := rm_item n (booked_report l), hashed_report := add_item n (hashed_report l)\<rparr>"

definition co_add_raw :: "report_id \<Rightarrow> committee_order_list \<Rightarrow> committee_order_list" where
  "co_add_raw n l = l\<lparr>hashed_report := rm_item n (hashed_report l), confirmed_report := add_item n (confirmed_report l)\<rparr>"

definition clean_when_summary :: "report_id \<Rightarrow> bool \<Rightarrow> committee_order_list \<Rightarrow> committee_order_list" where
  "clean_when_summary n confirmed l =
     (let l1 = l\<lparr>hashed_report := rm_item n (hashed_report l)\<rparr>
      in if confirmed
         then l1\<lparr>confirmed_report := rm_item n (confirmed_report l1), co_finished_report := add_item n (co_finished_report l1)\<rparr>
         else l1\<lparr>booked_report := rm_item n (booked_report l1)\<rparr>)"

datatype order_status_type = OrderWaitingEncrypt | OrderVerifying | OrderWaitingRaw | OrderFinished

record committee_ops_detail =
  booked_time :: block_number
  encrypted_err_info :: "bytes option"
  encrypted_time :: block_number
  report_confirm_hash :: bytes
  report_hash_time :: block_number
  extra_err_info :: bytes
  report_confirm_time :: block_number
  confirm_result :: bool
  staked_balance :: balance
  order_status :: order_status_type

definition default_report_ops :: committee_ops_detail where
  "default_report_ops =
     \<lparr>booked_time = 0, encrypted_err_info = None, encrypted_time = 0, report_confirm_hash = replicate 16 0,
      report_hash_time = 0, extra_err_info = [], report_confirm_time = 0, confirm_result = False, staked_balance = 0,
      order_status = OrderVerifying\<rparr>"

definition add_encry_info :: "bytes \<Rightarrow> block_number \<Rightarrow> committee_ops_detail \<Rightarrow> committee_ops_detail" where
  "add_encry_info e time ops = ops\<lparr>encrypted_err_info := Some e, encrypted_time := time, order_status := OrderVerifying\<rparr>"

definition od_book_report ::
    "machine_fault_type \<Rightarrow> block_number \<Rightarrow> balance \<Rightarrow> committee_ops_detail \<Rightarrow> committee_ops_detail" where
  "od_book_report fault now order_stake ops =
     (let ops1 = ops\<lparr>booked_time := now\<rparr>
      in if is_inaccessible fault then ops1\<lparr>order_status := OrderVerifying\<rparr>
         else ops1\<lparr>staked_balance := order_stake, order_status := OrderWaitingEncrypt\<rparr>)"

definition od_can_submit_hash :: "committee_ops_detail \<Rightarrow> report_err option" where
  "od_can_submit_hash ops = (if order_status ops = OrderVerifying then None else Some OrderStatusNotFeat_err)"

definition od_add_hash :: "bytes \<Rightarrow> block_number \<Rightarrow> committee_ops_detail \<Rightarrow> committee_ops_detail" where
  "od_add_hash h time ops = ops\<lparr>report_confirm_hash := h, report_hash_time := time, order_status := OrderWaitingRaw\<rparr>"

definition od_add_raw :: "block_number \<Rightarrow> bool \<Rightarrow> bytes \<Rightarrow> committee_ops_detail \<Rightarrow> committee_ops_detail" where
  "od_add_raw time support extra ops =
     ops\<lparr>report_confirm_time := time, extra_err_info := extra, confirm_result := support, order_status := OrderFinished\<rparr>"

section \<open>The record of a reporter\<close>

record reporter_report_list =
  processing_report :: "report_id list"
  canceled_report :: "report_id list"
  succeed_report :: "report_id list"
  failed_report :: "report_id list"

definition default_reporter_report :: reporter_report_list where
  "default_reporter_report = \<lparr>processing_report = [], canceled_report = [], succeed_report = [], failed_report = []\<rparr>"

definition rr_new_report :: "report_id \<Rightarrow> reporter_report_list \<Rightarrow> reporter_report_list" where
  "rr_new_report n l = l\<lparr>processing_report := add_item n (processing_report l)\<rparr>"

definition rr_cancel_report :: "report_id \<Rightarrow> reporter_report_list \<Rightarrow> reporter_report_list" where
  "rr_cancel_report n l =
     l\<lparr>processing_report := rm_item n (processing_report l), canceled_report := add_item n (canceled_report l)\<rparr>"

definition clean_not_submit_encrypted_report :: "report_id \<Rightarrow> reporter_report_list \<Rightarrow> reporter_report_list" where
  "clean_not_submit_encrypted_report n l =
     l\<lparr>processing_report := rm_item n (processing_report l), failed_report := add_item n (failed_report l)\<rparr>"

record reporter_stake_info =
  rs_staked_amount :: balance
  rs_used_stake :: balance
  rs_can_claim_reward :: balance
  rs_claimed_reward :: balance

definition default_reporter_stake :: reporter_stake_info where
  "default_reporter_stake = \<lparr>rs_staked_amount = 0, rs_used_stake = 0, rs_can_claim_reward = 0, rs_claimed_reward = 0\<rparr>"

definition change_stake_on_report_close :: "balance \<Rightarrow> bool \<Rightarrow> reporter_stake_info \<Rightarrow> reporter_stake_info" where
  "change_stake_on_report_close amount is_slashed r =
     (let r1 = r\<lparr>rs_used_stake := saturating_sub (rs_used_stake r) amount\<rparr>
      in if is_slashed then r1\<lparr>rs_staked_amount := saturating_sub (rs_staked_amount r1) amount\<rparr> else r1)"

section \<open>The result of a report\<close>

datatype mc_slash_result = SlashPending | SlashCanceled | SlashExecuted

datatype report_result_type =
    ReportSucceed | ReportRefused | ReporterNotSubmitEncryptedInfo | ReportNoConsensus

record report_result_info =
  rr_report_id :: report_id
  rr_reporter :: account
  rr_reporter_stake :: balance
  rr_inconsistent :: "account list"
  rr_unruly :: "account list"
  rr_reward :: "account list"
  rr_committee_stake :: balance
  rr_machine_stash :: "account option"
  rr_machine_id :: machine_id
  rr_slash_time :: block_number
  rr_slash_exec_time :: block_number
  rr_report_result :: report_result_type
  rr_slash_result :: mc_slash_result

text \<open>The part all new results share.\<close>

definition rr_new :: "block_number \<Rightarrow> report_id \<Rightarrow> account \<Rightarrow> balance \<Rightarrow> balance \<Rightarrow> report_result_info" where
  "rr_new now n who who_stake order_stake =
     \<lparr>rr_report_id = n, rr_reporter = who, rr_reporter_stake = who_stake, rr_inconsistent = [], rr_unruly = [],
      rr_reward = [], rr_committee_stake = order_stake, rr_machine_stash = None, rr_machine_id = [],
      rr_slash_time = now, rr_slash_exec_time = wrapping_add 32 now TWO_DAYS, rr_report_result = ReportRefused,
      rr_slash_result = SlashPending\<rparr>"

definition new_inaccessible_result :: "block_number \<Rightarrow> report_id \<Rightarrow> report_info_detail \<Rightarrow> account \<Rightarrow> report_result_info" where
  "new_inaccessible_result now n i stash =
     (rr_new now n (ri_reporter i) (ri_reporter_stake i) 0)\<lparr>rr_machine_stash := Some stash, rr_machine_id := ri_machine_id i\<rparr>"

definition add_unruly :: "account \<Rightarrow> report_result_info \<Rightarrow> report_result_info" where
  "add_unruly who r = r\<lparr>rr_unruly := add_item who (rr_unruly r)\<rparr>"

definition is_slashed_reporter :: "account \<Rightarrow> report_result_info \<Rightarrow> bool" where
  "is_slashed_reporter who r \<longleftrightarrow>
     (rr_report_result r = ReportRefused \<or> rr_report_result r = ReporterNotSubmitEncryptedInfo) \<and> rr_reporter r = who"

definition is_slashed_committee :: "account \<Rightarrow> report_result_info \<Rightarrow> bool" where
  "is_slashed_committee who r \<longleftrightarrow>
     is_ok (binary_search who (rr_inconsistent r)) \<or> is_ok (binary_search who (rr_unruly r))"

definition is_slashed_stash :: "account \<Rightarrow> report_result_info \<Rightarrow> bool" where
  "is_slashed_stash who r \<longleftrightarrow> rr_report_result r = ReportSucceed \<and> rr_machine_stash r = Some who"

definition i_exten_sorted :: "account list \<Rightarrow> report_result_info \<Rightarrow> report_result_info" where
  "i_exten_sorted as r = r\<lparr>rr_inconsistent := fold add_item as (rr_inconsistent r)\<rparr>"

definition r_exten_sorted :: "account list \<Rightarrow> report_result_info \<Rightarrow> report_result_info" where
  "r_exten_sorted as r = r\<lparr>rr_reward := fold add_item as (rr_reward r)\<rparr>"

definition rr_get_verify_result ::
    "report_result_info option \<Rightarrow> block_number \<Rightarrow> report_id \<Rightarrow> balance \<Rightarrow> report_info_detail \<Rightarrow> report_result_info" where
  "rr_get_verify_result current now n order_stake i =
     (let out = (case current of
            Some r \<Rightarrow> r\<lparr>rr_report_id := n, rr_slash_result := SlashPending, rr_slash_time := now,
                       rr_slash_exec_time := wrapping_add 32 now TWO_DAYS, rr_reporter := ri_reporter i,
                       rr_committee_stake := order_stake\<rparr>
          | None \<Rightarrow> rr_new now n (ri_reporter i) 0 order_stake)
      in case ri_summary i of
           ConfirmedBy support against e \<Rightarrow>
             r_exten_sorted support (i_exten_sorted against
               (out\<lparr>rr_report_result := ReportSucceed, rr_reporter_stake := ri_reporter_stake i\<rparr>))
         | RefusedBy support against \<Rightarrow>
             r_exten_sorted against (i_exten_sorted support
               (out\<lparr>rr_report_result := ReportRefused, rr_reporter_stake := ri_reporter_stake i\<rparr>))
         | NoConsensusReached \<Rightarrow>
             out\<lparr>rr_report_result := ReportNoConsensus, rr_unruly := expand_to_order (rr_unruly out) (ri_booked i),
                 rr_reporter_stake := 0\<rparr>)"

section \<open>Well-formed reports\<close>

text \<open>
  Members book a report before they commit to a vote, and commit before they reveal it. The lists of the
  report say so: revealed votes are those of members who committed, and these had booked. Nothing is revealed
  before the report is in the phase of revealing. The member who is verifying has not committed.
\<close>

definition report_lists_ok :: "report_info_detail \<Rightarrow> bool" where
  "report_lists_ok i \<longleftrightarrow>
     ascending (ri_booked i) \<and> ascending (ri_hashed i) \<and> ascending (ri_confirmed i) \<and>
     ascending (support_committee i) \<and> ascending (against_committee i) \<and> length (ri_booked i) \<le> 3 \<and>
     set (ri_hashed i) \<subseteq> set (ri_booked i) \<and> set (ri_confirmed i) \<subseteq> set (ri_hashed i) \<and>
     set (support_committee i) \<union> set (against_committee i) = set (ri_confirmed i)"

definition report_phase_ok :: "report_info_detail \<Rightarrow> bool" where
  "report_phase_ok i \<longleftrightarrow>
     (report_status i = Reported \<longrightarrow> ri_booked i = []) \<and>
     (report_status i \<in> {Reported, WaitingBook, Verifying} \<longrightarrow> ri_confirmed i = []) \<and>
     (\<forall>v. verifying_committee i = Some v \<longrightarrow>
        v \<notin> set (ri_hashed i) \<and> ri_confirmed i = [] \<and> \<not> is_inaccessible (fault_type i) \<and>
        report_status i \<in> {Verifying, CommitteeConfirmed})"

definition report_ok :: "report_info_detail \<Rightarrow> bool" where
  "report_ok i \<longleftrightarrow> report_lists_ok i \<and> report_phase_ok i"

lemmas report_ok_defs = report_ok_def report_lists_ok_def report_phase_ok_def

lemma rm_item_length: "ascending xs \<Longrightarrow> length (rm_item x xs) \<le> length xs"
  by (metis List.finite_set card_mono distinct_card il.rm_ok Diff_subset strict_sorted_iff)

lemma add_item_length: "ascending xs \<Longrightarrow> length (add_item x xs) \<le> Suc (length xs)"
  by (metis card_insert_le_m1 card_length distinct_card il.add_ok strict_sorted_iff card_insert_if finite_set
    le_SucI order_refl)

lemma ri_new_ok: "report_ok (ri_new who t f v)"
  by (cases f) (simp_all add: ri_new_def report_ok_defs)

lemma ri_book_ok:
  assumes "report_ok i" "can_book who i = None"
  shows "report_ok (ri_book_report who now i)"
proof -
  have "length (add_item who (ri_booked i)) \<le> 3"
    using assms add_item_length [of "ri_booked i" who]
    by (auto simp: report_ok_defs can_book_def split: if_splits)
  moreover have "who \<notin> set (ri_hashed i)"
    using assms il.member_ok [of "ri_booked i" who] by (auto simp: report_ok_defs can_book_def split: if_splits)
  ultimately show ?thesis
    using assms by (auto simp: report_ok_defs can_book_def ri_book_report_def Let_def il.add_ok split: if_splits)
qed

lemma ri_add_hash_ok:
  "report_ok i \<Longrightarrow> ri_can_submit_hash i = None \<Longrightarrow> who \<in> set (ri_booked i) \<Longrightarrow> report_ok (ri_add_hash who i)"
  by (auto simp: report_ok_defs ri_can_submit_hash_def ri_add_hash_def Let_def il.add_ok split: if_splits)

lemma ri_add_raw_ok:
  "report_ok i \<Longrightarrow> report_status i = SubmittingRaw \<Longrightarrow> who \<in> set (ri_hashed i) \<Longrightarrow>
     report_ok (ri_add_raw who b m e i)"
  by (auto simp: report_ok_defs ri_add_raw_def Let_def il.add_ok split: option.splits)

lemma clean_not_submit_hash_committee_ok:
  assumes "report_ok i" "verifying_committee i = Some v" "report_status i = Verifying"
  shows "report_ok (clean_not_submit_hash_committee v i)"
proof -
  have "set (ri_hashed i) \<subseteq> set (rm_item v (ri_booked i))" using assms by (auto simp: report_ok_defs il.rm_ok)
  then have "ri_hashed i = []" if "rm_item v (ri_booked i) = []" using that by simp
  then show ?thesis
    using assms rm_item_length [of "ri_booked i" v]
    by (auto simp: report_ok_defs clean_not_submit_hash_committee_def Let_def il.rm_ok)
qed

lemma clean_not_submit_raw_committee_ok:
  "report_ok i \<Longrightarrow> verifying_committee i = Some v \<Longrightarrow> report_ok (clean_not_submit_raw_committee v i)"
  using rm_item_length [of "ri_booked i" v]
  by (auto simp: report_ok_defs clean_not_submit_raw_committee_def il.rm_ok)

lemma submitting_raw_ok:
  "report_ok i \<Longrightarrow> report_status i = WaitingBook \<or> is_inaccessible (fault_type i) \<Longrightarrow>
     report_ok (i\<lparr>report_status := SubmittingRaw\<rparr>)"
  by (auto simp: report_ok_defs)

lemma committee_confirmed_ok: "report_ok i \<Longrightarrow> report_ok (i\<lparr>report_status := CommitteeConfirmed\<rparr>)"
  by (auto simp: report_ok_defs)

end
