(* ===== verification/Maintain_Committee.thy ===== *)
theory Maintain_Committee
  imports Rent_Machine Chain_Ledger Report_Types Support_Utils
begin

text \<open>
  The \<open>maintain-committee\<close> pallet (\<open>pallets/maintain-committee/src/\<close>): faults of machines are reported against
  a stake, members of the committee book a report, commit to a vote and reveal it, and the hooks of each block
  summarise the votes, take machines offline and execute slashes and reviews. The pallet works on the state of
  \<open>Rent_Machine\<close>, through which it reaches \<open>Online_Profile\<close> and \<open>Committee\<close>. The properties say that every counted
  vote was committed to, and show two places in which the code departs from its protocol: a reporter can take
  back what was never staked, and a late booking silences the members who have committed.
\<close>

section \<open>Data\<close>

datatype mc_error =
    BadOrigin | NotCommittee | AlreadyBooked | OrderStatusNotFeat | NotInBookedList | NotOrderReporter | NotOrderCommittee
  | GetStakeAmountFailed | StakeFailed | OrderNotAllowCancel | OrderNotAllowBook | NotProperCommittee
  | NotEqualReporterSubmit | NotEqualCommitteeSubmit | ReduceTotalStakeFailed | PayTxFeeFailed | NotNeedEncryptedInfo
  | ExpiredReport | AlreadySubmitConfirmation | BalanceNotEnough | StakeNotEnough | BoxPubkeyIsNoneInFirstReport
  | NotReporter | TimeNotAllowed | SlashIdNotExist | NotPendingReviewSlash | NotSlashed | AlreadyApplied | ExpiredApply
  | DuplicateHash | NotMachineRenter | ReduceUsedStakeFailed | Unknown

datatype mc_event =
    ReportMachineFault account machine_fault_type
  | ReportCanceld account report_id machine_fault_type
  | EncryptedInfoSent account account report_id
  | HashSubmited report_id account
  | RawInfoSubmited report_id account
  | ReporterAddStake account balance
  | ReporterReduceStake account balance
  | ApplySlashReviewEvent report_id
  | CommitteeBookReport account report_id

fun from_report_err :: "report_err \<Rightarrow> mc_error" where
  "from_report_err OrderNotAllowBook_err = OrderNotAllowBook"
| "from_report_err AlreadyBooked_err = AlreadyBooked"
| "from_report_err NotNeedEncryptedInfo_err = NotNeedEncryptedInfo"
| "from_report_err NotOrderReporter_err = NotOrderReporter"
| "from_report_err OrderStatusNotFeat_err = OrderStatusNotFeat"
| "from_report_err NotOrderCommittee_err = NotOrderCommittee"
| "from_report_err NotInBookedList_err = NotInBookedList"
| "from_report_err NotProperCommittee_err = NotProperCommittee"

record mt_pending_slash_review_info =
  mcr_applicant :: account
  mcr_staked_amount :: balance
  mcr_apply_time :: block_number
  mcr_expire_time :: block_number
  mcr_reason :: bytes

text \<open>
  The pallet works on the state of rent-machine, which holds that of online-profile, whose world is the state of
  the pallet committee. Slashing and the fixed fee are provided by generic-func, \<open>blake2_128\<close> by the framework, and
  \<open>mc_review_iter\<close> is the order in which the storage map of reviews is iterated.
\<close>

record 'w mc_config =
  mc_op :: "'w cm_state op_config"
  mc_cm :: "'w cm_config"
  mc_SlashAndReward :: "account list \<Rightarrow> balance \<Rightarrow> account list \<Rightarrow> 'w cm_state \<Rightarrow> 'w cm_state \<times> bool"
  mc_CancelSlashOrigin :: "origin \<Rightarrow> bool"
  mc_blake2_128 :: "bytes \<Rightarrow> bytes"
  mc_review_iter :: "(report_id \<rightharpoonup> mt_pending_slash_review_info) \<Rightarrow> report_id list"

record 'w mc_state =
  mc_rent :: "'w cm_state rm_state"
  CommitteeLimit :: nat
  ReporterStakeParams :: "reporter_stake_params_info option"
  NextReportId :: report_id
  ReporterStake :: "account \<Rightarrow> reporter_stake_info"
  ReporterReport :: "account \<Rightarrow> reporter_report_list"
  CommitteeOrder :: "account \<Rightarrow> committee_order_list"
  ReportOps :: "account \<Rightarrow> report_id \<Rightarrow> committee_ops_detail"
  LiveReport :: live_report_list
  ReportInfo :: "report_id \<rightharpoonup> report_info_detail"
  ReportResult :: "report_id \<rightharpoonup> report_result_info"
  UnhandledReportResult :: "block_number \<Rightarrow> report_id list"
  mc_PendingSlashReview :: "report_id \<rightharpoonup> mt_pending_slash_review_info"
  mc_events :: "mc_event list"

definition mc_deposit_event :: "mc_event \<Rightarrow> 'w mc_state \<Rightarrow> 'w mc_state" where
  "mc_deposit_event e s = s\<lparr>mc_events := mc_events s @ [e]\<rparr>"

definition put_report :: "report_id \<Rightarrow> report_info_detail \<Rightarrow> 'w mc_state \<Rightarrow> 'w mc_state" where
  "put_report n i s = s\<lparr>ReportInfo := (ReportInfo s)(n \<mapsto> i)\<rparr>"

definition put_result :: "report_id \<Rightarrow> report_result_info \<Rightarrow> 'w mc_state \<Rightarrow> 'w mc_state" where
  "put_result n r s = s\<lparr>ReportResult := (ReportResult s)(n \<mapsto> r)\<rparr>"

definition put_report_ops :: "account \<Rightarrow> report_id \<Rightarrow> committee_ops_detail \<Rightarrow> 'w mc_state \<Rightarrow> 'w mc_state" where
  "put_report_ops a n ops s = s\<lparr>ReportOps := (ReportOps s)(a := (ReportOps s a)(n := ops))\<rparr>"

definition change_order :: "account \<Rightarrow> (committee_order_list \<Rightarrow> committee_order_list) \<Rightarrow> 'w mc_state \<Rightarrow> 'w mc_state" where
  "change_order a f s = s\<lparr>CommitteeOrder := (CommitteeOrder s)(a := f (CommitteeOrder s a))\<rparr>"

definition change_live :: "(live_report_list \<Rightarrow> live_report_list) \<Rightarrow> 'w mc_state \<Rightarrow> 'w mc_state" where
  "change_live f s = s\<lparr>LiveReport := f (LiveReport s)\<rparr>"

definition put_reporter_report :: "account \<Rightarrow> reporter_report_list \<Rightarrow> 'w mc_state \<Rightarrow> 'w mc_state" where
  "put_reporter_report a r s = s\<lparr>ReporterReport := (ReporterReport s)(a := r)\<rparr>"

definition put_reporter_stake :: "account \<Rightarrow> reporter_stake_info \<Rightarrow> 'w mc_state \<Rightarrow> 'w mc_state" where
  "put_reporter_stake a r s = s\<lparr>ReporterStake := (ReporterStake s)(a := r)\<rparr>"

section \<open>The other pallets\<close>

abbreviation mc_profile :: "'w mc_state \<Rightarrow> 'w cm_state op_state" where
  "mc_profile s \<equiv> rm_profile (mc_rent s)"

abbreviation mc_committee :: "'w mc_state \<Rightarrow> 'w cm_state" where
  "mc_committee s \<equiv> op_world (mc_profile s)"

definition put_mc_profile :: "'w cm_state op_state \<Rightarrow> 'w mc_state \<Rightarrow> 'w mc_state" where
  "put_mc_profile p s = s\<lparr>mc_rent := (mc_rent s)\<lparr>rm_profile := p\<rparr>\<rparr>"

definition put_mc_committee :: "'w cm_state \<Rightarrow> 'w mc_state \<Rightarrow> 'w mc_state" where
  "put_mc_committee c s = put_mc_profile ((mc_profile s)\<lparr>op_world := c\<rparr>) s"

definition mc_used_stake :: "'w mc_config \<Rightarrow> account \<Rightarrow> balance \<Rightarrow> bool \<Rightarrow> 'w mc_state \<Rightarrow> 'w mc_state option" where
  "mc_used_stake T who amount is_add s =
     map_option (\<lambda>c. put_mc_committee c s) (change_used_stake (mc_cm T) who amount is_add (mc_committee s))"

definition mc_total_stake :: "'w mc_config \<Rightarrow> account \<Rightarrow> balance \<Rightarrow> 'w mc_state \<Rightarrow> 'w mc_state option" where
  "mc_total_stake T who amount s =
     map_option (\<lambda>c. put_mc_committee c s) (change_total_stake (mc_cm T) who amount True True (mc_committee s))"

text \<open>\<open>change_committee_stake_on_report_close\<close> has the body of \<open>change_committee_stake\<close> of online-committee.\<close>

definition change_committee_stake_on_report_close ::
    "'w mc_config \<Rightarrow> account list \<Rightarrow> balance \<Rightarrow> bool \<Rightarrow> 'w mc_state \<Rightarrow> 'w mc_state \<times> bool" where
  "change_committee_stake_on_report_close T cs amount is_slash s =
     (let r = change_committee_stake (mc_cm T) cs amount is_slash (mc_committee s)
      in (put_mc_committee (fst r) s, snd r))"

definition mc_slash_and_reward ::
    "'w mc_config \<Rightarrow> account list \<Rightarrow> balance \<Rightarrow> account list \<Rightarrow> 'w mc_state \<Rightarrow> 'w mc_state" where
  "mc_slash_and_reward T who amount reward_who s =
     put_mc_committee (fst (mc_SlashAndReward T who amount reward_who (mc_committee s))) s"

definition mc_pay_fixed_tx_fee :: "'w mc_config \<Rightarrow> account \<Rightarrow> 'w mc_state \<Rightarrow> 'w mc_state option" where
  "mc_pay_fixed_tx_fee T who s =
     map_option (\<lambda>c. put_mc_committee c s) (op_pay_fixed_tx_fee (mc_op T) who (mc_committee s))"

definition on_mc_profile ::
    "('w cm_state op_state \<Rightarrow> 'w cm_state op_state option) \<Rightarrow> 'w mc_state \<Rightarrow> 'w mc_state option" where
  "on_mc_profile f s = map_option (\<lambda>p. put_mc_profile p s) (f (mc_profile s))"

section \<open>Stakes of reporters\<close>

text \<open>
  Adding or taking back stake. When stake is taken back and none is in use, nothing is compared with the
  recorded stake: the subtraction saturates and the whole amount is unreserved.
\<close>

definition change_reporter_stake :: "'w mc_config \<Rightarrow> account \<Rightarrow> balance \<Rightarrow> bool \<Rightarrow> 'w mc_state \<Rightarrow> mc_error + 'w mc_state" where
  "change_reporter_stake T who amount is_add s =
     (case ReporterStakeParams s of None \<Rightarrow> Inl GetStakeAmountFailed
      | Some p \<Rightarrow>
          let st0 = ReporterStake s who;
              st = st0\<lparr>rs_staked_amount := (if is_add then saturating_add 128 (rs_staked_amount st0) amount
                                           else saturating_sub (rs_staked_amount st0) amount)\<rparr>;
              checked = (is_add \<or> 0 < rs_used_stake st)
          in if checked \<and> \<not> rs_used_stake st \<le> rs_staked_amount st then Inl StakeNotEnough
             else if checked \<and> \<not> pmul (op_Perthing (mc_op T)) PERBILL (reporter_min_free_percent p) (rs_staked_amount st)
                       \<le> saturating_sub (rs_staked_amount st) (rs_used_stake st)
             then Inl StakeNotEnough
             else if is_add
             then (case reserve (op_Currency (mc_op T)) who amount (mc_committee s) of
                     None \<Rightarrow> Inl BalanceNotEnough
                   | Some w \<Rightarrow> Inr (mc_deposit_event (ReporterAddStake who amount)
                       (put_reporter_stake who st (put_mc_committee w s))))
             else Inr (mc_deposit_event (ReporterReduceStake who amount)
                    (put_reporter_stake who st
                      (put_mc_committee (fst (unreserve (op_Currency (mc_op T)) who amount (mc_committee s))) s))))"

definition pay_stake_when_report :: "'w mc_config \<Rightarrow> account \<Rightarrow> 'w mc_state \<Rightarrow> mc_error + 'w mc_state" where
  "pay_stake_when_report T who s =
     (case ReporterStakeParams s of None \<Rightarrow> Inl GetStakeAmountFailed
      | Some p \<Rightarrow>
          let st = ReporterStake s who in
          if rs_staked_amount st = 0
          then (case reserve (op_Currency (mc_op T)) who (reporter_stake_baseline p) (mc_committee s) of
                  None \<Rightarrow> Inl BalanceNotEnough
                | Some w \<Rightarrow> Inr (put_reporter_stake who
                    (st\<lparr>rs_staked_amount := reporter_stake_baseline p, rs_used_stake := stake_per_report p\<rparr>)
                    (put_mc_committee w s)))
          else let st1 = st\<lparr>rs_used_stake := saturating_add 128 (rs_used_stake st) (stake_per_report p)\<rparr> in
            if pmul (op_Perthing (mc_op T)) PERBILL (reporter_min_free_percent p) (rs_staked_amount st1)
                 \<le> saturating_sub (rs_staked_amount st1) (rs_used_stake st1)
            then Inr (put_reporter_stake who st1 s) else Inl StakeNotEnough)"

definition close_reporter_stake :: "account \<Rightarrow> balance \<Rightarrow> bool \<Rightarrow> 'w mc_state \<Rightarrow> 'w mc_state" where
  "close_reporter_stake who amount is_slashed s =
     put_reporter_stake who (change_stake_on_report_close amount is_slashed (ReporterStake s who)) s"

definition change_reporter_stake_on_report_close ::
    "account \<Rightarrow> balance \<Rightarrow> report_result_type \<Rightarrow> 'w mc_state \<Rightarrow> 'w mc_state" where
  "change_reporter_stake_on_report_close who amount result s =
     (if result = ReportNoConsensus then s
      else close_reporter_stake who amount (result = ReportRefused \<or> result = ReporterNotSubmitEncryptedInfo) s)"

section \<open>Reports\<close>

definition get_new_report_id :: "'w mc_state \<Rightarrow> report_id \<times> 'w mc_state" where
  "get_new_report_id s =
     (let n = NextReportId s in (n, s\<lparr>NextReportId := (if n = 2 ^ 64 - 1 then 0 else n + 1)\<rparr>))"

definition update_unhandled_report :: "report_id \<Rightarrow> bool \<Rightarrow> block_number \<Rightarrow> 'w mc_state \<Rightarrow> 'w mc_state" where
  "update_unhandled_report n is_add time s =
     s\<lparr>UnhandledReportResult := (UnhandledReportResult s)(time :=
       (if is_add then add_item n (UnhandledReportResult s time) else rm_item n (UnhandledReportResult s time)))\<rparr>"

text \<open>The two lists the callers hold are passed and returned; an error changes nothing.\<close>

definition do_report_machine_fault ::
    "block_number \<Rightarrow> account \<Rightarrow> machine_fault_type \<Rightarrow> block_number option \<Rightarrow> live_report_list \<Rightarrow> reporter_report_list \<Rightarrow>
       'w mc_state \<Rightarrow> (live_report_list \<times> reporter_report_list \<times> 'w mc_state) option" where
  "do_report_machine_fault now who fault time live rep s =
     (case ReporterStakeParams s of None \<Rightarrow> None
      | Some p \<Rightarrow>
          let (n, s1) = get_new_report_id s;
              t = (case time of None \<Rightarrow> now | Some t \<Rightarrow> t)
          in Some (lr_new_report n live, rr_new_report n rep,
               mc_deposit_event (ReportMachineFault who fault) (put_report n (ri_new who t fault (stake_per_report p)) s1)))"

definition mc_book_report ::
    "block_number \<Rightarrow> account \<Rightarrow> report_id \<Rightarrow> report_info_detail \<Rightarrow> balance \<Rightarrow> 'w mc_state \<Rightarrow> 'w mc_state" where
  "mc_book_report now who n i order_stake s =
     (let i1 = ri_book_report who now i in
      put_report n i1
        (change_live (lr_book_report n (fault_type i) (length (ri_booked i1)))
          (put_report_ops who n (od_book_report (fault_type i) now order_stake (ReportOps s who n))
            (change_order who (\<lambda>l. l\<lparr>booked_report := add_item n (booked_report l)\<rparr>) s))))"

fun is_uniq_hash :: "report_id \<Rightarrow> account list \<Rightarrow> bytes \<Rightarrow> 'w mc_state \<Rightarrow> bool" where
  "is_uniq_hash n [] h s = True"
| "is_uniq_hash n (a # as) h s = (if report_confirm_hash (ReportOps s a n) = h then False else is_uniq_hash n as h s)"

section \<open>Dispatchables\<close>

definition set_reporter_stake_params ::
    "origin \<Rightarrow> reporter_stake_params_info \<Rightarrow> 'w mc_state \<Rightarrow> mc_error + 'w mc_state" where
  "set_reporter_stake_params orig p s =
     (if \<not> ensure_root orig then Inl BadOrigin else Inr (s\<lparr>ReporterStakeParams := Some p\<rparr>))"

text \<open>What a report of an inaccessible machine needs: the rent order of the reporter, and the fee.\<close>

definition check_inaccessible ::
    "'w mc_config \<Rightarrow> account \<Rightarrow> machine_id \<Rightarrow> rent_order_id \<Rightarrow> 'w mc_state \<Rightarrow> mc_error + 'w mc_state" where
  "check_inaccessible T who m rid s =
     (case RentInfo (mc_rent s) rid of None \<Rightarrow> Inl Unknown
      | Some r \<Rightarrow>
          if renter r \<noteq> who then Inl NotMachineRenter
          else if m \<noteq> order_machine_id r then Inl NotMachineRenter
          else
            let s1 = (case MachinesInfo (mc_profile s) (order_machine_id r) of
                  Some i \<Rightarrow>
                    if machine_status i = Rented
                    then put_mc_profile (add_offline_machine_to_renters (order_machine_id r) (renters i) (mc_profile s)) s
                    else s
                | None \<Rightarrow> s)
            in (case mc_pay_fixed_tx_fee T who s1 of None \<Rightarrow> Inl PayTxFeeFailed | Some s2 \<Rightarrow> Inr s2))"

definition report_machine_fault ::
    "'w mc_config \<Rightarrow> block_number \<Rightarrow> origin \<Rightarrow> machine_fault_type \<Rightarrow> 'w mc_state \<Rightarrow> mc_error + 'w mc_state" where
  "report_machine_fault T now orig fault s =
     (case ensure_signed orig of None \<Rightarrow> Inl BadOrigin
      | Some who \<Rightarrow>
      (case (case fault of FaultInaccessible m rid \<Rightarrow> check_inaccessible T who m rid s | _ \<Rightarrow> Inr s) of
         Inl e \<Rightarrow> Inl e
       | Inr s1 \<Rightarrow>
      (case pay_stake_when_report T who s1 of
         Inl e \<Rightarrow> Inl e
       | Inr s2 \<Rightarrow>
      (case do_report_machine_fault now who fault None (LiveReport s) (ReporterReport s who) s2 of
         None \<Rightarrow> Inl GetStakeAmountFailed
       | Some (live, rep, s3) \<Rightarrow> Inr (put_reporter_report who rep (s3\<lparr>LiveReport := live\<rparr>))))))"

definition reporter_add_stake :: "'w mc_config \<Rightarrow> origin \<Rightarrow> balance \<Rightarrow> 'w mc_state \<Rightarrow> mc_error + 'w mc_state" where
  "reporter_add_stake T orig amount s =
     (case ensure_signed orig of None \<Rightarrow> Inl BadOrigin | Some who \<Rightarrow> change_reporter_stake T who amount True s)"

definition reporter_reduce_stake :: "'w mc_config \<Rightarrow> origin \<Rightarrow> balance \<Rightarrow> 'w mc_state \<Rightarrow> mc_error + 'w mc_state" where
  "reporter_reduce_stake T orig amount s =
     (case ensure_signed orig of None \<Rightarrow> Inl BadOrigin | Some who \<Rightarrow> change_reporter_stake T who amount False s)"

definition reporter_cancel_report :: "origin \<Rightarrow> report_id \<Rightarrow> 'w mc_state \<Rightarrow> mc_error + 'w mc_state" where
  "reporter_cancel_report orig n s =
     (case ensure_signed orig of None \<Rightarrow> Inl BadOrigin
      | Some who \<Rightarrow>
      (case ReportInfo s n of None \<Rightarrow> Inl Unknown
       | Some i \<Rightarrow>
           if ri_reporter i \<noteq> who then Inl NotReporter
           else if report_status i \<noteq> Reported then Inl OrderNotAllowCancel
           else Inr (mc_deposit_event (ReportCanceld who n (fault_type i))
             ((put_reporter_report who (rr_cancel_report n (ReporterReport s who))
                (change_live (lr_cancel_report n) (close_reporter_stake who (ri_reporter_stake i) False s)))
              \<lparr>ReportInfo := (ReportInfo s)(n := None)\<rparr>))))"

definition committee_book_report ::
    "'w mc_config \<Rightarrow> block_number \<Rightarrow> origin \<Rightarrow> report_id \<Rightarrow> 'w mc_state \<Rightarrow> mc_error + 'w mc_state" where
  "committee_book_report T now orig n s =
     (case ensure_signed orig of None \<Rightarrow> Inl BadOrigin
      | Some who \<Rightarrow>
          if \<not> is_valid_committee (mc_committee s) who then Inl NotCommittee
          else (case ReportInfo s n of None \<Rightarrow> Inl Unknown
          | Some i \<Rightarrow>
              (case can_book who i of
                 Some e \<Rightarrow> Inl (from_report_err e)
               | None \<Rightarrow>
              (case stake_per_order (mc_committee s) of None \<Rightarrow> Inl GetStakeAmountFailed
               | Some order_stake \<Rightarrow>
              (case (if is_inaccessible (fault_type i)
                     then case mc_pay_fixed_tx_fee T who s of None \<Rightarrow> Inl PayTxFeeFailed | Some s1 \<Rightarrow> Inr s1
                     else case mc_used_stake T who order_stake True s of None \<Rightarrow> Inl StakeFailed | Some s1 \<Rightarrow> Inr s1) of
                 Inl e \<Rightarrow> Inl e
               | Inr s1 \<Rightarrow>
                   Inr (mc_deposit_event (CommitteeBookReport who n) (mc_book_report now who n i order_stake s1)))))))"

definition reporter_add_encrypted_error_info ::
    "block_number \<Rightarrow> origin \<Rightarrow> report_id \<Rightarrow> account \<Rightarrow> bytes \<Rightarrow> 'w mc_state \<Rightarrow> mc_error + 'w mc_state" where
  "reporter_add_encrypted_error_info now orig n to_committee e s =
     (case ensure_signed orig of None \<Rightarrow> Inl BadOrigin
      | Some who \<Rightarrow>
      (case ReportInfo s n of None \<Rightarrow> Inl Unknown
       | Some i \<Rightarrow>
          let ops = ReportOps s to_committee n in
          (case can_submit_encrypted_info who to_committee i of
             Some err \<Rightarrow> Inl (from_report_err err)
           | None \<Rightarrow>
               if order_status ops \<noteq> OrderWaitingEncrypt then Inl OrderStatusNotFeat
               else Inr (mc_deposit_event (EncryptedInfoSent who to_committee n)
                 (put_report_ops to_committee n (add_encry_info e now ops)
                   (put_report n (i\<lparr>encrypted_info_committee := add_item to_committee (encrypted_info_committee i)\<rparr>) s))))))"

definition committee_submit_verify_hash ::
    "block_number \<Rightarrow> origin \<Rightarrow> report_id \<Rightarrow> bytes \<Rightarrow> 'w mc_state \<Rightarrow> mc_error + 'w mc_state" where
  "committee_submit_verify_hash now orig n hash s =
     (case ensure_signed orig of None \<Rightarrow> Inl BadOrigin
      | Some who \<Rightarrow>
      (case ReportInfo s n of None \<Rightarrow> Inl Unknown
       | Some i \<Rightarrow>
      (case co_can_submit_hash n (CommitteeOrder s who) of
         Some e \<Rightarrow> Inl (from_report_err e)
       | None \<Rightarrow>
      (case od_can_submit_hash (ReportOps s who n) of
         Some e \<Rightarrow> Inl (from_report_err e)
       | None \<Rightarrow>
      (case ri_can_submit_hash i of
         Some e \<Rightarrow> Inl (from_report_err e)
       | None \<Rightarrow>
          if \<not> is_uniq_hash n (ri_hashed i) hash s then Inl DuplicateHash
          else
            let i1 = ri_add_hash who i in
            Inr (mc_deposit_event (HashSubmited n who)
              (change_order who (co_add_hash n)
                (put_report_ops who n (od_add_hash hash now (ReportOps s who n))
                  (put_report n i1
                    (change_live (lr_submit_hash n (fault_type i1) (length (ri_hashed i1))) s))))))))))"

text \<open>What the members and the reporter hash. The strings are joined without separators.\<close>

definition reporter_report_hash :: "'w mc_config \<Rightarrow> machine_id \<Rightarrow> rent_order_id \<Rightarrow> bytes \<Rightarrow> bytes \<Rightarrow> bytes" where
  "reporter_report_hash T m rid reporter_rand err_reason =
     get_hash (mc_blake2_128 T) [m, dec_bytes rid, reporter_rand, err_reason]"

definition committee_report_hash ::
    "'w mc_config \<Rightarrow> machine_id \<Rightarrow> rent_order_id \<Rightarrow> bytes \<Rightarrow> bytes \<Rightarrow> bool \<Rightarrow> bytes \<Rightarrow> bytes" where
  "committee_report_hash T m rid reporter_rand committee_rand support err_reason =
     get_hash (mc_blake2_128 T)
       [m, dec_bytes rid, reporter_rand, committee_rand, (if support then [49] else [48]), err_reason]"

definition inaccessible_hash :: "'w mc_config \<Rightarrow> report_id \<Rightarrow> bytes \<Rightarrow> bool \<Rightarrow> bytes" where
  "inaccessible_hash T n committee_rand support =
     get_hash (mc_blake2_128 T) [dec_bytes n, committee_rand, (if support then [49] else [48])]"

definition record_raw ::
    "block_number \<Rightarrow> account \<Rightarrow> report_id \<Rightarrow> bool \<Rightarrow> machine_id option \<Rightarrow> bytes \<Rightarrow> bytes \<Rightarrow> report_info_detail \<Rightarrow> 'w mc_state \<Rightarrow> 'w mc_state"
where
  "record_raw now who n support m err_reason extra i s =
     mc_deposit_event (RawInfoSubmited n who)
       (put_report n (ri_add_raw who support m err_reason i)
         (put_report_ops who n (od_add_raw now support extra (ReportOps s who n))
           (change_order who (co_add_raw n) s)))"

definition committee_submit_verify_raw ::
    "'w mc_config \<Rightarrow> block_number \<Rightarrow> origin \<Rightarrow> report_id \<Rightarrow> machine_id \<Rightarrow> rent_order_id \<Rightarrow> bytes \<Rightarrow> bytes \<Rightarrow> bytes \<Rightarrow> bytes \<Rightarrow> bool \<Rightarrow>
       'w mc_state \<Rightarrow> mc_error + 'w mc_state" where
  "committee_submit_verify_raw T now orig n m rid reporter_rand committee_rand err_reason extra support s =
     (case ensure_signed orig of None \<Rightarrow> Inl BadOrigin
      | Some who \<Rightarrow>
      (case ReportInfo s n of None \<Rightarrow> Inl Unknown
       | Some i \<Rightarrow>
      (case ri_can_submit_raw who i of
         Some e \<Rightarrow> Inl (from_report_err e)
       | None \<Rightarrow>
      (case get_reporter_hash i of
         Inl e \<Rightarrow> Inl (from_report_err e)
       | Inr reporter_hash \<Rightarrow>
          if reporter_report_hash T m rid reporter_rand err_reason \<noteq> reporter_hash then Inl NotEqualReporterSubmit
          else if committee_report_hash T m rid reporter_rand committee_rand support err_reason \<noteq>
                    report_confirm_hash (ReportOps s who n)
          then Inl NotEqualCommitteeSubmit
          else Inr (record_raw now who n support (Some m) err_reason extra i s)))))"

definition committee_submit_inaccessible_raw ::
    "'w mc_config \<Rightarrow> block_number \<Rightarrow> origin \<Rightarrow> report_id \<Rightarrow> bytes \<Rightarrow> bool \<Rightarrow> 'w mc_state \<Rightarrow> mc_error + 'w mc_state" where
  "committee_submit_inaccessible_raw T now orig n committee_rand support s =
     (case ensure_signed orig of None \<Rightarrow> Inl BadOrigin
      | Some who \<Rightarrow>
      (case ReportInfo s n of None \<Rightarrow> Inl Unknown
       | Some i \<Rightarrow>
      (case can_submit_inaccessible_raw who i of
         Some e \<Rightarrow> Inl (from_report_err e)
       | None \<Rightarrow>
          if inaccessible_hash T n committee_rand support \<noteq> report_confirm_hash (ReportOps s who n)
          then Inl NotEqualCommitteeSubmit
          else Inr (record_raw now who n support None [] [] i s))))"

definition stake_for_review ::
    "'w mc_config \<Rightarrow> account \<Rightarrow> balance \<Rightarrow> report_result_info \<Rightarrow> 'w mc_state \<Rightarrow> mc_error + 'w mc_state" where
  "stake_for_review T who stake r s =
     (if is_slashed_reporter who r
      then (case change_reporter_stake T who stake True s of Inl e \<Rightarrow> Inl e | Inr s1 \<Rightarrow> pay_stake_when_report T who s1)
      else if is_slashed_committee who r
      then (case mc_total_stake T who stake s of None \<Rightarrow> Inl BalanceNotEnough
            | Some s1 \<Rightarrow> (case mc_used_stake T who stake True s1 of None \<Rightarrow> Inl BalanceNotEnough | Some s2 \<Rightarrow> Inr s2))
      else if is_slashed_stash who r
      then (case on_mc_profile (mt_change_staked_balance (mc_op T) who stake True) s of
              None \<Rightarrow> Inl BalanceNotEnough | Some s1 \<Rightarrow> Inr s1)
      else Inr s)"

definition mc_apply_slash_review ::
    "'w mc_config \<Rightarrow> block_number \<Rightarrow> origin \<Rightarrow> report_id \<Rightarrow> bytes \<Rightarrow> 'w mc_state \<Rightarrow> mc_error + 'w mc_state" where
  "mc_apply_slash_review T now orig n rsn s =
     (case ensure_signed orig of None \<Rightarrow> Inl BadOrigin
      | Some who \<Rightarrow>
      (case ReporterStakeParams s of None \<Rightarrow> Inl GetStakeAmountFailed
       | Some p \<Rightarrow>
      (case ReportResult s n of None \<Rightarrow> Inl Unknown
       | Some r \<Rightarrow>
          if mc_PendingSlashReview s n \<noteq> None then Inl AlreadyApplied
          else if \<not> (is_slashed_reporter who r \<or> is_slashed_committee who r \<or> is_slashed_stash who r) then Inl NotSlashed
          else if \<not> now < rr_slash_exec_time r then Inl TimeNotAllowed
          else if \<not> can_reserve (op_Currency (mc_op T)) (mc_committee s) who (stake_per_report p) then Inl BalanceNotEnough
          else (case stake_for_review T who (stake_per_report p) r s of
              Inl e \<Rightarrow> Inl e
            | Inr s1 \<Rightarrow>
                Inr (mc_deposit_event (ApplySlashReviewEvent n)
                  (s1\<lparr>mc_PendingSlashReview := (mc_PendingSlashReview s1)(n \<mapsto>
                     \<lparr>mcr_applicant = who, mcr_staked_amount = stake_per_report p, mcr_apply_time = now,
                      mcr_expire_time = rr_slash_exec_time r, mcr_reason = rsn\<rparr>)\<rparr>))))))"

definition return_review_deposit ::
    "'w mc_config \<Rightarrow> account \<Rightarrow> balance \<Rightarrow> report_result_info \<Rightarrow> 'w mc_state \<Rightarrow> mc_error + 'w mc_state" where
  "return_review_deposit T who staked r s =
     (if is_slashed_reporter who r then change_reporter_stake T who staked False s
      else if is_slashed_stash who r
      then (case on_mc_profile (mt_change_staked_balance (mc_op T) who staked False) s of
              None \<Rightarrow> Inl BalanceNotEnough | Some s1 \<Rightarrow> Inr s1)
      else (case change_committee_stake_on_report_close T [who] staked False s of
              (s1, True) \<Rightarrow> Inr s1 | (s1, False) \<Rightarrow> Inl ReduceUsedStakeFailed))"

definition cancel_reporter_slash ::
    "'w mc_config \<Rightarrow> block_number \<Rightarrow> origin \<Rightarrow> report_id \<Rightarrow> 'w mc_state \<Rightarrow> mc_error + 'w mc_state" where
  "cancel_reporter_slash T now orig n s =
     (if \<not> mc_CancelSlashOrigin T orig then Inl BadOrigin
      else (case ReportResult s n of None \<Rightarrow> Inl SlashIdNotExist
      | Some r \<Rightarrow>
      (case mc_PendingSlashReview s n of None \<Rightarrow> Inl NotPendingReviewSlash
       | Some review \<Rightarrow>
          if \<not> now < mcr_expire_time review then Inl ExpiredApply
          else (case return_review_deposit T (mcr_applicant review) (mcr_staked_amount review) r s of
              Inl e \<Rightarrow> Inl e
            | Inr s1 \<Rightarrow>
                let is_reporter_slashed =
                      (rr_report_result r = ReportRefused \<or> rr_report_result r = ReporterNotSubmitEncryptedInfo);
                    should_slash = fold add_item (rr_unruly r) (rr_reward r);
                    should_reward = rr_inconsistent r;
                    s2 = close_reporter_stake (rr_reporter r) (rr_reporter_stake r) (\<not> is_reporter_slashed) s1;
                    should_reward1 = (if is_reporter_slashed then add_item (rr_reporter r) should_reward else should_reward);
                    s3 = (if is_reporter_slashed then s2
                          else mc_slash_and_reward T [rr_reporter r] (rr_reporter_stake r) should_reward s2);
                    s4 = mc_slash_and_reward T should_slash (rr_committee_stake r) should_reward1 s3;
                    s5 = update_unhandled_report n False (rr_slash_exec_time r) s4
                in Inr ((put_result n (r\<lparr>rr_slash_result := SlashCanceled\<rparr>) s5)
                     \<lparr>mc_PendingSlashReview := (mc_PendingSlashReview s5)(n := None)\<rparr>)))))"

section \<open>The summary of reports of inaccessible machines\<close>

fun close_orders :: "report_id \<Rightarrow> report_info_detail \<Rightarrow> account list \<Rightarrow> report_result_info \<times> 'w mc_state \<Rightarrow> report_result_info \<times> 'w mc_state" where
  "close_orders n i [] rs = rs"
| "close_orders n i (a # as) rs =
     (let (r, s) = rs in
      close_orders n i as
        (if is_confirmed_committee a i then (r, change_order a (clean_when_summary n True) s)
         else (add_unruly a r, change_order a (clean_when_summary n False) (put_report_ops a n default_report_ops s))))"

text \<open>
  The list of live reports is held by the hook and written back at the end; what is written before an early
  return stays.
\<close>

definition report_again ::
    "block_number \<Rightarrow> report_id \<Rightarrow> report_info_detail \<Rightarrow> report_result_info \<Rightarrow> reporter_report_list \<Rightarrow>
       live_report_list \<times> 'w mc_state \<Rightarrow> live_report_list \<times> 'w mc_state" where
  "report_again now n i r rep ls =
     (let (live, s) = ls in
      case do_report_machine_fault now (ri_reporter i) (fault_type i) (Some (ri_report_time i)) live rep s of
        None \<Rightarrow> (live, s)
      | Some (live1, rep1, s1) \<Rightarrow>
          let r1 = r\<lparr>rr_report_result := ReportNoConsensus, rr_reporter_stake := 0\<rparr>;
              s2 = (if rr_unruly r1 \<noteq> [] then put_result n r1 (update_unhandled_report n True (rr_slash_exec_time r1) s1) else s1)
          in (live1, put_reporter_report (ri_reporter i) (rep1\<lparr>failed_report := add_item n (failed_report rep1)\<rparr>) s2))"

definition judge_inaccessible ::
    "'w mc_config \<Rightarrow> report_id \<Rightarrow> report_info_detail \<Rightarrow> report_result_info \<Rightarrow> reporter_report_list \<Rightarrow>
       live_report_list \<times> 'w mc_state \<Rightarrow> live_report_list \<times> 'w mc_state" where
  "judge_inaccessible T n i r rep ls =
     (let (live, s) = ls;
          supported = (length (against_committee i) \<le> length (support_committee i));
          offline = (if supported
                     then on_mc_profile (mt_machine_offline (mc_op T) (ri_reporter i) (support_committee i)
                            (ri_machine_id i) (into_op_err (fault_type i) (ri_report_time i))) s
                     else Some s)
      in case offline of None \<Rightarrow> (live, s)
         | Some s1 \<Rightarrow>
             let (win, lose) = (if supported then (support_committee i, against_committee i)
                                else (against_committee i, support_committee i));
                 r1 = r\<lparr>rr_inconsistent := expand_to_order (rr_inconsistent r) lose,
                        rr_reward := expand_to_order (rr_reward r) win,
                        rr_report_result := (if supported then ReportSucceed else ReportRefused)\<rparr>;
                 rep1 = (if supported then rep\<lparr>succeed_report := add_item n (succeed_report rep)\<rparr>
                         else rep\<lparr>failed_report := add_item n (failed_report rep)\<rparr>);
                 live1 = clean_unfinished_report n live
             in (live1\<lparr>finished_report := add_item n (finished_report live1)\<rparr>,
                 put_result n r1 (update_unhandled_report n True (rr_slash_exec_time r1)
                   (put_report n (i\<lparr>report_status := CommitteeConfirmed\<rparr>)
                     (put_reporter_report (ri_reporter i) rep1 s1)))))"

definition summary_inaccessible_report ::
    "'w mc_config \<Rightarrow> block_number \<Rightarrow> report_id \<Rightarrow> live_report_list \<times> 'w mc_state \<Rightarrow> live_report_list \<times> 'w mc_state" where
  "summary_inaccessible_report T now n ls =
     (let (live, s) = ls in
      case ReportInfo s n of None \<Rightarrow> (live, s)
      | Some i \<Rightarrow>
          if \<not> can_summary_inaccessible now i then (live, s)
          else if report_status i = WaitingBook \<or> report_status i = Verifying
          then if FIVE_MINUTES \<le> saturating_sub now (first_book_time i) \<or> length (ri_hashed i) = 3
               then (time_to_submit_raw n live, put_report n (i\<lparr>report_status := SubmittingRaw\<rparr>) s)
               else (live, s)
          else (case MachinesInfo (mc_profile s) (ri_machine_id i) of None \<Rightarrow> (live, s)
          | Some info \<Rightarrow>
              let live1 = live\<lparr>waiting_raw_report := rm_item n (waiting_raw_report live)\<rparr>;
                  rep0 = ReporterReport s (ri_reporter i);
                  rep = rep0\<lparr>processing_report := rm_item n (processing_report rep0)\<rparr>;
                  (r, s1) = close_orders n i (ri_booked i) (new_inaccessible_result now n i (machine_stash info), s)
              in if ri_confirmed i = [] then report_again now n i r rep (live1, s1)
                 else judge_inaccessible T n i r rep (live1, s1)))"

definition summary_inaccessible_hook :: "'w mc_config \<Rightarrow> block_number \<Rightarrow> 'w mc_state \<Rightarrow> 'w mc_state" where
  "summary_inaccessible_hook T now s =
     (let live = LiveReport s;
          (live1, s1) = fold (summary_inaccessible_report T now)
            (verifying_report live @ bookable_report live @ waiting_raw_report live) (live, s)
      in s1\<lparr>LiveReport := live1\<rparr>)"

section \<open>The summary of the other reports\<close>

fun release_orders :: "'w mc_config \<Rightarrow> report_id \<Rightarrow> account list \<Rightarrow> 'w mc_state \<Rightarrow> 'w mc_state" where
  "release_orders T n [] s = s"
| "release_orders T n (a # as) s =
     release_orders T n as
       (change_order a (clean_unfinished_order n)
         (put_report_ops a n default_report_ops
           (ignoring (mc_used_stake T a (staked_balance (ReportOps s a n)) False) s)))"

definition summary_before_submit_raw ::
    "'w mc_config \<Rightarrow> block_number \<Rightarrow> report_id \<Rightarrow> reporter_report_list \<Rightarrow> report_result_info \<Rightarrow>
       live_report_list \<times> 'w mc_state \<Rightarrow> live_report_list \<times> 'w mc_state" where
  "summary_before_submit_raw T now n rep r ls =
     (let (live, s) = ls in
      case ReportInfo s n of None \<Rightarrow> (live, s)
      | Some i \<Rightarrow>
          if report_status i \<noteq> Verifying then (live, s)
          else (case verifying_committee i of None \<Rightarrow> (live, s)
          | Some v \<Rightarrow>
              let ops = ReportOps s v n; waited = saturating_sub now (booked_time ops) in
              if HALF_HOUR \<le> waited \<and> encrypted_err_info ops = None
              then let s1 = put_reporter_report (ri_reporter i) (clean_not_submit_encrypted_report n rep) s;
                       s2 = release_orders T n (ri_booked i) s1
                   in (live\<lparr>verifying_report := rm_item n (verifying_report live)\<rparr>,
                       put_result n (r\<lparr>rr_report_result := ReporterNotSubmitEncryptedInfo\<rparr>)
                         (update_unhandled_report n True (rr_slash_exec_time r) s2))
              else if ONE_HOUR \<le> waited
              then (clean_not_submit_hash_report n live,
                    put_result n (r\<lparr>rr_unruly := add_item v (rr_unruly r)\<rparr>)
                      (update_unhandled_report n True (rr_slash_exec_time r)
                        (put_report_ops v n default_report_ops
                          (put_report n (clean_not_submit_hash_committee v i)
                            (change_order v (\<lambda>l. l\<lparr>booked_report := rm_item n (booked_report l)\<rparr>) s)))))
              else (live, s)))"

definition summary_after_submit_raw ::
    "'w mc_config \<Rightarrow> block_number \<Rightarrow> report_id \<Rightarrow> live_report_list \<times> 'w mc_state \<Rightarrow> live_report_list \<times> 'w mc_state" where
  "summary_after_submit_raw T now n ls =
     (let (live, s) = ls;
          live0 = clean_unfinished_report n live;
          live1 = live0\<lparr>waiting_raw_report := add_item n (waiting_raw_report live0)\<rparr>
      in case ReportInfo s n of None \<Rightarrow> (live1, s)
         | Some i \<Rightarrow>
             if report_status i = WaitingBook then (live1, put_report n (i\<lparr>report_status := SubmittingRaw\<rparr>) s)
             else (case verifying_committee i of None \<Rightarrow> (live1, s)
             | Some v \<Rightarrow>
                 let ops = ReportOps s v n in
                 if saturating_sub now (booked_time ops) < ONE_HOUR
                 then (live1,
                       put_report n (clean_not_submit_raw_committee v i)
                         (put_report_ops v n default_report_ops
                           (ignoring (mc_used_stake T v (staked_balance ops) False)
                             (change_order v (clean_unfinished_order n) s))))
                 else (live1, s)))"

definition mc_order_stake :: "'w mc_state \<Rightarrow> balance" where
  "mc_order_stake s = (case stake_per_order (mc_committee s) of None \<Rightarrow> 0 | Some v \<Rightarrow> v)"

definition summary_verifying_report ::
    "'w mc_config \<Rightarrow> block_number \<Rightarrow> report_id \<Rightarrow> live_report_list \<times> 'w mc_state \<Rightarrow> live_report_list \<times> 'w mc_state" where
  "summary_verifying_report T now n ls =
     (let (live, s) = ls in
      case ReportInfo s n of None \<Rightarrow> (live, s)
      | Some i \<Rightarrow>
          if \<not> can_summary_fault i then (live, s)
          else if saturating_sub now (first_book_time i) < THREE_HOURS
          then summary_before_submit_raw T now n (ReporterReport s (ri_reporter i))
                 (rr_new now n (ri_reporter i) (ri_reporter_stake i) (mc_order_stake s)) (live, s)
          else summary_after_submit_raw T now n (live, s))"

fun finish_orders :: "report_id \<Rightarrow> account list \<Rightarrow> 'w mc_state \<Rightarrow> 'w mc_state" where
  "finish_orders n [] s = s"
| "finish_orders n (a # as) s =
     finish_orders n as
       (change_order a (\<lambda>l. l\<lparr>confirmed_report := rm_item n (confirmed_report l),
                              co_finished_report := add_item n (co_finished_report l)\<rparr>) s)"

fun drop_orders :: "report_id \<Rightarrow> account list \<Rightarrow> 'w mc_state \<Rightarrow> 'w mc_state" where
  "drop_orders n [] s = s"
| "drop_orders n (a # as) s =
     drop_orders n as
       (change_order a (\<lambda>l. l\<lparr>booked_report := rm_item n (booked_report l), hashed_report := rm_item n (hashed_report l)\<rparr>)
         (put_report_ops a n default_report_ops s))"

text \<open>What a result means for the machine and the members; \<open>None\<close> is the early return with an error.\<close>

definition judge_fault ::
    "'w mc_config \<Rightarrow> block_number \<Rightarrow> report_id \<Rightarrow> report_info_detail \<Rightarrow> live_report_list \<times> 'w mc_state \<Rightarrow>
       (live_report_list \<times> 'w mc_state) \<times> bool" where
  "judge_fault T now n i ls =
     (let (live, s) = ls in
      case ri_summary i of
        ConfirmedBy sp ag e \<Rightarrow>
          let s1 = finish_orders n sp s in
          (case on_mc_profile (mt_machine_offline (mc_op T) (ri_reporter i) sp (ri_machine_id i)
                  (into_op_err (fault_type i) (ri_report_time i))) s1 of
             None \<Rightarrow> ((live, s1), False)
           | Some s2 \<Rightarrow> ((live, s2), True))
      | RefusedBy sp ag \<Rightarrow> ((live, finish_orders n (sp @ ag) s), True)
      | NoConsensusReached \<Rightarrow>
          let s1 = drop_orders n (ri_booked i) s; rep = ReporterReport s1 (ri_reporter i) in
          (case do_report_machine_fault now (ri_reporter i) (fault_type i) (Some (ri_report_time i)) live rep s1 of
             None \<Rightarrow> ((live, put_reporter_report (ri_reporter i) rep s1), True)
           | Some (live1, rep1, s2) \<Rightarrow> ((live1, put_reporter_report (ri_reporter i) rep1 s2), True)))"

definition summary_submitting_raw ::
    "'w mc_config \<Rightarrow> block_number \<Rightarrow> report_id \<Rightarrow> live_report_list \<times> 'w mc_state \<Rightarrow> live_report_list \<times> 'w mc_state" where
  "summary_submitting_raw T now n ls =
     (let (live, s) = ls in
      case ReportInfo s n of None \<Rightarrow> (live, s)
      | Some i \<Rightarrow>
          if \<not> ri_can_summary now i then (live, s)
          else
            let live1 = lr_get_verify_result n (ri_summary i) live;
                r = rr_get_verify_result (ReportResult s n) now n (mc_order_stake s) i;
                ((live2, s1), ok) = judge_fault T now n i (live1, s)
            in if \<not> ok then (live2, s1)
               else (live2,
                 put_report n (if report_status i \<noteq> Reported then i\<lparr>report_status := CommitteeConfirmed\<rparr> else i)
                   (put_result n r (update_unhandled_report n True (wrapping_add 32 now TWO_DAYS) s1))))"

definition summary_fault_hook :: "'w mc_config \<Rightarrow> block_number \<Rightarrow> 'w mc_state \<Rightarrow> 'w mc_state" where
  "summary_fault_hook T now s =
     (let live = LiveReport s;
          (live1, s1) = fold (summary_submitting_raw T now) (waiting_raw_report live)
            (fold (summary_verifying_report T now) (verifying_report live @ bookable_report live) (live, s))
      in s1\<lparr>LiveReport := live1\<rparr>)"

section \<open>Executing slashes\<close>

definition exec_slash_of :: "'w mc_config \<Rightarrow> report_id \<Rightarrow> report_result_info \<Rightarrow> 'w mc_state \<Rightarrow> 'w mc_state" where
  "exec_slash_of T n r s =
     (let s1 = change_reporter_stake_on_report_close (rr_reporter r) (rr_reporter_stake r) (rr_report_result r) s;
          slashed = rr_unruly r @ rr_inconsistent r;
          reward_who = (if rr_report_result r = ReportSucceed then rr_reward r @ [rr_reporter r] else []);
          s2 = (if rr_report_result r = ReportRefused \<or> rr_report_result r = ReporterNotSubmitEncryptedInfo
                then mc_slash_and_reward T [rr_reporter r] (rr_reporter_stake r) (rr_reward r) s1 else s1);
          s3 = fst (change_committee_stake_on_report_close T (rr_reward r) (rr_committee_stake r) False s2);
          s4 = fst (change_committee_stake_on_report_close T slashed (rr_committee_stake r) True s3);
          s5 = mc_slash_and_reward T slashed (rr_committee_stake r) reward_who s4
      in put_result n (r\<lparr>rr_slash_result := SlashExecuted\<rparr>) s5)"

text \<open>\<open>False\<close> is the early return at a report without a result.\<close>

fun exec_slash_loop :: "'w mc_config \<Rightarrow> report_id list \<Rightarrow> 'w mc_state \<Rightarrow> 'w mc_state \<times> bool" where
  "exec_slash_loop T [] s = (s, True)"
| "exec_slash_loop T (n # ns) s =
     (case ReportResult s n of
        None \<Rightarrow> (s, False)
      | Some r \<Rightarrow> exec_slash_loop T ns (exec_slash_of T n r s))"

definition mc_exec_slash :: "'w mc_config \<Rightarrow> block_number \<Rightarrow> 'w mc_state \<Rightarrow> 'w mc_state" where
  "mc_exec_slash T now s =
     (let (s1, ok) = exec_slash_loop T (UnhandledReportResult s now) s
      in if ok then s1\<lparr>UnhandledReportResult := (UnhandledReportResult s1)(now := [])\<rparr> else s1)"

definition exec_review_of ::
    "'w mc_config \<Rightarrow> report_id \<Rightarrow> mt_pending_slash_review_info \<Rightarrow> report_result_info \<Rightarrow> 'w mc_state \<Rightarrow> 'w mc_state" where
  "exec_review_of T n review r s =
     (let who = mcr_applicant review; staked = mcr_staked_amount review;
          s1 = (if is_slashed_reporter who r then close_reporter_stake who staked True s
                else if is_slashed_committee who r
                then fst (change_committee_stake_on_report_close T [who] staked True s)
                else if is_slashed_stash who r
                then ignoring (on_mc_profile (mt_rm_stash_total_stake who staked)) s
                else s);
          s2 = mc_slash_and_reward T [who] staked [] s1
      in s2\<lparr>mc_PendingSlashReview := (mc_PendingSlashReview s2)(n := None)\<rparr>)"

fun exec_review_loop :: "'w mc_config \<Rightarrow> block_number \<Rightarrow> report_id list \<Rightarrow> 'w mc_state \<Rightarrow> 'w mc_state" where
  "exec_review_loop T now [] s = s"
| "exec_review_loop T now (n # ns) s =
     (case (mc_PendingSlashReview s n, ReportResult s n) of
        (Some review, Some r) \<Rightarrow>
          exec_review_loop T now ns (if mcr_expire_time review < now then s else exec_review_of T n review r s)
      | _ \<Rightarrow> s)"

definition exec_review :: "'w mc_config \<Rightarrow> block_number \<Rightarrow> 'w mc_state \<Rightarrow> 'w mc_state" where
  "exec_review T now s = exec_review_loop T now (mc_review_iter T (mc_PendingSlashReview s)) s"

section \<open>Hooks and calls\<close>

definition mc_on_initialize :: "'w mc_config \<Rightarrow> block_number \<Rightarrow> 'w mc_state \<Rightarrow> 'w mc_state" where
  "mc_on_initialize T now s = mc_exec_slash T now (exec_review T now s)"

definition mc_on_finalize :: "'w mc_config \<Rightarrow> block_number \<Rightarrow> 'w mc_state \<Rightarrow> 'w mc_state" where
  "mc_on_finalize T now s = summary_inaccessible_hook T now (summary_fault_hook T now s)"

datatype mc_call =
    SetReporterStakeParams reporter_stake_params_info
  | ReportMachineFaultCall machine_fault_type
  | ReporterAddStakeCall balance
  | ReporterReduceStakeCall balance
  | ReporterCancelReport report_id
  | CommitteeBookReportCall report_id
  | ReporterAddEncryptedErrorInfo report_id account bytes
  | CommitteeSubmitVerifyHash report_id bytes
  | CommitteeSubmitVerifyRaw report_id machine_id rent_order_id bytes bytes bytes bytes bool
  | CommitteeSubmitInaccessibleRaw report_id bytes bool
  | ApplySlashReview report_id bytes
  | CancelReporterSlash report_id

fun mc_dispatch ::
    "'w mc_config \<Rightarrow> block_number \<Rightarrow> origin \<Rightarrow> mc_call \<Rightarrow> 'w mc_state \<Rightarrow> mc_error + 'w mc_state" where
  "mc_dispatch T now orig (SetReporterStakeParams p) s = set_reporter_stake_params orig p s"
| "mc_dispatch T now orig (ReportMachineFaultCall f) s = report_machine_fault T now orig f s"
| "mc_dispatch T now orig (ReporterAddStakeCall v) s = reporter_add_stake T orig v s"
| "mc_dispatch T now orig (ReporterReduceStakeCall v) s = reporter_reduce_stake T orig v s"
| "mc_dispatch T now orig (ReporterCancelReport n) s = reporter_cancel_report orig n s"
| "mc_dispatch T now orig (CommitteeBookReportCall n) s = committee_book_report T now orig n s"
| "mc_dispatch T now orig (ReporterAddEncryptedErrorInfo n c e) s = reporter_add_encrypted_error_info now orig n c e s"
| "mc_dispatch T now orig (CommitteeSubmitVerifyHash n h) s = committee_submit_verify_hash now orig n h s"
| "mc_dispatch T now orig (CommitteeSubmitVerifyRaw n m rid rr cr e x b) s =
     committee_submit_verify_raw T now orig n m rid rr cr e x b s"
| "mc_dispatch T now orig (CommitteeSubmitInaccessibleRaw n r b) s = committee_submit_inaccessible_raw T now orig n r b s"
| "mc_dispatch T now orig (ApplySlashReview n r) s = mc_apply_slash_review T now orig n r s"
| "mc_dispatch T now orig (CancelReporterSlash n) s = cancel_reporter_slash T now orig n s"

section \<open>Runs\<close>

text \<open>
  Between its own calls and hooks the state of the other pallets may change in any way. The runs are those in
  which the counter of reports does not wrap around: fewer than \<open>2\<^sup>6\<^sup>4 - 1\<close> reports are made, where the
  summary of a block may make a new report for each live one.
\<close>

definition live_reports :: "live_report_list \<Rightarrow> report_id list" where
  "live_reports l = verifying_report l @ bookable_report l @ waiting_raw_report l"

definition mc_room :: "'w mc_state \<Rightarrow> bool" where
  "mc_room s \<longleftrightarrow> NextReportId s + length (live_reports (LiveReport s)) < 2 ^ 64 - 1"

definition mc_init :: "'w cm_state rm_state \<Rightarrow> 'w mc_state" where
  "mc_init r =
     \<lparr>mc_rent = r, CommitteeLimit = 3, ReporterStakeParams = None, NextReportId = 0,
      ReporterStake = (\<lambda>_. default_reporter_stake), ReporterReport = (\<lambda>_. default_reporter_report),
      CommitteeOrder = (\<lambda>_. default_committee_order), ReportOps = (\<lambda>_ _. default_report_ops),
      LiveReport = default_live_report, ReportInfo = Map.empty, ReportResult = Map.empty,
      UnhandledReportResult = (\<lambda>_. []), mc_PendingSlashReview = Map.empty, mc_events = []\<rparr>"

inductive mc_step :: "'w mc_config \<Rightarrow> 'w mc_state \<Rightarrow> 'w mc_state \<Rightarrow> bool" for T where
  mc_called: "mc_dispatch T now orig c s = Inr s' \<Longrightarrow> NextReportId s < 2 ^ 64 - 1 \<Longrightarrow> mc_step T s s'"
| mc_initialized: "mc_step T s (mc_on_initialize T now s)"
| mc_finalized: "mc_room s \<Longrightarrow> mc_room (summary_fault_hook T now s) \<Longrightarrow> mc_step T s (mc_on_finalize T now s)"
| mc_others: "mc_step T s (s\<lparr>mc_rent := r\<rparr>)"

inductive_cases mc_stepE: "mc_step T s s'"

section \<open>Votes are committed to\<close>

text \<open>A vote opens a commitment \<open>h\<close> when it hashes to it; that of an ordinary report also opens the hash of the reporter.\<close>

definition vote_opens :: "'w mc_config \<Rightarrow> report_id \<Rightarrow> machine_fault_type \<Rightarrow> bool \<Rightarrow> bytes \<Rightarrow> bool" where
  "vote_opens T n f b h \<longleftrightarrow>
     (case fault_hash f of
        None \<Rightarrow> \<exists>r. inaccessible_hash T n r b = h
      | Some rh \<Rightarrow> \<exists>m rid rr cr e. reporter_report_hash T m rid rr e = rh \<and> committee_report_hash T m rid rr cr b e = h)"

definition votes_open :: "'w mc_config \<Rightarrow> report_id \<Rightarrow> (account \<Rightarrow> bytes) \<Rightarrow> report_info_detail \<Rightarrow> bool" where
  "votes_open T n h i \<longleftrightarrow>
     (\<forall>c\<in>set (support_committee i). vote_opens T n (fault_type i) True (h c)) \<and>
     (\<forall>c\<in>set (against_committee i). vote_opens T n (fault_type i) False (h c))"

definition report_hash :: "'w mc_state \<Rightarrow> report_id \<Rightarrow> account \<Rightarrow> bytes" where
  "report_hash s n = (\<lambda>c. report_confirm_hash (ReportOps s c n))"

definition mc_ok :: "'w mc_config \<Rightarrow> 'w mc_state \<Rightarrow> bool" where
  "mc_ok T s \<longleftrightarrow>
     (\<forall>n i. ReportInfo s n = Some i \<longrightarrow> n < NextReportId s \<and> report_ok i \<and> votes_open T n (report_hash s n) i) \<and>
     (\<forall>c. ascending (booked_report (CommitteeOrder s c)) \<and>
        (\<forall>n\<in>set (booked_report (CommitteeOrder s c)). \<exists>i. ReportInfo s n = Some i \<and> c \<in> set (ri_booked i)))"

text \<open>What does not touch reports, orders or commitments.\<close>

definition mc_frame :: "'w mc_state \<Rightarrow> 'w mc_state \<Rightarrow> bool" where
  "mc_frame s' s \<longleftrightarrow>
     ReportInfo s' = ReportInfo s \<and> NextReportId s' = NextReportId s \<and> ReportOps s' = ReportOps s \<and>
     CommitteeOrder s' = CommitteeOrder s"

lemmas put_defs = put_result_def put_reporter_report_def put_reporter_stake_def put_mc_profile_def put_mc_committee_def
  mc_deposit_event_def update_unhandled_report_def change_live_def close_reporter_stake_def
  change_reporter_stake_on_report_close_def mc_slash_and_reward_def change_committee_stake_on_report_close_def

lemma mc_frame_ok: "mc_frame s' s \<Longrightarrow> mc_ok T s' = mc_ok T s"
  by (simp add: mc_frame_def mc_ok_def report_hash_def)

lemma mc_frame_trans: "mc_frame s3 s2 \<Longrightarrow> mc_frame s2 s1 \<Longrightarrow> mc_frame s3 s1"
  by (simp add: mc_frame_def)

lemma mc_frame_refl [simp]: "mc_frame s s"
  by (simp add: mc_frame_def)

lemma mc_frame_updates [simp]:
  "mc_frame (put_result n r s) s0 = mc_frame s s0" "mc_frame (put_reporter_report a l s) s0 = mc_frame s s0"
  "mc_frame (put_reporter_stake a st s) s0 = mc_frame s s0" "mc_frame (put_mc_profile p s) s0 = mc_frame s s0"
  "mc_frame (put_mc_committee w s) s0 = mc_frame s s0" "mc_frame (mc_deposit_event e s) s0 = mc_frame s s0"
  "mc_frame (update_unhandled_report n b t s) s0 = mc_frame s s0" "mc_frame (change_live f s) s0 = mc_frame s s0"
  "mc_frame (close_reporter_stake a v b s) s0 = mc_frame s s0"
  "mc_frame (change_reporter_stake_on_report_close a v x s) s0 = mc_frame s s0"
  "mc_frame (mc_slash_and_reward T as v bs s) s0 = mc_frame s s0"
  "mc_frame (fst (change_committee_stake_on_report_close T as v b s)) s0 = mc_frame s s0"
  "mc_frame (s\<lparr>LiveReport := live\<rparr>) s0 = mc_frame s s0"
  "mc_frame (s\<lparr>mc_PendingSlashReview := pr\<rparr>) s0 = mc_frame s s0"
  "mc_frame (s\<lparr>UnhandledReportResult := u\<rparr>) s0 = mc_frame s s0"
  "mc_frame (s\<lparr>ReporterStakeParams := p'\<rparr>) s0 = mc_frame s s0"
  "mc_frame (s\<lparr>mc_rent := rent\<rparr>) s0 = mc_frame s s0"
  by (simp_all add: mc_frame_def put_defs Let_def)

lemma mc_frame_used_stake: "mc_used_stake T a v b s = Some s' \<Longrightarrow> mc_frame s' s"
  by (auto simp: mc_used_stake_def)

lemma mc_frame_profile: "on_mc_profile f s = Some s' \<Longrightarrow> mc_frame s' s"
  by (auto simp: on_mc_profile_def)

lemma mc_frame_fee: "mc_pay_fixed_tx_fee T a s = Some s' \<Longrightarrow> mc_frame s' s"
  by (auto simp: mc_pay_fixed_tx_fee_def)

lemma mc_frame_ignoring: "(\<And>s'. f s = Some s' \<Longrightarrow> mc_frame s' s) \<Longrightarrow> mc_frame (ignoring f s) s"
  by (simp add: ignoring_def split: option.splits)

lemma mc_frame_ignoring_used [simp]: "mc_frame (ignoring (mc_used_stake T a v b) s) s"
  by (rule mc_frame_ignoring) (rule mc_frame_used_stake)

lemma mc_frame_stakes:
  "change_reporter_stake T a v b s = Inr s' \<Longrightarrow> mc_frame s' s"
  "pay_stake_when_report T a s = Inr s' \<Longrightarrow> mc_frame s' s"
  "check_inaccessible T a m rid s = Inr s' \<Longrightarrow> mc_frame s' s"
  subgoal by (auto simp: change_reporter_stake_def Let_def split: option.splits if_splits)
  subgoal by (auto simp: pay_stake_when_report_def Let_def split: option.splits if_splits)
  subgoal by (auto simp: check_inaccessible_def Let_def dest!: mc_frame_fee elim!: mc_frame_trans
      split: option.splits if_splits)
  done

lemma mc_frame_reviews:
  "stake_for_review T a v r s = Inr s' \<Longrightarrow> mc_frame s' s"
  "return_review_deposit T a v r s = Inr s' \<Longrightarrow> mc_frame s' s"
  subgoal by (auto simp: stake_for_review_def mc_total_stake_def dest!: mc_frame_stakes mc_frame_used_stake mc_frame_profile
      elim: mc_frame_trans split: option.splits if_splits sum.splits)
  subgoal by (auto simp: return_review_deposit_def change_committee_stake_on_report_close_def Let_def
      dest!: mc_frame_stakes mc_frame_profile split: option.splits if_splits prod.splits bool.splits)
  done

subsection \<open>Changing a report, a record or an order\<close>

lemma ok_report_info:
  "mc_ok T s \<Longrightarrow> ReportInfo s n = Some i \<Longrightarrow> report_ok i \<and> votes_open T n (report_hash s n) i \<and> n < NextReportId s"
  by (simp add: mc_ok_def)

lemma ok_order: "mc_ok T s \<Longrightarrow> ascending (booked_report (CommitteeOrder s c))"
  by (simp add: mc_ok_def)

lemma ok_booked:
  "mc_ok T s \<Longrightarrow> n \<in> set (booked_report (CommitteeOrder s c)) \<Longrightarrow> ReportInfo s n = Some i \<Longrightarrow> c \<in> set (ri_booked i)"
  unfolding mc_ok_def by (metis option.inject)

lemma votes_open_none: "report_ok i \<Longrightarrow> ri_confirmed i = [] \<Longrightarrow> votes_open T n h i"
  by (auto simp: votes_open_def report_ok_defs)

lemma report_ok_votes: "report_ok i \<Longrightarrow> set (support_committee i) \<union> set (against_committee i) = set (ri_confirmed i)"
  unfolding report_ok_def report_lists_ok_def by blast

lemma votes_open_cong:
  assumes "report_ok i" "\<And>c. c \<in> set (ri_confirmed i) \<Longrightarrow> h' c = h c"
  shows "votes_open T n h' i = votes_open T n h i"
proof -
  have "h' c = h c" if "c \<in> set (support_committee i) \<or> c \<in> set (against_committee i)" for c
    using that assms(2) report_ok_votes [OF assms(1)] by blast
  then show ?thesis unfolding votes_open_def by simp
qed

lemma ok_put_report:
  assumes "mc_ok T s" "ReportInfo s n = Some i" "report_ok i'" "votes_open T n (report_hash s n) i'"
    and "\<And>c. n \<in> set (booked_report (CommitteeOrder s c)) \<Longrightarrow> c \<in> set (ri_booked i) \<Longrightarrow> c \<in> set (ri_booked i')"
  shows "mc_ok T (put_report n i' s)"
proof -
  have "c \<in> set (ri_booked i')" if "n \<in> set (booked_report (CommitteeOrder s c))" for c
    using assms(5) that ok_booked [OF assms(1) that assms(2)] by blast
  then show ?thesis using assms(1-4) unfolding mc_ok_def put_report_def report_hash_def by auto
qed

lemma ok_put_report_ops:
  assumes "mc_ok T s"
    and "\<And>i. ReportInfo s n = Some i \<Longrightarrow> a \<in> set (ri_confirmed i) \<Longrightarrow> report_confirm_hash ops = report_hash s n a"
  shows "mc_ok T (put_report_ops a n ops s)"
proof -
  have "votes_open T k (report_hash (put_report_ops a n ops s) k) i" if "ReportInfo s k = Some i" for k i
  proof -
    have "votes_open T k (report_hash (put_report_ops a n ops s) k) i = votes_open T k (report_hash s k) i"
      using assms that by (intro votes_open_cong) (auto simp: mc_ok_def put_report_ops_def report_hash_def)
    then show ?thesis using ok_report_info [OF assms(1) that] by simp
  qed
  then show ?thesis using assms(1) unfolding mc_ok_def by (simp add: put_report_ops_def)
qed

lemma ok_change_order:
  assumes "mc_ok T s" "ascending (booked_report (f (CommitteeOrder s a)))"
    and "set (booked_report (f (CommitteeOrder s a))) \<subseteq> set (booked_report (CommitteeOrder s a))"
  shows "mc_ok T (change_order a f s)"
  using assms unfolding mc_ok_def change_order_def report_hash_def by auto

lemma ok_rm_order:
  assumes "mc_ok T s"
    and "booked_report (f (CommitteeOrder s a)) = booked_report (CommitteeOrder s a) \<or>
      booked_report (f (CommitteeOrder s a)) = rm_item n (booked_report (CommitteeOrder s a))"
  shows "mc_ok T (change_order a f s)"
proof (rule ok_change_order [OF assms(1)])
  note rm = il.rm_ok [OF ok_order [OF assms(1), of a], of n]
  show "ascending (booked_report (f (CommitteeOrder s a)))" using assms(2) rm ok_order [OF assms(1), of a] by metis
  show "set (booked_report (f (CommitteeOrder s a))) \<subseteq> set (booked_report (CommitteeOrder s a))"
    using assms(2) rm by (metis Diff_subset order_refl)
qed

lemma ok_clean_orders:
  assumes "mc_ok T s"
  shows "mc_ok T (change_order a (clean_unfinished_order n) s)" "mc_ok T (change_order a (clean_when_summary n b) s)"
    "mc_ok T (change_order a (co_add_hash n) s)" "mc_ok T (change_order a (co_add_raw n) s)"
    "mc_ok T (change_order a (\<lambda>l. l\<lparr>booked_report := rm_item n (booked_report l)\<rparr>) s)"
    "mc_ok T (change_order a (\<lambda>l. l\<lparr>booked_report := rm_item n (booked_report l), hashed_report := rm_item n (hashed_report l)\<rparr>) s)"
    "mc_ok T (change_order a (\<lambda>l. l\<lparr>confirmed_report := rm_item n (confirmed_report l), co_finished_report := add_item n (co_finished_report l)\<rparr>) s)"
  by (rule ok_rm_order [OF assms, where n = n],
    simp add: clean_unfinished_order_def clean_when_summary_def co_add_hash_def co_add_raw_def Let_def)+

lemma mc_reports_updates [simp]:
  "ReportInfo (put_report_ops a n ops s) = ReportInfo s" "ReportInfo (change_order a f s) = ReportInfo s"
  "NextReportId (put_report_ops a n ops s) = NextReportId s" "NextReportId (change_order a f s) = NextReportId s"
  "NextReportId (put_report n i s) = NextReportId s" "ReportInfo (put_report n i s) = (ReportInfo s)(n \<mapsto> i)"
  "CommitteeOrder (put_report_ops a n ops s) = CommitteeOrder s"
  by (simp_all add: put_report_ops_def change_order_def put_report_def)

lemma mc_frame_reports:
  "mc_frame s' s \<Longrightarrow> ReportInfo s' = ReportInfo s" "mc_frame s' s \<Longrightarrow> NextReportId s' = NextReportId s"
  "mc_frame s' s \<Longrightarrow> ReportOps s' = ReportOps s" "mc_frame s' s \<Longrightarrow> CommitteeOrder s' = CommitteeOrder s"
  by (simp_all add: mc_frame_def)

lemma new_report_frame:
  assumes "do_report_machine_fault now a f t live rep s = Some (live', rep', s')" "NextReportId s < 2 ^ 64 - 1"
  shows "\<exists>time v. mc_frame s' (put_report (NextReportId s) (ri_new a time f v) (s\<lparr>NextReportId := Suc (NextReportId s)\<rparr>))"
proof -
  obtain p where p: "ReporterStakeParams s = Some p"
    using assms(1) by (auto simp: do_report_machine_fault_def split: option.splits)
  have "mc_frame s' (put_report (NextReportId s) (ri_new a (case t of None \<Rightarrow> now | Some t \<Rightarrow> t) f (stake_per_report p))
      (s\<lparr>NextReportId := Suc (NextReportId s)\<rparr>))"
    using assms p by (auto simp: do_report_machine_fault_def get_new_report_id_def Let_def)
  then show ?thesis by blast
qed

lemma ok_insert_new:
  assumes "mc_ok T s"
  shows "mc_ok T (put_report (NextReportId s) (ri_new a t f v) (s\<lparr>NextReportId := Suc (NextReportId s)\<rparr>))"
proof -
  have new: "report_ok (ri_new a t f v)" "votes_open T n h (ri_new a t f v)" for n h
    by (rule ri_new_ok) (rule votes_open_none, rule ri_new_ok, cases f, simp_all add: ri_new_def)
  have "ReportInfo s (NextReportId s) = None"
    using ok_report_info [OF assms, of "NextReportId s"] by (cases "ReportInfo s (NextReportId s)") auto
  then have "\<not> NextReportId s \<in> set (booked_report (CommitteeOrder s c))" for c
    using assms unfolding mc_ok_def by fastforce
  then show ?thesis using assms new unfolding mc_ok_def put_report_def report_hash_def by (auto intro: less_SucI)
qed

lemma ok_new_report:
  assumes "do_report_machine_fault now a f t live rep s = Some (live', rep', s')" "NextReportId s < 2 ^ 64 - 1" "mc_ok T s"
  shows "mc_ok T s'" "NextReportId s' = Suc (NextReportId s)"
    "n < NextReportId s \<Longrightarrow> ReportInfo s' n = ReportInfo s n"
  using new_report_frame [OF assms(1,2)] ok_insert_new [OF assms(3)]
  by (auto simp: mc_frame_ok mc_frame_reports)

subsection \<open>The calls\<close>

lemma mc_ok_updates [simp]:
  "mc_ok T (put_result n r s) = mc_ok T s" "mc_ok T (put_reporter_report a l s) = mc_ok T s"
  "mc_ok T (put_mc_profile p s) = mc_ok T s" "mc_ok T (mc_deposit_event e s) = mc_ok T s"
  "mc_ok T (update_unhandled_report n b t s) = mc_ok T s" "mc_ok T (change_live g s) = mc_ok T s"
  "mc_ok T (close_reporter_stake a v b s) = mc_ok T s" "mc_ok T (s\<lparr>LiveReport := live\<rparr>) = mc_ok T s"
  "mc_ok T (ignoring (mc_used_stake T a v b) s) = mc_ok T s"
  by (rule mc_frame_ok, simp)+

lemma is_inaccessible_hash: "is_inaccessible f = (fault_hash f = None)"
  by (cases f) (simp_all add: is_inaccessible_def)

lemma keeps_hash [simp]:
  "report_confirm_hash (add_encry_info e t ops) = report_confirm_hash ops"
  "report_confirm_hash (od_book_report f t v ops) = report_confirm_hash ops"
  "report_confirm_hash (od_add_raw t b x ops) = report_confirm_hash ops"
  by (simp_all add: add_encry_info_def od_book_report_def od_add_raw_def Let_def)

lemma keeps_confirmed [simp]:
  "ri_confirmed (ri_book_report a t i) = ri_confirmed i" "ri_confirmed (ri_add_hash a i) = ri_confirmed i"
  "ri_confirmed (clean_not_submit_hash_committee a i) = ri_confirmed i"
  "ri_confirmed (clean_not_submit_raw_committee a i) = ri_confirmed i"
  "ri_booked (ri_add_hash a i) = ri_booked i" "ri_booked (ri_add_raw a b m e i) = ri_booked i"
  "ri_booked (ri_book_report a t i) = add_item a (ri_booked i)"
  "ri_booked (clean_not_submit_hash_committee a i) = rm_item a (ri_booked i)"
  "ri_booked (clean_not_submit_raw_committee a i) = rm_item a (ri_booked i)"
  by (simp_all add: ri_book_report_def ri_add_hash_def ri_add_raw_def clean_not_submit_hash_committee_def
    clean_not_submit_raw_committee_def Let_def split: option.splits)

lemma report_ok_open: "report_ok i \<Longrightarrow> report_status i \<in> {Reported, WaitingBook, Verifying} \<Longrightarrow> ri_confirmed i = []"
  unfolding report_ok_def report_phase_ok_def by blast

lemma report_ok_asc: "report_ok i \<Longrightarrow> ascending (ri_booked i) \<and> ascending (ri_hashed i) \<and> ascending (ri_confirmed i)"
  by (simp add: report_ok_defs)

lemma ok_add_order:
  assumes "mc_ok T s" "ReportInfo s n = Some i" "a \<in> set (ri_booked i)"
  shows "mc_ok T (change_order a (\<lambda>l. l\<lparr>booked_report := add_item n (booked_report l)\<rparr>) s)"
  using assms il.add_ok [OF ok_order [OF assms(1), of a], of n] unfolding mc_ok_def change_order_def report_hash_def
  by auto

lemma ok_book:
  assumes "mc_ok T s" "ReportInfo s n = Some i" "can_book a i = None"
  shows "mc_ok T (mc_book_report now a n i v s)"
proof -
  let ?i = "ri_book_report a now i" and ?f = "\<lambda>l. l\<lparr>booked_report := add_item n (booked_report l)\<rparr>"
  let ?ops = "od_book_report (fault_type i) now v (ReportOps s a n)"
  note i = ok_report_info [OF assms(1,2)]
  have c: "ri_confirmed i = []"
    using i assms(3) by (intro report_ok_open) (auto simp: can_book_def split: if_splits)
  have i': "report_ok ?i" using i assms(3) ri_book_ok by blast
  have set': "set (ri_booked ?i) = insert a (set (ri_booked i))" using i report_ok_asc by (simp add: il.add_ok)
  have 1: "mc_ok T (put_report n ?i s)"
    using i' c set' by (intro ok_put_report [OF assms(1,2)] votes_open_none) simp_all
  have 2: "mc_ok T (change_order a ?f (put_report n ?i s))"
    by (rule ok_add_order [OF 1, where i = ?i]) (use set' in simp_all)
  have "mc_ok T (put_report_ops a n ?ops (change_order a ?f (put_report n ?i s)))"
    by (rule ok_put_report_ops [OF 2]) (simp add: c)
  moreover have "mc_frame (mc_book_report now a n i v s) (put_report_ops a n ?ops (change_order a ?f (put_report n ?i s)))"
    by (simp add: mc_frame_def mc_book_report_def put_report_def put_report_ops_def change_order_def change_live_def Let_def)
  ultimately show ?thesis by (simp add: mc_frame_ok)
qed

lemma ok_remove_report:
  assumes "mc_ok T s" "ReportInfo s n = Some i" "report_status i = Reported"
  shows "mc_ok T (s\<lparr>ReportInfo := (ReportInfo s)(n := None)\<rparr>)"
proof -
  have "ri_booked i = []" using ok_report_info [OF assms(1,2)] assms(3) by (simp add: report_ok_defs)
  then have "n \<notin> set (booked_report (CommitteeOrder s c))" for c
    using ok_booked [OF assms(1) _ assms(2), of c] by auto
  then show ?thesis using assms(1) unfolding mc_ok_def report_hash_def by auto
qed

lemma ok_encrypted:
  assumes "mc_ok T s" "ReportInfo s n = Some i"
  shows "mc_ok T (put_report_ops a n (add_encry_info e t (ReportOps s a n))
    (put_report n (i\<lparr>encrypted_info_committee := l\<rparr>) s))"
proof -
  have i: "report_ok (i\<lparr>encrypted_info_committee := l\<rparr>)" "votes_open T n (report_hash s n) (i\<lparr>encrypted_info_committee := l\<rparr>)"
    using ok_report_info [OF assms] by (simp_all add: report_ok_defs votes_open_def)
  have "mc_ok T (put_report n (i\<lparr>encrypted_info_committee := l\<rparr>) s)"
    by (rule ok_put_report [OF assms i]) simp
  then show ?thesis by (rule ok_put_report_ops) (simp add: report_hash_def put_report_def)
qed

lemma ok_hash:
  assumes "mc_ok T s" "ReportInfo s n = Some i" "ri_can_submit_hash i = None" "a \<in> set (ri_booked i)"
  shows "mc_ok T (change_order a (co_add_hash n)
    (put_report_ops a n (od_add_hash h t (ReportOps s a n)) (put_report n (ri_add_hash a i) s)))"
proof -
  note i = ok_report_info [OF assms(1,2)]
  have c: "ri_confirmed i = []"
    using i assms(3) by (intro report_ok_open) (auto simp: ri_can_submit_hash_def split: if_splits)
  have i': "report_ok (ri_add_hash a i)" using i assms(3,4) ri_add_hash_ok by blast
  have "mc_ok T (put_report n (ri_add_hash a i) s)"
    using i' c by (intro ok_put_report [OF assms(1,2)] votes_open_none) simp_all
  then have "mc_ok T (put_report_ops a n (od_add_hash h t (ReportOps s a n)) (put_report n (ri_add_hash a i) s))"
    by (rule ok_put_report_ops) (simp add: c)
  then show ?thesis by (rule ok_clean_orders)
qed

lemma votes_open_add_raw:
  assumes "report_ok i" "votes_open T n h i" "vote_opens T n (fault_type i) b (h a)"
  shows "votes_open T n h (ri_add_raw a b m e i)"
  using assms unfolding votes_open_def
  by (auto simp: ri_add_raw_def Let_def il.add_ok report_ok_defs split: option.splits)

lemma ok_record_raw:
  assumes "mc_ok T s" "ReportInfo s n = Some i" "report_status i = SubmittingRaw" "is_ok (binary_search a (ri_hashed i))"
    and "vote_opens T n (fault_type i) b (report_hash s n a)"
  shows "mc_ok T (record_raw now a n b m e x i s)"
proof -
  let ?s1 = "put_report_ops a n (od_add_raw now b x (ReportOps s a n)) (change_order a (co_add_raw n) s)"
  note i = ok_report_info [OF assms(1,2)]
  have a: "a \<in> set (ri_hashed i)" using assms(4) i report_ok_asc il.member_ok by blast
  have ops: "ReportOps (change_order a (co_add_raw n) s) = ReportOps s" by (simp add: change_order_def)
  have 1: "mc_ok T ?s1"
    by (rule ok_put_report_ops [OF ok_clean_orders(4) [OF assms(1)]]) (simp add: report_hash_def ops)
  have h: "report_hash ?s1 n = report_hash s n" by (auto simp: report_hash_def put_report_ops_def ops)
  have "mc_ok T (put_report n (ri_add_raw a b m e i) ?s1)"
  proof (rule ok_put_report [OF 1])
    show "ReportInfo ?s1 n = Some i" using assms(2) by simp
    show "report_ok (ri_add_raw a b m e i)" using i assms(3) a ri_add_raw_ok by blast
    show "votes_open T n (report_hash ?s1 n) (ri_add_raw a b m e i)"
      unfolding h using votes_open_add_raw i assms(5) by blast
  qed simp
  then show ?thesis by (simp add: record_raw_def)
qed

lemma ok_report_machine_fault:
  assumes "report_machine_fault T now orig f s = Inr s'" "mc_ok T s" "NextReportId s < 2 ^ 64 - 1"
  shows "mc_ok T s'"
proof -
  obtain a s1 s2 live rep s3 where
    1: "(case f of FaultInaccessible m rid \<Rightarrow> check_inaccessible T a m rid s | _ \<Rightarrow> Inr s) = Inr s1" and
    2: "pay_stake_when_report T a s1 = Inr s2" and
    3: "do_report_machine_fault now a f None (LiveReport s) (ReporterReport s a) s2 = Some (live, rep, s3)" and
    s': "s' = put_reporter_report a rep (s3\<lparr>LiveReport := live\<rparr>)"
    using assms(1) by (auto simp: report_machine_fault_def split: option.splits sum.splits)
  have "mc_frame s1 s" using 1 mc_frame_stakes(3) by (cases f) auto
  then have "mc_frame s2 s" using mc_frame_stakes(2) [OF 2] mc_frame_trans by blast
  then have "mc_ok T s2" "NextReportId s2 = NextReportId s" using assms(2) mc_frame_ok mc_frame_reports(2) by blast+
  then show ?thesis using ok_new_report(1) [OF 3] assms(3) s' by simp
qed

lemma ok_committee_book_report:
  assumes "committee_book_report T now orig n s = Inr s'" "mc_ok T s"
  shows "mc_ok T s'"
proof -
  obtain a i v s1 where i: "ReportInfo s n = Some i" "can_book a i = None" and s1: "mc_frame s1 s" and
    s': "s' = mc_deposit_event (CommitteeBookReport a n) (mc_book_report now a n i v s1)"
    using assms(1) by (auto simp: committee_book_report_def split: option.splits sum.splits if_splits
      dest: mc_frame_fee mc_frame_used_stake)
  have "mc_ok T s1" "ReportInfo s1 n = Some i" using s1 assms(2) i mc_frame_ok mc_frame_reports(1) by metis+
  then show ?thesis using ok_book i s' by simp
qed

lemma ok_submit_hash:
  assumes "committee_submit_verify_hash now orig n h s = Inr s'" "mc_ok T s"
  shows "mc_ok T s'"
proof -
  obtain a i where i: "ReportInfo s n = Some i" "co_can_submit_hash n (CommitteeOrder s a) = None" "ri_can_submit_hash i = None"
    and s': "mc_frame s' (change_order a (co_add_hash n)
      (put_report_ops a n (od_add_hash h now (ReportOps s a n)) (put_report n (ri_add_hash a i) s)))"
    using assms(1) unfolding committee_submit_verify_hash_def
    by (auto simp: Let_def mc_frame_def mc_deposit_event_def change_order_def put_report_ops_def put_report_def
      change_live_def split: option.splits if_splits)
  have "n \<in> set (booked_report (CommitteeOrder s a))"
    using i(2) il.member_ok [OF ok_order [OF assms(2)]] by (auto simp: co_can_submit_hash_def split: if_splits)
  then have "a \<in> set (ri_booked i)" using ok_booked [OF assms(2)] i(1) by blast
  then show ?thesis using ok_hash [OF assms(2) i(1,3)] s' mc_frame_ok by blast
qed

lemma ok_submit_raw:
  assumes "committee_submit_verify_raw T now orig n m rid rr cr e x b s = Inr s'" "mc_ok T s"
  shows "mc_ok T s'"
proof -
  obtain a i rh where i: "ReportInfo s n = Some i" "ri_can_submit_raw a i = None" "get_reporter_hash i = Inr rh"
    and rh: "reporter_report_hash T m rid rr e = rh"
    and h: "committee_report_hash T m rid rr cr b e = report_hash s n a"
    and s': "s' = record_raw now a n b (Some m) e x i s"
    using assms(1) by (auto simp: committee_submit_verify_raw_def report_hash_def split: option.splits sum.splits if_splits)
  have "vote_opens T n (fault_type i) b (report_hash s n a)"
    using i(3) rh h unfolding vote_opens_def by (simp add: get_reporter_hash_def split: option.splits) blast
  moreover have "report_status i = SubmittingRaw" "is_ok (binary_search a (ri_hashed i))"
    using i(2) by (auto simp: ri_can_submit_raw_def split: if_splits)
  ultimately show ?thesis using ok_record_raw [OF assms(2) i(1)] s' by blast
qed

lemma ok_submit_inaccessible_raw:
  assumes "committee_submit_inaccessible_raw T now orig n r b s = Inr s'" "mc_ok T s"
  shows "mc_ok T s'"
proof -
  obtain a i where i: "ReportInfo s n = Some i" "can_submit_inaccessible_raw a i = None"
    and h: "inaccessible_hash T n r b = report_hash s n a"
    and s': "s' = record_raw now a n b None [] [] i s"
    using assms(1) by (auto simp: committee_submit_inaccessible_raw_def report_hash_def split: option.splits if_splits)
  have "report_status i = SubmittingRaw" "is_inaccessible (fault_type i)" "is_ok (binary_search a (ri_hashed i))"
    using i(2) by (auto simp: can_submit_inaccessible_raw_def split: if_splits)
  moreover from this have "vote_opens T n (fault_type i) b (report_hash s n a)"
    using h by (auto simp: vote_opens_def is_inaccessible_hash)
  ultimately show ?thesis using ok_record_raw [OF assms(2) i(1)] s' by blast
qed

lemma ok_cancel_report:
  assumes "reporter_cancel_report orig n s = Inr s'" "mc_ok T s"
  shows "mc_ok T s'"
proof -
  obtain i where i: "ReportInfo s n = Some i" "report_status i = Reported"
    and s': "mc_frame s' (s\<lparr>ReportInfo := (ReportInfo s)(n := None)\<rparr>)"
    using assms(1) by (auto simp: reporter_cancel_report_def mc_frame_def put_defs split: option.splits if_splits)
  show ?thesis using ok_remove_report [OF assms(2) i] s' mc_frame_ok by blast
qed

lemma ok_add_encrypted:
  "reporter_add_encrypted_error_info now orig n c e s = Inr s' \<Longrightarrow> mc_ok T s \<Longrightarrow> mc_ok T s'"
  using ok_encrypted by (auto simp: reporter_add_encrypted_error_info_def Let_def split: option.splits if_splits)

lemma frame_apply_review: "mc_apply_slash_review T now orig n r s = Inr s' \<Longrightarrow> mc_frame s' s"
  by (auto simp: mc_apply_slash_review_def dest: mc_frame_reviews split: option.splits sum.splits if_splits)

lemma frame_cancel_slash: "cancel_reporter_slash T now orig n s = Inr s' \<Longrightarrow> mc_frame s' s"
  by (auto simp: cancel_reporter_slash_def Let_def dest: mc_frame_reviews split: option.splits sum.splits if_splits)

lemma frame_stake_calls:
  "reporter_add_stake T orig v s = Inr s' \<Longrightarrow> mc_frame s' s" "reporter_reduce_stake T orig v s = Inr s' \<Longrightarrow> mc_frame s' s"
  "set_reporter_stake_params orig p s = Inr s' \<Longrightarrow> mc_frame s' s"
  by (auto simp: reporter_add_stake_def reporter_reduce_stake_def set_reporter_stake_params_def
    dest: mc_frame_stakes split: option.splits if_splits)

lemma ok_dispatch:
  assumes "mc_dispatch T now orig c s = Inr s'" "NextReportId s < 2 ^ 64 - 1" "mc_ok T s"
  shows "mc_ok T s'"
proof (cases c)
  case (SetReporterStakeParams p) then show ?thesis using assms frame_stake_calls(3) mc_frame_ok by fastforce
next
  case (ReportMachineFaultCall f) then show ?thesis using assms ok_report_machine_fault by fastforce
next
  case (ReporterAddStakeCall v) then show ?thesis using assms frame_stake_calls(1) mc_frame_ok by fastforce
next
  case (ReporterReduceStakeCall v) then show ?thesis using assms frame_stake_calls(2) mc_frame_ok by fastforce
next
  case (ReporterCancelReport n) then show ?thesis using assms ok_cancel_report by fastforce
next
  case (CommitteeBookReportCall n) then show ?thesis using assms ok_committee_book_report by fastforce
next
  case (ReporterAddEncryptedErrorInfo n a e) then show ?thesis using assms ok_add_encrypted by fastforce
next
  case (CommitteeSubmitVerifyHash n h) then show ?thesis using assms ok_submit_hash by fastforce
next
  case (CommitteeSubmitVerifyRaw n m rid rr cr e x b) then show ?thesis using assms ok_submit_raw by fastforce
next
  case (CommitteeSubmitInaccessibleRaw n r b) then show ?thesis using assms ok_submit_inaccessible_raw by fastforce
next
  case (ApplySlashReview n r) then show ?thesis using assms frame_apply_review mc_frame_ok by fastforce
next
  case (CancelReporterSlash n) then show ?thesis using assms frame_cancel_slash mc_frame_ok by fastforce
qed

subsection \<open>The hooks\<close>

lemma frame_exec_slash_loop: "mc_frame (fst (exec_slash_loop T ns s)) s"
proof (induction ns arbitrary: s)
  case (Cons n ns)
  have "mc_frame (exec_slash_of T n r s) s" for r by (simp add: exec_slash_of_def Let_def)
  then show ?case using Cons mc_frame_trans by (fastforce split: option.splits)
qed simp

lemma frame_exec_review_loop: "mc_frame (exec_review_loop T now ns s) s"
proof (induction ns arbitrary: s)
  case (Cons n ns)
  have ign: "mc_frame (ignoring (on_mc_profile f) s) s" for f by (rule mc_frame_ignoring) (rule mc_frame_profile)
  then have "mc_frame (exec_review_of T n v r s) s" for v r by (simp add: exec_review_of_def Let_def)
  then show ?case using Cons mc_frame_trans by (fastforce split: option.splits)
qed simp

lemma frame_on_initialize: "mc_frame (mc_on_initialize T now s) s"
proof -
  have "mc_frame (mc_exec_slash T now s1) s1" for s1
    using frame_exec_slash_loop [of T "UnhandledReportResult s1 now" s1]
    by (auto simp: mc_exec_slash_def Let_def split_beta)
  then show ?thesis
    unfolding mc_on_initialize_def exec_review_def using frame_exec_review_loop mc_frame_trans by blast
qed

text \<open>What a step of a summary does: it keeps the invariant and makes at most one report.\<close>

definition summary_ok :: "'w mc_config \<Rightarrow> 'w mc_state \<Rightarrow> 'w mc_state \<Rightarrow> bool" where
  "summary_ok T s s' \<longleftrightarrow> mc_ok T s' \<and> NextReportId s' \<le> Suc (NextReportId s)"

lemma summary_ok_fold:
  assumes "\<And>n live s. mc_ok T s \<Longrightarrow> NextReportId s < 2 ^ 64 - 1 \<Longrightarrow> summary_ok T s (snd (f n (live, s)))"
    and "mc_ok T s" "NextReportId s + length ns < 2 ^ 64 - 1"
  shows "mc_ok T (snd (fold f ns (live, s))) \<and> NextReportId (snd (fold f ns (live, s))) \<le> NextReportId s + length ns"
  using assms(2,3)
proof (induction ns arbitrary: live s)
  case (Cons n ns)
  obtain live1 s1 where f: "f n (live, s) = (live1, s1)" by (cases "f n (live, s)")
  have "mc_ok T s1" "NextReportId s1 \<le> Suc (NextReportId s)"
    using assms(1) [OF Cons.prems(1), of n live] Cons.prems(2) f by (simp_all add: summary_ok_def)
  then show ?case using Cons.IH [of s1 live1] Cons.prems(2) f by simp
qed simp

lemma NextReportId_updates [simp]:
  "NextReportId (put_result n r s) = NextReportId s" "NextReportId (put_reporter_report a l s) = NextReportId s"
  "NextReportId (update_unhandled_report n b t s) = NextReportId s"
  "NextReportId (ignoring (mc_used_stake T a v b) s) = NextReportId s"
  "ReportInfo (ignoring (mc_used_stake T a v b) s) = ReportInfo s"
  "CommitteeOrder (ignoring (mc_used_stake T a v b) s) = CommitteeOrder s"
  "ReportInfo (put_result n r s) = ReportInfo s" "ReportInfo (put_reporter_report a l s) = ReportInfo s"
  "ReportInfo (update_unhandled_report n b t s) = ReportInfo s"
  using mc_frame_ignoring_used [of T a v b s] by (simp_all add: put_defs mc_frame_def)

lemma ok_reset_ops:
  assumes "mc_ok T s" "\<And>i. ReportInfo s n = Some i \<Longrightarrow> a \<notin> set (ri_confirmed i)"
  shows "mc_ok T (put_report_ops a n ops s)"
  using ok_put_report_ops [OF assms(1)] assms(2) by blast

lemma ok_status:
  assumes "mc_ok T s" "ReportInfo s n = Some i" "report_ok (i\<lparr>report_status := st\<rparr>)"
  shows "mc_ok T (put_report n (i\<lparr>report_status := st\<rparr>) s)"
  using assms(3) ok_report_info [OF assms(1,2)] by (intro ok_put_report [OF assms(1,2)]) (simp_all add: votes_open_def)

subsubsection \<open>Inaccessible machines\<close>

lemma close_orders_ok:
  "mc_ok T s \<Longrightarrow> ReportInfo s n = Some i \<Longrightarrow>
     mc_ok T (snd (close_orders n i as (r, s))) \<and> ReportInfo (snd (close_orders n i as (r, s))) = ReportInfo s \<and>
     NextReportId (snd (close_orders n i as (r, s))) = NextReportId s"
proof (induction as arbitrary: r s)
  case (Cons a as)
  show ?case
  proof (cases "is_confirmed_committee a i")
    case True
    have "mc_ok T (change_order a (clean_when_summary n True) s)" using Cons.prems(1) by (rule ok_clean_orders)
    then show ?thesis using True Cons.IH Cons.prems by simp
  next
    case False
    then have "a \<notin> set (ri_confirmed i)"
      using ok_report_info [OF Cons.prems] report_ok_asc il.member_ok unfolding is_confirmed_committee_def by blast
    then have "mc_ok T (put_report_ops a n default_report_ops s)" using ok_reset_ops Cons.prems by fastforce
    then have "mc_ok T (change_order a (clean_when_summary n False) (put_report_ops a n default_report_ops s))"
      by (rule ok_clean_orders)
    then show ?thesis using False Cons.IH Cons.prems by simp
  qed
qed simp

lemma report_again_ok:
  assumes "mc_ok T s" "NextReportId s < 2 ^ 64 - 1"
  shows "summary_ok T s (snd (report_again now n i r rep (live, s)))"
  using assms ok_new_report(1,2) [OF _ assms(2,1)]
  by (auto simp: report_again_def summary_ok_def Let_def split: option.splits)

lemma judge_inaccessible_ok:
  assumes "mc_ok T s" "ReportInfo s n = Some i"
  shows "summary_ok T s (snd (judge_inaccessible T n i r rep (live, s)))"
proof -
  let ?off = "if length (against_committee i) \<le> length (support_committee i)
    then on_mc_profile (mt_machine_offline (mc_op T) (ri_reporter i) (support_committee i) (ri_machine_id i)
      (into_op_err (fault_type i) (ri_report_time i))) s else Some s"
  show ?thesis
  proof (cases ?off)
    case None
    then show ?thesis using assms by (simp add: judge_inaccessible_def summary_ok_def Let_def split: if_splits)
  next
    case (Some s1)
    then have f: "mc_frame s1 s" using mc_frame_profile by (auto split: if_splits)
    then have s1: "mc_ok T s1" "ReportInfo s1 n = Some i" "NextReportId s1 = NextReportId s"
      using assms mc_frame_ok mc_frame_reports by metis+
    have "report_ok (i\<lparr>report_status := CommitteeConfirmed\<rparr>)"
      using ok_report_info [OF assms] committee_confirmed_ok by blast
    then have "mc_ok T (put_report n (i\<lparr>report_status := CommitteeConfirmed\<rparr>) (put_reporter_report (ri_reporter i) rep1 s1))"
      for rep1 using s1 by (intro ok_status) simp_all
    then show ?thesis using Some s1(3) by (simp add: judge_inaccessible_def summary_ok_def Let_def split_beta)
  qed
qed

lemma summary_inaccessible_report_ok:
  assumes "mc_ok T s" "NextReportId s < 2 ^ 64 - 1"
  shows "summary_ok T s (snd (summary_inaccessible_report T now n (live, s)))"
proof (cases "ReportInfo s n")
  case (Some i)
  have refl: "summary_ok T s s" using assms(1) by (simp add: summary_ok_def)
  note i = ok_report_info [OF assms(1) Some]
  show ?thesis
  proof (cases "can_summary_inaccessible now i")
    case True
    then have "is_inaccessible (fault_type i)" by (auto simp: can_summary_inaccessible_def split: if_splits)
    then have raw: "summary_ok T s (put_report n (i\<lparr>report_status := SubmittingRaw\<rparr>) s)"
      using ok_status [OF assms(1) Some] submitting_raw_ok i by (simp add: summary_ok_def)
    have close: "summary_ok T s (snd (if ri_confirmed i = [] then report_again now n i r rep (l, s1)
        else judge_inaccessible T n i r rep (l, s1)))"
      if "close_orders n i (ri_booked i) (r0, s) = (r, s1)" for r0 r s1 l rep
    proof -
      have "mc_ok T s1" "ReportInfo s1 n = Some i" "NextReportId s1 = NextReportId s"
        using close_orders_ok [OF assms(1) Some, of "ri_booked i" r0] that Some by simp_all
      then show ?thesis
        using report_again_ok [of T s1] judge_inaccessible_ok [of T s1] assms(2) by (simp add: summary_ok_def)
    qed
    show ?thesis
      using Some True refl raw close
      by (simp add: summary_inaccessible_report_def Let_def split_beta split: option.splits)
  qed (simp add: summary_inaccessible_report_def Some refl)
qed (simp add: summary_inaccessible_report_def summary_ok_def assms(1))

lemma summary_inaccessible_hook_ok:
  assumes "mc_ok T s" "mc_room s"
  shows "mc_ok T (summary_inaccessible_hook T now s)"
proof -
  have "mc_ok T (snd (fold (summary_inaccessible_report T now) (live_reports (LiveReport s)) (LiveReport s, s))) \<and>
      NextReportId (snd (fold (summary_inaccessible_report T now) (live_reports (LiveReport s)) (LiveReport s, s)))
        \<le> NextReportId s + length (live_reports (LiveReport s))"
    using assms by (intro summary_ok_fold summary_inaccessible_report_ok) (simp_all add: mc_room_def)
  then show ?thesis by (simp add: summary_inaccessible_hook_def live_reports_def Let_def split_beta)
qed

subsubsection \<open>The other reports\<close>

lemma release_orders_ok:
  "mc_ok T s \<Longrightarrow> \<forall>i. ReportInfo s n = Some i \<longrightarrow> ri_confirmed i = [] \<Longrightarrow>
     mc_ok T (release_orders T n as s) \<and> NextReportId (release_orders T n as s) = NextReportId s"
proof (induction as arbitrary: s)
  case (Cons a as)
  let ?s = "ignoring (mc_used_stake T a (staked_balance (ReportOps s a n)) False) s"
  have "mc_ok T (put_report_ops a n default_report_ops ?s)"
    using Cons.prems by (intro ok_reset_ops) simp_all
  then have "mc_ok T (change_order a (clean_unfinished_order n) (put_report_ops a n default_report_ops ?s))"
    by (rule ok_clean_orders)
  then show ?case using Cons.IH Cons.prems(2) by simp
qed simp

lemma finish_orders_ok:
  "mc_ok T s \<Longrightarrow> mc_ok T (finish_orders n as s) \<and> ReportInfo (finish_orders n as s) = ReportInfo s \<and>
     NextReportId (finish_orders n as s) = NextReportId s"
  by (induction as arbitrary: s) (simp_all add: ok_clean_orders)

lemma drop_orders_ok:
  "mc_ok T s \<Longrightarrow> \<forall>i. ReportInfo s n = Some i \<longrightarrow> ri_confirmed i = [] \<Longrightarrow>
     mc_ok T (drop_orders n as s) \<and> ReportInfo (drop_orders n as s) = ReportInfo s \<and>
     NextReportId (drop_orders n as s) = NextReportId s"
proof (induction as arbitrary: s)
  case (Cons a as)
  have "mc_ok T (put_report_ops a n default_report_ops s)" using Cons.prems by (intro ok_reset_ops) simp_all
  from ok_clean_orders(6) [OF this] show ?case using Cons.IH Cons.prems(2) by simp
qed simp

text \<open>A member who did not finish is taken off the report and off the orders.\<close>

lemma ok_drop_member:
  assumes "mc_ok T s" "ReportInfo s n = Some i" "report_ok i'" "ri_confirmed i' = []" "ri_booked i' = rm_item v (ri_booked i)"
    and "\<And>c. n \<in> set (booked_report (CommitteeOrder s c)) \<Longrightarrow> c \<noteq> v"
  shows "mc_ok T (put_report n i' s)"
proof (rule ok_put_report [OF assms(1-3)])
  show "votes_open T n (report_hash s n) i'" using assms(3,4) by (rule votes_open_none)
  show "c \<in> set (ri_booked i')" if "n \<in> set (booked_report (CommitteeOrder s c))" "c \<in> set (ri_booked i)" for c
    using that assms(5,6) il.rm_ok [of "ri_booked i" v] report_ok_asc ok_report_info [OF assms(1,2)] by simp
qed

lemma order_removed:
  assumes "mc_ok T s" "booked_report (f (CommitteeOrder s v)) = rm_item n (booked_report (CommitteeOrder s v))"
    and "n \<in> set (booked_report (CommitteeOrder (change_order v f s) c))"
  shows "c \<noteq> v"
proof
  assume "c = v"
  then have "n \<in> set (rm_item n (booked_report (CommitteeOrder s v)))" using assms(2,3) by (simp add: change_order_def)
  then show False using il.rm_ok [OF ok_order [OF assms(1), of v], of n] by blast
qed

lemma summary_before_ok:
  assumes "mc_ok T s"
  shows "summary_ok T s (snd (summary_before_submit_raw T now n rep r (live, s)))"
proof (cases "\<exists>i v. ReportInfo s n = Some i \<and> report_status i = Verifying \<and> verifying_committee i = Some v")
  case True
  then obtain i v where i: "ReportInfo s n = Some i" "report_status i = Verifying" "verifying_committee i = Some v" by blast
  note ok = ok_report_info [OF assms i(1)]
  have c: "ri_confirmed i = []" using ok i(2) by (intro report_ok_open) simp_all
  let ?f = "\<lambda>l. l\<lparr>booked_report := rm_item n (booked_report l)\<rparr>"
  have "mc_ok T (release_orders T n (ri_booked i) (put_reporter_report (ri_reporter i) l s)) \<and>
      NextReportId (release_orders T n (ri_booked i) (put_reporter_report (ri_reporter i) l s)) = NextReportId s" for l
    using release_orders_ok [of T "put_reporter_report (ri_reporter i) l s" n] assms i(1) c by simp
  moreover have 1: "mc_ok T (put_report n (clean_not_submit_hash_committee v i) (change_order v ?f s))"
  proof (rule ok_drop_member)
    show "mc_ok T (change_order v ?f s)" using assms by (rule ok_clean_orders)
    show "report_ok (clean_not_submit_hash_committee v i)" using clean_not_submit_hash_committee_ok ok i by blast
    show "c \<noteq> v" if "n \<in> set (booked_report (CommitteeOrder (change_order v ?f s) c))" for c
      using order_removed [OF assms _ that] by simp
  qed (simp_all add: i c)
  moreover have "mc_ok T (put_report_ops v n default_report_ops
      (put_report n (clean_not_submit_hash_committee v i) (change_order v ?f s)))"
    by (rule ok_reset_ops [OF 1]) (simp add: c)
  ultimately show ?thesis using i assms by (simp add: summary_before_submit_raw_def summary_ok_def Let_def)
next
  case False
  then show ?thesis
    using assms by (auto simp: summary_before_submit_raw_def summary_ok_def Let_def split: option.splits)
qed

lemma summary_after_ok:
  assumes "mc_ok T s"
  shows "summary_ok T s (snd (summary_after_submit_raw T now n (live, s)))"
proof (cases "ReportInfo s n")
  case (Some i)
  note ok = ok_report_info [OF assms Some]
  have raw: "mc_ok T (put_report n (i\<lparr>report_status := SubmittingRaw\<rparr>) s)" if "report_status i = WaitingBook"
    using that ok_status [OF assms Some] submitting_raw_ok ok by blast
  have drop: "mc_ok T (put_report n (clean_not_submit_raw_committee v i) (put_report_ops v n default_report_ops
      (ignoring (mc_used_stake T v b False) (change_order v (clean_unfinished_order n) s))))" (is "mc_ok T (put_report n _ ?s)")
    if v: "verifying_committee i = Some v" for v b
  proof (rule ok_drop_member)
    have c: "ri_confirmed i = []" using ok v by (simp add: report_ok_defs)
    have "mc_ok T (change_order v (clean_unfinished_order n) s)" using assms by (rule ok_clean_orders)
    then show "mc_ok T ?s" by (intro ok_reset_ops) (use Some c in auto)
    show "report_ok (clean_not_submit_raw_committee v i)" using clean_not_submit_raw_committee_ok ok v by blast
    show "ri_confirmed (clean_not_submit_raw_committee v i) = []" using c by simp
    show "c \<noteq> v" if "n \<in> set (booked_report (CommitteeOrder ?s c))" for c
      using order_removed [OF assms, of "clean_unfinished_order n" v n c] that by (simp add: clean_unfinished_order_def)
  qed (simp_all add: Some)
  show ?thesis
    using Some raw drop assms by (simp add: summary_after_submit_raw_def summary_ok_def Let_def split: option.splits)
qed (simp add: summary_after_submit_raw_def summary_ok_def assms Let_def)

lemma summary_verifying_report_ok:
  "mc_ok T s \<Longrightarrow> summary_ok T s (snd (summary_verifying_report T now n (live, s)))"
  using summary_ok_def [of T s s]
  by (simp add: summary_verifying_report_def summary_before_ok summary_after_ok split: option.splits)

lemma judge_fault_ok:
  assumes "mc_ok T s" "ReportInfo s n = Some i" "NextReportId s < 2 ^ 64 - 1" "judge_fault T now n i (live, s) = ((live', s'), ok)"
  shows "mc_ok T s' \<and> ReportInfo s' n = Some i \<and> NextReportId s' \<le> Suc (NextReportId s)"
proof (cases "ri_summary i")
  case (ConfirmedBy sp ag e)
  have fin: "mc_ok T (finish_orders n sp s)" "ReportInfo (finish_orders n sp s) n = Some i"
    "NextReportId (finish_orders n sp s) = NextReportId s"
    using finish_orders_ok [OF assms(1), of n sp] assms(2) by simp_all
  have "mc_frame s' (finish_orders n sp s)"
    using assms(4) ConfirmedBy mc_frame_profile by (auto simp: judge_fault_def Let_def split: option.splits)
  then show ?thesis using fin mc_frame_ok mc_frame_reports(1,2) by (metis le_SucI order_refl)
next
  case (RefusedBy sp ag)
  then show ?thesis using assms finish_orders_ok [OF assms(1), of n "sp @ ag"] by (auto simp: judge_fault_def)
next
  case NoConsensusReached
  let ?s1 = "drop_orders n (ri_booked i) s"
  have "ri_confirmed i = []" using NoConsensusReached by (auto simp: ri_summary_def split: if_splits)
  then have d: "mc_ok T ?s1" "ReportInfo ?s1 = ReportInfo s" "NextReportId ?s1 = NextReportId s"
    using drop_orders_ok [OF assms(1), of n "ri_booked i"] assms(2) by simp_all
  have n: "n < NextReportId ?s1" "NextReportId ?s1 < 2 ^ 64 - 1" using ok_report_info [OF assms(1,2)] d(3) assms(3) by simp_all
  show ?thesis
    using assms(4) NoConsensusReached d assms(2) ok_new_report [OF _ n(2) d(1)] n(1)
    by (auto simp: judge_fault_def Let_def split: option.splits)
qed

lemma summary_submitting_raw_ok:
  assumes "mc_ok T s" "NextReportId s < 2 ^ 64 - 1"
  shows "summary_ok T s (snd (summary_submitting_raw T now n (live, s)))"
proof (cases "\<exists>i. ReportInfo s n = Some i \<and> ri_can_summary now i")
  case True
  then obtain i where i: "ReportInfo s n = Some i" "ri_can_summary now i" by blast
  obtain live2 s1 ok where j: "judge_fault T now n i (lr_get_verify_result n (ri_summary i) live, s) = ((live2, s1), ok)"
    by (metis surj_pair)
  note s1 = judge_fault_ok [OF assms(1) i(1) assms(2) j]
  let ?i = "if report_status i \<noteq> Reported then i\<lparr>report_status := CommitteeConfirmed\<rparr> else i"
  have "mc_ok T (put_report n ?i (put_result n r (update_unhandled_report n b t s1)))" for r b t
  proof (rule ok_put_report)
    show "mc_ok T (put_result n r (update_unhandled_report n b t s1))" using s1 by simp
    show "ReportInfo (put_result n r (update_unhandled_report n b t s1)) n = Some i" using s1 by simp
    have "report_hash (put_result n r (update_unhandled_report n b t s1)) n = report_hash s1 n"
      by (simp add: report_hash_def put_defs)
    then show "votes_open T n (report_hash (put_result n r (update_unhandled_report n b t s1)) n) ?i"
      using ok_report_info [of T s1 n i] s1 by (simp add: votes_open_def)
    show "report_ok ?i" using ok_report_info [of T s1 n i] s1 committee_confirmed_ok by simp
  qed simp
  then show ?thesis using i j s1 by (simp add: summary_submitting_raw_def summary_ok_def Let_def)
next
  case False
  then show ?thesis using assms by (auto simp: summary_submitting_raw_def summary_ok_def split: option.splits)
qed

lemma summary_fault_hook_ok:
  assumes "mc_ok T s" "mc_room s"
  shows "mc_ok T (summary_fault_hook T now s)"
proof -
  let ?live = "LiveReport s" and ?vs = "verifying_report (LiveReport s) @ bookable_report (LiveReport s)"
  obtain live1 s1 where f: "fold (summary_verifying_report T now) ?vs (?live, s) = (live1, s1)" by (metis surj_pair)
  have 1: "mc_ok T (snd (fold (summary_verifying_report T now) ?vs (?live, s))) \<and>
      NextReportId (snd (fold (summary_verifying_report T now) ?vs (?live, s))) \<le> NextReportId s + length ?vs"
    using assms by (intro summary_ok_fold summary_verifying_report_ok) (simp_all add: mc_room_def live_reports_def)
  have "mc_ok T (snd (fold (summary_submitting_raw T now) (waiting_raw_report ?live) (live1, s1))) \<and>
      NextReportId (snd (fold (summary_submitting_raw T now) (waiting_raw_report ?live) (live1, s1)))
        \<le> NextReportId s1 + length (waiting_raw_report ?live)"
    using 1 f assms(2)
    by (intro summary_ok_fold summary_submitting_raw_ok) (simp_all add: mc_room_def live_reports_def)
  then show ?thesis using f by (simp add: summary_fault_hook_def Let_def split_beta)
qed

lemma mc_step_ok: "mc_step T s s' \<Longrightarrow> mc_ok T s \<Longrightarrow> mc_ok T s'"
proof (erule mc_stepE)
  show "mc_ok T s'" if "mc_ok T s" "s' = mc_on_initialize T now s" for now
    using that mc_frame_ok [OF frame_on_initialize] by blast
  show "mc_ok T s'" if "mc_ok T s" "s' = mc_on_finalize T now s" "mc_room s" "mc_room (summary_fault_hook T now s)" for now
    using that summary_inaccessible_hook_ok summary_fault_hook_ok unfolding mc_on_finalize_def by blast
  show "mc_ok T s'" if "mc_ok T s" "s' = s\<lparr>mc_rent := r\<rparr>" for r
    using that by (simp add: mc_ok_def report_hash_def)
qed (simp add: ok_dispatch)

lemma mc_run_ok: "(mc_step T)\<^sup>*\<^sup>* s s' \<Longrightarrow> mc_ok T s \<Longrightarrow> mc_ok T s'"
  by (induction rule: rtranclp_induct) (simp_all add: mc_step_ok)

lemma mc_init_ok: "mc_ok T (mc_init r)"
  by (simp add: mc_ok_def mc_init_def default_committee_order_def)

section \<open>Taking a machine offline\<close>

text \<open>
  The hooks ignore the error of \<open>mt_machine_offline\<close>. It has none for a known machine, so that no half of its
  effects can be left behind: the model, in which an error changes nothing, is exact.
\<close>

lemma snap_changes_return:
  assumes "MachinesInfo s m = Some i"
  shows "\<exists>s'. update_snap_on_online_changed T m b s = Some s'"
    "\<exists>s'. update_snap_on_rent_changed T m b s = Some s' \<and> MachinesInfo s' = MachinesInfo s"
  using assms by (simp_all add: update_snap_on_online_changed_def update_snap_on_rent_changed_def Let_def)

lemma region_keeps_machines [simp]:
  "MachinesInfo (update_region_on_rent_changed i b s) = MachinesInfo s"
  "MachinesInfo (update_region_on_online_changed i b s) = MachinesInfo s"
  by (simp_all add: update_region_on_rent_changed_def update_region_on_online_changed_def update_region_def Let_def)

lemma machine_offline_returns:
  assumes "MachinesInfo s m = Some i"
  shows "\<exists>s'. mt_machine_offline T a cs m f s = Some s'"
proof -
  let ?s1 = "s\<lparr>LiveMachines := on_offline m (LiveMachines s)\<rparr>"
  obtain s2 where s2: "(if machine_status i = Rented
      then update_snap_on_rent_changed T m False (update_region_on_rent_changed i False ?s1) else Some ?s1) = Some s2"
      "MachinesInfo s2 = MachinesInfo s"
    using snap_changes_return(2) [of "update_region_on_rent_changed i False ?s1" m i T False] assms
    by (cases "machine_status i = Rented") auto
  obtain s3 where "update_snap_on_online_changed T m False (update_region_on_online_changed i False s2) = Some s3"
    using snap_changes_return(1) [of "update_region_on_online_changed i False s2" m i T False] assms s2(2) by auto
  then show ?thesis using assms s2(1) by (auto simp: mt_machine_offline_def machine_offline_def Let_def)
qed

section \<open>Properties\<close>

text \<open>
  C3: Votes on a report are committed to before they are revealed. Along every run from genesis in which the
  counter of reports does not wrap around, a report is with at most three members; who revealed had committed,
  and who committed had booked the report; the votes for and against are those of the members who revealed.
  Every vote hashes, with some random string, to what its author committed to; a vote on an ordinary fault
  also agrees with the hash of the reporter.
\<close>
theorem mc_votes_committed:
  assumes "(mc_step T)\<^sup>*\<^sup>* (mc_init r) s" "ReportInfo s n = Some i"
  shows "length (ri_booked i) \<le> 3 \<and> set (ri_confirmed i) \<subseteq> set (ri_hashed i) \<and> set (ri_hashed i) \<subseteq> set (ri_booked i) \<and>
    set (support_committee i) \<union> set (against_committee i) = set (ri_confirmed i) \<and>
    (\<forall>c\<in>set (support_committee i). vote_opens T n (fault_type i) True (report_confirm_hash (ReportOps s c n))) \<and>
    (\<forall>c\<in>set (against_committee i). vote_opens T n (fault_type i) False (report_confirm_hash (ReportOps s c n)))"
  using ok_report_info [OF mc_run_ok [OF assms(1) mc_init_ok] assms(2)]
  unfolding report_ok_def report_lists_ok_def votes_open_def report_hash_def by blast

text \<open>
  C38: A reporter with no stake in use can take back more than was staked. \<open>reporter_reduce_stake\<close> then compares
  the amount with nothing: the call succeeds for every amount and unreserves it, whatever it was reserved for.
  The stakes recorded by online-profile and the deposits recorded by rent-machine are left as they were.
\<close>
theorem mc_reduce_stake_unchecked:
  fixes T :: "'w mc_config"
  defines "C \<equiv> op_Currency (mc_op T)"
  assumes "reservable_currency C" "ReporterStakeParams s = Some p" "rs_used_stake (ReporterStake s who) = 0"
  shows "\<exists>s'. reporter_reduce_stake T (Signed who) v s = Inr s' \<and>
    reserved_balance C (mc_committee s') who = reserved_balance C (mc_committee s) who - v \<and>
    free_balance C (mc_committee s') who =
      free_balance C (mc_committee s) who + min v (reserved_balance C (mc_committee s) who) \<and>
    rs_staked_amount (ReporterStake s' who) = rs_staked_amount (ReporterStake s who) - v \<and>
    StashStake (mc_profile s') = StashStake (mc_profile s) \<and> UserTotalStake (mc_rent s') = UserTotalStake (mc_rent s)"
  using assms(3,4) reservable_currency.unreserve_reserved [OF assms(2), of who v "mc_committee s" who]
    reservable_currency.unreserve_free [OF assms(2), of who v "mc_committee s" who]
  by (simp add: reporter_reduce_stake_def change_reporter_stake_def ensure_signed_def put_defs Let_def int_ops C_def)


section \<open>A run\<close>

definition mc_ledger :: "ledger gf_state mc_config" where
  "mc_ledger =
     \<lparr>mc_op = chain_op, mc_cm = chain_cm, mc_SlashAndReward = cm_slash_and_reward, mc_CancelSlashOrigin = ensure_root,
      mc_blake2_128 = (\<lambda>b. take 2 (rev b)), mc_review_iter = (\<lambda>f. sorted_list_of_set (dom f))\<rparr>"

lemma mc_ledger_sel:
  "mc_op mc_ledger = chain_op" "mc_cm mc_ledger = chain_cm" "mc_blake2_128 mc_ledger b = take 2 (rev b)"
  by (simp_all add: mc_ledger_def)

lemma mc_ledger_currency: "reservable_currency (op_Currency (mc_op mc_ledger))"
  unfolding mc_ledger_sel chain_sel gf_currency_def gf_ledger_sel
  by (intro lift_reservable_currency ledger.reservable_currency_axioms) simp_all

text \<open>Account 1 has rented the machine \<open>[9]\<close>.\<close>

definition mc_demo_rent :: "ledger gf_state cm_state rm_state" where
  "mc_demo_rent = (rm_init (op_init demo_committee))\<lparr>RentInfo := [0 \<mapsto> new_rent_order [9] 1 0 100 0 1 [0]]\<rparr>"

definition mc_demo_params :: reporter_stake_params_info where
  "mc_demo_params = \<lparr>reporter_stake_baseline = 200, stake_per_report = 100, reporter_min_free_percent = 0\<rparr>"

definition mc_demo_fault :: machine_fault_type where
  "mc_demo_fault = FaultInaccessible [9] 0"

abbreviation mc_demo_report :: report_info_detail where
  "mc_demo_report \<equiv> ri_new 1 1 mc_demo_fault 100"

lemmas mc_eval = mc_ledger_sel chain_sel Let_def ensure_signed_def list_defs int_ops put_defs put_report_def
  put_report_ops_def change_order_def

lemmas mc_demo_defs = mc_demo_rent_def mc_demo_params_def mc_demo_fault_def mc_init_def rm_init_def op_init_def
  demo_committee_def cm_init_def default_reporter_stake_def default_reporter_report_def default_live_report_def

lemma mc_demo_reported:
  "\<exists>s1 s2. set_reporter_stake_params Root mc_demo_params (mc_init mc_demo_rent) = Inr s1 \<and> NextReportId s1 = 0 \<and>
     report_machine_fault mc_ledger 1 (Signed 1) mc_demo_fault s1 = Inr s2 \<and> NextReportId s2 = 1 \<and>
     ReportInfo s2 0 = Some mc_demo_report \<and>
     LiveReport s2 = default_live_report\<lparr>bookable_report := [0]\<rparr> \<and>
     ReportOps s2 = (\<lambda>_ _. default_report_ops) \<and> CommitteeOrder s2 = (\<lambda>_. default_committee_order)"
  by (simp add: set_reporter_stake_params_def ensure_root_def report_machine_fault_def check_inaccessible_def
    mc_pay_fixed_tx_fee_def pay_fixed_tx_fee_def pay_stake_when_report_def do_report_machine_fault_def get_new_report_id_def
    lr_new_report_def rr_new_report_def new_rent_order_def lift_currency_sel gf_currency_def gf_ledger_sel ledger_defs
    slash_to_fee_def gf_deposit_event_def ledger_take_def mc_eval mc_demo_defs)

abbreviation mc_demo_booked :: report_info_detail where
  "mc_demo_booked \<equiv> mc_demo_report\<lparr>ri_booked := [2], first_book_time := 10, confirm_start := 60, report_status := WaitingBook\<rparr>"

lemma mc_demo_book:
  assumes "ReportInfo s 0 = Some mc_demo_report" "mc_rent s = mc_demo_rent" "CommitteeOrder s 2 = default_committee_order"
    "ReportOps s 2 0 = default_report_ops"
  shows "\<exists>s'. committee_book_report mc_ledger 10 (Signed 2) 0 s = Inr s' \<and> ReportInfo s' 0 = Some mc_demo_booked \<and>
    booked_report (CommitteeOrder s' 2) = [0] \<and> order_status (ReportOps s' 2 0) = OrderVerifying \<and>
    LiveReport s' = LiveReport s \<and> NextReportId s' = NextReportId s"
  using assms
  by (simp add: committee_book_report_def is_valid_committee_def is_normal_def stake_per_order_def can_book_def ri_new_def
    mc_demo_fault_def is_inaccessible_def mc_pay_fixed_tx_fee_def pay_fixed_tx_fee_def mc_book_report_def ri_book_report_def
    report_times od_book_report_def lr_book_report_def lift_currency_sel gf_currency_def gf_ledger_sel ledger_defs
    slash_to_fee_def gf_deposit_event_def ledger_take_def mc_eval mc_demo_rent_def rm_init_def op_init_def demo_committee_def
    cm_init_def default_list_def default_committee_order_def default_report_ops_def)

lemma mc_demo_hash:
  assumes "ReportInfo s 0 = Some mc_demo_booked" "booked_report (CommitteeOrder s 2) = [0]"
    "order_status (ReportOps s 2 0) = OrderVerifying" "LiveReport s = default_live_report\<lparr>bookable_report := [0]\<rparr>"
  shows "\<exists>s'. committee_submit_verify_hash 12 (Signed 2) 0 [49, 7] s = Inr s' \<and>
    ReportInfo s' 0 = Some (mc_demo_booked\<lparr>ri_hashed := [2]\<rparr>) \<and> report_confirm_hash (ReportOps s' 2 0) = [49, 7] \<and>
    LiveReport s' = default_live_report\<lparr>bookable_report := [0]\<rparr> \<and> NextReportId s' = NextReportId s"
  using assms
  by (simp add: committee_submit_verify_hash_def co_can_submit_hash_def od_can_submit_hash_def ri_can_submit_hash_def
    ri_new_def mc_demo_fault_def is_inaccessible_def ri_add_hash_def lr_submit_hash_def od_add_hash_def mc_eval)

lemma mc_demo_finalize:
  assumes "ReportInfo s 0 = Some (mc_demo_booked\<lparr>ri_hashed := [2]\<rparr>)"
    "LiveReport s = default_live_report\<lparr>bookable_report := [0]\<rparr>"
  shows "summary_fault_hook mc_ledger 60 s = s"
    "ReportInfo (mc_on_finalize mc_ledger 60 s) 0 = Some (mc_demo_booked\<lparr>ri_hashed := [2], report_status := SubmittingRaw\<rparr>)"
    "ReportOps (mc_on_finalize mc_ledger 60 s) = ReportOps s" "NextReportId (mc_on_finalize mc_ledger 60 s) = NextReportId s"
proof -
  show 1: "summary_fault_hook mc_ledger 60 s = s"
    using assms by (simp add: summary_fault_hook_def summary_verifying_report_def can_summary_fault_def ri_new_def
      mc_demo_fault_def is_inaccessible_def default_live_report_def)
  show "ReportInfo (mc_on_finalize mc_ledger 60 s) 0 = Some (mc_demo_booked\<lparr>ri_hashed := [2], report_status := SubmittingRaw\<rparr>)"
    "ReportOps (mc_on_finalize mc_ledger 60 s) = ReportOps s" "NextReportId (mc_on_finalize mc_ledger 60 s) = NextReportId s"
    using assms unfolding mc_on_finalize_def 1
    by (simp_all add: summary_inaccessible_hook_def summary_inaccessible_report_def can_summary_inaccessible_def ri_new_def
      mc_demo_fault_def is_inaccessible_def default_live_report_def report_times int_ops put_report_def Let_def)
qed

lemma mc_demo_raw:
  assumes "ReportInfo s 0 = Some (mc_demo_booked\<lparr>ri_hashed := [2], report_status := SubmittingRaw\<rparr>)"
    "report_confirm_hash (ReportOps s 2 0) = [49, 7]"
  shows "\<exists>s' i. committee_submit_inaccessible_raw mc_ledger 70 (Signed 2) 0 [7] True s = Inr s' \<and>
    ReportInfo s' 0 = Some i \<and> fault_type i = mc_demo_fault \<and> support_committee i = [2] \<and>
    report_confirm_hash (ReportOps s' 2 0) = [49, 7]"
  using assms
  by (simp add: committee_submit_inaccessible_raw_def can_submit_inaccessible_raw_def ri_new_def mc_demo_fault_def
    is_inaccessible_def inaccessible_hash_def get_hash_def record_raw_def ri_add_raw_def od_add_raw_def mc_eval)

theorem mc_votes_committed_witness:
  "\<exists>s i. (mc_step mc_ledger)\<^sup>*\<^sup>* (mc_init mc_demo_rent) s \<and> ReportInfo s 0 = Some i \<and> support_committee i = [2] \<and>
     2 \<in> set (ri_booked i) \<and> vote_opens mc_ledger 0 mc_demo_fault True [49, 7]"
proof -
  obtain s1 s2 where 1: "set_reporter_stake_params Root mc_demo_params (mc_init mc_demo_rent) = Inr s1" "NextReportId s1 = 0"
    and 2: "report_machine_fault mc_ledger 1 (Signed 1) mc_demo_fault s1 = Inr s2" "NextReportId s2 = 1"
      "ReportInfo s2 0 = Some mc_demo_report" "LiveReport s2 = default_live_report\<lparr>bookable_report := [0]\<rparr>"
      "ReportOps s2 = (\<lambda>_ _. default_report_ops)" "CommitteeOrder s2 = (\<lambda>_. default_committee_order)"
    using mc_demo_reported by blast
  let ?s2 = "s2\<lparr>mc_rent := mc_demo_rent\<rparr>"
  obtain s3 where 3: "committee_book_report mc_ledger 10 (Signed 2) 0 ?s2 = Inr s3" "ReportInfo s3 0 = Some mc_demo_booked"
      "booked_report (CommitteeOrder s3 2) = [0]" "order_status (ReportOps s3 2 0) = OrderVerifying"
      "LiveReport s3 = LiveReport ?s2" "NextReportId s3 = NextReportId ?s2"
    using mc_demo_book [of ?s2] 2 by auto
  obtain s4 where 4: "committee_submit_verify_hash 12 (Signed 2) 0 [49, 7] s3 = Inr s4"
      "ReportInfo s4 0 = Some (mc_demo_booked\<lparr>ri_hashed := [2]\<rparr>)" "report_confirm_hash (ReportOps s4 2 0) = [49, 7]"
      "LiveReport s4 = default_live_report\<lparr>bookable_report := [0]\<rparr>" "NextReportId s4 = NextReportId s3"
    using mc_demo_hash [OF 3(2-4)] 3(5) 2(4) by auto
  let ?s5 = "mc_on_finalize mc_ledger 60 s4"
  note 5 = mc_demo_finalize [OF 4(2,4)]
  obtain s6 i where 6: "committee_submit_inaccessible_raw mc_ledger 70 (Signed 2) 0 [7] True ?s5 = Inr s6"
      "ReportInfo s6 0 = Some i" "fault_type i = mc_demo_fault" "support_committee i = [2]"
      "report_confirm_hash (ReportOps s6 2 0) = [49, 7]"
    using mc_demo_raw [OF 5(2)] 4(3) 5(3) by auto
  have room: "mc_room s4" using 4 3 2 by (simp add: mc_room_def live_reports_def default_live_report_def)
  have n0: "NextReportId (mc_init mc_demo_rent) = 0" by (simp add: mc_init_def)
  have "mc_step mc_ledger (mc_init mc_demo_rent) s1"
    by (rule mc_step.mc_called [where c = "SetReporterStakeParams mc_demo_params" and orig = Root]) (simp_all add: 1 n0)
  moreover have "mc_step mc_ledger s1 s2"
    by (rule mc_step.mc_called [where c = "ReportMachineFaultCall mc_demo_fault" and now = 1 and orig = "Signed 1"]) (use 1 2 in simp_all)
  moreover have "mc_step mc_ledger s2 ?s2" by (rule mc_step.mc_others)
  moreover have "mc_step mc_ledger ?s2 s3"
    by (rule mc_step.mc_called [where c = "CommitteeBookReportCall 0" and now = 10 and orig = "Signed 2"]) (simp_all add: 2 3)
  moreover have "mc_step mc_ledger s3 s4"
    by (rule mc_step.mc_called [where c = "CommitteeSubmitVerifyHash 0 [49, 7]" and now = 12 and orig = "Signed 2"])
      (simp_all add: 2 3 4)
  moreover have "mc_step mc_ledger s4 ?s5" by (rule mc_step.mc_finalized) (simp_all add: room 5(1))
  moreover have "mc_step mc_ledger ?s5 s6"
    by (rule mc_step.mc_called [where c = "CommitteeSubmitInaccessibleRaw 0 [7] True" and now = 70 and orig = "Signed 2"])
      (simp_all add: 6 5(4) 2 3 4)
  ultimately have run: "(mc_step mc_ledger)\<^sup>*\<^sup>* (mc_init mc_demo_rent) s6"
    by (meson converse_rtranclp_into_rtranclp rtranclp.rtrancl_refl)
  from mc_votes_committed [OF run 6(2)] have "2 \<in> set (ri_booked i)" "vote_opens mc_ledger 0 mc_demo_fault True [49, 7]"
    using 6 by auto
  then show ?thesis using run 6 by blast
qed

text \<open>Account 5 has staked 1000 for machines, all of it reserved, and takes it back as a reporter.\<close>

definition mc_demo_staker :: "ledger gf_state mc_state" where
  "mc_demo_staker = (mc_init (rm_init ((op_init demo_committee)\<lparr>StashStake := (\<lambda>_. 1000)\<rparr>)))
     \<lparr>ReporterStakeParams := Some mc_demo_params\<rparr>"

theorem mc_reduce_stake_unchecked_witness:
  "\<exists>s'. reserved_balance (op_Currency chain_op) (mc_committee mc_demo_staker) 5 = 1000 \<and>
     reporter_reduce_stake mc_ledger (Signed 5) 1000 mc_demo_staker = Inr s' \<and>
     reserved_balance (op_Currency chain_op) (mc_committee s') 5 = 0 \<and> StashStake (mc_profile s') 5 = 1000"
proof -
  have s: "ReporterStakeParams mc_demo_staker = Some mc_demo_params" "rs_used_stake (ReporterStake mc_demo_staker 5) = 0"
    "reserved_balance (op_Currency chain_op) (mc_committee mc_demo_staker) 5 = 1000" "StashStake (mc_profile mc_demo_staker) 5 = 1000"
    by (simp_all add: mc_demo_staker_def mc_init_def default_reporter_stake_def rm_init_def op_init_def demo_committee_def
      cm_init_def chain_sel gf_currency_def gf_ledger_sel ledger_defs)
  show ?thesis
    using mc_reduce_stake_unchecked [OF mc_ledger_currency s(1,2), of 1000] s(3,4) by (auto simp: mc_ledger_sel)
qed

text \<open>Member 2 has committed; member 3 booked ten minutes before the three hours were over.\<close>

definition mc_demo_late :: "ledger gf_state mc_state" where
  "mc_demo_late = (mc_init mc_demo_rent)
     \<lparr>ReportInfo := [0 \<mapsto> (ri_new 1 1 (FaultRentFailed [1, 2] []) 100)\<lparr>ri_booked := [2, 3], ri_hashed := [2],
        first_book_time := 100, verifying_committee := Some 3, report_status := Verifying\<rparr>],
      ReportOps := (\<lambda>a n. default_report_ops\<lparr>booked_time := 1800\<rparr>)\<rparr>"


end
