(* ===== verification/Spec2Isabelle.thy ===== *)
theory Spec2Isabelle
  imports Task_Mode Compute_Pool Zk_Compute Rent_Machine Online_Committee Maintain_Committee
begin

text \<open>
  A verification library for the runtime pallets of DeepBrainChain 3.0, a Substrate chain on which machines
  with GPUs are registered, verified, rewarded and rented, and on which AI tasks are ordered, scheduled, attested
  and paid for.

  \<^bold>\<open>The parts and how they interact.\<close> All pallets move money through one ledger, the reservable
  currency of the framework. The older half of the system is about machines: owners bond machines in
  \<open>online-profile\<close>, which keeps stakes, grades, rewards and slashes; members of the \<open>committee\<close> verify them;
  \<open>rent-machine\<close> rents their GPUs out and tells \<open>online-profile\<close> about it; \<open>generic-func\<close> collects fees and
  distributes slashed money; \<open>dbc-price-ocw\<close> supplies prices. The newer half is about tasks: \<open>task-mode\<close> takes
  orders, \<open>compute-pool-scheduler\<close> assigns tasks to pools, \<open>agent-attestation\<close> records results and
  \<open>x402-settlement\<close> pays them, \<open>zk-compute\<close> rewards verified proofs.

  \<^bold>\<open>Modelling.\<close> A pallet's storage is a record whose fields have the names of the storage items, with a field
  for the world below it (the ledger and the pallets it calls). A dispatchable is a function from the block
  number, the origin and its arguments to an error or a new state; a failing call leaves the state as it was,
  which is what the framework guarantees. Where a caller ignores an error, the callee returns the state it
  reached. Hooks are functions on states, loops are recursive functions. Integers are natural numbers with
  their width written at each operation (\<open>checked_add 128\<close>, \<open>saturating_sub\<close>, \<open>wrapping_add 32\<close>): the
  release build of the runtime wraps. Vectors kept sorted are lists, maps are partial functions. Code outside
  this repository (the currency, the fixed-point fractions, hashes, signatures, base58, randomness, the order in
  which storage maps are iterated) is a parameter, with its documented behaviour as the laws of a locale; every
  locale is interpreted by concrete definitions, so the laws can hold together.

  \<^bold>\<open>The theories.\<close>
  \<^item> \<open>DBC_Prelude\<close>: integers, origins, bytes, totals over counter-keyed maps.
  \<^item> \<open>Currency\<close>: the interfaces of the currency and of \<open>Percent\<close>/\<open>Perbill\<close>, with reference implementations,
    and how one currency serves several pallets.
  \<^item> \<open>Escrow\<close>: the contract of a pallet that holds reserved money, at three strengths, proved once and
    interpreted by the pallets below.
  \<^item> \<open>Support_Traits\<close>: the traits by which the task pallets call each other (\<open>pallets/support/src/traits.rs\<close>).
  \<^item> \<open>Item_List\<close>: the sorted vectors of \<open>pallets/support/src/primitives.rs\<close>, equal to a reference
    implementation of finite sets.
  \<^item> \<open>Machine_Types\<close>: machines, statuses, stakes, rental orders (\<open>pallets/support/src\<close>), allocation of GPUs.
  \<^item> \<open>Support_Utils\<close>: addresses, machine ids and signatures (\<open>pallets/support/src/utils.rs\<close>,
    \<open>pallets/online-profile/src/utils.rs\<close>).
  \<^item> \<open>Dbc_Price\<close>: \<open>pallets/dbc-price-ocw\<close>; the published price stays in the range of the last submissions.
  \<^item> \<open>Generic_Func\<close>: \<open>pallets/generic-func\<close>; where slashed money goes.
  \<^item> \<open>Online_Grades\<close>: the grades of \<open>pallets/online-profile/src/types\<close>; the incremental updates refine a
    definition from scratch over the multiset of machines.
  \<^item> \<open>Online_Profile\<close>: \<open>pallets/online-profile\<close>; stakes stay backed by reserves along every run, storage stays
    well-formed, the reward batches of a day pay everyone.
  \<^item> \<open>Rent_Machine\<close>: \<open>pallets/rent-machine\<close> on top of \<open>Online_Profile\<close>; no GPU is rented twice, orders end,
    deposits are exact, calls return.
  \<^item> \<open>Committee\<close>: \<open>pallets/committee\<close>; the role lists refine one role per account, stakes stay backed.
  \<^item> \<open>Verify_Online\<close>: how machines are judged (\<open>pallets/support/src/verify_online.rs\<close>,
    \<open>verify_committee_slash.rs\<close>); the summary of the votes is the strict majority.
  \<^item> \<open>Online_Committee\<close>: \<open>pallets/online-committee\<close> on top of \<open>Online_Profile\<close> and \<open>Committee\<close>; votes are
    committed to before they are revealed, the work is shared, and two ways in which the protocol fails.
  \<^item> \<open>Report_Types\<close>: the data of fault reports (\<open>pallets/support/src/report/\<close>); the operations keep reports
    well-formed.
  \<^item> \<open>Maintain_Committee\<close>: \<open>pallets/maintain-committee\<close> on top of \<open>Rent_Machine\<close> and \<open>Committee\<close>: reports,
    votes, their summary, slashes and reviews; every counted vote was committed to, in runs in which the counter
    of reports does not wrap around, and two ways in which the code fails.
  \<^item> \<open>Chain_Ledger\<close>: the pallets on one ledger, on which the witnesses of the two committee pallets run.
  \<^item> \<open>Task_Mode\<close>, \<open>X402_Settlement\<close>, \<open>Agent_Attestation\<close>, \<open>Compute_Pool\<close>, \<open>Zk_Compute\<close>: the pallets of the
    same names; reserved balances match the open orders, intents, attestations, escrows and deposits along every
    run, life cycles only move forward, every payout is exact and happens once, and the pool selection is optimal.

  In each theory the definitions come first, in the order of the source, then the invariants and effect lemmas,
  then the properties, each with a witness that runs the model on the reference ledger.

  \<^bold>\<open>Bounds.\<close> No definition uses fuel. The only loop that may run forever, the search for a fresh order number
  in \<open>rent-machine\<close>, is a partial function in which not returning is the value \<open>None\<close>; the theorem about it says
  for how long every call returns. The other loops run over lists.

  \<^bold>\<open>Not modelled.\<close> Weights, benchmarks, mocks, storage migrations and genesis; the RPC getters and their
  types; the node, the client and the EVM tracing code, which are I/O; the EVM precompiles, which decode ABI
  input and dispatch the calls modelled here. The HTTP and JSON part of the price workers is network I/O. The
  pallets \<open>staking\<close>, \<open>assets\<close> and \<open>nfts\<close> are vendored copies of framework pallets. \<open>terminating-rental\<close>,
  a second rental pallet with a registry of its own, \<open>council-reward\<close>, \<open>dlc-price-ocw\<close>, a copy of
  \<open>dbc-price-ocw\<close> for another price, and \<open>eth-precompile-whitelist\<close> are outside the library so far.
\<close>

end
